(* ===== verification/Prelude.thy ===== *)
theory Prelude
  imports Complex_Main "HOL-Library.Multiset" "HOL-Library.Char_ord" "HOL-Library.List_Lexorder" "HOL-Library.Product_Lexorder"
begin

text \<open>
  Shared vocabulary of the development.  Python values are modelled as follows: \<open>bytes\<close> and
  \<open>str\<close> are character lists (a character is an octet, so a \<open>str\<close> is restricted to code points
  below 256), \<open>int\<close> is the unbounded \<^typ>\<open>int\<close>, \<open>None\<close> is \<^term>\<open>None\<close>, a \<open>Path\<close> is the list of
  its components, an exception is the left value of a sum.  A SQLite table is the list of its rows
  in rowid order; \<open>update_where\<close> is \<open>UPDATE ... WHERE\<close>, \<^const>\<open>filter\<close> is \<open>SELECT ... WHERE\<close>
  and \<open>next_rowid\<close> is the value SQLite gives an \<open>INTEGER PRIMARY KEY\<close>.
\<close>

named_theorems table_simps \<open>rewrite rules for the table operations\<close>
named_theorems frame \<open>which tables an operation leaves as they are\<close>

type_synonym bytes = string
type_synonym path = "string list"

text \<open>
  The exceptions the modelled code raises; the text is the exception's message.  \<open>Unfinished\<close> is none
  of them: it marks a run that went past the model's bound on the pages of a listing.
\<close>

datatype error =
    ProductionPlanError string
  | ReconciliationError string
  | ConfigError string
  | IngestError string
  | ImapError string
  | ImapSyncBusyError
  | IMAP4Error
  | Pop3Error string
  | Pop3SyncBusyError
  | Pop3MutationError string
  | Pop3IdentityConflictError
  | GmailError string
  | GmailAuthError string
  | GmailTransientError string
  | GmailHistoryExpired
  | GmailIdentityConflict
  | GmailSyncBusyError
  | GmailResponseError string
  | GmailUnknownLabelError
  | MutationAuthorizationError
  | RefreshError
  | BorgError string
  | ValueError string
  | RuntimeError string
  | UnicodeError
  | TypeError
  | KeyError
  | IndexError
  | AttributeError
  | OverflowError
  | AssertionError
  | OSError
  | FileExistsError
  | FileNotFoundError
  | TimeoutExpired
  | TimeoutError
  | IntegrityError
  | RequestException
  | TransportError
  | Unfinished

type_synonym 'a result = "error + 'a"

text \<open>Sequential composition and a check, for code that only raises or returns.\<close>

definition rbind :: "'a result \<Rightarrow> ('a \<Rightarrow> 'b result) \<Rightarrow> 'b result" where
  "rbind m f = (case m of Inl e \<Rightarrow> Inl e | Inr x \<Rightarrow> f x)"

definition ensure :: "bool \<Rightarrow> error \<Rightarrow> unit result" where
  "ensure b e = (if b then Inr () else Inl e)"

lemma rbind_simps [simp]: "rbind (Inl e) f = Inl e" "rbind (Inr x) f = f x"
  by (simp_all add: rbind_def)

lemma rbind_Inr: "rbind m f = Inr y \<longleftrightarrow> (\<exists>x. m = Inr x \<and> f x = Inr y)"
  by (cases m) auto

lemma rbind_Inl: "rbind m f = Inl e \<longleftrightarrow> m = Inl e \<or> (\<exists>x. m = Inr x \<and> f x = Inl e)"
  by (cases m) auto

lemma ensure_Inr [simp]: "ensure b e = Inr u \<longleftrightarrow> b"
  by (simp add: ensure_def)

lemma ensure_Inl [simp]: "ensure b e = Inl e' \<longleftrightarrow> \<not> b \<and> e' = e"
  by (auto simp: ensure_def)

text \<open>A loop whose body may raise: the first exception ends it.\<close>

fun map_result :: "('a \<Rightarrow> 'b result) \<Rightarrow> 'a list \<Rightarrow> 'b list result" where
  "map_result f [] = Inr []"
| "map_result f (x # xs) =
     (case f x of Inl e \<Rightarrow> Inl e
      | Inr y \<Rightarrow> (case map_result f xs of Inl e \<Rightarrow> Inl e | Inr ys \<Rightarrow> Inr (y # ys)))"

lemma map_result_length: "map_result f xs = Inr ys \<Longrightarrow> length ys = length xs"
  by (induction xs arbitrary: ys) (auto split: sum.splits)

lemma map_result_list_all2:
  "map_result f xs = Inr ys \<Longrightarrow> list_all2 (\<lambda>x y. f x = Inr y) xs ys"
  by (induction xs arbitrary: ys) (auto split: sum.splits)

lemma map_result_set:
  "map_result f xs = Inr ys \<Longrightarrow> y \<in> set ys \<Longrightarrow> \<exists>x\<in>set xs. f x = Inr y"
  by (induction xs arbitrary: ys) (auto split: sum.splits)

lemma map_result_preimage:
  "map_result f xs = Inr ys \<Longrightarrow> x \<in> set xs \<Longrightarrow> \<exists>y\<in>set ys. f x = Inr y"
  by (induction xs arbitrary: ys) (auto split: sum.splits)

section \<open>Tables\<close>

definition update_where :: "('r \<Rightarrow> bool) \<Rightarrow> ('r \<Rightarrow> 'r) \<Rightarrow> 'r list \<Rightarrow> 'r list" where
  "update_where P f t = map (\<lambda>r. if P r then f r else r) t"

definition next_rowid :: "int list \<Rightarrow> int" where
  "next_rowid ids = (if ids = [] then 1 else Max (set ids) + 1)"

lemma next_rowid_gt: "i \<in> set ids \<Longrightarrow> i < next_rowid ids"
  by (auto simp: next_rowid_def zle_add1_eq_le)

lemma next_rowid_fresh [table_simps, simp]: "next_rowid ids \<notin> set ids"
  using next_rowid_gt by blast

lemma update_where_Nil [table_simps, simp]: "update_where P f [] = []"
  by (simp add: update_where_def)

lemma update_where_Cons [table_simps, simp]:
  "update_where P f (r # t) = (if P r then f r else r) # update_where P f t"
  by (simp add: update_where_def)

lemma update_where_append [table_simps, simp]:
  "update_where P f (t @ u) = update_where P f t @ update_where P f u"
  by (simp add: update_where_def)

lemma length_update_where [table_simps, simp]: "length (update_where P f t) = length t"
  by (simp add: update_where_def)

lemma set_update_where:
  "set (update_where P f t) = {r \<in> set t. \<not> P r} \<union> f ` {r \<in> set t. P r}"
  by (auto simp: update_where_def)

lemma update_where_id: "(\<And>r. r \<in> set t \<Longrightarrow> \<not> P r) \<Longrightarrow> update_where P f t = t"
  by (induction t) auto

lemma next_rowid_greater: "\<forall>i \<in> set ids. i < next_rowid ids"
  using next_rowid_gt by blast

text \<open>
  The contract of an \<open>UPDATE\<close> that does not write the key column: it keeps the keys and their
  order, so a row is still found under its key, with the update applied where the condition held.
\<close>

locale keyed_update =
  fixes key :: "'r \<Rightarrow> 'k" and upd :: "'r \<Rightarrow> 'r"
  assumes key_upd: "key (upd r) = key r"
begin

lemma keys_update: "map key (update_where P upd t) = map key t"
  by (induction t) (auto simp: key_upd)

lemma find_update:
  "find (\<lambda>r. key r = k) (update_where P upd t) =
     map_option (\<lambda>r. if P r then upd r else r) (find (\<lambda>r. key r = k) t)"
  by (induction t) (auto simp: key_upd)

lemma distinct_update: "distinct (map key t) \<Longrightarrow> distinct (map key (update_where P upd t))"
  by (simp add: keys_update)

lemma update_update:
  "update_where (\<lambda>r. key r = k) f (update_where (\<lambda>r. key r = k) upd t) =
     update_where (\<lambda>r. key r = k) (\<lambda>r. f (upd r)) t"
  by (induction t) (auto simp: key_upd)

lemma filter_key_update:
  "filter (\<lambda>r. key r = k) (update_where P upd t) =
     update_where P upd (filter (\<lambda>r. key r = k) t)"
  by (induction t) (auto simp: key_upd)

end

lemma find_mem: "find P xs = Some x \<Longrightarrow> x \<in> set xs \<and> P x"
  by (induction xs) (auto split: if_splits)

lemma find_distinct_key:
  "distinct (map key t) \<Longrightarrow> r \<in> set t \<Longrightarrow> key r = k \<Longrightarrow> find (\<lambda>r. key r = k) t = Some r"
  by (induction t) (auto simp: image_iff)

lemma length_filter_key: "distinct (map key t) \<Longrightarrow> length (filter (\<lambda>r. key r = k) t) \<le> 1"
proof (induction t)
  case Nil
  then show ?case by simp
next
  case (Cons r t)
  then show ?case
    by (cases "key r = k") (auto simp: filter_empty_conv image_iff)
qed

text \<open>A join in which every left row has at most one match keeps the left key unique.\<close>

lemma distinct_join:
  assumes "distinct (map key rs)"
    and "\<And>r. r \<in> set rs \<Longrightarrow> length (g r) \<le> 1 \<and> (\<forall>x \<in> set (g r). f x = key r)"
  shows "distinct (map f (concat (map g rs)))"
  using assms
proof (induction rs)
  case Nil
  then show ?case by simp
next
  case (Cons r rs)
  then have rest: "distinct (map f (concat (map g rs)))" by simp
  have sub: "f ` set (concat (map g rs)) \<subseteq> key ` set rs"
    using Cons.prems(2) by fastforce
  have this_row: "f ` set (g r) \<subseteq> {key r}" "distinct (map f (g r))"
    using Cons.prems(2) [of r] by (auto simp: le_Suc_eq length_Suc_conv)
  have apart: "A \<inter> B = {}" if "A \<subseteq> {k}" "B \<subseteq> K" "k \<notin> K" for A B K :: "'z set" and k
    using that by blast
  have "key r \<notin> key ` set rs" using Cons.prems(1) by simp
  then have "f ` set (g r) \<inter> f ` set (concat (map g rs)) = {}"
    by (rule apart [OF this_row(1) sub])
  then have "distinct (map f (g r) @ map f (concat (map g rs)))"
    unfolding distinct_append set_map using rest this_row(2) by blast
  then show ?case by simp
qed

lemma distinct_sort_key: "distinct (map f (sort_key k xs)) = distinct (map f xs)"
proof -
  have "mset (map f (sort_key k xs)) = mset (map f xs)" by simp
  then show ?thesis by (rule mset_eq_imp_distinct_iff)
qed

lemma find_append:
  "find P (xs @ ys) = (case find P xs of Some x \<Rightarrow> Some x | None \<Rightarrow> find P ys)"
  by (induction xs) auto

lemma find_None_iff_filter: "find P xs = None \<longleftrightarrow> filter P xs = []"
  by (induction xs) auto

text \<open>The first of the rows in an order: what \<open>ORDER BY ... LIMIT 1\<close> returns.\<close>

definition first_by :: "('r \<Rightarrow> 'k::linorder) \<Rightarrow> 'r list \<Rightarrow> 'r option" where
  "first_by key rows = (case sort_key key rows of [] \<Rightarrow> None | r # _ \<Rightarrow> Some r)"

lemma first_by_None [simp]: "first_by key rows = None \<longleftrightarrow> rows = []"
proof -
  have "sort_key key rows = [] \<longleftrightarrow> rows = []"
    by (metis length_0_conv length_sort)
  then show ?thesis by (auto simp: first_by_def split: list.splits)
qed

lemma first_by_mem: "first_by key rows = Some r \<Longrightarrow> r \<in> set rows"
  by (auto simp: first_by_def split: list.splits) (metis list.set_intros(1) set_sort)

lemma first_by_least:
  assumes "first_by key rows = Some r" and "s \<in> set rows"
  shows "key r \<le> key s"
proof -
  from assms(1) obtain rs where rs: "sort_key key rows = r # rs"
    by (auto simp: first_by_def split: list.splits)
  have "sorted (map key (r # rs))"
    using sorted_sort_key [of key rows] unfolding rs .
  moreover have "s \<in> set (r # rs)"
    using assms(2) rs by (metis set_sort)
  ultimately show ?thesis by auto
qed

end
