(* ===== verification/PyText.thy ===== *)
theory PyText
  imports Prelude
begin

text \<open>
  The part of Python's text library the program uses: white space and digit tests, \<open>strip\<close>,
  \<open>split\<close>, \<open>lower\<close>, decimal numerals, and \<open>json.dumps\<close> of the values the program serialises
  (no floating point number is ever serialised).  The lemmas are the unique-decoding facts that
  make a serialised record determine its fields.
\<close>

section \<open>Characters\<close>

text \<open>\<open>bytes.split()\<close> and \<open>bytes.strip()\<close>: the six ASCII white space octets.\<close>

definition byte_space :: "char \<Rightarrow> bool" where
  "byte_space c \<longleftrightarrow> of_char c \<in> {9, 10, 11, 12, 13, 32 :: nat}"

text \<open>\<open>str.isspace()\<close> of one character, code points below 256.\<close>

definition str_space :: "char \<Rightarrow> bool" where
  "str_space c \<longleftrightarrow> of_char c \<in> {9, 10, 11, 12, 13, 28, 29, 30, 31, 32, 133, 160 :: nat}"

definition is_digit :: "char \<Rightarrow> bool" where
  "is_digit c \<longleftrightarrow> (48 :: nat) \<le> of_char c \<and> of_char c \<le> (57 :: nat)"

definition is_ascii :: "char \<Rightarrow> bool" where
  "is_ascii c \<longleftrightarrow> of_char c < (128 :: nat)"

definition lower_char :: "char \<Rightarrow> char" where
  "lower_char c = (if (65 :: nat) \<le> of_char c \<and> of_char c \<le> (90 :: nat)
                   then char_of (of_char c + 32 :: nat) else c)"

definition upper_char :: "char \<Rightarrow> char" where
  "upper_char c = (if (97 :: nat) \<le> of_char c \<and> of_char c \<le> (122 :: nat)
                   then char_of (of_char c - 32 :: nat) else c)"

definition strip_by :: "(char \<Rightarrow> bool) \<Rightarrow> string \<Rightarrow> string" where
  "strip_by sp s = rev (dropWhile sp (rev (dropWhile sp s)))"

definition starts_with :: "string \<Rightarrow> string \<Rightarrow> bool" where
  "starts_with p s \<longleftrightarrow> take (length p) s = p"

text \<open>\<open>s.split()\<close>: the maximal runs of characters that are not white space.\<close>

fun split_ws :: "(char \<Rightarrow> bool) \<Rightarrow> string \<Rightarrow> string \<Rightarrow> string list" where
  "split_ws sp cur [] = (if cur = [] then [] else [cur])"
| "split_ws sp cur (c # cs) =
     (if sp c then (if cur = [] then split_ws sp [] cs else cur # split_ws sp [] cs)
      else split_ws sp (cur @ [c]) cs)"

text \<open>\<open>data.split(b"\<^verbatim>\<open>\r\n\<close>")\<close>: cuts at every CR LF, keeping empty pieces.\<close>

fun split_crlf :: "string \<Rightarrow> string \<Rightarrow> string list" where
  "split_crlf cur [] = [cur]"
| "split_crlf cur [c] = [cur @ [c]]"
| "split_crlf cur (c # d # cs) =
     (if c = CHR 0x0D \<and> d = CHR 0x0A then cur # split_crlf [] cs
      else split_crlf (cur @ [c]) (d # cs))"

lemma split_ws_no_space:
  "\<forall>c \<in> set cur. \<not> sp c \<Longrightarrow> w \<in> set (split_ws sp cur cs) \<Longrightarrow> \<forall>c \<in> set w. \<not> sp c"
proof (induction cs arbitrary: cur)
  case Nil
  then show ?case by (simp split: if_splits)
next
  case (Cons c cs)
  show ?case
  proof (cases "sp c")
    case True
    show ?thesis
    proof (cases "cur = [] \<or> w \<noteq> cur")
      case True
      with \<open>sp c\<close> Cons.prems(2) have "w \<in> set (split_ws sp [] cs)" by (cases "cur = []") auto
      then show ?thesis using Cons.IH [of "[]"] by simp
    next
      case False
      with Cons.prems(1) show ?thesis by simp
    qed
  next
    case False
    with Cons.prems(1) have "\<forall>x \<in> set (cur @ [c]). \<not> sp x" by auto
    moreover from False Cons.prems(2) have "w \<in> set (split_ws sp (cur @ [c]) cs)" by simp
    ultimately show ?thesis by (rule Cons.IH)
  qed
qed

lemma split_ws_nonempty: "w \<in> set (split_ws sp cur cs) \<Longrightarrow> w \<noteq> []"
proof (induction cs arbitrary: cur)
  case Nil
  then show ?case by (simp split: if_splits)
next
  case (Cons c cs)
  then show ?case by (cases "sp c"; cases "cur = []") auto
qed

section \<open>Decimal numerals\<close>

definition digit_char :: "nat \<Rightarrow> char" where
  "digit_char d = char_of (48 + d)"

fun nat_text :: "nat \<Rightarrow> string" where
  "nat_text n = (if n < 10 then [digit_char n] else nat_text (n div 10) @ [digit_char (n mod 10)])"

declare nat_text.simps [simp del]

definition int_text :: "int \<Rightarrow> string" where
  "int_text i = (if i < 0 then CHR ''-'' # nat_text (nat (- i)) else nat_text (nat i))"

definition digits_value :: "string \<Rightarrow> nat" where
  "digits_value s = foldl (\<lambda>a c. 10 * a + (of_char c - 48)) 0 s"

lemma of_char_digit: "d < 10 \<Longrightarrow> of_char (digit_char d) = 48 + d"
  by (simp add: digit_char_def)

lemma is_digit_digit_char: "d < 10 \<Longrightarrow> is_digit (digit_char d)"
  by (simp add: is_digit_def of_char_digit)

lemma nat_text_digits: "\<forall>c \<in> set (nat_text n). is_digit c"
proof (induction n rule: nat_text.induct)
  case (1 n)
  then show ?case by (subst nat_text.simps) (auto simp: is_digit_digit_char)
qed

lemma nat_text_nonempty [simp]: "nat_text n \<noteq> []"
  by (subst nat_text.simps) simp

lemma digits_value_nat_text: "digits_value (nat_text n) = n"
proof (induction n rule: nat_text.induct)
  case (1 n)
  show ?case
  proof (cases "n < 10")
    case True
    then show ?thesis by (subst nat_text.simps) (simp add: digits_value_def of_char_digit)
  next
    case False
    with "1.IH" have "digits_value (nat_text (n div 10)) = n div 10" by simp
    with False show ?thesis
      by (subst nat_text.simps) (simp add: digits_value_def of_char_digit)
  qed
qed

lemma nat_text_inject [simp]: "nat_text m = nat_text n \<longleftrightarrow> m = n"
  by (metis digits_value_nat_text)

lemma minus_not_digit: "\<not> is_digit CHR ''-''"
  by (simp add: is_digit_def)

lemma int_text_inject [simp]: "int_text i = int_text j \<longleftrightarrow> i = j"
proof -
  have no_minus: "nat_text m \<noteq> CHR ''-'' # s" for m s
    using nat_text_digits [of m] minus_not_digit by auto
  show ?thesis
    unfolding int_text_def
    using no_minus by (auto simp: nat_eq_iff split: if_splits) (metis no_minus)+
qed

definition number_char :: "char \<Rightarrow> bool" where
  "number_char c \<longleftrightarrow> is_digit c \<or> c = CHR ''-''"

lemma int_text_chars: "\<forall>c \<in> set (int_text i). number_char c"
  using nat_text_digits by (auto simp: int_text_def number_char_def)

text \<open>
  Unique decoding of a numeral followed by a terminator, and of any text over an alphabet
  followed by a character outside it.
\<close>

lemma span_unique:
  assumes "\<forall>c \<in> set x. P c" "\<forall>c \<in> set y. P c" "\<not> P d"
    and "x @ d # u = y @ d # v"
  shows "x = y \<and> u = v"
  using assms
proof (induction x arbitrary: y)
  case Nil
  then show ?case by (cases y) auto
next
  case (Cons a x)
  then show ?case by (cases y) auto
qed

lemma int_text_append_inject:
  assumes "\<not> number_char d" and "int_text i @ d # u = int_text j @ d # v"
  shows "i = j \<and> u = v"
  using span_unique [OF int_text_chars int_text_chars assms] by simp

section \<open>More of the text library\<close>

text \<open>\<open>str.encode()\<close>: UTF-8 of the code points below 256.\<close>

definition utf8_char :: "char \<Rightarrow> bytes" where
  "utf8_char c = (if is_ascii c then [c]
     else [char_of (192 + of_char c div 64 :: nat), char_of (128 + of_char c mod 64 :: nat)])"

definition utf8 :: "string \<Rightarrow> bytes" where
  "utf8 s = concat (map utf8_char s)"

text \<open>\<open>s.isdigit()\<close> of bytes, and \<open>int(s)\<close> of a digit text: over 4300 digits Python raises.\<close>

definition all_digits :: "string \<Rightarrow> bool" where
  "all_digits s \<longleftrightarrow> s \<noteq> [] \<and> list_all is_digit s"

definition py_int :: "string \<Rightarrow> int result" where
  "py_int s = (if length s > 4300 then Inl (ValueError ''int'') else Inr (int (digits_value s)))"

definition strip_prefix :: "string \<Rightarrow> string \<Rightarrow> string option" where
  "strip_prefix p s = (if starts_with p s then Some (drop (length p) s) else None)"

lemma strip_prefix_append [simp]: "strip_prefix p (p @ s) = Some s"
  by (simp add: strip_prefix_def starts_with_def)

text \<open>
  \<open>re.findall\<close> of a pattern with one group: \<open>m start s\<close> matches at the beginning of \<open>s\<close> (which is
  the beginning of the text when \<open>start\<close>) and gives the group and the number of characters
  consumed; matches do not overlap, and none of the patterns matches the empty text.
\<close>

type_synonym matcher = "bool \<Rightarrow> string \<Rightarrow> (string \<times> nat) option"

fun find_all :: "matcher \<Rightarrow> bool \<Rightarrow> nat \<Rightarrow> string \<Rightarrow> string list" where
  "find_all m start skip [] = []"
| "find_all m start (Suc skip) (c # cs) = find_all m False skip cs"
| "find_all m start 0 (c # cs) =
     (case m start (c # cs) of None \<Rightarrow> find_all m False 0 cs
      | Some (g, n) \<Rightarrow> g # find_all m False (n - 1) cs)"

text \<open>
  \<open>str.casefold()\<close> below code point 256.  The micro sign folds to a Greek letter, which nothing else
  here folds to, so it stands for itself: equality of folded texts is the same.
\<close>

definition casefold_char :: "char \<Rightarrow> string" where
  "casefold_char c =
     (let n = of_char c :: nat in
      if (65 \<le> n \<and> n \<le> 90) \<or> (192 \<le> n \<and> n \<le> 222 \<and> n \<noteq> 215) then [char_of (n + 32)]
      else if n = 223 then ''ss'' else [c])"

definition casefold :: "string \<Rightarrow> string" where
  "casefold s = concat (map casefold_char s)"

text \<open>\<open>part in s\<close> for texts.\<close>

definition contains :: "string \<Rightarrow> string \<Rightarrow> bool" where
  "contains part s \<longleftrightarrow> list_ex (\<lambda>k. starts_with part (drop k s)) [0..<Suc (length s)]"

section \<open>JSON\<close>

datatype json =
    JNull
  | JBool bool
  | JInt int
  | JStr string
  | JArr "json list"
  | JObj "(string \<times> json) list"

definition hex_digit :: "nat \<Rightarrow> char" where
  "hex_digit d = (if d < 10 then char_of (48 + d) else char_of (87 + d))"

definition hex_escape :: "nat \<Rightarrow> string" where
  "hex_escape n = [CHR 0x5C, CHR ''u'', hex_digit (n div 4096 mod 16), hex_digit (n div 256 mod 16),
     hex_digit (n div 16 mod 16), hex_digit (n mod 16)]"

text \<open>\<open>json.dumps\<close> with \<open>ensure_ascii\<close>: the escape of one character.\<close>

definition json_char :: "char \<Rightarrow> string" where
  "json_char c =
     (if c = CHR 0x22 then [CHR 0x5C, CHR 0x22]
      else if c = CHR 0x5C then [CHR 0x5C, CHR 0x5C]
      else if c = CHR 0x0A then [CHR 0x5C, CHR ''n'']
      else if c = CHR 0x0D then [CHR 0x5C, CHR ''r'']
      else if c = CHR 0x09 then [CHR 0x5C, CHR ''t'']
      else if c = CHR 0x0C then [CHR 0x5C, CHR ''f'']
      else if c = CHR 0x08 then [CHR 0x5C, CHR ''b'']
      else if (32 :: nat) \<le> of_char c \<and> of_char c \<le> (126 :: nat) then [c]
      else hex_escape (of_char c))"

definition json_string :: "string \<Rightarrow> string" where
  "json_string s = CHR 0x22 # concat (map json_char s) @ [CHR 0x22]"

fun join :: "string \<Rightarrow> string list \<Rightarrow> string" where
  "join sep [] = []"
| "join sep [x] = x"
| "join sep (x # y # xs) = x @ sep @ join sep (y # xs)"

text \<open>\<open>json.dumps(value, separators=(item_sep, key_sep))\<close>, members in the order given.\<close>

fun dumps :: "string \<Rightarrow> string \<Rightarrow> json \<Rightarrow> string"
  and dumps_member :: "string \<Rightarrow> string \<Rightarrow> string \<times> json \<Rightarrow> string" where
  "dumps isep ksep JNull = ''null''"
| "dumps isep ksep (JBool b) = (if b then ''true'' else ''false'')"
| "dumps isep ksep (JInt i) = int_text i"
| "dumps isep ksep (JStr s) = json_string s"
| "dumps isep ksep (JArr xs) = ''['' @ join isep (map (dumps isep ksep) xs) @ '']''"
| "dumps isep ksep (JObj kvs) = ''{'' @ join isep (map (dumps_member isep ksep) kvs) @ ''}''"
| "dumps_member isep ksep (k, v) = json_string k @ ksep @ dumps isep ksep v"

text \<open>
  \<open>json.dumps(dict)\<close> with the default separators, without and with \<open>sort_keys=True\<close>; the
  dictionaries the program passes have string keys and scalar or list values.
\<close>

definition json_text :: "(string \<times> json) list \<Rightarrow> string" where
  "json_text kvs = dumps '', '' '': '' (JObj kvs)"

definition json_sorted :: "(string \<times> json) list \<Rightarrow> string" where
  "json_sorted kvs = json_text (sort_key fst kvs)"

definition json_opt :: "string option \<Rightarrow> json" where
  "json_opt x = (case x of None \<Rightarrow> JNull | Some s \<Rightarrow> JStr s)"

text \<open>
  Every escape sequence begins with a character that decides its length and never with a quote, so
  an escaped string followed by its closing quote is uniquely decodable.
\<close>

definition hex_value :: "char \<Rightarrow> nat" where
  "hex_value c = (if of_char c < (58 :: nat) then of_char c - 48 else of_char c - 87)"

lemma hex_value_hex_digit: "d < 16 \<Longrightarrow> hex_value (hex_digit d) = d"
  by (simp add: hex_value_def hex_digit_def)

definition unescape1 :: "string \<Rightarrow> (char \<times> string) option" where
  "unescape1 s =
     (case s of [] \<Rightarrow> None
      | a # r \<Rightarrow>
          if a \<noteq> CHR 0x5C then Some (a, r)
          else (case r of [] \<Rightarrow> None
            | b # q \<Rightarrow>
                if b = CHR ''u''
                then Some (char_of (16 * hex_value (q ! 2) + hex_value (q ! 3)), drop 4 q)
                else if b = CHR ''n'' then Some (CHR 0x0A, q)
                else if b = CHR ''r'' then Some (CHR 0x0D, q)
                else if b = CHR ''t'' then Some (CHR 0x09, q)
                else if b = CHR ''f'' then Some (CHR 0x0C, q)
                else if b = CHR ''b'' then Some (CHR 0x08, q)
                else Some (b, q)))"

lemma unescape1_hex:
  fixes c :: char
  shows "unescape1 (hex_escape (of_char c) @ x) = Some (c, x)"
proof -
  have "of_char c < (256 :: nat)" by simp
  then have "16 * hex_value (hex_digit (of_char c div 16 mod 16)) +
      hex_value (hex_digit (of_char c mod 16)) = (of_char c :: nat)"
    using mult_div_mod_eq [of 16 "of_char c :: nat"]
    by (simp add: hex_value_hex_digit less_mult_imp_div_less)
  then show ?thesis
    by (simp add: unescape1_def hex_escape_def numeral_2_eq_2 numeral_3_eq_3)
qed

lemma unescape1_json_char: "unescape1 (json_char c @ x) = Some (c, x)"
  unfolding json_char_def using unescape1_hex [of c x] by (auto simp: unescape1_def)

lemma json_char_inject: "json_char c @ x = json_char d @ y \<Longrightarrow> c = d \<and> x = y"
  using unescape1_json_char by (metis option.inject prod.inject)

lemma json_char_no_quote: "json_char c @ x \<noteq> CHR 0x22 # y"
proof
  assume eq: "json_char c @ x = CHR 0x22 # y"
  have "unescape1 (CHR 0x22 # y) = Some (CHR 0x22, y)" by (simp add: unescape1_def)
  with eq unescape1_json_char [of c x] have "c = CHR 0x22" by simp
  with eq show False by (simp add: json_char_def)
qed

lemma json_body_inject:
  "concat (map json_char s) @ CHR 0x22 # u = concat (map json_char t) @ CHR 0x22 # v
     \<Longrightarrow> s = t \<and> u = v"
proof (induction s arbitrary: t)
  case Nil
  show ?case
  proof (cases t)
    case Nil
    with \<open>concat (map json_char []) @ CHR 0x22 # u = concat (map json_char t) @ CHR 0x22 # v\<close>
    show ?thesis by simp
  next
    case (Cons d t')
    with Nil have "json_char d @ (concat (map json_char t') @ CHR 0x22 # v) = CHR 0x22 # u" by simp
    with json_char_no_quote show ?thesis by blast
  qed
next
  case (Cons c s)
  show ?case
  proof (cases t)
    case Nil
    with Cons.prems have "json_char c @ (concat (map json_char s) @ CHR 0x22 # u) = CHR 0x22 # v"
      by simp
    with json_char_no_quote show ?thesis by blast
  next
    case (Cons d t')
    with Cons.prems have "json_char c @ (concat (map json_char s) @ CHR 0x22 # u) =
        json_char d @ (concat (map json_char t') @ CHR 0x22 # v)" by simp
    from json_char_inject [OF this] Cons.IH [of t'] Cons show ?thesis by simp
  qed
qed

lemma json_string_append_inject:
  "json_string s @ u = json_string t @ v \<longleftrightarrow> s = t \<and> u = v"
  using json_body_inject [of s u t v] by (auto simp: json_string_def)

end
