(* ===== verification/Models.thy ===== *)
theory Models
  imports PyText
begin

text \<open>
  The typed configuration of \<open>models.py\<close> (the frozen dataclasses, one record each), the canonical
  message record, the constants and redaction of \<open>safety.py\<close>, and the host: what the program reads
  from outside itself (digests, clock, date parsing, symlink resolution, environment variables).
\<close>

datatype provider = Imap | Gmail | Pop3

datatype tls_mode = IMAPS | POP3S | STARTTLS | INSECURE_LOOPBACK

datatype encryption_mode = Repokey | RepokeyBlake2 | NoEncryption

datatype storage_state = Pending | Archived | Quarantined

fun provider_text :: "provider \<Rightarrow> string" where
  "provider_text Imap = ''imap''"
| "provider_text Gmail = ''gmail''"
| "provider_text Pop3 = ''pop3''"

lemma provider_text_inject [simp]: "provider_text a = provider_text b \<longleftrightarrow> a = b"
  by (cases a; cases b) auto

record fast_path_config =
  fp_idle_enabled :: bool
  fp_reconcile_interval_seconds :: int
  fp_poll_interval_seconds :: int

record imap_config =
  ic_host :: string
  ic_port :: int
  ic_username :: string
  ic_tls_mode :: tls_mode
  ic_folders :: "string list"
  ic_connection_timeout_seconds :: int
  ic_fast_path :: fast_path_config

record gmail_config =
  gc_account_email :: string
  gc_oauth_client_secret_file :: path
  gc_poll_interval_seconds :: int
  gc_remote_delete_token_file :: "path option"

record pop3_config =
  pc_host :: string
  pc_port :: int
  pc_username :: string
  pc_tls_mode :: tls_mode
  pc_connection_timeout_seconds :: int

record backup_repository_config =
  br_name :: string
  br_enabled :: bool
  br_repository_ref :: string
  br_encryption_mode :: encryption_mode
  br_passphrase_env :: "string option"
  br_verification_policy :: string
  br_command_timeout_seconds :: int

record account_config =
  ac_name :: string
  ac_kind :: provider
  ac_enabled :: bool
  ac_remote_retention_days :: "int option"
  ac_remote_deletion_enabled :: bool
  ac_required_verified_backups :: int
  ac_config_ref :: string
  ac_imap :: "imap_config option"
  ac_gmail :: "gmail_config option"
  ac_pop3 :: "pop3_config option"

record retention_config =
  rc_remote_retention_days_default :: int
  rc_required_verified_backups_default :: int

record remote_deletion_config =
  rd_max_per_run :: int
  rd_max_per_account :: int

record app_config =
  cf_archive_root :: path
  cf_timezone :: string
  cf_database_path :: path
  cf_accounts :: "account_config list"
  cf_backup_repositories :: "backup_repository_config list"
  cf_retention :: retention_config
  cf_remote_deletion :: remote_deletion_config

record canonical_message =
  cm_id :: string
  cm_account_id :: int
  cm_sha256 :: string
  cm_local_path :: path
  cm_size_bytes :: int
  cm_message_id_header :: "string option"
  cm_message_date :: "string option"
  cm_downloaded_at :: string
  cm_archived_at :: "string option"
  cm_integrity_status :: string
  cm_integrity_verified_at :: "string option"
  cm_created_at :: string
  cm_storage_state :: storage_state
  cm_quarantined_at :: "string option"

text \<open>\<open>next((a for a in config.accounts if a.name == name), None)\<close>, the lookup every module uses.\<close>

definition config_account :: "app_config \<Rightarrow> string \<Rightarrow> account_config option" where
  "config_account cfg name = find (\<lambda>a. ac_name a = name) (cf_accounts cfg)"

lemma config_account_Some:
  "config_account cfg name = Some a \<Longrightarrow> a \<in> set (cf_accounts cfg) \<and> ac_name a = name"
  unfolding config_account_def by (drule find_mem) simp

definition redact_secret_reference :: "string \<Rightarrow> string" where
  "redact_secret_reference value = (if value = [] then ''<empty>'' else ''<redacted>'')"

section \<open>The host\<close>

text \<open>
  A \<open>datetime\<close> is an instant in microseconds, with or without a time zone.  An aware value is
  given in UTC (\<open>astimezone(UTC)\<close> is part of the reading).  \<open>datetime.max\<close> bounds additions.
\<close>

datatype py_datetime = Aware int | Naive int

definition datetime_max :: int where
  "datetime_max = 253402300799999999"

definition day_us :: int where
  "day_us = 86400000000"

text \<open>\<open>t + timedelta(days=d)\<close> for a non-negative \<open>d\<close>: past \<open>datetime.max\<close> Python raises.\<close>

definition add_days :: "int \<Rightarrow> int \<Rightarrow> int result" where
  "add_days t d =
     (if d > 999999999 \<or> t + d * day_us > datetime_max then Inl OverflowError
      else Inr (t + d * day_us))"

record host =
  h_sha256 :: "bytes \<Rightarrow> string"
  h_clock :: "nat \<Rightarrow> int"
  h_isoformat :: "int \<Rightarrow> string"
  h_fromisoformat :: "string \<Rightarrow> py_datetime option"
  h_resolve :: "path \<Rightarrow> path option"
  h_environ :: "string \<Rightarrow> string option"

text \<open>The text of the \<open>k\<close>-th reading of the clock: \<open>utc_now()\<close>.\<close>

definition stamp :: "host \<Rightarrow> nat \<Rightarrow> string" where
  "stamp H k = h_isoformat H (h_clock H k)"

text \<open>
  What the code relies on of the host, as named hypotheses: a written UTC time is read back as the
  same instant, a digest has 64 characters, the clock does not run backwards.
\<close>

definition iso_roundtrip :: "host \<Rightarrow> bool" where
  "iso_roundtrip H \<longleftrightarrow> (\<forall>t. h_fromisoformat H (h_isoformat H t) = Some (Aware t))"

definition clock_monotone :: "host \<Rightarrow> bool" where
  "clock_monotone H \<longleftrightarrow> (\<forall>i j. i \<le> j \<longrightarrow> h_clock H i \<le> h_clock H j)"

section \<open>The file system\<close>

text \<open>
  What opening a path reaches: a regular file with its bytes, a regular file that cannot be read,
  or a directory.  No modelled operation creates a symbolic link, so \<open>h_resolve\<close> is fixed.
\<close>

datatype node = RegFile bytes | Unreadable | Directory

type_synonym fs = "path \<Rightarrow> node option"

definition is_file :: "fs \<Rightarrow> path \<Rightarrow> bool" where
  "is_file F p \<longleftrightarrow> (case F p of Some (RegFile b) \<Rightarrow> True | Some Unreadable \<Rightarrow> True | _ \<Rightarrow> False)"

definition file_exists :: "fs \<Rightarrow> path \<Rightarrow> bool" where
  "file_exists F p \<longleftrightarrow> F p \<noteq> None"

text \<open>\<open>None\<close> is an \<open>OSError\<close>.\<close>

definition read_bytes :: "fs \<Rightarrow> path \<Rightarrow> bytes option" where
  "read_bytes F p = (case F p of Some (RegFile b) \<Rightarrow> Some b | _ \<Rightarrow> None)"

definition sha256_file :: "host \<Rightarrow> fs \<Rightarrow> path \<Rightarrow> string result" where
  "sha256_file H F p = (case read_bytes F p of None \<Rightarrow> Inl OSError | Some b \<Rightarrow> Inr (h_sha256 H b))"

fun is_prefix_of :: "path \<Rightarrow> path \<Rightarrow> bool" where
  "is_prefix_of [] p = True"
| "is_prefix_of (x # xs) [] = False"
| "is_prefix_of (x # xs) (y # ys) = (x = y \<and> is_prefix_of xs ys)"

lemma is_prefix_of_iff: "is_prefix_of p q \<longleftrightarrow> (\<exists>r. q = p @ r)"
  by (induction p q rule: is_prefix_of.induct) auto

end
