(* ===== verification/Database.thy ===== *)
theory Database
  imports Models
begin

text \<open>
  The SQLite inventory of \<open>db.py\<close> at schema version 13: one record per table row, the database as
  the record of its tables, the \<open>CHECK\<close> constraints of the tables the modelled operations write,
  and the operations of \<open>db.py\<close> itself (account lookup, canonical registration, audit events,
  reconciliation of accounts and repositories with the configuration).  A column whose \<open>CHECK\<close>
  lists its values is a datatype; NULL is \<^term>\<open>None\<close>.  A transaction that raises leaves the
  database as it was.
\<close>

section \<open>Rows\<close>

record account_row =
  ar_id :: int
  ar_name :: string
  ar_kind :: provider
  ar_enabled :: bool
  ar_remote_retention_days :: "int option"
  ar_remote_deletion_enabled :: bool
  ar_required_verified_backups :: int
  ar_config_ref :: string
  ar_created_at :: string
  ar_updated_at :: string

record audit_row =
  ae_id :: int
  ae_timestamp :: string
  ae_actor :: string
  ae_event_type :: string
  ae_account_id :: "int option"
  ae_canonical_message_id :: "string option"
  ae_result :: string
  ae_details_json :: string

record remote_row =
  rm_id :: string
  rm_account_id :: int
  rm_provider_kind :: provider
  rm_remote_folder :: "string option"
  rm_uidvalidity :: "int option"
  rm_remote_uid :: "int option"
  rm_provider_message_id :: "string option"
  rm_provider_thread_id :: "string option"
  rm_message_id_header :: "string option"
  rm_first_seen_at :: string
  rm_last_seen_at :: string
  rm_remote_present :: bool
  rm_identity_confidence :: string

record link_row =
  lk_remote_message_id :: string
  lk_canonical_message_id :: string
  lk_link_reason :: string
  lk_created_at :: string

datatype verdict = Ham | Suspect | Spam

record classification_row =
  cl_id :: int
  cl_canonical_message_id :: string
  cl_classification :: verdict
  cl_score :: "real option"
  cl_reason :: string
  cl_classifier :: string
  cl_classifier_version :: "string option"
  cl_manual_override :: bool
  cl_classified_at :: string

record control_row =
  rt_canonical_message_id :: string
  rt_keep_online :: bool
  rt_legal_hold :: bool
  rt_reason :: string
  rt_updated_at :: string

record evaluation_run_row =
  er_id :: int
  er_evaluated_at :: string
  er_policy_version :: string

record evaluation_row =
  ev_id :: int
  ev_evaluation_run_id :: int
  ev_remote_message_id :: string
  ev_canonical_message_id :: "string option"
  ev_evaluated_at :: string
  ev_eligible :: bool
  ev_reason_codes_json :: string
  ev_policy_version :: string
  ev_remote_retention_days :: "int option"
  ev_required_verified_backups :: int
  ev_verified_repository_count :: int
  ev_retention_deadline :: "string option"

datatype run_mode = DryRunMode | FakeExecute | ProductionExecute

datatype run_status = RunPlanned | RunCompleted | RunHalted

record mutation_run_row =
  mr_id :: int
  mr_requested_at :: string
  mr_completed_at :: "string option"
  mr_mode :: run_mode
  mr_status :: run_status
  mr_account_filter :: "string option"
  mr_requested_limit :: "int option"
  mr_effective_max_per_run :: int
  mr_effective_max_per_account :: int
  mr_eligible_count :: int
  mr_selected_count :: int
  mr_skipped_limit_count :: int
  mr_policy_version :: string
  mr_source_plan_run_id :: "int option"
  mr_authorization_method :: "string option"

datatype mutation_status = Planned | DryRun | Started | Succeeded | Failed | Unknown

fun mutation_status_text :: "mutation_status \<Rightarrow> string" where
  "mutation_status_text Planned = ''planned''"
| "mutation_status_text DryRun = ''dry-run''"
| "mutation_status_text Started = ''started''"
| "mutation_status_text Succeeded = ''succeeded''"
| "mutation_status_text Failed = ''failed''"
| "mutation_status_text Unknown = ''unknown''"

record mutation_row =
  mu_id :: int
  mu_run_id :: int
  mu_deletion_evaluation_id :: int
  mu_account_id :: int
  mu_remote_message_id :: string
  mu_canonical_message_id :: string
  mu_provider_kind :: provider
  mu_operation :: string
  mu_remote_folder :: "string option"
  mu_uidvalidity :: "int option"
  mu_remote_uid :: "int option"
  mu_provider_message_id :: "string option"
  mu_canonical_sha256 :: string
  mu_target_fingerprint :: string
  mu_dry_run :: bool
  mu_requested_at :: string
  mu_started_at :: "string option"
  mu_completed_at :: "string option"
  mu_status :: mutation_status
  mu_provider_response_summary :: "string option"
  mu_error_code :: "string option"
  mu_source_plan_mutation_id :: "int option"
  mu_reconciled_at :: "string option"

record repository_row =
  rp_id :: int
  rp_name :: string
  rp_repository_ref :: string
  rp_repository_identity :: "string option"
  rp_enabled :: bool
  rp_encryption_mode :: encryption_mode
  rp_verification_policy :: string
  rp_created_at :: string
  rp_updated_at :: string

datatype backup_status = BackupRunning | BackupSucceeded | BackupFailed

datatype verification_status = Unverified | Verified | VerificationFailed

record backup_run_row =
  bk_id :: string
  bk_repository_id :: int
  bk_started_at :: string
  bk_completed_at :: "string option"
  bk_status :: backup_status
  bk_archive_name :: string
  bk_command_exit_code :: "int option"
  bk_manifest_sha256 :: "string option"
  bk_verification_status :: verification_status
  bk_verified_at :: "string option"
  bk_last_error_kind :: "string option"
  bk_details_json :: string

record evidence_row =
  be_canonical_message_id :: string
  be_backup_run_id :: string
  be_covered :: bool
  be_verified :: bool
  be_recorded_at :: string

record label_row =
  lb_account_id :: int
  lb_label_id :: string
  lb_name :: string
  lb_label_type :: string
  lb_remote_present :: bool
  lb_first_seen_at :: string
  lb_last_seen_at :: string

record message_label_row =
  ml_remote_message_id :: string
  ml_account_id :: int
  ml_label_id :: string

record sync_state_row =
  ss_account_id :: int
  ss_history_id :: "string option"
  ss_full_sync_required :: bool
  ss_last_sync_started_at :: "string option"
  ss_last_sync_succeeded_at :: "string option"
  ss_last_full_sync_succeeded_at :: "string option"
  ss_last_partial_sync_succeeded_at :: "string option"
  ss_last_error_at :: "string option"
  ss_last_error_kind :: "string option"
  ss_updated_at :: string

record health_row =
  hl_account_id :: int
  hl_remote_folder :: string
  hl_mode :: string
  hl_watcher_started_at :: "string option"
  hl_last_heartbeat_at :: "string option"
  hl_last_event_at :: "string option"
  hl_last_sync_started_at :: "string option"
  hl_last_sync_succeeded_at :: "string option"
  hl_last_index_succeeded_at :: "string option"
  hl_last_error_at :: "string option"
  hl_last_error_kind :: "string option"
  hl_consecutive_failures :: int
  hl_reconnect_count :: int
  hl_index_pending :: bool
  hl_updated_at :: string

record attachment_row =
  at_id :: string
  at_sha256 :: string
  at_size_bytes :: int
  at_content_path :: path
  at_first_seen_at :: string

record message_attachment_row =
  ma_canonical_message_id :: string
  ma_attachment_id :: string
  ma_part_index :: int
  ma_filename_original :: "string option"
  ma_content_disposition :: "string option"
  ma_declared_mime_type :: "string option"

record restore_test_row =
  bt_id :: int
  bt_backup_run_id :: string
  bt_started_at :: string
  bt_completed_at :: "string option"
  bt_status :: backup_status
  bt_error_kind :: "string option"

section \<open>The database and the world\<close>

record db =
  accounts :: "account_row list"
  audit_events :: "audit_row list"
  canonical_messages :: "canonical_message list"
  remote_messages :: "remote_row list"
  remote_canonical_links :: "link_row list"
  classifications :: "classification_row list"
  backup_repositories :: "repository_row list"
  backup_runs :: "backup_run_row list"
  message_backup_evidence :: "evidence_row list"
  retention_controls :: "control_row list"
  deletion_evaluation_runs :: "evaluation_run_row list"
  deletion_evaluations :: "evaluation_row list"
  remote_mutation_runs :: "mutation_run_row list"
  remote_mutations :: "mutation_row list"
  gmail_labels :: "label_row list"
  gmail_message_labels :: "message_label_row list"
  gmail_sync_state :: "sync_state_row list"
  fast_path_health :: "health_row list"
  attachments :: "attachment_row list"
  message_attachments :: "message_attachment_row list"
  backup_restore_tests :: "restore_test_row list"

definition empty_db :: db where
  "empty_db = \<lparr>accounts = [], audit_events = [], canonical_messages = [], remote_messages = [],
     remote_canonical_links = [], classifications = [], backup_repositories = [],
     backup_runs = [], message_backup_evidence = [], retention_controls = [],
     deletion_evaluation_runs = [], deletion_evaluations = [], remote_mutation_runs = [],
     remote_mutations = [], gmail_labels = [], gmail_message_labels = [], gmail_sync_state = [],
     fast_path_health = [], attachments = [], message_attachments = [], backup_restore_tests = []\<rparr>"

text \<open>
  The world an operation runs in: the database, the files, the number of clock readings so far and
  whatever the provider side keeps (a parameter, the type \<open>'p\<close>).
\<close>

record 'p world =
  w_db :: db
  w_fs :: fs
  w_tick :: nat
  w_net :: 'p

definition reading :: "host \<Rightarrow> 'p world \<Rightarrow> nat \<Rightarrow> string" where
  "reading H w k = stamp H (w_tick w + k)"

definition commit :: "db \<Rightarrow> nat \<Rightarrow> 'p world \<Rightarrow> 'p world" where
  "commit d n w = w\<lparr>w_db := d, w_tick := w_tick w + n\<rparr>"

definition tick :: "nat \<Rightarrow> 'p world \<Rightarrow> 'p world" where
  "tick n w = w\<lparr>w_tick := w_tick w + n\<rparr>"

lemma world_simps [simp]:
  "w_db (commit d n w) = d" "w_fs (commit d n w) = w_fs w" "w_net (commit d n w) = w_net w"
  "w_tick (commit d n w) = w_tick w + n"
  "w_db (tick n w) = w_db w" "w_fs (tick n w) = w_fs w" "w_net (tick n w) = w_net w"
  "w_tick (tick n w) = w_tick w + n"
  by (simp_all add: commit_def tick_def)

section \<open>CHECK constraints\<close>

text \<open>Table \<open>canonical_messages\<close> (migration 8).\<close>

definition canonical_check :: "canonical_message \<Rightarrow> bool" where
  "canonical_check c \<longleftrightarrow>
     length (cm_sha256 c) = 64 \<and> 0 \<le> cm_size_bytes c \<and>
     cm_integrity_status c \<in> {''verified'', ''failed''} \<and>
     ((cm_storage_state c = Pending \<and> cm_archived_at c = None \<and> cm_quarantined_at c = None) \<or>
      (cm_storage_state c = Archived \<and> cm_archived_at c \<noteq> None) \<or>
      (cm_storage_state c = Quarantined \<and> cm_quarantined_at c \<noteq> None))"

text \<open>Table \<open>retention_controls\<close> (migration 11).\<close>

definition control_check :: "control_row \<Rightarrow> bool" where
  "control_check r \<longleftrightarrow>
     1 \<le> length (rt_reason r) \<and> length (rt_reason r) \<le> 256 \<and> (rt_keep_online r \<or> rt_legal_hold r)"

text \<open>Table \<open>deletion_evaluations\<close> (migration 11).\<close>

definition evaluation_check :: "evaluation_row \<Rightarrow> bool" where
  "evaluation_check e \<longleftrightarrow>
     ev_policy_version e = ''retention-v1'' \<and> 1 \<le> ev_required_verified_backups e \<and>
     0 \<le> ev_verified_repository_count e \<and>
     (case ev_remote_retention_days e of None \<Rightarrow> True | Some d \<Rightarrow> 0 < d)"

text \<open>Identity columns of \<open>remote_messages\<close> (migration 7) and \<open>remote_mutations\<close> (migration 13).\<close>

definition identity_check ::
  "provider \<Rightarrow> string option \<Rightarrow> int option \<Rightarrow> int option \<Rightarrow> string option \<Rightarrow> bool" where
  "identity_check kind folder uidvalidity uid pmid \<longleftrightarrow>
     (kind = Imap \<and> folder \<noteq> None \<and> uidvalidity \<noteq> None \<and> uid \<noteq> None \<and> pmid = None) \<or>
     (kind \<noteq> Imap \<and> pmid \<noteq> None \<and> folder = None \<and> uidvalidity = None \<and> uid = None)"

definition remote_check :: "remote_row \<Rightarrow> bool" where
  "remote_check r \<longleftrightarrow>
     rm_identity_confidence r = ''proven'' \<and>
     identity_check (rm_provider_kind r) (rm_remote_folder r) (rm_uidvalidity r) (rm_remote_uid r)
       (rm_provider_message_id r) \<and>
     (case rm_uidvalidity r of None \<Rightarrow> True | Some v \<Rightarrow> 0 < v) \<and>
     (case rm_remote_uid r of None \<Rightarrow> True | Some u \<Rightarrow> 0 < u)"

definition response_summaries :: "string list" where
  "response_summaries = [''confirmed-absent'', ''confirmed-no-mutation'', ''outcome-uncertain'']"

definition mutation_error_codes :: "string list" where
  "mutation_error_codes =
     [''NONE'', ''TARGET_NOT_FOUND'', ''IDENTITY_MISMATCH'', ''PROVIDER_REJECTED'',
      ''TRANSPORT_UNKNOWN'', ''ADAPTER_EXCEPTION'', ''STALE_PLAN'', ''INVALID_ADAPTER_RESULT'',
      ''AUTHORIZATION_FAILED'', ''PLAN_EXPIRED'', ''REMOTE_STATE_CONFLICT'',
      ''SAFE_DELETE_UNSUPPORTED'', ''RECONCILED_PRESENT'']"

definition mutation_check :: "mutation_row \<Rightarrow> bool" where
  "mutation_check m \<longleftrightarrow>
     mu_operation m = ''delete'' \<and>
     length (mu_canonical_sha256 m) = 64 \<and> length (mu_target_fingerprint m) = 64 \<and>
     (case mu_provider_response_summary m of None \<Rightarrow> True | Some s \<Rightarrow> s \<in> set response_summaries) \<and>
     (case mu_error_code m of None \<Rightarrow> True | Some c \<Rightarrow> c \<in> set mutation_error_codes) \<and>
     identity_check (mu_provider_kind m) (mu_remote_folder m) (mu_uidvalidity m) (mu_remote_uid m)
       (mu_provider_message_id m)"

definition mutation_run_check :: "mutation_run_row \<Rightarrow> bool" where
  "mutation_run_check r \<longleftrightarrow>
     1 \<le> mr_effective_max_per_run r \<and> 1 \<le> mr_effective_max_per_account r \<and>
     0 \<le> mr_eligible_count r \<and> 0 \<le> mr_selected_count r \<and> 0 \<le> mr_skipped_limit_count r \<and>
     (if mr_mode r = ProductionExecute
      then mr_source_plan_run_id r \<noteq> None \<and>
           mr_authorization_method r = Some ''account-opt-in+explicit-plan-v1''
      else mr_source_plan_run_id r = None \<and> mr_authorization_method r = None)"

text \<open>Unique index \<open>one_production_execution_per_plan\<close> (migration 13).\<close>

definition one_execution_per_plan :: "mutation_run_row list \<Rightarrow> bool" where
  "one_execution_per_plan runs \<longleftrightarrow>
     distinct (map mr_source_plan_run_id (filter (\<lambda>r. mr_mode r = ProductionExecute) runs))"

section \<open>Keys\<close>

text \<open>The primary keys and unique columns of the tables the modelled operations write.\<close>

definition unique_keys :: "db \<Rightarrow> bool" where
  "unique_keys d \<longleftrightarrow>
     distinct (map ar_id (accounts d)) \<and> distinct (map ar_name (accounts d)) \<and>
     distinct (map ae_id (audit_events d)) \<and>
     distinct (map cm_id (canonical_messages d)) \<and>
     distinct (map cm_local_path (canonical_messages d)) \<and>
     distinct (map rm_id (remote_messages d)) \<and>
     distinct (map lk_remote_message_id (remote_canonical_links d)) \<and>
     distinct (map rt_canonical_message_id (retention_controls d)) \<and>
     distinct (map er_id (deletion_evaluation_runs d)) \<and>
     distinct (map ev_id (deletion_evaluations d)) \<and>
     distinct (map mr_id (remote_mutation_runs d)) \<and>
     distinct (map mu_id (remote_mutations d))"

end
