(* ===== verification/Inventory.thy ===== *)
theory Inventory
  imports Database
begin

text \<open>
  The operations of \<open>db.py\<close>: active-account lookup, canonical-message lookup and registration,
  audit events, and the reconciliation of the account and repository tables with the
  configuration that every command runs first (\<open>initialize\<close>; the schema migrations it also runs
  are not modelled, the database is at version 13).
\<close>

section \<open>Lookups\<close>

definition account_id :: "db \<Rightarrow> string \<Rightarrow> int option" where
  "account_id d name =
     map_option ar_id (find (\<lambda>a. ar_name a = name \<and> ar_enabled a) (accounts d))"

definition canonical_message_by_account_and_sha256 ::
  "db \<Rightarrow> int \<Rightarrow> string \<Rightarrow> canonical_message option" where
  "canonical_message_by_account_and_sha256 d aid sha =
     find (\<lambda>c. cm_account_id c = aid \<and> cm_sha256 c = sha) (canonical_messages d)"

definition canonical_message_by_id :: "db \<Rightarrow> string \<Rightarrow> canonical_message option" where
  "canonical_message_by_id d ident = find (\<lambda>c. cm_id c = ident) (canonical_messages d)"

section \<open>Audit events\<close>

text \<open>The identifier the source returns is that of the appended row; no caller reads it.\<close>

definition insert_audit_event ::
  "string \<Rightarrow> string \<Rightarrow> string \<Rightarrow> string \<Rightarrow> int option \<Rightarrow> string option \<Rightarrow> string \<Rightarrow> db \<Rightarrow> db" where
  "insert_audit_event now actor event res aid cid details d =
     d\<lparr>audit_events := audit_events d @
        [\<lparr>ae_id = next_rowid (map ae_id (audit_events d)), ae_timestamp = now, ae_actor = actor,
          ae_event_type = event, ae_account_id = aid, ae_canonical_message_id = cid,
          ae_result = res, ae_details_json = details\<rparr>]\<rparr>"

lemma insert_audit_event_frame [simp]:
  "accounts (insert_audit_event n a e r i c j d) = accounts d"
  "canonical_messages (insert_audit_event n a e r i c j d) = canonical_messages d"
  "remote_messages (insert_audit_event n a e r i c j d) = remote_messages d"
  "remote_canonical_links (insert_audit_event n a e r i c j d) = remote_canonical_links d"
  "classifications (insert_audit_event n a e r i c j d) = classifications d"
  "backup_repositories (insert_audit_event n a e r i c j d) = backup_repositories d"
  "backup_runs (insert_audit_event n a e r i c j d) = backup_runs d"
  "message_backup_evidence (insert_audit_event n a e r i c j d) = message_backup_evidence d"
  "retention_controls (insert_audit_event n a e r i c j d) = retention_controls d"
  "deletion_evaluation_runs (insert_audit_event n a e r i c j d) = deletion_evaluation_runs d"
  "deletion_evaluations (insert_audit_event n a e r i c j d) = deletion_evaluations d"
  "remote_mutation_runs (insert_audit_event n a e r i c j d) = remote_mutation_runs d"
  "remote_mutations (insert_audit_event n a e r i c j d) = remote_mutations d"
  "gmail_labels (insert_audit_event n a e r i c j d) = gmail_labels d"
  "gmail_message_labels (insert_audit_event n a e r i c j d) = gmail_message_labels d"
  "gmail_sync_state (insert_audit_event n a e r i c j d) = gmail_sync_state d"
  "fast_path_health (insert_audit_event n a e r i c j d) = fast_path_health d"
  by (simp_all add: insert_audit_event_def)

lemma insert_audit_event_events:
  "\<exists>row. audit_events (insert_audit_event n a e r i c j d) = audit_events d @ [row]
     \<and> ae_event_type row = e \<and> ae_result row = r"
  by (simp add: insert_audit_event_def)

section \<open>Registration of a canonical message\<close>

text \<open>
  One transaction.  The \<open>CHECK\<close>, the primary key and the unique path make a bad row an exception
  (\<open>sqlite3.IntegrityError\<close>), after which the transaction is rolled back.
\<close>

definition register_canonical_message ::
  "host \<Rightarrow> canonical_message \<Rightarrow> int \<Rightarrow> string \<Rightarrow> string \<Rightarrow> 'p world \<Rightarrow>
     (canonical_message \<times> bool) result \<times> 'p world" where
  "register_canonical_message H msg audit_aid event details w =
     (let d = w_db w;
          existing = canonical_message_by_account_and_sha256 d (cm_account_id msg) (cm_sha256 msg);
          audited = (\<lambda>stored created d'. insert_audit_event (reading H w 0) ''mailarchive.ingest''
             (if created then event else ''ingest.reused'') ''success'' (Some audit_aid)
             (Some (cm_id stored)) details d')
      in case existing of
           Some stored \<Rightarrow> (Inr (stored, False), commit (audited stored False d) 1 w)
         | None \<Rightarrow>
             if \<not> canonical_check msg \<or>
                (\<exists>c \<in> set (canonical_messages d). cm_id c = cm_id msg \<or> cm_local_path c = cm_local_path msg)
             then (Inl IntegrityError, w)
             else (Inr (msg, True),
               commit (audited msg True (d\<lparr>canonical_messages := canonical_messages d @ [msg]\<rparr>)) 1 w))"

section \<open>Reconciliation with the configuration\<close>

definition disable_unconfigured :: "string \<Rightarrow> string list \<Rightarrow> account_row list \<Rightarrow> account_row list" where
  "disable_unconfigured now names t =
     update_where (\<lambda>a. ar_name a \<notin> set names \<and> ar_enabled a)
       (\<lambda>a. a\<lparr>ar_enabled := False, ar_updated_at := now\<rparr>) t"

definition upsert_account :: "string \<Rightarrow> account_config \<Rightarrow> account_row list \<Rightarrow> account_row list" where
  "upsert_account now a t =
     (if \<exists>r \<in> set t. ar_name r = ac_name a
      then update_where (\<lambda>r. ar_name r = ac_name a)
        (\<lambda>r. r\<lparr>ar_kind := ac_kind a, ar_enabled := ac_enabled a,
               ar_remote_retention_days := ac_remote_retention_days a,
               ar_remote_deletion_enabled := ac_remote_deletion_enabled a,
               ar_required_verified_backups := ac_required_verified_backups a,
               ar_config_ref := ac_config_ref a, ar_updated_at := now\<rparr>) t
      else t @ [\<lparr>ar_id = next_rowid (map ar_id t), ar_name = ac_name a, ar_kind = ac_kind a,
                ar_enabled = ac_enabled a, ar_remote_retention_days = ac_remote_retention_days a,
                ar_remote_deletion_enabled = ac_remote_deletion_enabled a,
                ar_required_verified_backups = ac_required_verified_backups a,
                ar_config_ref = ac_config_ref a, ar_created_at = now, ar_updated_at = now\<rparr>])"

fun upsert_accounts ::
  "host \<Rightarrow> nat \<Rightarrow> account_config list \<Rightarrow> account_row list \<Rightarrow> account_row list" where
  "upsert_accounts H k [] t = t"
| "upsert_accounts H k (a # as) t = upsert_accounts H (Suc k) as (upsert_account (stamp H k) a t)"

definition upsert_repository ::
  "string \<Rightarrow> backup_repository_config \<Rightarrow> repository_row list \<Rightarrow> repository_row list" where
  "upsert_repository now b t =
     (if \<exists>r \<in> set t. rp_name r = br_name b
      then update_where (\<lambda>r. rp_name r = br_name b)
        (\<lambda>r. r\<lparr>rp_repository_ref := br_repository_ref b, rp_enabled := br_enabled b,
               rp_encryption_mode := br_encryption_mode b,
               rp_verification_policy := br_verification_policy b, rp_updated_at := now\<rparr>) t
      else t @ [\<lparr>rp_id = next_rowid (map rp_id t), rp_name = br_name b,
                rp_repository_ref = br_repository_ref b, rp_repository_identity = None,
                rp_enabled = br_enabled b, rp_encryption_mode = br_encryption_mode b,
                rp_verification_policy = br_verification_policy b,
                rp_created_at = now, rp_updated_at = now\<rparr>])"

fun upsert_repositories ::
  "host \<Rightarrow> nat \<Rightarrow> backup_repository_config list \<Rightarrow> repository_row list \<Rightarrow> repository_row list" where
  "upsert_repositories H k [] t = t"
| "upsert_repositories H k (b # bs) t =
     upsert_repositories H (Suc k) bs (upsert_repository (stamp H k) b t)"

text \<open>The \<open>CHECK\<close>s of the account and repository tables on what the upserts write.\<close>

definition account_check :: "account_config \<Rightarrow> bool" where
  "account_check a \<longleftrightarrow>
     (case ac_remote_retention_days a of None \<Rightarrow> True | Some d \<Rightarrow> 0 \<le> d) \<and> 0 \<le> ac_required_verified_backups a"

definition repository_check :: "backup_repository_config \<Rightarrow> bool" where
  "repository_check b \<longleftrightarrow> br_verification_policy b = ''borg-archive-data-v1''"

definition initialize ::
  "host \<Rightarrow> account_config list \<Rightarrow> backup_repository_config list \<Rightarrow> 'p world \<Rightarrow> unit result \<times> 'p world" where
  "initialize H accts repos w =
     (if \<not> list_all account_check accts \<or> \<not> list_all repository_check repos
      then (Inl IntegrityError, w)
      else
        let d = w_db w;
            t0 = disable_unconfigured (reading H w 0) (map ac_name accts) (accounts d);
            t1 = upsert_accounts H (w_tick w + 1) accts t0;
            r1 = upsert_repositories H (w_tick w + 1 + length accts) repos (backup_repositories d)
        in (Inr (), commit (d\<lparr>accounts := t1, backup_repositories := r1\<rparr>)
              (1 + length accts + length repos) w))"

text \<open>The account updates keep the identifier and the name.\<close>

interpretation disable_id: keyed_update ar_id "\<lambda>a. a\<lparr>ar_enabled := False, ar_updated_at := now\<rparr>"
  for now by unfold_locales simp

interpretation disable_name: keyed_update ar_name "\<lambda>a. a\<lparr>ar_enabled := False, ar_updated_at := now\<rparr>"
  for now by unfold_locales simp

interpretation upsert_name: keyed_update ar_name
  "\<lambda>r. r\<lparr>ar_kind := ac_kind a, ar_enabled := ac_enabled a,
         ar_remote_retention_days := ac_remote_retention_days a,
         ar_remote_deletion_enabled := ac_remote_deletion_enabled a,
         ar_required_verified_backups := ac_required_verified_backups a,
         ar_config_ref := ac_config_ref a, ar_updated_at := now\<rparr>"
  for a now by unfold_locales simp

interpretation upsert_repo_name: keyed_update rp_name
  "\<lambda>r. r\<lparr>rp_repository_ref := br_repository_ref b, rp_enabled := br_enabled b,
         rp_encryption_mode := br_encryption_mode b,
         rp_verification_policy := br_verification_policy b, rp_updated_at := now\<rparr>"
  for b now by unfold_locales simp

definition find_account :: "string \<Rightarrow> account_row list \<Rightarrow> account_row option" where
  "find_account name t = find (\<lambda>r. ar_name r = name) t"

lemma find_account_disable:
  "find_account n (disable_unconfigured now names t) =
     map_option (\<lambda>r. if n \<notin> set names \<and> ar_enabled r
                      then r\<lparr>ar_enabled := False, ar_updated_at := now\<rparr> else r) (find_account n t)"
proof -
  have "find_account n (disable_unconfigured now names t) =
      map_option (\<lambda>r. if ar_name r \<notin> set names \<and> ar_enabled r
                      then r\<lparr>ar_enabled := False, ar_updated_at := now\<rparr> else r) (find_account n t)"
    by (simp add: find_account_def disable_unconfigured_def disable_name.find_update)
  moreover have "find_account n t = Some r \<Longrightarrow> ar_name r = n" for r
    unfolding find_account_def by (drule find_mem) simp
  ultimately show ?thesis by (cases "find_account n t") auto
qed

lemma find_account_None:
  "find_account n t = None \<longleftrightarrow> n \<notin> ar_name ` set t"
  by (auto simp: find_account_def find_None_iff)

lemma find_account_upsert_other:
  assumes "n \<noteq> ac_name a"
  shows "find_account n (upsert_account now a t) = find_account n t"
proof -
  have "find_account n t = Some r \<Longrightarrow> ar_name r = n" for r
    unfolding find_account_def by (drule find_mem) simp
  with assms show ?thesis
    unfolding find_account_def upsert_account_def
    by (cases "find (\<lambda>r. ar_name r = n) t")
       (auto simp: upsert_name.find_update find_append)
qed

lemma find_account_upsert_same:
  "\<exists>r. find_account (ac_name a) (upsert_account now a t) = Some r \<and> ar_name r = ac_name a \<and>
     ar_enabled r = ac_enabled a \<and>
     (\<forall>r0. find_account (ac_name a) t = Some r0 \<longrightarrow> ar_id r = ar_id r0)"
proof (cases "find_account (ac_name a) t")
  case None
  then show ?thesis
    by (auto simp: find_account_None find_account_def upsert_account_def find_append image_iff
        find_None_iff split: option.splits dest!: find_mem)
next
  case (Some r)
  then have "ar_name r = ac_name a \<and> r \<in> set t"
    unfolding find_account_def by (drule_tac find_mem) simp
  with Some show ?thesis
    by (auto simp: find_account_def upsert_account_def upsert_name.find_update)
qed

lemma distinct_upsert_account:
  "distinct (map ar_name t) \<Longrightarrow> distinct (map ar_name (upsert_account now a t))"
  by (auto simp: upsert_account_def upsert_name.keys_update)

lemma distinct_upsert_accounts:
  "distinct (map ar_name t) \<Longrightarrow> distinct (map ar_name (upsert_accounts H k as t))"
  by (induction as arbitrary: k t) (auto simp: distinct_upsert_account)

lemma find_account_upserts_other:
  "n \<notin> ac_name ` set as \<Longrightarrow> find_account n (upsert_accounts H k as t) = find_account n t"
  by (induction as arbitrary: k t) (auto simp: find_account_upsert_other)

lemma find_account_upserts:
  assumes "distinct (map ac_name as)" "a \<in> set as"
  shows "\<exists>r. find_account (ac_name a) (upsert_accounts H k as t) = Some r \<and>
     ar_name r = ac_name a \<and> ar_enabled r = ac_enabled a \<and>
     (\<forall>r0. find_account (ac_name a) t = Some r0 \<longrightarrow> ar_id r = ar_id r0)"
  using assms
proof (induction as arbitrary: k t)
  case Nil
  then show ?case by simp
next
  case (Cons b as)
  show ?case
  proof (cases "a = b")
    case True
    with Cons.prems have "ac_name a \<notin> ac_name ` set as" by auto
    with True show ?thesis
      using find_account_upsert_same [of a "stamp H k" t] by (simp add: find_account_upserts_other)
  next
    case False
    with Cons.prems have ne: "ac_name a \<noteq> ac_name b" by (force simp: image_iff)
    from Cons.prems False have "distinct (map ac_name as)" "a \<in> set as" by auto
    from Cons.IH [OF this, where k = "Suc k" and t = "upsert_account (stamp H k) b t"]
    show ?thesis by (simp add: find_account_upsert_other [OF ne])
  qed
qed

lemma account_id_find:
  assumes "distinct (map ar_name (accounts d))"
  shows "account_id d n =
     (case find_account n (accounts d) of None \<Rightarrow> None
      | Some r \<Rightarrow> if ar_enabled r then Some (ar_id r) else None)"
proof -
  have "find (\<lambda>a. ar_name a = n \<and> ar_enabled a) t =
      (case find (\<lambda>a. ar_name a = n) t of None \<Rightarrow> None
       | Some r \<Rightarrow> if ar_enabled r then Some r else None)"
    if "distinct (map ar_name t)" for t
    using that
  proof (induction t)
    case Nil
    then show ?case by simp
  next
    case (Cons x t)
    from Cons.prems have "\<forall>r \<in> set t. ar_name r \<noteq> ar_name x"
      by simp (metis imageI)
    then have "ar_name x = n \<Longrightarrow> find (\<lambda>a. ar_name a = n) t = None"
      by (auto simp: find_None_iff)
    with Cons show ?case by auto
  qed
  from this [OF assms] show ?thesis
    by (auto simp: account_id_def find_account_def split: option.splits)
qed

lemma initialize_accounts:
  assumes "initialize H accts repos w = (Inr (), w')"
  shows "accounts (w_db w') = upsert_accounts H (w_tick w + 1) accts
       (disable_unconfigured (reading H w 0) (map ac_name accts) (accounts (w_db w)))"
  using assms by (auto simp: initialize_def Let_def split: if_split_asm)

lemma initialize_distinct:
  assumes "initialize H accts repos w = (Inr (), w')" "distinct (map ar_name (accounts (w_db w)))"
  shows "distinct (map ar_name (accounts (w_db w')))"
  using assms(2) initialize_accounts [OF assms(1)]
  by (simp add: distinct_upsert_accounts disable_unconfigured_def disable_name.keys_update)

text \<open>
  C1.  Reconciliation fails closed: after \<open>initialize\<close> an account name resolves to an active local
  identifier exactly when the configuration lists it as enabled (an account that left the
  configuration is disabled, not deleted).
\<close>

theorem initialize_activates_exactly_configured:
  assumes "initialize H accts repos w = (Inr (), w')"
    and "distinct (map ar_name (accounts (w_db w)))" and "distinct (map ac_name accts)"
  shows "account_id (w_db w') n \<noteq> None \<longleftrightarrow> (\<exists>a \<in> set accts. ac_name a = n \<and> ac_enabled a)"
proof -
  let ?base = "disable_unconfigured (reading H w 0) (map ac_name accts) (accounts (w_db w))"
  let ?new = "upsert_accounts H (w_tick w + 1) accts ?base"
  have id: "account_id (w_db w') n =
      (case find_account n ?new of None \<Rightarrow> None | Some r \<Rightarrow> if ar_enabled r then Some (ar_id r) else None)"
    using account_id_find [OF initialize_distinct [OF assms(1,2)]] initialize_accounts [OF assms(1)] by simp
  show ?thesis
  proof (cases "n \<in> ac_name ` set accts")
    case True
    then obtain a where a: "a \<in> set accts" "n = ac_name a" by auto
    from find_account_upserts [OF assms(3) a(1), where H = H and k = "w_tick w + 1" and t = ?base] a(2)
    obtain r where r: "find_account n ?new = Some r" "ar_enabled r = ac_enabled a" by auto
    have unique: "b = a" if "b \<in> set accts" "ac_name b = n" for b
      using that a assms(3) by (auto simp: distinct_map inj_on_def)
    have "account_id (w_db w') n \<noteq> None \<longleftrightarrow> ac_enabled a"
      using id r by simp
    then show ?thesis using unique a by blast
  next
    case False
    then have "find_account n ?new = find_account n ?base" by (rule find_account_upserts_other)
    with False id show ?thesis
      by (auto simp: find_account_disable split: option.splits if_splits)
  qed
qed

end
