(* ===== verification/Retention.thy ===== *)
theory Retention
  imports Inventory
begin

text \<open>
  \<open>retention.py\<close>: the pure deletion-candidate policy (\<open>evaluate\<close>), the collection of its facts from
  the inventory with one appended evaluation per remote identity (\<open>evaluate_all\<close>), and the local
  retention controls (\<open>set_control\<close>).  The lemmas give the exact eligibility predicate, its
  fail-closed consequences, the order of the reason codes, what the operations leave unchanged, and
  that a hold blocks eligibility.
\<close>

section \<open>The policy function\<close>

definition POLICY_VERSION :: string where
  "POLICY_VERSION = ''retention-v1''"

definition REASON_CODES :: "string list" where
  "REASON_CODES =
     [''ACCOUNT_DISABLED'', ''REMOTE_NOT_PRESENT'', ''REMOTE_IDENTITY_UNPROVEN'',
      ''REMOTE_IDENTITY_INCOMPLETE'', ''REMOTE_IDENTITY_INCOHERENT'', ''REMOTE_LINK_MISSING'',
      ''REMOTE_LINK_INCOHERENT'', ''CANONICAL_MISSING'', ''CANONICAL_NOT_ARCHIVED'',
      ''QUARANTINED'', ''ARCHIVED_AT_MISSING'', ''TIMESTAMP_INVALID'', ''RETENTION_NOT_ELAPSED'',
      ''RETENTION_NEVER'', ''CANONICAL_PATH_INVALID'', ''CANONICAL_FILE_MISSING'',
      ''CANONICAL_HASH_MISMATCH'', ''INTEGRITY_NOT_VERIFIED'', ''BACKUPS_INSUFFICIENT'',
      ''KEEP_ONLINE'', ''LEGAL_HOLD'']"

record retention_facts =
  rf_remote_message_id :: string
  rf_account :: string
  rf_account_enabled :: bool
  rf_provider_kind :: "provider option"
  rf_account_kind :: "provider option"
  rf_remote_present :: bool
  rf_identity_confidence :: "string option"
  rf_identity_complete :: bool
  rf_canonical_id :: "string option"
  rf_link_count :: int
  rf_link_account_coherent :: bool
  rf_canonical_exists :: bool
  rf_storage_state :: "storage_state option"
  rf_archived_at :: "string option"
  rf_canonical_path :: "path option"
  rf_expected_sha256 :: "string option"
  rf_integrity_status :: "string option"
  rf_verified_repository_count :: int
  rf_keep_online :: bool
  rf_legal_hold :: bool

record evaluation =
  el_eligible :: bool
  el_reason_codes :: "string list"
  el_retention_deadline :: "int option"
  el_verified_repository_count :: int

definition parse_timestamp :: "host \<Rightarrow> string option \<Rightarrow> int option" where
  "parse_timestamp H value =
     (case value of None \<Rightarrow> None
      | Some s \<Rightarrow> (case h_fromisoformat H s of
            None \<Rightarrow> None | Some (Naive t) \<Rightarrow> None | Some (Aware t) \<Rightarrow> Some t))"

definition path_inside :: "host \<Rightarrow> path \<Rightarrow> path option \<Rightarrow> bool" where
  "path_inside H mroot p =
     (case p of None \<Rightarrow> False
      | Some q \<Rightarrow> (case h_resolve H q of None \<Rightarrow> False
          | Some rq \<Rightarrow> (case h_resolve H mroot of None \<Rightarrow> False | Some rr \<Rightarrow> is_prefix_of rr rq)))"

definition file_reasons :: "host \<Rightarrow> fs \<Rightarrow> path \<Rightarrow> path option \<Rightarrow> string option \<Rightarrow> string list" where
  "file_reasons H F mroot p expected =
     (if \<not> path_inside H mroot p then [''CANONICAL_PATH_INVALID'']
      else (case p of None \<Rightarrow> []
        | Some q \<Rightarrow>
            if \<not> is_file F q then [''CANONICAL_FILE_MISSING'']
            else (case read_bytes F q of
                None \<Rightarrow> [''CANONICAL_FILE_MISSING'']
              | Some b \<Rightarrow> if Some (h_sha256 H b) \<noteq> expected then [''CANONICAL_HASH_MISMATCH''] else [])))"

definition guard :: "bool \<Rightarrow> string \<Rightarrow> string list" where
  "guard holds code = (if holds then [code] else [])"

definition deadline_of :: "int option \<Rightarrow> int option \<Rightarrow> int option result" where
  "deadline_of parsed days =
     (case parsed of None \<Rightarrow> Inr None
      | Some t \<Rightarrow> (case days of None \<Rightarrow> Inr None
          | Some n \<Rightarrow> (case add_days t n of Inl e \<Rightarrow> Inl e | Inr x \<Rightarrow> Inr (Some x))))"

definition retention_reasons :: "int \<Rightarrow> int option \<Rightarrow> int option \<Rightarrow> string list" where
  "retention_reasons now days deadline =
     (if days = None then [''RETENTION_NEVER'']
      else (case deadline of None \<Rightarrow> [] | Some x \<Rightarrow> guard (now < x) ''RETENTION_NOT_ELAPSED''))"

definition fact_reasons ::
  "host \<Rightarrow> fs \<Rightarrow> retention_facts \<Rightarrow> int \<Rightarrow> int option \<Rightarrow> int option \<Rightarrow> int \<Rightarrow> path \<Rightarrow> string list" where
  "fact_reasons H F f now days deadline required mroot =
     guard (\<not> rf_account_enabled f) ''ACCOUNT_DISABLED''
   @ guard (\<not> rf_remote_present f) ''REMOTE_NOT_PRESENT''
   @ guard (rf_identity_confidence f \<noteq> Some ''proven'') ''REMOTE_IDENTITY_UNPROVEN''
   @ guard (\<not> rf_identity_complete f) ''REMOTE_IDENTITY_INCOMPLETE''
   @ guard (rf_provider_kind f \<noteq> rf_account_kind f) ''REMOTE_IDENTITY_INCOHERENT''
   @ guard (rf_link_count f \<noteq> 1) ''REMOTE_LINK_MISSING''
   @ guard (\<not> rf_link_account_coherent f) ''REMOTE_LINK_INCOHERENT''
   @ guard (\<not> rf_canonical_exists f) ''CANONICAL_MISSING''
   @ guard (rf_storage_state f \<noteq> Some Archived) ''CANONICAL_NOT_ARCHIVED''
   @ guard (rf_storage_state f = Some Quarantined) ''QUARANTINED''
   @ (if rf_archived_at f = None then [''ARCHIVED_AT_MISSING'']
      else guard (parse_timestamp H (rf_archived_at f) = None) ''TIMESTAMP_INVALID'')
   @ retention_reasons now days deadline
   @ file_reasons H F mroot (rf_canonical_path f) (rf_expected_sha256 f)
   @ guard (rf_integrity_status f \<noteq> Some ''verified'') ''INTEGRITY_NOT_VERIFIED''
   @ guard (rf_verified_repository_count f < required) ''BACKUPS_INSUFFICIENT''
   @ guard (rf_keep_online f) ''KEEP_ONLINE''
   @ guard (rf_legal_hold f) ''LEGAL_HOLD''"

definition evaluate ::
  "host \<Rightarrow> fs \<Rightarrow> retention_facts \<Rightarrow> py_datetime \<Rightarrow> int option \<Rightarrow> int \<Rightarrow> path \<Rightarrow> evaluation result" where
  "evaluate H F f now days required mroot =
     (case now of Naive t \<Rightarrow> Inl (ValueError ''now must be timezone-aware'')
      | Aware t \<Rightarrow>
          (case deadline_of (parse_timestamp H (rf_archived_at f)) days of
             Inl e \<Rightarrow> Inl e
           | Inr deadline \<Rightarrow>
               let reasons = fact_reasons H F f t days deadline required mroot;
                   ordered = filter (\<lambda>code. code \<in> set reasons) REASON_CODES
               in Inr \<lparr>el_eligible = (ordered = []), el_reason_codes = ordered,
                       el_retention_deadline = deadline,
                       el_verified_repository_count = rf_verified_repository_count f\<rparr>))"

section \<open>What eligibility means\<close>

text \<open>The conjunction the safety document asks for, over the facts (the specification side).\<close>

definition retention_elapsed :: "host \<Rightarrow> string option \<Rightarrow> int option \<Rightarrow> int \<Rightarrow> bool" where
  "retention_elapsed H archived days now \<longleftrightarrow>
     (\<exists>t n. parse_timestamp H archived = Some t \<and> days = Some n \<and> t + n * day_us \<le> now)"

definition canonical_bytes_intact :: "host \<Rightarrow> fs \<Rightarrow> path \<Rightarrow> path option \<Rightarrow> string option \<Rightarrow> bool" where
  "canonical_bytes_intact H F mroot p expected \<longleftrightarrow>
     path_inside H mroot p \<and>
     (\<exists>q b. p = Some q \<and> F q = Some (RegFile b) \<and> expected = Some (h_sha256 H b))"

definition safe_to_delete ::
  "host \<Rightarrow> fs \<Rightarrow> retention_facts \<Rightarrow> int \<Rightarrow> int option \<Rightarrow> int \<Rightarrow> path \<Rightarrow> bool" where
  "safe_to_delete H F f now days required mroot \<longleftrightarrow>
     rf_account_enabled f \<and> rf_remote_present f \<and>
     rf_identity_confidence f = Some ''proven'' \<and> rf_identity_complete f \<and>
     rf_provider_kind f = rf_account_kind f \<and>
     rf_link_count f = 1 \<and> rf_link_account_coherent f \<and> rf_canonical_exists f \<and>
     rf_storage_state f = Some Archived \<and>
     retention_elapsed H (rf_archived_at f) days now \<and>
     canonical_bytes_intact H F mroot (rf_canonical_path f) (rf_expected_sha256 f) \<and>
     rf_integrity_status f = Some ''verified'' \<and>
     required \<le> rf_verified_repository_count f \<and>
     \<not> rf_keep_online f \<and> \<not> rf_legal_hold f"

lemma guard_Nil [simp]: "guard b c = [] \<longleftrightarrow> \<not> b"
  by (simp add: guard_def)

lemma set_guard [simp]: "set (guard b c) = (if b then {c} else {})"
  by (simp add: guard_def)

lemma file_reasons_Nil:
  "file_reasons H F mroot p expected = [] \<longleftrightarrow> canonical_bytes_intact H F mroot p expected"
  by (auto simp: file_reasons_def canonical_bytes_intact_def path_inside_def is_file_def
      read_bytes_def split: option.splits node.splits if_splits)

lemma deadline_of_Some:
  "deadline_of parsed days = Inr deadline \<Longrightarrow>
     deadline = (case (parsed, days) of (Some t, Some n) \<Rightarrow> Some (t + n * day_us) | _ \<Rightarrow> None)"
  by (auto simp: deadline_of_def add_days_def split: option.splits if_splits)

lemma fact_reasons_Nil:
  assumes "deadline_of (parse_timestamp H (rf_archived_at f)) days = Inr deadline"
  shows "fact_reasons H F f now days deadline required mroot = [] \<longleftrightarrow>
     safe_to_delete H F f now days required mroot"
proof -
  have parse_None: "parse_timestamp H None = None"
    by (simp add: parse_timestamp_def)
  have time: "(if rf_archived_at f = None then [''ARCHIVED_AT_MISSING'']
        else guard (parse_timestamp H (rf_archived_at f) = None) ''TIMESTAMP_INVALID'') = [] \<and>
      retention_reasons now days deadline = [] \<longleftrightarrow> retention_elapsed H (rf_archived_at f) days now"
    using deadline_of_Some [OF assms] parse_None
    by (cases "parse_timestamp H (rf_archived_at f)"; cases days)
       (auto simp: retention_reasons_def retention_elapsed_def)
  show ?thesis
    unfolding fact_reasons_def safe_to_delete_def append_is_Nil_conv guard_Nil file_reasons_Nil
    using time by auto
qed

lemma reason_code_mem [simp]:
  "''ACCOUNT_DISABLED'' \<in> set REASON_CODES" "''REMOTE_NOT_PRESENT'' \<in> set REASON_CODES"
  "''REMOTE_IDENTITY_UNPROVEN'' \<in> set REASON_CODES"
  "''REMOTE_IDENTITY_INCOMPLETE'' \<in> set REASON_CODES"
  "''REMOTE_IDENTITY_INCOHERENT'' \<in> set REASON_CODES"
  "''REMOTE_LINK_MISSING'' \<in> set REASON_CODES" "''REMOTE_LINK_INCOHERENT'' \<in> set REASON_CODES"
  "''CANONICAL_MISSING'' \<in> set REASON_CODES" "''CANONICAL_NOT_ARCHIVED'' \<in> set REASON_CODES"
  "''QUARANTINED'' \<in> set REASON_CODES" "''ARCHIVED_AT_MISSING'' \<in> set REASON_CODES"
  "''TIMESTAMP_INVALID'' \<in> set REASON_CODES" "''RETENTION_NOT_ELAPSED'' \<in> set REASON_CODES"
  "''RETENTION_NEVER'' \<in> set REASON_CODES" "''CANONICAL_PATH_INVALID'' \<in> set REASON_CODES"
  "''CANONICAL_FILE_MISSING'' \<in> set REASON_CODES"
  "''CANONICAL_HASH_MISMATCH'' \<in> set REASON_CODES"
  "''INTEGRITY_NOT_VERIFIED'' \<in> set REASON_CODES" "''BACKUPS_INSUFFICIENT'' \<in> set REASON_CODES"
  "''KEEP_ONLINE'' \<in> set REASON_CODES" "''LEGAL_HOLD'' \<in> set REASON_CODES"
  unfolding REASON_CODES_def by simp_all

lemma set_guard_subset: "c \<in> A \<Longrightarrow> set (guard b c) \<subseteq> A"
  by (cases b) (simp_all add: guard_def)

lemma file_reasons_subset: "set (file_reasons H F mroot p e) \<subseteq> set REASON_CODES"
  by (cases "path_inside H mroot p"; cases p; cases "is_file F (the p)"; cases "read_bytes F (the p)";
      cases "Some (h_sha256 H (the (read_bytes F (the p)))) = e")
     (simp_all add: file_reasons_def)

lemma retention_reasons_subset: "set (retention_reasons now days dl) \<subseteq> set REASON_CODES"
  by (cases days; cases dl; cases "now < the dl") (simp_all add: retention_reasons_def guard_def)

lemma fact_reasons_subset: "set (fact_reasons H F f now days dl req mroot) \<subseteq> set REASON_CODES"
  unfolding fact_reasons_def set_append
  by (intro Un_least set_guard_subset file_reasons_subset retention_reasons_subset reason_code_mem)
     (cases "rf_archived_at f"; simp add: set_guard_subset del: set_guard)

lemma ordered_Nil:
  "filter (\<lambda>code. code \<in> set (fact_reasons H F f now days dl req mroot)) REASON_CODES = [] \<longleftrightarrow>
     fact_reasons H F f now days dl req mroot = []"
  using fact_reasons_subset [of H F f now days dl req mroot]
  by (cases "fact_reasons H F f now days dl req mroot") (auto simp: filter_empty_conv)

lemma evaluate_iff_safe:
  "evaluate H F f (Aware now) days required mroot = Inr e \<Longrightarrow>
     el_eligible e \<longleftrightarrow> safe_to_delete H F f now days required mroot"
  by (auto simp: evaluate_def Let_def ordered_Nil fact_reasons_Nil split: sum.splits)


text \<open>
  The policy is monotone: a candidate found eligible stays eligible at every later instant and
  with every larger number of verified repositories, as long as the other facts and the files are
  the same.
\<close>

lemma safe_to_delete_mono:
  assumes "safe_to_delete H F f now days required mroot" and "now \<le> later"
    and "rf_verified_repository_count f \<le> n"
  shows "safe_to_delete H F (f\<lparr>rf_verified_repository_count := n\<rparr>) later days required mroot"
  using assms by (auto simp: safe_to_delete_def retention_elapsed_def)

section \<open>Collection of the facts\<close>

text \<open>One row of the \<open>SELECT\<close>: the joined rows and the two counting subqueries.\<close>

record candidate =
  cd_remote :: remote_row
  cd_account :: account_row
  cd_canonical :: "canonical_message option"
  cd_control :: "control_row option"
  cd_link_count :: int
  cd_verified_repositories :: int

definition left_join :: "'a list \<Rightarrow> 'a option list" where
  "left_join rows = (if rows = [] then [None] else map Some rows)"

definition identity_complete :: "remote_row \<Rightarrow> bool" where
  "identity_complete r =
     (case rm_provider_kind r of
        Imap \<Rightarrow> (case (rm_remote_folder r, rm_uidvalidity r, rm_remote_uid r) of
            (Some folder, Some v, Some u) \<Rightarrow> folder \<noteq> [] \<and> v > 0 \<and> u > 0
          | _ \<Rightarrow> False)
      | _ \<Rightarrow> (case rm_provider_message_id r of
            None \<Rightarrow> False | Some p \<Rightarrow> strip_by str_space p \<noteq> []))"

definition links_of :: "db \<Rightarrow> string \<Rightarrow> link_row list" where
  "links_of d rid = filter (\<lambda>l. lk_remote_message_id l = rid) (remote_canonical_links d)"

text \<open>\<open>COUNT(DISTINCT br.repository_identity)\<close> over the evidence joins.\<close>

definition evidence_identities :: "db \<Rightarrow> string \<Rightarrow> string list" where
  "evidence_identities d rid =
     [ident. l \<leftarrow> links_of d rid,
             e \<leftarrow> message_backup_evidence d,
             be_canonical_message_id e = lk_canonical_message_id l \<and> be_covered e \<and> be_verified e,
             b \<leftarrow> backup_runs d,
             bk_id b = be_backup_run_id e \<and> bk_status b = BackupSucceeded \<and>
               bk_verification_status b = Verified \<and> bk_verified_at b \<noteq> None,
             br \<leftarrow> backup_repositories d,
             rp_id br = bk_repository_id b,
             ident \<leftarrow> (case rp_repository_identity br of None \<Rightarrow> [] | Some i \<Rightarrow> [i])]"

definition verified_repositories :: "db \<Rightarrow> string \<Rightarrow> int" where
  "verified_repositories d rid = int (length (remdups (evidence_identities d rid)))"

definition canonical_joins ::
  "db \<Rightarrow> string \<Rightarrow> (canonical_message option \<times> control_row option) list" where
  "canonical_joins d rid =
     [(c, rc). l \<leftarrow> left_join (links_of d rid),
               c \<leftarrow> left_join (case l of None \<Rightarrow> []
                      | Some k \<Rightarrow> filter (\<lambda>c. cm_id c = lk_canonical_message_id k) (canonical_messages d)),
               rc \<leftarrow> left_join (case c of None \<Rightarrow> []
                      | Some m \<Rightarrow> filter (\<lambda>t. rt_canonical_message_id t = cm_id m) (retention_controls d))]"

definition candidate_rows :: "db \<Rightarrow> string option \<Rightarrow> candidate list" where
  "candidate_rows d account =
     sort_key (\<lambda>x. (ar_name (cd_account x), rm_id (cd_remote x)))
       [\<lparr>cd_remote = r, cd_account = a, cd_canonical = fst j, cd_control = snd j,
          cd_link_count = int (length (links_of d (rm_id r))),
          cd_verified_repositories = verified_repositories d (rm_id r)\<rparr>.
        r \<leftarrow> remote_messages d,
        a \<leftarrow> accounts d,
        ar_id a = rm_account_id r \<and> (case account of None \<Rightarrow> True | Some n \<Rightarrow> ar_name a = n),
        j \<leftarrow> canonical_joins d (rm_id r)]"

definition retention_days_of :: "app_config \<Rightarrow> string \<Rightarrow> int option" where
  "retention_days_of cfg name =
     (case config_account cfg name of
        None \<Rightarrow> Some (rc_remote_retention_days_default (cf_retention cfg))
      | Some a \<Rightarrow> ac_remote_retention_days a)"

definition required_backups_of :: "app_config \<Rightarrow> string \<Rightarrow> int" where
  "required_backups_of cfg name =
     (case config_account cfg name of
        None \<Rightarrow> rc_required_verified_backups_default (cf_retention cfg)
      | Some a \<Rightarrow> ac_required_verified_backups a)"

definition facts_of :: "candidate \<Rightarrow> retention_facts" where
  "facts_of x =
     (let r = cd_remote x; a = cd_account x; c = cd_canonical x in
      \<lparr>rf_remote_message_id = rm_id r, rf_account = ar_name a, rf_account_enabled = ar_enabled a,
       rf_provider_kind = Some (rm_provider_kind r), rf_account_kind = Some (ar_kind a),
       rf_remote_present = rm_remote_present r,
       rf_identity_confidence = Some (rm_identity_confidence r),
       rf_identity_complete = identity_complete r,
       rf_canonical_id = map_option cm_id c, rf_link_count = cd_link_count x,
       rf_link_account_coherent =
         (case c of None \<Rightarrow> False | Some m \<Rightarrow> rm_account_id r = cm_account_id m),
       rf_canonical_exists = (c \<noteq> None),
       rf_storage_state = map_option cm_storage_state c,
       rf_archived_at = (case c of None \<Rightarrow> None | Some m \<Rightarrow> cm_archived_at m),
       rf_canonical_path = map_option cm_local_path c,
       rf_expected_sha256 = map_option cm_sha256 c,
       rf_integrity_status = map_option cm_integrity_status c,
       rf_verified_repository_count = cd_verified_repositories x,
       rf_keep_online = (case cd_control x of None \<Rightarrow> False | Some t \<Rightarrow> rt_keep_online t),
       rf_legal_hold = (case cd_control x of None \<Rightarrow> False | Some t \<Rightarrow> rt_legal_hold t)\<rparr>)"

record report =
  rq_remote_message_id :: string
  rq_canonical_id :: "string option"
  rq_account :: string
  rq_provider_kind :: "provider option"
  rq_eligible :: bool
  rq_deletion_evaluation_id :: int
  rq_execution_authorized :: bool
  rq_reason_codes :: "string list"
  rq_archived_at :: "string option"
  rq_retention_deadline :: "string option"
  rq_verified_repository_count :: int
  rq_required_verified_backups :: int
  rq_keep_online :: bool
  rq_legal_hold :: bool

definition mail_root :: "app_config \<Rightarrow> path" where
  "mail_root cfg = cf_archive_root cfg @ [''mail'']"

definition evaluation_row_of ::
  "host \<Rightarrow> app_config \<Rightarrow> int \<Rightarrow> int \<Rightarrow> int \<Rightarrow> candidate \<Rightarrow> evaluation \<Rightarrow> evaluation_row" where
  "evaluation_row_of H cfg ident run now x e =
     \<lparr>ev_id = ident, ev_evaluation_run_id = run, ev_remote_message_id = rm_id (cd_remote x),
      ev_canonical_message_id = map_option cm_id (cd_canonical x),
      ev_evaluated_at = h_isoformat H now, ev_eligible = el_eligible e,
      ev_reason_codes_json = dumps '', '' '': '' (JArr (map JStr (el_reason_codes e))),
      ev_policy_version = POLICY_VERSION,
      ev_remote_retention_days = retention_days_of cfg (ar_name (cd_account x)),
      ev_required_verified_backups = required_backups_of cfg (ar_name (cd_account x)),
      ev_verified_repository_count = el_verified_repository_count e,
      ev_retention_deadline = map_option (h_isoformat H) (el_retention_deadline e)\<rparr>"

definition report_of ::
  "host \<Rightarrow> app_config \<Rightarrow> int \<Rightarrow> candidate \<Rightarrow> evaluation \<Rightarrow> report" where
  "report_of H cfg ident x e =
     (let f = facts_of x in
      \<lparr>rq_remote_message_id = rf_remote_message_id f, rq_canonical_id = rf_canonical_id f,
       rq_account = rf_account f, rq_provider_kind = rf_provider_kind f,
       rq_eligible = el_eligible e, rq_deletion_evaluation_id = ident,
       rq_execution_authorized = False, rq_reason_codes = el_reason_codes e,
       rq_archived_at = rf_archived_at f,
       rq_retention_deadline = map_option (h_isoformat H) (el_retention_deadline e),
       rq_verified_repository_count = el_verified_repository_count e,
       rq_required_verified_backups = required_backups_of cfg (rf_account f),
       rq_keep_online = rf_keep_online f, rq_legal_hold = rf_legal_hold f\<rparr>)"

text \<open>The loop over the rows: each result is inserted (the \<open>CHECK\<close> may refuse it) and reported.\<close>

fun evaluate_rows ::
  "host \<Rightarrow> app_config \<Rightarrow> fs \<Rightarrow> int \<Rightarrow> int \<Rightarrow> candidate list \<Rightarrow> evaluation_row list \<Rightarrow>
     (evaluation_row list \<times> report list) result" where
  "evaluate_rows H cfg F run now [] t = Inr (t, [])"
| "evaluate_rows H cfg F run now (x # xs) t =
     (case evaluate H F (facts_of x) (Aware now) (retention_days_of cfg (ar_name (cd_account x)))
             (required_backups_of cfg (ar_name (cd_account x))) (mail_root cfg) of
        Inl err \<Rightarrow> Inl err
      | Inr e \<Rightarrow>
          let ident = next_rowid (map ev_id t);
              row = evaluation_row_of H cfg ident run now x e
          in if \<not> evaluation_check row then Inl IntegrityError
             else (case evaluate_rows H cfg F run now xs (t @ [row]) of
                 Inl err \<Rightarrow> Inl err
               | Inr (t', reports) \<Rightarrow> Inr (t', report_of H cfg ident x e # reports)))"

definition evaluate_all ::
  "host \<Rightarrow> app_config \<Rightarrow> py_datetime option \<Rightarrow> string option \<Rightarrow> 'p world \<Rightarrow>
     report list result \<times> 'p world" where
  "evaluate_all H cfg now account w =
     (let k = (if now = None then 1 else 0) in
      case (case now of None \<Rightarrow> Aware (h_clock H (w_tick w)) | Some t \<Rightarrow> t) of
        Naive t \<Rightarrow> (Inl (ValueError ''now must be timezone-aware''), tick k w)
      | Aware t \<Rightarrow>
          let d = w_db w;
              run = next_rowid (map er_id (deletion_evaluation_runs d));
              d1 = d\<lparr>deletion_evaluation_runs := deletion_evaluation_runs d @
                      [\<lparr>er_id = run, er_evaluated_at = h_isoformat H t, er_policy_version = POLICY_VERSION\<rparr>]\<rparr>
          in (case evaluate_rows H cfg (w_fs w) run t (candidate_rows d account) (deletion_evaluations d) of
                Inl e \<Rightarrow> (Inl e, tick k w)
              | Inr (t', reports) \<Rightarrow>
                  (Inr reports,
                   commit (insert_audit_event (reading H w k) ''mailarchive.retention''
                       ''retention.evaluation.completed'' ''success'' None None
                       (json_text [(''evaluated_count'', JInt (int (length reports))),
                          (''eligible_count'', JInt (int (length (filter rq_eligible reports)))),
                          (''blocked_count'', JInt (int (length (filter (\<lambda>r. \<not> rq_eligible r) reports)))),
                          (''policy_version'', JStr POLICY_VERSION)])
                       (d1\<lparr>deletion_evaluations := t'\<rparr>)) (k + 1) w)))"

section \<open>Correctness of the evaluation run\<close>

lemma evaluate_rows_spec:
  assumes "evaluate_rows H cfg F run now xs t = Inr (t', reports)"
  shows "\<exists>new. t' = t @ new \<and> length new = length xs \<and>
    list_all2 (\<lambda>p rp. \<exists>e.
        evaluate H F (facts_of (fst p)) (Aware now) (retention_days_of cfg (ar_name (cd_account (fst p))))
          (required_backups_of cfg (ar_name (cd_account (fst p)))) (mail_root cfg) = Inr e \<and>
        rp = report_of H cfg (ev_id (snd p)) (fst p) e \<and>
        snd p = evaluation_row_of H cfg (ev_id (snd p)) run now (fst p) e \<and>
        evaluation_check (snd p)) (zip xs new) reports"
  using assms
proof (induction xs arbitrary: t t' reports)
  case Nil
  then show ?case by simp
next
  case (Cons x xs)
  obtain e where e: "evaluate H F (facts_of x) (Aware now)
      (retention_days_of cfg (ar_name (cd_account x)))
      (required_backups_of cfg (ar_name (cd_account x))) (mail_root cfg) = Inr e"
    using Cons.prems by (auto split: sum.splits)
  let ?row = "evaluation_row_of H cfg (next_rowid (map ev_id t)) run now x e"
  from Cons.prems e obtain reps where r: "evaluation_check ?row"
    "evaluate_rows H cfg F run now xs (t @ [?row]) = Inr (t', reps)"
    "reports = report_of H cfg (next_rowid (map ev_id t)) x e # reps"
    by (auto simp: Let_def split: sum.splits if_splits prod.splits)
  have id: "ev_id ?row = next_rowid (map ev_id t)" by (simp add: evaluation_row_of_def)
  from Cons.IH [OF r(2)] obtain new where "t' = (t @ [?row]) @ new" "length new = length xs"
    and "list_all2 (\<lambda>p rp. \<exists>e.
        evaluate H F (facts_of (fst p)) (Aware now) (retention_days_of cfg (ar_name (cd_account (fst p))))
          (required_backups_of cfg (ar_name (cd_account (fst p)))) (mail_root cfg) = Inr e \<and>
        rp = report_of H cfg (ev_id (snd p)) (fst p) e \<and>
        snd p = evaluation_row_of H cfg (ev_id (snd p)) run now (fst p) e \<and>
        evaluation_check (snd p)) (zip xs new) reps" by blast
  with e r id show ?case by (intro exI [of _ "?row # new"]) simp
qed

lemma evaluated_lists:
  assumes "list_all2 (\<lambda>p rp. \<exists>e. Q (fst p) e \<and>
        rp = report_of H cfg (ev_id (snd p)) (fst p) e \<and>
        snd p = evaluation_row_of H cfg (ev_id (snd p)) run now (fst p) e \<and>
        evaluation_check (snd p)) (zip xs new) reports"
    and "length new = length xs"
  shows "map rm_id (map cd_remote xs) = map ev_remote_message_id new \<and>
       map ev_id new = map rq_deletion_evaluation_id reports \<and>
       map ev_eligible new = map rq_eligible reports \<and>
       map ev_remote_message_id new = map rq_remote_message_id reports \<and>
       list_all (\<lambda>e. evaluation_check e \<and> ev_evaluation_run_id e = run) new \<and>
       list_all (\<lambda>r. \<not> rq_execution_authorized r) reports"
  using assms(2,1)
proof (induction new xs arbitrary: reports rule: list_induct2)
  case Nil
  then show ?case by simp
next
  case (Cons n new x xs)
  then obtain rp reps e where "reports = rp # reps"
    "rp = report_of H cfg (ev_id n) x e" "n = evaluation_row_of H cfg (ev_id n) run now x e"
    "evaluation_check n"
    by (cases reports) auto
  moreover from this have "ev_remote_message_id n = rm_id (cd_remote x)"
    "ev_eligible n = el_eligible e" "ev_evaluation_run_id n = run"
    by (metis evaluation_row_of_def evaluation_row.select_convs)+
  ultimately show ?case
    using Cons by (auto simp: report_of_def facts_of_def Let_def)
qed

lemma evaluate_rows_distinct:
  "evaluate_rows H cfg F run now xs t = Inr (t', reports) \<Longrightarrow> distinct (map ev_id t) \<Longrightarrow>
     distinct (map ev_id t')"
proof (induction xs arbitrary: t reports)
  case Nil
  then show ?case by simp
next
  case (Cons x xs)
  then show ?case
    by (auto simp: Let_def evaluation_row_of_def split: sum.splits if_splits prod.splits
        dest!: Cons.IH simp del: set_map)
qed

lemma candidate_rows_mem:
  assumes "x \<in> set (candidate_rows d account)"
  shows "cd_remote x \<in> set (remote_messages d)" and "cd_account x \<in> set (accounts d)"
    and "ar_id (cd_account x) = rm_account_id (cd_remote x)"
    and "(cd_canonical x, cd_control x) \<in> set (canonical_joins d (rm_id (cd_remote x)))"
    and "cd_link_count x = int (length (links_of d (rm_id (cd_remote x))))"
    and "cd_verified_repositories x = verified_repositories d (rm_id (cd_remote x))"
    and "account = None \<or> account = Some (ar_name (cd_account x))"
proof -
  from assms obtain r a j where "r \<in> set (remote_messages d)" "a \<in> set (accounts d)"
    "ar_id a = rm_account_id r \<and> (case account of None \<Rightarrow> True | Some n \<Rightarrow> ar_name a = n)"
    "j \<in> set (canonical_joins d (rm_id r))"
    "x = \<lparr>cd_remote = r, cd_account = a, cd_canonical = fst j, cd_control = snd j,
       cd_link_count = int (length (links_of d (rm_id r))),
       cd_verified_repositories = verified_repositories d (rm_id r)\<rparr>"
    unfolding candidate_rows_def set_sort by (auto simp only: set_concat set_map image_iff
        UN_iff set_simps empty_iff insert_iff split: if_split_asm)
  then show "cd_remote x \<in> set (remote_messages d)" "cd_account x \<in> set (accounts d)"
    "ar_id (cd_account x) = rm_account_id (cd_remote x)"
    "(cd_canonical x, cd_control x) \<in> set (canonical_joins d (rm_id (cd_remote x)))"
    "cd_link_count x = int (length (links_of d (rm_id (cd_remote x))))"
    "cd_verified_repositories x = verified_repositories d (rm_id (cd_remote x))"
    "account = None \<or> account = Some (ar_name (cd_account x))"
    by (simp_all split: option.splits)
qed

lemma left_join_mem: "Some x \<in> set (left_join xs) \<longleftrightarrow> x \<in> set xs"
  by (auto simp: left_join_def)

lemma left_join_None: "None \<in> set (left_join xs) \<longleftrightarrow> xs = []"
  by (auto simp: left_join_def)

lemma canonical_joins_mem:
  assumes "(Some c, rc) \<in> set (canonical_joins d rid)"
  shows "\<exists>l \<in> set (links_of d rid). c \<in> set (canonical_messages d) \<and>
    cm_id c = lk_canonical_message_id l \<and>
    rc \<in> set (left_join (filter (\<lambda>t. rt_canonical_message_id t = cm_id c) (retention_controls d)))"
  using assms by (auto simp: canonical_joins_def left_join_mem left_join_None split: option.split_asm)
    (blast intro: sym)+

lemma evaluate_all_Inr:
  assumes "evaluate_all H cfg now account w = (Inr reports, w')"
  obtains t run new ev where
    "evaluate_rows H cfg (w_fs w) run t (candidate_rows (w_db w) account)
       (deletion_evaluations (w_db w)) = Inr (deletion_evaluations (w_db w) @ new, reports)"
    and "now = None \<and> t = h_clock H (w_tick w) \<or> now = Some (Aware t)"
    and "w_db w' = (w_db w)
      \<lparr>audit_events := audit_events (w_db w) @ [ev],
       deletion_evaluation_runs := deletion_evaluation_runs (w_db w) @
         [\<lparr>er_id = run, er_evaluated_at = h_isoformat H t, er_policy_version = POLICY_VERSION\<rparr>],
       deletion_evaluations := deletion_evaluations (w_db w) @ new\<rparr>"
    and "run = next_rowid (map er_id (deletion_evaluation_runs (w_db w)))"
    and "w_net w' = w_net w" and "w_fs w' = w_fs w"
    and "ae_id ev = next_rowid (map ae_id (audit_events (w_db w)))"
proof -
  define tm where "tm = (case now of None \<Rightarrow> Aware (h_clock H (w_tick w)) | Some t \<Rightarrow> t)"
  define run where "run = next_rowid (map er_id (deletion_evaluation_runs (w_db w)))"
  from assms obtain t where t: "tm = Aware t"
    by (cases tm) (auto simp: evaluate_all_def Let_def tm_def [symmetric])
  with assms obtain t' where rows: "evaluate_rows H cfg (w_fs w) run t
      (candidate_rows (w_db w) account) (deletion_evaluations (w_db w)) = Inr (t', reports)"
    by (auto simp: evaluate_all_def Let_def tm_def [symmetric] run_def split: sum.splits prod.splits)
  from evaluate_rows_spec [OF rows] obtain new where new: "t' = deletion_evaluations (w_db w) @ new"
    by blast
  have instant: "now = None \<and> t = h_clock H (w_tick w) \<or> now = Some (Aware t)"
    using t by (cases now) (auto simp: tm_def)
  from assms t rows show thesis
    by (intro that [where ev = "last (audit_events (w_db w'))", OF rows [unfolded new] instant _ run_def])
       (auto simp: evaluate_all_def Let_def tm_def [symmetric] run_def [symmetric]
          insert_audit_event_def new)
qed

lemma evaluate_all_Inl:
  assumes "evaluate_all H cfg now account w = (Inl e, w')"
  shows "w_db w' = w_db w \<and> w_net w' = w_net w \<and> w_fs w' = w_fs w"
  using assms
  by (auto simp: evaluate_all_def Let_def split: py_datetime.split_asm sum.split_asm prod.split_asm)

text \<open>An evaluation keeps the mail tables, and the keys unique.\<close>

definition same_mail :: "db \<Rightarrow> db \<Rightarrow> bool" where
  "same_mail d d' \<longleftrightarrow>
     accounts d = accounts d' \<and> canonical_messages d = canonical_messages d' \<and>
     remote_messages d = remote_messages d' \<and>
     remote_canonical_links d = remote_canonical_links d' \<and>
     backup_repositories d = backup_repositories d' \<and> backup_runs d = backup_runs d' \<and>
     message_backup_evidence d = message_backup_evidence d' \<and>
     retention_controls d = retention_controls d'"

lemma same_mail_refl [simp]: "same_mail d d"
  by (simp add: same_mail_def)

lemma same_mail_trans: "same_mail a b \<Longrightarrow> same_mail b c \<Longrightarrow> same_mail a c"
  by (simp add: same_mail_def)

lemma same_mail_sym: "same_mail a b \<Longrightarrow> same_mail b a"
  by (simp add: same_mail_def)

lemma evaluate_all_frame:
  assumes "evaluate_all H cfg now account w = (res, w')"
  shows "same_mail (w_db w') (w_db w)"
    and "remote_mutation_runs (w_db w') = remote_mutation_runs (w_db w)"
    and "remote_mutations (w_db w') = remote_mutations (w_db w)"
    and "w_net w' = w_net w" and "w_fs w' = w_fs w"
proof -
  have "same_mail (w_db w') (w_db w) \<and>
      remote_mutation_runs (w_db w') = remote_mutation_runs (w_db w) \<and>
      remote_mutations (w_db w') = remote_mutations (w_db w) \<and> w_net w' = w_net w \<and> w_fs w' = w_fs w"
  proof (cases res)
    case (Inl e)
    with assms evaluate_all_Inl [of H cfg now account w e w'] show ?thesis by simp
  next
    case (Inr reports)
    with assms have "evaluate_all H cfg now account w = (Inr reports, w')" by simp
    then show ?thesis
      by (rule evaluate_all_Inr) (simp add: same_mail_def)
  qed
  then show "same_mail (w_db w') (w_db w)"
    "remote_mutation_runs (w_db w') = remote_mutation_runs (w_db w)"
    "remote_mutations (w_db w') = remote_mutations (w_db w)" "w_net w' = w_net w" "w_fs w' = w_fs w"
    by simp_all
qed

lemma unique_keys_evaluate_all:
  assumes "evaluate_all H cfg now account w = (res, w')" and "unique_keys (w_db w)"
  shows "unique_keys (w_db w')"
proof (cases res)
  case (Inl e)
  with assms evaluate_all_Inl [of H cfg now account w e w'] show ?thesis by simp
next
  case (Inr reports)
  with assms(1) have "evaluate_all H cfg now account w = (Inr reports, w')" by simp
  then show ?thesis
  proof (rule evaluate_all_Inr, goal_cases)
    case (1 t run new ev)
    from assms(2) have "distinct (map ev_id (deletion_evaluations (w_db w)))"
      by (simp add: unique_keys_def)
    from evaluate_rows_distinct [OF 1(1) this] 1(3,4,7) assms(2) show ?case
      by (simp add: unique_keys_def del: set_map)
  qed
qed

lemma unique_keys_audit: "unique_keys (insert_audit_event n a e r i c j d) \<longleftrightarrow> unique_keys d"
  using next_rowid_fresh [of "map ae_id (audit_events d)"]
  by (auto simp: unique_keys_def insert_audit_event_def simp del: set_map)

text \<open>
  An evaluation run is local and append-only: it touches neither the provider nor a file; it
  either changes nothing in the inventory (an exception rolls the transaction back) or appends one
  run, one evaluation that satisfies its table's \<open>CHECK\<close> for each joined row, and one audit
  event.  The reports name exactly the appended evaluations, in order, and none authorises anything.
\<close>

theorem evaluate_all_appends_only:
  "case evaluate_all H cfg now account w of (res, w') \<Rightarrow>
     w_net w' = w_net w \<and> w_fs w' = w_fs w \<and>
     (case res of
        Inl e \<Rightarrow> w_db w' = w_db w
      | Inr reports \<Rightarrow> \<exists>run new ev.
          w_db w' = (w_db w)
            \<lparr>audit_events := audit_events (w_db w) @ [ev],
             deletion_evaluation_runs := deletion_evaluation_runs (w_db w) @ [run],
             deletion_evaluations := deletion_evaluations (w_db w) @ new\<rparr> \<and>
          map rm_id (map cd_remote (candidate_rows (w_db w) account)) = map ev_remote_message_id new \<and>
          map ev_id new = map rq_deletion_evaluation_id reports \<and>
          map ev_eligible new = map rq_eligible reports \<and>
          map ev_remote_message_id new = map rq_remote_message_id reports \<and>
          list_all (\<lambda>e. evaluation_check e \<and> ev_evaluation_run_id e = er_id run) new \<and>
          list_all (\<lambda>r. \<not> rq_execution_authorized r) reports)"
proof (cases "evaluate_all H cfg now account w")
  case (Pair res w')
  show ?thesis
  proof (cases res)
    case (Inl e)
    with Pair evaluate_all_Inl show ?thesis by fastforce
  next
    case (Inr reports)
    with Pair have "evaluate_all H cfg now account w = (Inr reports, w')" by simp
    then obtain t run new ev where *:
      "evaluate_rows H cfg (w_fs w) run t (candidate_rows (w_db w) account)
         (deletion_evaluations (w_db w)) = Inr (deletion_evaluations (w_db w) @ new, reports)"
      "w_db w' = (w_db w)
        \<lparr>audit_events := audit_events (w_db w) @ [ev],
         deletion_evaluation_runs := deletion_evaluation_runs (w_db w) @
           [\<lparr>er_id = run, er_evaluated_at = h_isoformat H t, er_policy_version = POLICY_VERSION\<rparr>],
         deletion_evaluations := deletion_evaluations (w_db w) @ new\<rparr>"
      "w_net w' = w_net w" "w_fs w' = w_fs w"
      by (rule evaluate_all_Inr) blast
    from evaluate_rows_spec [OF *(1)] have facts:
      "map rm_id (map cd_remote (candidate_rows (w_db w) account)) = map ev_remote_message_id new \<and>
       map ev_id new = map rq_deletion_evaluation_id reports \<and>
       map ev_eligible new = map rq_eligible reports \<and>
       map ev_remote_message_id new = map rq_remote_message_id reports \<and>
       list_all (\<lambda>e. evaluation_check e \<and> ev_evaluation_run_id e = run) new \<and>
       list_all (\<lambda>r. \<not> rq_execution_authorized r) reports"
      by (auto dest!: evaluated_lists)
    show ?thesis
      unfolding Pair Inr prod.case sum.case
      by (intro conjI exI [of _ new] exI [of _ ev] exI [of _ "\<lparr>er_id = run,
            er_evaluated_at = h_isoformat H t, er_policy_version = POLICY_VERSION\<rparr>"])
         (use * facts in simp_all)
  qed
qed

lemma list_all2_mem2: "list_all2 P xs ys \<Longrightarrow> y \<in> set ys \<Longrightarrow> \<exists>x \<in> set xs. P x y"
  by (induction rule: list_all2_induct) auto

lemma eligible_report_safe:
  assumes "evaluate_all H cfg now account w = (Inr reports, w')"
    and "rq \<in> set reports" and "rq_eligible rq"
  obtains x t where "x \<in> set (candidate_rows (w_db w) account)"
    and "now = None \<and> t = h_clock H (w_tick w) \<or> now = Some (Aware t)"
    and "safe_to_delete H (w_fs w) (facts_of x) t (retention_days_of cfg (ar_name (cd_account x)))
      (required_backups_of cfg (ar_name (cd_account x))) (mail_root cfg)"
    and "rq_remote_message_id rq = rm_id (cd_remote x)"
    and "rq_canonical_id rq = map_option cm_id (cd_canonical x)"
    and "rq_account rq = ar_name (cd_account x)"
proof -
  from evaluate_all_Inr [OF assms(1)] obtain t run new where rows:
    "evaluate_rows H cfg (w_fs w) run t (candidate_rows (w_db w) account)
       (deletion_evaluations (w_db w)) = Inr (deletion_evaluations (w_db w) @ new, reports)"
    and instant: "now = None \<and> t = h_clock H (w_tick w) \<or> now = Some (Aware t)"
    by blast
  from evaluate_rows_spec [OF rows] assms(2) obtain x n e where
    "x \<in> set (candidate_rows (w_db w) account)"
    and e: "evaluate H (w_fs w) (facts_of x) (Aware t) (retention_days_of cfg (ar_name (cd_account x)))
          (required_backups_of cfg (ar_name (cd_account x))) (mail_root cfg) = Inr e"
    and rq: "rq = report_of H cfg n x e"
    by (fastforce dest!: list_all2_mem2 dest: set_zip_leftD)
  moreover from rq assms(3) have "el_eligible e" by (simp add: report_of_def Let_def)
  ultimately show thesis
    using that [of x t] instant rq evaluate_iff_safe [OF e]
    by (auto simp: report_of_def facts_of_def Let_def)
qed

text \<open>What an eligible report promises about the tables and the files.\<close>

definition deletion_safe_row ::
  "host \<Rightarrow> app_config \<Rightarrow> fs \<Rightarrow> db \<Rightarrow> int \<Rightarrow> remote_row \<Rightarrow> account_row \<Rightarrow> canonical_message \<Rightarrow> bool" where
  "deletion_safe_row H cfg F d now r a c \<longleftrightarrow>
     r \<in> set (remote_messages d) \<and> a \<in> set (accounts d) \<and> c \<in> set (canonical_messages d) \<and>
     rm_account_id r = ar_id a \<and> cm_account_id c = ar_id a \<and> ar_enabled a \<and>
     rm_remote_present r \<and> rm_identity_confidence r = ''proven'' \<and> identity_complete r \<and>
     rm_provider_kind r = ar_kind a \<and>
     map lk_canonical_message_id (links_of d (rm_id r)) = [cm_id c] \<and>
     cm_storage_state c = Archived \<and> cm_integrity_status c = ''verified'' \<and>
     canonical_bytes_intact H F (mail_root cfg) (Some (cm_local_path c)) (Some (cm_sha256 c)) \<and>
     retention_elapsed H (cm_archived_at c) (retention_days_of cfg (ar_name a)) now \<and>
     required_backups_of cfg (ar_name a) \<le> verified_repositories d (rm_id r) \<and>
     (\<forall>t \<in> set (retention_controls d). rt_canonical_message_id t = cm_id c \<longrightarrow>
        \<not> rt_keep_online t \<and> \<not> rt_legal_hold t)"

lemma safe_candidate_row:
  assumes x: "x \<in> set (candidate_rows d account)"
    and safe: "safe_to_delete H F (facts_of x) t (retention_days_of cfg (ar_name (cd_account x)))
      (required_backups_of cfg (ar_name (cd_account x))) (mail_root cfg)"
    and keys: "distinct (map rt_canonical_message_id (retention_controls d))"
  obtains c where "cd_canonical x = Some c"
    and "deletion_safe_row H cfg F d t (cd_remote x) (cd_account x) c"
proof -
  note row = candidate_rows_mem [OF x]
  from safe obtain c where c: "cd_canonical x = Some c"
    by (auto simp: safe_to_delete_def facts_of_def Let_def split: option.splits)
  with row(4) have "(Some c, cd_control x) \<in> set (canonical_joins d (rm_id (cd_remote x)))" by simp
  from canonical_joins_mem [OF this] obtain l where
    l: "l \<in> set (links_of d (rm_id (cd_remote x)))" and cmem: "c \<in> set (canonical_messages d)"
    and cl: "cm_id c = lk_canonical_message_id l"
    and ctl: "cd_control x \<in> set (left_join (filter (\<lambda>t. rt_canonical_message_id t = cm_id c)
      (retention_controls d)))" by blast
  from safe row(5) have "length (links_of d (rm_id (cd_remote x))) = 1"
    by (simp add: safe_to_delete_def facts_of_def Let_def)
  with l have links: "links_of d (rm_id (cd_remote x)) = [l]"
    by (cases "links_of d (rm_id (cd_remote x))") auto
  have held: "\<not> rt_keep_online t \<and> \<not> rt_legal_hold t"
    if t: "t \<in> set (retention_controls d)" "rt_canonical_message_id t = cm_id c" for t
  proof (cases "cd_control x")
    case None
    with ctl t show ?thesis by (auto simp: left_join_None filter_empty_conv)
  next
    case (Some u)
    with ctl have "u \<in> set (retention_controls d)" "rt_canonical_message_id u = cm_id c"
      by (auto simp: left_join_mem)
    with t keys have "u = t" by (auto simp: distinct_map inj_on_def)
    with safe Some show ?thesis by (simp add: safe_to_delete_def facts_of_def Let_def)
  qed
  from safe row c cl links cmem held
  have "deletion_safe_row H cfg F d t (cd_remote x) (cd_account x) c"
    by (simp add: deletion_safe_row_def safe_to_delete_def facts_of_def Let_def)
  with c show thesis by (rule that)
qed

lemma length_left_join: "length xs \<le> 1 \<Longrightarrow> length (left_join xs) = 1"
  by (cases xs) (auto simp: left_join_def)

lemma length_canonical_joins:
  assumes "unique_keys d"
  shows "length (canonical_joins d rid) = 1"
proof -
  from assms have keys: "distinct (map lk_remote_message_id (remote_canonical_links d))"
    "distinct (map cm_id (canonical_messages d))"
    "distinct (map rt_canonical_message_id (retention_controls d))"
    by (simp_all add: unique_keys_def)
  have one: "length (left_join (links_of d rid)) = 1"
    unfolding links_of_def by (rule length_left_join [OF length_filter_key [OF keys(1)]])
  have two: "length (left_join (case l of None \<Rightarrow> []
      | Some k \<Rightarrow> filter (\<lambda>c. cm_id c = lk_canonical_message_id k) (canonical_messages d))) = 1" for l
    using length_filter_key [OF keys(2)] by (intro length_left_join) (simp split: option.split)
  have three: "length (left_join (case c of None \<Rightarrow> []
      | Some m \<Rightarrow> filter (\<lambda>t. rt_canonical_message_id t = cm_id m) (retention_controls d))) = 1" for c
    using length_filter_key [OF keys(3)] by (intro length_left_join) (simp split: option.split)
  have single: "length (concat (map f xs)) = 1"
    if "length xs = 1" "\<And>x. length (f x) = 1" for f :: "'x \<Rightarrow> 'y list" and xs
    using that by (cases xs) auto
  show ?thesis
    unfolding canonical_joins_def
    by (intro single one two three) (simp_all only: length_map three list.size)
qed


section \<open>Retention controls\<close>

datatype control_kind = KeepOnline | LegalHold

definition control_kind_of :: "string \<Rightarrow> control_kind option" where
  "control_kind_of kind =
     (if kind = ''keep-online'' then Some KeepOnline
      else if kind = ''legal-hold'' then Some LegalHold else None)"

fun control_column :: "control_kind \<Rightarrow> control_row \<Rightarrow> bool" where
  "control_column KeepOnline t = rt_keep_online t"
| "control_column LegalHold t = rt_legal_hold t"

fun set_column :: "control_kind \<Rightarrow> bool \<Rightarrow> control_row \<Rightarrow> control_row" where
  "set_column KeepOnline v t = t\<lparr>rt_keep_online := v\<rparr>"
| "set_column LegalHold v t = t\<lparr>rt_legal_hold := v\<rparr>"

fun other_kind :: "control_kind \<Rightarrow> control_kind" where
  "other_kind KeepOnline = LegalHold"
| "other_kind LegalHold = KeepOnline"

definition insert_control ::
  "control_kind \<Rightarrow> string \<Rightarrow> string \<Rightarrow> string \<Rightarrow> control_row list \<Rightarrow> control_row list" where
  "insert_control kind cid reason now t =
     (if \<exists>r \<in> set t. rt_canonical_message_id r = cid
      then update_where (\<lambda>r. rt_canonical_message_id r = cid)
        (\<lambda>r. (set_column kind True r)\<lparr>rt_reason := reason, rt_updated_at := now\<rparr>) t
      else t @ [set_column kind True \<lparr>rt_canonical_message_id = cid, rt_keep_online = False,
                  rt_legal_hold = False, rt_reason = reason, rt_updated_at = now\<rparr>])"

text \<open>\<open>set_control\<close>; a release keeps the row when the other control is set and deletes it otherwise.\<close>

definition set_control ::
  "host \<Rightarrow> string \<Rightarrow> string \<Rightarrow> string \<Rightarrow> bool \<Rightarrow> 'p world \<Rightarrow> unit result \<times> 'p world" where
  "set_control H cid kind raw enabled w =
     (case control_kind_of kind of
        None \<Rightarrow> (Inl (ValueError ''invalid retention control kind''), w)
      | Some k \<Rightarrow>
          let reason = strip_by str_space raw; d = w_db w in
          if reason = [] \<or> length reason > 256
          then (Inl (ValueError ''--reason must be 1..256 characters''), w)
          else if canonical_message_by_id d cid = None
          then (Inl (ValueError ''unknown canonical ID''), w)
          else
            let t = retention_controls d;
                other = find (\<lambda>r. rt_canonical_message_id r = cid) t;
                kept = (case other of None \<Rightarrow> False | Some r \<Rightarrow> control_column (other_kind k) r);
                stamped = enabled \<or> kept;
                t' = (if enabled then insert_control k cid reason (reading H w 0) t
                      else if kept
                      then update_where (\<lambda>r. rt_canonical_message_id r = cid)
                        (\<lambda>r. (set_column k False r)\<lparr>rt_reason := reason, rt_updated_at := reading H w 0\<rparr>) t
                      else filter (\<lambda>r. rt_canonical_message_id r \<noteq> cid) t);
                used = (if stamped then 1 else 0)
            in (Inr (), commit (insert_audit_event (reading H w used) ''mailarchive.retention''
                  (if enabled then ''retention.control.set'' else ''retention.control.released'')
                  ''success'' None (Some cid)
                  (json_text [(''kind'', JStr kind), (''reason_length'', JInt (int (length reason)))])
                  (d\<lparr>retention_controls := t'\<rparr>)) (used + 1) w))"

lemma set_column_key [simp]: "rt_canonical_message_id (set_column k v t) = rt_canonical_message_id t"
  by (cases k) auto

lemma set_column_same [simp]: "control_column k (set_column k v t) = v"
  by (cases k) auto

lemma set_column_other [simp]:
  "control_column (other_kind k) (set_column k v t) = control_column (other_kind k) t"
  by (cases k) auto

lemma control_column_frame [simp]:
  "control_column k (t\<lparr>rt_reason := r, rt_updated_at := u\<rparr>) = control_column k t"
  by (cases k) auto

lemma other_kind_other [simp]: "other_kind (other_kind k) = k"
  by (cases k) auto

lemma control_check_iff:
  "control_check t \<longleftrightarrow> 1 \<le> length (rt_reason t) \<and> length (rt_reason t) \<le> 256 \<and>
     (control_column k t \<or> control_column (other_kind k) t)"
  by (cases k) (auto simp: control_check_def)

interpretation control_key: keyed_update rt_canonical_message_id
  "\<lambda>r. (set_column k v r)\<lparr>rt_reason := reason, rt_updated_at := now\<rparr>" for k v reason now
  by unfold_locales simp

text \<open>What a successful call did, in one place.\<close>

lemma set_control_Inr:
  assumes "set_control H cid kind raw enabled w = (Inr (), w')"
  obtains k reason where "control_kind_of kind = Some k"
    and "reason \<noteq> []" "length reason \<le> 256"
    and "\<exists>c \<in> set (canonical_messages (w_db w)). cm_id c = cid"
    and "retention_controls (w_db w') =
      (if enabled then insert_control k cid reason (reading H w 0) (retention_controls (w_db w))
       else if (case find (\<lambda>r. rt_canonical_message_id r = cid) (retention_controls (w_db w)) of
            None \<Rightarrow> False | Some r \<Rightarrow> control_column (other_kind k) r)
       then update_where (\<lambda>r. rt_canonical_message_id r = cid)
         (\<lambda>r. (set_column k False r)\<lparr>rt_reason := reason, rt_updated_at := reading H w 0\<rparr>)
         (retention_controls (w_db w))
       else filter (\<lambda>r. rt_canonical_message_id r \<noteq> cid) (retention_controls (w_db w)))"
proof -
  from assms obtain k where k: "control_kind_of kind = Some k"
    by (auto simp: set_control_def split: option.split_asm)
  have mem: "canonical_message_by_id (w_db w) cid \<noteq> None \<Longrightarrow>
      \<exists>c \<in> set (canonical_messages (w_db w)). cm_id c = cid"
    by (auto simp: canonical_message_by_id_def find_None_iff)
  from assms k show thesis
    by (intro that [OF k, of "strip_by str_space raw"])
       (auto simp: set_control_def Let_def mem split: if_split_asm)
qed

lemma set_control_Inl:
  "set_control H cid kind raw enabled w = (Inl e, w') \<Longrightarrow> w' = w"
  by (auto simp: set_control_def Let_def split: option.split_asm if_split_asm)

lemma insert_control_row:
  "\<exists>t \<in> set (insert_control k cid reason now ts). rt_canonical_message_id t = cid \<and> control_column k t"
proof (cases "\<exists>r \<in> set ts. rt_canonical_message_id r = cid")
  case True
  then obtain r where r: "r \<in> set ts" "rt_canonical_message_id r = cid" by blast
  let ?f = "\<lambda>r. (set_column k True r)\<lparr>rt_reason := reason, rt_updated_at := now\<rparr>"
  from r have "?f r \<in> set (update_where (\<lambda>r. rt_canonical_message_id r = cid) ?f ts)"
    by (auto simp: set_update_where)
  with True r show ?thesis
    by (intro bexI [of _ "?f r"]) (simp_all add: insert_control_def)
next
  case False
  then show ?thesis by (simp add: insert_control_def)
qed

lemma insert_control_distinct:
  "distinct (map rt_canonical_message_id ts) \<Longrightarrow>
     distinct (map rt_canonical_message_id (insert_control k cid reason now ts))"
  by (auto simp: insert_control_def control_key.keys_update)

lemma insert_control_check:
  "list_all control_check ts \<Longrightarrow> reason \<noteq> [] \<Longrightarrow> length reason \<le> 256 \<Longrightarrow>
     list_all control_check (insert_control k cid reason now ts)"
  by (cases k; cases reason)
     (auto simp: insert_control_def list_all_iff set_update_where control_check_def)

definition others :: "string \<Rightarrow> control_row list \<Rightarrow> control_row list" where
  "others cid t = filter (\<lambda>r. rt_canonical_message_id r \<noteq> cid) t"

definition held :: "string \<Rightarrow> control_kind \<Rightarrow> control_row list \<Rightarrow> bool" where
  "held cid k t \<longleftrightarrow> (\<exists>r \<in> set t. rt_canonical_message_id r = cid \<and> control_column k r)"

lemma others_update:
  "others cid (update_where (\<lambda>r. rt_canonical_message_id r = cid)
     (\<lambda>r. (set_column k v r)\<lparr>rt_reason := reason, rt_updated_at := now\<rparr>) t) = others cid t"
  by (induction t) (auto simp: others_def)

lemma others_insert: "others cid (insert_control k cid reason now t) = others cid t"
  using others_update by (auto simp: insert_control_def) (simp add: others_def)

lemma held_update:
  "held cid (other_kind k) (update_where (\<lambda>r. rt_canonical_message_id r = cid)
     (\<lambda>r. (set_column k v r)\<lparr>rt_reason := reason, rt_updated_at := now\<rparr>) t) = held cid (other_kind k) t"
  by (induction t) (auto simp: held_def)

lemma held_insert:
  "held cid (other_kind k) (insert_control k cid reason now t) = held cid (other_kind k) t"
proof (cases "\<exists>r \<in> set t. rt_canonical_message_id r = cid")
  case True
  then show ?thesis by (simp add: insert_control_def held_update)
next
  case False
  then show ?thesis by (cases k) (auto simp: insert_control_def held_def)
qed

lemma held_find:
  assumes "distinct (map rt_canonical_message_id t)"
  shows "held cid k t = (case find (\<lambda>r. rt_canonical_message_id r = cid) t of
     None \<Rightarrow> False | Some r \<Rightarrow> control_column k r)"
proof (cases "find (\<lambda>r. rt_canonical_message_id r = cid) t")
  case None
  then have "\<forall>r \<in> set t. rt_canonical_message_id r \<noteq> cid" by (simp add: find_None_iff)
  with None show ?thesis by (simp add: held_def)
next
  case (Some r)
  then have r: "r \<in> set t" "rt_canonical_message_id r = cid" by (auto dest: find_mem)
  with assms have "s = r" if "s \<in> set t" "rt_canonical_message_id s = cid" for s
    using that by (auto simp: distinct_map inj_on_def)
  with r have "held cid k t = control_column k r" unfolding held_def by blast
  with Some show ?thesis by simp
qed

lemma held_column:
  "held cid k (update_where (\<lambda>r. rt_canonical_message_id r = cid)
     (\<lambda>r. (set_column k v r)\<lparr>rt_reason := reason, rt_updated_at := now\<rparr>) t) \<longleftrightarrow>
   v \<and> (\<exists>r \<in> set t. rt_canonical_message_id r = cid)"
  by (induction t) (auto simp: held_def)

lemma update_check:
  assumes "list_all control_check t" "held cid (other_kind k) t"
    and "distinct (map rt_canonical_message_id t)" "reason \<noteq> []" "length reason \<le> 256"
  shows "list_all control_check (update_where (\<lambda>r. rt_canonical_message_id r = cid)
     (\<lambda>r. (set_column k v r)\<lparr>rt_reason := reason, rt_updated_at := now\<rparr>) t)"
proof -
  have "control_column (other_kind k) r" if "r \<in> set t" "rt_canonical_message_id r = cid" for r
    using that assms(2,3) by (auto simp: held_def distinct_map inj_on_def)
  with assms(1,4,5) show ?thesis
    by (cases reason) (auto simp: list_all_iff set_update_where control_check_iff [of _ k])
qed

text \<open>
  \<open>set_control\<close> keeps the control table well formed (reasons of 1 to 256 characters, no row
  without a control, one row per message) whether it succeeds or raises, and it never changes a
  row of another message nor the other control of this one; when it returns, the control it names
  is set exactly if it was asked to set it.
\<close>

theorem set_control_preserves:
  assumes "list_all control_check (retention_controls (w_db w))"
    and "distinct (map rt_canonical_message_id (retention_controls (w_db w)))"
    and "set_control H cid kind raw enabled w = (res, w')"
  shows "list_all control_check (retention_controls (w_db w')) \<and>
    distinct (map rt_canonical_message_id (retention_controls (w_db w'))) \<and>
    others cid (retention_controls (w_db w')) = others cid (retention_controls (w_db w)) \<and>
    (\<forall>k. control_kind_of kind = Some k \<longrightarrow>
      held cid (other_kind k) (retention_controls (w_db w')) =
        held cid (other_kind k) (retention_controls (w_db w)) \<and>
      (res = Inr () \<longrightarrow> held cid k (retention_controls (w_db w')) = enabled))"
proof (cases res)
  case (Inl e)
  with assms set_control_Inl show ?thesis by fastforce
next
  case (Inr u)
  with assms(3) have ok: "set_control H cid kind raw enabled w = (Inr (), w')" by simp
  let ?t = "retention_controls (w_db w)"
  from set_control_Inr [OF ok] obtain k reason where k: "control_kind_of kind = Some k"
    and reason: "reason \<noteq> []" "length reason \<le> 256"
    and t': "retention_controls (w_db w') =
      (if enabled then insert_control k cid reason (reading H w 0) ?t
       else if held cid (other_kind k) ?t
       then update_where (\<lambda>r. rt_canonical_message_id r = cid)
         (\<lambda>r. (set_column k False r)\<lparr>rt_reason := reason, rt_updated_at := reading H w 0\<rparr>) ?t
       else others cid ?t)"
    unfolding held_find [OF assms(2)] others_def by blast
  consider "enabled" | "\<not> enabled" "held cid (other_kind k) ?t" | "\<not> enabled" "\<not> held cid (other_kind k) ?t"
    by blast
  then show ?thesis
  proof cases
    case 1
    with t' k assms(1,2) reason insert_control_row [of k cid reason "reading H w 0" ?t] show ?thesis
      by (simp add: insert_control_check insert_control_distinct others_insert held_insert)
        (simp add: held_def)
  next
    case 2
    have "held cid k (update_where (\<lambda>r. rt_canonical_message_id r = cid)
         (\<lambda>r. (set_column k False r)\<lparr>rt_reason := reason, rt_updated_at := reading H w 0\<rparr>) ?t) = False"
      by (simp add: held_column)
    with 2 t' k assms(1,2) reason update_check [OF assms(1) 2(2) assms(2) reason] show ?thesis
      by (simp add: control_key.keys_update others_update held_update)
  next
    case 3
    have "held cid j (others cid ?t) = False" for j by (auto simp: held_def others_def)
    with 3 t' k assms(1,2) show ?thesis
      by (auto simp: others_def list_all_iff distinct_map_filter)
  qed
qed

text \<open>
  A hold fails closed: once \<open>set_control\<close> has set a control, no later evaluation over that
  control table, whatever else changed, reports the message eligible.
\<close>

theorem hold_blocks_eligibility:
  assumes "set_control H cid kind raw True w = (Inr (), w1)"
    and "unique_keys (w_db w2)"
    and "retention_controls (w_db w2) = retention_controls (w_db w1)"
    and "evaluate_all H cfg now account w2 = (Inr reports, w3)"
    and "rq \<in> set reports" and "rq_canonical_id rq = Some cid"
  shows "\<not> rq_eligible rq"
proof
  assume el: "rq_eligible rq"
  obtain k reason where
    "retention_controls (w_db w1) = insert_control k cid reason (reading H w 0) (retention_controls (w_db w))"
    by (rule set_control_Inr [OF assms(1)]) (simp only: if_True)
  with insert_control_row [of k cid reason "reading H w 0" "retention_controls (w_db w)"] assms(3)
  obtain t where
    t: "t \<in> set (retention_controls (w_db w2))" "rt_canonical_message_id t = cid" "control_column k t"
    by auto
  obtain x s where x: "x \<in> set (candidate_rows (w_db w2) account)"
    "safe_to_delete H (w_fs w2) (facts_of x) s (retention_days_of cfg (ar_name (cd_account x)))
      (required_backups_of cfg (ar_name (cd_account x))) (mail_root cfg)"
    "rq_canonical_id rq = map_option cm_id (cd_canonical x)"
    by (rule eligible_report_safe [OF assms(4,5) el]) (rule that)
  from assms(2) have "distinct (map rt_canonical_message_id (retention_controls (w_db w2)))"
    by (simp add: unique_keys_def)
  from safe_candidate_row [OF x(1,2) this] obtain c where "cd_canonical x = Some c"
    "deletion_safe_row H cfg (w_fs w2) (w_db w2) s (cd_remote x) (cd_account x) c" .
  with x(3) assms(6) t show False
    by (cases k) (auto simp: deletion_safe_row_def)
qed

lemma deletion_safe_row_cong:
  assumes "same_mail d d'"
  shows "deletion_safe_row H cfg F d t r a c = deletion_safe_row H cfg F d' t r a c"
proof -
  have eqs: "accounts d = accounts d'" "canonical_messages d = canonical_messages d'"
    "remote_messages d = remote_messages d'" "remote_canonical_links d = remote_canonical_links d'"
    "backup_repositories d = backup_repositories d'" "backup_runs d = backup_runs d'"
    "message_backup_evidence d = message_backup_evidence d'"
    "retention_controls d = retention_controls d'"
    using assms by (simp_all add: same_mail_def)
  show ?thesis
    by (simp only: deletion_safe_row_def links_of_def verified_repositories_def
        evidence_identities_def eqs)
qed

end
