(* ===== verification/MutationCore.thy ===== *)
theory MutationCore
  imports Retention
begin

text \<open>
  The provider-neutral types of \<open>remote_mutation.py\<close>: deletion targets with their fingerprint,
  adapter results with the closed matrix that normalises them, observation results, adapters, and
  the queries that rebuild a target from the tables.  The lemmas show that the serialised payload
  of a fingerprint determines the target's identity, and that normalisation only produces values
  the table's \<open>CHECK\<close> accepts, with success only for a confirmed absence.
\<close>

section \<open>Targets\<close>

record target_base =
  tg_remote_message_id :: string
  tg_canonical_message_id :: string
  tg_account_id :: int
  tg_account_name :: string
  tg_provider_kind :: provider
  tg_canonical_sha256 :: string

datatype target =
    ImapDeletionTarget target_base (tg_folder: string) (tg_uidvalidity: int) (tg_uid: int)
  | ProviderDeletionTarget target_base (tg_provider_message_id: string)

fun base :: "target \<Rightarrow> target_base" where
  "base (ImapDeletionTarget b f v u) = b"
| "base (ProviderDeletionTarget b p) = b"

fun identity_facts :: "target \<Rightarrow> (string \<times> json) list" where
  "identity_facts (ImapDeletionTarget b folder uidvalidity uid) =
     [(''folder'', JStr folder), (''uidvalidity'', JInt uidvalidity), (''uid'', JInt uid)]"
| "identity_facts (ProviderDeletionTarget b pmid) = [(''provider_message_id'', JStr pmid)]"

definition fingerprint_payload :: "target \<Rightarrow> (string \<times> json) list" where
  "fingerprint_payload t =
     [(''format_version'', JInt 1),
      (''account_id'', JInt (tg_account_id (base t))),
      (''provider_kind'', JStr (provider_text (tg_provider_kind (base t)))),
      (''remote_message_id'', JStr (tg_remote_message_id (base t))),
      (''canonical_message_id'', JStr (tg_canonical_message_id (base t))),
      (''canonical_sha256'', JStr (tg_canonical_sha256 (base t)))] @ identity_facts t"

text \<open>\<open>json.dumps(payload, sort_keys=True, separators=(",", ":"))\<close>.\<close>

definition serialized_payload :: "target \<Rightarrow> string" where
  "serialized_payload t = dumps '','' '':'' (JObj (sort_key fst (fingerprint_payload t)))"

definition fingerprint :: "host \<Rightarrow> target \<Rightarrow> string" where
  "fingerprint H t = h_sha256 H (serialized_payload t)"

section \<open>Adapter results\<close>

record mutation_result =
  ms_outcome :: string
  ms_confirmed_absent :: bool
  ms_summary :: string
  ms_error_code :: "string option"

definition FAILURE_ERROR_CODES :: "string list" where
  "FAILURE_ERROR_CODES =
     [''TARGET_NOT_FOUND'', ''IDENTITY_MISMATCH'', ''PROVIDER_REJECTED'',
      ''SAFE_DELETE_UNSUPPORTED'', ''REMOTE_STATE_CONFLICT'', ''AUTHORIZATION_FAILED'']"

definition INTERNAL_ERROR_CODES :: "string list" where
  "INTERNAL_ERROR_CODES = [''ADAPTER_EXCEPTION'', ''STALE_PLAN'', ''INVALID_ADAPTER_RESULT'']"

definition result_code :: "mutation_result \<Rightarrow> string" where
  "result_code r = (case ms_error_code r of None \<Rightarrow> ''NONE'' | Some c \<Rightarrow> if c = [] then ''NONE'' else c)"

definition normalize_result ::
  "mutation_result \<Rightarrow> string option \<Rightarrow> (mutation_status \<times> string \<times> string) result" where
  "normalize_result r internal =
     (case internal of
        Some code \<Rightarrow>
          if code \<in> set INTERNAL_ERROR_CODES - {''STALE_PLAN'', ''INVALID_ADAPTER_RESULT''}
          then Inr (Unknown, ''outcome-uncertain'', code)
          else Inl (ValueError ''invalid internal mutation error code'')
      | None \<Rightarrow>
          let code = result_code r in
          Inr (if ms_outcome r = ''success-confirmed'' \<and> ms_confirmed_absent r \<and> code = ''NONE''
               then (Succeeded, ''confirmed-absent'', ''NONE'')
               else if ms_outcome r = ''failure-confirmed-no-mutation'' \<and> \<not> ms_confirmed_absent r
                 \<and> code \<in> set FAILURE_ERROR_CODES
               then (Failed, ''confirmed-no-mutation'', code)
               else if ms_outcome r = ''outcome-unknown'' \<and> \<not> ms_confirmed_absent r
                 \<and> code = ''TRANSPORT_UNKNOWN''
               then (Unknown, ''outcome-uncertain'', code)
               else (Unknown, ''outcome-uncertain'', ''INVALID_ADAPTER_RESULT'')))"

definition OBSERVATION_STATES :: "string list" where
  "OBSERVATION_STATES =
     [''confirmed-absent'', ''confirmed-present-match'', ''identity-conflict'', ''unknown'']"

text \<open>
  An adapter sees the world at the moment of the call and answers with a result, or raises
  (\<^term>\<open>None\<close>); all it changes is the provider side.  Its factory may raise.
\<close>

type_synonym 'p adapter = "'p world \<Rightarrow> target \<Rightarrow> mutation_result option \<times> 'p"
type_synonym 'p observer = "'p world \<Rightarrow> target \<Rightarrow> string option \<times> 'p"

section \<open>Rebuilding a target from a row\<close>

text \<open>\<open>str(None)\<close> is the text \<open>None\<close>; \<open>int(None)\<close> raises.\<close>

definition py_str :: "string option \<Rightarrow> string" where
  "py_str x = (case x of None \<Rightarrow> ''None'' | Some s \<Rightarrow> s)"

definition target_of ::
  "target_base \<Rightarrow> string option \<Rightarrow> int option \<Rightarrow> int option \<Rightarrow> string option \<Rightarrow> target result" where
  "target_of b folder uidvalidity uid pmid =
     (if tg_provider_kind b = Imap
      then (case (uidvalidity, uid) of
              (Some v, Some u) \<Rightarrow> Inr (ImapDeletionTarget b (py_str folder) v u)
            | _ \<Rightarrow> Inl TypeError)
      else Inr (ProviderDeletionTarget b (py_str pmid)))"

text \<open>A row of the identity query: remote message, its account, its linked canonical message.\<close>

record joined_row =
  jr_remote :: remote_row
  jr_account :: account_row
  jr_canonical :: canonical_message

definition joined_rows :: "db \<Rightarrow> joined_row list" where
  "joined_rows d =
     [\<lparr>jr_remote = r, jr_account = a, jr_canonical = c\<rparr>.
      r \<leftarrow> remote_messages d,
      a \<leftarrow> accounts d, ar_id a = rm_account_id r,
      l \<leftarrow> links_of d (rm_id r),
      c \<leftarrow> canonical_messages d, cm_id c = lk_canonical_message_id l]"

definition row_base :: "joined_row \<Rightarrow> target_base" where
  "row_base j =
     \<lparr>tg_remote_message_id = rm_id (jr_remote j), tg_canonical_message_id = cm_id (jr_canonical j),
      tg_account_id = rm_account_id (jr_remote j), tg_account_name = ar_name (jr_account j),
      tg_provider_kind = rm_provider_kind (jr_remote j), tg_canonical_sha256 = cm_sha256 (jr_canonical j)\<rparr>"

definition target_row :: "joined_row \<Rightarrow> target result" where
  "target_row j =
     target_of (row_base j) (rm_remote_folder (jr_remote j)) (rm_uidvalidity (jr_remote j))
       (rm_remote_uid (jr_remote j)) (rm_provider_message_id (jr_remote j))"

definition mutation_by_id :: "db \<Rightarrow> int \<Rightarrow> mutation_row option" where
  "mutation_by_id d ident = find (\<lambda>m. mu_id m = ident) (remote_mutations d)"

definition account_by_id :: "db \<Rightarrow> int \<Rightarrow> account_row option" where
  "account_by_id d ident = find (\<lambda>a. ar_id a = ident) (accounts d)"

definition mutation_base :: "mutation_row \<Rightarrow> account_row \<Rightarrow> string \<Rightarrow> target_base" where
  "mutation_base m a sha =
     \<lparr>tg_remote_message_id = mu_remote_message_id m,
      tg_canonical_message_id = mu_canonical_message_id m, tg_account_id = mu_account_id m,
      tg_account_name = ar_name a, tg_provider_kind = mu_provider_kind m, tg_canonical_sha256 = sha\<rparr>"

text \<open>\<open>_planned_target\<close>: the digest is the canonical message's current one.\<close>

definition planned_target :: "db \<Rightarrow> int \<Rightarrow> target result" where
  "planned_target d ident =
     (case mutation_by_id d ident of
        None \<Rightarrow> Inl (RuntimeError ''planned mutation disappeared'')
      | Some m \<Rightarrow>
          (case (account_by_id d (mu_account_id m),
                 canonical_message_by_id d (mu_canonical_message_id m)) of
             (Some a, Some c) \<Rightarrow>
               target_of (mutation_base m a (cm_sha256 c)) (mu_remote_folder m) (mu_uidvalidity m)
                 (mu_remote_uid m) (mu_provider_message_id m)
           | _ \<Rightarrow> Inl (RuntimeError ''planned mutation disappeared'')))"

text \<open>\<open>_historical_target\<close>: everything from the mutation row itself.\<close>

definition historical_target :: "db \<Rightarrow> int \<Rightarrow> target result" where
  "historical_target d ident =
     (case mutation_by_id d ident of
        None \<Rightarrow> Inl (ReconciliationError ''historical mutation disappeared'')
      | Some m \<Rightarrow>
          (case account_by_id d (mu_account_id m) of
             None \<Rightarrow> Inl (ReconciliationError ''historical mutation disappeared'')
           | Some a \<Rightarrow>
               target_of (mutation_base m a (mu_canonical_sha256 m)) (mu_remote_folder m)
                 (mu_uidvalidity m) (mu_remote_uid m) (mu_provider_message_id m)))"

section \<open>The payload determines the identity\<close>

text \<open>Two targets with the same destructive identity: all facts but the account's display name.\<close>

definition same_identity :: "target \<Rightarrow> target \<Rightarrow> bool" where
  "same_identity t u \<longleftrightarrow>
     identity_facts t = identity_facts u \<and>
     (base t)\<lparr>tg_account_name := []\<rparr> = (base u)\<lparr>tg_account_name := []\<rparr>"

lemma sorted_payload:
  "sort_key fst (fingerprint_payload (ImapDeletionTarget b f v u)) =
     [(''account_id'', JInt (tg_account_id b)),
      (''canonical_message_id'', JStr (tg_canonical_message_id b)),
      (''canonical_sha256'', JStr (tg_canonical_sha256 b)),
      (''folder'', JStr f), (''format_version'', JInt 1),
      (''provider_kind'', JStr (provider_text (tg_provider_kind b))),
      (''remote_message_id'', JStr (tg_remote_message_id b)),
      (''uid'', JInt u), (''uidvalidity'', JInt v)]"
  "sort_key fst (fingerprint_payload (ProviderDeletionTarget b p)) =
     [(''account_id'', JInt (tg_account_id b)),
      (''canonical_message_id'', JStr (tg_canonical_message_id b)),
      (''canonical_sha256'', JStr (tg_canonical_sha256 b)), (''format_version'', JInt 1),
      (''provider_kind'', JStr (provider_text (tg_provider_kind b))),
      (''provider_message_id'', JStr p),
      (''remote_message_id'', JStr (tg_remote_message_id b))]"
  by (simp_all add: fingerprint_payload_def)

lemma int_text_append_iff:
  "\<not> number_char d \<Longrightarrow> int_text i @ d # u = int_text j @ d # v \<longleftrightarrow> i = j \<and> u = v"
  using int_text_append_inject by blast

lemma not_number [simp]: "\<not> number_char CHR '',''" "\<not> number_char CHR ''}''"
  by (simp_all add: number_char_def is_digit_def)

lemma json_string_inject: "json_string s = json_string t \<longleftrightarrow> s = t"
  using json_string_append_inject [of s "[]" t "[]"] by simp

lemmas unique_decoding = json_string_append_inject json_string_inject int_text_append_iff

lemma serialized_imap:
  "serialized_payload (ImapDeletionTarget b f v u) = serialized_payload (ImapDeletionTarget c g w x) \<longleftrightarrow>
     same_identity (ImapDeletionTarget b f v u) (ImapDeletionTarget c g w x)"
  unfolding serialized_payload_def sorted_payload
  by (cases b; cases c) (auto simp: unique_decoding same_identity_def)

lemma serialized_provider:
  "serialized_payload (ProviderDeletionTarget b p) = serialized_payload (ProviderDeletionTarget c q) \<longleftrightarrow>
     same_identity (ProviderDeletionTarget b p) (ProviderDeletionTarget c q)"
  unfolding serialized_payload_def sorted_payload
  by (cases b; cases c) (auto simp: unique_decoding same_identity_def)

lemma serialized_mixed:
  "serialized_payload (ImapDeletionTarget b f v u) \<noteq> serialized_payload (ProviderDeletionTarget c q)"
  unfolding serialized_payload_def sorted_payload
  by (simp add: unique_decoding)

text \<open>
  C7.  The text that is hashed into a fingerprint determines the destructive identity: two targets
  serialise alike exactly when they agree on provider, account, remote identity, canonical message
  and canonical digest (the account's display name is not part of it), whatever characters the
  fields contain.
\<close>

theorem fingerprint_payload_determines_identity:
  "serialized_payload t = serialized_payload u \<longleftrightarrow> same_identity t u"
proof (cases t)
  case t: (ImapDeletionTarget b f v w)
  show ?thesis
  proof (cases u)
    case u: ProviderDeletionTarget
    show ?thesis unfolding t u using serialized_mixed by (simp add: same_identity_def)
  qed (simp add: t serialized_imap)
next
  case t: (ProviderDeletionTarget b p)
  show ?thesis
  proof (cases u)
    case u: ImapDeletionTarget
    show ?thesis unfolding t u using serialized_mixed [symmetric] by (simp add: same_identity_def)
  qed (simp add: t serialized_provider)
qed

section \<open>The result matrix is closed\<close>

lemma failure_codes_closed: "set FAILURE_ERROR_CODES \<subseteq> set mutation_error_codes"
  by (simp add: FAILURE_ERROR_CODES_def mutation_error_codes_def)

lemma known_codes [simp]:
  "''NONE'' \<in> set mutation_error_codes" "''TRANSPORT_UNKNOWN'' \<in> set mutation_error_codes"
  "''INVALID_ADAPTER_RESULT'' \<in> set mutation_error_codes"
  "''ADAPTER_EXCEPTION'' \<in> set mutation_error_codes" "''STALE_PLAN'' \<in> set mutation_error_codes"
  "''RECONCILED_PRESENT'' \<in> set mutation_error_codes"
  by (simp_all add: mutation_error_codes_def)

lemma known_summaries [simp]:
  "''confirmed-absent'' \<in> set response_summaries" "''confirmed-no-mutation'' \<in> set response_summaries"
  "''outcome-uncertain'' \<in> set response_summaries"
  by (simp_all add: response_summaries_def)

lemma internal_codes: "code \<in> set INTERNAL_ERROR_CODES - {''STALE_PLAN'', ''INVALID_ADAPTER_RESULT''} \<longleftrightarrow>
    code = ''ADAPTER_EXCEPTION''"
  by (auto simp: INTERNAL_ERROR_CODES_def)

lemma normalize_internal [simp]:
  "normalize_result r (Some ''ADAPTER_EXCEPTION'') = Inr (Unknown, ''outcome-uncertain'', ''ADAPTER_EXCEPTION'')"
  unfolding normalize_result_def option.case internal_codes by simp

lemma normalize_None:
  obtains st sm code where "normalize_result r None = Inr (st, sm, code)"
    and "sm \<in> set response_summaries" and "code \<in> set mutation_error_codes"
    and "st \<in> {Succeeded, Failed, Unknown}"
    and "st = Succeeded \<longleftrightarrow> ms_outcome r = ''success-confirmed'' \<and> ms_confirmed_absent r \<and>
      result_code r = ''NONE''"
proof -
  let ?ok = "ms_outcome r = ''success-confirmed'' \<and> ms_confirmed_absent r \<and> result_code r = ''NONE''"
  let ?no = "ms_outcome r = ''failure-confirmed-no-mutation'' \<and> \<not> ms_confirmed_absent r
      \<and> result_code r \<in> set FAILURE_ERROR_CODES"
  let ?un = "ms_outcome r = ''outcome-unknown'' \<and> \<not> ms_confirmed_absent r
      \<and> result_code r = ''TRANSPORT_UNKNOWN''"
  consider "?ok" | "\<not> ?ok" "?no" | "\<not> ?ok" "\<not> ?no" "?un" | "\<not> ?ok" "\<not> ?no" "\<not> ?un" by blast
  then show thesis
  proof cases
    case 1
    then show thesis
      by (intro that [of Succeeded "''confirmed-absent''" "''NONE''"])
         (simp_all add: normalize_result_def Let_def)
  next
    case 2
    then show thesis using failure_codes_closed
      by (intro that [of Failed "''confirmed-no-mutation''" "result_code r"])
         (auto simp: normalize_result_def Let_def)
  next
    case 3
    then show thesis
      by (intro that [of Unknown "''outcome-uncertain''" "''TRANSPORT_UNKNOWN''"])
         (simp_all add: normalize_result_def Let_def)
  next
    case 4
    then show thesis
      by (intro that [of Unknown "''outcome-uncertain''" "''INVALID_ADAPTER_RESULT''"])
         (simp_all only: normalize_result_def Let_def option.case if_False, simp_all)
  qed
qed


end
