(* ===== verification/MutationPlan.thy ===== *)
theory MutationPlan
  imports MutationCore
begin

text \<open>
  \<open>plan_dry_run\<close>: a fresh policy evaluation, the deterministic selection under the run and account
  limits, and the append of one dry-run plan.  The lemmas show that a plan respects every limit,
  that each planned row carries the identity, fingerprint and evaluation of a candidate that was
  safe in that same run, and that planning touches neither the provider nor the mail tables.
\<close>

section \<open>Selection\<close>

fun select_rows ::
  "int \<Rightarrow> int \<Rightarrow> joined_row list \<Rightarrow> joined_row list \<Rightarrow> (int \<Rightarrow> int) \<Rightarrow> int \<Rightarrow> int \<Rightarrow>
     joined_row list \<times> int \<times> int" where
  "select_rows max_run max_account [] selected per skipped_account skipped_global =
     (selected, skipped_account, skipped_global)"
| "select_rows max_run max_account (x # xs) selected per skipped_account skipped_global =
     (let aid = rm_account_id (jr_remote x) in
      if per aid \<ge> max_account
      then select_rows max_run max_account xs selected per (skipped_account + 1) skipped_global
      else if int (length selected) \<ge> max_run
      then select_rows max_run max_account xs selected per skipped_account (skipped_global + 1)
      else select_rows max_run max_account xs (selected @ [x]) (per(aid := per aid + 1))
             skipped_account skipped_global)"

text \<open>\<open>reports_by_remote[id]\<close>: a dictionary built from a list keeps the last entry of a key.\<close>

definition report_for :: "report list \<Rightarrow> string \<Rightarrow> report option" where
  "report_for reports rid = find (\<lambda>r. rq_remote_message_id r = rid) (rev reports)"

section \<open>The plan rows\<close>

definition target_folder :: "target \<Rightarrow> string option" where
  "target_folder t = (case t of ImapDeletionTarget b f v u \<Rightarrow> Some f | _ \<Rightarrow> None)"

definition target_uidvalidity :: "target \<Rightarrow> int option" where
  "target_uidvalidity t = (case t of ImapDeletionTarget b f v u \<Rightarrow> Some v | _ \<Rightarrow> None)"

definition target_uid :: "target \<Rightarrow> int option" where
  "target_uid t = (case t of ImapDeletionTarget b f v u \<Rightarrow> Some u | _ \<Rightarrow> None)"

definition target_pmid :: "target \<Rightarrow> string option" where
  "target_pmid t = (case t of ProviderDeletionTarget b p \<Rightarrow> Some p | _ \<Rightarrow> None)"

definition plan_row :: "host \<Rightarrow> int \<Rightarrow> int \<Rightarrow> int \<Rightarrow> string \<Rightarrow> target \<Rightarrow> mutation_row" where
  "plan_row H ident run evaluation now t =
     \<lparr>mu_id = ident, mu_run_id = run, mu_deletion_evaluation_id = evaluation,
      mu_account_id = tg_account_id (base t), mu_remote_message_id = tg_remote_message_id (base t),
      mu_canonical_message_id = tg_canonical_message_id (base t),
      mu_provider_kind = tg_provider_kind (base t), mu_operation = ''delete'',
      mu_remote_folder = target_folder t, mu_uidvalidity = target_uidvalidity t,
      mu_remote_uid = target_uid t, mu_provider_message_id = target_pmid t,
      mu_canonical_sha256 = tg_canonical_sha256 (base t), mu_target_fingerprint = fingerprint H t,
      mu_dry_run = True, mu_requested_at = now, mu_started_at = None, mu_completed_at = None,
      mu_status = DryRun, mu_provider_response_summary = None, mu_error_code = None,
      mu_source_plan_mutation_id = None, mu_reconciled_at = None\<rparr>"

text \<open>The \<open>CHECK\<close>s of the row and \<open>UNIQUE(mutation_run_id, remote_message_id)\<close>.\<close>

definition insertable :: "mutation_row \<Rightarrow> mutation_row list \<Rightarrow> bool" where
  "insertable row t \<longleftrightarrow> mutation_check row \<and>
     (\<forall>m \<in> set t. mu_run_id m = mu_run_id row \<longrightarrow> mu_remote_message_id m \<noteq> mu_remote_message_id row)"

fun insert_plan_rows ::
  "host \<Rightarrow> report list \<Rightarrow> int \<Rightarrow> string \<Rightarrow> joined_row list \<Rightarrow> mutation_row list \<Rightarrow> mutation_row list result" where
  "insert_plan_rows H reports run now [] t = Inr t"
| "insert_plan_rows H reports run now (x # xs) t =
     (case target_row x of
        Inl e \<Rightarrow> Inl e
      | Inr target \<Rightarrow>
          (case report_for reports (tg_remote_message_id (base target)) of
             None \<Rightarrow> Inl KeyError
           | Some rq \<Rightarrow>
               let row = plan_row H (next_rowid (map mu_id t)) run (rq_deletion_evaluation_id rq) now target
               in if insertable row t then insert_plan_rows H reports run now xs (t @ [row])
                  else Inl IntegrityError))"

record plan_result =
  pl_run_id :: int
  pl_candidate_eligible :: bool
  pl_planned :: bool
  pl_dry_run :: bool
  pl_production_execution_authorized :: bool
  pl_eligible :: int
  pl_selected :: int
  pl_skipped_global :: int
  pl_skipped_account :: int
  pl_policy_version :: string

definition plan_run_row ::
  "app_config \<Rightarrow> int \<Rightarrow> string \<Rightarrow> string option \<Rightarrow> int option \<Rightarrow> int \<Rightarrow> int \<Rightarrow> int \<Rightarrow> int \<Rightarrow> mutation_run_row" where
  "plan_run_row cfg ident now account limit max_run eligible selected skipped =
     \<lparr>mr_id = ident, mr_requested_at = now, mr_completed_at = Some now, mr_mode = DryRunMode,
      mr_status = RunCompleted, mr_account_filter = account, mr_requested_limit = limit,
      mr_effective_max_per_run = max_run,
      mr_effective_max_per_account = rd_max_per_account (cf_remote_deletion cfg),
      mr_eligible_count = eligible, mr_selected_count = selected, mr_skipped_limit_count = skipped,
      mr_policy_version = POLICY_VERSION, mr_source_plan_run_id = None, mr_authorization_method = None\<rparr>"

definition identity_rows :: "db \<Rightarrow> string list \<Rightarrow> joined_row list" where
  "identity_rows d ids =
     sort_key (\<lambda>j. (ar_name (jr_account j), rm_id (jr_remote j)))
       (filter (\<lambda>j. rm_id (jr_remote j) \<in> set ids) (joined_rows d))"

definition plan_dry_run ::
  "host \<Rightarrow> app_config \<Rightarrow> string option \<Rightarrow> int option \<Rightarrow> 'p world \<Rightarrow> plan_result result \<times> 'p world" where
  "plan_dry_run H cfg account limit w =
     (let cap = rd_max_per_run (cf_remote_deletion cfg) in
      if (case limit of None \<Rightarrow> False | Some n \<Rightarrow> \<not> (1 \<le> n \<and> n \<le> cap))
      then (Inl (ValueError ''--limit must be >= 1 and cannot exceed remote_deletion.max_per_run''), w)
      else
        (case evaluate_all H cfg None account w of
           (Inl e, w1) \<Rightarrow> (Inl e, w1)
         | (Inr reports, w1) \<Rightarrow>
             let eligible = filter rq_eligible reports;
                 max_run = (case limit of None \<Rightarrow> cap | Some n \<Rightarrow> n);
                 d = w_db w1;
                 rows = identity_rows d (map rq_remote_message_id eligible)
             in case select_rows max_run (rd_max_per_account (cf_remote_deletion cfg)) rows [] (\<lambda>a. 0) 0 0 of
                  (selected, skipped_account, skipped_global) \<Rightarrow>
                    let now = reading H w1 0;
                        run = next_rowid (map mr_id (remote_mutation_runs d));
                        run_row = plan_run_row cfg run now account limit max_run
                          (int (length eligible)) (int (length selected)) (skipped_account + skipped_global)
                    in if \<not> mutation_run_check run_row then (Inl IntegrityError, tick 1 w1)
                       else (case insert_plan_rows H reports run now selected (remote_mutations d) of
                           Inl e \<Rightarrow> (Inl e, tick 1 w1)
                         | Inr t \<Rightarrow>
                             (Inr \<lparr>pl_run_id = run, pl_candidate_eligible = (eligible \<noteq> []),
                                pl_planned = True, pl_dry_run = True,
                                pl_production_execution_authorized = False,
                                pl_eligible = int (length eligible), pl_selected = int (length selected),
                                pl_skipped_global = skipped_global, pl_skipped_account = skipped_account,
                                pl_policy_version = POLICY_VERSION\<rparr>,
                              commit (insert_audit_event (reading H w1 1) ''mailarchive.remote_mutation''
                                  ''remote_delete.dry_run.completed'' ''success'' None None
                                  (json_sorted [(''eligible'', JInt (int (length eligible))),
                                     (''selected'', JInt (int (length selected))),
                                     (''skipped_limit'', JInt (skipped_account + skipped_global)),
                                     (''policy_version'', JStr POLICY_VERSION)])
                                  (d\<lparr>remote_mutation_runs := remote_mutation_runs d @ [run_row],
                                     remote_mutations := t\<rparr>)) 2 w1))))"

section \<open>Limits\<close>

lemma select_rows_bounds:
  assumes "select_rows max_run max_account xs selected per ska skg = (result, a, g)"
    and "\<And>i. per i = int (length (filter (\<lambda>j. rm_account_id (jr_remote j) = i) selected))"
    and "\<And>i. per i \<le> max_account \<or> per i = 0"
    and "int (length selected) \<le> max_run \<or> selected = []"
  shows "(int (length result) \<le> max_run \<or> result = []) \<and>
    (\<forall>i. int (length (filter (\<lambda>j. rm_account_id (jr_remote j) = i) result)) \<le> max_account \<or>
         filter (\<lambda>j. rm_account_id (jr_remote j) = i) result = []) \<and>
    int (length result) + a + g = int (length selected) + int (length xs) + ska + skg \<and>
    set result \<subseteq> set selected \<union> set xs"
  using assms
proof (induction xs arbitrary: selected per ska skg)
  case Nil
  then show ?case by auto
next
  case (Cons x xs)
  let ?aid = "rm_account_id (jr_remote x)"
  consider "per ?aid \<ge> max_account" | "\<not> per ?aid \<ge> max_account" "int (length selected) \<ge> max_run"
    | "\<not> per ?aid \<ge> max_account" "\<not> int (length selected) \<ge> max_run" by blast
  then show ?case
  proof cases
    case 1
    with Cons.prems Cons.IH [of selected per "ska + 1" skg] show ?thesis by (auto simp: Let_def)
  next
    case 2
    with Cons.prems Cons.IH [of selected per ska "skg + 1"] show ?thesis by (auto simp: Let_def)
  next
    case 3
    with Cons.prems(1) have step: "select_rows max_run max_account xs (selected @ [x])
        (per(?aid := per ?aid + 1)) ska skg = (result, a, g)" by (simp add: Let_def)
    have "(per(?aid := per ?aid + 1)) i =
        int (length (filter (\<lambda>j. rm_account_id (jr_remote j) = i) (selected @ [x])))" for i
      using Cons.prems(2) by simp
    moreover have "(per(?aid := per ?aid + 1)) i \<le> max_account \<or> (per(?aid := per ?aid + 1)) i = 0" for i
      using Cons.prems(3) [of i] 3(1) by auto
    moreover have "int (length (selected @ [x])) \<le> max_run \<or> selected @ [x] = []"
      using 3(2) by simp
    ultimately show ?thesis using Cons.IH [OF step] by auto
  qed
qed

section \<open>What a plan row is\<close>

lemma insert_plan_rows_spec:
  assumes "insert_plan_rows H reports run now xs t = Inr t'"
  shows "\<exists>new. t' = t @ new \<and>
    list_all2 (\<lambda>x m. \<exists>g rq. target_row x = Inr g \<and>
       report_for reports (tg_remote_message_id (base g)) = Some rq \<and>
       m = plan_row H (mu_id m) run (rq_deletion_evaluation_id rq) now g \<and> mutation_check m) xs new"
  using assms
proof (induction xs arbitrary: t)
  case Nil
  then show ?case by simp
next
  case (Cons x xs)
  then obtain g rq where g: "target_row x = Inr g"
    "report_for reports (tg_remote_message_id (base g)) = Some rq"
    by (auto split: sum.splits option.splits)
  let ?row = "plan_row H (next_rowid (map mu_id t)) run (rq_deletion_evaluation_id rq) now g"
  from Cons.prems g have ok: "insertable ?row t"
    "insert_plan_rows H reports run now xs (t @ [?row]) = Inr t'"
    by (auto simp: Let_def split: if_splits)
  from Cons.IH [OF ok(2)] obtain new where new: "t' = (t @ [?row]) @ new"
    "list_all2 (\<lambda>x m. \<exists>g rq. target_row x = Inr g \<and>
       report_for reports (tg_remote_message_id (base g)) = Some rq \<and>
       m = plan_row H (mu_id m) run (rq_deletion_evaluation_id rq) now g \<and> mutation_check m) xs new"
    by blast
  have "?row = plan_row H (mu_id ?row) run (rq_deletion_evaluation_id rq) now g"
    by (simp add: plan_row_def)
  with g ok(1) new show ?case
    by (intro exI [of _ "?row # new"]) (auto simp: insertable_def)
qed

lemma insert_plan_rows_distinct:
  "insert_plan_rows H reports run now xs t = Inr t' \<Longrightarrow> distinct (map mu_id t) \<Longrightarrow>
     distinct (map mu_id t')"
proof (induction xs arbitrary: t)
  case Nil
  then show ?case by simp
next
  case (Cons x xs)
  then show ?case
    by (auto simp: Let_def plan_row_def split: sum.splits option.splits if_splits
        dest!: Cons.IH simp del: set_map)
qed

lemma target_of_base: "target_of b folder v u p = Inr g \<Longrightarrow> base g = b"
  by (auto simp: target_of_def split: if_splits option.splits)

lemma target_row_base: "target_row j = Inr g \<Longrightarrow> base g = row_base j"
  by (simp add: target_row_def target_of_base)

lemma report_for_mem:
  "report_for reports rid = Some rq \<Longrightarrow> rq \<in> set reports \<and> rq_remote_message_id rq = rid"
  unfolding report_for_def by (drule find_mem) simp

lemma joined_rows_mem:
  assumes "j \<in> set (joined_rows d)"
  shows "jr_remote j \<in> set (remote_messages d)" "jr_account j \<in> set (accounts d)"
    "ar_id (jr_account j) = rm_account_id (jr_remote j)"
    "jr_canonical j \<in> set (canonical_messages d)"
    "cm_id (jr_canonical j) \<in> lk_canonical_message_id ` set (links_of d (rm_id (jr_remote j)))"
proof -
  from assms obtain r a l c where "r \<in> set (remote_messages d)" "a \<in> set (accounts d)"
    "ar_id a = rm_account_id r" "l \<in> set (links_of d (rm_id r))" "c \<in> set (canonical_messages d)"
    "cm_id c = lk_canonical_message_id l"
    "j = \<lparr>jr_remote = r, jr_account = a, jr_canonical = c\<rparr>"
    unfolding joined_rows_def by (auto simp only: set_concat set_map image_iff
        UN_iff set_simps empty_iff insert_iff split: if_split_asm)
  then show "jr_remote j \<in> set (remote_messages d)" "jr_account j \<in> set (accounts d)"
    "ar_id (jr_account j) = rm_account_id (jr_remote j)"
    "jr_canonical j \<in> set (canonical_messages d)"
    "cm_id (jr_canonical j) \<in> lk_canonical_message_id ` set (links_of d (rm_id (jr_remote j)))"
    by auto
qed

text \<open>
  A safe remote message has one link, so its identity row is determined: the canonical message the
  evaluation accepted is the one the identity query joins.
\<close>

lemma safe_row_joined:
  assumes safe: "deletion_safe_row H cfg F d now r a c" and keys: "unique_keys d"
    and j: "j \<in> set (joined_rows d)" and id: "rm_id (jr_remote j) = rm_id r"
  shows "j = \<lparr>jr_remote = r, jr_account = a, jr_canonical = c\<rparr>"
proof -
  note m = joined_rows_mem [OF j]
  from safe have d: "r \<in> set (remote_messages d)" "a \<in> set (accounts d)"
    "c \<in> set (canonical_messages d)" "rm_account_id r = ar_id a"
    "map lk_canonical_message_id (links_of d (rm_id r)) = [cm_id c]"
    by (auto simp: deletion_safe_row_def)
  from keys have "inj_on rm_id (set (remote_messages d))" "inj_on ar_id (set (accounts d))"
    "inj_on cm_id (set (canonical_messages d))"
    by (simp_all add: unique_keys_def distinct_map)
  note inj = this
  from inj(1) m(1) d(1) id have 1: "jr_remote j = r" by (auto dest: inj_onD)
  from inj(2) m(2,3) d(2,4) 1 have 2: "jr_account j = a" by (auto dest: inj_onD)
  from d(5) have "lk_canonical_message_id ` set (links_of d (rm_id r)) = {cm_id c}"
    by (metis list.set_map list.simps(15) list.set(1))
  with m(5) 1 have "cm_id (jr_canonical j) = cm_id c" by simp
  with inj(3) m(4) d(3) have 3: "jr_canonical j = c" by (auto dest: inj_onD)
  from 1 2 3 show ?thesis by simp
qed

section \<open>Soundness of a plan\<close>

lemma joined_rows_cong: "same_mail d d' \<Longrightarrow> joined_rows d = joined_rows d'"
  by (simp only: joined_rows_def same_mail_def links_of_def)

text \<open>What a successful planning step did, from the evaluation on.\<close>

lemma plan_dry_run_Inr:
  assumes "plan_dry_run H cfg account limit w = (Inr res, w')"
  obtains reports w1 selected ska skg t run_row ev where
    "evaluate_all H cfg None account w = (Inr reports, w1)"
    "select_rows (case limit of None \<Rightarrow> rd_max_per_run (cf_remote_deletion cfg) | Some n \<Rightarrow> n)
       (rd_max_per_account (cf_remote_deletion cfg))
       (identity_rows (w_db w1) (map rq_remote_message_id (filter rq_eligible reports)))
       [] (\<lambda>a. 0) 0 0 = (selected, ska, skg)"
    "insert_plan_rows H reports (pl_run_id res) (reading H w1 0) selected
       (remote_mutations (w_db w1)) = Inr t"
    "mutation_run_check run_row" "mr_id run_row = pl_run_id res"
    "pl_run_id res = next_rowid (map mr_id (remote_mutation_runs (w_db w1)))"
    "mr_effective_max_per_run run_row =
       (case limit of None \<Rightarrow> rd_max_per_run (cf_remote_deletion cfg) | Some n \<Rightarrow> n)"
    "mr_effective_max_per_account run_row = rd_max_per_account (cf_remote_deletion cfg)"
    "mr_mode run_row = DryRunMode" "mr_status run_row = RunCompleted"
    "mr_account_filter run_row = account"
    "mr_selected_count run_row = int (length selected)"
    "pl_selected res = int (length selected)" "pl_eligible res = int (length (filter rq_eligible reports))"
    "pl_skipped_account res = ska" "pl_skipped_global res = skg"
    "\<not> pl_production_execution_authorized res"
    "w_db w' = (w_db w1)\<lparr>audit_events := audit_events (w_db w1) @ [ev],
       remote_mutation_runs := remote_mutation_runs (w_db w1) @ [run_row], remote_mutations := t\<rparr>"
    "ae_id ev = next_rowid (map ae_id (audit_events (w_db w1)))"
    "w_net w' = w_net w1" "w_fs w' = w_fs w1"
proof -
  from assms obtain reports w1 where ev: "evaluate_all H cfg None account w = (Inr reports, w1)"
    by (auto simp: plan_dry_run_def Let_def split: if_split_asm prod.split_asm sum.split_asm)
  obtain selected ska skg where sel:
    "select_rows (case limit of None \<Rightarrow> rd_max_per_run (cf_remote_deletion cfg) | Some n \<Rightarrow> n)
       (rd_max_per_account (cf_remote_deletion cfg))
       (identity_rows (w_db w1) (map rq_remote_message_id (filter rq_eligible reports)))
       [] (\<lambda>a. 0) 0 0 = (selected, ska, skg)"
    by (metis prod_cases3)
  let ?row = "plan_run_row cfg (next_rowid (map mr_id (remote_mutation_runs (w_db w1)))) (reading H w1 0)
      account limit (case limit of None \<Rightarrow> rd_max_per_run (cf_remote_deletion cfg) | Some n \<Rightarrow> n)
      (int (length (filter rq_eligible reports))) (int (length selected)) (ska + skg)"
  from assms ev sel have ok: "mutation_run_check ?row"
    by (auto simp: plan_dry_run_def Let_def split: if_split_asm)
  with assms ev sel obtain t where t: "insert_plan_rows H reports
      (next_rowid (map mr_id (remote_mutation_runs (w_db w1)))) (reading H w1 0) selected
      (remote_mutations (w_db w1)) = Inr t"
    by (auto simp: plan_dry_run_def Let_def split: if_split_asm sum.split_asm)
  from assms ev sel ok t show thesis
    by (intro that [where ev = "last (audit_events (w_db w'))" and run_row = ?row, OF ev sel])
       (auto simp: plan_dry_run_def Let_def insert_audit_event_def plan_run_row_def split: if_split_asm)
qed

text \<open>A remote identity has one report: every left join is on a key.\<close>

lemma distinct_candidate_rows:
  assumes "unique_keys d"
  shows "distinct (map (\<lambda>x. rm_id (cd_remote x)) (candidate_rows d account))"
proof -
  from assms have keys: "distinct (map rm_id (remote_messages d))" "distinct (map ar_id (accounts d))"
    by (simp_all add: unique_keys_def)
  let ?row = "\<lambda>r a j. \<lparr>cd_remote = r, cd_account = a, cd_canonical = fst j, cd_control = snd j,
          cd_link_count = int (length (links_of d (rm_id r))),
          cd_verified_repositories = verified_repositories d (rm_id r)\<rparr>"
  let ?ok = "\<lambda>a. case account of None \<Rightarrow> True | Some n \<Rightarrow> ar_name a = n"
  let ?g = "\<lambda>r. concat (map (\<lambda>a. if ar_id a = rm_account_id r \<and> ?ok a
      then map (\<lambda>j. ?row r a j) (canonical_joins d (rm_id r)) else []) (accounts d))"
  have at_most: "length (concat (map (\<lambda>a. if P a then f a else []) t)) \<le> length (filter P t)"
    if "\<And>a. length (f a) = 1" for P :: "account_row \<Rightarrow> bool" and f :: "account_row \<Rightarrow> candidate list" and t
    using that by (induction t) auto
  have fewer: "length (filter (\<lambda>x. P x \<and> Q x) t) \<le> length (filter P t)"
    for P Q :: "account_row \<Rightarrow> bool" and t by (induction t) auto
  have "length (?g r) \<le> 1 \<and> (\<forall>x \<in> set (?g r). rm_id (cd_remote x) = rm_id r)" for r
  proof
    have "length (map (\<lambda>j. ?row r a j) (canonical_joins d (rm_id r))) = 1" for a
      using length_canonical_joins [OF assms, of "rm_id r"] by simp
    from at_most [OF this] have "length (?g r) \<le>
        length (filter (\<lambda>a. ar_id a = rm_account_id r \<and> ?ok a) (accounts d))" .
    also have "\<dots> \<le> length (filter (\<lambda>a. ar_id a = rm_account_id r) (accounts d))"
      by (rule fewer)
    also have "\<dots> \<le> 1" by (rule length_filter_key [OF keys(2)])
    finally show "length (?g r) \<le> 1" .
  qed (auto split: if_splits)
  from distinct_join [OF keys(1) this] show ?thesis
    unfolding candidate_rows_def by (simp only: distinct_sort_key)
qed

lemma evaluate_all_lists:
  assumes "evaluate_all H cfg now account w = (Inr reports, w')"
  obtains new where "deletion_evaluations (w_db w') = deletion_evaluations (w_db w) @ new"
    and "map ev_id new = map rq_deletion_evaluation_id reports"
    and "map ev_eligible new = map rq_eligible reports"
    and "map ev_remote_message_id new = map rq_remote_message_id reports"
    and "map (\<lambda>x. rm_id (cd_remote x)) (candidate_rows (w_db w) account) = map rq_remote_message_id reports"
  using assms
proof (rule evaluate_all_Inr, goal_cases)
  case (1 t run new ev)
  from evaluate_rows_spec [OF 1(2)] have
    "map rm_id (map cd_remote (candidate_rows (w_db w) account)) = map ev_remote_message_id new \<and>
     map ev_id new = map rq_deletion_evaluation_id reports \<and>
     map ev_eligible new = map rq_eligible reports \<and>
     map ev_remote_message_id new = map rq_remote_message_id reports"
    by (auto dest!: evaluated_lists)
  with 1(4) show thesis by (intro 1(1) [of new]) (simp_all add: comp_def)
qed

lemma distinct_reports:
  assumes "evaluate_all H cfg now account w = (Inr reports, w')" and "unique_keys (w_db w)"
  shows "distinct (map rq_remote_message_id reports)"
proof (rule evaluate_all_lists [OF assms(1)], goal_cases)
  case (1 new)
  with distinct_candidate_rows [OF assms(2), of account] show ?case by simp
qed

lemma report_unique:
  assumes "evaluate_all H cfg now account w = (Inr reports, w')" and "unique_keys (w_db w)"
    and "rq \<in> set reports" and "report_for reports (rq_remote_message_id rq) = Some rs"
  shows "rs = rq"
  using distinct_reports [OF assms(1,2)] report_for_mem [OF assms(4)] assms(3)
  by (auto simp: distinct_map dest: inj_onD)

lemma evaluation_of_report:
  assumes "evaluate_all H cfg now account w = (Inr reports, w')" and "rq \<in> set reports"
  obtains e where "e \<in> set (deletion_evaluations (w_db w'))"
    and "ev_id e = rq_deletion_evaluation_id rq" and "ev_eligible e = rq_eligible rq"
    and "ev_remote_message_id e = rq_remote_message_id rq"
proof (rule evaluate_all_lists [OF assms(1)], goal_cases)
  case (1 new)
  from assms(2) obtain k where k: "k < length reports" "rq = reports ! k" by (metis in_set_conv_nth)
  from 1(3) have len: "length new = length reports" by (metis length_map)
  have nth: "f (new ! k) = g rq" if "map f new = map g reports"
    for f :: "evaluation_row \<Rightarrow> 'x" and g
    using that k len by (metis nth_map)
  from k len 1(2) have "new ! k \<in> set (deletion_evaluations (w_db w'))" by simp
  with nth [OF 1(3)] nth [OF 1(4)] nth [OF 1(5)] show thesis by (intro 1(1))
qed

text \<open>
  A mutation row names a safe message exactly: the message was safe to delete in that database at
  that instant, and the row carries the fingerprint of the identity joined for it.
\<close>

definition names_safe_message ::
  "host \<Rightarrow> app_config \<Rightarrow> fs \<Rightarrow> db \<Rightarrow> int \<Rightarrow> mutation_row \<Rightarrow> bool" where
  "names_safe_message H cfg F d t m \<longleftrightarrow>
     (\<exists>r a c g. deletion_safe_row H cfg F d t r a c \<and>
        target_row \<lparr>jr_remote = r, jr_account = a, jr_canonical = c\<rparr> = Inr g \<and>
        mu_target_fingerprint m = fingerprint H g \<and> mu_remote_message_id m = rm_id r \<and>
        mu_canonical_message_id m = cm_id c \<and> mu_account_id m = ar_id a \<and>
        mu_canonical_sha256 m = cm_sha256 c)"

lemma eligible_joined_row:
  assumes ev: "evaluate_all H cfg now account w = (Inr reports, w1)" and keys: "unique_keys (w_db w)"
    and rq: "rq \<in> set reports" "rq_eligible rq"
    and j: "j \<in> set (joined_rows (w_db w))" and id: "rm_id (jr_remote j) = rq_remote_message_id rq"
  obtains t where "now = None \<and> t = h_clock H (w_tick w) \<or> now = Some (Aware t)"
    and "deletion_safe_row H cfg (w_fs w) (w_db w) t (jr_remote j) (jr_account j) (jr_canonical j)"
    and "rq_canonical_id rq = Some (cm_id (jr_canonical j))"
proof (rule eligible_report_safe [OF ev rq], goal_cases)
  case (1 x t)
  from keys have "distinct (map rt_canonical_message_id (retention_controls (w_db w)))"
    by (simp add: unique_keys_def)
  from safe_candidate_row [OF 1(2,4) this] obtain c where c: "cd_canonical x = Some c"
    and safe: "deletion_safe_row H cfg (w_fs w) (w_db w) t (cd_remote x) (cd_account x) c" .
  from safe_row_joined [OF safe keys j] id 1(5)
  have "j = \<lparr>jr_remote = cd_remote x, jr_account = cd_account x, jr_canonical = c\<rparr>" by simp
  with 1 safe c show thesis by (intro 1(1) [of t]) simp_all
qed

lemma plan_row_safe:
  assumes ev: "evaluate_all H cfg None account w = (Inr reports, w1)" and keys: "unique_keys (w_db w)"
    and ins: "insert_plan_rows H reports run now selected t = Inr (t @ new)"
    and sel: "set selected \<subseteq> set (identity_rows (w_db w1) (map rq_remote_message_id (filter rq_eligible reports)))"
    and m: "m \<in> set new"
  shows "names_safe_message H cfg (w_fs w) (w_db w) (h_clock H (w_tick w)) m"
    and "\<exists>e \<in> set (deletion_evaluations (w_db w1)). ev_id e = mu_deletion_evaluation_id m \<and>
      ev_eligible e \<and> ev_remote_message_id e = mu_remote_message_id m"
    and "mu_status m = DryRun \<and> mu_dry_run m \<and> mu_run_id m = run \<and> mutation_check m"
proof -
  from insert_plan_rows_spec [OF ins] m obtain x g rq where x: "x \<in> set selected"
    and g: "target_row x = Inr g" "report_for reports (tg_remote_message_id (base g)) = Some rq"
    and row: "m = plan_row H (mu_id m) run (rq_deletion_evaluation_id rq) now g" "mutation_check m"
    by (auto dest!: list_all2_mem2)
  have b: "base g = row_base x" by (rule target_row_base [OF g(1)])
  note same = evaluate_all_frame [OF ev]
  from x sel have j: "x \<in> set (joined_rows (w_db w))"
    and "rm_id (jr_remote x) \<in> rq_remote_message_id ` {r \<in> set reports. rq_eligible r}"
    using joined_rows_cong [OF same(1)] by (auto simp: identity_rows_def)
  then obtain rq' where rq': "rq' \<in> set reports" "rq_eligible rq'"
    "rq_remote_message_id rq' = rm_id (jr_remote x)" by auto
  from g(2) b rq'(3) have "report_for reports (rq_remote_message_id rq') = Some rq"
    by (simp add: row_base_def)
  from report_unique [OF ev keys rq'(1) this] rq' have rq: "rq \<in> set reports" "rq_eligible rq"
    "rm_id (jr_remote x) = rq_remote_message_id rq" by simp_all
  from row(1) have cols: "mu_target_fingerprint m = fingerprint H g"
    "mu_remote_message_id m = rm_id (jr_remote x)" "mu_canonical_message_id m = cm_id (jr_canonical x)"
    "mu_account_id m = rm_account_id (jr_remote x)" "mu_canonical_sha256 m = cm_sha256 (jr_canonical x)"
    "mu_deletion_evaluation_id m = rq_deletion_evaluation_id rq" "mu_status m = DryRun" "mu_dry_run m"
    "mu_run_id m = run"
    unfolding plan_row_def b row_base_def by (metis mutation_row.select_convs target_base.select_convs)+
  show "names_safe_message H cfg (w_fs w) (w_db w) (h_clock H (w_tick w)) m"
  proof (rule eligible_joined_row [OF ev keys rq(1,2) j rq(3)], goal_cases)
    case (1 t)
    with cols g(1) show ?case
      unfolding names_safe_message_def
      by (intro exI [of _ "jr_remote x"] exI [of _ "jr_account x"] exI [of _ "jr_canonical x"] exI [of _ g])
         (cases x, simp add: deletion_safe_row_def)
  qed
  from evaluation_of_report [OF ev rq(1)] cols rq show
    "\<exists>e \<in> set (deletion_evaluations (w_db w1)). ev_id e = mu_deletion_evaluation_id m \<and>
      ev_eligible e \<and> ev_remote_message_id e = mu_remote_message_id m" by metis
  from cols row(2) show "mu_status m = DryRun \<and> mu_dry_run m \<and> mu_run_id m = run \<and> mutation_check m"
    by simp
qed

lemma plan_row_account:
  "m = plan_row H i run e now g \<Longrightarrow> target_row x = Inr g \<Longrightarrow>
     mu_account_id m = rm_account_id (jr_remote x)"
  using target_row_base [of x g] by (simp add: plan_row_def row_base_def)

text \<open>
  C9.  A dry-run plan is bounded and sound: it appends exactly the selected rows, at most the run
  limit and at most the account limit for each account; each row is a dry-run row that satisfies
  its table's \<open>CHECK\<close>, belongs to the new run, cites an evaluation that was eligible, and names a
  message that was safe to delete when the evaluation ran; neither the provider, nor a file, nor
  a mail table changes, and nothing is authorised.
\<close>

theorem plan_dry_run_bounded_and_sound:
  assumes "plan_dry_run H cfg account limit w = (Inr res, w')" and "unique_keys (w_db w)"
  shows "\<exists>new. remote_mutations (w_db w') = remote_mutations (w_db w) @ new \<and>
     int (length new) = pl_selected res \<and>
     pl_selected res \<le> (case limit of None \<Rightarrow> rd_max_per_run (cf_remote_deletion cfg) | Some n \<Rightarrow> n) \<and>
     (\<forall>i. int (length (filter (\<lambda>m. mu_account_id m = i) new)) \<le> rd_max_per_account (cf_remote_deletion cfg)) \<and>
     (\<forall>m \<in> set new.
        mu_status m = DryRun \<and> mu_dry_run m \<and> mu_run_id m = pl_run_id res \<and> mutation_check m \<and>
        names_safe_message H cfg (w_fs w) (w_db w) (h_clock H (w_tick w)) m \<and>
        (\<exists>e \<in> set (deletion_evaluations (w_db w')). ev_id e = mu_deletion_evaluation_id m \<and>
           ev_eligible e \<and> ev_remote_message_id e = mu_remote_message_id m)) \<and>
     w_net w' = w_net w \<and> w_fs w' = w_fs w \<and> same_mail (w_db w') (w_db w) \<and>
     \<not> pl_production_execution_authorized res"
  using assms(1)
proof (rule plan_dry_run_Inr, goal_cases)
  case (1 reports w1 selected ska skg t run_row ev)
  note frame = evaluate_all_frame [OF 1(1)]
  have caps: "1 \<le> rd_max_per_account (cf_remote_deletion cfg)"
    "1 \<le> (case limit of None \<Rightarrow> rd_max_per_run (cf_remote_deletion cfg) | Some n \<Rightarrow> n)"
    using 1(4,7,8) by (auto simp: mutation_run_check_def)
  from select_rows_bounds [OF 1(2)] caps have sel:
    "int (length selected) \<le> (case limit of None \<Rightarrow> rd_max_per_run (cf_remote_deletion cfg) | Some n \<Rightarrow> n)"
    "\<And>i. int (length (filter (\<lambda>j. rm_account_id (jr_remote j) = i) selected)) \<le>
      rd_max_per_account (cf_remote_deletion cfg)"
    "set selected \<subseteq> set (identity_rows (w_db w1) (map rq_remote_message_id (filter rq_eligible reports)))"
    by fastforce+
  from insert_plan_rows_spec [OF 1(3)] frame(3) obtain new where new:
    "t = remote_mutations (w_db w) @ new"
    and all2: "list_all2 (\<lambda>x m. \<exists>g rq. target_row x = Inr g \<and>
       report_for reports (tg_remote_message_id (base g)) = Some rq \<and>
       m = plan_row H (mu_id m) (pl_run_id res) (rq_deletion_evaluation_id rq) (reading H w1 0) g \<and>
       mutation_check m) selected new" by auto
  from all2 have accounts: "map mu_account_id new = map (\<lambda>j. rm_account_id (jr_remote j)) selected"
    by (induction rule: list_all2_induct) (auto dest: plan_row_account)
  have "length (filter (\<lambda>m. mu_account_id m = i) new) =
      length (filter (\<lambda>j. rm_account_id (jr_remote j) = i) selected)" for i
    using arg_cong [OF accounts, of "\<lambda>l. length (filter (\<lambda>k. k = i) l)"]
    by (simp add: filter_map comp_def)
  moreover have "length new = length selected" using all2 by (simp add: list_all2_lengthD)
  ultimately have rows: "remote_mutations (w_db w') = remote_mutations (w_db w) @ new \<and>
     int (length new) = pl_selected res \<and>
     pl_selected res \<le> (case limit of None \<Rightarrow> rd_max_per_run (cf_remote_deletion cfg) | Some n \<Rightarrow> n) \<and>
     (\<forall>i. int (length (filter (\<lambda>m. mu_account_id m = i) new)) \<le> rd_max_per_account (cf_remote_deletion cfg))"
    using 1(13,18) new sel(1,2) by simp
  have "deletion_evaluations (w_db w') = deletion_evaluations (w_db w1)" using 1(18) by simp
  moreover have "w_net w' = w_net w \<and> w_fs w' = w_fs w \<and> same_mail (w_db w') (w_db w)"
    using 1(18,20,21) frame by (simp add: same_mail_def)
  ultimately show ?case
    using rows 1(17) plan_row_safe [OF 1(1) assms(2) 1(3) [unfolded new frame(3)] sel(3)] by auto
qed

end
