(* ===== verification/MutationExec.thy ===== *)
theory MutationExec
  imports MutationPlan
begin

text \<open>
  Execution of a plan (\<open>execute_production_plan\<close>, \<open>_execute_serial\<close> and the test-only
  \<open>execute_fake\<close>): the local authorization chain, the clone of the plan rows into a production run,
  and the serial loop that commits a \<open>started\<close> row before each provider call and records the
  normalised outcome after it.  The lemmas show that the loop terminates, that a provider call is
  only ever made for a started row whose message is safe to delete at that moment, and that the
  run stops at the first outcome that is not a success.
\<close>

definition PLAN_TTL :: int where
  "PLAN_TTL = 3600000000"

section \<open>Is the target still current\<close>

definition identity_row :: "db \<Rightarrow> string \<Rightarrow> string \<Rightarrow> joined_row option" where
  "identity_row d rid cid =
     find (\<lambda>j. rm_id (jr_remote j) = rid \<and> cm_id (jr_canonical j) = cid) (joined_rows d)"

definition current_identity :: "host \<Rightarrow> db \<Rightarrow> target \<Rightarrow> string \<Rightarrow> report option \<Rightarrow> bool result" where
  "current_identity H d t fp rq =
     (let rid = tg_remote_message_id (base t); cid = tg_canonical_message_id (base t) in
      case rq of None \<Rightarrow> Inr False
      | Some q \<Rightarrow>
          if \<not> rq_eligible q then Inr False
          else (case identity_row d rid cid of None \<Rightarrow> Inr False
            | Some j \<Rightarrow>
                if rm_remote_present (jr_remote j) \<and> rq_remote_message_id q = rid \<and>
                   py_str (rq_canonical_id q) = cid
                then (case target_row j of Inl e \<Rightarrow> Inl e | Inr g \<Rightarrow> Inr (fingerprint H g = fp))
                else Inr False))"

definition still_current ::
  "host \<Rightarrow> app_config \<Rightarrow> target \<Rightarrow> string \<Rightarrow> report option \<Rightarrow> 'p world \<Rightarrow> bool result \<times> 'p world" where
  "still_current H cfg t fp fresh w =
     (case fresh of
        Some q \<Rightarrow> (current_identity H (w_db w) t fp (Some q), w)
      | None \<Rightarrow>
          (case evaluate_all H cfg None None w of
             (Inl e, w1) \<Rightarrow> (Inl e, w1)
           | (Inr reports, w1) \<Rightarrow>
               (current_identity H (w_db w1) t fp
                  (report_for reports (tg_remote_message_id (base t))), w1)))"

section \<open>Committed transitions of one mutation\<close>

definition set_mutation :: "int \<Rightarrow> (mutation_row \<Rightarrow> mutation_row) \<Rightarrow> db \<Rightarrow> db" where
  "set_mutation ident f d =
     d\<lparr>remote_mutations := update_where (\<lambda>m. mu_id m = ident) f (remote_mutations d)\<rparr>"

definition set_run :: "int \<Rightarrow> (mutation_run_row \<Rightarrow> mutation_run_row) \<Rightarrow> db \<Rightarrow> db" where
  "set_run ident f d =
     d\<lparr>remote_mutation_runs := update_where (\<lambda>r. mr_id r = ident) f (remote_mutation_runs d)\<rparr>"

definition mark_started :: "string \<Rightarrow> mutation_row \<Rightarrow> mutation_row" where
  "mark_started now m = m\<lparr>mu_status := Started, mu_started_at := Some now\<rparr>"

definition mark_stale :: "string \<Rightarrow> mutation_row \<Rightarrow> mutation_row" where
  "mark_stale now m = m\<lparr>mu_status := Failed, mu_completed_at := Some now, mu_error_code := Some ''STALE_PLAN''\<rparr>"

definition mark_outcome ::
  "string \<Rightarrow> mutation_status \<Rightarrow> string \<Rightarrow> string \<Rightarrow> mutation_row \<Rightarrow> mutation_row" where
  "mark_outcome now st sm code m =
     m\<lparr>mu_status := st, mu_completed_at := Some now, mu_provider_response_summary := Some sm,
       mu_error_code := Some code\<rparr>"

definition mark_run :: "run_status \<Rightarrow> string \<Rightarrow> mutation_run_row \<Rightarrow> mutation_run_row" where
  "mark_run st now r = r\<lparr>mr_status := st, mr_completed_at := Some now\<rparr>"

definition set_present :: "(remote_row \<Rightarrow> bool) \<Rightarrow> bool \<Rightarrow> db \<Rightarrow> db" where
  "set_present P v d =
     d\<lparr>remote_messages := update_where P (\<lambda>r. r\<lparr>rm_remote_present := v\<rparr>) (remote_messages d)\<rparr>"

definition mutation_audit ::
  "string \<Rightarrow> string \<Rightarrow> string \<Rightarrow> int option \<Rightarrow> string \<Rightarrow> db \<Rightarrow> db" where
  "mutation_audit now event res aid details d =
     insert_audit_event now ''mailarchive.remote_mutation'' event res aid None details d"

definition halted_details :: "int \<Rightarrow> string \<Rightarrow> int \<Rightarrow> string" where
  "halted_details ident reason run =
     json_sorted [(''mutation_id'', JInt ident), (''reason'', JStr reason), (''run_id'', JInt run)]"

definition halt_stale ::
  "host \<Rightarrow> int \<Rightarrow> int \<Rightarrow> target option \<Rightarrow> bool \<Rightarrow> 'p world \<Rightarrow> 'p world" where
  "halt_stale H run ident target production w =
     (let now = reading H w 0;
          aid = map_option (\<lambda>t. tg_account_id (base t)) target;
          d1 = set_run run (mark_run RunHalted now) (set_mutation ident (mark_stale now) (w_db w));
          d2 = mutation_audit (reading H w 1) ''remote_mutation.stale_plan'' ''failed'' aid
            (if production then json_sorted [(''mutation_id'', JInt ident), (''run_id'', JInt run)]
             else ''{}'') d1;
          d3 = (if production
                then mutation_audit (reading H w 2) ''remote_delete.production.halted'' ''halted'' aid
                  (halted_details ident ''stale-plan'' run) d2
                else d2)
      in commit d3 (if production then 3 else 2) w)"

definition outcome_db ::
  "host \<Rightarrow> int \<Rightarrow> int \<Rightarrow> target \<Rightarrow> bool \<Rightarrow> mutation_status \<Rightarrow> string \<Rightarrow> string \<Rightarrow> bool \<Rightarrow> 'p world \<Rightarrow> db" where
  "outcome_db H run ident target absent st sm code production w =
     (let now = reading H w 0;
          d1 = set_mutation ident (mark_outcome now st sm code) (w_db w);
          d2 = (if st = Succeeded \<and> absent
                then set_present (\<lambda>x. rm_id x = tg_remote_message_id (base target)) False d1 else d1);
          d3 = mutation_audit (reading H w 1) (''remote_mutation.'' @ mutation_status_text st)
            (mutation_status_text st) None ''{}'' d2;
          d4 = (if st \<noteq> Succeeded then set_run run (mark_run RunHalted now) d3 else d3)
      in if st \<noteq> Succeeded \<and> production
         then mutation_audit (reading H w 2) ''remote_delete.production.halted'' ''halted''
           (Some (tg_account_id (base target)))
           (halted_details ident
             (if st = Failed then ''mutation-failed'' else ''mutation-unknown'') run) d4
         else d4)"

definition record_outcome ::
  "host \<Rightarrow> int \<Rightarrow> int \<Rightarrow> target \<Rightarrow> mutation_result \<Rightarrow> string option \<Rightarrow> bool \<Rightarrow> 'p world \<Rightarrow>
     mutation_status result \<times> 'p world" where
  "record_outcome H run ident target r internal production w =
     (case normalize_result r internal of
        Inl e \<Rightarrow> (Inl e, w)
      | Inr (st, sm, code) \<Rightarrow>
          (Inr st, commit (outcome_db H run ident target (ms_confirmed_absent r) st sm code production w)
             (if st \<noteq> Succeeded \<and> production then 3 else 2) w))"

text \<open>The result stored for an adapter that raised.\<close>

definition outcome_unknown :: mutation_result where
  "outcome_unknown =
     \<lparr>ms_outcome = ''outcome-unknown'', ms_confirmed_absent = False, ms_summary = [], ms_error_code = None\<rparr>"

definition call_adapter ::
  "host \<Rightarrow> 'p adapter \<Rightarrow> int \<Rightarrow> int \<Rightarrow> target \<Rightarrow> bool \<Rightarrow> 'p world \<Rightarrow> mutation_status result \<times> 'p world" where
  "call_adapter H A run ident target production w =
     (case A w target of
        (Some r, p) \<Rightarrow> record_outcome H run ident target r None production (w\<lparr>w_net := p\<rparr>)
      | (None, p) \<Rightarrow> record_outcome H run ident target outcome_unknown (Some ''ADAPTER_EXCEPTION'')
          production (w\<lparr>w_net := p\<rparr>))"

section \<open>The serial loop\<close>

definition next_with :: "mutation_status \<Rightarrow> int \<Rightarrow> db \<Rightarrow> mutation_row option" where
  "next_with st run d =
     first_by mu_id (filter (\<lambda>m. mu_run_id m = run \<and> mu_status m = st) (remote_mutations d))"

definition start_mutation :: "host \<Rightarrow> int \<Rightarrow> int \<Rightarrow> target \<Rightarrow> bool \<Rightarrow> 'p world \<Rightarrow> 'p world" where
  "start_mutation H run ident target production w =
     commit (mutation_audit (reading H w 1) ''remote_mutation.started'' ''started''
         (if production then Some (tg_account_id (base target)) else None)
         (if production
          then json_sorted [(''account_id'', JInt (tg_account_id (base target))),
            (''mutation_id'', JInt ident),
            (''provider_kind'', JStr (provider_text (tg_provider_kind (base target)))),
            (''run_id'', JInt run)]
          else ''{}'')
         (set_mutation ident (mark_started (reading H w 0)) (w_db w))) 2 w"

text \<open>
  One iteration for a row found (\<open>Inr True\<close>: go on, \<open>Inr False\<close>: the run was halted).  The two
  loops of the source differ in what they log, the flag \<open>production\<close>.
\<close>

definition serial_step ::
  "host \<Rightarrow> app_config \<Rightarrow> int \<Rightarrow> 'p adapter \<Rightarrow> bool \<Rightarrow> mutation_row \<Rightarrow> 'p world \<Rightarrow> bool result \<times> 'p world" where
  "serial_step H cfg run A production row w =
     (case planned_target (w_db w) (mu_id row) of
        Inl e \<Rightarrow> (Inl e, w)
      | Inr target \<Rightarrow>
          (case still_current H cfg target (mu_target_fingerprint row) None w of
             (Inl e, w1) \<Rightarrow> (Inl e, w1)
           | (Inr current, w1) \<Rightarrow>
               if \<not> current
               then (Inr False, halt_stale H run (mu_id row) (if production then Some target else None)
                      production w1)
               else (case call_adapter H A run (mu_id row) target production
                            (start_mutation H run (mu_id row) target production w1) of
                       (Inl e, w2) \<Rightarrow> (Inl e, w2)
                     | (Inr st, w2) \<Rightarrow> (Inr (st = Succeeded), w2))))"

definition complete_run :: "host \<Rightarrow> int \<Rightarrow> bool \<Rightarrow> 'p world \<Rightarrow> 'p world" where
  "complete_run H run production w =
     (let d1 = set_run run (mark_run RunCompleted (reading H w 0)) (w_db w) in
      if production
      then commit (mutation_audit (reading H w 1) ''remote_delete.production.completed'' ''success'' None
             (json_sorted [(''run_id'', JInt run)]) d1) 2 w
      else commit d1 1 w)"

text \<open>How many rows of a run are still in a status: the measure of the loop.\<close>

definition count_with :: "mutation_status \<Rightarrow> int \<Rightarrow> db \<Rightarrow> nat" where
  "count_with st run d =
     length (filter (\<lambda>m. mu_run_id m = run \<and> mu_status m = st) (remote_mutations d))"

section \<open>Frames\<close>

lemma set_mutation_frame [simp]:
  "remote_mutations (set_mutation i f d) = update_where (\<lambda>m. mu_id m = i) f (remote_mutations d)"
  "remote_mutation_runs (set_mutation i f d) = remote_mutation_runs d"
  "remote_messages (set_mutation i f d) = remote_messages d"
  "same_mail (set_mutation i f d) e = same_mail d e"
  "deletion_evaluations (set_mutation i f d) = deletion_evaluations d"
  by (simp_all add: set_mutation_def same_mail_def)

lemma set_run_frame [simp]:
  "remote_mutation_runs (set_run i g d) = update_where (\<lambda>r. mr_id r = i) g (remote_mutation_runs d)"
  "remote_mutations (set_run i g d) = remote_mutations d"
  "remote_messages (set_run i g d) = remote_messages d"
  "same_mail (set_run i g d) e = same_mail d e"
  "deletion_evaluations (set_run i g d) = deletion_evaluations d"
  by (simp_all add: set_run_def same_mail_def)

lemma mutation_audit_frame [simp]:
  "remote_mutation_runs (mutation_audit n ev r a j d) = remote_mutation_runs d"
  "remote_mutations (mutation_audit n ev r a j d) = remote_mutations d"
  "remote_messages (mutation_audit n ev r a j d) = remote_messages d"
  "same_mail (mutation_audit n ev r a j d) e = same_mail d e"
  "deletion_evaluations (mutation_audit n ev r a j d) = deletion_evaluations d"
  by (simp_all add: mutation_audit_def same_mail_def)

lemma set_present_frame [simp]:
  "remote_mutation_runs (set_present P v d) = remote_mutation_runs d"
  "remote_mutations (set_present P v d) = remote_mutations d"
  "remote_messages (set_present P v d) =
     update_where P (\<lambda>r. r\<lparr>rm_remote_present := v\<rparr>) (remote_messages d)"
  "deletion_evaluations (set_present P v d) = deletion_evaluations d"
  by (simp_all add: set_present_def)

text \<open>The updates of a mutation row keep its key, and those of a run keep its.\<close>

interpretation started_key: keyed_update mu_id "mark_started now" for now
  by unfold_locales (simp add: mark_started_def)

interpretation stale_key: keyed_update mu_id "mark_stale now" for now
  by unfold_locales (simp add: mark_stale_def)

interpretation outcome_key: keyed_update mu_id "mark_outcome now st sm code" for now st sm code
  by unfold_locales (simp add: mark_outcome_def)

interpretation run_key: keyed_update mr_id "mark_run st now" for st now
  by unfold_locales (simp add: mark_run_def)

interpretation present_key: keyed_update rm_id "\<lambda>r. r\<lparr>rm_remote_present := v\<rparr>" for v
  by unfold_locales simp

lemma unique_keys_set_present: "unique_keys (set_present P v d) = unique_keys d"
  by (simp add: unique_keys_def set_present_def present_key.keys_update del: set_map)

lemma unique_keys_set_mutation:
  "(\<And>m. mu_id (f m) = mu_id m) \<Longrightarrow> unique_keys (set_mutation i f d) = unique_keys d"
  using keyed_update.keys_update [OF keyed_update.intro, of mu_id f]
  by (simp add: unique_keys_def set_mutation_def)

lemma unique_keys_set_run:
  "(\<And>m. mr_id (f m) = mr_id m) \<Longrightarrow> unique_keys (set_run i f d) = unique_keys d"
  using keyed_update.keys_update [OF keyed_update.intro, of mr_id f]
  by (simp add: unique_keys_def set_run_def)

lemma mark_simps [simp]:
  "mu_id (mark_started n m) = mu_id m" "mu_run_id (mark_started n m) = mu_run_id m"
  "mu_status (mark_started n m) = Started" "mu_remote_message_id (mark_started n m) = mu_remote_message_id m"
  "mu_id (mark_stale n m) = mu_id m" "mu_run_id (mark_stale n m) = mu_run_id m"
  "mu_status (mark_stale n m) = Failed" "mu_remote_message_id (mark_stale n m) = mu_remote_message_id m"
  "mu_id (mark_outcome n st sm c m) = mu_id m" "mu_run_id (mark_outcome n st sm c m) = mu_run_id m"
  "mu_status (mark_outcome n st sm c m) = st"
  "mu_remote_message_id (mark_outcome n st sm c m) = mu_remote_message_id m"
  "mr_id (mark_run rs n r) = mr_id r" "mr_status (mark_run rs n r) = rs" "mr_mode (mark_run rs n r) = mr_mode r"
  "mr_source_plan_run_id (mark_run rs n r) = mr_source_plan_run_id r"
  "mr_selected_count (mark_run rs n r) = mr_selected_count r"
  by (simp_all add: mark_started_def mark_stale_def mark_outcome_def mark_run_def)

lemma unique_keys_mutation_audit [simp]: "unique_keys (mutation_audit n ev r a j d) = unique_keys d"
  by (simp add: mutation_audit_def unique_keys_audit)

lemmas exec_keys = unique_keys_set_present unique_keys_set_mutation unique_keys_set_run

lemma outcome_db_tables:
  "remote_mutations (outcome_db H run i t absent st sm code production w) =
     update_where (\<lambda>m. mu_id m = i) (mark_outcome (reading H w 0) st sm code) (remote_mutations (w_db w))"
  "remote_mutation_runs (outcome_db H run i t absent st sm code production w) =
     (if st = Succeeded then remote_mutation_runs (w_db w)
      else update_where (\<lambda>x. mr_id x = run) (mark_run RunHalted (reading H w 0)) (remote_mutation_runs (w_db w)))"
  "remote_messages (outcome_db H run i t absent st sm code production w) =
     (if st = Succeeded \<and> absent
      then update_where (\<lambda>x. rm_id x = tg_remote_message_id (base t))
        (\<lambda>r. r\<lparr>rm_remote_present := False\<rparr>) (remote_messages (w_db w))
      else remote_messages (w_db w))"
  "unique_keys (outcome_db H run i t absent st sm code production w) = unique_keys (w_db w)"
  unfolding outcome_db_def Let_def by (simp_all add: exec_keys)

section \<open>One step of the loop\<close>

text \<open>What the recording of an outcome does: it never raises, and only success keeps the run open.\<close>

lemma record_outcome_spec:
  assumes "record_outcome H run ident target r internal production w = (res, w')"
    and "internal = None \<or> internal = Some ''ADAPTER_EXCEPTION''"
  obtains st sm code n where "res = Inr st" and "st \<in> {Succeeded, Failed, Unknown}"
    and "sm \<in> set response_summaries" and "code \<in> set mutation_error_codes"
    and "st = Succeeded \<longleftrightarrow> internal = None \<and> ms_outcome r = ''success-confirmed'' \<and>
      ms_confirmed_absent r \<and> result_code r = ''NONE''"
    and "remote_mutations (w_db w') =
      update_where (\<lambda>m. mu_id m = ident) (mark_outcome n st sm code) (remote_mutations (w_db w))"
    and "remote_mutation_runs (w_db w') =
      (if st = Succeeded then remote_mutation_runs (w_db w)
       else update_where (\<lambda>x. mr_id x = run) (mark_run RunHalted n) (remote_mutation_runs (w_db w)))"
    and "remote_messages (w_db w') =
      (if st = Succeeded then update_where (\<lambda>x. rm_id x = tg_remote_message_id (base target))
         (\<lambda>r. r\<lparr>rm_remote_present := False\<rparr>) (remote_messages (w_db w))
       else remote_messages (w_db w))"
    and "unique_keys (w_db w') = unique_keys (w_db w)"
    and "w_net w' = w_net w" and "w_fs w' = w_fs w" and "n = reading H w 0"
proof -
  obtain st sm code where norm: "normalize_result r internal = Inr (st, sm, code)"
    "st \<in> {Succeeded, Failed, Unknown}" "sm \<in> set response_summaries" "code \<in> set mutation_error_codes"
    "st = Succeeded \<longleftrightarrow> internal = None \<and> ms_outcome r = ''success-confirmed'' \<and>
      ms_confirmed_absent r \<and> result_code r = ''NONE''"
  proof (cases "internal = None")
    case True
    obtain st' sm' code' where a: "normalize_result r None = Inr (st', sm', code')"
      "sm' \<in> set response_summaries" "code' \<in> set mutation_error_codes"
      "st' \<in> {Succeeded, Failed, Unknown}"
      "st' = Succeeded \<longleftrightarrow> ms_outcome r = ''success-confirmed'' \<and> ms_confirmed_absent r \<and>
        result_code r = ''NONE''"
      by (rule normalize_None)
    show thesis by (rule that [of st' sm' code']) (simp_all only: True a simp_thms)
  next
    case False
    with assms(2) have "internal = Some ''ADAPTER_EXCEPTION''" by blast
    then show thesis using that by simp
  qed
  from assms(1) norm(1) have "res = Inr st"
    "w' = commit (outcome_db H run ident target (ms_confirmed_absent r) st sm code production w)
       (if st \<noteq> Succeeded \<and> production then 3 else 2) w"
    unfolding record_outcome_def by simp_all
  then have w': "res = Inr st"
    "remote_mutations (w_db w') =
      update_where (\<lambda>m. mu_id m = ident) (mark_outcome (reading H w 0) st sm code) (remote_mutations (w_db w))"
    "remote_mutation_runs (w_db w') =
      (if st = Succeeded then remote_mutation_runs (w_db w)
       else update_where (\<lambda>x. mr_id x = run) (mark_run RunHalted (reading H w 0)) (remote_mutation_runs (w_db w)))"
    "remote_messages (w_db w') =
      (if st = Succeeded \<and> ms_confirmed_absent r
       then update_where (\<lambda>x. rm_id x = tg_remote_message_id (base target))
         (\<lambda>r. r\<lparr>rm_remote_present := False\<rparr>) (remote_messages (w_db w))
       else remote_messages (w_db w))"
    "unique_keys (w_db w') = unique_keys (w_db w)" "w_net w' = w_net w" "w_fs w' = w_fs w"
    by (simp_all add: outcome_db_tables)
  from norm(5) w'(4) have "remote_messages (w_db w') =
      (if st = Succeeded then update_where (\<lambda>x. rm_id x = tg_remote_message_id (base target))
         (\<lambda>r. r\<lparr>rm_remote_present := False\<rparr>) (remote_messages (w_db w))
       else remote_messages (w_db w))" by auto
  with norm(2-5) w' show thesis by (intro that [of st sm code "reading H w 0"]) simp_all
qed

text \<open>
  What a call is authorised by: a committed \<open>started\<close> row of the run for the target, whose message
  is safe to delete in that database and file system at an instant the clock had reached, and whose
  stored fingerprint is that of the identity joined for the message.
\<close>

definition authorised_call ::
  "host \<Rightarrow> app_config \<Rightarrow> int \<Rightarrow> db \<Rightarrow> fs \<Rightarrow> nat \<Rightarrow> target \<Rightarrow> bool" where
  "authorised_call H cfg run d F now t \<longleftrightarrow>
     (\<exists>m r a c g k.
        m \<in> set (remote_mutations d) \<and> mu_run_id m = run \<and> mu_status m = Started \<and>
        planned_target d (mu_id m) = Inr t \<and>
        k < now \<and> deletion_safe_row H cfg F d (h_clock H k) r a c \<and>
        target_row \<lparr>jr_remote = r, jr_account = a, jr_canonical = c\<rparr> = Inr g \<and>
        fingerprint H g = mu_target_fingerprint m \<and>
        tg_remote_message_id (base t) = rm_id r \<and> tg_canonical_message_id (base t) = cm_id c)"

lemma still_current_safe:
  assumes "still_current H cfg t fp None w = (Inr True, w1)" and keys: "unique_keys (w_db w)"
  obtains r a c g where
    "deletion_safe_row H cfg (w_fs w) (w_db w) (h_clock H (w_tick w)) r a c"
    "target_row \<lparr>jr_remote = r, jr_account = a, jr_canonical = c\<rparr> = Inr g" "fingerprint H g = fp"
    "tg_remote_message_id (base t) = rm_id r" "tg_canonical_message_id (base t) = cm_id c"
proof -
  from assms(1) obtain reports where ev: "evaluate_all H cfg None None w = (Inr reports, w1)"
    and cur: "current_identity H (w_db w1) t fp (report_for reports (tg_remote_message_id (base t))) = Inr True"
    by (auto simp: still_current_def split: prod.split_asm sum.split_asm)
  from cur obtain q j g where q: "report_for reports (tg_remote_message_id (base t)) = Some q" "rq_eligible q"
    and j: "identity_row (w_db w1) (tg_remote_message_id (base t)) (tg_canonical_message_id (base t)) = Some j"
    and g: "target_row j = Inr g" "fingerprint H g = fp"
    by (auto simp: current_identity_def Let_def split: option.split_asm if_split_asm sum.split_asm)
  from j have "j \<in> set (joined_rows (w_db w1)) \<and> rm_id (jr_remote j) = tg_remote_message_id (base t) \<and>
      cm_id (jr_canonical j) = tg_canonical_message_id (base t)"
    unfolding identity_row_def by (drule_tac find_mem) blast
  then have jm: "j \<in> set (joined_rows (w_db w))" "rm_id (jr_remote j) = tg_remote_message_id (base t)"
      "cm_id (jr_canonical j) = tg_canonical_message_id (base t)"
    using joined_rows_cong [OF evaluate_all_frame(1) [OF ev]] by simp_all
  from report_for_mem [OF q(1)] have rq: "q \<in> set reports" "rm_id (jr_remote j) = rq_remote_message_id q"
    using jm by simp_all
  show thesis
  proof (rule eligible_joined_row [OF ev keys rq(1) q(2) jm(1) rq(2)], goal_cases)
    case (1 i)
    then have i: "i = h_clock H (w_tick w)" by simp
    have "\<lparr>jr_remote = jr_remote j, jr_account = jr_account j, jr_canonical = jr_canonical j\<rparr> = j" by simp
    with g(1) have "target_row \<lparr>jr_remote = jr_remote j, jr_account = jr_account j,
        jr_canonical = jr_canonical j\<rparr> = Inr g" by (simp only:)
    with 1(2) show ?case
      unfolding i by (rule that [OF _ _ g(2) jm(2,3) [symmetric]])
  qed
qed

lemma still_current_frame:
  assumes "still_current H cfg t fp None w = (res, w1)"
  shows "same_mail (w_db w1) (w_db w)" "remote_mutation_runs (w_db w1) = remote_mutation_runs (w_db w)"
    "remote_mutations (w_db w1) = remote_mutations (w_db w)" "w_net w1 = w_net w" "w_fs w1 = w_fs w"
    "unique_keys (w_db w) \<Longrightarrow> unique_keys (w_db w1)"
proof -
  from assms obtain r where "evaluate_all H cfg None None w = (r, w1)"
    by (auto simp: still_current_def split: prod.split_asm sum.split_asm)
  from evaluate_all_frame [OF this] unique_keys_evaluate_all [OF this]
  show "same_mail (w_db w1) (w_db w)" "remote_mutation_runs (w_db w1) = remote_mutation_runs (w_db w)"
    "remote_mutations (w_db w1) = remote_mutations (w_db w)" "w_net w1 = w_net w" "w_fs w1 = w_fs w"
    "unique_keys (w_db w) \<Longrightarrow> unique_keys (w_db w1)" by simp_all
qed

lemma still_current_tick:
  assumes "still_current H cfg t fp None w = (Inr b, w1)"
  shows "w_tick w < w_tick w1"
proof -
  from assms obtain rs where "evaluate_all H cfg None None w = (Inr rs, w1)"
    by (auto simp: still_current_def split: prod.split_asm sum.split_asm)
  then show ?thesis
    by (auto simp: evaluate_all_def Let_def split: sum.split_asm prod.split_asm)
qed

lemma planned_target_cong:
  assumes "same_mail d e"
    and "mutation_by_id d i = map_option f (mutation_by_id e i)"
    and "\<And>m. f m = m\<lparr>mu_status := mu_status (f m), mu_started_at := mu_started_at (f m)\<rparr>"
  shows "planned_target d i = planned_target e i"
proof (cases "mutation_by_id e i")
  case None
  with assms(2) show ?thesis by (simp add: planned_target_def)
next
  case (Some m)
  have "mu_account_id (f m) = mu_account_id m" "mu_canonical_message_id (f m) = mu_canonical_message_id m"
    "mu_remote_folder (f m) = mu_remote_folder m" "mu_uidvalidity (f m) = mu_uidvalidity m"
    "mu_remote_uid (f m) = mu_remote_uid m" "mu_provider_message_id (f m) = mu_provider_message_id m"
    "mutation_base (f m) a s = mutation_base m a s" for a s
    by (subst assms(3), simp add: mutation_base_def)+
  with Some assms(1,2) show ?thesis
    by (simp add: planned_target_def same_mail_def account_by_id_def canonical_message_by_id_def
        split: option.split)
qed

lemma planned_target_started:
  assumes "same_mail d e"
    and "remote_mutations d = update_where (\<lambda>m. mu_id m = i) (mark_started n) (remote_mutations e)"
  shows "planned_target d i = planned_target e i"
proof -
  have "mutation_by_id d i = map_option (mark_started n) (mutation_by_id e i)"
  proof -
    have "mutation_by_id e i = Some m \<Longrightarrow> mu_id m = i" for m
      unfolding mutation_by_id_def by (drule find_mem) blast
    then show ?thesis
      unfolding mutation_by_id_def assms(2) started_key.find_update
      by (cases "find (\<lambda>m. mu_id m = i) (remote_mutations e)") auto
  qed
  then show ?thesis
    by (rule planned_target_cong [OF assms(1)]) (simp add: mark_started_def)
qed

lemma same_mail_unfold: "same_mail d e \<Longrightarrow> remote_messages d = remote_messages e"
  by (simp add: same_mail_def)

lemma authorised_after_start:
  assumes cur: "still_current H cfg target (mu_target_fingerprint row) None w = (Inr True, w1)"
    and tgt: "planned_target (w_db w) (mu_id row) = Inr target"
    and row: "row \<in> set (remote_mutations (w_db w))" "mu_run_id row = run"
    and keys: "unique_keys (w_db w)"
    and w2: "w2 = start_mutation H run (mu_id row) target production w1"
  shows "authorised_call H cfg run (w_db w2) (w_fs w2) (w_tick w2) target"
proof (rule still_current_safe [OF cur keys], goal_cases)
  case (1 r a c g)
  note frame = still_current_frame [OF cur]
  let ?m = "mark_started (reading H w1 0) row"
  have muts: "remote_mutations (w_db w2) =
      update_where (\<lambda>m. mu_id m = mu_id row) (mark_started (reading H w1 0)) (remote_mutations (w_db w))"
    using w2 frame(3) by (simp add: start_mutation_def)
  have mail: "same_mail (w_db w2) (w_db w)"
    using w2 frame(1) by (simp add: start_mutation_def)
  have fs: "w_fs w2 = w_fs w" using w2 frame(5) by (simp add: start_mutation_def)
  have "w_tick w < w_tick w2" using w2 still_current_tick [OF cur] by (simp add: start_mutation_def)
  moreover have "?m \<in> set (remote_mutations (w_db w2))"
    using row(1) unfolding muts set_update_where by blast
  moreover have "planned_target (w_db w2) (mu_id ?m) = Inr target"
    using planned_target_started [OF mail muts] tgt by simp
  moreover have "deletion_safe_row H cfg (w_fs w2) (w_db w2) (h_clock H (w_tick w)) r a c"
    using 1(1) fs deletion_safe_row_cong [OF mail] by simp
  moreover have "mu_target_fingerprint ?m = mu_target_fingerprint row" "mu_status ?m = Started"
    "mu_run_id ?m = run" using row(2) by (simp_all add: mark_started_def)
  ultimately show ?case
    unfolding authorised_call_def using 1(2-5)
    by (intro exI [of _ ?m] exI [of _ r] exI [of _ a] exI [of _ c] exI [of _ g] exI [of _ "w_tick w"]) simp
qed

lemma mutation_by_id_row:
  "unique_keys d \<Longrightarrow> row \<in> set (remote_mutations d) \<Longrightarrow> mutation_by_id d (mu_id row) = Some row"
  unfolding mutation_by_id_def by (rule find_distinct_key) (auto simp: unique_keys_def)

lemma planned_target_rid:
  assumes "planned_target d (mu_id row) = Inr t" "row \<in> set (remote_mutations d)" "unique_keys d"
  shows "tg_remote_message_id (base t) = mu_remote_message_id row"
proof -
  from mutation_by_id_row [OF assms(3,2)] assms(1) obtain a sha where
    "target_of (mutation_base row a sha) (mu_remote_folder row) (mu_uidvalidity row)
       (mu_remote_uid row) (mu_provider_message_id row) = Inr t"
    by (auto simp: planned_target_def split: option.split_asm)
  from target_of_base [OF this] show ?thesis by (simp add: mutation_base_def)
qed

lemma serial_step_cases:
  assumes "serial_step H cfg run A production row w = (res, w')"
    and row: "row \<in> set (remote_mutations (w_db w))" "mu_run_id row = run"
  obtains
    (error) e where "res = Inl e" "remote_mutations (w_db w') = remote_mutations (w_db w)"
      "remote_mutation_runs (w_db w') = remote_mutation_runs (w_db w)"
      "remote_messages (w_db w') = remote_messages (w_db w)"
      "w_net w' = w_net w" "unique_keys (w_db w) \<Longrightarrow> unique_keys (w_db w')"
  | (stale) n where "res = Inr False" "w_net w' = w_net w" "unique_keys (w_db w) \<Longrightarrow> unique_keys (w_db w')"
      "remote_mutations (w_db w') =
         update_where (\<lambda>m. mu_id m = mu_id row) (mark_stale n) (remote_mutations (w_db w))"
      "remote_mutation_runs (w_db w') =
         update_where (\<lambda>x. mr_id x = run) (mark_run RunHalted n) (remote_mutation_runs (w_db w))"
      "remote_messages (w_db w') = remote_messages (w_db w)"
  | (called) w2 target n0 n st sm code ar where
      "unique_keys (w_db w) \<Longrightarrow> authorised_call H cfg run (w_db w2) (w_fs w2) (w_tick w2) target"
      "unique_keys (w_db w) \<Longrightarrow> tg_remote_message_id (base target) = mu_remote_message_id row"
      "w_net w2 = w_net w" "A w2 target = (ar, w_net w')" "res = Inr (st = Succeeded)"
      "st \<in> {Succeeded, Failed, Unknown}"
      "unique_keys (w_db w) \<Longrightarrow> unique_keys (w_db w')"
      "sm \<in> set response_summaries" "code \<in> set mutation_error_codes"
      "st = Succeeded \<longleftrightarrow> (\<exists>r. ar = Some r \<and> ms_outcome r = ''success-confirmed'' \<and>
         ms_confirmed_absent r \<and> result_code r = ''NONE'')"
      "remote_mutations (w_db w') = update_where (\<lambda>m. mu_id m = mu_id row)
         (\<lambda>m. mark_outcome n st sm code (mark_started n0 m)) (remote_mutations (w_db w))"
      "remote_mutation_runs (w_db w') =
         (if st = Succeeded then remote_mutation_runs (w_db w)
          else update_where (\<lambda>x. mr_id x = run) (mark_run RunHalted n) (remote_mutation_runs (w_db w)))"
      "remote_messages (w_db w') =
         (if st = Succeeded then update_where (\<lambda>x. rm_id x = tg_remote_message_id (base target))
            (\<lambda>r. r\<lparr>rm_remote_present := False\<rparr>) (remote_messages (w_db w))
          else remote_messages (w_db w))"
proof (cases "planned_target (w_db w) (mu_id row)")
  case (Inl e)
  with assms(1) show thesis by (intro error [of e]) (auto simp: serial_step_def)
next
  case target: (Inr target)
  obtain cur w1 where sc: "still_current H cfg target (mu_target_fingerprint row) None w = (cur, w1)"
    by (meson surj_pair)
  note frame = still_current_frame [OF sc]
  show thesis
  proof (cases cur)
    case (Inl e)
    with assms(1) target sc frame show thesis
      by (intro error [of e]) (auto simp: serial_step_def same_mail_unfold)
  next
    case (Inr b)
    show thesis
    proof (cases b)
      case False
      with Inr assms(1) target sc have "res = Inr False"
        "w' = halt_stale H run (mu_id row) (if production then Some target else None) production w1"
        by (auto simp: serial_step_def)
      with frame show thesis
        by (intro stale [of "reading H w1 0"])
           (simp_all add: halt_stale_def Let_def exec_keys same_mail_unfold)
    next
      case True
      define w2 where "w2 = start_mutation H run (mu_id row) target production w1"
      have auth: "unique_keys (w_db w) \<Longrightarrow> authorised_call H cfg run (w_db w2) (w_fs w2) (w_tick w2) target"
        using authorised_after_start [OF _ target row _ w2_def] sc Inr True by simp
      obtain ar p where ar: "A w2 target = (ar, p)" by (meson surj_pair)
      define r where "r = (case ar of None \<Rightarrow> outcome_unknown | Some r \<Rightarrow> r)"
      define internal where "internal = (case ar of None \<Rightarrow> Some ''ADAPTER_EXCEPTION'' | Some _ \<Rightarrow> None)"
      obtain rs w3 where rec: "record_outcome H run (mu_id row) target r internal production (w2\<lparr>w_net := p\<rparr>)
          = (rs, w3)" by (meson surj_pair)
      have internal: "internal = None \<or> internal = Some ''ADAPTER_EXCEPTION''"
        by (simp add: internal_def split: option.split)
      have call: "call_adapter H A run (mu_id row) target production w2 = (rs, w3)"
        using rec ar by (simp add: call_adapter_def r_def internal_def split: option.splits)
      have step: "serial_step H cfg run A production row w =
          (case (rs, w3) of (Inl e, w2) \<Rightarrow> (Inl e, w2) | (Inr st, w2) \<Rightarrow> (Inr (st = Succeeded), w2))"
        using target sc Inr True call by (simp add: serial_step_def w2_def)
      have w2: "w_net w2 = w_net w" "remote_mutation_runs (w_db w2) = remote_mutation_runs (w_db w)"
        "remote_messages (w_db w2) = remote_messages (w_db w)" "unique_keys (w_db w) \<Longrightarrow> unique_keys (w_db w2)"
        "remote_mutations (w_db w2) = update_where (\<lambda>m. mu_id m = mu_id row)
           (mark_started (reading H w1 0)) (remote_mutations (w_db w))"
        using frame by (simp_all add: w2_def start_mutation_def same_mail_unfold exec_keys)
      from rec internal show thesis
      proof (rule record_outcome_spec, goal_cases)
        case (1 st sm code n)
        have res: "res = Inr (st = Succeeded)" "w' = w3" using assms(1) step 1(1) by simp_all
        have ok: "st = Succeeded \<longleftrightarrow> (\<exists>r. ar = Some r \<and> ms_outcome r = ''success-confirmed'' \<and>
            ms_confirmed_absent r \<and> result_code r = ''NONE'')"
          using 1(5) by (simp add: internal_def r_def split: option.splits)
        have muts: "remote_mutations (w_db w') = update_where (\<lambda>m. mu_id m = mu_id row)
            (\<lambda>m. mark_outcome n st sm code (mark_started (reading H w1 0) m)) (remote_mutations (w_db w))"
          using 1(6) w2(5) res(2) by (simp add: started_key.update_update)
        have "A w2 target = (ar, w_net w')" using ar 1(10) res(2) by simp
        moreover have "unique_keys (w_db w) \<Longrightarrow> tg_remote_message_id (base target) = mu_remote_message_id row"
          by (rule planned_target_rid [OF target row(1)])
        ultimately show thesis
          using auth w2 1 res ok muts
          by (intro called [of w2 target ar st sm code n "reading H w1 0"]) simp_all
      qed
    qed
  qed
qed

section \<open>The loops\<close>

lemma next_with_mem:
  "next_with st run d = Some row \<Longrightarrow>
     row \<in> set (remote_mutations d) \<and> mu_run_id row = run \<and> mu_status row = st"
  unfolding next_with_def by (drule first_by_mem) simp

lemma next_with_None:
  "next_with st run d = None \<longleftrightarrow> (\<forall>m \<in> set (remote_mutations d). mu_run_id m = run \<longrightarrow> mu_status m \<noteq> st)"
  by (auto simp: next_with_def filter_empty_conv)

lemma count_update_less:
  assumes "row \<in> set t" "P row" "mu_run_id row = run" "mu_status row = st"
    and "\<And>m. mu_status (f m) \<noteq> st"
  shows "length (filter (\<lambda>m. mu_run_id m = run \<and> mu_status m = st) (update_where P f t)) <
    length (filter (\<lambda>m. mu_run_id m = run \<and> mu_status m = st) t)"
proof -
  have le: "length (filter (\<lambda>m. mu_run_id m = run \<and> mu_status m = st) (update_where P f u)) \<le>
      length (filter (\<lambda>m. mu_run_id m = run \<and> mu_status m = st) u)" for u
    using assms(5) by (induction u) auto
  from assms(1) obtain u v where "t = u @ row # v" by (meson split_list)
  with le [of u] le [of v] assms(2-5) show ?thesis by simp
qed

lemma serial_step_decreases:
  assumes "serial_step H cfg run A production row w = (Inr True, w')"
    and "next_with st run (w_db w) = Some row" and "st \<in> {Planned, DryRun}"
  shows "count_with st run (w_db w') < count_with st run (w_db w)"
proof -
  from next_with_mem [OF assms(2)] have row: "row \<in> set (remote_mutations (w_db w))"
    "mu_run_id row = run" "mu_status row = st" by simp_all
  from assms(1) row(1,2) show ?thesis
  proof (cases rule: serial_step_cases)
    case (called w2 target n0 n st' sm code ar)
    then have "remote_mutations (w_db w') = update_where (\<lambda>m. mu_id m = mu_id row)
         (\<lambda>m. mark_outcome n st' sm code (mark_started n0 m)) (remote_mutations (w_db w))"
      "st' = Succeeded" by simp_all
    then show ?thesis
      unfolding count_with_def using row assms(3) by (auto intro!: count_update_less)
  qed auto
qed

function execute_serial ::
  "host \<Rightarrow> app_config \<Rightarrow> int \<Rightarrow> 'p adapter \<Rightarrow> 'p world \<Rightarrow> unit result \<times> 'p world" where
  "execute_serial H cfg run A w =
     (case next_with Planned run (w_db w) of
        None \<Rightarrow> (Inr (), complete_run H run True w)
      | Some row \<Rightarrow>
          (case serial_step H cfg run A True row w of
             (Inl e, w1) \<Rightarrow> (Inl e, w1)
           | (Inr go, w1) \<Rightarrow> if go then execute_serial H cfg run A w1 else (Inr (), w1)))"
  by pat_completeness auto

termination
  by (relation "measure (\<lambda>(H, cfg, run, A, w). count_with Planned run (w_db w))")
     (auto dest: serial_step_decreases [OF sym])

declare execute_serial.simps [simp del]

text \<open>The test-only loop over dry-run rows, with the switch of the run's mode before it.\<close>

function fake_loop ::
  "host \<Rightarrow> app_config \<Rightarrow> int \<Rightarrow> 'p adapter \<Rightarrow> 'p world \<Rightarrow> unit result \<times> 'p world" where
  "fake_loop H cfg run A w =
     (case next_with DryRun run (w_db w) of
        None \<Rightarrow> (Inr (), complete_run H run False w)
      | Some row \<Rightarrow>
          (case serial_step H cfg run A False row w of
             (Inl e, w1) \<Rightarrow> (Inl e, w1)
           | (Inr go, w1) \<Rightarrow> if go then fake_loop H cfg run A w1 else (Inr (), w1)))"
  by pat_completeness auto

termination
  by (relation "measure (\<lambda>(H, cfg, run, A, w). count_with DryRun run (w_db w))")
     (auto dest: serial_step_decreases [OF sym])

declare fake_loop.simps [simp del]

definition fake_mode :: "mutation_run_row \<Rightarrow> mutation_run_row" where
  "fake_mode r = r\<lparr>mr_mode := FakeExecute, mr_status := RunPlanned, mr_completed_at := None\<rparr>"

definition execute_fake ::
  "host \<Rightarrow> app_config \<Rightarrow> int \<Rightarrow> 'p adapter \<Rightarrow> 'p world \<Rightarrow> unit result \<times> 'p world" where
  "execute_fake H cfg run A w =
     (if \<exists>r \<in> set (remote_mutation_runs (w_db w)). mr_id r = run \<and> \<not> mutation_run_check (fake_mode r)
      then (Inl IntegrityError, w)
      else fake_loop H cfg run A (commit (set_run run fake_mode (w_db w)) 0 w))"

section \<open>What a run does\<close>

text \<open>An adapter that logs what it could see at each call; its answers are arbitrary.\<close>

record call =
  ca_db :: db
  ca_fs :: fs
  ca_tick :: nat
  ca_target :: target

definition logging ::
  "(call list world \<Rightarrow> target \<Rightarrow> mutation_result option) \<Rightarrow> call list adapter" where
  "logging f w t =
     (f w t, w_net w @ [\<lparr>ca_db = w_db w, ca_fs = w_fs w, ca_tick = w_tick w, ca_target = t\<rparr>])"

lemma execute_serial_calls:
  assumes "execute_serial H cfg run (logging f) w = (res, w')" and "unique_keys (w_db w)"
  shows "\<exists>calls. w_net w' = w_net w @ calls \<and>
    list_all (\<lambda>c. authorised_call H cfg run (ca_db c) (ca_fs c) (ca_tick c) (ca_target c)) calls \<and>
    length calls \<le> count_with Planned run (w_db w)"
  using assms
proof (induction H cfg run "logging f" w rule: execute_serial.induct)
  case (1 H cfg run w)
  show ?case
  proof (cases "next_with Planned run (w_db w)")
    case None
    with 1(2) show ?thesis
      by (auto simp: execute_serial.simps [of H cfg run "logging f" w] complete_run_def Let_def)
  next
    case (Some row)
    from next_with_mem [OF Some] have row: "row \<in> set (remote_mutations (w_db w))" "mu_run_id row = run"
      "mu_status row = Planned" by simp_all
    then have pos: "0 < count_with Planned run (w_db w)"
      by (auto simp: count_with_def filter_empty_conv)
    obtain r w1 where step: "serial_step H cfg run (logging f) True row w = (r, w1)" by (meson surj_pair)
    have rest: "(case r of Inl e \<Rightarrow> (Inl e, w1) | Inr go \<Rightarrow>
        if go then execute_serial H cfg run (logging f) w1 else (Inr (), w1)) = (res, w')"
      using 1(2) Some step
      by (cases r) (simp_all add: execute_serial.simps [of H cfg run "logging f" w])
    from step row(1,2) show ?thesis
    proof (cases rule: serial_step_cases)
      case (error e)
      with rest show ?thesis by simp
    next
      case (stale n)
      with rest show ?thesis by simp
    next
      case (called w2 target n0 n st sm code ar)
      let ?c = "\<lparr>ca_db = w_db w2, ca_fs = w_fs w2, ca_tick = w_tick w2, ca_target = target\<rparr>"
      have net: "w_net w1 = w_net w @ [?c]" using called(3,4) by (simp add: logging_def)
      have auth: "authorised_call H cfg run (w_db w2) (w_fs w2) (w_tick w2) target"
        using called(1) 1(3) by blast
      show ?thesis
      proof (cases "st = Succeeded")
        case True
        with called(5) rest have go: "execute_serial H cfg run (logging f) w1 = (res, w')" by simp
        have step': "serial_step H cfg run (logging f) True row w = (Inr True, w1)"
          using step called(5) True by simp
        have "unique_keys (w_db w1)" using called(7) 1(3) by blast
        from 1(1) [OF Some step' [symmetric] refl TrueI go this] obtain calls where
          "w_net w' = w_net w1 @ calls"
          "list_all (\<lambda>c. authorised_call H cfg run (ca_db c) (ca_fs c) (ca_tick c) (ca_target c)) calls"
          "length calls \<le> count_with Planned run (w_db w1)" by blast
        with net auth serial_step_decreases [OF step' Some] show ?thesis
          by (intro exI [of _ "?c # calls"]) simp
      next
        case False
        with called(5) rest have "w' = w1" by simp
        with net auth pos show ?thesis by (intro exI [of _ "[?c]"]) simp
      qed
    qed
  qed
qed

text \<open>
  C10.  No unauthorised provider call: whatever the adapter answers, each call a production run
  makes is made in a world whose committed database has a \<open>started\<close> row of that run for the target,
  whose message is safe to delete there, and whose stored fingerprint is the one of the identity
  joined at that moment; and there are at most as many calls as the run had planned rows.
\<close>

theorem provider_calls_are_authorised:
  assumes "execute_serial H cfg run (logging f) w = (res, w')" and "unique_keys (w_db w)"
  shows "\<exists>calls. w_net w' = w_net w @ calls \<and>
    list_all (\<lambda>c. authorised_call H cfg run (ca_db c) (ca_fs c) (ca_tick c) (ca_target c)) calls \<and>
    length calls \<le> count_with Planned run (w_db w)"
  using execute_serial_calls [OF assms] .

text \<open>The rows of a run: a prefix done, the rest untouched; or halted at one row.\<close>

definition run_rows :: "int \<Rightarrow> db \<Rightarrow> mutation_row set" where
  "run_rows run d = {m \<in> set (remote_mutations d). mu_run_id m = run}"

definition done_prefix :: "int \<Rightarrow> db \<Rightarrow> bool" where
  "done_prefix run d \<longleftrightarrow>
     (\<forall>m \<in> run_rows run d. mu_status m \<in> {Succeeded, Planned}) \<and>
     (\<forall>m \<in> run_rows run d. \<forall>n \<in> run_rows run d.
        mu_status m = Succeeded \<longrightarrow> mu_status n = Planned \<longrightarrow> mu_id m < mu_id n)"

definition halted_at :: "int \<Rightarrow> db \<Rightarrow> bool" where
  "halted_at run d \<longleftrightarrow>
     (\<exists>x \<in> run_rows run d. mu_status x \<in> {Failed, Unknown} \<and>
        (\<forall>m \<in> run_rows run d.
           (mu_id m < mu_id x \<longrightarrow> mu_status m = Succeeded) \<and> (mu_id x < mu_id m \<longrightarrow> mu_status m = Planned)))"

definition run_has_status :: "int \<Rightarrow> run_status \<Rightarrow> db \<Rightarrow> bool" where
  "run_has_status run st d \<longleftrightarrow> (\<forall>r \<in> set (remote_mutation_runs d). mr_id r = run \<longrightarrow> mr_status r = st)"

lemma run_rows_update:
  assumes "row \<in> run_rows run d" "distinct (map mu_id (remote_mutations d))"
    and "remote_mutations d' = update_where (\<lambda>m. mu_id m = mu_id row) f (remote_mutations d)"
    and "\<And>m. mu_run_id (f m) = mu_run_id m"
  shows "run_rows run d' = insert (f row) (run_rows run d - {row})"
proof -
  from assms(1,2) have "mu_id m = mu_id row \<longleftrightarrow> m = row" if "m \<in> set (remote_mutations d)" for m
    using that by (auto simp: run_rows_def distinct_map dest: inj_onD)
  with assms(1,3,4) show ?thesis
    by (auto simp: run_rows_def set_update_where)
qed

lemma run_has_status_update:
  assumes "remote_mutation_runs d' = update_where (\<lambda>x. mr_id x = run) (mark_run st n) (remote_mutation_runs d)"
  shows "run_has_status run st d'"
proof -
  have "\<forall>r \<in> set (update_where (\<lambda>x. mr_id x = run) (mark_run st n) t). mr_id r = run \<longrightarrow> mr_status r = st" for t
    by (induction t) simp_all
  with assms show ?thesis by (simp only: run_has_status_def)
qed

lemma next_with_least:
  assumes "next_with st run d = Some row" "m \<in> run_rows run d" "mu_status m = st"
  shows "mu_id row \<le> mu_id m"
  using assms unfolding next_with_def
  by (auto dest: first_by_least [where s = m] simp: run_rows_def)

text \<open>The attempted row splits the run: everything before it is done, everything after it planned.\<close>

lemma next_row_splits:
  assumes "done_prefix run d" "next_with Planned run d = Some row" "m \<in> run_rows run d"
  shows "(mu_id m < mu_id row \<longrightarrow> mu_status m = Succeeded) \<and> (mu_id row < mu_id m \<longrightarrow> mu_status m = Planned)"
proof -
  from next_with_mem [OF assms(2)] have row: "row \<in> run_rows run d" "mu_status row = Planned"
    by (simp_all add: run_rows_def)
  from assms(1,3) have st: "mu_status m \<in> {Succeeded, Planned}" by (simp add: done_prefix_def)
  have "mu_status m = Planned \<Longrightarrow> mu_id row \<le> mu_id m" by (rule next_with_least [OF assms(2,3)])
  moreover have "mu_status m = Succeeded \<Longrightarrow> mu_id m < mu_id row"
    using assms(1,3) row by (auto simp: done_prefix_def)
  ultimately show ?thesis using st by auto
qed

lemma halted_after_update:
  assumes "done_prefix run d" "next_with Planned run d = Some row"
    and "run_rows run d' = insert (f row) (run_rows run d - {row})"
    and "mu_id (f row) = mu_id row" "mu_status (f row) \<in> {Failed, Unknown}"
  shows "halted_at run d'"
  unfolding halted_at_def assms(3)
  using assms(4,5) next_row_splits [OF assms(1,2)]
  by (intro bexI [of _ "f row"]) auto

lemma done_after_update:
  assumes "done_prefix run d" "next_with Planned run d = Some row"
    and "run_rows run d' = insert (f row) (run_rows run d - {row})"
    and "mu_id (f row) = mu_id row" "mu_status (f row) = Succeeded"
    and "distinct (map mu_id (remote_mutations d))"
  shows "done_prefix run d'"
proof -
  from next_with_mem [OF assms(2)] have row: "row \<in> run_rows run d" by (simp add: run_rows_def)
  have less: "mu_id row < mu_id n" if n: "n \<in> run_rows run d" "n \<noteq> row" "mu_status n = Planned" for n
  proof -
    from n row assms(6) have "mu_id n \<noteq> mu_id row"
      by (auto simp: run_rows_def distinct_map dest: inj_onD)
    with next_with_least [OF assms(2) n(1,3)] show ?thesis by simp
  qed
  have pre: "mu_status m \<in> {Succeeded, Planned}" if "m \<in> run_rows run d" for m
    using assms(1) that by (simp add: done_prefix_def)
  have ord: "mu_id m < mu_id n" if "m \<in> run_rows run d" "n \<in> run_rows run d"
      "mu_status m = Succeeded" "mu_status n = Planned" for m n
    using assms(1) that by (auto simp: done_prefix_def)
  show ?thesis
    unfolding done_prefix_def assms(3) using assms(4,5) pre ord less by auto
qed

lemma production_halts:
  assumes "execute_serial H cfg run A w = (res, w')" and "unique_keys (w_db w)"
    and "done_prefix run (w_db w)"
  shows "case res of
      Inl e \<Rightarrow> done_prefix run (w_db w')
    | Inr _ \<Rightarrow>
        ((\<forall>m \<in> run_rows run (w_db w'). mu_status m = Succeeded) \<and> run_has_status run RunCompleted (w_db w')) \<or>
        (halted_at run (w_db w') \<and> run_has_status run RunHalted (w_db w'))"
  using assms
proof (induction H cfg run A w rule: execute_serial.induct)
  case (1 H cfg run A w)
  note unfold = execute_serial.simps [of H cfg run A w]
  show ?case
  proof (cases "next_with Planned run (w_db w)")
    case None
    with 1(2) have "res = Inr ()" "w' = complete_run H run True w" by (simp_all add: unfold)
    then have runs: "remote_mutation_runs (w_db w') = update_where (\<lambda>x. mr_id x = run)
        (mark_run RunCompleted (reading H w 0)) (remote_mutation_runs (w_db w))"
      and "run_rows run (w_db w') = run_rows run (w_db w)"
      by (simp_all add: complete_run_def Let_def run_rows_def)
    moreover have "\<forall>m \<in> run_rows run (w_db w). mu_status m = Succeeded"
      using None 1(4) by (auto simp: next_with_None done_prefix_def run_rows_def)
    ultimately show ?thesis
      using \<open>res = Inr ()\<close> run_has_status_update [OF runs] by simp
  next
    case (Some row)
    from next_with_mem [OF Some] have row: "row \<in> set (remote_mutations (w_db w))" "mu_run_id row = run"
      by simp_all
    then have mem: "row \<in> run_rows run (w_db w)" by (simp add: run_rows_def)
    have ids: "distinct (map mu_id (remote_mutations (w_db w)))" using 1(3) by (simp add: unique_keys_def)
    obtain r w1 where step: "serial_step H cfg run A True row w = (r, w1)" by (meson surj_pair)
    have rest: "(case r of Inl e \<Rightarrow> (Inl e, w1) | Inr go \<Rightarrow>
        if go then execute_serial H cfg run A w1 else (Inr (), w1)) = (res, w')"
      using 1(2) Some step by (cases r) (simp_all add: unfold)
    from step row show ?thesis
    proof (cases rule: serial_step_cases)
      case (error e)
      with rest 1(4) show ?thesis by (auto simp: done_prefix_def run_rows_def)
    next
      case (stale n)
      from rest stale(1) have "res = Inr ()" "w' = w1" by simp_all
      moreover have "halted_at run (w_db w1)"
        by (rule halted_after_update [where f = "mark_stale n", OF 1(4) Some run_rows_update [OF mem ids stale(4)]]) simp_all
      ultimately show ?thesis using run_has_status_update [OF stale(5)] by simp
    next
      case (called w2 target n0 n st sm code ar)
      let ?f = "\<lambda>m. mark_outcome n st sm code (mark_started n0 m)"
      have rows: "run_rows run (w_db w1) = insert (?f row) (run_rows run (w_db w) - {row})"
        by (rule run_rows_update [OF mem ids called(11)]) simp
      show ?thesis
      proof (cases "st = Succeeded")
        case True
        with called(5) rest have go: "execute_serial H cfg run A w1 = (res, w')" by simp
        have "done_prefix run (w_db w1)"
          by (rule done_after_update [where f = ?f, OF 1(4) Some rows _ _ ids]) (simp_all add: True)
        moreover have "unique_keys (w_db w1)" using called(7) 1(3) by blast
        moreover have "(Inr True, w1) = serial_step H cfg run A True row w"
          using step called(5) True by simp
        ultimately show ?thesis
          using 1(1) [OF Some _ refl TrueI go] by blast
      next
        case False
        with called(5) rest have "res = Inr ()" "w' = w1" by simp_all
        moreover have "halted_at run (w_db w1)"
          by (rule halted_after_update [where f = ?f, OF 1(4) Some rows]) (use False called(6) in auto)
        moreover have "run_has_status run RunHalted (w_db w1)"
          using run_has_status_update [of "w_db w1" run RunHalted n "w_db w"] called(12) False by simp
        ultimately show ?thesis by simp
      qed
    qed
  qed
qed

text \<open>
  C11.  A production run is serial and stops at the first doubt: started on planned rows, it
  returns either completed, with every row succeeded, or halted at one failed or unknown row, with
  every earlier row (by id) succeeded and every later row still planned; if a local exception
  escapes, no row is left attempted.
\<close>

theorem production_run_halts_at_first_failure:
  assumes "execute_serial H cfg run A w = (res, w')" and "unique_keys (w_db w)"
    and "done_prefix run (w_db w)"
  shows "case res of
      Inl e \<Rightarrow> done_prefix run (w_db w')
    | Inr _ \<Rightarrow>
        ((\<forall>m \<in> run_rows run (w_db w'). mu_status m = Succeeded) \<and> run_has_status run RunCompleted (w_db w')) \<or>
        (halted_at run (w_db w') \<and> run_has_status run RunHalted (w_db w'))"
  using production_halts [OF assms] .

section \<open>What execution leaves alone\<close>

text \<open>The columns of a mutation that execution never writes.\<close>

definition static_columns :: "mutation_row \<Rightarrow> mutation_row" where
  "static_columns m = m\<lparr>mu_status := Planned, mu_started_at := None, mu_completed_at := None,
     mu_provider_response_summary := None, mu_error_code := None\<rparr>"

definition static_run :: "mutation_run_row \<Rightarrow> mutation_run_row" where
  "static_run r = r\<lparr>mr_status := RunPlanned, mr_completed_at := None\<rparr>"

lemma static_marks [simp]:
  "static_columns (mark_started n m) = static_columns m"
  "static_columns (mark_stale n m) = static_columns m"
  "static_columns (mark_outcome n st sm c m) = static_columns m"
  "static_run (mark_run rs n r) = static_run r"
  by (simp_all add: static_columns_def static_run_def mark_started_def mark_stale_def
      mark_outcome_def mark_run_def)

lemma map_update_where: "(\<And>r. g (f r) = g r) \<Longrightarrow> map g (update_where P f t) = map g t"
  by (induction t) auto

lemma filter_update_other:
  assumes "distinct (map mu_id t)" "row \<in> set t" "mu_run_id row = run" "\<And>m. mu_run_id (f m) = mu_run_id m"
  shows "filter (\<lambda>m. mu_run_id m \<noteq> run) (update_where (\<lambda>m. mu_id m = mu_id row) f t) =
    filter (\<lambda>m. mu_run_id m \<noteq> run) t"
proof -
  have same: "m = row" if "m \<in> set t" "mu_id m = mu_id row" for m
    using that assms(1,2) by (auto simp: distinct_map dest: inj_onD)
  have "filter (\<lambda>m. mu_run_id m \<noteq> run) (update_where (\<lambda>m. mu_id m = mu_id row) f u) =
      filter (\<lambda>m. mu_run_id m \<noteq> run) u" if "set u \<subseteq> set t" for u
    using that
  proof (induction u)
    case Nil
    then show ?case by simp
  next
    case (Cons m u)
    then show ?case using same [of m] assms(3,4) by auto
  qed
  then show ?thesis by blast
qed

lemma filter_run_other:
  "filter (\<lambda>r. mr_id r \<noteq> run) (update_where (\<lambda>x. mr_id x = run) (mark_run rs n) t) =
     filter (\<lambda>r. mr_id r \<noteq> run) t"
  by (induction t) auto

definition only_run :: "int \<Rightarrow> db \<Rightarrow> db \<Rightarrow> bool" where
  "only_run run d d' \<longleftrightarrow>
     map static_columns (remote_mutations d') = map static_columns (remote_mutations d) \<and>
     filter (\<lambda>m. mu_run_id m \<noteq> run) (remote_mutations d') = filter (\<lambda>m. mu_run_id m \<noteq> run) (remote_mutations d) \<and>
     map static_run (remote_mutation_runs d') = map static_run (remote_mutation_runs d) \<and>
     filter (\<lambda>r. mr_id r \<noteq> run) (remote_mutation_runs d') = filter (\<lambda>r. mr_id r \<noteq> run) (remote_mutation_runs d)"

lemma only_run_refl [simp]: "only_run run d d"
  by (simp add: only_run_def)

lemma only_run_trans: "only_run run a b \<Longrightarrow> only_run run b c \<Longrightarrow> only_run run a c"
  by (simp add: only_run_def)

lemma serial_step_only_run:
  assumes "serial_step H cfg run A production row w = (res, w')"
    and row: "row \<in> set (remote_mutations (w_db w))" "mu_run_id row = run" and keys: "unique_keys (w_db w)"
  shows "only_run run (w_db w) (w_db w') \<and> unique_keys (w_db w')"
proof -
  have ids: "distinct (map mu_id (remote_mutations (w_db w)))" using keys by (simp add: unique_keys_def)
  from assms(1) row show ?thesis
  proof (cases rule: serial_step_cases)
    case (error e)
    with keys show ?thesis by (simp add: only_run_def)
  next
    case (stale n)
    with keys show ?thesis
      by (simp add: only_run_def map_update_where filter_update_other [OF ids row] filter_run_other)
  next
    case (called w2 target n0 n st sm code ar)
    with keys show ?thesis
      by (simp add: only_run_def map_update_where filter_update_other [OF ids row] filter_run_other)
  qed
qed

lemma execute_serial_only_run:
  assumes "execute_serial H cfg run A w = (res, w')" and "unique_keys (w_db w)"
  shows "only_run run (w_db w) (w_db w') \<and> unique_keys (w_db w')"
  using assms
proof (induction H cfg run A w rule: execute_serial.induct)
  case (1 H cfg run A w)
  note unfold = execute_serial.simps [of H cfg run A w]
  show ?case
  proof (cases "next_with Planned run (w_db w)")
    case None
    with 1(2) have "w' = complete_run H run True w" by (simp add: unfold)
    with 1(3) show ?thesis
      by (simp add: complete_run_def Let_def only_run_def map_update_where filter_run_other exec_keys)
  next
    case (Some row)
    from next_with_mem [OF Some] have row: "row \<in> set (remote_mutations (w_db w))" "mu_run_id row = run"
      by simp_all
    obtain r w1 where step: "serial_step H cfg run A True row w = (r, w1)" by (meson surj_pair)
    note one = serial_step_only_run [OF step row 1(3)]
    from 1(2) Some step consider "w' = w1"
      | "r = Inr True" "execute_serial H cfg run A w1 = (res, w')"
      by (auto simp: unfold split: sum.split_asm if_split_asm)
    then show ?thesis
    proof cases
      case 1
      with one show ?thesis by simp
    next
      case 2
      with step have "(Inr True, w1) = serial_step H cfg run A True row w" by simp
      from 1(1) [OF Some this refl TrueI 2(2)] one show ?thesis
        by (blast intro: only_run_trans)
    qed
  qed
qed

end
