(* ===== verification/MutationProduction.thy ===== *)
theory MutationProduction
  imports MutationExec
begin

text \<open>
  \<open>execute_production_plan\<close>: the authorization chain (opt-in, a completed dry-run plan limited to
  the account, its age, its limits, its rows, no unresolved target, a fresh evaluation and an
  unchanged fingerprint for every row), the local factory preflight, the clone into a production
  run and its serial execution.  Each refusal leaves no production run behind.
\<close>

type_synonym 'p adapter_factory = "'p world \<Rightarrow> app_config \<Rightarrow> string \<Rightarrow> 'p adapter result"

definition deletion_enabled :: "app_config \<Rightarrow> string \<Rightarrow> bool" where
  "deletion_enabled cfg name =
     (case config_account cfg name of None \<Rightarrow> False
      | Some a \<Rightarrow> ac_enabled a \<and> ac_remote_deletion_enabled a)"

definition rows_of_run :: "int \<Rightarrow> db \<Rightarrow> mutation_row list" where
  "rows_of_run run d = sort_key mu_id (filter (\<lambda>m. mu_run_id m = run) (remote_mutations d))"

definition unresolved_target :: "db \<Rightarrow> string list \<Rightarrow> bool" where
  "unresolved_target d ids =
     (\<exists>m \<in> set (remote_mutations d). \<exists>r \<in> set (remote_mutation_runs d).
        mr_id r = mu_run_id m \<and> mr_mode r = ProductionExecute \<and>
        mu_remote_message_id m \<in> set ids \<and> mu_status m \<in> {Started, Unknown})"

text \<open>The checks on the source run itself, in the order of the source.\<close>

definition source_plan ::
  "host \<Rightarrow> app_config \<Rightarrow> db \<Rightarrow> int \<Rightarrow> int \<Rightarrow> string \<Rightarrow> mutation_run_row result" where
  "source_plan H cfg d now source_id name =
     (case find (\<lambda>r. mr_id r = source_id) (remote_mutation_runs d) of
        None \<Rightarrow> Inl (ProductionPlanError ''source run is not a completed dry-run plan'')
      | Some s \<Rightarrow>
          if mr_mode s \<noteq> DryRunMode \<or> mr_status s \<noteq> RunCompleted
          then Inl (ProductionPlanError ''source run is not a completed dry-run plan'')
          else if mr_account_filter s \<noteq> Some name \<or> mr_selected_count s < 1
          then Inl (ProductionPlanError ''source plan is not explicitly limited to the requested account'')
          else if \<exists>r \<in> set (remote_mutation_runs d).
                 mr_mode r = ProductionExecute \<and> mr_source_plan_run_id r = Some source_id
          then Inl (ProductionPlanError ''source plan already has a production execution'')
          else (case h_fromisoformat H (mr_requested_at s) of
              None \<Rightarrow> Inl (ProductionPlanError ''source plan has an invalid requested_at timestamp'')
            | Some (Naive t) \<Rightarrow> Inl (ProductionPlanError ''source plan has an invalid requested_at timestamp'')
            | Some (Aware t) \<Rightarrow>
                if t > now then Inl (ProductionPlanError ''source plan has an invalid requested_at timestamp'')
                else if now - t > PLAN_TTL
                then Inl (ProductionPlanError ''source plan expired; create a new dry-run'')
                else
                  let selected = mr_selected_count s; caps = cf_remote_deletion cfg in
                  if selected > mr_effective_max_per_run s \<or> selected > mr_effective_max_per_account s \<or>
                     selected > rd_max_per_run caps \<or> selected > rd_max_per_account caps \<or>
                     mr_effective_max_per_run s > rd_max_per_run caps \<or>
                     mr_effective_max_per_account s > rd_max_per_account caps
                  then Inl (ProductionPlanError ''source plan exceeds current safety limit'')
                  else Inr s))"

definition source_rows :: "db \<Rightarrow> mutation_run_row \<Rightarrow> string \<Rightarrow> mutation_row list result" where
  "source_rows d s name =
     (let rows = rows_of_run (mr_id s) d in
      if int (length rows) \<noteq> mr_selected_count s \<or>
         (\<exists>m \<in> set rows. mu_status m \<noteq> DryRun \<or> \<not> mu_dry_run m)
      then Inl (ProductionPlanError ''source plan mutation state is invalid'')
      else (case find (\<lambda>a. ar_name a = name) (accounts d) of
          None \<Rightarrow> Inl (ProductionPlanError ''account is not active locally'')
        | Some a \<Rightarrow>
            if \<exists>m \<in> set rows. mu_account_id m \<noteq> ar_id a
            then Inl (ProductionPlanError ''source plan contains another account'')
            else if unresolved_target d (map mu_remote_message_id rows)
            then Inl (ProductionPlanError ''target has unresolved destructive production state'')
            else Inr rows))"

text \<open>The loop that rebuilds and compares every target against its fresh report.\<close>

fun rows_still_current :: "host \<Rightarrow> db \<Rightarrow> report list \<Rightarrow> mutation_row list \<Rightarrow> unit result" where
  "rows_still_current H d fresh [] = Inr ()"
| "rows_still_current H d fresh (m # ms) =
     (case planned_target d (mu_id m) of
        Inl e \<Rightarrow> Inl e
      | Inr t \<Rightarrow>
          (case report_for fresh (mu_remote_message_id m) of
             None \<Rightarrow> Inl KeyError
           | Some q \<Rightarrow>
               (case current_identity H d t (mu_target_fingerprint m) (Some q) of
                  Inl e \<Rightarrow> Inl e
                | Inr ok \<Rightarrow>
                    if ok then rows_still_current H d fresh ms
                    else Inl (ProductionPlanError ''source plan target fingerprint or identity is stale''))))"

definition production_run_row :: "int \<Rightarrow> string \<Rightarrow> string \<Rightarrow> mutation_run_row \<Rightarrow> int \<Rightarrow> mutation_run_row" where
  "production_run_row ident created name s selected =
     \<lparr>mr_id = ident, mr_requested_at = created, mr_completed_at = None, mr_mode = ProductionExecute,
      mr_status = RunPlanned, mr_account_filter = Some name, mr_requested_limit = None,
      mr_effective_max_per_run = mr_effective_max_per_run s,
      mr_effective_max_per_account = mr_effective_max_per_account s, mr_eligible_count = selected,
      mr_selected_count = selected, mr_skipped_limit_count = 0, mr_policy_version = POLICY_VERSION,
      mr_source_plan_run_id = Some (mr_id s),
      mr_authorization_method = Some ''account-opt-in+explicit-plan-v1''\<rparr>"

definition production_row :: "int \<Rightarrow> int \<Rightarrow> int \<Rightarrow> string \<Rightarrow> mutation_row \<Rightarrow> mutation_row" where
  "production_row ident run evaluation created m =
     m\<lparr>mu_id := ident, mu_run_id := run, mu_deletion_evaluation_id := evaluation,
       mu_operation := ''delete'', mu_dry_run := False, mu_requested_at := created,
       mu_started_at := None, mu_completed_at := None, mu_status := Planned,
       mu_provider_response_summary := None, mu_error_code := None,
       mu_source_plan_mutation_id := Some (mu_id m), mu_reconciled_at := None\<rparr>"

fun clone_rows ::
  "report list \<Rightarrow> int \<Rightarrow> string \<Rightarrow> mutation_row list \<Rightarrow> mutation_row list \<Rightarrow> mutation_row list result" where
  "clone_rows fresh run created [] t = Inr t"
| "clone_rows fresh run created (m # ms) t =
     (case report_for fresh (mu_remote_message_id m) of
        None \<Rightarrow> Inl KeyError
      | Some q \<Rightarrow>
          let row = production_row (next_rowid (map mu_id t)) run (rq_deletion_evaluation_id q) created m
          in if insertable row t then clone_rows fresh run created ms (t @ [row]) else Inl IntegrityError)"

text \<open>The insertion of the run: its \<open>CHECK\<close> and the unique index on the source plan.\<close>

definition run_insertable :: "mutation_run_row \<Rightarrow> mutation_run_row list \<Rightarrow> bool" where
  "run_insertable r t \<longleftrightarrow> mutation_run_check r \<and>
     (\<forall>x \<in> set t. mr_mode x = ProductionExecute \<longrightarrow> mr_source_plan_run_id x \<noteq> mr_source_plan_run_id r)"

definition create_production_run ::
  "host \<Rightarrow> string \<Rightarrow> mutation_run_row \<Rightarrow> mutation_row list \<Rightarrow> report list \<Rightarrow> 'p world \<Rightarrow> int result \<times> 'p world" where
  "create_production_run H name s rows fresh w =
     (let d = w_db w; created = reading H w 0;
          run = next_rowid (map mr_id (remote_mutation_runs d));
          run_row = production_run_row run created name s (int (length rows))
      in if \<not> run_insertable run_row (remote_mutation_runs d) then (Inl IntegrityError, tick 1 w)
         else (case clone_rows fresh run created rows (remote_mutations d) of
             Inl e \<Rightarrow> (Inl e, tick 1 w)
           | Inr t \<Rightarrow>
               (Inr run, commit (mutation_audit (reading H w 1) ''remote_delete.production.started''
                   ''started'' None
                   (json_sorted [(''source_plan_run_id'', JInt (mr_id s)),
                      (''selected'', JInt (int (length rows)))])
                   (d\<lparr>remote_mutation_runs := remote_mutation_runs d @ [run_row],
                      remote_mutations := t\<rparr>)) 2 w)))"

text \<open>Everything before the execution proper; the second half is evaluated in a fresh snapshot.\<close>

definition authorize_plan ::
  "host \<Rightarrow> app_config \<Rightarrow> int \<Rightarrow> string \<Rightarrow> 'p adapter_factory \<Rightarrow> 'p world \<Rightarrow>
     ('p adapter \<times> int) result \<times> 'p world" where
  "authorize_plan H cfg source_id name factory w =
     (if \<not> deletion_enabled cfg name
      then (Inl (ProductionPlanError ''account is not explicitly enabled for production remote deletion''), w)
      else
        let now = h_clock H (w_tick w); w0 = tick 1 w in
        case source_plan H cfg (w_db w) now source_id name of
          Inl e \<Rightarrow> (Inl e, w0)
        | Inr s \<Rightarrow>
            (case source_rows (w_db w) s name of
               Inl e \<Rightarrow> (Inl e, w0)
             | Inr rows \<Rightarrow>
                 (case evaluate_all H cfg None (Some name) w0 of
                    (Inl e, w1) \<Rightarrow> (Inl e, w1)
                  | (Inr fresh, w1) \<Rightarrow>
                      if \<exists>m \<in> set rows. (case report_for fresh (mu_remote_message_id m) of
                             None \<Rightarrow> True | Some q \<Rightarrow> \<not> rq_eligible q)
                      then (Inl (ProductionPlanError ''source plan became stale or ineligible''), w1)
                      else (case rows_still_current H (w_db w1) fresh rows of
                          Inl e \<Rightarrow> (Inl e, w1)
                        | Inr u \<Rightarrow>
                            (case factory w1 cfg name of
                               Inl e \<Rightarrow> (Inl e, w1)
                             | Inr A \<Rightarrow>
                                 (case create_production_run H name s rows fresh w1 of
                                    (Inl e, w2) \<Rightarrow> (Inl e, w2)
                                  | (Inr run, w2) \<Rightarrow> (Inr (A, run), w2)))))))"

definition execute_production_plan ::
  "host \<Rightarrow> app_config \<Rightarrow> int \<Rightarrow> string \<Rightarrow> 'p adapter_factory \<Rightarrow> 'p world \<Rightarrow> int result \<times> 'p world" where
  "execute_production_plan H cfg source_id name factory w =
     (case authorize_plan H cfg source_id name factory w of
        (Inl e, w1) \<Rightarrow> (Inl e, w1)
      | (Inr (A, run), w1) \<Rightarrow>
          (case execute_serial H cfg run A w1 of
             (Inl e, w2) \<Rightarrow> (Inl e, w2)
           | (Inr u, w2) \<Rightarrow> (Inr run, w2)))"

section \<open>The authorization chain\<close>

text \<open>What must hold of the configuration, the clock and the tables for a plan to be executed.\<close>

definition plan_authorised ::
  "host \<Rightarrow> app_config \<Rightarrow> fs \<Rightarrow> db \<Rightarrow> nat \<Rightarrow> int \<Rightarrow> string \<Rightarrow> bool" where
  "plan_authorised H cfg F d k source_id name \<longleftrightarrow>
     (\<exists>c. config_account cfg name = Some c \<and> ac_enabled c \<and> ac_remote_deletion_enabled c) \<and>
     (\<exists>s \<in> set (remote_mutation_runs d). \<exists>t a.
        mr_id s = source_id \<and> mr_mode s = DryRunMode \<and> mr_status s = RunCompleted \<and>
        mr_account_filter s = Some name \<and>
        h_fromisoformat H (mr_requested_at s) = Some (Aware t) \<and>
        t \<le> h_clock H k \<and> h_clock H k \<le> t + PLAN_TTL \<and>
        1 \<le> mr_selected_count s \<and>
        mr_selected_count s \<le> rd_max_per_run (cf_remote_deletion cfg) \<and>
        mr_selected_count s \<le> rd_max_per_account (cf_remote_deletion cfg) \<and>
        int (length (rows_of_run source_id d)) = mr_selected_count s \<and>
        a \<in> set (accounts d) \<and> ar_name a = name \<and>
        \<not> unresolved_target d (map mu_remote_message_id (rows_of_run source_id d)) \<and>
        (\<forall>m \<in> set (rows_of_run source_id d).
           mu_status m = DryRun \<and> mu_dry_run m \<and> mu_account_id m = ar_id a \<and>
           (\<exists>r a' c g. deletion_safe_row H cfg F d (h_clock H (Suc k)) r a' c \<and>
              target_row \<lparr>jr_remote = r, jr_account = a', jr_canonical = c\<rparr> = Inr g \<and>
              mu_target_fingerprint m = fingerprint H g \<and>
              mu_remote_message_id m = rm_id r \<and> mu_canonical_message_id m = cm_id c))) \<and>
     (\<forall>r \<in> set (remote_mutation_runs d).
        mr_mode r = ProductionExecute \<longrightarrow> mr_source_plan_run_id r \<noteq> Some source_id)"

lemma source_plan_Inr:
  assumes "source_plan H cfg d now source_id name = Inr s"
  obtains t where "s \<in> set (remote_mutation_runs d)" "mr_id s = source_id" "mr_mode s = DryRunMode"
    "mr_status s = RunCompleted" "mr_account_filter s = Some name" "1 \<le> mr_selected_count s"
    "\<forall>r \<in> set (remote_mutation_runs d). mr_mode r = ProductionExecute \<longrightarrow> mr_source_plan_run_id r \<noteq> Some source_id"
    "h_fromisoformat H (mr_requested_at s) = Some (Aware t)" "t \<le> now" "now \<le> t + PLAN_TTL"
    "mr_selected_count s \<le> rd_max_per_run (cf_remote_deletion cfg)"
    "mr_selected_count s \<le> rd_max_per_account (cf_remote_deletion cfg)"
proof -
  from assms have found: "find (\<lambda>r. mr_id r = source_id) (remote_mutation_runs d) = Some s"
    by (auto simp: source_plan_def Let_def split: option.split_asm py_datetime.split_asm if_split_asm)
  then have s: "s \<in> set (remote_mutation_runs d) \<and> mr_id s = source_id" by (rule find_mem)
  note chk = assms [unfolded source_plan_def found option.case Let_def]
  from chk obtain t where t: "h_fromisoformat H (mr_requested_at s) = Some (Aware t)"
    by (cases "h_fromisoformat H (mr_requested_at s)")
       (auto split: if_split_asm py_datetime.split_asm)
  from chk s show thesis
    by (intro that [of t]) (auto simp: t split: if_split_asm)
qed

lemma source_rows_Inr:
  assumes "source_rows d s name = Inr rows"
  obtains a where "rows = rows_of_run (mr_id s) d" "int (length rows) = mr_selected_count s"
    "a \<in> set (accounts d)" "ar_name a = name" "\<not> unresolved_target d (map mu_remote_message_id rows)"
    "\<forall>m \<in> set rows. mu_status m = DryRun \<and> mu_dry_run m \<and> mu_account_id m = ar_id a"
proof -
  from assms obtain a where a: "find (\<lambda>a. ar_name a = name) (accounts d) = Some a"
    by (auto simp: source_rows_def Let_def split: option.split_asm if_split_asm)
  then have "a \<in> set (accounts d) \<and> ar_name a = name" by (rule find_mem)
  with assms show thesis
    unfolding source_rows_def Let_def a option.case
    by (intro that [of a]) (auto split: if_split_asm)
qed

lemma set_rows_of_run: "set (rows_of_run run d) = run_rows run d"
  by (auto simp: rows_of_run_def run_rows_def)

lemma rows_still_current_mem:
  assumes "rows_still_current H d fresh ms = Inr u" "m \<in> set ms"
  shows "\<exists>t q. planned_target d (mu_id m) = Inr t \<and> report_for fresh (mu_remote_message_id m) = Some q \<and>
    current_identity H d t (mu_target_fingerprint m) (Some q) = Inr True"
  using assms by (induction ms) (auto split: sum.split_asm option.split_asm if_split_asm)

lemma current_identity_True:
  assumes "current_identity H d t fp (Some q) = Inr True"
  obtains j g where "rq_eligible q" "j \<in> set (joined_rows d)"
    "rm_id (jr_remote j) = tg_remote_message_id (base t)"
    "cm_id (jr_canonical j) = tg_canonical_message_id (base t)"
    "rq_remote_message_id q = tg_remote_message_id (base t)"
    "target_row j = Inr g" "fingerprint H g = fp"
proof -
  from assms obtain j g where j: "rq_eligible q"
    "identity_row d (tg_remote_message_id (base t)) (tg_canonical_message_id (base t)) = Some j"
    "rq_remote_message_id q = tg_remote_message_id (base t)" "target_row j = Inr g" "fingerprint H g = fp"
    by (auto simp: current_identity_def Let_def split: option.split_asm if_split_asm sum.split_asm)
  from j(2) have "j \<in> set (joined_rows d) \<and> rm_id (jr_remote j) = tg_remote_message_id (base t) \<and>
      cm_id (jr_canonical j) = tg_canonical_message_id (base t)"
    unfolding identity_row_def by (drule_tac find_mem) blast
  with j show thesis by (intro that) simp_all
qed

lemma planned_target_cid:
  assumes "planned_target d (mu_id row) = Inr t" "row \<in> set (remote_mutations d)" "unique_keys d"
  shows "tg_canonical_message_id (base t) = mu_canonical_message_id row"
proof -
  from mutation_by_id_row [OF assms(3,2)] assms(1) obtain a sha where
    "target_of (mutation_base row a sha) (mu_remote_folder row) (mu_uidvalidity row)
       (mu_remote_uid row) (mu_provider_message_id row) = Inr t"
    by (auto simp: planned_target_def split: option.split_asm)
  from target_of_base [OF this] show ?thesis by (simp add: mutation_base_def)
qed

text \<open>A row that passed the comparison names a message safe to delete at the evaluation.\<close>

lemma current_row_safe:
  assumes ev: "evaluate_all H cfg None account w0 = (Inr fresh, w1)" and keys: "unique_keys (w_db w0)"
    and chk: "rows_still_current H (w_db w1) fresh rows = Inr u"
    and m: "m \<in> set rows" "m \<in> set (remote_mutations (w_db w0))"
  shows "\<exists>r a c g. deletion_safe_row H cfg (w_fs w0) (w_db w0) (h_clock H (w_tick w0)) r a c \<and>
     target_row \<lparr>jr_remote = r, jr_account = a, jr_canonical = c\<rparr> = Inr g \<and>
     mu_target_fingerprint m = fingerprint H g \<and> mu_remote_message_id m = rm_id r \<and>
     mu_canonical_message_id m = cm_id c"
proof -
  note frame = evaluate_all_frame [OF ev]
  from rows_still_current_mem [OF chk m(1)] obtain t q where
    tgt: "planned_target (w_db w1) (mu_id m) = Inr t"
    and q: "report_for fresh (mu_remote_message_id m) = Some q"
    and cur: "current_identity H (w_db w1) t (mu_target_fingerprint m) (Some q) = Inr True" by blast
  from current_identity_True [OF cur] obtain j g where el: "rq_eligible q"
    and j: "j \<in> set (joined_rows (w_db w1))" "rm_id (jr_remote j) = tg_remote_message_id (base t)"
      "cm_id (jr_canonical j) = tg_canonical_message_id (base t)"
      "rq_remote_message_id q = tg_remote_message_id (base t)"
    and g: "target_row j = Inr g" "fingerprint H g = mu_target_fingerprint m" .
  have keys1: "unique_keys (w_db w1)" by (rule unique_keys_evaluate_all [OF ev keys])
  have m1: "m \<in> set (remote_mutations (w_db w1))" using m(2) frame(3) by simp
  have ids: "tg_remote_message_id (base t) = mu_remote_message_id m"
    "tg_canonical_message_id (base t) = mu_canonical_message_id m"
    by (rule planned_target_rid [OF tgt m1 keys1], rule planned_target_cid [OF tgt m1 keys1])
  have j0: "j \<in> set (joined_rows (w_db w0))" using j(1) joined_rows_cong [OF frame(1)] by simp
  from report_for_mem [OF q] have "q \<in> set fresh" by simp
  from eligible_joined_row [OF ev keys this el j0] j(2,4) obtain i where
    "i = h_clock H (w_tick w0)"
    "deletion_safe_row H cfg (w_fs w0) (w_db w0) i (jr_remote j) (jr_account j) (jr_canonical j)"
    by (metis option.distinct(1))
  moreover have "\<lparr>jr_remote = jr_remote j, jr_account = jr_account j, jr_canonical = jr_canonical j\<rparr> = j"
    by simp
  ultimately show ?thesis using g j(2,3) ids by metis
qed

lemma clone_rows_spec:
  assumes "clone_rows fresh run created ms t = Inr t'"
  shows "\<exists>new. t' = t @ new \<and> list_all2 (\<lambda>m x. \<exists>i q. report_for fresh (mu_remote_message_id m) = Some q \<and>
      x = production_row i run (rq_deletion_evaluation_id q) created m \<and> mutation_check x) ms new"
  using assms
proof (induction ms arbitrary: t)
  case Nil
  then show ?case by simp
next
  case (Cons m ms)
  then obtain q where q: "report_for fresh (mu_remote_message_id m) = Some q"
    by (auto split: option.splits)
  let ?row = "production_row (next_rowid (map mu_id t)) run (rq_deletion_evaluation_id q) created m"
  from Cons.prems q have ok: "insertable ?row t" "clone_rows fresh run created ms (t @ [?row]) = Inr t'"
    by (auto simp: Let_def split: if_splits)
  from Cons.IH [OF ok(2)] obtain new where "t' = (t @ [?row]) @ new"
    "list_all2 (\<lambda>m x. \<exists>i q. report_for fresh (mu_remote_message_id m) = Some q \<and>
      x = production_row i run (rq_deletion_evaluation_id q) created m \<and> mutation_check x) ms new" by blast
  with ok(1) q show ?case by (intro exI [of _ "?row # new"]) (auto simp: insertable_def)
qed

lemma clone_rows_distinct:
  "clone_rows fresh run created ms t = Inr t' \<Longrightarrow> distinct (map mu_id t) \<Longrightarrow> distinct (map mu_id t')"
proof (induction ms arbitrary: t)
  case Nil
  then show ?case by simp
next
  case (Cons m ms)
  then show ?case
    by (auto simp: Let_def production_row_def split: option.splits if_splits
        dest!: Cons.IH simp del: set_map)
qed

lemma create_production_run_Inr:
  assumes "create_production_run H name s rows fresh w = (Inr run, w')" and "unique_keys (w_db w)"
  obtains new created where
    "remote_mutation_runs (w_db w') = remote_mutation_runs (w_db w) @
       [production_run_row run created name s (int (length rows))]"
    "run \<notin> mr_id ` set (remote_mutation_runs (w_db w))"
    "remote_mutations (w_db w') = remote_mutations (w_db w) @ new"
    "list_all2 (\<lambda>m x. \<exists>i q. report_for fresh (mu_remote_message_id m) = Some q \<and>
      x = production_row i run (rq_deletion_evaluation_id q) created m \<and> mutation_check x) rows new"
    "unique_keys (w_db w')" "same_mail (w_db w') (w_db w)" "w_net w' = w_net w" "w_fs w' = w_fs w"
proof -
  let ?run = "next_rowid (map mr_id (remote_mutation_runs (w_db w)))"
  let ?row = "production_run_row ?run (reading H w 0) name s (int (length rows))"
  from assms(1) obtain t where run: "run = ?run"
    and t: "clone_rows fresh ?run (reading H w 0) rows (remote_mutations (w_db w)) = Inr t"
    and w': "w' = commit (mutation_audit (reading H w 1) ''remote_delete.production.started''
        ''started'' None (json_sorted [(''source_plan_run_id'', JInt (mr_id s)),
          (''selected'', JInt (int (length rows)))])
        ((w_db w)\<lparr>remote_mutation_runs := remote_mutation_runs (w_db w) @ [?row],
                   remote_mutations := t\<rparr>)) 2 w"
    by (auto simp: create_production_run_def Let_def split: if_split_asm sum.split_asm)
  from clone_rows_spec [OF t] obtain new where new: "t = remote_mutations (w_db w) @ new"
    "list_all2 (\<lambda>m x. \<exists>i q. report_for fresh (mu_remote_message_id m) = Some q \<and>
      x = production_row i run (rq_deletion_evaluation_id q) (reading H w 0) m \<and> mutation_check x) rows new"
    unfolding run by blast
  have fresh_run: "?run \<notin> mr_id ` set (remote_mutation_runs (w_db w))"
    using next_rowid_fresh [of "map mr_id (remote_mutation_runs (w_db w))"] unfolding set_map .
  have ids: "distinct (map mu_id t)"
    using clone_rows_distinct [OF t] assms(2) by (simp add: unique_keys_def)
  have row_id: "mr_id ?row = ?run" by (simp add: production_run_row_def)
  have "unique_keys (w_db w')"
    using assms(2) ids fresh_run row_id unfolding w' world_simps unique_keys_mutation_audit
    by (simp add: unique_keys_def)
  moreover have "same_mail (w_db w') (w_db w)"
    unfolding w' world_simps mutation_audit_frame by (simp add: same_mail_def)
  ultimately show thesis
    using w' run new fresh_run by (intro that [of "reading H w 0" new]) simp_all
qed

text \<open>What a granted authorization established and created.\<close>

lemma authorize_plan_Inr:
  assumes "authorize_plan H cfg source_id name factory w = (Inr (A, run), w')"
    and keys: "unique_keys (w_db w)"
  obtains s fresh new created where
    "plan_authorised H cfg (w_fs w) (w_db w) (w_tick w) source_id name"
    "\<exists>x. factory x cfg name = Inr A" "mr_id s = source_id"
    "remote_mutation_runs (w_db w') = remote_mutation_runs (w_db w) @
       [production_run_row run created name s (int (length (rows_of_run source_id (w_db w))))]"
    "run \<notin> mr_id ` set (remote_mutation_runs (w_db w))"
    "remote_mutations (w_db w') = remote_mutations (w_db w) @ new"
    "list_all2 (\<lambda>m x. \<exists>i q. report_for fresh (mu_remote_message_id m) = Some q \<and>
      x = production_row i run (rq_deletion_evaluation_id q) created m \<and> mutation_check x)
      (rows_of_run source_id (w_db w)) new"
    "unique_keys (w_db w')" "same_mail (w_db w') (w_db w)" "w_net w' = w_net w" "w_fs w' = w_fs w"
proof -
  let ?w0 = "tick 1 w"
  from assms(1) obtain s rows fresh w1 where en: "deletion_enabled cfg name"
    and s: "source_plan H cfg (w_db w) (h_clock H (w_tick w)) source_id name = Inr s"
    and rows: "source_rows (w_db w) s name = Inr rows"
    and ev: "evaluate_all H cfg None (Some name) ?w0 = (Inr fresh, w1)"
    and cur: "rows_still_current H (w_db w1) fresh rows = Inr ()"
    and fac: "factory w1 cfg name = Inr A"
    and cr: "create_production_run H name s rows fresh w1 = (Inr run, w')"
    by (auto simp: authorize_plan_def Let_def split: if_split_asm sum.split_asm prod.split_asm)
  from source_plan_Inr [OF s] obtain t where S: "s \<in> set (remote_mutation_runs (w_db w))"
    "mr_id s = source_id" "mr_mode s = DryRunMode" "mr_status s = RunCompleted"
    "mr_account_filter s = Some name" "1 \<le> mr_selected_count s"
    "\<forall>r \<in> set (remote_mutation_runs (w_db w)). mr_mode r = ProductionExecute \<longrightarrow>
      mr_source_plan_run_id r \<noteq> Some source_id"
    "h_fromisoformat H (mr_requested_at s) = Some (Aware t)" "t \<le> h_clock H (w_tick w)"
    "h_clock H (w_tick w) \<le> t + PLAN_TTL"
    "mr_selected_count s \<le> rd_max_per_run (cf_remote_deletion cfg)"
    "mr_selected_count s \<le> rd_max_per_account (cf_remote_deletion cfg)" .
  from source_rows_Inr [OF rows] S(2) obtain a where R: "rows = rows_of_run source_id (w_db w)"
    "int (length rows) = mr_selected_count s" "a \<in> set (accounts (w_db w))" "ar_name a = name"
    "\<not> unresolved_target (w_db w) (map mu_remote_message_id rows)"
    "\<forall>m \<in> set rows. mu_status m = DryRun \<and> mu_dry_run m \<and> mu_account_id m = ar_id a"
    by metis
  have keys0: "unique_keys (w_db ?w0)" using keys by simp
  have safe: "\<exists>r a' c g. deletion_safe_row H cfg (w_fs w) (w_db w) (h_clock H (Suc (w_tick w))) r a' c \<and>
      target_row \<lparr>jr_remote = r, jr_account = a', jr_canonical = c\<rparr> = Inr g \<and>
      mu_target_fingerprint m = fingerprint H g \<and> mu_remote_message_id m = rm_id r \<and>
      mu_canonical_message_id m = cm_id c" if "m \<in> set rows" for m
    using current_row_safe [OF ev keys0 cur that] that unfolding R(1) set_rows_of_run
    by (simp add: run_rows_def)
  from en have opted: "\<exists>c. config_account cfg name = Some c \<and> ac_enabled c \<and> ac_remote_deletion_enabled c"
    by (auto simp: deletion_enabled_def split: option.split_asm)
  have auth: "plan_authorised H cfg (w_fs w) (w_db w) (w_tick w) source_id name"
    unfolding plan_authorised_def
  proof (intro conjI bexI [OF _ S(1)] exI [of _ t] exI [of _ a])
    show "\<forall>m \<in> set (rows_of_run source_id (w_db w)).
       mu_status m = DryRun \<and> mu_dry_run m \<and> mu_account_id m = ar_id a \<and>
       (\<exists>r a' c g. deletion_safe_row H cfg (w_fs w) (w_db w) (h_clock H (Suc (w_tick w))) r a' c \<and>
          target_row \<lparr>jr_remote = r, jr_account = a', jr_canonical = c\<rparr> = Inr g \<and>
          mu_target_fingerprint m = fingerprint H g \<and> mu_remote_message_id m = rm_id r \<and>
          mu_canonical_message_id m = cm_id c)"
      using R(6) safe unfolding R(1) by blast
  qed (use opted S R in \<open>simp_all\<close>)
  note frame = evaluate_all_frame [OF ev]
  have keys1: "unique_keys (w_db w1)" by (rule unique_keys_evaluate_all [OF ev keys0])
  show thesis
  proof (rule create_production_run_Inr [OF cr keys1], goal_cases)
    case (1 new created)
    show thesis
      by (rule that [OF auth exI [where x = w1 and P = "\<lambda>x. factory x cfg name = Inr A", OF fac] S(2), of created new fresh])
         (use 1 frame R(1) in \<open>simp_all add: same_mail_def\<close>)
  qed
qed

text \<open>Nothing but evaluation history, audit events and clock readings.\<close>

definition local_only :: "'p world \<Rightarrow> 'p world \<Rightarrow> bool" where
  "local_only w w' \<longleftrightarrow>
     remote_mutation_runs (w_db w') = remote_mutation_runs (w_db w) \<and>
     remote_mutations (w_db w') = remote_mutations (w_db w) \<and> same_mail (w_db w') (w_db w) \<and>
     w_net w' = w_net w \<and> w_fs w' = w_fs w"

lemma local_only_tick [simp]:
  "local_only (tick n w) w' = local_only w w'" "local_only w (tick n w)" "local_only w w"
  by (simp_all add: local_only_def)

lemma local_only_trans: "local_only a b \<Longrightarrow> local_only b c \<Longrightarrow> local_only a c"
  by (auto simp: local_only_def intro: same_mail_trans)

lemma local_only_evaluate: "evaluate_all H cfg now account w = (r, w') \<Longrightarrow> local_only w w'"
  using evaluate_all_frame [of H cfg now account w r w'] by (simp add: local_only_def)

lemma local_only_create: "create_production_run H name s rows fresh w = (Inl e, w') \<Longrightarrow> local_only w w'"
  by (auto simp: create_production_run_def Let_def split: if_split_asm sum.split_asm)

lemma authorize_plan_Inl:
  assumes "authorize_plan H cfg source_id name factory w = (Inl e, w')"
  shows "local_only w w'"
  using assms
  by (auto simp: authorize_plan_def Let_def dest!: local_only_evaluate local_only_create
      intro: local_only_trans split: if_split_asm sum.split_asm prod.split_asm)

section \<open>Properties of production execution\<close>

text \<open>The foreign key of a mutation row to its run.\<close>

definition runs_exist :: "db \<Rightarrow> bool" where
  "runs_exist d \<longleftrightarrow> (\<forall>m \<in> set (remote_mutations d). mu_run_id m \<in> mr_id ` set (remote_mutation_runs d))"

lemma production_row_simps [simp]:
  "mu_run_id (production_row i run e n m) = run" "mu_status (production_row i run e n m) = Planned"
  "mu_target_fingerprint (production_row i run e n m) = mu_target_fingerprint m"
  "mu_source_plan_mutation_id (production_row i run e n m) = Some (mu_id m)"
  "mu_remote_message_id (production_row i run e n m) = mu_remote_message_id m"
  by (simp_all add: production_row_def)

lemma clone_rows_columns:
  assumes "list_all2 (\<lambda>m x. \<exists>i q. report_for fresh (mu_remote_message_id m) = Some q \<and>
      x = production_row i run (rq_deletion_evaluation_id q) created m \<and> mutation_check x) rows new"
  shows "\<forall>x \<in> set new. mu_run_id x = run \<and> mu_status x = Planned"
    and "map (\<lambda>m. (mu_source_plan_mutation_id m, mu_target_fingerprint m)) new =
      map (\<lambda>m. (Some (mu_id m), mu_target_fingerprint m)) rows"
  using assms by (induction rule: list_all2_induct) auto

text \<open>The new run starts with its rows planned, and nothing else in it.\<close>

lemma authorized_run_rows:
  assumes "runs_exist d" "run \<notin> mr_id ` set (remote_mutation_runs d)"
    and "remote_mutations d' = remote_mutations d @ new"
    and "\<forall>x \<in> set new. mu_run_id x = run \<and> mu_status x = Planned"
  shows "filter (\<lambda>m. mu_run_id m = run) (remote_mutations d') = new" and "done_prefix run d'"
proof -
  from assms(1,2) have old: "filter (\<lambda>m. mu_run_id m = run) (remote_mutations d) = []"
    by (auto simp: runs_exist_def filter_empty_conv)
  with assms(3,4) show f: "filter (\<lambda>m. mu_run_id m = run) (remote_mutations d') = new"
    by simp
  have "run_rows run d' = set (filter (\<lambda>m. mu_run_id m = run) (remote_mutations d'))"
    by (auto simp: run_rows_def)
  with f assms(4) show "done_prefix run d'" by (simp add: done_prefix_def)
qed

lemma static_filter:
  "map static_columns t = map static_columns u \<Longrightarrow>
     map (\<lambda>m. (mu_source_plan_mutation_id m, mu_target_fingerprint m)) (filter (\<lambda>m. mu_run_id m = run) t) =
     map (\<lambda>m. (mu_source_plan_mutation_id m, mu_target_fingerprint m)) (filter (\<lambda>m. mu_run_id m = run) u)"
proof (induction t arbitrary: u)
  case Nil
  then show ?case by simp
next
  case (Cons m t)
  then obtain n v where u: "u = n # v" "static_columns m = static_columns n"
    "map static_columns t = map static_columns v" by (cases u) auto
  have "mu_run_id m = mu_run_id n" "mu_source_plan_mutation_id m = mu_source_plan_mutation_id n"
    "mu_target_fingerprint m = mu_target_fingerprint n"
    using arg_cong [OF u(2), of mu_run_id] arg_cong [OF u(2), of mu_source_plan_mutation_id]
      arg_cong [OF u(2), of mu_target_fingerprint] by (simp_all add: static_columns_def)
  with Cons.IH [OF u(3)] u(1) show ?case by simp
qed

lemma execution_refused:
  assumes "execute_production_plan H cfg source_id name factory w = (res, w')"
    and "unique_keys (w_db w)"
    and "\<not> plan_authorised H cfg (w_fs w) (w_db w) (w_tick w) source_id name"
  shows "\<exists>e. res = Inl e \<and> local_only w w'"
proof (cases "authorize_plan H cfg source_id name factory w")
  case (Pair r w1)
  show ?thesis
  proof (cases r)
    case (Inl e)
    with Pair assms(1) have "res = Inl e" "w' = w1" by (simp_all add: execute_production_plan_def)
    with Pair Inl authorize_plan_Inl show ?thesis by blast
  next
    case (Inr p)
    then obtain A run where "authorize_plan H cfg source_id name factory w = (Inr (A, run), w1)"
      using Pair by (cases p) simp
    from authorize_plan_Inr [OF this assms(2)] assms(3) show ?thesis by blast
  qed
qed

lemma execution_spec:
  assumes "execute_production_plan H cfg source_id name factory w = (Inr run, w')"
    and "unique_keys (w_db w)" and "runs_exist (w_db w)"
  shows "plan_authorised H cfg (w_fs w) (w_db w) (w_tick w) source_id name \<and>
    run \<notin> mr_id ` set (remote_mutation_runs (w_db w)) \<and>
    (\<exists>r \<in> set (remote_mutation_runs (w_db w')). mr_id r = run \<and> mr_mode r = ProductionExecute \<and>
       mr_source_plan_run_id r = Some source_id) \<and>
    map (\<lambda>m. (mu_source_plan_mutation_id m, mu_target_fingerprint m))
      (filter (\<lambda>m. mu_run_id m = run) (remote_mutations (w_db w'))) =
      map (\<lambda>m. (Some (mu_id m), mu_target_fingerprint m)) (rows_of_run source_id (w_db w)) \<and>
    (((\<forall>m \<in> run_rows run (w_db w'). mu_status m = Succeeded) \<and> run_has_status run RunCompleted (w_db w')) \<or>
     (halted_at run (w_db w') \<and> run_has_status run RunHalted (w_db w'))) \<and>
    filter (\<lambda>m. mu_run_id m \<noteq> run) (remote_mutations (w_db w')) = remote_mutations (w_db w) \<and>
    filter (\<lambda>r. mr_id r \<noteq> run) (remote_mutation_runs (w_db w')) = remote_mutation_runs (w_db w)"
proof -
  from assms(1) obtain A w1 u where auth: "authorize_plan H cfg source_id name factory w = (Inr (A, run), w1)"
    and ser: "execute_serial H cfg run A w1 = (Inr u, w')"
    by (auto simp: execute_production_plan_def split: prod.split_asm sum.split_asm)
  show ?thesis
  proof (rule authorize_plan_Inr [OF auth assms(2)], goal_cases)
    case (1 s fresh new created)
    note cols = clone_rows_columns [OF 1(7)]
    note start = authorized_run_rows [OF assms(3) 1(5,6) cols(1)]
    have one: "only_run run (w_db w1) (w_db w')"
      using execute_serial_only_run [OF ser 1(8)] by blast
    have runs: "run_has_status run RunCompleted (w_db w') \<and> (\<forall>m \<in> run_rows run (w_db w'). mu_status m = Succeeded) \<or>
        halted_at run (w_db w') \<and> run_has_status run RunHalted (w_db w')"
      using production_halts [OF ser 1(8) start(2)] by auto
    let ?row = "production_run_row run created name s (int (length (rows_of_run source_id (w_db w))))"
    have "static_run ?row \<in> static_run ` set (remote_mutation_runs (w_db w'))"
      using one 1(4) by (simp add: only_run_def flip: set_map)
    then obtain r where r: "r \<in> set (remote_mutation_runs (w_db w'))" "static_run r = static_run ?row"
      by auto
    have "mr_id r = run" "mr_mode r = ProductionExecute" "mr_source_plan_run_id r = Some source_id"
      using arg_cong [OF r(2), of mr_id] arg_cong [OF r(2), of mr_mode]
        arg_cong [OF r(2), of mr_source_plan_run_id] 1(3)
      by (simp_all add: static_run_def production_run_row_def)
    moreover have "map (\<lambda>m. (mu_source_plan_mutation_id m, mu_target_fingerprint m))
      (filter (\<lambda>m. mu_run_id m = run) (remote_mutations (w_db w'))) =
      map (\<lambda>m. (Some (mu_id m), mu_target_fingerprint m)) (rows_of_run source_id (w_db w))"
      using static_filter [of "remote_mutations (w_db w')" "remote_mutations (w_db w1)" run] one
        start(1) cols(2) by (simp add: only_run_def)
    moreover have "filter (\<lambda>m. mu_run_id m \<noteq> run) (remote_mutations (w_db w1)) = remote_mutations (w_db w)"
      using assms(3) 1(5,6) cols(1) by (auto simp: runs_exist_def filter_id_conv filter_empty_conv)
    moreover have "filter (\<lambda>r. mr_id r \<noteq> run) (remote_mutation_runs (w_db w1)) = remote_mutation_runs (w_db w)"
      using 1(4,5) by (auto simp: production_run_row_def filter_id_conv)
    ultimately show ?case
      using 1(1,5) r(1) runs one by (auto simp: only_run_def)
  qed
qed

lemma unique_keys_execute:
  assumes "execute_production_plan H cfg source_id name factory w = (Inr run, w')" "unique_keys (w_db w)"
  shows "unique_keys (w_db w')"
proof -
  from assms(1) obtain A w1 u where auth: "authorize_plan H cfg source_id name factory w = (Inr (A, run), w1)"
    and ser: "execute_serial H cfg run A w1 = (Inr u, w')"
    by (auto simp: execute_production_plan_def split: prod.split_asm sum.split_asm)
  have "unique_keys (w_db w1)" by (rule authorize_plan_Inr [OF auth assms(2)]) simp
  from execute_serial_only_run [OF ser this] show ?thesis by simp
qed

text \<open>
  C12.  Fail closed: unless every link of the authorization chain holds (opt-in, a completed,
  unexecuted, account-limited dry-run plan of at most an hour whose rows are all intact, within the
  limits, unresolved nowhere, and safe with an unchanged fingerprint in a fresh evaluation),
  \<open>execute_production_plan\<close> raises and creates no run, no mutation, and no provider effect.
\<close>

theorem execution_requires_authorization:
  assumes "execute_production_plan H cfg source_id name factory w = (res, w')"
    and "unique_keys (w_db w)"
    and "\<not> plan_authorised H cfg (w_fs w) (w_db w) (w_tick w) source_id name"
  shows "\<exists>e. res = Inl e \<and> local_only w w'"
  using execution_refused [OF assms] .

text \<open>
  C13.  What a production execution that returns has done: the plan was authorised, its rows were
  cloned with their fingerprints into one new production run recorded against that plan, and that
  run is either completed with every row succeeded or halted at its first row that was not; no
  other run, and no row of another run, changed.
\<close>

theorem execution_outcome:
  assumes "execute_production_plan H cfg source_id name factory w = (Inr run, w')"
    and "unique_keys (w_db w)" and "runs_exist (w_db w)"
  shows "plan_authorised H cfg (w_fs w) (w_db w) (w_tick w) source_id name \<and>
    run \<notin> mr_id ` set (remote_mutation_runs (w_db w)) \<and>
    (\<exists>r \<in> set (remote_mutation_runs (w_db w')). mr_id r = run \<and> mr_mode r = ProductionExecute \<and>
       mr_source_plan_run_id r = Some source_id) \<and>
    map (\<lambda>m. (mu_source_plan_mutation_id m, mu_target_fingerprint m))
      (filter (\<lambda>m. mu_run_id m = run) (remote_mutations (w_db w'))) =
      map (\<lambda>m. (Some (mu_id m), mu_target_fingerprint m)) (rows_of_run source_id (w_db w)) \<and>
    (((\<forall>m \<in> run_rows run (w_db w'). mu_status m = Succeeded) \<and> run_has_status run RunCompleted (w_db w')) \<or>
     (halted_at run (w_db w') \<and> run_has_status run RunHalted (w_db w'))) \<and>
    filter (\<lambda>m. mu_run_id m \<noteq> run) (remote_mutations (w_db w')) = remote_mutations (w_db w) \<and>
    filter (\<lambda>r. mr_id r \<noteq> run) (remote_mutation_runs (w_db w')) = remote_mutation_runs (w_db w)"
  using execution_spec [OF assms] .


end
