(* ===== verification/MutationReconcile.thy ===== *)
theory MutationReconcile
  imports MutationProduction
begin

text \<open>
  Read-only reconciliation of a halted production run, the status report, and the crash between a
  committed \<open>started\<close> row and its outcome.  The lemmas show that reconciliation never resumes a run,
  settles a row only on a closed observation of the historical target, applies the proof to the
  current mail row only where its identity is still that target, and cannot reach the rows a crash
  leaves behind.
\<close>

type_synonym 'p observer_factory = "'p world \<Rightarrow> app_config \<Rightarrow> string \<Rightarrow> 'p observer result"

text \<open>\<open>_update_current_presence_if_historical_identity_matches\<close>: the \<open>WHERE\<close> clause.\<close>

definition same_remote_identity :: "target \<Rightarrow> remote_row \<Rightarrow> bool" where
  "same_remote_identity t r \<longleftrightarrow>
     rm_id r = tg_remote_message_id (base t) \<and> rm_account_id r = tg_account_id (base t) \<and>
     (case t of
        ImapDeletionTarget b f v u \<Rightarrow>
          rm_provider_kind r = Imap \<and> rm_remote_folder r = Some f \<and> rm_uidvalidity r = Some v \<and>
          rm_remote_uid r = Some u
      | ProviderDeletionTarget b p \<Rightarrow>
          rm_provider_kind r = tg_provider_kind b \<and> rm_provider_message_id r = Some p)"

definition update_presence :: "target \<Rightarrow> bool \<Rightarrow> db \<Rightarrow> db" where
  "update_presence t v d = set_present (same_remote_identity t) v d"

record reconcile_counts =
  rr_observed :: int
  rr_absent :: int
  rr_present :: int
  rr_unresolved :: int

definition mark_reconciled ::
  "string \<Rightarrow> mutation_status \<Rightarrow> string \<Rightarrow> string \<Rightarrow> mutation_row \<Rightarrow> mutation_row" where
  "mark_reconciled now st sm code m =
     m\<lparr>mu_status := st, mu_completed_at := Some now, mu_reconciled_at := Some now,
       mu_provider_response_summary := Some sm, mu_error_code := Some code\<rparr>"

definition mark_uncertain :: "string \<Rightarrow> mutation_row \<Rightarrow> mutation_row" where
  "mark_uncertain now m =
     m\<lparr>mu_status := Unknown, mu_completed_at := Some now,
       mu_provider_response_summary := Some ''outcome-uncertain'', mu_error_code := Some ''TRANSPORT_UNKNOWN''\<rparr>"

definition reconcile_details :: "int \<Rightarrow> int \<Rightarrow> target \<Rightarrow> (string \<times> json) list" where
  "reconcile_details run ident t =
     [(''run_id'', JInt run), (''mutation_id'', JInt ident),
      (''account_id'', JInt (tg_account_id (base t))),
      (''provider_kind'', JStr (provider_text (tg_provider_kind (base t))))]"

text \<open>The observation: constructing the observer or asking it may raise; an unknown state is unknown.\<close>

definition observe_state ::
  "app_config \<Rightarrow> 'p observer_factory \<Rightarrow> target \<Rightarrow> 'p world \<Rightarrow> string \<times> 'p" where
  "observe_state cfg factory t w =
     (case factory w cfg (tg_account_name (base t)) of
        Inl e \<Rightarrow> (''unknown'', w_net w)
      | Inr observer \<Rightarrow>
          (case observer w t of
             (None, p) \<Rightarrow> (''unknown'', p)
           | (Some s, p) \<Rightarrow> (if s \<in> set OBSERVATION_STATES then s else ''unknown'', p)))"

text \<open>What a state does to the mutation it was observed for.\<close>

definition settle :: "string \<Rightarrow> mutation_status \<Rightarrow> string \<Rightarrow> mutation_row \<Rightarrow> mutation_row" where
  "settle state before now m =
     (if state = ''confirmed-absent'' then mark_reconciled now Succeeded ''confirmed-absent'' ''NONE'' m
      else if state = ''confirmed-present-match''
      then mark_reconciled now Failed ''confirmed-no-mutation'' ''RECONCILED_PRESENT'' m
      else if before = Started then mark_uncertain now m else m)"

definition reconcile_event :: "string \<Rightarrow> string \<times> string" where
  "reconcile_event state =
     (if state = ''confirmed-absent'' then (''remote_mutation.reconcile.absent'', ''success'')
      else if state = ''confirmed-present-match'' then (''remote_mutation.reconcile.present'', ''failed'')
      else (''remote_mutation.reconcile.unknown'', ''unknown''))"

definition apply_proof :: "string \<Rightarrow> target \<Rightarrow> db \<Rightarrow> db" where
  "apply_proof state t d =
     (if state = ''confirmed-absent'' then update_presence t False d
      else if state = ''confirmed-present-match'' then update_presence t True d else d)"

definition resolve_db ::
  "host \<Rightarrow> int \<Rightarrow> int \<Rightarrow> target \<Rightarrow> mutation_status \<Rightarrow> string \<Rightarrow> 'p world \<Rightarrow> db" where
  "resolve_db H run ident t before state w =
     mutation_audit (reading H w 1) (fst (reconcile_event state)) (snd (reconcile_event state)) None
       (json_sorted (reconcile_details run ident t @ [(''state'', JStr state)]))
       (apply_proof state t (set_mutation ident (settle state before (reading H w 0)) (w_db w)))"

definition count_state :: "string \<Rightarrow> reconcile_counts \<Rightarrow> reconcile_counts" where
  "count_state state c =
     (let c1 = c\<lparr>rr_observed := rr_observed c + 1\<rparr> in
      if state = ''confirmed-absent'' then c1\<lparr>rr_absent := rr_absent c1 + 1\<rparr>
      else if state = ''confirmed-present-match'' then c1\<lparr>rr_present := rr_present c1 + 1\<rparr>
      else c1\<lparr>rr_unresolved := rr_unresolved c1 + 1\<rparr>)"

text \<open>One row: the audit event is committed before the observation, the resolution after it.\<close>

definition reconcile_row ::
  "host \<Rightarrow> app_config \<Rightarrow> 'p observer_factory \<Rightarrow> int \<Rightarrow> int \<Rightarrow> 'p world \<Rightarrow> string result \<times> 'p world" where
  "reconcile_row H cfg factory run ident w =
     (case historical_target (w_db w) ident of
        Inl e \<Rightarrow> (Inl e, w)
      | Inr t \<Rightarrow>
          let before = (case mutation_by_id (w_db w) ident of None \<Rightarrow> Unknown | Some m \<Rightarrow> mu_status m);
              w1 = commit (mutation_audit (reading H w 0) ''remote_mutation.reconcile.started'' ''started''
                None (json_sorted (reconcile_details run ident t)) (w_db w)) 1 w
          in case observe_state cfg factory t w1 of
               (state, p) \<Rightarrow>
                 (Inr state, (commit (resolve_db H run ident t before state w1) 2 w1)\<lparr>w_net := p\<rparr>))"

fun reconcile_rows ::
  "host \<Rightarrow> app_config \<Rightarrow> 'p observer_factory \<Rightarrow> int \<Rightarrow> int list \<Rightarrow> reconcile_counts \<Rightarrow> 'p world \<Rightarrow>
     reconcile_counts result \<times> 'p world" where
  "reconcile_rows H cfg factory run [] c w = (Inr c, w)"
| "reconcile_rows H cfg factory run (i # is) c w =
     (case reconcile_row H cfg factory run i w of
        (Inl e, w1) \<Rightarrow> (Inl e, w1)
      | (Inr state, w1) \<Rightarrow> reconcile_rows H cfg factory run is (count_state state c) w1)"

definition open_rows :: "int \<Rightarrow> db \<Rightarrow> int list" where
  "open_rows run d =
     map mu_id (sort_key mu_id
       (filter (\<lambda>m. mu_run_id m = run \<and> mu_status m \<in> {Started, Unknown}) (remote_mutations d)))"

definition no_counts :: reconcile_counts where
  "no_counts = \<lparr>rr_observed = 0, rr_absent = 0, rr_present = 0, rr_unresolved = 0\<rparr>"

definition reconcile_production_run ::
  "host \<Rightarrow> app_config \<Rightarrow> int \<Rightarrow> 'p observer_factory \<Rightarrow> 'p world \<Rightarrow> reconcile_counts result \<times> 'p world" where
  "reconcile_production_run H cfg run factory w =
     (case find (\<lambda>r. mr_id r = run) (remote_mutation_runs (w_db w)) of
        None \<Rightarrow> (Inl (ReconciliationError ''run is not a halted production execution''), w)
      | Some r \<Rightarrow>
          if mr_mode r \<noteq> ProductionExecute \<or> mr_status r \<noteq> RunHalted
          then (Inl (ReconciliationError ''run is not a halted production execution''), w)
          else reconcile_rows H cfg factory run (open_rows run (w_db w)) no_counts w)"

section \<open>The status report\<close>

record status_report =
  sr_run :: mutation_run_row
  sr_counts :: "mutation_status \<Rightarrow> nat"
  sr_reconciliation_required :: bool
  sr_mutations :: "mutation_row list"

definition STATUS_RUN_LIMIT :: nat where
  "STATUS_RUN_LIMIT = 100"

definition status_of_run :: "db \<Rightarrow> mutation_run_row \<Rightarrow> status_report" where
  "status_of_run d r =
     (let ms = rows_of_run (mr_id r) d;
          counts = (\<lambda>st. length (filter (\<lambda>m. mu_status m = st) ms))
      in \<lparr>sr_run = r, sr_counts = counts,
          sr_reconciliation_required =
            (mr_mode r = ProductionExecute \<and> (counts Started > 0 \<or> counts Unknown > 0)),
          sr_mutations = ms\<rparr>)"

definition remote_mutation_status ::
  "app_config \<Rightarrow> bool \<Rightarrow> int option \<Rightarrow> string option \<Rightarrow> db \<Rightarrow> status_report list result" where
  "remote_mutation_status cfg db_exists run name d =
     (if name \<noteq> None \<and> config_account cfg (the name) = None
      then Inl (ReconciliationError ''status account is not configured'')
      else if \<not> db_exists
      then (if run \<noteq> None then Inl (ReconciliationError ''remote mutation run does not exist'') else Inr [])
      else
        let matching = filter (\<lambda>r. (run = None \<or> run = Some (mr_id r)) \<and>
              (name = None \<or> mr_account_filter r = name)) (remote_mutation_runs d);
            ordered = rev (sort_key mr_id matching);
            rows = (if run = None then take STATUS_RUN_LIMIT ordered else ordered)
        in if run \<noteq> None \<and> rows = []
           then Inl (ReconciliationError ''remote mutation run does not exist or does not match account'')
           else Inr (map (status_of_run d) rows))"

section \<open>One reconciliation step\<close>

lemma mark_reconciled_simps [simp]:
  "mu_id (mark_reconciled n st sm c m) = mu_id m" "mu_run_id (mark_reconciled n st sm c m) = mu_run_id m"
  "mu_status (mark_reconciled n st sm c m) = st"
  "mu_target_fingerprint (mark_reconciled n st sm c m) = mu_target_fingerprint m"
  "mu_id (mark_uncertain n m) = mu_id m" "mu_run_id (mark_uncertain n m) = mu_run_id m"
  "mu_status (mark_uncertain n m) = Unknown"
  "mu_target_fingerprint (mark_uncertain n m) = mu_target_fingerprint m"
  by (simp_all add: mark_reconciled_def mark_uncertain_def)

lemma settle_simps [simp]:
  "mu_id (settle st b n m) = mu_id m" "mu_run_id (settle st b n m) = mu_run_id m"
  "mu_target_fingerprint (settle st b n m) = mu_target_fingerprint m"
  by (simp_all add: settle_def)

lemma apply_proof_tables:
  "remote_mutations (apply_proof state t d) = remote_mutations d"
  "remote_mutation_runs (apply_proof state t d) = remote_mutation_runs d"
  "remote_messages (apply_proof state t d) =
     (if state = ''confirmed-absent'' \<or> state = ''confirmed-present-match''
      then update_where (same_remote_identity t)
        (\<lambda>r. r\<lparr>rm_remote_present := (state = ''confirmed-present-match'')\<rparr>) (remote_messages d)
      else remote_messages d)"
  "unique_keys (apply_proof state t d) = unique_keys d"
  by (auto simp: apply_proof_def update_presence_def exec_keys)

lemma resolve_db_tables:
  "remote_mutations (resolve_db H run i t before state w) =
     update_where (\<lambda>m. mu_id m = i) (settle state before (reading H w 0)) (remote_mutations (w_db w))"
  "remote_mutation_runs (resolve_db H run i t before state w) = remote_mutation_runs (w_db w)"
  "remote_messages (resolve_db H run i t before state w) =
     (if state = ''confirmed-absent'' \<or> state = ''confirmed-present-match''
      then update_where (same_remote_identity t)
        (\<lambda>r. r\<lparr>rm_remote_present := (state = ''confirmed-present-match'')\<rparr>) (remote_messages (w_db w))
      else remote_messages (w_db w))"
  "unique_keys (resolve_db H run i t before state w) = unique_keys (w_db w)"
  unfolding resolve_db_def mutation_audit_frame unique_keys_mutation_audit apply_proof_tables
    set_mutation_frame
  by (simp_all add: exec_keys)

lemma reconcile_row_Inr:
  assumes "reconcile_row H cfg factory run i w = (Inr state, w')"
  obtains t before n w1 where "historical_target (w_db w) i = Inr t"
    "w_db w1 = mutation_audit (reading H w 0) ''remote_mutation.reconcile.started'' ''started''
       None (json_sorted (reconcile_details run i t)) (w_db w)"
    "observe_state cfg factory t w1 = (state, w_net w')"
    "\<And>m. mutation_by_id (w_db w) i = Some m \<Longrightarrow> before = mu_status m"
    "remote_mutations (w_db w') =
       update_where (\<lambda>m. mu_id m = i) (settle state before n) (remote_mutations (w_db w))"
    "remote_mutation_runs (w_db w') = remote_mutation_runs (w_db w)"
    "remote_messages (w_db w') =
       (if state = ''confirmed-absent'' \<or> state = ''confirmed-present-match''
        then update_where (same_remote_identity t)
          (\<lambda>r. r\<lparr>rm_remote_present := (state = ''confirmed-present-match'')\<rparr>) (remote_messages (w_db w))
        else remote_messages (w_db w))"
    "unique_keys (w_db w') = unique_keys (w_db w)"
proof -
  from assms obtain t where t: "historical_target (w_db w) i = Inr t"
    by (auto simp: reconcile_row_def split: sum.split_asm)
  define before where "before = (case mutation_by_id (w_db w) i of None \<Rightarrow> Unknown | Some m \<Rightarrow> mu_status m)"
  define w1 where "w1 = commit (mutation_audit (reading H w 0) ''remote_mutation.reconcile.started'' ''started''
      None (json_sorted (reconcile_details run i t)) (w_db w)) 1 w"
  obtain st p where ob: "observe_state cfg factory t w1 = (st, p)" by (meson surj_pair)
  have "(Inr st :: string result, (commit (resolve_db H run i t before st w1) 2 w1)\<lparr>w_net := p\<rparr>) = (Inr state, w')"
    using assms unfolding reconcile_row_def t sum.case Let_def before_def [symmetric] w1_def [symmetric]
      ob prod.case .
  then have st: "st = state" and w': "w' = (commit (resolve_db H run i t before state w1) 2 w1)\<lparr>w_net := p\<rparr>"
    by auto
  show thesis
    by (rule that [of t w1 before "reading H w1 0"])
       (use t ob st w' in \<open>simp_all add: before_def resolve_db_tables w1_def [THEN arg_cong, of w_db]\<close>)
qed

section \<open>Properties of reconciliation\<close>

text \<open>How a row may differ after a reconciliation of a run: unchanged, or one of its open rows settled.\<close>

definition reconciled_from :: "int \<Rightarrow> mutation_row \<Rightarrow> mutation_row \<Rightarrow> bool" where
  "reconciled_from run m m' \<longleftrightarrow>
     m' = m \<or>
     (mu_run_id m = run \<and> mu_status m \<in> {Started, Unknown} \<and> mu_run_id m' = run \<and>
      mu_status m' \<in> {Succeeded, Failed, Unknown} \<and> mu_id m' = mu_id m \<and>
      mu_target_fingerprint m' = mu_target_fingerprint m)"

lemma reconciled_from_refl [simp]: "reconciled_from run m m"
  by (simp add: reconciled_from_def)

lemma reconciled_from_trans: "reconciled_from run a b \<Longrightarrow> reconciled_from run b c \<Longrightarrow> reconciled_from run a c"
  by (auto simp: reconciled_from_def)

lemma settle_status:
  "mu_status m \<in> {Started, Unknown} \<Longrightarrow> before = mu_status m \<Longrightarrow>
     mu_status (settle state before n m) \<in> {Succeeded, Failed, Unknown}"
  by (auto simp: settle_def)

lemma open_update:
  assumes "\<forall>m \<in> set t. mu_id m = i \<longrightarrow> mu_run_id m = run \<and> mu_status m \<in> {Started, Unknown} \<and> before = mu_status m"
  shows "list_all2 (reconciled_from run) t (update_where (\<lambda>m. mu_id m = i) (settle state before n) t)"
  using assms
proof (induction t)
  case Nil
  then show ?case by simp
next
  case (Cons m t)
  then show ?case using settle_status [of m before state n] by (auto simp: reconciled_from_def)
qed

text \<open>The identifiers still to be visited name open rows of the run.\<close>

definition pending_open :: "int \<Rightarrow> int list \<Rightarrow> db \<Rightarrow> bool" where
  "pending_open run is d \<longleftrightarrow>
     (\<forall>m \<in> set (remote_mutations d). mu_id m \<in> set is \<longrightarrow>
        mu_run_id m = run \<and> mu_status m \<in> {Started, Unknown})"

lemma reconcile_row_run:
  assumes "reconcile_row H cfg factory run i w = (Inr state, w')" "unique_keys (w_db w)"
    and "pending_open run (i # is) (w_db w)" "i \<notin> set is"
  shows "list_all2 (reconciled_from run) (remote_mutations (w_db w)) (remote_mutations (w_db w'))"
    and "remote_mutation_runs (w_db w') = remote_mutation_runs (w_db w)"
    and "unique_keys (w_db w')" and "pending_open run is (w_db w')"
proof -
  obtain before n where b: "\<And>m. mutation_by_id (w_db w) i = Some m \<Longrightarrow> before = mu_status m"
    and muts: "remote_mutations (w_db w') =
       update_where (\<lambda>m. mu_id m = i) (settle state before n) (remote_mutations (w_db w))"
    and runs: "remote_mutation_runs (w_db w') = remote_mutation_runs (w_db w)"
    and keys: "unique_keys (w_db w') = unique_keys (w_db w)"
    by (rule reconcile_row_Inr [OF assms(1)]) blast
  have "\<forall>m \<in> set (remote_mutations (w_db w)). mu_id m = i \<longrightarrow>
      mu_run_id m = run \<and> mu_status m \<in> {Started, Unknown} \<and> before = mu_status m"
    using assms(3) b mutation_by_id_row [OF assms(2)] by (auto simp: pending_open_def)
  from open_update [OF this] muts show
    "list_all2 (reconciled_from run) (remote_mutations (w_db w)) (remote_mutations (w_db w'))" by simp
  show "remote_mutation_runs (w_db w') = remote_mutation_runs (w_db w)" by (rule runs)
  show "unique_keys (w_db w')" using keys assms(2) by simp
  show "pending_open run is (w_db w')"
    using assms(3,4) unfolding pending_open_def muts set_update_where by auto
qed

lemma reconcile_row_Inl: "reconcile_row H cfg factory run i w = (Inl e, w') \<Longrightarrow> w' = w"
  by (auto simp: reconcile_row_def Let_def split: sum.split_asm prod.split_asm)

lemma reconcile_rows_run:
  assumes "reconcile_rows H cfg factory run is c w = (res, w')" "unique_keys (w_db w)"
    and "pending_open run is (w_db w)" "distinct is"
  shows "list_all2 (reconciled_from run) (remote_mutations (w_db w)) (remote_mutations (w_db w')) \<and>
    remote_mutation_runs (w_db w') = remote_mutation_runs (w_db w) \<and>
    (case res of Inl e \<Rightarrow> True
     | Inr c' \<Rightarrow> rr_observed c' = rr_observed c + int (length is) \<and>
         rr_absent c' + rr_present c' + rr_unresolved c' - rr_observed c' =
           rr_absent c + rr_present c + rr_unresolved c - rr_observed c)"
  using assms
proof (induction "is" arbitrary: c w)
  case Nil
  then show ?case by (auto simp: list_all2_refl)
next
  case (Cons i "is")
  obtain r w1 where row: "reconcile_row H cfg factory run i w = (r, w1)" by (meson surj_pair)
  show ?case
  proof (cases r)
    case (Inl e)
    with row have "w1 = w" by (auto dest: reconcile_row_Inl)
    with Inl row Cons.prems(1) show ?thesis by (auto simp: list_all2_refl)
  next
    case (Inr state)
    with row have step: "reconcile_row H cfg factory run i w = (Inr state, w1)" by simp
    from Cons.prems(4) have i: "i \<notin> set is" "distinct is" by simp_all
    note one = reconcile_row_run [OF step Cons.prems(2,3) i(1)]
    from Cons.prems(1) step have go: "reconcile_rows H cfg factory run is (count_state state c) w1 = (res, w')"
      by simp
    note rest = Cons.IH [OF go one(3,4) i(2)]
    have cs: "rr_observed (count_state state c) = rr_observed c + 1"
      "rr_absent (count_state state c) + rr_present (count_state state c) + rr_unresolved (count_state state c) =
        rr_absent c + rr_present c + rr_unresolved c + 1"
      by (simp_all add: count_state_def Let_def)
    have "list_all2 (reconciled_from run) (remote_mutations (w_db w)) (remote_mutations (w_db w'))"
      using list_all2_trans [of "reconciled_from run" "reconciled_from run" "reconciled_from run"]
        reconciled_from_trans one(1) rest by blast
    with rest one(2) cs show ?thesis by (cases res) auto
  qed
qed

lemma pending_open_rows:
  assumes "unique_keys d"
  shows "pending_open run (open_rows run d) d" "distinct (open_rows run d)"
proof -
  have ids: "distinct (map mu_id (remote_mutations d))" using assms by (simp add: unique_keys_def)
  then show "pending_open run (open_rows run d) d"
    by (auto simp: pending_open_def open_rows_def distinct_map dest: inj_onD)
  have "distinct (map mu_id (filter (\<lambda>m. mu_run_id m = run \<and> mu_status m \<in> {Started, Unknown}) (remote_mutations d)))"
    using ids by (simp add: distinct_map_filter)
  then show "distinct (open_rows run d)"
    unfolding open_rows_def by (simp only: distinct_sort_key)
qed

text \<open>
  C15.  Reconciliation never resumes: whatever the observer answers or raises, no run changes (a
  halted run stays halted), no planned, failed or succeeded row changes, no row of another run
  changes, and an open row can only become succeeded, failed or unknown; the counts account for
  every open row exactly once.
\<close>

theorem reconcile_never_resumes:
  assumes "reconcile_production_run H cfg run factory w = (res, w')" and "unique_keys (w_db w)"
  shows "remote_mutation_runs (w_db w') = remote_mutation_runs (w_db w) \<and>
    list_all2 (reconciled_from run) (remote_mutations (w_db w)) (remote_mutations (w_db w')) \<and>
    (case res of Inl e \<Rightarrow> True
     | Inr c \<Rightarrow> rr_observed c = int (length (open_rows run (w_db w))) \<and>
         rr_absent c + rr_present c + rr_unresolved c = rr_observed c)"
proof -
  note pend = pending_open_rows [OF assms(2), of run]
  from assms(1) consider "w' = w" "\<exists>e. res = Inl e"
    | "reconcile_rows H cfg factory run (open_rows run (w_db w)) no_counts w = (res, w')"
    by (auto simp: reconcile_production_run_def split: option.split_asm if_split_asm)
  then show ?thesis
  proof cases
    case 1
    then show ?thesis by (auto simp: list_all2_refl)
  next
    case 2
    from reconcile_rows_run [OF 2 assms(2) pend] show ?thesis
      by (cases res) (auto simp: no_counts_def)
  qed
qed


section \<open>A crash after the started row\<close>

text \<open>
  C17.  The crash window.  If the process dies after \<open>_execute_serial\<close> has committed a \<open>started\<close>
  row, the run is still \<open>planned\<close>; reconciliation then refuses that run although the status report
  says it requires reconciliation, and no plan that names the message is ever authorised again.
\<close>

theorem crash_after_started_is_unreconcilable:
  assumes "r \<in> set (remote_mutation_runs (w_db w))" "mr_id r = run" "mr_mode r = ProductionExecute"
    and "mr_status r = RunPlanned" and "unique_keys (w_db w)"
    and "m \<in> set (remote_mutations (w_db w))" "mu_run_id m = run" "mu_id m = ident"
    and crashed: "w1 = start_mutation H run ident target True w"
  shows "reconcile_production_run H cfg run factory w1 =
      (Inl (ReconciliationError ''run is not a halted production execution''), w1) \<and>
    sr_reconciliation_required (status_of_run (w_db w1) r) \<and>
    (\<forall>n \<in> set (rows_of_run plan (w_db w1)). mu_remote_message_id n = mu_remote_message_id m \<longrightarrow>
       \<not> plan_authorised H cfg F (w_db w1) k plan name)"
proof -
  have runs: "remote_mutation_runs (w_db w1) = remote_mutation_runs (w_db w)"
    and muts: "remote_mutations (w_db w1) = update_where (\<lambda>m. mu_id m = ident)
      (mark_started (reading H w 0)) (remote_mutations (w_db w))"
    by (simp_all add: crashed start_mutation_def)
  have "distinct (map mr_id (remote_mutation_runs (w_db w)))" using assms(5) by (simp add: unique_keys_def)
  from find_distinct_key [OF this assms(1,2)] have
    "find (\<lambda>x. mr_id x = run) (remote_mutation_runs (w_db w1)) = Some r" using runs by simp
  then have refused: "reconcile_production_run H cfg run factory w1 =
      (Inl (ReconciliationError ''run is not a halted production execution''), w1)"
    using assms(4) by (simp add: reconcile_production_run_def)
  let ?m = "mark_started (reading H w 0) m"
  have m1: "?m \<in> set (remote_mutations (w_db w1))"
    using assms(6,8) unfolding muts set_update_where by blast
  have "?m \<in> set (filter (\<lambda>m. mu_status m = Started) (rows_of_run run (w_db w1)))"
    using m1 assms(7) by (simp add: rows_of_run_def)
  then have "0 < length (filter (\<lambda>m. mu_status m = Started) (rows_of_run run (w_db w1)))"
    by (metis length_greater_0_conv list.set(1) empty_iff)
  then have required: "sr_reconciliation_required (status_of_run (w_db w1) r)"
    using assms(2,3) by (simp add: status_of_run_def Let_def)
  have blocked: "unresolved_target (w_db w1) (map mu_remote_message_id (rows_of_run plan (w_db w1)))"
    if "n \<in> set (rows_of_run plan (w_db w1))" "mu_remote_message_id n = mu_remote_message_id m" for n
    unfolding unresolved_target_def
  proof (intro bexI [OF _ m1] bexI [of _ r] conjI)
    show "mu_remote_message_id ?m \<in> set (map mu_remote_message_id (rows_of_run plan (w_db w1)))"
      using that by (simp, metis imageI)
  qed (use assms runs in simp_all)
  show ?thesis
    using refused required blocked unfolding plan_authorised_def by blast
qed

end
