(* ===== verification/Samples.thy ===== *)
theory Samples
  imports MutationCore
begin

text \<open>
  A concrete world for the instances of the properties: a host, a configuration, and an inventory
  with one archived, backed-up IMAP message.
\<close>

definition sample_sha :: string where
  "sample_sha = replicate 64 (CHR ''a'')"

text \<open>A clock of one second per reading; the message was archived long before its start.\<close>

definition sample_host :: host where
  "sample_host = \<lparr>h_sha256 = (\<lambda>b. sample_sha), h_clock = (\<lambda>k. 1000000 * int k),
     h_isoformat = (\<lambda>t. ''now''),
     h_fromisoformat = (\<lambda>s. Some (Aware (if s = ''1'' then - 1000000000000 else 0))),
     h_resolve = (\<lambda>p. Some p), h_environ = (\<lambda>v. None)\<rparr>"

definition sample_account_config :: account_config where
  "sample_account_config = \<lparr>ac_name = ''a'', ac_kind = Imap, ac_enabled = True,
     ac_remote_retention_days = Some 1, ac_remote_deletion_enabled = True,
     ac_required_verified_backups = 1, ac_config_ref = ''r'',
     ac_imap = Some \<lparr>ic_host = ''h'', ic_port = 993, ic_username = ''u'', ic_tls_mode = IMAPS,
       ic_folders = [''F''], ic_connection_timeout_seconds = 30,
       ic_fast_path = \<lparr>fp_idle_enabled = False, fp_reconcile_interval_seconds = 60,
         fp_poll_interval_seconds = 60\<rparr>\<rparr>,
     ac_gmail = None, ac_pop3 = None\<rparr>"

definition sample_config :: app_config where
  "sample_config = \<lparr>cf_archive_root = [''r''], cf_timezone = ''UTC'', cf_database_path = [''d''],
     cf_accounts = [sample_account_config], cf_backup_repositories = [],
     cf_retention = \<lparr>rc_remote_retention_days_default = 1, rc_required_verified_backups_default = 1\<rparr>,
     cf_remote_deletion = \<lparr>rd_max_per_run = 5, rd_max_per_account = 5\<rparr>\<rparr>"

definition sample_path :: path where
  "sample_path = [''r'', ''mail'', ''m'']"

definition sample_fs :: fs where
  "sample_fs p = (if p = sample_path then Some (RegFile ''x'') else None)"

definition sample_canonical :: canonical_message where
  "sample_canonical = \<lparr>cm_id = ''c'', cm_account_id = 1, cm_sha256 = sample_sha,
     cm_local_path = sample_path, cm_size_bytes = 1, cm_message_id_header = None,
     cm_message_date = None, cm_downloaded_at = ''1'', cm_archived_at = Some ''1'',
     cm_integrity_status = ''verified'', cm_integrity_verified_at = None, cm_created_at = ''1'',
     cm_storage_state = Archived, cm_quarantined_at = None\<rparr>"

definition sample_remote :: remote_row where
  "sample_remote = \<lparr>rm_id = ''m'', rm_account_id = 1, rm_provider_kind = Imap,
     rm_remote_folder = Some ''F'', rm_uidvalidity = Some 7, rm_remote_uid = Some 8,
     rm_provider_message_id = None, rm_provider_thread_id = None, rm_message_id_header = None,
     rm_first_seen_at = ''1'', rm_last_seen_at = ''1'', rm_remote_present = True,
     rm_identity_confidence = ''proven''\<rparr>"

definition sample_db :: db where
  "sample_db = empty_db\<lparr>
     accounts := [\<lparr>ar_id = 1, ar_name = ''a'', ar_kind = Imap, ar_enabled = True,
       ar_remote_retention_days = Some 1, ar_remote_deletion_enabled = True,
       ar_required_verified_backups = 1, ar_config_ref = ''r'', ar_created_at = ''1'', ar_updated_at = ''1''\<rparr>],
     canonical_messages := [sample_canonical], remote_messages := [sample_remote],
     remote_canonical_links := [\<lparr>lk_remote_message_id = ''m'', lk_canonical_message_id = ''c'',
       lk_link_reason = ''x'', lk_created_at = ''1''\<rparr>],
     backup_repositories := [\<lparr>rp_id = 1, rp_name = ''b'', rp_repository_ref = ''x'',
       rp_repository_identity = Some ''i'', rp_enabled = True, rp_encryption_mode = Repokey,
       rp_verification_policy = ''full'', rp_created_at = ''1'', rp_updated_at = ''1''\<rparr>],
     backup_runs := [\<lparr>bk_id = ''k'', bk_repository_id = 1, bk_started_at = ''1'', bk_completed_at = Some ''1'',
       bk_status = BackupSucceeded, bk_archive_name = ''n'', bk_command_exit_code = Some 0,
       bk_manifest_sha256 = None, bk_verification_status = Verified, bk_verified_at = Some ''1'',
       bk_last_error_kind = None, bk_details_json = ''x''\<rparr>],
     message_backup_evidence := [\<lparr>be_canonical_message_id = ''c'', be_backup_run_id = ''k'',
       be_covered = True, be_verified = True, be_recorded_at = ''1''\<rparr>]\<rparr>"

definition sample_world :: "'p \<Rightarrow> 'p world" where
  "sample_world p = \<lparr>w_db = sample_db, w_fs = sample_fs, w_tick = 0, w_net = p\<rparr>"

lemma sample_keys: "unique_keys sample_db"
  by code_simp

definition sample_target :: target where
  "sample_target = ImapDeletionTarget \<lparr>tg_remote_message_id = ''m'', tg_canonical_message_id = ''c'',
     tg_account_id = 1, tg_account_name = ''a'', tg_provider_kind = Imap,
     tg_canonical_sha256 = sample_sha\<rparr> ''F'' 7 8"

end
