(* ===== verification/Witnesses.thy ===== *)
theory Witnesses
  imports MutationReconcile Samples
begin

text \<open>
  Instances of the properties of the inventory, the retention policy and the deletion pipeline on the
  sample world: for each property with hypotheses a closed instance of it.
\<close>

definition sample_evaluation :: "report list result \<times> unit world" where
  "sample_evaluation = evaluate_all sample_host sample_config None None (sample_world ())"

lemma sample_eligible:
  "(case fst sample_evaluation of Inr [rq] \<Rightarrow> rq_eligible rq | _ \<Rightarrow> False)"
  by code_simp

definition sample_plan :: "plan_result result \<times> call list world" where
  "sample_plan = plan_dry_run sample_host sample_config (Some ''a'') None (sample_world [])"

lemma sample_planned: "(case fst sample_plan of Inr res \<Rightarrow> pl_selected res = 1 | _ \<Rightarrow> False)"
  by code_simp

definition confirm_absent :: "call list world \<Rightarrow> target \<Rightarrow> mutation_result option" where
  "confirm_absent w t = Some \<lparr>ms_outcome = ''success-confirmed'', ms_confirmed_absent = True,
     ms_summary = [], ms_error_code = None\<rparr>"

definition sample_factory :: "call list adapter_factory" where
  "sample_factory w cfg name = Inr (logging confirm_absent)"

text \<open>The plan's run and row, as the tables hold them.\<close>

definition sample_plan_run :: mutation_run_row where
  "sample_plan_run = plan_run_row sample_config 1 ''now'' (Some ''a'') None 5 1 1 0"

definition sample_plan_row :: mutation_row where
  "sample_plan_row = (plan_row sample_host 1 1 1 ''now'' sample_target)\<lparr>mu_target_fingerprint := sample_sha\<rparr>"

definition planned_world :: "call list world" where
  "planned_world = (sample_world [])\<lparr>w_db := sample_db\<lparr>remote_mutation_runs := [sample_plan_run],
     remote_mutations := [sample_plan_row]\<rparr>\<rparr>"

definition sample_execution :: "int result \<times> call list world" where
  "sample_execution =
     execute_production_plan sample_host sample_config 1 ''a'' sample_factory planned_world"

lemma sample_executed:
  "(case sample_execution of (Inr run, w) \<Rightarrow> length (w_net w) = 1 | _ \<Rightarrow> False)"
  by code_simp

section \<open>Instances of the properties\<close>

theorem initialize_activates_exactly_configured_witness:
  "\<exists>w1 w2. initialize sample_host [sample_account_config] [] (sample_world ()) = (Inr (), w1) \<and>
     account_id (w_db w1) ''a'' \<noteq> None \<and>
     initialize sample_host [] [] (sample_world ()) = (Inr (), w2) \<and> account_id (w_db w2) ''a'' = None"
proof -
  have keys: "distinct (map ar_name (accounts (w_db (sample_world ()))))" by code_simp
  obtain w1 where w1: "initialize sample_host [sample_account_config] [] (sample_world ()) = (Inr (), w1)"
    by (simp add: initialize_def account_check_def sample_account_config_def Let_def)
  obtain w2 where w2: "initialize sample_host [] [] (sample_world ()) = (Inr (), w2)"
    by (simp add: initialize_def Let_def)
  have "account_id (w_db w1) ''a'' \<noteq> None"
    using initialize_activates_exactly_configured [OF w1 keys] by (simp add: sample_account_config_def)
  moreover have "account_id (w_db w2) ''a'' = None"
    using initialize_activates_exactly_configured [OF w2 keys, of "''a''"] by simp
  ultimately show ?thesis using w1 w2 by blast
qed

definition sample_facts :: retention_facts where
  "sample_facts = facts_of (hd (candidate_rows sample_db None))"



definition held_world :: "unit world" where
  "held_world = snd (set_control sample_host ''c'' ''legal-hold'' '' audit '' True (sample_world ()))"

lemma sample_hold:
  "set_control sample_host ''c'' ''legal-hold'' '' audit '' True (sample_world ()) = (Inr (), held_world)"
proof -
  have "(case fst (set_control sample_host ''c'' ''legal-hold'' '' audit '' True (sample_world ())) of
      Inr u \<Rightarrow> True | _ \<Rightarrow> False)" by code_simp
  then show ?thesis
    unfolding held_world_def
    by (cases "set_control sample_host ''c'' ''legal-hold'' '' audit '' True (sample_world ())")
       (auto split: sum.split_asm)
qed

theorem set_control_preserves_witness:
  "list_all control_check (retention_controls (w_db held_world)) \<and>
   held ''c'' LegalHold (retention_controls (w_db held_world)) \<and>
   \<not> held ''c'' KeepOnline (retention_controls (w_db held_world))"
proof -
  have "list_all control_check (retention_controls (w_db (sample_world ())))"
    "distinct (map rt_canonical_message_id (retention_controls (w_db (sample_world ()))))"
    by code_simp+
  from set_control_preserves [OF this sample_hold] show ?thesis
    by (simp add: control_kind_of_def held_def sample_world_def sample_db_def empty_db_def)
qed

theorem hold_blocks_eligibility_witness:
  "\<exists>rq w3. evaluate_all sample_host sample_config None None held_world = (Inr [rq], w3) \<and>
     rq_canonical_id rq = Some ''c'' \<and> \<not> rq_eligible rq"
proof -
  have "(case fst (evaluate_all sample_host sample_config None None held_world) of
      Inr [rq] \<Rightarrow> rq_canonical_id rq = Some ''c'' | _ \<Rightarrow> False)" by code_simp
  then obtain rq where rq: "fst (evaluate_all sample_host sample_config None None held_world) = Inr [rq]"
    "rq_canonical_id rq = Some ''c''" by (auto split: sum.split_asm list.split_asm)
  then obtain w3 where ev: "evaluate_all sample_host sample_config None None held_world = (Inr [rq], w3)"
    by (metis prod.collapse)
  have keys: "unique_keys (w_db held_world)" by code_simp
  from hold_blocks_eligibility [OF sample_hold keys refl ev _ rq(2)] ev rq(2) show ?thesis by simp
qed


theorem plan_dry_run_bounded_and_sound_witness:
  "\<exists>m. remote_mutations (w_db (snd sample_plan)) = [m] \<and>
     names_safe_message sample_host sample_config sample_fs sample_db (h_clock sample_host 0) m"
proof -
  from sample_planned obtain res where "fst sample_plan = Inr res" "pl_selected res = 1"
    by (auto split: sum.split_asm)
  then have res: "sample_plan = (Inr res, snd sample_plan)" "pl_selected res = 1"
    by (metis prod.collapse)+
  have keys: "unique_keys (w_db (sample_world ([] :: call list)))" using sample_keys by (simp add: sample_world_def)
  from plan_dry_run_bounded_and_sound [OF res(1) [unfolded sample_plan_def] keys] res(2) obtain new where
    new: "remote_mutations (w_db (snd sample_plan)) = new" "length new = 1"
    "\<forall>m \<in> set new. names_safe_message sample_host sample_config sample_fs sample_db (h_clock sample_host 0) m"
    by (auto simp: sample_world_def sample_db_def empty_db_def sample_plan_def)
  then show ?thesis by (cases new) auto
qed

section \<open>Instances for execution and reconciliation\<close>

text \<open>A production run in flight: its run and its planned row.\<close>

definition running_run :: mutation_run_row where
  "running_run = production_run_row 2 ''now'' ''a'' sample_plan_run 1"

definition running_row :: mutation_row where
  "running_row = production_row 2 2 1 ''now'' sample_plan_row"

definition running_world :: "call list world" where
  "running_world = planned_world\<lparr>w_db := sample_db\<lparr>remote_mutation_runs := [sample_plan_run, running_run],
     remote_mutations := [sample_plan_row, running_row]\<rparr>\<rparr>"

lemma running_keys: "unique_keys (w_db running_world)"
  by code_simp

lemma running_prefix: "done_prefix 2 (w_db running_world)"
proof -
  have "run_rows 2 (w_db running_world) = {running_row}"
    by (auto simp: run_rows_def running_world_def sample_plan_row_def plan_row_def running_row_def)
  then show ?thesis by (simp add: done_prefix_def running_row_def)
qed

theorem provider_calls_are_authorised_witness:
  "\<exists>calls. w_net (snd (execute_serial sample_host sample_config 2 (logging confirm_absent) running_world)) = calls \<and>
     list_all (\<lambda>c. authorised_call sample_host sample_config 2 (ca_db c) (ca_fs c) (ca_tick c) (ca_target c)) calls"
proof -
  obtain res w' where run: "execute_serial sample_host sample_config 2 (logging confirm_absent) running_world = (res, w')"
    by (meson surj_pair)
  from provider_calls_are_authorised [OF run running_keys] run show ?thesis
    by (auto simp: running_world_def planned_world_def sample_world_def)
qed

theorem production_run_halts_at_first_failure_witness:
  "case execute_serial sample_host sample_config 2 (logging (\<lambda>w t. None)) running_world of (res, w') \<Rightarrow>
     (case res of
        Inl e \<Rightarrow> done_prefix 2 (w_db w')
      | Inr _ \<Rightarrow>
        ((\<forall>m \<in> run_rows 2 (w_db w'). mu_status m = Succeeded) \<and> run_has_status 2 RunCompleted (w_db w')) \<or>
        (halted_at 2 (w_db w') \<and> run_has_status 2 RunHalted (w_db w')))"
proof -
  obtain res w' where run: "execute_serial sample_host sample_config 2 (logging (\<lambda>w t. None)) running_world = (res, w')"
    by (meson surj_pair)
  from production_run_halts_at_first_failure [OF run running_keys running_prefix] show ?thesis
    unfolding run prod.case .
qed

theorem execution_requires_authorization_witness:
  "\<exists>e w'. execute_production_plan sample_host sample_config 1 ''a'' sample_factory (sample_world []) = (Inl e, w') \<and>
     local_only (sample_world []) w'"
proof -
  obtain res w' where run: "execute_production_plan sample_host sample_config 1 ''a'' sample_factory
      (sample_world []) = (res, w')" by (meson surj_pair)
  have keys: "unique_keys (w_db (sample_world ([] :: call list)))" using sample_keys by (simp add: sample_world_def)
  have "\<not> plan_authorised sample_host sample_config sample_fs sample_db 0 1 ''a''"
    by (simp add: plan_authorised_def sample_db_def empty_db_def)
  then have "\<not> plan_authorised sample_host sample_config (w_fs (sample_world ([] :: call list)))
      (w_db (sample_world ([] :: call list))) (w_tick (sample_world ([] :: call list))) 1 ''a''"
    by (simp add: sample_world_def)
  from execution_requires_authorization [OF run keys this] run show ?thesis by blast
qed

lemma sample_execution_Inr:
  obtains run w' where "execute_production_plan sample_host sample_config 1 ''a'' sample_factory planned_world
     = (Inr run, w')" "length (w_net w') = 1"
  using sample_executed unfolding sample_execution_def
  by (auto split: prod.split_asm sum.split_asm)

lemma planned_keys: "unique_keys (w_db planned_world)" and planned_runs: "runs_exist (w_db planned_world)"
  by code_simp+

theorem execution_outcome_witness:
  "\<exists>run w'. execute_production_plan sample_host sample_config 1 ''a'' sample_factory planned_world = (Inr run, w') \<and>
     length (w_net w') = 1 \<and> plan_authorised sample_host sample_config sample_fs (w_db planned_world) 0 1 ''a'' \<and>
     length (filter (\<lambda>m. mu_run_id m = run) (remote_mutations (w_db w'))) = 1"
proof (rule sample_execution_Inr, goal_cases)
  case (1 run w')
  have rows: "length (rows_of_run 1 (w_db planned_world)) = 1" by code_simp
  note out = execution_outcome [OF 1(1) planned_keys planned_runs]
  then have "length (filter (\<lambda>m. mu_run_id m = run) (remote_mutations (w_db w'))) =
      length (rows_of_run 1 (w_db planned_world))"
    by (metis (no_types, lifting) length_map)
  with out 1 rows show ?case
    by (intro exI [of _ run] exI [of _ w']) (simp add: planned_world_def sample_world_def)
qed


text \<open>A halted run with one unknown row, and an observer that confirms its absence.\<close>

definition halted_world :: "call list world" where
  "halted_world = planned_world\<lparr>w_db := sample_db\<lparr>
     remote_mutation_runs := [sample_plan_run, mark_run RunHalted ''now'' running_run],
     remote_mutations := [sample_plan_row, running_row\<lparr>mu_status := Unknown\<rparr>]\<rparr>\<rparr>"

definition sample_observer :: "call list observer_factory" where
  "sample_observer w cfg name = Inr (\<lambda>v t. (Some ''confirmed-absent'', w_net v))"

theorem reconcile_never_resumes_witness:
  "\<exists>res w'. reconcile_production_run sample_host sample_config 2 sample_observer halted_world = (res, w') \<and>
     map mr_status (remote_mutation_runs (w_db w')) = [RunCompleted, RunHalted]"
proof -
  obtain res w' where run: "reconcile_production_run sample_host sample_config 2 sample_observer halted_world = (res, w')"
    by (meson surj_pair)
  have keys: "unique_keys (w_db halted_world)" by code_simp
  have "map mr_status (remote_mutation_runs (w_db halted_world)) = [RunCompleted, RunHalted]"
    by (simp add: halted_world_def sample_plan_run_def plan_run_row_def)
  with reconcile_never_resumes [OF run keys] run show ?thesis by auto
qed


theorem crash_after_started_is_unreconcilable_witness:
  "reconcile_production_run sample_host sample_config 2 sample_observer
      (start_mutation sample_host 2 2 sample_target True running_world) =
     (Inl (ReconciliationError ''run is not a halted production execution''),
      start_mutation sample_host 2 2 sample_target True running_world) \<and>
   sr_reconciliation_required
     (status_of_run (w_db (start_mutation sample_host 2 2 sample_target True running_world)) running_run)"
proof -
  have "running_run \<in> set (remote_mutation_runs (w_db running_world))"
    "mr_id running_run = 2" "mr_mode running_run = ProductionExecute" "mr_status running_run = RunPlanned"
    "running_row \<in> set (remote_mutations (w_db running_world))" "mu_run_id running_row = 2" "mu_id running_row = 2"
    by (simp_all add: running_world_def running_run_def production_run_row_def running_row_def production_row_def)
  from crash_after_started_is_unreconcilable [OF this(1-4) running_keys this(5-7) refl] show ?thesis by blast
qed

end
