(* ===== verification/Effects.thy ===== *)
theory Effects
  imports Prelude
begin

text \<open>
  Programs with effects: a function of the state that returns a value or raises, with the state it
  leaves in both cases (what an exception leaves behind is part of every claim about clean-up).
  \<open>seq\<close> is sequential composition, \<open>attempt\<close> a \<open>try\<close> with one \<open>except\<close> clause, \<open>finalize\<close> a
  \<open>finally\<close>.  \<open>wp\<close> is the weakest precondition with one postcondition for the return and one for
  the exception; its equations and rules are in the collection \<open>wp\<close>.
\<close>

named_theorems wp_rules \<open>weakest preconditions of the combinators\<close>

type_synonym ('s, 'a) prog = "'s \<Rightarrow> 'a result \<times> 's"

definition ret :: "'a \<Rightarrow> ('s, 'a) prog" where
  "ret x = (\<lambda>s. (Inr x, s))"

definition fail :: "error \<Rightarrow> ('s, 'a) prog" where
  "fail e = (\<lambda>s. (Inl e, s))"

definition seq :: "('s, 'a) prog \<Rightarrow> ('a \<Rightarrow> ('s, 'b) prog) \<Rightarrow> ('s, 'b) prog" where
  "seq m f = (\<lambda>s. case m s of (Inl e, s') \<Rightarrow> (Inl e, s') | (Inr x, s') \<Rightarrow> f x s')"

text \<open>\<open>except\<close> for the exceptions of a class, given by a predicate.\<close>

definition attempt :: "('s, 'a) prog \<Rightarrow> (error \<Rightarrow> bool) \<Rightarrow> (error \<Rightarrow> ('s, 'a) prog) \<Rightarrow> ('s, 'a) prog" where
  "attempt m C h = (\<lambda>s. case m s of
     (Inr x, s') \<Rightarrow> (Inr x, s')
   | (Inl e, s') \<Rightarrow> if C e then h e s' else (Inl e, s'))"

text \<open>\<open>finally\<close>: runs on return and on exception; an exception of its own replaces the outcome.\<close>

definition finalize :: "('s, 'a) prog \<Rightarrow> ('s, unit) prog \<Rightarrow> ('s, 'a) prog" where
  "finalize m c = (\<lambda>s. case m s of (r, s') \<Rightarrow>
     (case c s' of (Inr u, s'') \<Rightarrow> (r, s'') | (Inl e, s'') \<Rightarrow> (Inl e, s'')))"

definition require :: "bool \<Rightarrow> error \<Rightarrow> ('s, unit) prog" where
  "require b e = (if b then ret () else fail e)"

definition lift_result :: "'a result \<Rightarrow> ('s, 'a) prog" where
  "lift_result r = (\<lambda>s. (r, s))"

definition read_state :: "('s \<Rightarrow> 'a) \<Rightarrow> ('s, 'a) prog" where
  "read_state f = (\<lambda>s. (Inr (f s), s))"

definition write_state :: "('s \<Rightarrow> 's) \<Rightarrow> ('s, unit) prog" where
  "write_state f = (\<lambda>s. (Inr (), f s))"

text \<open>A \<open>for\<close> loop that collects the values of its body.\<close>

fun for_each :: "('a \<Rightarrow> ('s, 'b) prog) \<Rightarrow> 'a list \<Rightarrow> ('s, 'b list) prog" where
  "for_each f [] = ret []"
| "for_each f (x # xs) = seq (f x) (\<lambda>y. seq (for_each f xs) (\<lambda>ys. ret (y # ys)))"

section \<open>Weakest preconditions\<close>

definition wp ::
  "('s, 'a) prog \<Rightarrow> ('a \<Rightarrow> 's \<Rightarrow> bool) \<Rightarrow> (error \<Rightarrow> 's \<Rightarrow> bool) \<Rightarrow> 's \<Rightarrow> bool" where
  "wp m Q E s = (case m s of (Inr x, s') \<Rightarrow> Q x s' | (Inl e, s') \<Rightarrow> E e s')"

lemma wp_ret [wp_rules, simp]: "wp (ret x) Q E = Q x"
  by (rule ext) (simp add: wp_def ret_def)

lemma wp_fail [wp_rules, simp]: "wp (fail e) Q E = E e"
  by (rule ext) (simp add: wp_def fail_def)

lemma wp_seq [wp_rules]: "wp (seq m f) Q E = wp m (\<lambda>x. wp (f x) Q E) E"
  by (rule ext) (auto simp: wp_def seq_def split: prod.splits sum.splits)

lemma wp_attempt [wp_rules]:
  "wp (attempt m C h) Q E = wp m Q (\<lambda>e. if C e then wp (h e) Q E else E e)"
  by (rule ext) (auto simp: wp_def attempt_def split: prod.splits sum.splits)

lemma wp_finalize [wp_rules]:
  "wp (finalize m c) Q E = wp m (\<lambda>x. wp c (\<lambda>u. Q x) E) (\<lambda>e. wp c (\<lambda>u. E e) E)"
  by (rule ext) (auto simp: wp_def finalize_def split: prod.splits sum.splits)

lemma wp_require [wp_rules]: "wp (require b e) Q E = (if b then Q () else E e)"
  by (simp add: require_def wp_ret wp_fail)

lemma wp_lift [wp_rules]:
  "wp (lift_result r) Q E = (case r of Inl e \<Rightarrow> E e | Inr x \<Rightarrow> Q x)"
  by (rule ext) (simp add: wp_def lift_result_def split: sum.splits)

lemma wp_read [wp_rules]: "wp (read_state f) Q E = (\<lambda>s. Q (f s) s)"
  by (rule ext) (simp add: wp_def read_state_def)

lemma wp_write [wp_rules]: "wp (write_state f) Q E = (\<lambda>s. Q () (f s))"
  by (rule ext) (simp add: wp_def write_state_def)

lemma wp_if [wp_rules]: "wp (if b then m else n) Q E = (if b then wp m Q E else wp n Q E)"
  by simp

lemma wp_mono:
  "wp m Q E s \<Longrightarrow> (\<And>x t. Q x t \<Longrightarrow> Q' x t) \<Longrightarrow> (\<And>e t. E e t \<Longrightarrow> E' e t) \<Longrightarrow> wp m Q' E' s"
  by (auto simp: wp_def split: prod.splits sum.splits)

lemma wp_both:
  "wp m Q E s \<Longrightarrow> wp m Q' E' s \<Longrightarrow> wp m (\<lambda>x t. Q x t \<and> Q' x t) (\<lambda>e t. E e t \<and> E' e t) s"
  by (auto simp: wp_def split: prod.splits sum.splits)

lemma wp_run: "m s = (Inr x, t) \<Longrightarrow> wp m Q E s \<Longrightarrow> Q x t"
  by (simp add: wp_def)

lemma wp_run_error: "m s = (Inl e, t) \<Longrightarrow> wp m Q E s \<Longrightarrow> E e t"
  by (simp add: wp_def)

lemma wp_always: "wp m (\<lambda>x. P) (\<lambda>e. P) s \<longleftrightarrow> P (snd (m s))"
  by (auto simp: wp_def split: prod.splits sum.splits)

text \<open>An invariant of the state kept by the body of a loop is kept by the loop.\<close>

lemma wp_for_each:
  assumes "\<And>x s. x \<in> set xs \<Longrightarrow> I s \<Longrightarrow> wp (f x) (\<lambda>y. I) E s"
    and "I s"
  shows "wp (for_each f xs) (\<lambda>ys t. I t \<and> length ys = length xs) E s"
  using assms
proof (induction xs arbitrary: s)
  case Nil
  then show ?case by (simp add: wp_rules)
next
  case (Cons x xs)
  have "wp (f x) (\<lambda>y. I) E s" using Cons.prems by simp
  then show ?case
    unfolding for_each.simps wp_seq wp_ret
  proof (rule wp_mono)
    fix y t assume "I t"
    with Cons have "wp (for_each f xs) (\<lambda>ys t. I t \<and> length ys = length xs) E t" by simp
    then show "wp (for_each f xs) (\<lambda>ys t. I t \<and> length (y # ys) = length (x # xs)) E t"
      by (rule wp_mono) auto
  qed
qed

section \<open>Evaluation\<close>

lemma run_seq: "seq m f s = (case m s of (Inl e, s') \<Rightarrow> (Inl e, s') | (Inr x, s') \<Rightarrow> f x s')"
  by (simp add: seq_def)

lemmas run_simps = ret_def fail_def seq_def attempt_def finalize_def require_def lift_result_def
  read_state_def write_state_def

end
