(* ===== verification/Wire.thy ===== *)
theory Wire
  imports Effects Inventory
begin

text \<open>
  The outside world of the provider code.  Every interaction is a command with a reply; who
  answers (servers, the operating system's locks, the OAuth library) is one parameter, the \<open>peer\<close>,
  about which nothing is assumed.  The state keeps the trace of the commands with their replies,
  so that a claim can say what was sent, in which order, and on what evidence.  Also here: the
  values a JSON or YAML parser returns, and the advisory locks.
\<close>

text \<open>\<open>except OSError\<close>, with the subclasses the program names.\<close>

fun os_error :: "error \<Rightarrow> bool" where
  "os_error OSError = True"
| "os_error FileExistsError = True"
| "os_error FileNotFoundError = True"
| "os_error TimeoutError = True"
| "os_error RequestException = True"
| "os_error _ = False"

section \<open>Parsed values\<close>

text \<open>
  What \<open>json.loads\<close>, \<open>response.json()\<close> and \<open>yaml.safe_load\<close> return; YAML also has dates, binary
  data (hashable) and sets (not hashable), which the program only tells apart from the rest.
\<close>

datatype pyval =
    VNull
  | VBool bool
  | VInt int
  | VFloat real
  | VStr string
  | VList "pyval list"
  | VDict "(pyval \<times> pyval) list"
  | VOther bool

text \<open>\<open>d.get(key)\<close> with a default; a parsed mapping has each key once.\<close>

definition dict_get :: "(pyval \<times> pyval) list \<Rightarrow> string \<Rightarrow> pyval option" where
  "dict_get kvs key = map_option snd (find (\<lambda>kv. fst kv = VStr key) kvs)"

definition dict_get_or :: "(pyval \<times> pyval) list \<Rightarrow> string \<Rightarrow> pyval \<Rightarrow> pyval" where
  "dict_get_or kvs key v = (case dict_get kvs key of None \<Rightarrow> v | Some x \<Rightarrow> x)"

section \<open>Commands and replies\<close>

text \<open>
  An item of the data list \<^verbatim>\<open>imaplib\<close> returns: bytes, a tuple (with the components that are not
  bytes as \<^term>\<open>None\<close>), or \<open>None\<close>.
\<close>

datatype imap_item = IBytes bytes | ITuple "bytes option list" | INone

datatype command =
    TryLock path
  | Unlock path
  | ImapConnect bool string int int
  | ImapStarttls
  | ImapLogin string string
  | ImapCapability
  | ImapSelect string bool
  | ImapResponse string
  | ImapUid string "string list"
  | ImapUnselect
  | ImapLogout
  | Pop3Open pop3_config
  | Pop3Auth string string
  | Pop3Uidls
  | Pop3Retr int
  | Pop3Dele int
  | Pop3Abort
  | Pop3Quit
  | SockConnect string int int
  | SockTls string
  | SockSend bytes
  | SockClose
  | CredValid
  | CredToken
  | CredRefresh
  | CredJson
  | InstallToken path pyval
  | OAuthConsent path string
  | HttpGet string "(string \<times> string) list" string
  | HttpDelete string string
  | RunBorg "string list" path "(string \<times> string) list"

text \<open>
  \<open>Chunks\<close> are what the peer sends on a socket up to its next turn (an empty chunk is the end of
  the stream); \<open>Text\<close> is a value that may fail to be a string; \<open>Http status body\<close> carries the parsed body, or nothing when it is not JSON;
  \<open>Ran\<close> is the exit status of a program with the text of its standard output.
\<close>

datatype reply =
    Done
  | Busy
  | Status string "imap_item list"
  | Listing "(int \<times> string) list"
  | Octets bytes
  | Chunks "bytes list"
  | Flag bool
  | Text "string option"
  | Parsed "pyval option"
  | Http int "pyval option"
  | Ran int string

type_synonym event = "command \<times> reply result"

type_synonym 's peer = "command \<Rightarrow> 's \<Rightarrow> reply result \<times> 's"

text \<open>
  \<open>nt_client\<close> tells whether the local variable \<open>client\<close> (or \<open>wire\<close>) of the operation in progress is
  bound.  The rest is the state of a POP3 wire object: whether its socket is open, what arrived on
  the socket and was not received, what was received and not consumed, the commands it recorded.
  \<open>nt_labels\<close> is the set object \<open>labels\<close> a Gmail synchronization shares with its parts.
\<close>

record 's net =
  nt_trace :: "event list"
  nt_client :: bool
  nt_sock :: bool
  nt_queue :: "bytes list"
  nt_buffer :: bytes
  nt_commands :: "string list"
  nt_labels :: "string list"
  nt_peer :: 's

definition logged :: "command \<Rightarrow> reply result \<Rightarrow> 's \<Rightarrow> 's net \<Rightarrow> 's net" where
  "logged c r p s = s\<lparr>nt_trace := nt_trace s @ [(c, r)], nt_peer := p\<rparr>"

definition issue :: "'s peer \<Rightarrow> command \<Rightarrow> ('s net, reply) prog" where
  "issue P c = (\<lambda>s. case P c (nt_peer s) of (r, p) \<Rightarrow> (r, logged c r p s))"

definition command_done :: "'s peer \<Rightarrow> command \<Rightarrow> ('s net, unit) prog" where
  "command_done P c = seq (issue P c) (\<lambda>r. ret ())"

definition bind_client :: "bool \<Rightarrow> ('s net, unit) prog" where
  "bind_client b = write_state (\<lambda>s. s\<lparr>nt_client := b\<rparr>)"

lemma logged_simps [simp]:
  "nt_trace (logged c r p s) = nt_trace s @ [(c, r)]" "nt_client (logged c r p s) = nt_client s"
  "nt_sock (logged c r p s) = nt_sock s" "nt_queue (logged c r p s) = nt_queue s"
  "nt_buffer (logged c r p s) = nt_buffer s" "nt_commands (logged c r p s) = nt_commands s"
  "nt_labels (logged c r p s) = nt_labels s"
  by (simp_all add: logged_def)

section \<open>What a program adds to the trace\<close>

text \<open>
  \<open>extends R s t\<close>: \<open>t\<close> has the trace of \<open>s\<close> and then only commands in \<open>R\<close>.  \<open>adds R E m\<close>: started
  anywhere, \<open>m\<close> adds only commands in \<open>R\<close>, and what it raises satisfies \<open>E\<close>.
\<close>

definition extends :: "(command \<Rightarrow> bool) \<Rightarrow> 's net \<Rightarrow> 's net \<Rightarrow> bool" where
  "extends R s t \<longleftrightarrow> (\<exists>l. nt_trace t = nt_trace s @ l \<and> list_all (\<lambda>x. R (fst x)) l)"

definition adds :: "(command \<Rightarrow> bool) \<Rightarrow> (error \<Rightarrow> bool) \<Rightarrow> ('s net, 'a) prog \<Rightarrow> bool" where
  "adds R E m \<longleftrightarrow> (\<forall>s. wp m (\<lambda>x. extends R s) (\<lambda>e t. extends R s t \<and> E e) s)"

lemma extends_refl [simp]: "extends R s s"
  by (simp add: extends_def)

lemma extends_trans: "extends R s t \<Longrightarrow> extends R t u \<Longrightarrow> extends R s u"
  by (auto simp: extends_def)

lemma extends_mono: "extends R s t \<Longrightarrow> (\<And>c. R c \<Longrightarrow> R' c) \<Longrightarrow> extends R' s t"
  by (auto simp: extends_def list_all_iff)

lemma extends_logged [simp]: "R c \<Longrightarrow> extends R s (logged c r p s)"
  by (simp add: extends_def)

lemma wp_issue:
  assumes "\<And>x p. P c (nt_peer s) = (Inr x, p) \<Longrightarrow> Q x (logged c (Inr x) p s)"
    and "\<And>e p. P c (nt_peer s) = (Inl e, p) \<Longrightarrow> E e (logged c (Inl e) p s)"
  shows "wp (issue P c) Q E s"
  using assms by (auto simp: wp_def issue_def split: prod.splits sum.splits)

lemma addsD: "adds R E m \<Longrightarrow> wp m (\<lambda>x. extends R s) (\<lambda>e t. extends R s t \<and> E e) s"
  by (simp add: adds_def)

lemma adds_wp:
  assumes "adds R E m"
    and "\<And>x t. extends R s t \<Longrightarrow> Q x t"
    and "\<And>e t. extends R s t \<Longrightarrow> E e \<Longrightarrow> E' e t"
  shows "wp m Q E' s"
  by (rule wp_mono [OF addsD [OF assms(1)]]) (use assms(2,3) in blast)+

named_theorems adds_intros \<open>what the parts of a program add to the trace\<close>

lemma adds_ret [adds_intros]: "adds R E (ret x)"
  by (simp add: adds_def wp_rules)

lemma adds_fail [adds_intros]: "E e \<Longrightarrow> adds R E (fail e)"
  by (simp add: adds_def wp_rules)

lemma adds_require [adds_intros]: "E e \<Longrightarrow> adds R E (require b e)"
  by (simp add: adds_def wp_rules)

lemma adds_lift: "(\<And>e. r = Inl e \<Longrightarrow> E e) \<Longrightarrow> adds R E (lift_result r)"
  by (auto simp: adds_def wp_rules split: sum.splits)

lemma adds_issue [adds_intros]: "R c \<Longrightarrow> (\<And>e. E e) \<Longrightarrow> adds R E (issue P c)"
  unfolding adds_def by (blast intro: wp_issue extends_logged)

lemma adds_write: "(\<And>s. extends R s (f s)) \<Longrightarrow> adds R E (write_state f)"
  by (simp add: adds_def wp_rules)

lemma adds_bind_client [adds_intros]: "adds R E (bind_client b)"
  by (simp add: bind_client_def adds_write extends_def)

lemma adds_read [adds_intros]: "adds R E (read_state f)"
  by (simp add: adds_def wp_rules)

lemma adds_seq [adds_intros]:
  assumes "adds R E m" and "\<And>x. adds R E (f x)"
  shows "adds R E (seq m f)"
  unfolding adds_def wp_seq
proof
  fix s
  show "wp m (\<lambda>x. wp (f x) (\<lambda>x. extends R s) (\<lambda>e t. extends R s t \<and> E e))
      (\<lambda>e t. extends R s t \<and> E e) s"
    by (rule adds_wp [OF assms(1)], rule adds_wp [OF assms(2)]) (auto intro: extends_trans)
qed

lemma adds_attempt:
  assumes "adds R E0 m" and "\<And>e. C e \<Longrightarrow> adds R E (h e)" and "\<And>e. E0 e \<Longrightarrow> \<not> C e \<Longrightarrow> E e"
  shows "adds R E (attempt m C h)"
  unfolding adds_def wp_attempt
proof
  fix s
  show "wp m (\<lambda>x. extends R s) (\<lambda>e. if C e
      then wp (h e) (\<lambda>x. extends R s) (\<lambda>e t. extends R s t \<and> E e)
      else (\<lambda>t. extends R s t \<and> E e)) s"
  proof (rule adds_wp [OF assms(1)])
    fix e t assume ext: "extends R s t" and "E0 e"
    show "(if C e then wp (h e) (\<lambda>x. extends R s) (\<lambda>e t. extends R s t \<and> E e)
        else (\<lambda>t. extends R s t \<and> E e)) t"
      using ext \<open>E0 e\<close> assms(3)
      by (auto intro!: adds_wp [OF assms(2)] intro: extends_trans)
  qed
qed

lemma adds_finalize [adds_intros]:
  assumes "adds R E m" and "adds R E c"
  shows "adds R E (finalize m c)"
  unfolding adds_def wp_finalize
proof
  fix s
  show "wp m (\<lambda>x. wp c (\<lambda>u. extends R s) (\<lambda>e t. extends R s t \<and> E e))
      (\<lambda>e. wp c (\<lambda>u t. extends R s t \<and> E e) (\<lambda>e t. extends R s t \<and> E e)) s"
    by (rule adds_wp [OF assms(1)]; rule adds_wp [OF assms(2)]) (auto intro: extends_trans)
qed

lemma adds_if [adds_intros]:
  "(b \<Longrightarrow> adds R E m) \<Longrightarrow> (\<not> b \<Longrightarrow> adds R E n) \<Longrightarrow> adds R E (if b then m else n)"
  by simp

lemma adds_command_done [adds_intros]: "R c \<Longrightarrow> (\<And>e. E e) \<Longrightarrow> adds R E (command_done P c)"
  unfolding command_done_def by (intro adds_intros) auto

section \<open>Advisory locks\<close>

text \<open>
  \<open>with lock:\<close>, the lock being taken without waiting (creating its directory and file is part of
  the command); it is released when the body returns or raises.
\<close>

definition with_lock :: "'s peer \<Rightarrow> path \<Rightarrow> error \<Rightarrow> ('s net, 'a) prog \<Rightarrow> ('s net, 'a) prog" where
  "with_lock P p busy body =
     seq (issue P (TryLock p)) (\<lambda>r.
       if r = Busy then fail busy else finalize body (command_done P (Unlock p)))"

lemma adds_with_lock [adds_intros]:
  assumes "R (TryLock p)" "R (Unlock p)" "\<And>e. E e" "adds R E body"
  shows "adds R E (with_lock P p busy body)"
  unfolding with_lock_def by (intro adds_intros assms)

end
