(* ===== verification/AdapterContract.thy ===== *)
theory AdapterContract
  imports MutationCore Wire
begin

text \<open>
  What the deletion engine relies on of a provider adapter, as a locale: every run is harmless
  commands, the mutating events the provider allows on evidence collected before them, and harmless
  commands; and the result is justified by what was observed.  The IMAP, POP3 and Gmail adapters
  interpret it.  Inside it: what the engine records is then always backed by an observation.
\<close>

definition failure_result :: "string \<Rightarrow> mutation_result" where
  "failure_result code = \<lparr>ms_outcome = ''failure-confirmed-no-mutation'', ms_confirmed_absent = False,
     ms_summary = [], ms_error_code = Some code\<rparr>"

definition unknown_result :: mutation_result where
  "unknown_result = \<lparr>ms_outcome = ''outcome-unknown'', ms_confirmed_absent = False,
     ms_summary = [], ms_error_code = Some ''TRANSPORT_UNKNOWN''\<rparr>"

definition success_result :: mutation_result where
  "success_result = \<lparr>ms_outcome = ''success-confirmed'', ms_confirmed_absent = True,
     ms_summary = [], ms_error_code = None\<rparr>"

lemma results_distinct [simp]:
  "success_result \<noteq> failure_result c" "success_result \<noteq> unknown_result"
  "failure_result c \<noteq> success_result" "unknown_result \<noteq> success_result"
  "failure_result c \<noteq> unknown_result" "unknown_result \<noteq> failure_result c"
  by (simp_all add: success_result_def failure_result_def unknown_result_def)

lemma failure_codes [simp]:
  "''PROVIDER_REJECTED'' \<in> set FAILURE_ERROR_CODES" "''IDENTITY_MISMATCH'' \<in> set FAILURE_ERROR_CODES"
  "''SAFE_DELETE_UNSUPPORTED'' \<in> set FAILURE_ERROR_CODES" "''REMOTE_STATE_CONFLICT'' \<in> set FAILURE_ERROR_CODES"
  "''AUTHORIZATION_FAILED'' \<in> set FAILURE_ERROR_CODES"
  by (simp_all add: FAILURE_ERROR_CODES_def)

lemma observation_states [simp]:
  "''confirmed-absent'' \<in> set OBSERVATION_STATES" "''confirmed-present-match'' \<in> set OBSERVATION_STATES"
  "''identity-conflict'' \<in> set OBSERVATION_STATES" "''unknown'' \<in> set OBSERVATION_STATES"
  by (simp_all add: OBSERVATION_STATES_def)

section \<open>The adapter as the engine sees it\<close>

text \<open>Only the provider side of the world changes; an exception is no result.\<close>

definition adapter_of :: "(target \<Rightarrow> ('s net, mutation_result) prog) \<Rightarrow> 's net adapter" where
  "adapter_of delete w t = (case delete t (w_net w) of
     (Inl e, n) \<Rightarrow> (None, n) | (Inr r, n) \<Rightarrow> (Some r, n))"

definition observer_of :: "(target \<Rightarrow> ('s net, string) prog) \<Rightarrow> 's net observer" where
  "observer_of observe w t = (case observe t (w_net w) of
     (Inl e, n) \<Rightarrow> (None, n) | (Inr r, n) \<Rightarrow> (Some r, n))"

section \<open>The contract\<close>

text \<open>
  \<open>m\<close> are the mutating events.  Without any, success rests on an observed absence and a failure
  needs nothing more; after some, every closed result rests on an observation made after them.
\<close>

definition justified_by ::
  "(target \<Rightarrow> event list \<Rightarrow> bool) \<Rightarrow> (target \<Rightarrow> event list \<Rightarrow> bool) \<Rightarrow> (event list \<Rightarrow> bool) \<Rightarrow> target \<Rightarrow>
     mutation_result \<Rightarrow> event list \<Rightarrow> event list \<Rightarrow> event list \<Rightarrow> bool" where
  "justified_by absent intact uncommitted t r pre m post \<longleftrightarrow>
     (r = success_result \<and> (if m = [] then absent t (pre @ post) else absent t post)) \<or>
     (\<exists>code \<in> set FAILURE_ERROR_CODES. r = failure_result code \<and> (uncommitted m \<or> intact t post)) \<or>
     r = unknown_result"

definition settled_by ::
  "(target \<Rightarrow> event list \<Rightarrow> bool) \<Rightarrow> (target \<Rightarrow> event list \<Rightarrow> bool) \<Rightarrow> target \<Rightarrow> mutation_result \<Rightarrow>
     event list \<Rightarrow> bool" where
  "settled_by absent intact t r l \<longleftrightarrow> (r = success_result \<and> absent t l) \<or>
     (r = failure_result ''PROVIDER_REJECTED'' \<and> intact t l) \<or> r = unknown_result"

text \<open>A program that only observes and settles the result of a mutation.\<close>

definition settles_by ::
  "(command \<Rightarrow> bool) \<Rightarrow> (target \<Rightarrow> event list \<Rightarrow> bool) \<Rightarrow> (target \<Rightarrow> event list \<Rightarrow> bool) \<Rightarrow> target \<Rightarrow>
     's net \<Rightarrow> mutation_result \<Rightarrow> 's net \<Rightarrow> bool" where
  "settles_by R absent intact t s r u \<longleftrightarrow> (\<exists>l. nt_trace u = nt_trace s @ l \<and>
     list_all (\<lambda>x. R (fst x)) l \<and> settled_by absent intact t r l)"

text \<open>An observation: a closed state, and the two proofs rest on the events.\<close>

definition reports_by ::
  "(command \<Rightarrow> bool) \<Rightarrow> (target \<Rightarrow> event list \<Rightarrow> bool) \<Rightarrow> (target \<Rightarrow> event list \<Rightarrow> bool) \<Rightarrow> target \<Rightarrow>
     's net \<Rightarrow> string \<Rightarrow> 's net \<Rightarrow> bool" where
  "reports_by R absent intact t s r u \<longleftrightarrow> (\<exists>l. nt_trace u = nt_trace s @ l \<and>
     list_all (\<lambda>x. R (fst x)) l \<and> r \<in> set OBSERVATION_STATES \<and>
     (r = ''confirmed-absent'' \<longrightarrow> absent t l) \<and> (r = ''confirmed-present-match'' \<longrightarrow> intact t l))"

text \<open>
  A deletion so far: \<open>K m pre\<close> is the evidence for the mutating events, \<open>bad\<close> the exceptions an outer
  handler would turn into a failure, which must not escape once something was committed.
\<close>

definition ran_by ::
  "(command \<Rightarrow> bool) \<Rightarrow> (target \<Rightarrow> event list \<Rightarrow> bool) \<Rightarrow> (target \<Rightarrow> event list \<Rightarrow> bool) \<Rightarrow>
     (target \<Rightarrow> event list \<Rightarrow> bool) \<Rightarrow> (event list \<Rightarrow> bool) \<Rightarrow> (error \<Rightarrow> bool) \<Rightarrow>
     (event list \<Rightarrow> event list \<Rightarrow> bool) \<Rightarrow> target \<Rightarrow> 's net \<Rightarrow> mutation_result result \<Rightarrow> 's net \<Rightarrow> bool" where
  "ran_by R absent intact muts uncommitted bad K t s r u \<longleftrightarrow>
     (\<exists>pre m post. nt_trace u = nt_trace s @ pre @ m @ post \<and>
        list_all (\<lambda>x. R (fst x)) pre \<and> list_all (\<lambda>x. R (fst x)) post \<and>
        muts t m \<and> (m \<noteq> [] \<longrightarrow> K m pre) \<and>
        (case r of Inl e \<Rightarrow> \<not> uncommitted m \<longrightarrow> \<not> bad e
         | Inr x \<Rightarrow> justified_by absent intact uncommitted t x pre m post))"

text \<open>Evidence that further reading does not spoil, and the composition lemmas it gives.\<close>

locale provider_evidence =
  fixes R :: "command \<Rightarrow> bool"
    and absent :: "target \<Rightarrow> event list \<Rightarrow> bool"
    and intact :: "target \<Rightarrow> event list \<Rightarrow> bool"
  assumes absent_after: "absent t l \<Longrightarrow> list_all (\<lambda>x. R (fst x)) k \<Longrightarrow> absent t (l @ k)"
    and absent_before: "absent t l \<Longrightarrow> absent t (k @ l)"
    and intact_after: "intact t l \<Longrightarrow> list_all (\<lambda>x. R (fst x)) k \<Longrightarrow> intact t (l @ k)"
    and intact_before: "intact t l \<Longrightarrow> intact t (k @ l)"
begin

lemmas closures = absent_after absent_before intact_after intact_before

lemma settled_before: "settled_by absent intact t r l \<Longrightarrow> settled_by absent intact t r (k @ l)"
  by (auto simp: settled_by_def intro: closures)

lemma settled_after:
  "settled_by absent intact t r l \<Longrightarrow> list_all (\<lambda>x. R (fst x)) k \<Longrightarrow> settled_by absent intact t r (l @ k)"
  by (auto simp: settled_by_def intro: closures)

lemma settles_before:
  assumes "extends R s u" and "settles_by R absent intact t u r v"
  shows "settles_by R absent intact t s r v"
proof -
  from assms obtain k l where k: "nt_trace v = nt_trace s @ (k @ l)" "list_all (\<lambda>x. R (fst x)) (k @ l)"
    "settled_by absent intact t r l"
    unfolding extends_def settles_by_def by (elim exE conjE) simp
  then show ?thesis unfolding settles_by_def using settled_before by blast
qed

lemma settles_after:
  assumes "settles_by R absent intact t s r u" and "extends R u v"
  shows "settles_by R absent intact t s r v"
proof -
  from assms obtain l k where k: "nt_trace v = nt_trace s @ (l @ k)" "list_all (\<lambda>x. R (fst x)) (l @ k)"
    "list_all (\<lambda>x. R (fst x)) k" "settled_by absent intact t r l"
    unfolding extends_def settles_by_def by (elim exE conjE) simp
  then show ?thesis unfolding settles_by_def using settled_after by blast
qed

lemma settles_extends: "settles_by R absent intact t s r u \<Longrightarrow> extends R s u"
  by (auto simp: extends_def settles_by_def)

lemma settles_unknown: "extends R s u \<Longrightarrow> settles_by R absent intact t s unknown_result u"
  by (auto simp: extends_def settles_by_def settled_by_def)

lemma reports_nothing:
  "extends R s u \<Longrightarrow> reports_by R absent intact t s ''unknown'' u"
  "extends R s u \<Longrightarrow> reports_by R absent intact t s ''identity-conflict'' u"
  by (auto simp: extends_def reports_by_def)

lemma reports_before:
  assumes "extends R s u" and "reports_by R absent intact t u r v"
  shows "reports_by R absent intact t s r v"
proof -
  from assms obtain k l where k: "nt_trace v = nt_trace s @ (k @ l)" "list_all (\<lambda>x. R (fst x)) (k @ l)"
    "r \<in> set OBSERVATION_STATES"
    "r = ''confirmed-absent'' \<longrightarrow> absent t l" "r = ''confirmed-present-match'' \<longrightarrow> intact t l"
    unfolding extends_def reports_by_def by (elim exE conjE) simp
  then show ?thesis
    unfolding reports_by_def using closures by blast
qed

lemma reports_after:
  assumes "reports_by R absent intact t s r u" and "extends R u v"
  shows "reports_by R absent intact t s r v"
proof -
  from assms obtain l k where k: "nt_trace v = nt_trace s @ (l @ k)" "list_all (\<lambda>x. R (fst x)) (l @ k)"
    "list_all (\<lambda>x. R (fst x)) k" "r \<in> set OBSERVATION_STATES"
    "r = ''confirmed-absent'' \<longrightarrow> absent t l" "r = ''confirmed-present-match'' \<longrightarrow> intact t l"
    unfolding extends_def reports_by_def by (elim exE conjE) simp
  then show ?thesis
    unfolding reports_by_def using closures by blast
qed

lemma reports_extends: "reports_by R absent intact t s r u \<Longrightarrow> extends R s u"
  by (auto simp: extends_def reports_by_def)

lemma ran_failure:
  assumes "extends R s u" "code \<in> set FAILURE_ERROR_CODES" "muts t []" "uncommitted []"
  shows "ran_by R absent intact muts uncommitted bad K t s (Inr (failure_result code)) u"
  using assms unfolding extends_def ran_by_def justified_by_def
  by (elim exE conjE, intro exI [of _ "[]"] exI) auto

lemma ran_error:
  assumes "extends R s u" "muts t []" "uncommitted []"
  shows "ran_by R absent intact muts uncommitted bad K t s (Inl e) u"
  using assms unfolding extends_def ran_by_def
  by (elim exE conjE, intro exI [of _ "[]"] exI) auto

lemma ran_absent:
  assumes "nt_trace u = nt_trace s @ l" "list_all (\<lambda>x. R (fst x)) l" "absent t l" "muts t []"
  shows "ran_by R absent intact muts uncommitted bad K t s (Inr success_result) u"
  unfolding ran_by_def justified_by_def using assms
  by (intro exI [of _ l] exI [of _ "[]"]) simp

lemma ran_before:
  assumes "nt_trace u = nt_trace s @ k" "list_all (\<lambda>x. R (fst x)) k"
    and "ran_by R absent intact muts uncommitted bad K t u r v"
    and "\<And>m pre. list_all (\<lambda>x. R (fst x)) pre \<Longrightarrow> K m pre \<Longrightarrow> K' m (k @ pre)"
  shows "ran_by R absent intact muts uncommitted bad K' t s r v"
proof -
  from assms(3) obtain pre m post where r: "nt_trace v = nt_trace u @ pre @ m @ post"
    "list_all (\<lambda>x. R (fst x)) pre" "list_all (\<lambda>x. R (fst x)) post" "muts t m" "m \<noteq> [] \<longrightarrow> K m pre"
    "case r of Inl e \<Rightarrow> \<not> uncommitted m \<longrightarrow> \<not> bad e
     | Inr x \<Rightarrow> justified_by absent intact uncommitted t x pre m post"
    unfolding ran_by_def by blast
  have "justified_by absent intact uncommitted t x (k @ pre) m post"
    if "justified_by absent intact uncommitted t x pre m post" for x
    using that absent_before [of t "pre @ post" k] by (auto simp: justified_by_def split: if_splits)
  with r(6) have "case r of Inl e \<Rightarrow> \<not> uncommitted m \<longrightarrow> \<not> bad e
     | Inr x \<Rightarrow> justified_by absent intact uncommitted t x (k @ pre) m post"
    by (auto split: sum.splits)
  then show ?thesis
    unfolding ran_by_def using r assms(1,2,4)
    by (intro exI [of _ "k @ pre"] exI [of _ m] exI [of _ post]) auto
qed

lemma ran_after:
  assumes "ran_by R absent intact muts uncommitted bad K t s r u" and "extends R u v"
  shows "ran_by R absent intact muts uncommitted bad K t s r v"
proof -
  from assms(1) obtain pre m post where 1: "nt_trace u = nt_trace s @ pre @ m @ post"
    "list_all (\<lambda>x. R (fst x)) pre" "list_all (\<lambda>x. R (fst x)) post" "muts t m" "m \<noteq> [] \<longrightarrow> K m pre"
    "case r of Inl e \<Rightarrow> \<not> uncommitted m \<longrightarrow> \<not> bad e
     | Inr x \<Rightarrow> justified_by absent intact uncommitted t x pre m post"
    unfolding ran_by_def by blast
  from assms(2) obtain k where 2: "nt_trace v = nt_trace u @ k" "list_all (\<lambda>x. R (fst x)) k"
    unfolding extends_def by blast
  have "justified_by absent intact uncommitted t x pre m (post @ k)"
    if "justified_by absent intact uncommitted t x pre m post" for x
    using that absent_after [OF _ 2(2), of t "pre @ post"] absent_after [OF _ 2(2), of t post]
      intact_after [OF _ 2(2), of t post]
    by (auto simp: justified_by_def split: if_splits)
  with 1(6) have "case r of Inl e \<Rightarrow> \<not> uncommitted m \<longrightarrow> \<not> bad e
     | Inr x \<Rightarrow> justified_by absent intact uncommitted t x pre m (post @ k)"
    by (auto split: sum.splits)
  then show ?thesis
    unfolding ran_by_def using 1 2 by (intro exI [of _ pre] exI [of _ m] exI [of _ "post @ k"]) auto
qed

end

locale deletion_adapter =
  fixes delete :: "'s peer \<Rightarrow> target \<Rightarrow> ('s net, mutation_result) prog"
    and sound_peer :: "'s peer \<Rightarrow> bool"
    and harmless_command :: "command \<Rightarrow> bool"
    and mutations :: "target \<Rightarrow> event list \<Rightarrow> bool"
    and evidence_for :: "target \<Rightarrow> event list \<Rightarrow> event list \<Rightarrow> bool"
    and absent :: "target \<Rightarrow> event list \<Rightarrow> bool"
    and intact_after :: "target \<Rightarrow> event list \<Rightarrow> bool"
    and uncommitted :: "event list \<Rightarrow> bool"
  assumes contract: "sound_peer P \<Longrightarrow> delete P t s = (r, u) \<Longrightarrow>
      \<exists>pre m post. nt_trace u = nt_trace s @ pre @ m @ post \<and>
        list_all (\<lambda>x. harmless_command (fst x)) pre \<and> list_all (\<lambda>x. harmless_command (fst x)) post \<and>
        mutations t m \<and> (m \<noteq> [] \<longrightarrow> evidence_for t m pre) \<and>
        (\<forall>x. r = Inr x \<longrightarrow> justified_by absent intact_after uncommitted t x pre m post)"
begin

lemma result_cases:
  assumes "sound_peer P" "delete P t s = (Inr r, u)"
  obtains "r = success_result" | code where "code \<in> set FAILURE_ERROR_CODES" "r = failure_result code"
    | "r = unknown_result"
  using contract [OF assms] unfolding justified_by_def by blast

text \<open>Success is recorded only for an absence observed after the last mutating command.\<close>

lemma confirmed_absence:
  assumes "sound_peer P" "delete P t s = (Inr r, u)" "ms_confirmed_absent r"
  shows "\<exists>l k. nt_trace u = nt_trace s @ k @ l \<and> absent t l"
proof -
  have r: "r = success_result"
    by (rule result_cases [OF assms(1,2)]) (use assms(3) in \<open>auto simp: failure_result_def unknown_result_def\<close>)
  from contract [OF assms(1,2)] obtain pre m post where c: "nt_trace u = nt_trace s @ pre @ m @ post"
    "justified_by absent intact_after uncommitted t r pre m post" by blast
  then have absent: "if m = [] then absent t (pre @ post) else absent t post"
    by (simp add: justified_by_def r)
  show ?thesis
  proof (cases "m = []")
    case True
    then show ?thesis using c absent by (intro exI [of _ "pre @ post"] exI [of _ "[]"]) simp
  next
    case False
    then show ?thesis using c absent by (intro exI [of _ post] exI [of _ "pre @ m"]) simp
  qed
qed

lemma recorded_success:
  assumes "sound_peer P" "delete P t s = (Inr r, u)"
    and "normalize_result r None = Inr (Succeeded, sm, code)"
  shows "\<exists>l k. nt_trace u = nt_trace s @ k @ l \<and> absent t l"
proof (rule confirmed_absence [OF assms(1,2)])
  obtain st sm' code' where "normalize_result r None = Inr (st, sm', code')"
    "st = Succeeded \<longleftrightarrow> ms_outcome r = ''success-confirmed'' \<and> ms_confirmed_absent r \<and> result_code r = ''NONE''"
    by (rule normalize_None)
  with assms(3) show "ms_confirmed_absent r" by simp
qed

lemma trace_grows: "sound_peer P \<Longrightarrow> delete P t s = (r, u) \<Longrightarrow> \<exists>l. nt_trace u = nt_trace s @ l"
  using contract by blast

text \<open>Every result is one the engine's matrix accepts.\<close>

lemma never_invalid:
  assumes "sound_peer P" "delete P t s = (Inr r, u)"
  shows "\<exists>st sm code. normalize_result r None = Inr (st, sm, code) \<and> code \<noteq> ''INVALID_ADAPTER_RESULT''"
proof (rule result_cases [OF assms])
  assume "r = success_result"
  then show ?thesis
    by (simp add: normalize_result_def Let_def success_result_def result_code_def)
next
  fix code assume code: "code \<in> set FAILURE_ERROR_CODES" "r = failure_result code"
  then have "result_code r = code" "code \<noteq> ''INVALID_ADAPTER_RESULT''"
    by (auto simp: failure_result_def result_code_def FAILURE_ERROR_CODES_def)
  with code show ?thesis
    by (simp add: normalize_result_def Let_def failure_result_def)
next
  assume "r = unknown_result"
  then show ?thesis
    by (simp add: normalize_result_def Let_def unknown_result_def result_code_def)
qed

end

end
