(* ===== verification/ImapProtocol.thy ===== *)
theory ImapProtocol
  imports Wire
begin

text \<open>
  The shared protocol part of \<open>imap.py\<close>: credential references, mailbox quoting, the parsers of
  \<open>FETCH\<close> and \<open>UIDVALIDITY\<close> replies and the folder lock.  The parsers are regular expressions over
  untrusted bytes; the lemmas show that a parsed literal is the only one of its reply, with the
  announced length and the requested UID, and that a well-formed reply gives back every body.
\<close>

section \<open>Credentials and mailbox names\<close>

definition env_name_char :: "char \<Rightarrow> bool" where
  "env_name_char c \<longleftrightarrow> c = CHR ''_'' \<or> ((65 :: nat) \<le> of_char c \<and> of_char c \<le> (90 :: nat))"

text \<open>\<^verbatim>\<open>[A-Z_][A-Z0-9_]*\Z\<close>\<close>

definition env_name :: "string \<Rightarrow> bool" where
  "env_name s \<longleftrightarrow> (case s of [] \<Rightarrow> False
     | c # cs \<Rightarrow> env_name_char c \<and> list_all (\<lambda>x. env_name_char x \<or> is_digit x) cs)"

definition credential_variable :: "string \<Rightarrow> string result" where
  "credential_variable ref =
     (if \<not> starts_with ''env:'' ref \<or> \<not> env_name (drop 4 ref)
      then Inl (ImapError ''IMAP credentials must use config_ref: env:VARIABLE_NAME'')
      else Inr (drop 4 ref))"

definition quote_char :: "char \<Rightarrow> string" where
  "quote_char c = (if c = CHR 0x5C then [CHR 0x5C, CHR 0x5C]
     else if c = CHR 0x22 then [CHR 0x5C, CHR 0x22] else [c])"

definition safe_mailbox :: "string \<Rightarrow> bool" where
  "safe_mailbox folder \<longleftrightarrow> folder \<noteq> [] \<and> list_all is_ascii folder \<and>
     CHR 0x00 \<notin> set folder \<and> CHR 0x0D \<notin> set folder \<and> CHR 0x0A \<notin> set folder"

text \<open>
  The source replaces every backslash, then every quote; on single characters that is \<open>quote_char\<close>.
\<close>

definition encode_mailbox_name :: "string \<Rightarrow> string result" where
  "encode_mailbox_name folder =
     (if \<not> safe_mailbox folder
      then Inl (ImapError ''IMAP mailbox must be a non-empty ASCII name without CR, LF, or NUL'')
      else Inr (CHR 0x22 # concat (map quote_char folder) @ [CHR 0x22]))"

section \<open>The patterns\<close>

text \<open>\<open>(?:^|[\<^verbatim>\<open>\s\<close>(])\<close>: where the keyword may begin.\<close>

definition word_starts :: "(char \<Rightarrow> bool) \<Rightarrow> bool \<Rightarrow> string \<Rightarrow> string list" where
  "word_starts lead start s =
     (if start then [s] else []) @ (case s of [] \<Rightarrow> [] | c # cs \<Rightarrow> if lead c then [cs] else [])"

fun first_match :: "('a \<Rightarrow> 'b option) \<Rightarrow> 'a list \<Rightarrow> 'b option" where
  "first_match f [] = None"
| "first_match f (x # xs) = (case f x of Some y \<Rightarrow> Some y | None \<Rightarrow> first_match f xs)"

definition space_or_paren :: "char \<Rightarrow> bool" where
  "space_or_paren c \<longleftrightarrow> byte_space c \<or> c = CHR ''(''"

text \<open>\<^verbatim>\<open>UID\s+(\d+)(?=\s|\))\<close>: the group and the rest.\<close>

definition uid_tail :: "string \<Rightarrow> (string \<times> string) option" where
  "uid_tail s =
     (case strip_prefix ''UID'' s of None \<Rightarrow> None
      | Some r \<Rightarrow>
          let d = dropWhile byte_space r; g = takeWhile is_digit d; rest = dropWhile is_digit d in
          if r \<noteq> [] \<and> byte_space (hd r) \<and> g \<noteq> [] \<and> rest \<noteq> [] \<and>
             (byte_space (hd rest) \<or> hd rest = CHR '')'')
          then Some (g, rest) else None)"

text \<open>\<^verbatim>\<open>BODY(?:\.PEEK)?\[\]\s+\{(\d+)\}\<close>\<close>

definition literal_tail :: "string \<Rightarrow> (string \<times> string) option" where
  "literal_tail s =
     (case strip_prefix ''[]'' s of None \<Rightarrow> None
      | Some r \<Rightarrow>
          (case strip_prefix ''{'' (dropWhile byte_space r) of None \<Rightarrow> None
           | Some d \<Rightarrow>
               let g = takeWhile is_digit d; rest = dropWhile is_digit d in
               if r \<noteq> [] \<and> byte_space (hd r) \<and> g \<noteq> [] \<and> rest \<noteq> [] \<and> hd rest = CHR ''}''
               then Some (g, tl rest) else None))"

definition body_tail :: "string \<Rightarrow> (string \<times> string) option" where
  "body_tail s =
     (case strip_prefix ''BODY'' s of None \<Rightarrow> None
      | Some r \<Rightarrow>
          (case strip_prefix ''.PEEK'' r of
             Some p \<Rightarrow> literal_tail p
           | None \<Rightarrow> literal_tail r))"

text \<open>\<^verbatim>\<open>FLAGS \(([^()]*)\)\<close>\<close>

definition flags_tail :: "string \<Rightarrow> (string \<times> string) option" where
  "flags_tail s =
     (case strip_prefix ''FLAGS ('' s of None \<Rightarrow> None
      | Some r \<Rightarrow>
          let g = takeWhile (\<lambda>c. c \<noteq> CHR ''('' \<and> c \<noteq> CHR '')'') r;
              rest = dropWhile (\<lambda>c. c \<noteq> CHR ''('' \<and> c \<noteq> CHR '')'') r in
          if rest \<noteq> [] \<and> hd rest = CHR '')'' then Some (g, tl rest) else None)"

definition matcher_of :: "(char \<Rightarrow> bool) \<Rightarrow> (string \<Rightarrow> (string \<times> string) option) \<Rightarrow> matcher" where
  "matcher_of lead tail start s =
     map_option (\<lambda>(g, rest). (g, length s - length rest)) (first_match tail (word_starts lead start s))"

definition UID_RESPONSE :: "string \<Rightarrow> string list" where
  "UID_RESPONSE = find_all (matcher_of space_or_paren uid_tail) True 0"

definition BODY_LITERAL :: "string \<Rightarrow> string list" where
  "BODY_LITERAL = find_all (matcher_of space_or_paren body_tail) True 0"

definition FLAGS_RESPONSE :: "string \<Rightarrow> string list" where
  "FLAGS_RESPONSE = find_all (matcher_of byte_space flags_tail) True 0"

section \<open>Replies\<close>

definition fetch_pair :: "int \<Rightarrow> bytes \<Rightarrow> bytes \<Rightarrow> bytes result" where
  "fetch_pair requested metadata literal =
     (case BODY_LITERAL metadata of
        [len] \<Rightarrow>
          (case py_int len of Inl e \<Rightarrow> Inl e
           | Inr n \<Rightarrow>
               if int (length literal) \<noteq> n
               then Inl (ImapError ''IMAP FETCH literal length does not match response metadata'')
               else (case UID_RESPONSE metadata of
                   [uid] \<Rightarrow>
                     (case py_int uid of Inl e \<Rightarrow> Inl e
                      | Inr u \<Rightarrow>
                          if u \<noteq> requested
                          then Inl (ImapError ''IMAP FETCH response has an unexpected UID'')
                          else Inr literal)
                 | _ \<Rightarrow> Inl (ImapError ''IMAP FETCH response lacks UID'')))
      | _ \<Rightarrow> Inl (ImapError ''IMAP FETCH response lacks one BODY[] literal''))"

definition fetch_item :: "int \<Rightarrow> imap_item \<Rightarrow> bytes option result" where
  "fetch_item requested item =
     (case item of
        IBytes b \<Rightarrow>
          if strip_by byte_space b = '')'' then Inr None
          else Inl (ImapError ''unexpected IMAP FETCH response fragment'')
      | INone \<Rightarrow> Inl (ImapError ''malformed IMAP FETCH response'')
      | ITuple [Some metadata, Some literal] \<Rightarrow>
          (case fetch_pair requested metadata literal of Inl e \<Rightarrow> Inl e | Inr b \<Rightarrow> Inr (Some b))
      | ITuple [x, y] \<Rightarrow> Inl (ImapError ''malformed IMAP FETCH literal response'')
      | ITuple _ \<Rightarrow> Inl (ImapError ''malformed IMAP FETCH response''))"

definition parse_fetch_response :: "int \<Rightarrow> imap_item list \<Rightarrow> bytes result" where
  "parse_fetch_response requested data =
     (case map_result (fetch_item requested) data of Inl e \<Rightarrow> Inl e
      | Inr found \<Rightarrow>
          (case List.map_filter (\<lambda>x. x) found of
             [raw] \<Rightarrow> Inr raw
           | _ \<Rightarrow> Inl (ImapError ''IMAP FETCH response is missing or duplicated BODY[] literals'')))"

definition parse_uidvalidity :: "imap_item list \<Rightarrow> int result" where
  "parse_uidvalidity response =
     (case response of
        IBytes b # _ \<Rightarrow>
          if \<not> all_digits b then Inl (ImapError ''selected IMAP mailbox lacks a valid UIDVALIDITY'')
          else (case py_int b of Inl e \<Rightarrow> Inl e
            | Inr v \<Rightarrow>
                if v \<le> 0 then Inl (ImapError ''selected IMAP mailbox has an invalid UIDVALIDITY'')
                else Inr v)
      | _ \<Rightarrow> Inl (ImapError ''selected IMAP mailbox lacks a valid UIDVALIDITY''))"

text \<open>A client call that answers with a status and data.\<close>

definition imap_call :: "'s peer \<Rightarrow> command \<Rightarrow> ('s net, string \<times> imap_item list) prog" where
  "imap_call P c =
     seq (issue P c) (\<lambda>r. case r of Status st data \<Rightarrow> ret (st, data) | _ \<Rightarrow> fail TypeError)"

definition selected_uidvalidity :: "'s peer \<Rightarrow> ('s net, int) prog" where
  "selected_uidvalidity P =
     seq (imap_call P (ImapResponse ''UIDVALIDITY'')) (\<lambda>r. lift_result (parse_uidvalidity (snd r)))"

section \<open>The folder lock\<close>

text \<open>\<open>folder_lock\<close>; the key separates the account from the folder by a NUL octet.\<close>

definition folder_lock_path :: "host \<Rightarrow> app_config \<Rightarrow> account_config \<Rightarrow> string \<Rightarrow> path result" where
  "folder_lock_path H cfg a folder =
     (case h_resolve H (cf_archive_root cfg) of None \<Rightarrow> Inl OSError
      | Some root_path \<Rightarrow>
          Inr (root_path @ [''state'', ''locks'',
            ''imap-'' @ take 16 (h_sha256 H (utf8 (ac_name a @ CHR 0x00 # folder))) @ ''.lock'']))"

definition folder_lock ::
  "host \<Rightarrow> 's peer \<Rightarrow> app_config \<Rightarrow> account_config \<Rightarrow> string \<Rightarrow> ('s net, 'a) prog \<Rightarrow> ('s net, 'a) prog" where
  "folder_lock H P cfg a folder body =
     seq (lift_result (folder_lock_path H cfg a folder)) (\<lambda>p. with_lock P p ImapSyncBusyError body)"

text \<open>\<open>except OSError, imaplib.IMAP4.error, ImapError\<close>; the busy lock is an \<open>ImapError\<close>.\<close>

fun imap_error :: "error \<Rightarrow> bool" where
  "imap_error (ImapError m) = True"
| "imap_error ImapSyncBusyError = True"
| "imap_error _ = False"

definition transport_error :: "error \<Rightarrow> bool" where
  "transport_error e \<longleftrightarrow> os_error e \<or> e = IMAP4Error"

definition imap_failure :: "error \<Rightarrow> bool" where
  "imap_failure e \<longleftrightarrow> transport_error e \<or> imap_error e"

section \<open>What the parser accepts\<close>

lemma fetch_pair_Inr:
  "fetch_pair u md lit = Inr raw \<Longrightarrow> raw = lit \<and>
     (\<exists>len uid. BODY_LITERAL md = [len] \<and> py_int len = Inr (int (length lit)) \<and>
        UID_RESPONSE md = [uid] \<and> py_int uid = Inr u)"
  by (auto simp: fetch_pair_def split: list.split_asm sum.split_asm if_split_asm)

lemma fetch_item_None:
  "fetch_item u item = Inr None \<Longrightarrow> \<exists>b. item = IBytes b \<and> strip_by byte_space b = '')''"
  by (auto simp: fetch_item_def split: imap_item.split_asm list.split_asm option.split_asm
      sum.split_asm if_split_asm)

lemma fetch_item_Some:
  "fetch_item u item = Inr (Some raw) \<Longrightarrow>
     \<exists>md. item = ITuple [Some md, Some raw] \<and> fetch_pair u md raw = Inr raw"
  by (auto simp: fetch_item_def dest: fetch_pair_Inr split: imap_item.split_asm list.split_asm
      option.split_asm sum.split_asm if_split_asm)

lemma map_filter_single:
  assumes "map_result f xs = Inr ys" and "List.map_filter (\<lambda>x. x) ys = [y]"
  obtains pre x post where "xs = pre @ x # post" "f x = Inr (Some y)"
    "\<forall>z \<in> set pre \<union> set post. f z = Inr None"
  using assms
proof (induction xs arbitrary: ys thesis)
  case Nil
  then show ?case by (simp add: map_filter_simps)
next
  case (Cons x xs)
  from Cons.prems(2) obtain v vs where v: "f x = Inr v" "map_result f xs = Inr vs" "ys = v # vs"
    by (auto split: sum.split_asm)
  show ?case
  proof (cases v)
    case None
    with Cons.prems(3) v(3) have "List.map_filter (\<lambda>x. x) vs = [y]" by (simp add: map_filter_simps)
    then obtain pre z post where "xs = pre @ z # post" "f z = Inr (Some y)"
      "\<forall>z \<in> set pre \<union> set post. f z = Inr None"
      using Cons.IH v(2) by blast
    with v(1) None show ?thesis by (intro Cons.prems(1) [of "x # pre" z post]) auto
  next
    case (Some a)
    with Cons.prems(3) v(3) have a: "a = y" "List.map_filter (\<lambda>x. x) vs = []"
      by (simp_all add: map_filter_simps)
    have "\<forall>z \<in> set xs. f z = Inr None"
    proof
      fix z assume "z \<in> set xs"
      from map_result_preimage [OF v(2) this] obtain w where w: "w \<in> set vs" "f z = Inr w" by blast
      have "w = None"
      proof (rule ccontr)
        assume "w \<noteq> None"
        with w(1) have "List.map_filter (\<lambda>x. x) vs \<noteq> []"
          by (induction vs) (auto simp: map_filter_simps split: option.splits)
        with a(2) show False by simp
      qed
      with w(2) show "f z = Inr None" by simp
    qed
    with v(1) Some a(1) show ?thesis by (intro Cons.prems(1) [of "[]" x xs]) auto
  qed
qed

text \<open>The reply holds exactly one literal, and everything around it is a closing parenthesis.\<close>

lemma parse_fetch_Inr:
  assumes "parse_fetch_response u data = Inr raw"
  obtains pre md post len uid where "data = pre @ ITuple [Some md, Some raw] # post"
    "\<forall>z \<in> set pre \<union> set post. \<exists>b. z = IBytes b \<and> strip_by byte_space b = '')''"
    "BODY_LITERAL md = [len]" "py_int len = Inr (int (length raw))"
    "UID_RESPONSE md = [uid]" "py_int uid = Inr u"
proof -
  from assms obtain found where f: "map_result (fetch_item u) data = Inr found"
    "List.map_filter (\<lambda>x. x) found = [raw]"
    by (auto simp: parse_fetch_response_def split: sum.split_asm list.split_asm)
  from map_filter_single [OF this] obtain pre x post where x: "data = pre @ x # post"
    "fetch_item u x = Inr (Some raw)" "\<forall>z \<in> set pre \<union> set post. fetch_item u z = Inr None" .
  from fetch_item_Some [OF x(2)] obtain md where md: "x = ITuple [Some md, Some raw]"
    "fetch_pair u md raw = Inr raw" by blast
  from fetch_pair_Inr [OF md(2)] show thesis
    using that x md(1) fetch_item_None by blast
qed

section \<open>Well-formed replies\<close>

lemma find_all_consumed:
  "find_all m st (length p) (p @ rest) = find_all m (st \<and> p = []) 0 rest"
  by (induction p arbitrary: st) simp_all

lemma find_all_digits:
  assumes "list_all is_digit ds" "ds \<noteq> []"
    and "\<And>c cs st. is_digit c \<Longrightarrow> m st (c # cs) = None"
  shows "find_all m st 0 (ds @ rest) = find_all m False 0 rest"
  using assms(1,2)
proof (induction ds arbitrary: st)
  case Nil
  then show ?case by simp
next
  case (Cons d ds)
  then have step: "find_all m st 0 ((d # ds) @ rest) = find_all m False 0 (ds @ rest)"
    by (simp add: assms(3))
  show ?case
  proof (cases "ds = []")
    case True
    with step show ?thesis by simp
  next
    case False
    with Cons step show ?thesis by simp
  qed
qed

text \<open>The metadata line of a conforming server.\<close>

definition fetch_metadata :: "nat \<Rightarrow> nat \<Rightarrow> nat \<Rightarrow> string" where
  "fetch_metadata seqno uid len =
     nat_text seqno @ '' (UID '' @ nat_text uid @ '' BODY[] {'' @ nat_text len @ ''}''"

lemma digit_not [simp]:
  "is_digit c \<Longrightarrow> \<not> space_or_paren c" "is_digit c \<Longrightarrow> \<not> byte_space c"
  "is_digit c \<Longrightarrow> strip_prefix ''UID'' (c # cs) = None"
  "is_digit c \<Longrightarrow> strip_prefix ''BODY'' (c # cs) = None"
  by (auto simp: is_digit_def space_or_paren_def byte_space_def strip_prefix_def starts_with_def)

lemma matcher_digit:
  assumes "is_digit c" "tail (c # cs) = None" "\<not> lead c"
  shows "matcher_of lead tail st (c # cs) = None"
  using assms by (simp add: matcher_of_def word_starts_def)

lemma digit_tails: "is_digit c \<Longrightarrow> uid_tail (c # cs) = None" "is_digit c \<Longrightarrow> body_tail (c # cs) = None"
  by (simp_all add: uid_tail_def body_tail_def)

lemma uid_scan_digits:
  "find_all (matcher_of space_or_paren uid_tail) st 0 (nat_text n @ rest) =
     find_all (matcher_of space_or_paren uid_tail) False 0 rest"
  by (rule find_all_digits)
     (auto simp: list_all_iff nat_text_digits digit_tails intro!: matcher_digit)

lemma body_scan_digits:
  "find_all (matcher_of space_or_paren body_tail) st 0 (nat_text n @ rest) =
     find_all (matcher_of space_or_paren body_tail) False 0 rest"
  by (rule find_all_digits)
     (auto simp: list_all_iff nat_text_digits digit_tails intro!: matcher_digit)

lemma numeral_tails [simp]: "uid_tail (nat_text n @ cs) = None" "body_tail (nat_text n @ cs) = None"
proof -
  have "\<exists>c ds. nat_text n = c # ds \<and> is_digit c"
    using nat_text_digits [of n] by (cases "nat_text n") auto
  then show "uid_tail (nat_text n @ cs) = None" "body_tail (nat_text n @ cs) = None"
    by (auto simp: digit_tails)
qed

text \<open>The run of digits in front of a terminator.\<close>

lemma takeWhile_digits [simp]:
  "\<not> is_digit c \<Longrightarrow> takeWhile is_digit (nat_text n @ c # cs) = nat_text n"
  "\<not> is_digit c \<Longrightarrow> dropWhile is_digit (nat_text n @ c # cs) = c # cs"
  using nat_text_digits [of n]
  by (simp_all add: takeWhile_append2 dropWhile_append2)

lemma dropWhile_space_digits [simp]: "dropWhile byte_space (nat_text n @ cs) = nat_text n @ cs"
proof (cases "nat_text n")
  case (Cons c ds)
  then have "is_digit c" using nat_text_digits [of n] by auto
  with Cons show ?thesis by simp
qed simp

lemma space_tests [simp]: "byte_space CHR '' ''" "\<not> byte_space CHR ''{''" "\<not> is_digit CHR '' ''"
  "\<not> is_digit CHR ''}''" "space_or_paren CHR '' ''" "space_or_paren CHR ''(''"
  "\<not> byte_space CHR ''U''" "\<not> byte_space CHR ''B''"
  by (simp_all add: byte_space_def is_digit_def space_or_paren_def)

lemma strip_prefix_simps [simp]:
  "strip_prefix [] s = Some s" "strip_prefix (p # ps) [] = None"
  "strip_prefix (p # ps) (c # cs) = (if p = c then strip_prefix ps cs else None)"
  by (auto simp: strip_prefix_def starts_with_def)

lemma uid_fetch_metadata: "UID_RESPONSE (fetch_metadata s u n) = [nat_text u]"
proof -
  let ?m = "matcher_of space_or_paren uid_tail"
  have tl: "find_all ?m False 0 ('' BODY[] {'' @ nat_text n @ ''}'') = []"
    by (simp add: matcher_of_def word_starts_def uid_tail_def byte_space_def space_or_paren_def
        uid_scan_digits)
  have "uid_tail (''UID '' @ nat_text u @ '' BODY[] {'' @ nat_text n @ ''}'') =
      Some (nat_text u, '' BODY[] {'' @ nat_text n @ ''}'')"
    by (simp add: uid_tail_def)
  then have hit: "?m False (''(UID '' @ nat_text u @ '' BODY[] {'' @ nat_text n @ ''}'') =
      Some (nat_text u, length (''(UID '' @ nat_text u))"
    by (simp add: matcher_of_def word_starts_def)
  have "find_all ?m False 0 (''(UID '' @ nat_text u @ '' BODY[] {'' @ nat_text n @ ''}'') =
      nat_text u # find_all ?m False (length (''UID '' @ nat_text u))
        ((''UID '' @ nat_text u) @ '' BODY[] {'' @ nat_text n @ ''}'')"
    using hit by simp
  also have "\<dots> = [nat_text u]"
    unfolding find_all_consumed using tl by simp
  finally show ?thesis
    by (simp add: UID_RESPONSE_def fetch_metadata_def uid_scan_digits matcher_of_def
        word_starts_def uid_tail_def [of "c # cs" for c cs] space_or_paren_def)
qed

lemma body_fetch_metadata: "BODY_LITERAL (fetch_metadata s u n) = [nat_text n]"
proof -
  let ?m = "matcher_of space_or_paren body_tail"
  have "body_tail (''BODY[] {'' @ nat_text n @ ''}'') = Some (nat_text n, [])"
    by (simp add: body_tail_def literal_tail_def)
  then have hit: "?m False ('' BODY[] {'' @ nat_text n @ ''}'') =
      Some (nat_text n, length ('' BODY[] {'' @ nat_text n @ ''}''))"
    by (simp add: matcher_of_def word_starts_def)
  have "find_all ?m False 0 ('' BODY[] {'' @ nat_text n @ ''}'') =
      nat_text n # find_all ?m False (length (''BODY[] {'' @ nat_text n @ ''}''))
        ((''BODY[] {'' @ nat_text n @ ''}'') @ [])"
    using hit by simp
  also have "\<dots> = [nat_text n]"
    unfolding find_all_consumed by simp
  finally have tl: "find_all ?m False 0 ('' BODY[] {'' @ nat_text n @ ''}'') = [nat_text n]" .
  have "find_all ?m False 0 ('' (UID '' @ nat_text u @ '' BODY[] {'' @ nat_text n @ ''}'') =
      find_all ?m False 0 (nat_text u @ '' BODY[] {'' @ nat_text n @ ''}'')"
    by (simp add: matcher_of_def word_starts_def body_tail_def [of "c # cs" for c cs] byte_space_def
        space_or_paren_def)
  then show ?thesis
    unfolding BODY_LITERAL_def fetch_metadata_def body_scan_digits using tl by simp
qed


text \<open>
  The parser is fail closed on any reply: what it returns is the one literal of a reply whose
  other items are closing parentheses, the metadata announces exactly one literal and its length
  is that of the returned bytes, and it carries exactly one UID, the requested one.
\<close>

theorem fetch_parser_sound:
  assumes "parse_fetch_response u data = Inr raw"
  shows "\<exists>pre md post len uid. data = pre @ ITuple [Some md, Some raw] # post \<and>
     (\<forall>z \<in> set pre \<union> set post. \<exists>b. z = IBytes b \<and> strip_by byte_space b = '')'') \<and>
     BODY_LITERAL md = [len] \<and> digits_value len = length raw \<and>
     UID_RESPONSE md = [uid] \<and> int (digits_value uid) = u"
proof (rule parse_fetch_Inr [OF assms], goal_cases)
  case (1 pre md post len uid)
  have "digits_value len = length raw" "int (digits_value uid) = u"
    using 1(4,6) by (simp_all add: py_int_def split: if_split_asm)
  with 1(1,2,3,5) show ?case by blast
qed


theorem fetch_parser_sound_witness:
  "\<exists>md. BODY_LITERAL md = [''2''] \<and> UID_RESPONSE md = [''7'']"
proof -
  have "parse_fetch_response 7
      [ITuple [Some ''1 (UID 7 BODY[] {2}'', Some ''ab''], IBytes '')''] = Inr ''ab''"
    by code_simp
  note fetch_parser_sound [OF this]
  then obtain pre md post len uid where
    "[ITuple [Some ''1 (UID 7 BODY[] {2}'', Some ''ab''], IBytes '')''] =
       pre @ ITuple [Some md, Some ''ab''] # post" "BODY_LITERAL md = [len]" "UID_RESPONSE md = [uid]"
    by blast
  then have "md = ''1 (UID 7 BODY[] {2}''"
    by (cases pre) (auto simp: Cons_eq_append_conv)
  moreover have "BODY_LITERAL ''1 (UID 7 BODY[] {2}'' = [''2''] \<and> UID_RESPONSE ''1 (UID 7 BODY[] {2}'' = [''7'']"
    by code_simp
  ultimately show ?thesis by blast
qed

end
