(* ===== verification/ImapMutation.thy ===== *)
theory ImapMutation
  imports AdapterContract ImapProtocol
begin

text \<open>
  The destructive IMAP adapter of \<open>imap_mutation.py\<close>.  The server is the peer of the trace: nothing
  is assumed about its answers.  The lemmas show on every path, including lost replies and server
  nonsense, that at most one exact \<open>UID STORE\<close> and one exact \<open>UID EXPUNGE\<close> are sent, on evidence
  collected in the same session, and what each result says about the observations after them.
\<close>

section \<open>Parsing\<close>

definition capabilities :: "imap_item list \<Rightarrow> string list result" where
  "capabilities data =
     (case map_result (\<lambda>item. case item of
          IBytes b \<Rightarrow> Inr (map (map upper_char) (split_ws byte_space [] b))
        | _ \<Rightarrow> Inl (ImapError ''malformed IMAP capability response'')) data of
        Inl e \<Rightarrow> Inl e
      | Inr tokens \<Rightarrow> Inr (concat tokens))"

definition message_flags :: "bytes \<Rightarrow> string list result" where
  "message_flags metadata =
     (case FLAGS_RESPONSE metadata of
        [m] \<Rightarrow>
          let values = split_ws byte_space [] m in
          if \<exists>v \<in> set values. v = [] \<or> CHR ''('' \<in> set v \<or> CHR '')'' \<in> set v
          then Inl (ImapError ''IMAP FETCH response has invalid FLAGS'') else Inr values
      | _ \<Rightarrow> Inl (ImapError ''IMAP FETCH response lacks one valid FLAGS value''))"

record observed =
  ob_present :: bool
  ob_raw :: "bytes option"
  ob_deleted :: bool

definition DELETED_FLAG :: string where
  "DELETED_FLAG = CHR 0x5C # ''Deleted''"

text \<open>
  What the reply to the exact fetch says.  The flags are read from the first item, which is not a
  tuple when the reply begins with a closing parenthesis (then Python raises).
\<close>

definition observation :: "int \<Rightarrow> imap_item list \<Rightarrow> observed result" where
  "observation uid data =
     (if data = [] \<or> data = [INone] \<or> data = [IBytes []]
      then Inr \<lparr>ob_present = False, ob_raw = None, ob_deleted = False\<rparr>
      else (case parse_fetch_response uid data of Inl e \<Rightarrow> Inl e
        | Inr raw \<Rightarrow>
            (case hd data of
               ITuple (Some metadata # _) \<Rightarrow>
                 (case message_flags metadata of Inl e \<Rightarrow> Inl e
                  | Inr flags \<Rightarrow> Inr \<lparr>ob_present = True, ob_raw = Some raw,
                      ob_deleted = DELETED_FLAG \<in> set flags\<rparr>)
             | _ \<Rightarrow> Inl TypeError)))"

section \<open>The adapter object\<close>

record imap_mutation =
  im_config :: app_config
  im_account :: account_config
  im_account_id :: int
  im_variable :: string

definition imap_mutation_adapter :: "app_config \<Rightarrow> string \<Rightarrow> db \<Rightarrow> imap_mutation result" where
  "imap_mutation_adapter cfg name d =
     (case config_account cfg name of
        None \<Rightarrow> Inl (ImapError ''account is not configured for IMAP mutation'')
      | Some a \<Rightarrow>
          if ac_kind a \<noteq> Imap \<or> ac_imap a = None
          then Inl (ImapError ''account is not configured for IMAP mutation'')
          else (case credential_variable (ac_config_ref a) of Inl e \<Rightarrow> Inl e
            | Inr v \<Rightarrow>
                (case account_id d name of
                   None \<Rightarrow> Inl (ImapError ''account is not active in local state'')
                 | Some i \<Rightarrow> Inr \<lparr>im_config = cfg, im_account = a, im_account_id = i, im_variable = v\<rparr>)))"

definition imap_valid :: "imap_mutation \<Rightarrow> target \<Rightarrow> target option" where
  "imap_valid A t =
     (case t of
        ProviderDeletionTarget b p \<Rightarrow> None
      | ImapDeletionTarget b folder uidvalidity uid \<Rightarrow>
          if tg_provider_kind b \<noteq> Imap then None
          else if tg_account_id b \<noteq> im_account_id A \<or> tg_account_name b \<noteq> ac_name (im_account A) then None
          else (case ac_imap (im_account A) of
              None \<Rightarrow> None
            | Some settings \<Rightarrow>
                if \<not> ac_enabled (im_account A) \<or> folder \<notin> set (ic_folders settings) \<or>
                   uidvalidity \<le> 0 \<or> uid \<le> 0
                then None else Some t))"

section \<open>One session\<close>

definition imap_open :: "'s peer \<Rightarrow> imap_config \<Rightarrow> ('s net, unit) prog" where
  "imap_open P c =
     (let connect = (\<lambda>tls. command_done P (ImapConnect tls (ic_host c) (ic_port c)
            (ic_connection_timeout_seconds c)))
      in case ic_tls_mode c of
           IMAPS \<Rightarrow> connect True
         | STARTTLS \<Rightarrow> seq (connect False) (\<lambda>u. command_done P ImapStarttls)
         | _ \<Rightarrow> connect False)"

definition same_namespace :: "'s peer \<Rightarrow> target \<Rightarrow> ('s net, bool) prog" where
  "same_namespace P t = seq (selected_uidvalidity P) (\<lambda>v. ret (v = tg_uidvalidity t))"

definition fetch_command :: "target \<Rightarrow> command" where
  "fetch_command t = ImapUid ''FETCH'' [int_text (tg_uid t), ''(UID FLAGS BODY.PEEK[])'']"

definition store_command :: "target \<Rightarrow> command" where
  "store_command t =
     ImapUid ''STORE'' [int_text (tg_uid t), ''+FLAGS.SILENT'', ''('' @ DELETED_FLAG @ '')'']"

definition expunge_command :: "target \<Rightarrow> command" where
  "expunge_command t = ImapUid ''EXPUNGE'' [int_text (tg_uid t)]"

definition fetch_observation :: "'s peer \<Rightarrow> target \<Rightarrow> ('s net, observed) prog" where
  "fetch_observation P t =
     seq (imap_call P (fetch_command t)) (\<lambda>r.
       if fst r \<noteq> ''OK'' then fail (ImapError ''exact IMAP UID FETCH failed'')
       else lift_result (observation (tg_uid t) (snd r)))"

text \<open>The observed object is the target's bytes and carries no deletion mark.\<close>

definition intact :: "host \<Rightarrow> target \<Rightarrow> observed \<Rightarrow> bool" where
  "intact H t ob \<longleftrightarrow> ob_present ob \<and> \<not> ob_deleted ob \<and>
     (case ob_raw ob of None \<Rightarrow> False | Some raw \<Rightarrow> h_sha256 H raw = tg_canonical_sha256 (base t))"

definition login_ok :: "'s peer \<Rightarrow> imap_config \<Rightarrow> string \<Rightarrow> ('s net, bool) prog" where
  "login_ok P c password =
     seq (imap_call P (ImapLogin (ic_username c) password)) (\<lambda>r. ret (fst r = ''OK''))"

definition select_ok :: "'s peer \<Rightarrow> target \<Rightarrow> bool \<Rightarrow> ('s net, bool) prog" where
  "select_ok P t readonly =
     seq (lift_result (encode_mailbox_name (tg_folder t))) (\<lambda>m.
       seq (imap_call P (ImapSelect m readonly)) (\<lambda>r. ret (fst r = ''OK'')))"

definition clean_or_unknown :: "host \<Rightarrow> 's peer \<Rightarrow> target \<Rightarrow> ('s net, mutation_result) prog" where
  "clean_or_unknown H P t =
     attempt
       (seq (same_namespace P t) (\<lambda>same.
          if \<not> same then ret unknown_result
          else seq (fetch_observation P t) (\<lambda>ob.
            ret (if intact H t ob then failure_result ''PROVIDER_REJECTED'' else unknown_result))))
       imap_failure (\<lambda>e. ret unknown_result)"

text \<open>One observation after an \<open>EXPUNGE\<close>, in whichever session.\<close>

definition resolve_expunge :: "host \<Rightarrow> 's peer \<Rightarrow> target \<Rightarrow> ('s net, mutation_result) prog" where
  "resolve_expunge H P t =
     seq (same_namespace P t) (\<lambda>same.
       if \<not> same then ret unknown_result
       else seq (fetch_observation P t) (\<lambda>ob.
         ret (if \<not> ob_present ob then success_result
              else if intact H t ob then failure_result ''PROVIDER_REJECTED'' else unknown_result)))"

text \<open>The only recovery action: a fresh read-only session.\<close>

definition fresh_observer ::
  "host \<Rightarrow> 's peer \<Rightarrow> imap_config \<Rightarrow> target \<Rightarrow> string \<Rightarrow> ('s net, mutation_result) prog" where
  "fresh_observer H P c t password =
     seq (attempt (seq (imap_open P c) (\<lambda>u. ret True)) imap_failure (\<lambda>e. ret False)) (\<lambda>opened.
       if \<not> opened then ret unknown_result
       else finalize
         (attempt
            (seq (login_ok P c password) (\<lambda>logged_in.
               if \<not> logged_in then ret unknown_result
               else seq (select_ok P t True) (\<lambda>selected.
                 if \<not> selected then ret unknown_result else resolve_expunge H P t)))
            imap_failure (\<lambda>e. ret unknown_result))
         (attempt (command_done P ImapLogout) transport_error (\<lambda>e. ret ())))"

definition after_expunge ::
  "host \<Rightarrow> 's peer \<Rightarrow> imap_config \<Rightarrow> target \<Rightarrow> string \<Rightarrow> ('s net, mutation_result) prog" where
  "after_expunge H P c t password =
     seq (attempt (seq (resolve_expunge H P t) (\<lambda>r. ret (Some r))) imap_failure (\<lambda>e. ret None)) (\<lambda>o'.
       case o' of Some r \<Rightarrow> ret r | None \<Rightarrow> fresh_observer H P c t password)"

text \<open>The status of a mutating command, or nothing when its reply was lost.\<close>

definition mutate :: "'s peer \<Rightarrow> command \<Rightarrow> ('s net, string option) prog" where
  "mutate P c =
     attempt (seq (imap_call P c) (\<lambda>r. ret (Some (fst r)))) transport_error (\<lambda>e. ret None)"

definition expunge_exact ::
  "host \<Rightarrow> 's peer \<Rightarrow> imap_config \<Rightarrow> target \<Rightarrow> string \<Rightarrow> ('s net, mutation_result) prog" where
  "expunge_exact H P c t password =
     seq (mutate P (expunge_command t)) (\<lambda>st.
       if st \<noteq> Some ''OK'' then after_expunge H P c t password
       else seq (attempt
                  (seq (same_namespace P t) (\<lambda>same.
                     if \<not> same then ret False
                     else seq (fetch_observation P t) (\<lambda>ob. ret (\<not> ob_present ob))))
                  imap_failure (\<lambda>e. ret False)) (\<lambda>gone.
              if gone then ret success_result else after_expunge H P c t password))"

definition store_and_expunge ::
  "host \<Rightarrow> 's peer \<Rightarrow> imap_config \<Rightarrow> target \<Rightarrow> string \<Rightarrow> ('s net, mutation_result) prog" where
  "store_and_expunge H P c t password =
     seq (mutate P (store_command t)) (\<lambda>st.
       if st \<noteq> Some ''OK'' then clean_or_unknown H P t else expunge_exact H P c t password)"

text \<open>From the selected mailbox on: the evidence, then the two commands.\<close>

definition delete_selected ::
  "host \<Rightarrow> 's peer \<Rightarrow> imap_config \<Rightarrow> target \<Rightarrow> string \<Rightarrow> ('s net, mutation_result) prog" where
  "delete_selected H P c t password =
     seq (same_namespace P t) (\<lambda>same.
       if \<not> same then ret (failure_result ''IDENTITY_MISMATCH'')
       else seq (attempt (seq (fetch_observation P t) (\<lambda>ob. ret (Some ob))) imap_failure (\<lambda>e. ret None)) (\<lambda>o'.
         case o' of
           None \<Rightarrow> ret (failure_result ''PROVIDER_REJECTED'')
         | Some ob \<Rightarrow>
             if \<not> ob_present ob then ret success_result
             else (case ob_raw ob of
                 None \<Rightarrow> fail AssertionError
               | Some raw \<Rightarrow>
                   if h_sha256 H raw \<noteq> tg_canonical_sha256 (base t)
                   then ret (failure_result ''IDENTITY_MISMATCH'')
                   else if ob_deleted ob then ret (failure_result ''REMOTE_STATE_CONFLICT'')
                   else store_and_expunge H P c t password)))"

definition delete_session ::
  "host \<Rightarrow> 's peer \<Rightarrow> imap_config \<Rightarrow> target \<Rightarrow> string \<Rightarrow> ('s net, mutation_result) prog" where
  "delete_session H P c t password =
     seq (imap_open P c) (\<lambda>u. seq (bind_client True) (\<lambda>v.
       seq (login_ok P c password) (\<lambda>logged_in.
         if \<not> logged_in then ret (failure_result ''PROVIDER_REJECTED'')
         else seq (imap_call P ImapCapability) (\<lambda>r.
           if fst r \<noteq> ''OK'' then ret (failure_result ''SAFE_DELETE_UNSUPPORTED'')
           else seq (lift_result (capabilities (snd r))) (\<lambda>caps.
             if ''UIDPLUS'' \<notin> set caps then ret (failure_result ''SAFE_DELETE_UNSUPPORTED'')
             else seq (select_ok P t False) (\<lambda>selected.
               if \<not> selected then ret (failure_result ''PROVIDER_REJECTED'')
               else delete_selected H P c t password))))))"

text \<open>\<open>finally\<close>: UNSELECT, which does not expunge, and LOGOUT, when a client was opened.\<close>

definition close_client :: "'s peer \<Rightarrow> ('s net, unit) prog" where
  "close_client P =
     seq (read_state nt_client) (\<lambda>bound.
       if \<not> bound then ret ()
       else attempt (seq (command_done P ImapUnselect) (\<lambda>u. command_done P ImapLogout))
              transport_error (\<lambda>e. ret ()))"

definition imap_delete ::
  "host \<Rightarrow> 's peer \<Rightarrow> imap_mutation \<Rightarrow> target \<Rightarrow> ('s net, mutation_result) prog" where
  "imap_delete H P A t =
     (case (imap_valid A t, ac_imap (im_account A)) of
        (Some x, Some c) \<Rightarrow>
          (case h_environ H (im_variable A) of
             None \<Rightarrow> ret (failure_result ''PROVIDER_REJECTED'')
           | Some password \<Rightarrow>
               if password = [] then ret (failure_result ''PROVIDER_REJECTED'')
               else seq (bind_client False) (\<lambda>u.
                 finalize
                   (attempt
                      (folder_lock H P (im_config A) (im_account A) (tg_folder x)
                         (delete_session H P c x password))
                      imap_failure (\<lambda>e. ret (failure_result ''PROVIDER_REJECTED'')))
                   (close_client P)))
      | _ \<Rightarrow> ret (failure_result ''IDENTITY_MISMATCH''))"

section \<open>Observation\<close>

definition observe_selected :: "host \<Rightarrow> 's peer \<Rightarrow> target \<Rightarrow> ('s net, string) prog" where
  "observe_selected H P t =
     seq (same_namespace P t) (\<lambda>same.
       if \<not> same then ret ''identity-conflict''
       else seq (fetch_observation P t) (\<lambda>ob.
         ret (if \<not> ob_present ob then ''confirmed-absent''
              else if ob_deleted ob \<or> ob_raw ob = None then ''identity-conflict''
              else if intact H t ob then ''confirmed-present-match'' else ''identity-conflict'')))"

definition imap_observe ::
  "host \<Rightarrow> 's peer \<Rightarrow> imap_mutation \<Rightarrow> target \<Rightarrow> ('s net, string) prog" where
  "imap_observe H P A t =
     (case (imap_valid A t, ac_imap (im_account A)) of
        (Some x, Some c) \<Rightarrow>
          (case h_environ H (im_variable A) of
             None \<Rightarrow> ret ''unknown''
           | Some password \<Rightarrow>
               if password = [] then ret ''unknown''
               else seq (bind_client False) (\<lambda>u.
                 finalize
                   (attempt
                      (folder_lock H P (im_config A) (im_account A) (tg_folder x)
                         (seq (imap_open P c) (\<lambda>u. seq (bind_client True) (\<lambda>v.
                            seq (login_ok P c password) (\<lambda>logged_in.
                              if \<not> logged_in then ret ''unknown''
                              else seq (select_ok P x True) (\<lambda>selected.
                                if \<not> selected then ret ''unknown'' else observe_selected H P x))))))
                      imap_failure (\<lambda>e. ret ''unknown''))
                   (close_client P)))
      | _ \<Rightarrow> ret ''identity-conflict'')"

section \<open>What is sent\<close>

text \<open>The commands that cannot change a message: only the two mutating commands are left out.\<close>

fun imap_harmless :: "command \<Rightarrow> bool" where
  "imap_harmless (TryLock p) = True"
| "imap_harmless (Unlock p) = True"
| "imap_harmless (ImapConnect s h p t) = True"
| "imap_harmless ImapStarttls = True"
| "imap_harmless (ImapLogin u p) = True"
| "imap_harmless ImapCapability = True"
| "imap_harmless (ImapSelect m r) = True"
| "imap_harmless (ImapResponse c) = True"
| "imap_harmless (ImapUid k args) = (k = ''FETCH'')"
| "imap_harmless ImapUnselect = True"
| "imap_harmless ImapLogout = True"
| "imap_harmless _ = False"

lemma fetch_harmless [simp]: "imap_harmless (fetch_command t)"
  by (simp add: fetch_command_def)

lemma mutations_not_harmless [simp]:
  "\<not> imap_harmless (store_command t)" "\<not> imap_harmless (expunge_command t)"
  by (simp_all add: store_command_def expunge_command_def)

abbreviation harmless :: "('s net, 'a) prog \<Rightarrow> bool" where
  "harmless \<equiv> adds imap_harmless (\<lambda>e. True)"

lemma harmless_lift [adds_intros]: "harmless (lift_result r)"
  by (rule adds_lift) simp

lemma harmless_attempt [adds_intros]:
  "harmless m \<Longrightarrow> (\<And>e. harmless (h e)) \<Longrightarrow> harmless (attempt m C h)"
  by (rule adds_attempt) auto

lemma harmless_call [adds_intros]: "imap_harmless c \<Longrightarrow> harmless (imap_call P c)"
  unfolding imap_call_def by (intro adds_intros) (auto split: reply.split intro: adds_intros)

lemma harmless_uidvalidity [adds_intros]: "harmless (selected_uidvalidity P)"
  unfolding selected_uidvalidity_def by (intro adds_intros) auto

lemma harmless_namespace [adds_intros]: "harmless (same_namespace P t)"
  unfolding same_namespace_def by (intro adds_intros)

lemma harmless_fetch [adds_intros]: "harmless (fetch_observation P t)"
  unfolding fetch_observation_def by (intro adds_intros) auto

lemma harmless_open [adds_intros]: "harmless (imap_open P c)"
  unfolding imap_open_def Let_def by (cases "ic_tls_mode c") (auto intro!: adds_intros)

lemma harmless_login [adds_intros]: "harmless (login_ok P c pw)"
  unfolding login_ok_def by (intro adds_intros) auto

lemma harmless_select [adds_intros]: "harmless (select_ok P t r)"
  unfolding select_ok_def by (intro adds_intros) auto

lemma harmless_clean [adds_intros]: "harmless (clean_or_unknown H P t)"
  unfolding clean_or_unknown_def by (intro adds_intros)

lemma harmless_resolve [adds_intros]: "harmless (resolve_expunge H P t)"
  unfolding resolve_expunge_def by (intro adds_intros)

lemma harmless_fresh [adds_intros]: "harmless (fresh_observer H P c t pw)"
  unfolding fresh_observer_def by (intro adds_intros) auto

lemma harmless_after [adds_intros]: "harmless (after_expunge H P c t pw)"
  unfolding after_expunge_def by (intro adds_intros) (auto split: option.split intro: adds_intros)

lemma harmless_close [adds_intros]: "harmless (close_client P)"
  unfolding close_client_def by (intro adds_intros) auto

lemma harmless_folder_lock [adds_intros]:
  "harmless body \<Longrightarrow> harmless (folder_lock H P cfg a f body)"
  unfolding folder_lock_def by (intro adds_intros) auto

lemma harmless_observe_selected [adds_intros]: "harmless (observe_selected H P t)"
  unfolding observe_selected_def by (intro adds_intros)

section \<open>What was observed\<close>

definition uidvalidity_event :: "target \<Rightarrow> event \<Rightarrow> bool" where
  "uidvalidity_event t x \<longleftrightarrow> (\<exists>st v. x = (ImapResponse ''UIDVALIDITY'', Inr (Status st v)) \<and>
     parse_uidvalidity v = Inr (tg_uidvalidity t))"

definition fetch_event :: "target \<Rightarrow> observed \<Rightarrow> event \<Rightarrow> bool" where
  "fetch_event t ob x \<longleftrightarrow> (\<exists>data. x = (fetch_command t, Inr (Status ''OK'' data)) \<and>
     observation (tg_uid t) data = Inr ob)"

text \<open>
  The trace ends, up to harmless commands, with the target's \<open>UIDVALIDITY\<close> and then a fetch of the
  target's UID with the observation \<open>ob\<close>.
\<close>

definition last_observed :: "target \<Rightarrow> observed \<Rightarrow> event list \<Rightarrow> bool" where
  "last_observed t ob l \<longleftrightarrow> (\<exists>pre v f post. l = pre @ [v, f] @ post \<and> uidvalidity_event t v \<and>
     fetch_event t ob f \<and> list_all (\<lambda>x. imap_harmless (fst x)) post)"

definition observed_absent :: "target \<Rightarrow> event list \<Rightarrow> bool" where
  "observed_absent t l \<longleftrightarrow> (\<exists>ob. last_observed t ob l \<and> \<not> ob_present ob)"

definition observed_intact :: "host \<Rightarrow> target \<Rightarrow> event list \<Rightarrow> bool" where
  "observed_intact H t l \<longleftrightarrow> (\<exists>ob. last_observed t ob l \<and> intact H t ob)"

lemma last_observed_append:
  "last_observed t ob l \<Longrightarrow> list_all (\<lambda>x. imap_harmless (fst x)) m \<Longrightarrow> last_observed t ob (l @ m)"
proof -
  assume "last_observed t ob l" "list_all (\<lambda>x. imap_harmless (fst x)) m"
  then obtain pre v f post where l: "l = pre @ [v, f] @ post" "uidvalidity_event t v" "fetch_event t ob f"
    "list_all (\<lambda>x. imap_harmless (fst x)) (post @ m)"
    by (auto simp: last_observed_def)
  from l(1) have "l @ m = pre @ [v, f] @ (post @ m)" by simp
  with l(2-4) show "last_observed t ob (l @ m)" unfolding last_observed_def by blast
qed

lemma last_observed_prepend: "last_observed t ob l \<Longrightarrow> last_observed t ob (m @ l)"
  unfolding last_observed_def by (metis append_assoc)

lemma wp_imap_call:
  assumes "\<And>st data p. Q (st, data) (logged c (Inr (Status st data)) p s)"
    and "\<And>e r p. E e (logged c r p s)"
  shows "wp (imap_call P c) Q E s"
  unfolding imap_call_def wp_seq
  by (rule wp_issue) (auto simp: wp_rules split: reply.split intro: assms)

lemma wp_same_namespace:
  fixes P :: "'s peer"
  assumes "\<And>v p. uidvalidity_event t v \<Longrightarrow> imap_harmless (fst v) \<Longrightarrow> Q True (logged (fst v) (snd v) p s)"
    and "\<And>u. extends imap_harmless s u \<Longrightarrow> Q False u"
    and "\<And>e u. extends imap_harmless s u \<Longrightarrow> E e u"
  shows "wp (same_namespace P t) Q E s"
  unfolding same_namespace_def selected_uidvalidity_def wp_seq wp_ret wp_lift
proof (rule wp_imap_call)
  fix st data and p :: 's
  let ?x = "(ImapResponse ''UIDVALIDITY'', Inr (Status st data)) :: event"
  let ?u = "logged (fst ?x) (snd ?x) p s"
  have ext: "extends imap_harmless s ?u" by simp
  show "(case parse_uidvalidity (snd (st, data)) of Inl e \<Rightarrow> E e | Inr v \<Rightarrow> Q (v = tg_uidvalidity t))
      (logged (ImapResponse ''UIDVALIDITY'') (Inr (Status st data)) p s)"
  proof (cases "parse_uidvalidity data")
    case Inl
    with assms(3) [OF ext] show ?thesis by simp
  next
    case (Inr v)
    show ?thesis
    proof (cases "v = tg_uidvalidity t")
      case True
      with Inr have "uidvalidity_event t ?x" by (simp add: uidvalidity_event_def)
      from assms(1) [OF this] Inr True show ?thesis by simp
    next
      case False
      with Inr assms(2) [OF ext] show ?thesis by simp
    qed
  qed
qed (use assms(3) in simp)

lemma wp_fetch:
  assumes "\<And>f p ob. fetch_event t ob f \<Longrightarrow> imap_harmless (fst f) \<Longrightarrow> Q ob (logged (fst f) (snd f) p s)"
    and "\<And>e u. extends imap_harmless s u \<Longrightarrow> E e u"
  shows "wp (fetch_observation P t) Q E s"
  unfolding fetch_observation_def wp_seq
proof (rule wp_imap_call)
  fix st data p
  let ?x = "(fetch_command t, Inr (Status st data)) :: event"
  show "wp (if fst (st, data) \<noteq> ''OK'' then fail (ImapError ''exact IMAP UID FETCH failed'')
         else lift_result (observation (tg_uid t) (snd (st, data)))) Q E
       (logged (fetch_command t) (Inr (Status st data)) p s)"
    using assms(1) [of _ ?x p] assms(2)
    by (auto simp: wp_rules fetch_event_def split: sum.split)
qed (use assms(2) in simp)

text \<open>
  What the adapter relies on of its libraries: \<^verbatim>\<open>imaplib\<close> never raises the program's own \<open>ImapError\<close>,
  and releasing a lock that is held does not fail.
\<close>

definition library_client :: "'s peer \<Rightarrow> bool" where
  "library_client P \<longleftrightarrow> (\<forall>c s e p. P c s = (Inl e, p) \<longrightarrow> \<not> imap_error e) \<and>
     (\<forall>f s. \<exists>x p. P (Unlock f) s = (Inr x, p))"

lemma wp_library_call:
  assumes "library_client P"
    and "\<And>st data p. Q (st, data) (logged c (Inr (Status st data)) p s)"
    and "\<And>e r p. \<not> imap_error e \<Longrightarrow> E e (logged c r p s)"
  shows "wp (imap_call P c) Q E s"
proof -
  have type: "\<not> imap_error TypeError" by simp
  show ?thesis
    unfolding imap_call_def wp_seq
  proof (rule wp_issue)
    fix e p assume "P c (nt_peer s) = (Inl e, p)"
    with assms(1,3) show "E e (logged c (Inl e) p s)" unfolding library_client_def by blast
  qed (auto split: reply.split intro: assms(2) assms(3) [OF type])
qed

lemma adds_library_logout:
  assumes "library_client P"
  shows "adds imap_harmless (\<lambda>e. \<not> imap_failure e)
     (attempt (command_done P ImapLogout) transport_error (\<lambda>e. ret ()))"
proof (rule adds_attempt)
  show "adds imap_harmless (\<lambda>e. \<not> imap_error e) (command_done P ImapLogout)"
    unfolding adds_def command_done_def wp_seq wp_ret
    using assms by (auto intro!: wp_issue simp: library_client_def)
qed (auto simp: imap_failure_def intro: adds_intros)

text \<open>The pair of the two, as every use has it.\<close>

lemma wp_observe:
  assumes "\<And>ob u l. nt_trace u = nt_trace s @ l \<Longrightarrow> last_observed t ob l \<Longrightarrow>
      list_all (\<lambda>x. imap_harmless (fst x)) l \<Longrightarrow> Q (g ob) u"
    and "\<And>u. extends imap_harmless s u \<Longrightarrow> Q no u"
    and "\<And>e u. extends imap_harmless s u \<Longrightarrow> E e u"
  shows "wp (seq (same_namespace P t) (\<lambda>same. if \<not> same then ret no
      else seq (fetch_observation P t) (\<lambda>ob. ret (g ob)))) Q E s"
  unfolding wp_seq
proof (rule wp_same_namespace)
  fix v p assume v: "uidvalidity_event t v" "imap_harmless (fst v)"
  let ?s = "logged (fst v) (snd v) p s"
  have "wp (fetch_observation P t) (\<lambda>ob. Q (g ob)) E ?s"
  proof (rule wp_fetch)
    fix f q ob assume f: "fetch_event t ob f" "imap_harmless (fst f)"
    have "last_observed t ob [v, f]"
      unfolding last_observed_def using v f by (intro exI [of _ "[]"] exI [of _ v] exI [of _ f]) auto
    then show "Q (g ob) (logged (fst f) (snd f) q ?s)"
      by (intro assms(1) [of _ "[v, f]"]) (use v f in auto)
  next
    fix e u assume "extends imap_harmless ?s u"
    then show "E e u" using v(2) by (intro assms(3)) (auto intro: extends_trans [OF extends_logged])
  qed
  then show "wp (if \<not> True then ret no else seq (fetch_observation P t) (\<lambda>ob. ret (g ob))) Q E ?s"
    by (simp add: wp_rules)
qed (use assms(2,3) in \<open>auto simp: wp_rules\<close>)

section \<open>What a deletion does\<close>

text \<open>What a result says about the observations after the last mutating command.\<close>

definition settled :: "host \<Rightarrow> target \<Rightarrow> mutation_result \<Rightarrow> event list \<Rightarrow> bool" where
  "settled H t r l \<longleftrightarrow> (r = success_result \<and> observed_absent t l) \<or>
     (r = failure_result ''PROVIDER_REJECTED'' \<and> observed_intact H t l) \<or> r = unknown_result"

definition settles :: "host \<Rightarrow> target \<Rightarrow> 's net \<Rightarrow> mutation_result \<Rightarrow> 's net \<Rightarrow> bool" where
  "settles H t s r u \<longleftrightarrow> (\<exists>l. nt_trace u = nt_trace s @ l \<and>
     list_all (\<lambda>x. imap_harmless (fst x)) l \<and> settled H t r l)"

lemma observed_extend:
  "observed_absent t l \<Longrightarrow> list_all (\<lambda>x. imap_harmless (fst x)) m \<Longrightarrow> observed_absent t (l @ m)"
  "observed_absent t l \<Longrightarrow> observed_absent t (m @ l)"
  "observed_intact H t l \<Longrightarrow> list_all (\<lambda>x. imap_harmless (fst x)) m \<Longrightarrow> observed_intact H t (l @ m)"
  "observed_intact H t l \<Longrightarrow> observed_intact H t (m @ l)"
  unfolding observed_absent_def observed_intact_def
  using last_observed_append last_observed_prepend by blast+

lemma imap_settles_before: "extends imap_harmless s u \<Longrightarrow> settles H t u r v \<Longrightarrow> settles H t s r v"
proof -
  assume "extends imap_harmless s u" "settles H t u r v"
  then obtain k l where "nt_trace v = nt_trace s @ (k @ l)"
    "list_all (\<lambda>x. imap_harmless (fst x)) (k @ l)" "settled H t r l"
    by (auto simp: extends_def settles_def)
  moreover from this have "settled H t r (k @ l)"
    by (auto simp: settled_def intro: observed_extend)
  ultimately show ?thesis unfolding settles_def by blast
qed

lemma imap_settles_after: "settles H t s r u \<Longrightarrow> extends imap_harmless u v \<Longrightarrow> settles H t s r v"
proof -
  assume "settles H t s r u" "extends imap_harmless u v"
  then obtain l k where k: "nt_trace v = nt_trace s @ (l @ k)"
    "list_all (\<lambda>x. imap_harmless (fst x)) l" "list_all (\<lambda>x. imap_harmless (fst x)) k" "settled H t r l"
    by (auto simp: extends_def settles_def)
  then have "settled H t r (l @ k)"
    by (auto simp: settled_def intro: observed_extend)
  with k show ?thesis unfolding settles_def by (metis list_all_append)
qed

lemma imap_settles_extends: "settles H t s r u \<Longrightarrow> extends imap_harmless s u"
  by (auto simp: extends_def settles_def)

lemma imap_settles_unknown: "extends imap_harmless s u \<Longrightarrow> settles H t s unknown_result u"
  by (auto simp: extends_def settles_def settled_def)

lemma wp_resolve:
  fixes s :: "'s net"
  shows "wp (resolve_expunge H P t) (settles H t s) (\<lambda>e. extends imap_harmless s) s"
  unfolding resolve_expunge_def
proof (rule wp_observe)
  fix ob and u :: "'s net" and l
  assume l: "nt_trace u = nt_trace s @ l" "last_observed t ob l" "list_all (\<lambda>x. imap_harmless (fst x)) l"
  then have "settled H t (if \<not> ob_present ob then success_result
      else if intact H t ob then failure_result ''PROVIDER_REJECTED'' else unknown_result) l"
    by (auto simp: settled_def observed_absent_def observed_intact_def)
  with l show "settles H t s (if \<not> ob_present ob then success_result
      else if intact H t ob then failure_result ''PROVIDER_REJECTED'' else unknown_result) u"
    unfolding settles_def by blast
qed (simp_all add: imap_settles_unknown)

lemma wp_clean:
  fixes s :: "'s net"
  shows "wp (clean_or_unknown H P t) (\<lambda>r u. settles H t s r u \<and> r \<noteq> success_result)
     (\<lambda>e u. extends imap_harmless s u \<and> \<not> imap_failure e) s"
  unfolding clean_or_unknown_def wp_attempt
proof (rule wp_observe)
  fix ob and u :: "'s net" and l
  assume l: "nt_trace u = nt_trace s @ l" "last_observed t ob l" "list_all (\<lambda>x. imap_harmless (fst x)) l"
  then have "settled H t (if intact H t ob then failure_result ''PROVIDER_REJECTED'' else unknown_result) l"
    by (auto simp: settled_def observed_intact_def)
  with l show "settles H t s (if intact H t ob then failure_result ''PROVIDER_REJECTED'' else unknown_result) u
      \<and> (if intact H t ob then failure_result ''PROVIDER_REJECTED'' else unknown_result) \<noteq> success_result"
    unfolding settles_def by auto
qed (simp_all add: imap_settles_unknown)

lemma wp_fresh:
  assumes P: "library_client P"
  shows "wp (fresh_observer H P c t pw) (settles H t s)
     (\<lambda>e u. extends imap_harmless s u \<and> \<not> imap_failure e) s"
proof -
  let ?I = "extends imap_harmless s"
  let ?E = "\<lambda>e u. ?I u \<and> \<not> imap_failure e"
  have "adds imap_harmless (\<lambda>e. \<not> imap_failure e)
      (attempt (seq (imap_open P c) (\<lambda>u. ret True)) imap_failure (\<lambda>e. ret False))"
    by (rule adds_attempt [of _ "\<lambda>e. True"]) (intro adds_intros, simp_all add: adds_intros)
  then have opened: "wp (attempt (seq (imap_open P c) (\<lambda>u. ret True)) imap_failure (\<lambda>e. ret False))
      (\<lambda>b. ?I) ?E s" by (rule addsD)
  have resolve: "wp (resolve_expunge H P t) (settles H t s) (\<lambda>e. ?I) u" if "?I u" for u
    by (rule wp_mono [OF wp_resolve]) (use that in \<open>auto intro: imap_settles_before extends_trans\<close>)
  have selected: "wp (select_ok P t True) (\<lambda>b. if \<not> b then settles H t s unknown_result
      else wp (resolve_expunge H P t) (settles H t s) (\<lambda>e. ?I)) (\<lambda>e. ?I) u" if "?I u" for u
    by (rule adds_wp [OF harmless_select])
       (use that in \<open>auto intro!: imap_settles_unknown resolve intro: extends_trans\<close>)
  have session: "wp (seq (login_ok P c pw) (\<lambda>logged_in.
        if \<not> logged_in then ret unknown_result
        else seq (select_ok P t True) (\<lambda>selected.
          if \<not> selected then ret unknown_result else resolve_expunge H P t)))
      (settles H t s) (\<lambda>e. ?I) u" if "?I u" for u
    unfolding wp_seq wp_if wp_ret
    by (rule adds_wp [OF harmless_login])
       (use that selected in \<open>auto intro!: imap_settles_unknown intro: extends_trans\<close>)
  have logout: "wp (attempt (command_done P ImapLogout) transport_error (\<lambda>e. ret ()))
      (\<lambda>v. settles H t s r) ?E u" if "settles H t s r u" for r u
    by (rule adds_wp [OF adds_library_logout [OF P]])
       (use that in \<open>auto intro: imap_settles_after extends_trans [OF imap_settles_extends]\<close>)
  have give_up: "wp (attempt (command_done P ImapLogout) transport_error (\<lambda>e. ret ()))
      (\<lambda>v. ?I) ?E u" if "?I u" for u
    by (rule adds_wp [OF adds_library_logout [OF P]]) (use that in \<open>auto intro: extends_trans\<close>)
  have whole: "wp (finalize (attempt (seq (login_ok P c pw) (\<lambda>logged_in.
          if \<not> logged_in then ret unknown_result
          else seq (select_ok P t True) (\<lambda>selected.
            if \<not> selected then ret unknown_result else resolve_expunge H P t)))
        imap_failure (\<lambda>e. ret unknown_result))
      (attempt (command_done P ImapLogout) transport_error (\<lambda>e. ret ())))
      (settles H t s) ?E u" if "?I u" for u
    unfolding wp_finalize wp_attempt [of "seq _ _"] wp_ret
    by (rule wp_mono [OF session [OF that]]) (auto intro: logout give_up imap_settles_unknown)
  show ?thesis
    unfolding fresh_observer_def wp_seq [of "attempt _ _ _"] wp_if wp_ret
    by (rule wp_mono [OF opened]) (auto intro: imap_settles_unknown whole)
qed

lemma wp_after:
  assumes P: "library_client P"
  shows "wp (after_expunge H P c t pw) (settles H t s)
     (\<lambda>e u. extends imap_harmless s u \<and> \<not> imap_failure e) s"
proof -
  let ?E = "\<lambda>e u. extends imap_harmless s u \<and> \<not> imap_failure e"
  have fresh: "wp (fresh_observer H P c t pw) (settles H t s) ?E u" if "extends imap_harmless s u" for u
    by (rule wp_mono [OF wp_fresh [OF P]]) (use that in \<open>auto intro: imap_settles_before extends_trans\<close>)
  have "wp (resolve_expunge H P t)
      (\<lambda>r. wp (case Some r of Some r \<Rightarrow> ret r | None \<Rightarrow> fresh_observer H P c t pw) (settles H t s) ?E)
      (\<lambda>e. if imap_failure e
         then wp (case None of Some r \<Rightarrow> ret r | None \<Rightarrow> fresh_observer H P c t pw) (settles H t s) ?E
         else ?E e) s"
    by (rule wp_mono [OF wp_resolve]) (auto intro: fresh)
  then show ?thesis
    unfolding after_expunge_def wp_seq wp_attempt wp_ret .
qed

text \<open>A mutating command and its status.\<close>

lemma wp_mutate:
  fixes s :: "'s net"
  assumes P: "library_client P"
    and ok: "\<And>d p. Q (Some ''OK'') (logged c (Inr (Status ''OK'' d)) p s)"
    and other: "\<And>st x p. st \<noteq> Some ''OK'' \<Longrightarrow> Q st (logged c x p s)"
    and raised: "\<And>e x p. \<not> imap_failure e \<Longrightarrow> E e (logged c x p s)"
  shows "wp (mutate P c) Q E s"
  unfolding mutate_def wp_attempt wp_seq wp_ret
proof (rule wp_library_call [OF P])
  fix st data p
  show "Q (Some (fst (st, data))) (logged c (Inr (Status st data)) p s)"
    using ok other by (cases "st = ''OK''") auto
next
  fix e r p assume "\<not> imap_error e"
  then show "(if transport_error e then Q None else E e) (logged c r p s)"
    using other raised by (simp add: imap_failure_def)
qed

text \<open>
  The mutating events of a run: none, one exact \<open>STORE\<close>, or one exact \<open>STORE\<close> that the server
  accepted followed by one exact \<open>EXPUNGE\<close>.
\<close>

definition mutation_events :: "target \<Rightarrow> event list \<Rightarrow> bool" where
  "mutation_events t m \<longleftrightarrow> m = [] \<or> (\<exists>x. m = [(store_command t, x)]) \<or>
     (\<exists>d y. m = [(store_command t, Inr (Status ''OK'' d)), (expunge_command t, y)])"

definition sent :: "target \<Rightarrow> 's net \<Rightarrow> 's net \<Rightarrow> event list \<Rightarrow> bool" where
  "sent t s u m \<longleftrightarrow> (\<exists>l. nt_trace u = nt_trace s @ m @ l \<and> list_all (\<lambda>x. imap_harmless (fst x)) l)"

definition settles_with :: "host \<Rightarrow> target \<Rightarrow> 's net \<Rightarrow> event list \<Rightarrow> mutation_result \<Rightarrow> 's net \<Rightarrow> bool" where
  "settles_with H t s m r u \<longleftrightarrow> (\<exists>l. nt_trace u = nt_trace s @ m @ l \<and>
     list_all (\<lambda>x. imap_harmless (fst x)) l \<and> settled H t r l \<and> (r = success_result \<longrightarrow> length m = 2))"

lemma settles_with_store:
  assumes "settles H t u r v" "nt_trace u = nt_trace s @ m" "r = success_result \<longrightarrow> length m = 2"
  shows "settles_with H t s m r v"
  using assms by (auto simp: settles_def settles_with_def)

lemma sent_extends: "extends imap_harmless u v \<Longrightarrow> nt_trace u = nt_trace s @ m \<Longrightarrow> sent t s v m"
  by (auto simp: extends_def sent_def)

lemma wp_expunge:
  fixes s :: "'s net"
  assumes P: "library_client P"
  shows "wp (expunge_exact H P c t pw)
     (\<lambda>r u. \<exists>y l. nt_trace u = nt_trace s @ (expunge_command t, y) # l \<and>
        list_all (\<lambda>x. imap_harmless (fst x)) l \<and> settled H t r l)
     (\<lambda>e u. \<exists>y l. nt_trace u = nt_trace s @ (expunge_command t, y) # l \<and>
        list_all (\<lambda>x. imap_harmless (fst x)) l \<and> \<not> imap_failure e) s"
  (is "wp _ ?Q ?E s")
proof -
  let ?F = "\<lambda>u e v. extends imap_harmless u v \<and> \<not> imap_failure e"
  have lift: "wp m ?Q ?E (logged (expunge_command t) y p s)"
    if "wp m (settles H t (logged (expunge_command t) y p s))
          (?F (logged (expunge_command t) y p s)) (logged (expunge_command t) y p s)"
    for m :: "('s net, mutation_result) prog" and y p
    by (rule wp_mono [OF that]) (auto simp: settles_def extends_def)
  have confirm: "wp (seq (attempt
        (seq (same_namespace P t) (\<lambda>same. if \<not> same then ret False
           else seq (fetch_observation P t) (\<lambda>ob. ret (\<not> ob_present ob)))) imap_failure (\<lambda>e. ret False))
        (\<lambda>gone. if gone then ret success_result else after_expunge H P c t pw))
      (settles H t u) (?F u) u" for u :: "'s net"
  proof -
    have after: "wp (after_expunge H P c t pw) (settles H t u) (?F u) v"
      if "extends imap_harmless u v" for v
      by (rule wp_mono [OF wp_after [OF P]]) (use that in \<open>auto intro: imap_settles_before extends_trans\<close>)
    show ?thesis
      unfolding wp_seq [of "attempt _ _ _"] wp_attempt wp_if wp_ret
    proof (rule wp_observe)
      fix ob and v :: "'s net" and l
      assume l: "nt_trace v = nt_trace u @ l" "last_observed t ob l"
        "list_all (\<lambda>x. imap_harmless (fst x)) l"
      then have "extends imap_harmless u v" by (auto simp: extends_def)
      moreover have "\<not> ob_present ob \<Longrightarrow> settles H t u success_result v"
        unfolding settles_def settled_def observed_absent_def using l by blast
      ultimately show "(if \<not> ob_present ob then settles H t u success_result
          else wp (after_expunge H P c t pw) (settles H t u) (?F u)) v"
        using after by simp
    qed (simp_all add: after)
  qed
  show ?thesis
    unfolding expunge_exact_def wp_seq [of "mutate _ _"] wp_if
    by (rule wp_mutate [OF P]) (auto intro!: lift wp_after [OF P] confirm)
qed

text \<open>
  A whole run: harmless commands with the evidence, the mutating events, harmless commands with
  the observations the result rests on.  \<open>K\<close> is the part of the evidence collected before the
  mailbox was selected.
\<close>

definition evidence :: "host \<Rightarrow> target \<Rightarrow> event list \<Rightarrow> bool" where
  "evidence H t pre \<longleftrightarrow> observed_intact H t pre \<and>
     (\<exists>d caps. (ImapCapability, Inr (Status ''OK'' d)) \<in> set pre \<and> capabilities d = Inr caps \<and>
        ''UIDPLUS'' \<in> set caps) \<and>
     (\<exists>m d. encode_mailbox_name (tg_folder t) = Inr m \<and> (ImapSelect m False, Inr (Status ''OK'' d)) \<in> set pre)"

definition justified :: "host \<Rightarrow> target \<Rightarrow> mutation_result \<Rightarrow> event list \<Rightarrow> event list \<Rightarrow> event list \<Rightarrow> bool" where
  "justified H t r pre m post \<longleftrightarrow>
     (if m = [] then (r = success_result \<and> observed_absent t (pre @ post)) \<or>
          (\<exists>code \<in> set FAILURE_ERROR_CODES. r = failure_result code)
      else settled H t r post \<and> (r = success_result \<longrightarrow> length m = 2))"

definition ran ::
  "(event list \<Rightarrow> bool) \<Rightarrow> host \<Rightarrow> target \<Rightarrow> 's net \<Rightarrow> mutation_result result \<Rightarrow> 's net \<Rightarrow> bool" where
  "ran K H t s r u \<longleftrightarrow> (\<exists>pre m post. nt_trace u = nt_trace s @ pre @ m @ post \<and>
     list_all (\<lambda>x. imap_harmless (fst x)) pre \<and> list_all (\<lambda>x. imap_harmless (fst x)) post \<and>
     mutation_events t m \<and> (m \<noteq> [] \<longrightarrow> K pre) \<and>
     (case r of Inl e \<Rightarrow> m \<noteq> [] \<longrightarrow> \<not> imap_failure e | Inr x \<Rightarrow> justified H t x pre m post))"

lemma imap_ran_failure:
  "extends imap_harmless s u \<Longrightarrow> code \<in> set FAILURE_ERROR_CODES \<Longrightarrow> ran K H t s (Inr (failure_result code)) u"
  unfolding extends_def ran_def justified_def
  by (elim exE conjE, rule exI, rule exI [of _ "[]"], rule exI [of _ "[]"])
     (auto simp: mutation_events_def)

lemma imap_ran_error: "extends imap_harmless s u \<Longrightarrow> ran K H t s (Inl e) u"
  unfolding extends_def ran_def
  by (elim exE conjE, rule exI, rule exI [of _ "[]"], rule exI [of _ "[]"])
     (auto simp: mutation_events_def)

lemma imap_ran_before:
  assumes "nt_trace u = nt_trace s @ k" "list_all (\<lambda>x. imap_harmless (fst x)) k" "ran K H t u r v"
    and "\<And>pre. list_all (\<lambda>x. imap_harmless (fst x)) pre \<Longrightarrow> K pre \<Longrightarrow> K' (k @ pre)"
  shows "ran K' H t s r v"
proof -
  from assms(3) obtain pre m post where r: "nt_trace v = nt_trace u @ pre @ m @ post"
    "list_all (\<lambda>x. imap_harmless (fst x)) pre" "list_all (\<lambda>x. imap_harmless (fst x)) post"
    "mutation_events t m" "m \<noteq> [] \<longrightarrow> K pre" "case r of Inl e \<Rightarrow> m \<noteq> [] \<longrightarrow> \<not> imap_failure e | Inr x \<Rightarrow> justified H t x pre m post"
    by (auto simp: ran_def)
  have "case r of Inl e \<Rightarrow> m \<noteq> [] \<longrightarrow> \<not> imap_failure e | Inr x \<Rightarrow> justified H t x (k @ pre) m post"
    using r(6) by (auto simp: justified_def split: sum.splits intro: observed_extend)
  then show ?thesis
    unfolding ran_def using r assms(1,2,4)
    by (intro exI [of _ "k @ pre"] exI [of _ m] exI [of _ post]) auto
qed

lemma imap_ran_after: "ran K H t s r u \<Longrightarrow> extends imap_harmless u v \<Longrightarrow> ran K H t s r v"
proof -
  assume ran: "ran K H t s r u" and ext: "extends imap_harmless u v"
  from ran obtain pre m post where 1: "nt_trace u = nt_trace s @ pre @ m @ post"
    "list_all (\<lambda>x. imap_harmless (fst x)) pre" "list_all (\<lambda>x. imap_harmless (fst x)) post"
    "mutation_events t m" "m \<noteq> [] \<longrightarrow> K pre" "case r of Inl e \<Rightarrow> m \<noteq> [] \<longrightarrow> \<not> imap_failure e | Inr x \<Rightarrow> justified H t x pre m post"
    unfolding ran_def by blast
  from ext obtain k where 2: "nt_trace v = nt_trace u @ k" "list_all (\<lambda>x. imap_harmless (fst x)) k"
    unfolding extends_def by blast
  have r: "nt_trace v = nt_trace s @ pre @ m @ (post @ k)" using 1(1) 2(1) by simp
  have "observed_absent t ((pre @ post) @ k)" if "observed_absent t (pre @ post)"
    using that 2(2) by (rule observed_extend)
  moreover have "settled H t x (post @ k)" if "settled H t x post" for x
    using that 2(2) by (auto simp: settled_def intro: observed_extend)
  ultimately have "case r of Inl e \<Rightarrow> m \<noteq> [] \<longrightarrow> \<not> imap_failure e | Inr x \<Rightarrow> justified H t x pre m (post @ k)"
    using 1(6) by (auto simp: justified_def split: sum.splits if_splits)
  then show ?thesis
    unfolding ran_def using r 1(2-5) 2(2) by (intro exI [of _ pre] exI [of _ m] exI [of _ "post @ k"]) auto
qed

lemma wp_store:
  fixes s :: "'s net"
  assumes P: "library_client P" and K: "K []"
  shows "wp (store_and_expunge H P c t pw) (\<lambda>r. ran K H t s (Inr r)) (\<lambda>e. ran K H t s (Inl e)) s"
proof -
  have stored: "ran K H t s r u"
    if "nt_trace u = nt_trace s @ [(store_command t, x)] @ l" "list_all (\<lambda>x. imap_harmless (fst x)) l"
      "case r of Inl e \<Rightarrow> \<not> imap_failure e | Inr y \<Rightarrow> settled H t y l \<and> y \<noteq> success_result" for r u x l
    unfolding ran_def using that K
    by (intro exI [of _ "[]"] exI [of _ "[(store_command t, x)]"] exI [of _ l])
       (auto simp: mutation_events_def justified_def split: sum.splits)
  have expunged: "ran K H t s r u"
    if "nt_trace u = nt_trace s @ [(store_command t, Inr (Status ''OK'' d)), (expunge_command t, y)] @ l"
      "list_all (\<lambda>x. imap_harmless (fst x)) l" "case r of Inl e \<Rightarrow> \<not> imap_failure e | Inr z \<Rightarrow> settled H t z l" for r u d y l
    unfolding ran_def using that K
    by (intro exI [of _ "[]"] exI [of _ l] exI
          [of _ "[(store_command t, Inr (Status ''OK'' d)), (expunge_command t, y)]"])
       (auto simp: mutation_events_def justified_def split: sum.splits)
  show ?thesis
    unfolding store_and_expunge_def wp_seq [of "mutate _ _"] wp_if
  proof (rule wp_mutate [OF P])
    fix d p
    let ?u = "logged (store_command t) (Inr (Status ''OK'' d)) p s"
    have "wp (expunge_exact H P c t pw) (\<lambda>r. ran K H t s (Inr r)) (\<lambda>e. ran K H t s (Inl e)) ?u"
      by (rule wp_mono [OF wp_expunge [OF P]]) (auto intro!: expunged)
    then show "(if Some ''OK'' \<noteq> Some ''OK''
        then wp (clean_or_unknown H P t) (\<lambda>r. ran K H t s (Inr r)) (\<lambda>e. ran K H t s (Inl e))
        else wp (expunge_exact H P c t pw) (\<lambda>r. ran K H t s (Inr r)) (\<lambda>e. ran K H t s (Inl e))) ?u"
      by simp
  next
    fix st x p assume "st \<noteq> Some ''OK''"
    let ?u = "logged (store_command t) x p s"
    have "wp (clean_or_unknown H P t) (\<lambda>r. ran K H t s (Inr r)) (\<lambda>e. ran K H t s (Inl e)) ?u"
      by (rule wp_mono [OF wp_clean]) (auto simp: settles_def extends_def intro!: stored)
    with \<open>st \<noteq> Some ''OK''\<close> show "(if st \<noteq> Some ''OK''
        then wp (clean_or_unknown H P t) (\<lambda>r. ran K H t s (Inr r)) (\<lambda>e. ran K H t s (Inl e))
        else wp (expunge_exact H P c t pw) (\<lambda>r. ran K H t s (Inr r)) (\<lambda>e. ran K H t s (Inl e))) ?u"
      by simp
  next
    fix e x p assume "\<not> imap_failure e"
    then show "ran K H t s (Inl e) (logged (store_command t) x p s)"
      by (intro stored [of _ x "[]"]) simp_all
  qed
qed

lemma imap_ran_absent:
  assumes "nt_trace u = nt_trace s @ l" "list_all (\<lambda>x. imap_harmless (fst x)) l" "observed_absent t l"
  shows "ran K H t s (Inr success_result) u"
  unfolding ran_def justified_def using assms
  by (intro exI [of _ l] exI [of _ "[]"]) (simp add: mutation_events_def)

lemma wp_selected:
  fixes s :: "'s net"
  assumes P: "library_client P"
  shows "wp (delete_selected H P c t pw) (\<lambda>r. ran (observed_intact H t) H t s (Inr r))
     (\<lambda>e. ran (observed_intact H t) H t s (Inl e)) s"
  (is "wp _ ?Q ?E s")
proof -
  let ?body = "\<lambda>o'. case o' of
           None \<Rightarrow> ret (failure_result ''PROVIDER_REJECTED'')
         | Some ob \<Rightarrow>
             if \<not> ob_present ob then ret success_result
             else (case ob_raw ob of
                 None \<Rightarrow> fail AssertionError
               | Some raw \<Rightarrow>
                   if h_sha256 H raw \<noteq> tg_canonical_sha256 (base t)
                   then ret (failure_result ''IDENTITY_MISMATCH'')
                   else if ob_deleted ob then ret (failure_result ''REMOTE_STATE_CONFLICT'')
                   else store_and_expunge H P c t pw)"
  have seen: "wp (?body (Some ob)) ?Q ?E u"
    if l: "nt_trace u = nt_trace s @ l" "last_observed t ob l" "list_all (\<lambda>x. imap_harmless (fst x)) l"
    for ob u l
  proof -
    have ext: "extends imap_harmless s u" using l by (auto simp: extends_def)
    have store: "wp (store_and_expunge H P c t pw) ?Q ?E u" if "intact H t ob"
    proof (rule wp_mono [OF wp_store [OF P, where K = "\<lambda>p. p = []"]])
      have K: "observed_intact H t (l @ pre)" if "pre = []" for pre
        using that l(2) \<open>intact H t ob\<close> by (auto simp: observed_intact_def)
      show "ran (\<lambda>p. p = []) H t u (Inr r) v \<Longrightarrow> ?Q r v" for r v
        by (erule imap_ran_before [OF l(1,3)]) (use K in blast)
      show "ran (\<lambda>p. p = []) H t u (Inl e) v \<Longrightarrow> ?E e v" for e v
        by (erule imap_ran_before [OF l(1,3)]) (use K in blast)
    qed simp
    have absent: "?Q success_result u" if "\<not> ob_present ob"
      by (rule imap_ran_absent [OF l(1,3)]) (use that l(2) in \<open>auto simp: observed_absent_def\<close>)
    show ?thesis
      using store absent imap_ran_failure [OF ext] imap_ran_error [OF ext]
      by (auto simp: intact_def wp_if split: option.split)
  qed
  have unseen: "wp (?body None) ?Q ?E u" if "extends imap_harmless s u" for u
    using that by (simp add: imap_ran_failure)
  show ?thesis
    unfolding delete_selected_def wp_seq [of "same_namespace _ _"] wp_if wp_ret
  proof (rule wp_same_namespace)
    fix v p assume v: "uidvalidity_event t v" "imap_harmless (fst v)"
    let ?s = "logged (fst v) (snd v) p s"
    have "wp (seq (attempt (seq (fetch_observation P t) (\<lambda>ob. ret (Some ob))) imap_failure (\<lambda>e. ret None))
        ?body) ?Q ?E ?s"
      unfolding wp_seq wp_attempt wp_ret
    proof (rule wp_fetch)
      fix f q ob assume f: "fetch_event t ob f" "imap_harmless (fst f)"
      show "wp (?body (Some ob)) ?Q ?E (logged (fst f) (snd f) q ?s)"
      proof (rule seen)
        show "last_observed t ob [v, f]"
          unfolding last_observed_def using v f by (intro exI [of _ "[]"] exI [of _ v] exI [of _ f]) auto
      qed (use v f in auto)
    next
      fix e u assume "extends imap_harmless ?s u"
      with v(2) have "extends imap_harmless s u" by (auto intro: extends_trans [OF extends_logged])
      with unseen show "(if imap_failure e then wp (?body None) ?Q ?E else ?E e) u"
        by (simp add: imap_ran_error)
    qed
    then show "(if \<not> True then ?Q (failure_result ''IDENTITY_MISMATCH'')
        else wp (seq (attempt (seq (fetch_observation P t) (\<lambda>ob. ret (Some ob))) imap_failure (\<lambda>e. ret None))
          ?body) ?Q ?E) ?s" by simp
  qed (simp_all add: imap_ran_failure imap_ran_error)
qed

text \<open>The whole session: the capability and the writable selection come first.\<close>

lemma wp_delete_session:
  fixes s :: "'s net"
  assumes P: "library_client P"
  shows "wp (delete_session H P c t pw) (\<lambda>r. ran (evidence H t) H t s (Inr r))
     (\<lambda>e. ran (evidence H t) H t s (Inl e)) s"
  (is "wp _ ?Q ?E s")
proof -
  have failed: "?Q (failure_result code) u" if "extends imap_harmless s u" "code \<in> set FAILURE_ERROR_CODES" for u code
    using that by (rule imap_ran_failure)
  have erred: "?E e u" if "extends imap_harmless s u" for e u
    using that by (rule imap_ran_error)
  have selected: "wp (delete_selected H P c t pw) ?Q ?E u"
    if ext: "nt_trace u = nt_trace s @ k" "list_all (\<lambda>x. imap_harmless (fst x)) k"
      and cap: "(ImapCapability, Inr (Status ''OK'' d)) \<in> set k" "capabilities d = Inr caps" "''UIDPLUS'' \<in> set caps"
      and sel: "encode_mailbox_name (tg_folder t) = Inr m" "(ImapSelect m False, Inr (Status ''OK'' d')) \<in> set k"
    for u k d caps m d'
  proof (rule wp_mono [OF wp_selected [OF P]])
    have K: "evidence H t (k @ pre)" if "observed_intact H t pre" for pre
      using that cap sel by (auto simp: evidence_def intro: observed_extend)
    show "ran (observed_intact H t) H t u (Inr r) v \<Longrightarrow> ?Q r v" for r v
      by (erule imap_ran_before [OF ext]) (use K in blast)
    show "ran (observed_intact H t) H t u (Inl e) v \<Longrightarrow> ?E e v" for e v
      by (erule imap_ran_before [OF ext]) (use K in blast)
  qed
  have select: "wp (seq (select_ok P t False) (\<lambda>selected. if \<not> selected
        then ret (failure_result ''PROVIDER_REJECTED'') else delete_selected H P c t pw)) ?Q ?E u"
    if ext: "nt_trace u = nt_trace s @ k" "list_all (\<lambda>x. imap_harmless (fst x)) k"
      and cap: "(ImapCapability, Inr (Status ''OK'' d)) \<in> set k" "capabilities d = Inr caps" "''UIDPLUS'' \<in> set caps"
    for u k d caps
  proof (cases "encode_mailbox_name (tg_folder t)")
    case (Inl e)
    with ext show ?thesis
      by (auto simp: select_ok_def wp_rules extends_def intro!: erred)
  next
    case (Inr m)
    show ?thesis
      unfolding wp_seq select_ok_def Inr wp_lift wp_ret wp_if sum.case
    proof (rule wp_imap_call)
      fix st data p
      let ?e = "(ImapSelect m False, Inr (Status st data)) :: event"
      let ?u = "logged (ImapSelect m False) (Inr (Status st data)) p u"
      have t: "nt_trace ?u = nt_trace s @ (k @ [?e])" "list_all (\<lambda>x. imap_harmless (fst x)) (k @ [?e])"
        using ext by simp_all
      then have x: "extends imap_harmless s ?u" by (auto simp: extends_def)
      show "(if fst (st, data) \<noteq> ''OK'' then ?Q (failure_result ''PROVIDER_REJECTED'')
          else wp (delete_selected H P c t pw) ?Q ?E) ?u"
        using failed [OF x] selected [OF t, of d caps m data] cap Inr by (cases "st = ''OK''") simp_all
    next
      fix e r p show "?E e (logged (ImapSelect m False) r p u)"
        using ext by (intro erred) (auto simp: extends_def)
    qed
  qed
  have capability: "wp (seq (imap_call P ImapCapability) (\<lambda>r.
           if fst r \<noteq> ''OK'' then ret (failure_result ''SAFE_DELETE_UNSUPPORTED'')
           else seq (lift_result (capabilities (snd r))) (\<lambda>caps.
             if ''UIDPLUS'' \<notin> set caps then ret (failure_result ''SAFE_DELETE_UNSUPPORTED'')
             else seq (select_ok P t False) (\<lambda>selected.
               if \<not> selected then ret (failure_result ''PROVIDER_REJECTED'')
               else delete_selected H P c t pw)))) ?Q ?E u"
    if ext: "extends imap_harmless s u" for u
    unfolding wp_seq [of "imap_call _ _"] wp_if wp_ret
  proof (rule wp_imap_call)
    fix st data p
    let ?e = "(ImapCapability, Inr (Status st data)) :: event"
    let ?u = "logged ImapCapability (Inr (Status st data)) p u"
    from ext obtain k where t: "nt_trace ?u = nt_trace s @ (k @ [?e])"
      "list_all (\<lambda>x. imap_harmless (fst x)) (k @ [?e])"
      by (auto simp: extends_def)
    then have x: "extends imap_harmless s ?u" unfolding extends_def by blast
    have "wp (seq (lift_result (capabilities data)) (\<lambda>caps.
             if ''UIDPLUS'' \<notin> set caps then ret (failure_result ''SAFE_DELETE_UNSUPPORTED'')
             else seq (select_ok P t False) (\<lambda>selected.
               if \<not> selected then ret (failure_result ''PROVIDER_REJECTED'')
               else delete_selected H P c t pw))) ?Q ?E ?u" if "st = ''OK''"
    proof (cases "capabilities data")
      case (Inl e)
      then show ?thesis using erred [OF x] by (simp add: wp_rules)
    next
      case (Inr caps)
      show ?thesis
        unfolding wp_seq [of "lift_result _"] wp_lift Inr sum.case wp_if wp_ret
        using failed [OF x] select [OF t, of data caps] Inr that by simp
    qed
    then show "(if fst (st, data) \<noteq> ''OK'' then ?Q (failure_result ''SAFE_DELETE_UNSUPPORTED'')
        else wp (seq (lift_result (capabilities (snd (st, data)))) (\<lambda>caps.
             if ''UIDPLUS'' \<notin> set caps then ret (failure_result ''SAFE_DELETE_UNSUPPORTED'')
             else seq (select_ok P t False) (\<lambda>selected.
               if \<not> selected then ret (failure_result ''PROVIDER_REJECTED'')
               else delete_selected H P c t pw))) ?Q ?E) ?u"
      using failed [OF x] by simp
  next
    fix e r p show "?E e (logged ImapCapability r p u)"
      using ext by (intro erred) (auto intro: extends_trans)
  qed
  have login: "wp (seq (login_ok P c pw) (\<lambda>logged_in. if \<not> logged_in
      then ret (failure_result ''PROVIDER_REJECTED'') else
      seq (imap_call P ImapCapability) (\<lambda>r.
           if fst r \<noteq> ''OK'' then ret (failure_result ''SAFE_DELETE_UNSUPPORTED'')
           else seq (lift_result (capabilities (snd r))) (\<lambda>caps.
             if ''UIDPLUS'' \<notin> set caps then ret (failure_result ''SAFE_DELETE_UNSUPPORTED'')
             else seq (select_ok P t False) (\<lambda>selected.
               if \<not> selected then ret (failure_result ''PROVIDER_REJECTED'')
               else delete_selected H P c t pw))))) ?Q ?E u" if "extends imap_harmless s u" for u
    unfolding wp_seq [of "login_ok _ _ _"] wp_if wp_ret
    by (rule adds_wp [OF harmless_login])
       (use that in \<open>auto intro!: failed capability erred intro: extends_trans\<close>)
  have bound: "wp (seq (bind_client True) m) ?Q ?E u"
    if "\<And>v. extends imap_harmless s v \<Longrightarrow> wp m' ?Q ?E v" "extends imap_harmless s u" "m = (\<lambda>x. m')" for m m' u
    unfolding wp_seq that(3)
    by (rule adds_wp [OF adds_bind_client]) (use that in \<open>auto intro!: erred intro: extends_trans\<close>)
  show ?thesis
    unfolding delete_session_def wp_seq [of "imap_open _ _"]
    by (rule adds_wp [OF harmless_open]) (auto intro!: erred bound [OF login])
qed

section \<open>The adapter's contract\<close>

definition imap_contract :: "host \<Rightarrow> target \<Rightarrow> event list \<Rightarrow> mutation_result result \<Rightarrow> bool" where
  "imap_contract H t l r \<longleftrightarrow> (\<exists>pre m post. l = pre @ m @ post \<and>
     list_all (\<lambda>x. imap_harmless (fst x)) pre \<and> list_all (\<lambda>x. imap_harmless (fst x)) post \<and>
     mutation_events t m \<and> (m \<noteq> [] \<longrightarrow> evidence H t pre) \<and>
     (case r of Inl e \<Rightarrow> True | Inr x \<Rightarrow> justified H t x pre m post))"

lemma contract_error: "imap_contract H t l r \<Longrightarrow> imap_contract H t l (Inl e)"
  unfolding imap_contract_def by (elim exE conjE, intro exI conjI) (assumption | simp)+

lemma wp_imap_delete:
  fixes s :: "'s net"
  assumes P: "library_client P"
  shows "wp (imap_delete H P A t)
     (\<lambda>r u. \<exists>l. nt_trace u = nt_trace s @ l \<and> imap_contract H t l (Inr r))
     (\<lambda>e u. \<exists>l. nt_trace u = nt_trace s @ l \<and> imap_contract H t l (Inl e)) s"
  (is "wp _ ?Q ?E s")
proof (cases "\<exists>c pw. imap_valid A t = Some t \<and> ac_imap (im_account A) = Some c \<and>
    h_environ H (im_variable A) = Some pw \<and> pw \<noteq> []")
  case False
  have quiet: "?Q (failure_result code) s" if "code \<in> set FAILURE_ERROR_CODES" for code
    unfolding imap_contract_def justified_def using that
    by (intro exI [of _ "[]"]) (auto simp: mutation_events_def)
  have "imap_valid A t = None \<or> imap_valid A t = Some t"
    by (auto simp: imap_valid_def split: target.split option.split)
  with False have "imap_delete H P A t = ret (failure_result ''IDENTITY_MISMATCH'') \<or>
      imap_delete H P A t = ret (failure_result ''PROVIDER_REJECTED'')"
    by (auto simp: imap_delete_def split: option.splits)
  with quiet show ?thesis by auto
next
  case True
  then obtain c pw where v: "imap_valid A t = Some t" "ac_imap (im_account A) = Some c"
    "h_environ H (im_variable A) = Some pw" "pw \<noteq> []" by blast
  let ?R = "\<lambda>r u. ran (evidence H t) H t s r u"
  have contract: "\<exists>l. nt_trace u = nt_trace s @ l \<and> imap_contract H t l r" if "?R r u" for r u
    using that unfolding ran_def imap_contract_def by (fastforce split: sum.splits)
  have session: "wp (delete_session H P c t pw) (\<lambda>r. ?R (Inr r)) (\<lambda>e. ?R (Inl e)) u"
    if "extends imap_harmless s u" for u
  proof (rule wp_mono [OF wp_delete_session [OF P]])
    from that obtain k where k: "nt_trace u = nt_trace s @ k" "list_all (\<lambda>x. imap_harmless (fst x)) k"
      unfolding extends_def by blast
    have K: "evidence H t (k @ pre)" if "evidence H t pre" for pre
      using that by (auto simp: evidence_def intro: observed_extend)
    have lifted: "ran (evidence H t) H t u r v \<Longrightarrow> ?R r v" for r v
      by (erule imap_ran_before [OF k]) (use K in blast)
    show "ran (evidence H t) H t u (Inr r) v \<Longrightarrow> ?R (Inr r) v" for r v by (rule lifted)
    show "ran (evidence H t) H t u (Inl e) v \<Longrightarrow> ?R (Inl e) v" for e v by (rule lifted)
  qed
  have caught: "?R (Inr (failure_result ''PROVIDER_REJECTED'')) u" if "?R (Inl e) u" "imap_failure e" for e u
  proof -
    have "extends imap_harmless s u"
      using that unfolding ran_def extends_def by (elim exE conjE) (auto intro: exI [of _ "_ @ _"])
    then show ?thesis by (rule imap_ran_failure) simp
  qed
  have unlock: "wp (command_done P (Unlock f)) (\<lambda>x. ?R r) E u" if "?R r u" for r E f u
    unfolding command_done_def wp_seq wp_ret
  proof (rule wp_issue)
    fix x p
    show "?R r (logged (Unlock f) (Inr x) p u)"
      by (rule imap_ran_after [OF that]) simp
  next
    fix e p assume "P (Unlock f) (nt_peer u) = (Inl e, p)"
    with P show "E e (logged (Unlock f) (Inl e) p u)"
      unfolding library_client_def by (metis Inl_Inr_False prod.inject)
  qed
  have quiet: "?R (Inr (failure_result ''PROVIDER_REJECTED'')) u" if "extends imap_harmless s u" for u
    using that by (rule imap_ran_failure) simp
  have locked: "wp (attempt (folder_lock H P (im_config A) (im_account A) (tg_folder t)
        (delete_session H P c t pw)) imap_failure (\<lambda>e. ret (failure_result ''PROVIDER_REJECTED'')))
      (\<lambda>r. ?R (Inr r)) (\<lambda>e. ?R (Inl e)) u" if u: "extends imap_harmless s u" for u
  proof (cases "folder_lock_path H (im_config A) (im_account A) (tg_folder t)")
    case (Inl e)
    then show ?thesis using u
      by (simp add: folder_lock_def wp_rules quiet imap_ran_error)
  next
    case (Inr f)
    have lock: "wp (issue P (TryLock f)) (\<lambda>r. wp (if r = Busy then fail ImapSyncBusyError
          else finalize (delete_session H P c t pw) (command_done P (Unlock f)))
        (\<lambda>r. ?R (Inr r)) (\<lambda>e. if imap_failure e then ?R (Inr (failure_result ''PROVIDER_REJECTED'')) else ?R (Inl e)))
      (\<lambda>e. if imap_failure e then ?R (Inr (failure_result ''PROVIDER_REJECTED'')) else ?R (Inl e)) u"
    proof (rule wp_issue)
      fix x p
      let ?v = "logged (TryLock f) (Inr x) p u"
      have ext: "extends imap_harmless s ?v" using u by (auto intro: extends_trans)
      have "wp (finalize (delete_session H P c t pw) (command_done P (Unlock f)))
          (\<lambda>r. ?R (Inr r)) (\<lambda>e. if imap_failure e then ?R (Inr (failure_result ''PROVIDER_REJECTED'')) else ?R (Inl e)) ?v"
        unfolding wp_finalize
        by (rule wp_mono [OF session [OF ext]]) (auto intro!: unlock intro: caught)
      then show "wp (if x = Busy then fail ImapSyncBusyError
          else finalize (delete_session H P c t pw) (command_done P (Unlock f)))
        (\<lambda>r. ?R (Inr r)) (\<lambda>e. if imap_failure e then ?R (Inr (failure_result ''PROVIDER_REJECTED'')) else ?R (Inl e)) ?v"
        using quiet [OF ext] by (cases "x = Busy") (simp_all add: imap_failure_def)
    next
      fix e p
      have "extends imap_harmless s (logged (TryLock f) (Inl e) p u)" using u by (auto intro: extends_trans)
      then show "(if imap_failure e then ?R (Inr (failure_result ''PROVIDER_REJECTED'')) else ?R (Inl e))
          (logged (TryLock f) (Inl e) p u)"
        by (simp add: quiet imap_ran_error)
    qed
    then show ?thesis
      unfolding folder_lock_def Inr with_lock_def wp_attempt wp_ret wp_seq wp_lift sum.case .
  qed
  have closing: "wp (close_client P) (\<lambda>x u. \<exists>l. nt_trace u = nt_trace s @ l \<and> imap_contract H t l r)
      (\<lambda>e u. \<exists>l. nt_trace u = nt_trace s @ l \<and> imap_contract H t l (Inl e)) u" if "?R r u" for r u
    by (rule adds_wp [OF harmless_close])
       (metis contract imap_ran_after [OF that], metis contract contract_error imap_ran_after [OF that])
  have start: "extends imap_harmless s (s\<lparr>nt_client := False\<rparr>)"
    by (simp add: extends_def)
  have "wp (finalize (attempt (folder_lock H P (im_config A) (im_account A) (tg_folder t)
          (delete_session H P c t pw)) imap_failure (\<lambda>e. ret (failure_result ''PROVIDER_REJECTED'')))
        (close_client P)) ?Q ?E (s\<lparr>nt_client := False\<rparr>)"
    unfolding wp_finalize
    by (rule wp_mono [OF locked [OF start]]; rule wp_mono [OF closing]) (assumption | blast)+
  then show ?thesis
    by (simp add: imap_delete_def v bind_client_def wp_seq wp_write)
qed

lemma imap_delete_run:
  assumes "library_client P" and "imap_delete H P A t s = (r, u)"
  shows "\<exists>pre m post. nt_trace u = nt_trace s @ pre @ m @ post \<and>
     list_all (\<lambda>x. imap_harmless (fst x)) pre \<and> list_all (\<lambda>x. imap_harmless (fst x)) post \<and>
     mutation_events t m \<and> (m \<noteq> [] \<longrightarrow> evidence H t pre) \<and>
     (case r of Inl e \<Rightarrow> True | Inr x \<Rightarrow> justified H t x pre m post)"
proof -
  from wp_imap_delete [OF assms(1), of H A t s] assms(2)
  obtain l where "nt_trace u = nt_trace s @ l" "imap_contract H t l r"
    by (auto simp: wp_def split: sum.splits)
  then show ?thesis unfolding imap_contract_def by auto
qed

text \<open>
  C20.  One exact deletion.  Whatever the server answers, and wherever the session breaks, a run of
  \<open>delete\<close> sends harmless commands except for at most one \<open>UID STORE\<close> of the deletion mark and, only
  after the server accepted it, at most one \<open>UID EXPUNGE\<close>, both for the target's UID; neither is sent
  before the run saw the UIDPLUS capability, selected the target's folder for writing, and read,
  under the target's \<open>UIDVALIDITY\<close>, an unmarked message with the canonical digest.  Success is
  reported only when a read after the last mutating command found no message, a failure after a
  mutating command only when such a read found the message intact; anything else is unknown.
\<close>

theorem imap_delete_is_exact:
  assumes "library_client P" and "imap_delete H P A t s = (r, u)"
  shows "\<exists>pre m post. nt_trace u = nt_trace s @ pre @ m @ post \<and>
     list_all (\<lambda>x. imap_harmless (fst x)) pre \<and> list_all (\<lambda>x. imap_harmless (fst x)) post \<and>
     mutation_events t m \<and> (m \<noteq> [] \<longrightarrow> evidence H t pre) \<and>
     (case r of Inl e \<Rightarrow> True | Inr x \<Rightarrow> justified H t x pre m post)"
  by (rule imap_delete_run [OF assms])

interpretation imap: deletion_adapter "\<lambda>P. imap_delete H P A" library_client imap_harmless mutation_events
  "\<lambda>t m. evidence H t" observed_absent "observed_intact H" "\<lambda>m. m = []" for H A
proof
  fix P :: "'a peer" and t s r u
  assume "library_client P" "imap_delete H P A t s = (r, u)"
  from imap_delete_run [OF this]
  obtain pre m post where c: "nt_trace u = nt_trace s @ pre @ m @ post"
    "list_all (\<lambda>x. imap_harmless (fst x)) pre" "list_all (\<lambda>x. imap_harmless (fst x)) post"
    "mutation_events t m" "m \<noteq> [] \<longrightarrow> evidence H t pre"
    "case r of Inl e \<Rightarrow> True | Inr x \<Rightarrow> justified H t x pre m post" by blast
  have "justified_by observed_absent (observed_intact H) (\<lambda>m. m = []) t x pre m post" if "r = Inr x" for x
    using c(6) that by (auto simp: justified_def justified_by_def settled_def split: if_split_asm)
  with c show "\<exists>pre m post. nt_trace u = nt_trace s @ pre @ m @ post \<and>
        list_all (\<lambda>x. imap_harmless (fst x)) pre \<and> list_all (\<lambda>x. imap_harmless (fst x)) post \<and>
        mutation_events t m \<and> (m \<noteq> [] \<longrightarrow> evidence H t pre) \<and>
        (\<forall>x. r = Inr x \<longrightarrow> justified_by observed_absent (observed_intact H) (\<lambda>m. m = []) t x pre m post)"
    by blast
qed

section \<open>What an observation proves\<close>

definition observes :: "host \<Rightarrow> target \<Rightarrow> 's net \<Rightarrow> string \<Rightarrow> 's net \<Rightarrow> bool" where
  "observes H t s r u \<longleftrightarrow> (\<exists>l. nt_trace u = nt_trace s @ l \<and>
     list_all (\<lambda>x. imap_harmless (fst x)) l \<and> r \<in> set OBSERVATION_STATES \<and>
     (r = ''confirmed-absent'' \<longrightarrow> observed_absent t l) \<and>
     (r = ''confirmed-present-match'' \<longrightarrow> observed_intact H t l))"

lemma observes_nothing:
  "extends imap_harmless s u \<Longrightarrow> observes H t s ''unknown'' u"
  "extends imap_harmless s u \<Longrightarrow> observes H t s ''identity-conflict'' u"
  by (auto simp: extends_def observes_def)

lemma observes_before: "extends imap_harmless s u \<Longrightarrow> observes H t u r v \<Longrightarrow> observes H t s r v"
proof -
  assume "extends imap_harmless s u" "observes H t u r v"
  then obtain k l where k: "nt_trace v = nt_trace s @ (k @ l)" "list_all (\<lambda>x. imap_harmless (fst x)) (k @ l)"
    "r \<in> set OBSERVATION_STATES"
    "r = ''confirmed-absent'' \<longrightarrow> observed_absent t l" "r = ''confirmed-present-match'' \<longrightarrow> observed_intact H t l"
    unfolding extends_def observes_def by (elim exE conjE) simp
  then show ?thesis
    unfolding observes_def using observed_extend(2,4) by blast
qed

lemma observes_after: "observes H t s r u \<Longrightarrow> extends imap_harmless u v \<Longrightarrow> observes H t s r v"
proof -
  assume "observes H t s r u" "extends imap_harmless u v"
  then obtain l k where k: "nt_trace v = nt_trace s @ (l @ k)" "list_all (\<lambda>x. imap_harmless (fst x)) (l @ k)"
    "list_all (\<lambda>x. imap_harmless (fst x)) k" "r \<in> set OBSERVATION_STATES"
    "r = ''confirmed-absent'' \<longrightarrow> observed_absent t l" "r = ''confirmed-present-match'' \<longrightarrow> observed_intact H t l"
    unfolding extends_def observes_def by (elim exE conjE) simp
  then show ?thesis
    unfolding observes_def using observed_extend(1,3) by blast
qed

lemma observes_extends: "observes H t s r u \<Longrightarrow> extends imap_harmless s u"
  by (auto simp: extends_def observes_def)

lemma wp_observe_selected:
  fixes s :: "'s net"
  shows "wp (observe_selected H P t) (observes H t s) (\<lambda>e. extends imap_harmless s) s"
  unfolding observe_selected_def
proof (rule wp_observe)
  fix ob and u :: "'s net" and l
  assume l: "nt_trace u = nt_trace s @ l" "last_observed t ob l" "list_all (\<lambda>x. imap_harmless (fst x)) l"
  let ?r = "if \<not> ob_present ob then ''confirmed-absent''
      else if ob_deleted ob \<or> ob_raw ob = None then ''identity-conflict''
      else if intact H t ob then ''confirmed-present-match'' else ''identity-conflict''"
  have "?r = ''confirmed-absent'' \<Longrightarrow> \<not> ob_present ob" "?r = ''confirmed-present-match'' \<Longrightarrow> intact H t ob"
    "?r \<in> set OBSERVATION_STATES"
    by (simp_all split: if_split_asm)
  with l show "observes H t s ?r u"
    unfolding observes_def observed_absent_def observed_intact_def by blast
qed (simp_all add: observes_nothing)

lemma wp_imap_observe:
  fixes s :: "'s net"
  shows "wp (imap_observe H P A t) (observes H t s) (\<lambda>e. extends imap_harmless s) s"
proof (cases "\<exists>c pw. imap_valid A t = Some t \<and> ac_imap (im_account A) = Some c \<and>
    h_environ H (im_variable A) = Some pw \<and> pw \<noteq> []")
  case False
  have "imap_valid A t = None \<or> imap_valid A t = Some t"
    by (auto simp: imap_valid_def split: target.split option.split)
  with False have "imap_observe H P A t = ret ''identity-conflict'' \<or> imap_observe H P A t = ret ''unknown''"
    by (auto simp: imap_observe_def split: option.splits)
  then show ?thesis by (auto simp: observes_nothing)
next
  case True
  then obtain c pw where v: "imap_valid A t = Some t" "ac_imap (im_account A) = Some c"
    "h_environ H (im_variable A) = Some pw" "pw \<noteq> []" by blast
  let ?I = "extends imap_harmless s"
  let ?session = "seq (imap_open P c) (\<lambda>u. seq (bind_client True) (\<lambda>v.
      seq (login_ok P c pw) (\<lambda>logged_in. if \<not> logged_in then ret ''unknown''
        else seq (select_ok P t True) (\<lambda>selected.
          if \<not> selected then ret ''unknown'' else observe_selected H P t))))"
  have selected: "wp (observe_selected H P t) (observes H t s) (\<lambda>e. ?I) u" if "?I u" for u
    by (rule wp_mono [OF wp_observe_selected]) (use that in \<open>auto intro: observes_before extends_trans\<close>)
  have select: "wp (seq (select_ok P t True) (\<lambda>selected. if \<not> selected then ret ''unknown''
      else observe_selected H P t)) (observes H t s) (\<lambda>e. ?I) u" if "?I u" for u
    unfolding wp_seq wp_if wp_ret
    by (rule adds_wp [OF harmless_select])
       (use that in \<open>auto intro!: observes_nothing selected intro: extends_trans\<close>)
  have login: "wp (seq (login_ok P c pw) (\<lambda>logged_in. if \<not> logged_in then ret ''unknown''
      else seq (select_ok P t True) (\<lambda>selected. if \<not> selected then ret ''unknown''
        else observe_selected H P t))) (observes H t s) (\<lambda>e. ?I) u" if "?I u" for u
    unfolding wp_seq [of "login_ok _ _ _"] wp_if wp_ret
    by (rule adds_wp [OF harmless_login])
       (use that in \<open>auto intro!: observes_nothing select intro: extends_trans\<close>)
  have session: "wp ?session (observes H t s) (\<lambda>e. ?I) u" if "?I u" for u
    unfolding wp_seq [of "imap_open _ _"] wp_seq [of "bind_client _"]
    by (rule adds_wp [OF harmless_open], rule adds_wp [OF adds_bind_client])
       (use that in \<open>auto intro!: login intro: extends_trans\<close>)
  have unlock: "wp (command_done P (Unlock f)) (\<lambda>x. observes H t s r) (\<lambda>e. ?I) u"
    if "observes H t s r u" for f r u
    by (rule adds_wp [of imap_harmless "\<lambda>e. True"], (intro adds_intros; simp))
       (use that in \<open>auto intro: observes_after extends_trans [OF observes_extends]\<close>)
  have release: "wp (command_done P (Unlock f)) (\<lambda>x. ?I) (\<lambda>e. ?I) u" if "?I u" for f u
    by (rule adds_wp [of imap_harmless "\<lambda>e. True"], (intro adds_intros; simp))
       (use that in \<open>auto intro: extends_trans\<close>)
  have locked: "wp (folder_lock H P (im_config A) (im_account A) (tg_folder t) ?session)
      (observes H t s) (\<lambda>e. ?I) u" if u: "?I u" for u
  proof (cases "folder_lock_path H (im_config A) (im_account A) (tg_folder t)")
    case (Inl e)
    with u show ?thesis by (simp add: folder_lock_def wp_rules)
  next
    case (Inr f)
    have "wp (finalize ?session (command_done P (Unlock f))) (observes H t s) (\<lambda>e. ?I) v" if "?I v" for v
      unfolding wp_finalize
      by (rule wp_mono [OF session [OF that]]) (use unlock release in blast)+
    then show ?thesis
      unfolding folder_lock_def Inr with_lock_def wp_seq wp_lift sum.case wp_if
      using u extends_trans [OF u extends_logged [of imap_harmless "TryLock f"]]
      by (intro wp_issue) (auto simp del: wp_finalize)
  qed
  have start: "?I (s\<lparr>nt_client := False\<rparr>)" by (simp add: extends_def)
  have "wp (attempt (folder_lock H P (im_config A) (im_account A) (tg_folder t) ?session)
      imap_failure (\<lambda>e. ret ''unknown'')) (observes H t s) (\<lambda>e. ?I) (s\<lparr>nt_client := False\<rparr>)"
    unfolding wp_attempt wp_ret
    by (rule wp_mono [OF locked [OF start]]) (auto intro: observes_nothing)
  moreover have "wp (close_client P) (\<lambda>x. observes H t s r) (\<lambda>e. ?I) u" if "observes H t s r u" for r u
    by (rule adds_wp [OF harmless_close])
       (use that in \<open>auto intro: observes_after extends_trans [OF observes_extends]\<close>)
  moreover have "wp (close_client P) (\<lambda>x. ?I) (\<lambda>e. ?I) u" if "?I u" for u
    by (rule adds_wp [OF harmless_close]) (use that in \<open>auto intro: extends_trans\<close>)
  ultimately have "wp (finalize (attempt (folder_lock H P (im_config A) (im_account A) (tg_folder t) ?session)
      imap_failure (\<lambda>e. ret ''unknown'')) (close_client P)) (observes H t s) (\<lambda>e. ?I) (s\<lparr>nt_client := False\<rparr>)"
    unfolding wp_finalize by (elim wp_mono) blast+
  then show ?thesis
    by (simp add: imap_observe_def v bind_client_def wp_seq wp_write)
qed


end
