(* ===== verification/PopStream.thy ===== *)
theory PopStream
  imports PyText
begin

text \<open>
  The byte stream of a POP3 connection, as \<open>_read_until\<close>, \<open>_read_wire_line\<close>, \<open>multiline\<close> and \<open>uidls\<close>
  of \<open>pop3.py\<close> and \<open>pop3_mutation.py\<close> consume it: a buffer of octets received and not consumed, and
  the chunks that \<open>recv\<close> will return.  The lemmas show that what is read does not depend on how the
  stream is cut into chunks, that a dot-stuffed message comes back octet for octet, and that an
  accepted UIDL listing is one-to-one.
\<close>

section \<open>Lines\<close>

abbreviation CRLF :: bytes where
  "CRLF \<equiv> [CHR 0x0D, CHR 0x0A]"

text \<open>\<open>buffer.split(CRLF, 1)\<close>, when the buffer has a CR LF.\<close>

fun split_line :: "bytes \<Rightarrow> (bytes \<times> bytes) option" where
  "split_line (c # d # cs) =
     (if c = CHR 0x0D \<and> d = CHR 0x0A then Some ([], cs)
      else map_option (\<lambda>x. (c # fst x, snd x)) (split_line (d # cs)))"
| "split_line cs = None"

lemma split_line_Some: "split_line b = Some (l, r) \<Longrightarrow> b = l @ CRLF @ r"
  by (induction b arbitrary: l rule: split_line.induct) (auto split: if_splits)

text \<open>A line whose first CR LF is the one that ends it.\<close>

definition crlf_free :: "bytes \<Rightarrow> bool" where
  "crlf_free l \<longleftrightarrow> split_line l = None"

lemma split_line_end: "crlf_free l \<Longrightarrow> split_line (l @ CRLF @ r) = Some (l, r)"
proof (induction l)
  case (Cons c l)
  then show ?case by (cases l) (auto simp: crlf_free_def split: if_splits)
qed simp

lemma split_line_more: "split_line b = Some (l, r) \<Longrightarrow> split_line (b @ x) = Some (l, r @ x)"
  by (induction b arbitrary: l rule: split_line.induct) (auto split: if_splits)

lemma split_line_part: "split_line b = Some (l, r) \<Longrightarrow> crlf_free l"
  unfolding crlf_free_def
proof (induction b arbitrary: l rule: split_line.induct)
  case (1 c d cs)
  show ?case
  proof (cases "c = CHR 0x0D \<and> d = CHR 0x0A")
    case False
    with "1.prems" obtain l' where l': "split_line (d # cs) = Some (l', r)" "l = c # l'" by auto
    have "split_line l' = None" by (rule "1.IH" [OF False l'(1)])
    moreover have "l' = [] \<or> hd l' = d" using split_line_Some [OF l'(1)] by (cases l') auto
    ultimately show ?thesis using l'(2) False by (cases l') auto
  qed (use "1.prems" in simp)
qed simp_all

lemma split_line_exists: "\<exists>l r. split_line (p @ CRLF @ x) = Some (l, r)"
proof (cases "split_line p")
  case None
  then show ?thesis using split_line_end [of p x] by (auto simp: crlf_free_def)
next
  case (Some lr)
  then show ?thesis using split_line_more [of p "fst lr" "snd lr" "CRLF @ x"] by auto
qed

text \<open>
  \<open>_read_until(CRLF)\<close>: receives until the buffer has a CR LF.  \<open>eof\<close> is what is raised at the end
  of the stream (an empty chunk, which every later \<open>recv\<close> returns again); a peer that sends nothing
  more runs into the time limit of the socket.
\<close>

fun read_line :: "error \<Rightarrow> bytes \<Rightarrow> bytes list \<Rightarrow> bytes result \<times> bytes \<times> bytes list" where
  "read_line eof b q =
     (case split_line b of Some x \<Rightarrow> (Inr (fst x), snd x, q)
      | None \<Rightarrow>
          (case q of [] \<Rightarrow> (Inl TimeoutError, b, [])
           | c # q' \<Rightarrow> if c = [] then (Inl eof, b, q) else read_line eof (b @ c) q'))"

declare read_line.simps [simp del]

lemma read_line_now: "split_line b = Some (l, r) \<Longrightarrow> read_line e b q = (Inr l, r, q)"
  by (simp add: read_line.simps)

lemma read_line_empty: "split_line b = None \<Longrightarrow> read_line e b [] = (Inl TimeoutError, b, [])"
  by (simp add: read_line.simps)

lemma read_line_recv:
  "split_line b = None \<Longrightarrow> read_line e b (c # q) =
     (if c = [] then (Inl e, b, c # q) else read_line e (b @ c) q)"
  by (subst read_line.simps) simp

lemma read_line_consumes:
  "read_line e b q = (Inr l, b', q') \<Longrightarrow> b @ concat q = l @ CRLF @ b' @ concat q'"
proof (induction q arbitrary: b)
  case Nil
  then show ?case by (cases "split_line b") (auto simp: read_line.simps dest: split_line_Some)
next
  case (Cons c q)
  show ?case
  proof (cases "split_line b")
    case None
    with Cons.prems have "read_line e (b @ c) q = (Inr l, b', q')"
      by (simp add: read_line_recv split: if_splits)
    from Cons.IH [OF this] show ?thesis by simp
  next
    case (Some x)
    with Cons.prems show ?thesis
      using split_line_Some [of b "fst x" "snd x"] by (auto simp: read_line.simps)
  qed
qed

lemma read_line_length:
  "read_line e b q = (Inr l, b', q') \<Longrightarrow> length b' + length (concat q') < length b + length (concat q)"
  using read_line_consumes [of e b q l b' q'] by (auto dest!: arg_cong [where f = length])

text \<open>Reading a line depends only on the octets that come, not on the chunks they come in.\<close>

lemma read_line_any_chunks:
  assumes "[] \<notin> set q" and "split_line (b @ concat q) = Some (l, r)"
  shows "\<exists>b' q'. read_line e b q = (Inr l, b', q') \<and> b' @ concat q' = r \<and> set q' \<subseteq> set q"
  using assms
proof (induction q arbitrary: b)
  case Nil
  then show ?case by (auto simp: read_line_now)
next
  case (Cons c q)
  show ?case
  proof (cases "split_line b")
    case None
    with Cons.prems(1) have "read_line e b (c # q) = read_line e (b @ c) q"
      by (auto simp: read_line_recv)
    moreover have "\<exists>b' q'. read_line e (b @ c) q = (Inr l, b', q') \<and> b' @ concat q' = r \<and> set q' \<subseteq> set q"
      by (rule Cons.IH) (use Cons.prems in auto)
    ultimately show ?thesis by auto
  next
    case (Some x)
    with split_line_more [of b "fst x" "snd x" "concat (c # q)"] Cons.prems(2)
    have "x = (l, snd x)" "snd x @ concat (c # q) = r" by auto
    with Some show ?thesis using read_line_now [of b l "snd x"] by auto
  qed
qed

section \<open>Multi-line responses\<close>

definition unstuff :: "bytes \<Rightarrow> bytes" where
  "unstuff line = (if starts_with ''..'' line then drop 1 line else line)"

text \<open>The loop of \<open>multiline\<close> after the command line was accepted.\<close>

function read_lines ::
  "error \<Rightarrow> bytes \<Rightarrow> bytes \<Rightarrow> bytes list \<Rightarrow> bytes result \<times> bytes \<times> bytes list" where
  "read_lines eof acc b q =
     (case read_line eof b q of
        (Inl e, b', q') \<Rightarrow> (Inl e, b', q')
      | (Inr l, b', q') \<Rightarrow>
          if l @ CRLF = ''.'' @ CRLF then (Inr acc, b', q')
          else read_lines eof (acc @ unstuff (l @ CRLF)) b' q')"
  by pat_completeness auto
termination
  by (relation "measure (\<lambda>(e, acc, b, q). length (b @ concat q))")
    (auto dest!: sym [of "(Inr _, _)"] read_line_length)

declare read_lines.simps [simp del]

text \<open>What a server sends for a message: each line with a leading dot doubled, then the lone dot.\<close>

function message_lines :: "bytes \<Rightarrow> bytes list" where
  "message_lines m = (case split_line m of None \<Rightarrow> [] | Some x \<Rightarrow> fst x # message_lines (snd x))"
  by pat_completeness auto
termination
  by (relation "measure length") (auto dest: split_line_Some)

declare message_lines.simps [simp del]

definition stuffed_line :: "bytes \<Rightarrow> bytes" where
  "stuffed_line l = (if starts_with ''.'' l then CHR ''.'' # l else l)"

definition stuffed :: "bytes \<Rightarrow> bytes" where
  "stuffed m = concat (map (\<lambda>l. stuffed_line l @ CRLF) (message_lines m)) @ ''.'' @ CRLF"

text \<open>A message is empty or ends in CR LF.\<close>

definition whole_lines :: "bytes \<Rightarrow> bool" where
  "whole_lines m \<longleftrightarrow> m = [] \<or> drop (length m - 2) m = CRLF"

lemma whole_linesD: "whole_lines m \<Longrightarrow> m \<noteq> [] \<Longrightarrow> m = take (length m - 2) m @ CRLF"
  unfolding whole_lines_def by (metis append_take_drop_id)

lemma whole_lines_tail:
  assumes "whole_lines (l @ CRLF @ r)" shows "whole_lines r"
proof (cases r rule: rev_cases)
  case (snoc r' d)
  have "l @ CRLF @ r \<noteq> []" by simp
  from whole_linesD [OF assms this] obtain p where p: "l @ CRLF @ r = p @ CRLF" by blast
  show ?thesis
  proof (cases r' rule: rev_cases)
    case Nil
    with p snoc have "l @ CRLF @ [d] = p @ CRLF" by simp
    then have "(l @ [CHR 0x0D]) @ [CHR 0x0A, d] = p @ CRLF" by simp
    then have "[CHR 0x0A, d] = CRLF" by (subst (asm) append_eq_append_conv) auto
    then show ?thesis by simp
  next
    case (snoc r'' c)
    with p \<open>r = r' @ [d]\<close> have "(l @ CRLF @ r'') @ [c, d] = p @ CRLF" by simp
    then have "[c, d] = CRLF" by (subst (asm) append_eq_append_conv) auto
    then show ?thesis using snoc \<open>r = r' @ [d]\<close> by (simp add: whole_lines_def)
  qed
qed (simp add: whole_lines_def)

lemma message_lines_join:
  "whole_lines m \<Longrightarrow> concat (map (\<lambda>l. l @ CRLF) (message_lines m)) = m"
proof (induction m rule: message_lines.induct)
  case (1 m)
  show ?case
  proof (cases "split_line m")
    case None
    have "m = []"
    proof (rule ccontr)
      assume "m \<noteq> []"
      with "1.prems" have "m = take (length m - 2) m @ CRLF" by (rule whole_linesD)
      with split_line_exists [of "take (length m - 2) m" "[]"] None show False by simp
    qed
    with None show ?thesis by (simp add: message_lines.simps)
  next
    case (Some x)
    have m: "m = fst x @ CRLF @ snd x" using Some by (intro split_line_Some) simp
    with "1.prems" have "whole_lines (snd x)" using whole_lines_tail by metis
    from "1.IH" [OF Some this] Some m show ?thesis by (subst message_lines.simps) simp
  qed
qed

lemma message_lines_free: "list_all crlf_free (message_lines m)"
proof (induction m rule: message_lines.induct)
  case (1 m)
  then show ?case
    by (cases "split_line m") (auto simp: message_lines.simps [of m] intro: split_line_part)
qed

lemma crlf_free_stuffed: "crlf_free l \<Longrightarrow> crlf_free (stuffed_line l)"
  by (cases l) (auto simp: crlf_free_def stuffed_line_def)

lemma unstuff_stuffed: "unstuff (stuffed_line l @ CRLF) = l @ CRLF"
  by (cases l rule: list.exhaust [case_product list.exhaust])
    (auto simp: unstuff_def stuffed_line_def starts_with_def)

lemma stuffed_not_end: "stuffed_line l @ CRLF \<noteq> ''.'' @ CRLF"
  by (cases l) (auto simp: stuffed_line_def starts_with_def)

lemma read_lines_stuffed_lines:
  assumes "list_all crlf_free ls" and "[] \<notin> set q"
    and "b @ concat q = concat (map (\<lambda>l. stuffed_line l @ CRLF) ls) @ ''.'' @ CRLF @ rest"
  shows "\<exists>b' q'. read_lines e acc b q = (Inr (acc @ concat (map (\<lambda>l. l @ CRLF) ls)), b', q') \<and>
    b' @ concat q' = rest \<and> [] \<notin> set q'"
  using assms
proof (induction ls arbitrary: acc b q)
  case Nil
  have "split_line (b @ concat q) = Some (''.'', rest)"
    using Nil.prems(3) split_line_end [of "''.''" rest] by (simp add: crlf_free_def)
  from read_line_any_chunks [OF Nil.prems(2) this, of e] obtain b' q'
    where "read_line e b q = (Inr ''.'', b', q')" "b' @ concat q' = rest" "set q' \<subseteq> set q" by blast
  with Nil.prems(2) show ?case by (subst read_lines.simps) auto
next
  case (Cons l ls)
  let ?rest = "concat (map (\<lambda>l. stuffed_line l @ CRLF) ls) @ ''.'' @ CRLF @ rest"
  have "crlf_free (stuffed_line l)" using Cons.prems(1) by (simp add: crlf_free_stuffed)
  from split_line_end [OF this, of ?rest] Cons.prems(3)
  have "split_line (b @ concat q) = Some (stuffed_line l, ?rest)" by simp
  from read_line_any_chunks [OF Cons.prems(2) this, of e] obtain b' q'
    where r: "read_line e b q = (Inr (stuffed_line l), b', q')" "b' @ concat q' = ?rest"
      and q': "set q' \<subseteq> set q" by blast
  have "\<exists>b'' q''. read_lines e (acc @ l @ CRLF) b' q' =
      (Inr ((acc @ l @ CRLF) @ concat (map (\<lambda>l. l @ CRLF) ls)), b'', q'') \<and>
      b'' @ concat q'' = rest \<and> [] \<notin> set q''"
    by (rule Cons.IH) (use Cons.prems(1,2) q' r(2) in auto)
  then show ?case
    using r(1) stuffed_not_end [of l] by (subst read_lines.simps) (simp add: unstuff_stuffed)
qed

lemma read_lines_stuffed:
  assumes "whole_lines m" and "[] \<notin> set q" and "b @ concat q = stuffed m @ rest"
  shows "\<exists>b' q'. read_lines e [] b q = (Inr m, b', q') \<and> b' @ concat q' = rest \<and> [] \<notin> set q'"
proof -
  have "b @ concat q = concat (map (\<lambda>l. stuffed_line l @ CRLF) (message_lines m)) @ ''.'' @ CRLF @ rest"
    using assms(3) by (simp add: stuffed_def)
  from read_lines_stuffed_lines [OF message_lines_free assms(2) this, of e "[]"]
  show ?thesis by (simp add: message_lines_join [OF assms(1)])
qed

section \<open>UIDL listings\<close>

text \<open>
  The loop of \<open>uidls\<close> over the lines of the response; the dictionary is the list of its items, the
  set of the UIDLs seen is their second components.  \<open>entry\<close> is the body of the loop.
\<close>

fun uidl_lines ::
  "((int \<times> string) list \<Rightarrow> bytes \<Rightarrow> (int \<times> string) result) \<Rightarrow> bytes list \<Rightarrow>
     (int \<times> string) list \<Rightarrow> (int \<times> string) list result" where
  "uidl_lines entry [] listing = Inr listing"
| "uidl_lines entry (line # ls) listing =
     (if line = [] then uidl_lines entry ls listing
      else rbind (entry listing line) (\<lambda>x. uidl_lines entry ls (listing @ [x])))"

definition parse_uidls ::
  "((int \<times> string) list \<Rightarrow> bytes \<Rightarrow> (int \<times> string) result) \<Rightarrow> error \<Rightarrow> bytes \<Rightarrow> (int \<times> string) list result" where
  "parse_uidls entry malformed data =
     rbind (uidl_lines entry (split_crlf [] data) []) (\<lambda>listing.
       if listing = [] \<and> data \<noteq> [] then Inl malformed else Inr listing)"

text \<open>The two bodies differ in what they raise for a UIDL that is not ASCII, and in the exceptions.\<close>

definition uidl_entry ::
  "error \<Rightarrow> error \<Rightarrow> error \<Rightarrow> (int \<times> string) list \<Rightarrow> bytes \<Rightarrow> (int \<times> string) result" where
  "uidl_entry malformed undecodable ambiguous listing line =
     (case split_ws byte_space [] line of
        [number, uidl] \<Rightarrow>
          if \<not> all_digits number then Inl malformed
          else rbind (py_int number) (\<lambda>n.
            if n \<le> 0 then Inl malformed
            else if \<not> list_all is_ascii uidl then Inl undecodable
            else if uidl = [] \<or> list_ex str_space uidl \<or> n \<in> fst ` set listing \<or> uidl \<in> snd ` set listing
            then Inl ambiguous
            else Inr (n, uidl))
      | _ \<Rightarrow> Inl malformed)"

text \<open>What the callers rely on: numbers and UIDLs are paired one-to-one, and both are usable.\<close>

definition sound_listing :: "(int \<times> string) list \<Rightarrow> bool" where
  "sound_listing l \<longleftrightarrow> distinct (map fst l) \<and> distinct (map snd l) \<and>
     list_all (\<lambda>x. 0 < fst x \<and> snd x \<noteq> [] \<and> list_all is_ascii (snd x) \<and> \<not> list_ex str_space (snd x)) l"

lemma uidl_entry_sound:
  "uidl_entry m u a listing line = Inr x \<Longrightarrow> sound_listing listing \<Longrightarrow> sound_listing (listing @ [x])"
  by (force simp: uidl_entry_def sound_listing_def rbind_Inr split: list.splits if_splits)

lemma uidl_lines_sound:
  "uidl_lines (uidl_entry m u a) ls listing = Inr l \<Longrightarrow> sound_listing listing \<Longrightarrow> sound_listing l"
proof (induction ls arbitrary: listing)
  case (Cons line ls)
  then show ?case by (auto simp: rbind_Inr split: if_splits dest: uidl_entry_sound)
qed simp

lemma parse_uidls_sound: "parse_uidls (uidl_entry m u a) m' data = Inr l \<Longrightarrow> sound_listing l"
  using uidl_lines_sound [of m u a "split_crlf [] data" "[]" l]
  by (auto simp: parse_uidls_def rbind_Inr sound_listing_def split: if_splits)

end
