(* ===== verification/Pop3Wire.thy ===== *)
theory Pop3Wire
  imports Wire PopStream
begin

text \<open>
  The two POP3 clients of the program over a socket: \<open>_Pop3Wire\<close> of \<open>pop3.py\<close>, which retrieves, and
  \<open>_MutationWire\<close> of \<open>pop3_mutation.py\<close>, which deletes.  The other end answers each command sent with
  the chunks it will deliver (\<open>Chunks\<close>); what is delivered before TLS starts stays in the buffer, as
  in the code.  \<open>mutation_wire\<close> packs the second client as the wire object the deletion adapter of
  \<open>Pop3Mutation\<close> is written against.
\<close>

section \<open>The socket\<close>

fun arrives :: "reply \<Rightarrow> bytes list" where
  "arrives (Chunks l) = l"
| "arrives r = []"

text \<open>The octets of a plain connection that were not received when TLS starts belong to the handshake.\<close>

definition tls_start :: "'s peer \<Rightarrow> string \<Rightarrow> ('s net, unit) prog" where
  "tls_start P host = seq (issue P (SockTls host)) (\<lambda>r. write_state (\<lambda>s. s\<lparr>nt_sock := True, nt_queue := arrives r\<rparr>))"

definition transmit :: "'s peer \<Rightarrow> bytes \<Rightarrow> ('s net, unit) prog" where
  "transmit P b = seq (issue P (SockSend b)) (\<lambda>r. write_state (\<lambda>s. s\<lparr>nt_queue := nt_queue s @ arrives r\<rparr>))"

definition sock_close :: "'s peer \<Rightarrow> ('s net, unit) prog" where
  "sock_close P = seq (command_done P SockClose) (\<lambda>u. write_state (\<lambda>s. s\<lparr>nt_sock := False\<rparr>))"

text \<open>A new wire object: no socket, nothing buffered.\<close>

definition new_wire :: "('s net, unit) prog" where
  "new_wire = write_state (\<lambda>s. s\<lparr>nt_sock := False, nt_queue := [], nt_buffer := [], nt_commands := []\<rparr>)"

text \<open>\<open>assert self.sock is not None\<close>\<close>

definition assert_sock :: "('s net, unit) prog" where
  "assert_sock = seq (read_state nt_sock) (\<lambda>b. require b AssertionError)"

definition consume :: "(bytes \<Rightarrow> bytes list \<Rightarrow> 'a result \<times> bytes \<times> bytes list) \<Rightarrow> ('s net, 'a) prog" where
  "consume f s = (case f (nt_buffer s) (nt_queue s) of (r, b, q) \<Rightarrow> (r, s\<lparr>nt_buffer := b, nt_queue := q\<rparr>))"

text \<open>\<open>command.split(" ", 1)[0].upper()\<close>\<close>

definition command_word :: "string \<Rightarrow> string" where
  "command_word c = map upper_char (takeWhile (\<lambda>x. x \<noteq> CHR '' '') c)"

text \<open>Recording and sending; \<open>encode("ascii")\<close> raises after the command was recorded.\<close>

definition send_command :: "'s peer \<Rightarrow> string \<Rightarrow> ('s net, unit) prog" where
  "send_command P c =
     seq assert_sock (\<lambda>u.
     seq (write_state (\<lambda>s. s\<lparr>nt_commands := nt_commands s @ [command_word c]\<rparr>)) (\<lambda>u.
     seq (require (list_all is_ascii c) UnicodeError) (\<lambda>u.
     transmit P (c @ CRLF))))"

definition status_text :: "error \<Rightarrow> bytes \<Rightarrow> bytes result" where
  "status_text rejected line =
     (if starts_with ''+OK'' line then Inr (dropWhile byte_space (drop 3 line)) else Inl rejected)"

section \<open>The read-only client\<close>

abbreviation acq_closed :: error where
  "acq_closed \<equiv> Pop3Error ''POP3 server closed the connection unexpectedly''"

definition acq_read_line :: "('s net, bytes) prog" where
  "acq_read_line = seq assert_sock (\<lambda>u. consume (read_line acq_closed))"

definition acq_positive_line :: "('s net, bytes) prog" where
  "acq_positive_line = seq acq_read_line (\<lambda>l.
     lift_result (status_text (Pop3Error ''POP3 server rejected a read-only command'') l))"

definition acq_command :: "'s peer \<Rightarrow> string \<Rightarrow> ('s net, bytes) prog" where
  "acq_command P c =
     seq (require (command_word c \<noteq> ''DELE'') AssertionError) (\<lambda>u.
     seq (require (CHR 0x0D \<notin> set c \<and> CHR 0x0A \<notin> set c) (Pop3Error ''invalid POP3 command'')) (\<lambda>u.
     seq (send_command P c) (\<lambda>u. acq_positive_line)))"

definition acq_open :: "'s peer \<Rightarrow> pop3_config \<Rightarrow> ('s net, unit) prog" where
  "acq_open P c =
     seq (issue P (SockConnect (pc_host c) (pc_port c) (pc_connection_timeout_seconds c))) (\<lambda>r.
     seq (if pc_tls_mode c = POP3S then tls_start P (pc_host c)
          else write_state (\<lambda>s. s\<lparr>nt_sock := True, nt_queue := arrives r\<rparr>)) (\<lambda>u.
     seq acq_positive_line (\<lambda>l.
     if pc_tls_mode c = STARTTLS then seq (acq_command P ''STLS'') (\<lambda>l. tls_start P (pc_host c))
     else ret ())))"

fun acq_quit_failure :: "error \<Rightarrow> bool" where
  "acq_quit_failure (Pop3Error m) = True"
| "acq_quit_failure e = os_error e"

definition acq_close :: "'s peer \<Rightarrow> ('s net, unit) prog" where
  "acq_close P =
     seq (read_state nt_sock) (\<lambda>b.
     if b then
       seq (attempt (seq (acq_command P ''QUIT'') (\<lambda>l. ret ())) acq_quit_failure (\<lambda>e. ret ())) (\<lambda>u.
       sock_close P)
     else ret ())"

definition acq_multiline :: "'s peer \<Rightarrow> string \<Rightarrow> ('s net, bytes) prog" where
  "acq_multiline P c =
     seq (acq_command P c) (\<lambda>l. seq assert_sock (\<lambda>u. consume (read_lines acq_closed [])))"

definition acq_uidls :: "'s peer \<Rightarrow> ('s net, (int \<times> string) list) prog" where
  "acq_uidls P =
     seq (acq_multiline P ''UIDL'') (\<lambda>data. lift_result (parse_uidls
       (uidl_entry (Pop3Error ''POP3 UIDL response is malformed'') UnicodeError
          (Pop3Error ''POP3 UIDL response is ambiguous''))
       (Pop3Error ''POP3 UIDL response is malformed'') data))"

definition acq_retr :: "'s peer \<Rightarrow> int \<Rightarrow> ('s net, bytes) prog" where
  "acq_retr P n =
     seq (require (0 < n) (Pop3Error ''invalid POP3 message number'')) (\<lambda>u.
     acq_multiline P (''RETR '' @ int_text n))"

section \<open>The deleting client\<close>

abbreviation mut_closed :: error where
  "mut_closed \<equiv> Pop3MutationError ''POP3 connection closed''"

definition mut_read_line :: "('s net, bytes) prog" where
  "mut_read_line = seq assert_sock (\<lambda>u. consume (read_line mut_closed))"

definition mut_positive_line :: "('s net, bytes) prog" where
  "mut_positive_line = seq mut_read_line (\<lambda>l.
     lift_result (status_text (Pop3MutationError ''POP3 command rejected'') l))"

definition mut_command :: "'s peer \<Rightarrow> string \<Rightarrow> ('s net, bytes) prog" where
  "mut_command P c =
     seq (require (CHR 0x0D \<notin> set c \<and> CHR 0x0A \<notin> set c) (Pop3MutationError ''invalid POP3 command'')) (\<lambda>u.
     seq (send_command P c) (\<lambda>u. mut_positive_line))"

definition mut_open :: "'s peer \<Rightarrow> pop3_config \<Rightarrow> ('s net, unit) prog" where
  "mut_open P c =
     seq (issue P (SockConnect (pc_host c) (pc_port c) (pc_connection_timeout_seconds c))) (\<lambda>r.
     seq (if pc_tls_mode c = POP3S then tls_start P (pc_host c)
          else write_state (\<lambda>s. s\<lparr>nt_sock := True, nt_queue := arrives r\<rparr>)) (\<lambda>u.
     seq mut_positive_line (\<lambda>l.
     if pc_tls_mode c = STARTTLS then seq (mut_command P ''STLS'') (\<lambda>l. tls_start P (pc_host c))
     else ret ())))"

definition abort_without_quit :: "'s peer \<Rightarrow> ('s net, unit) prog" where
  "abort_without_quit P = seq (read_state nt_sock) (\<lambda>b. if b then sock_close P else ret ())"

definition quit_and_commit :: "'s peer \<Rightarrow> ('s net, unit) prog" where
  "quit_and_commit P = finalize (seq (mut_command P ''QUIT'') (\<lambda>l. ret ())) (abort_without_quit P)"

definition mut_multiline :: "'s peer \<Rightarrow> string \<Rightarrow> ('s net, bytes) prog" where
  "mut_multiline P c =
     seq (mut_command P c) (\<lambda>l. seq assert_sock (\<lambda>u. consume (read_lines mut_closed [])))"

definition authenticate :: "'s peer \<Rightarrow> string \<Rightarrow> string \<Rightarrow> ('s net, unit) prog" where
  "authenticate P username password =
     seq (mut_command P (''USER '' @ username)) (\<lambda>l.
     seq (mut_command P (''PASS '' @ password)) (\<lambda>l. ret ()))"

definition mut_uidls :: "'s peer \<Rightarrow> ('s net, (int \<times> string) list) prog" where
  "mut_uidls P =
     seq (mut_multiline P ''UIDL'') (\<lambda>data. lift_result (parse_uidls
       (uidl_entry (Pop3MutationError ''POP3 UIDL response is malformed'')
          (Pop3MutationError ''POP3 UIDL response is malformed'') Pop3IdentityConflictError)
       (Pop3MutationError ''POP3 UIDL response is malformed'') data))"

definition mut_retr :: "'s peer \<Rightarrow> int \<Rightarrow> ('s net, bytes) prog" where
  "mut_retr P n =
     seq (require (0 < n) (Pop3MutationError ''invalid POP3 message number'')) (\<lambda>u.
     mut_multiline P (''RETR '' @ int_text n))"

definition mut_dele :: "'s peer \<Rightarrow> int \<Rightarrow> ('s net, unit) prog" where
  "mut_dele P n =
     seq (require (0 < n) (Pop3MutationError ''invalid POP3 message number'')) (\<lambda>u.
     seq (mut_command P (''DELE '' @ int_text n)) (\<lambda>l. ret ()))"

text \<open>The client as the wire of the adapter: the commands of other components go to the peer itself.\<close>

definition answer :: "('a \<Rightarrow> reply) \<Rightarrow> ('s net, 'a) prog \<Rightarrow> ('s net, reply) prog" where
  "answer f m = seq m (\<lambda>x. ret (f x))"

fun mutation_wire :: "'s peer \<Rightarrow> 's net peer" where
  "mutation_wire P (Pop3Open c) = answer (\<lambda>u. Done) (seq new_wire (\<lambda>u. mut_open P c))"
| "mutation_wire P (Pop3Auth u p) = answer (\<lambda>u. Done) (authenticate P u p)"
| "mutation_wire P Pop3Uidls = answer Listing (mut_uidls P)"
| "mutation_wire P (Pop3Retr n) = answer Octets (mut_retr P n)"
| "mutation_wire P (Pop3Dele n) = answer (\<lambda>u. Done) (mut_dele P n)"
| "mutation_wire P Pop3Abort = answer (\<lambda>u. Done) (abort_without_quit P)"
| "mutation_wire P Pop3Quit = answer (\<lambda>u. Done) (quit_and_commit P)"
| "mutation_wire P c = issue P c"

section \<open>The account lock\<close>

definition pop3_lock_path :: "host \<Rightarrow> app_config \<Rightarrow> account_config \<Rightarrow> path result" where
  "pop3_lock_path H cfg a =
     (case h_resolve H (cf_archive_root cfg) of None \<Rightarrow> Inl OSError
      | Some root_path \<Rightarrow>
          Inr (root_path @ [''state'', ''locks'',
            ''pop3-'' @ take 16 (h_sha256 H (utf8 (ac_name a))) @ ''.lock'']))"

definition pop3_lock ::
  "host \<Rightarrow> 's peer \<Rightarrow> app_config \<Rightarrow> account_config \<Rightarrow> ('s net, 'a) prog \<Rightarrow> ('s net, 'a) prog" where
  "pop3_lock H P cfg a body =
     seq (lift_result (pop3_lock_path H cfg a)) (\<lambda>p. with_lock P p Pop3SyncBusyError body)"

section \<open>Retrieval is exact\<close>

text \<open>A command sent on an open, quiet connection whose reply begins with a positive status line.\<close>

definition quiet :: "'s net \<Rightarrow> bool" where
  "quiet s \<longleftrightarrow> nt_sock s \<and> nt_buffer s = [] \<and> nt_queue s = []"

definition accepted_by :: "'s peer \<Rightarrow> string \<Rightarrow> 's net \<Rightarrow> bytes \<Rightarrow> bool" where
  "accepted_by P c s tail \<longleftrightarrow> (\<exists>cs p info. P (SockSend (c @ CRLF)) (nt_peer s) = (Inr (Chunks cs), p) \<and>
     [] \<notin> set cs \<and> crlf_free (''+OK'' @ info) \<and> concat cs = ''+OK'' @ info @ CRLF @ tail)"

definition plain_command :: "string \<Rightarrow> bool" where
  "plain_command c \<longleftrightarrow> CHR 0x0D \<notin> set c \<and> CHR 0x0A \<notin> set c \<and> list_all is_ascii c"

text \<open>The connection after an accepted command: everything behind the status line is still to come.\<close>

definition awaiting :: "bytes \<Rightarrow> 's net \<Rightarrow> bool" where
  "awaiting tail s \<longleftrightarrow> nt_sock s \<and> [] \<notin> set (nt_queue s) \<and> nt_buffer s @ concat (nt_queue s) = tail"

lemma wp_returns: "wp m (\<lambda>x t. x = y \<and> Q t) (\<lambda>e t. False) s \<Longrightarrow> \<exists>t. m s = (Inr y, t) \<and> Q t"
  by (auto simp: wp_def split: prod.splits sum.splits)

lemma wp_consume:
  "wp (consume f) Q E s = (case f (nt_buffer s) (nt_queue s) of (r, b, q) \<Rightarrow>
     (case r of Inl e \<Rightarrow> E e (s\<lparr>nt_buffer := b, nt_queue := q\<rparr>) | Inr x \<Rightarrow> Q x (s\<lparr>nt_buffer := b, nt_queue := q\<rparr>)))"
  by (simp add: wp_def consume_def split: prod.splits sum.splits)

lemma read_status_line:
  assumes "awaiting (''+OK'' @ info @ CRLF @ tail) s" and "crlf_free (''+OK'' @ info)"
  shows "\<exists>b q. read_line e (nt_buffer s) (nt_queue s) = (Inr (''+OK'' @ info), b, q) \<and>
    b @ concat q = tail \<and> [] \<notin> set q"
  using read_line_any_chunks [of "nt_queue s" "nt_buffer s" "''+OK'' @ info" tail e]
    split_line_end [OF assms(2), of tail] assms(1)
  by (auto simp: awaiting_def)

lemma wp_send_command:
  assumes s: "quiet s" and c: "plain_command c" and a: "accepted_by P c s tail"
    and Q: "\<And>info t. crlf_free (''+OK'' @ info) \<Longrightarrow> awaiting (''+OK'' @ info @ CRLF @ tail) t \<Longrightarrow> Q () t"
  shows "wp (send_command P c) Q E s"
proof -
  from a obtain cs p info where peer: "P (SockSend (c @ CRLF)) (nt_peer s) = (Inr (Chunks cs), p)"
    and cs: "[] \<notin> set cs" "crlf_free (''+OK'' @ info)" "concat cs = ''+OK'' @ info @ CRLF @ tail"
    unfolding accepted_by_def by blast
  let ?s = "s\<lparr>nt_commands := nt_commands s @ [command_word c]\<rparr>"
  have "wp (transmit P (c @ CRLF)) Q E ?s"
    unfolding transmit_def wp_seq wp_write
    by (rule wp_issue) (use peer s cs in \<open>auto simp: quiet_def awaiting_def intro!: Q [OF cs(2)]\<close>)
  then show ?thesis
    using s c by (simp add: send_command_def assert_sock_def wp_rules quiet_def plain_command_def)
qed

lemma wp_acq_command:
  assumes "quiet s" "plain_command c" "accepted_by P c s tail" "command_word c \<noteq> ''DELE''"
    and Q: "\<And>x t. awaiting tail t \<Longrightarrow> Q x t"
  shows "wp (acq_command P c) Q E s"
proof -
  have "wp (send_command P c) (\<lambda>u. wp acq_positive_line Q E) E s"
  proof (rule wp_send_command [OF assms(1,2,3)])
    fix info and t :: "'a net"
    assume i: "crlf_free (''+OK'' @ info)" and t: "awaiting (''+OK'' @ info @ CRLF @ tail) t"
    from read_status_line [OF t i, of acq_closed] obtain b q
      where "read_line acq_closed (nt_buffer t) (nt_queue t) = (Inr (''+OK'' @ info), b, q)"
        and "b @ concat q = tail" "[] \<notin> set q" by blast
    with t show "wp acq_positive_line Q E t"
      by (auto simp: acq_positive_line_def acq_read_line_def assert_sock_def wp_rules wp_consume
          status_text_def starts_with_def awaiting_def intro!: Q)
  qed
  then show ?thesis using assms(2,4) by (simp add: acq_command_def wp_rules plain_command_def)
qed

lemma wp_mut_command:
  assumes "quiet s" "plain_command c" "accepted_by P c s tail"
    and Q: "\<And>x t. awaiting tail t \<Longrightarrow> Q x t"
  shows "wp (mut_command P c) Q E s"
proof -
  have "wp (send_command P c) (\<lambda>u. wp mut_positive_line Q E) E s"
  proof (rule wp_send_command [OF assms(1,2,3)])
    fix info and t :: "'a net"
    assume i: "crlf_free (''+OK'' @ info)" and t: "awaiting (''+OK'' @ info @ CRLF @ tail) t"
    from read_status_line [OF t i, of mut_closed] obtain b q
      where "read_line mut_closed (nt_buffer t) (nt_queue t) = (Inr (''+OK'' @ info), b, q)"
        and "b @ concat q = tail" "[] \<notin> set q" by blast
    with t show "wp mut_positive_line Q E t"
      by (auto simp: mut_positive_line_def mut_read_line_def assert_sock_def wp_rules wp_consume
          status_text_def starts_with_def awaiting_def intro!: Q)
  qed
  then show ?thesis using assms(2) by (simp add: mut_command_def wp_rules plain_command_def)
qed

lemma wp_read_message:
  assumes "whole_lines m" "awaiting (stuffed m @ rest) s"
  shows "wp (seq assert_sock (\<lambda>u. consume (read_lines e []))) (\<lambda>x t. x = m \<and> awaiting rest t) E s"
proof -
  from assms(2) have "[] \<notin> set (nt_queue s)" "nt_buffer s @ concat (nt_queue s) = stuffed m @ rest"
    by (simp_all add: awaiting_def)
  from read_lines_stuffed [OF assms(1) this, of e] obtain b q
    where "read_lines e [] (nt_buffer s) (nt_queue s) = (Inr m, b, q)" "b @ concat q = rest" "[] \<notin> set q"
    by blast
  with assms(2) show ?thesis by (simp add: assert_sock_def wp_rules wp_consume awaiting_def)
qed

lemma plain_retr: "plain_command (''RETR '' @ int_text n)"
proof -
  have "number_char c \<Longrightarrow> c \<noteq> CHR 0x0D \<and> c \<noteq> CHR 0x0A \<and> is_ascii c" for c
    by (auto simp: number_char_def is_digit_def is_ascii_def)
  with int_text_chars [of n] show ?thesis
    by (auto simp: plain_command_def is_ascii_def list_all_iff)
qed

lemma command_word_retr: "command_word (''RETR '' @ x) \<noteq> ''DELE''"
  by (simp add: command_word_def upper_char_def)

text \<open>
  C25.  RETR gives back the message octet for octet.  On an open connection with nothing pending, when
  the server accepts \<open>RETR n\<close> and sends the message dot-stuffed, cut into chunks in any way and
  followed by anything, both clients return exactly the message, in finitely many steps, and leave
  exactly what followed it to be read next.
\<close>

theorem retr_returns_exact_octets:
  assumes "quiet s" and "0 < n" and "whole_lines m"
    and "accepted_by P (''RETR '' @ int_text n) s (stuffed m @ rest)"
  shows "(\<exists>t. acq_retr P n s = (Inr m, t) \<and> awaiting rest t) \<and>
    (\<exists>t. mut_retr P n s = (Inr m, t) \<and> awaiting rest t)"
proof
  let ?Q = "\<lambda>x t. x = m \<and> awaiting rest t" and ?E = "\<lambda>e t. False"
  have "wp (acq_retr P n) ?Q ?E s"
    unfolding acq_retr_def acq_multiline_def wp_seq wp_require if_P [OF assms(2)]
    by (rule wp_acq_command [OF assms(1) plain_retr assms(4) command_word_retr])
      (rule wp_read_message [OF assms(3), unfolded wp_seq])
  then show "\<exists>t. acq_retr P n s = (Inr m, t) \<and> awaiting rest t" by (rule wp_returns)
  have "wp (mut_retr P n) ?Q ?E s"
    unfolding mut_retr_def mut_multiline_def wp_seq wp_require if_P [OF assms(2)]
    by (rule wp_mut_command [OF assms(1) plain_retr assms(4)])
      (rule wp_read_message [OF assms(3), unfolded wp_seq])
  then show "\<exists>t. mut_retr P n s = (Inr m, t) \<and> awaiting rest t" by (rule wp_returns)
qed

end
