(* ===== verification/Pop3Mutation.thy ===== *)
theory Pop3Mutation
  imports AdapterContract ImapProtocol Pop3Wire
begin

text \<open>
  The destructive POP3 adapter of \<open>pop3_mutation.py\<close>, over an arbitrary wire object (the interface
  \<open>Pop3MutationWire\<close>; the wire the program itself brings is \<open>mutation_wire\<close> of \<open>Pop3Wire\<close>).  In POP3 a deletion is
  committed by QUIT, so the lemmas show that QUIT is sent only after an accepted DELE of the
  message whose UIDL and bytes were just read, and that every report rests on a fresh session.
\<close>

section \<open>The adapter object\<close>

record pop3_mutation =
  pm_config :: app_config
  pm_account :: account_config
  pm_account_id :: int
  pm_variable :: string

definition pop3_mutation_adapter :: "app_config \<Rightarrow> string \<Rightarrow> db \<Rightarrow> pop3_mutation result" where
  "pop3_mutation_adapter cfg name d =
     (case config_account cfg name of
        None \<Rightarrow> Inl (Pop3MutationError ''account is not configured for POP3 mutation'')
      | Some a \<Rightarrow>
          if ac_kind a \<noteq> Pop3 \<or> ac_pop3 a = None
          then Inl (Pop3MutationError ''account is not configured for POP3 mutation'')
          else (case credential_variable (ac_config_ref a) of Inl e \<Rightarrow> Inl e
            | Inr v \<Rightarrow>
                (case account_id d name of
                   None \<Rightarrow> Inl (Pop3MutationError ''account is not active in local state'')
                 | Some i \<Rightarrow> Inr \<lparr>pm_config = cfg, pm_account = a, pm_account_id = i, pm_variable = v\<rparr>)))"

definition pop3_target :: "pop3_mutation \<Rightarrow> target \<Rightarrow> target option" where
  "pop3_target A t =
     (case t of
        ImapDeletionTarget b f v u \<Rightarrow> None
      | ProviderDeletionTarget b uidl \<Rightarrow>
          if tg_provider_kind b \<noteq> Pop3 then None
          else if tg_account_id b \<noteq> pm_account_id A \<or> tg_account_name b \<noteq> ac_name (pm_account A) then None
          else if \<not> ac_enabled (pm_account A) \<or> ac_pop3 (pm_account A) = None \<or> uidl = [] \<or>
             (\<exists>c \<in> set uidl. str_space c) \<or> CHR 0x0D \<in> set uidl \<or> CHR 0x0A \<in> set uidl
          then None else Some t)"

section \<open>The wire interface\<close>

definition wire_done :: "'s peer \<Rightarrow> command \<Rightarrow> ('s net, unit) prog" where
  "wire_done P c = command_done P c"

definition wire_uidls :: "'s peer \<Rightarrow> ('s net, (int \<times> string) list) prog" where
  "wire_uidls P = seq (issue P Pop3Uidls) (\<lambda>r. case r of Listing l \<Rightarrow> ret l | _ \<Rightarrow> fail TypeError)"

definition wire_retr :: "'s peer \<Rightarrow> int \<Rightarrow> ('s net, bytes) prog" where
  "wire_retr P n = seq (issue P (Pop3Retr n)) (\<lambda>r. case r of Octets b \<Rightarrow> ret b | _ \<Rightarrow> fail TypeError)"

text \<open>\<open>except (OSError, Pop3MutationError)\<close>; an identity conflict is a \<open>Pop3MutationError\<close>.\<close>

fun pop3_failure :: "error \<Rightarrow> bool" where
  "pop3_failure (Pop3MutationError m) = True"
| "pop3_failure Pop3IdentityConflictError = True"
| "pop3_failure e = os_error e"

definition pop3_session :: "'s peer \<Rightarrow> pop3_config \<Rightarrow> string \<Rightarrow> ('s net, unit) prog" where
  "pop3_session P c password =
     seq (wire_done P (Pop3Open c)) (\<lambda>u. wire_done P (Pop3Auth (pc_username c) password))"

section \<open>Observation\<close>

text \<open>
  \<open>{uidl: number for number, uidl in ...}\<close> keeps the last number of a repeated UIDL, \<open>next(...)\<close> in
  \<open>delete\<close> takes the first.
\<close>

definition last_number :: "(int \<times> string) list \<Rightarrow> string \<Rightarrow> int option" where
  "last_number l uidl = map_option fst (find (\<lambda>x. snd x = uidl) (rev l))"

definition first_number :: "(int \<times> string) list \<Rightarrow> string \<Rightarrow> int option" where
  "first_number l uidl = map_option fst (find (\<lambda>x. snd x = uidl) l)"

text \<open>\<open>_observe_unlocked\<close>; the wire is closed without QUIT whenever the session was opened.\<close>

definition observe_wire :: "host \<Rightarrow> 's peer \<Rightarrow> target \<Rightarrow> ('s net, string) prog" where
  "observe_wire H P t =
     seq (wire_uidls P) (\<lambda>l.
       case last_number l (tg_provider_message_id t) of
         None \<Rightarrow> ret ''confirmed-absent''
       | Some n \<Rightarrow> seq (wire_retr P n) (\<lambda>raw.
           ret (if h_sha256 H raw = tg_canonical_sha256 (base t)
                then ''confirmed-present-match'' else ''identity-conflict'')))"

definition pop3_report :: "error \<Rightarrow> ('s net, string) prog" where
  "pop3_report e = ret (if e = Pop3IdentityConflictError then ''identity-conflict'' else ''unknown'')"

definition observe_unlocked ::
  "host \<Rightarrow> 's peer \<Rightarrow> pop3_config \<Rightarrow> target \<Rightarrow> string \<Rightarrow> ('s net, string) prog" where
  "observe_unlocked H P c t password =
     seq (attempt (seq (pop3_session P c password) (\<lambda>u. ret None)) pop3_failure
            (\<lambda>e. seq (pop3_report e) (\<lambda>r. ret (Some r)))) (\<lambda>o'.
       case o' of
         Some r \<Rightarrow> ret r
       | None \<Rightarrow> finalize (attempt (observe_wire H P t) pop3_failure pop3_report) (wire_done P Pop3Abort))"

definition observed_result :: "string \<Rightarrow> mutation_result" where
  "observed_result state =
     (if state = ''confirmed-absent'' then success_result
      else if state = ''confirmed-present-match'' then failure_result ''PROVIDER_REJECTED''
      else unknown_result)"

definition pop3_resolve ::
  "host \<Rightarrow> 's peer \<Rightarrow> pop3_config \<Rightarrow> target \<Rightarrow> string \<Rightarrow> ('s net, mutation_result) prog" where
  "pop3_resolve H P c t password =
     seq (observe_unlocked H P c t password) (\<lambda>r. ret (observed_result r))"

definition pop3_observe ::
  "host \<Rightarrow> 's peer \<Rightarrow> pop3_mutation \<Rightarrow> target \<Rightarrow> ('s net, string) prog" where
  "pop3_observe H P A t =
     (case (pop3_target A t, ac_pop3 (pm_account A)) of
        (Some x, Some c) \<Rightarrow>
          (case h_environ H (pm_variable A) of
             None \<Rightarrow> ret ''unknown''
           | Some password \<Rightarrow>
               if password = [] then ret ''unknown''
               else attempt (pop3_lock H P (pm_config A) (pm_account A) (observe_unlocked H P c x password))
                 (\<lambda>e. e = Pop3SyncBusyError) (\<lambda>e. ret ''unknown''))
      | _ \<Rightarrow> ret ''identity-conflict'')"

section \<open>Deletion\<close>

text \<open>
  DELE, then QUIT.  A rejected or lost DELE closes the socket, which commits nothing; the local
  variable \<open>wire\<close> is unbound once its session has ended.
\<close>

definition dele_and_quit ::
  "host \<Rightarrow> 's peer \<Rightarrow> pop3_config \<Rightarrow> target \<Rightarrow> string \<Rightarrow> int \<Rightarrow> ('s net, mutation_result) prog" where
  "dele_and_quit H P c t password n =
     seq (attempt (seq (wire_done P (Pop3Dele n)) (\<lambda>u. ret True)) pop3_failure (\<lambda>e. ret False)) (\<lambda>marked.
       if \<not> marked
       then seq (wire_done P Pop3Abort) (\<lambda>u. seq (bind_client False) (\<lambda>v.
         pop3_resolve H P c t password))
       else seq (attempt (seq (wire_done P Pop3Quit) (\<lambda>u. ret True)) pop3_failure (\<lambda>e. ret False)) (\<lambda>done.
         if \<not> done then pop3_resolve H P c t password
         else seq (bind_client False) (\<lambda>v. pop3_resolve H P c t password)))"

definition pop3_delete_session ::
  "host \<Rightarrow> 's peer \<Rightarrow> pop3_config \<Rightarrow> target \<Rightarrow> string \<Rightarrow> ('s net, mutation_result) prog" where
  "pop3_delete_session H P c t password =
     seq (pop3_session P c password) (\<lambda>u. seq (bind_client True) (\<lambda>v.
       seq (wire_uidls P) (\<lambda>l.
         case first_number l (tg_provider_message_id t) of
           None \<Rightarrow> ret success_result
         | Some n \<Rightarrow> seq (wire_retr P n) (\<lambda>raw.
             if h_sha256 H raw \<noteq> tg_canonical_sha256 (base t)
             then ret (failure_result ''IDENTITY_MISMATCH'')
             else dele_and_quit H P c t password n))))"

definition close_wire :: "'s peer \<Rightarrow> ('s net, unit) prog" where
  "close_wire P =
     seq (read_state nt_client) (\<lambda>bound. if bound then wire_done P Pop3Abort else ret ())"

definition pop3_delete ::
  "host \<Rightarrow> 's peer \<Rightarrow> pop3_mutation \<Rightarrow> target \<Rightarrow> ('s net, mutation_result) prog" where
  "pop3_delete H P A t =
     (case (pop3_target A t, ac_pop3 (pm_account A)) of
        (Some x, Some c) \<Rightarrow>
          (case h_environ H (pm_variable A) of
             None \<Rightarrow> ret (failure_result ''IDENTITY_MISMATCH'')
           | Some password \<Rightarrow>
               if password = [] then ret (failure_result ''IDENTITY_MISMATCH'')
               else seq (bind_client False) (\<lambda>u.
                 finalize
                   (attempt
                      (pop3_lock H P (pm_config A) (pm_account A) (pop3_delete_session H P c x password))
                      (\<lambda>e. e = Pop3SyncBusyError \<or> pop3_failure e)
                      (\<lambda>e. ret (failure_result (if e = Pop3SyncBusyError then ''REMOTE_STATE_CONFLICT''
                         else ''PROVIDER_REJECTED''))))
                   (close_wire P)))
      | _ \<Rightarrow> ret (failure_result ''IDENTITY_MISMATCH''))"

section \<open>What is sent\<close>

fun pop3_harmless :: "command \<Rightarrow> bool" where
  "pop3_harmless (TryLock p) = True"
| "pop3_harmless (Unlock p) = True"
| "pop3_harmless (Pop3Open c) = True"
| "pop3_harmless (Pop3Auth u p) = True"
| "pop3_harmless Pop3Uidls = True"
| "pop3_harmless (Pop3Retr n) = True"
| "pop3_harmless Pop3Abort = True"
| "pop3_harmless _ = False"

text \<open>
  What the adapter relies on of its surroundings: the lock's own exception comes from the lock
  only, and releasing a held lock and closing a socket do not fail.
\<close>

definition wire_library :: "'s peer \<Rightarrow> bool" where
  "wire_library P \<longleftrightarrow> (\<forall>c s e p. P c s = (Inl e, p) \<longrightarrow> e \<noteq> Pop3SyncBusyError) \<and>
     (\<forall>f s. \<exists>x p. P (Unlock f) s = (Inr x, p)) \<and> (\<forall>s. \<exists>x p. P Pop3Abort s = (Inr x, p))"

abbreviation reads_only :: "('s net, 'a) prog \<Rightarrow> bool" where
  "reads_only \<equiv> adds pop3_harmless (\<lambda>e. e \<noteq> Pop3SyncBusyError)"

lemma wire_raises: "wire_library P \<Longrightarrow> P c s = (Inl e, p) \<Longrightarrow> e \<noteq> Pop3SyncBusyError"
  by (auto simp: wire_library_def)

lemma extends_logged_trans [simp]:
  "extends pop3_harmless s u \<Longrightarrow> pop3_harmless c \<Longrightarrow> extends pop3_harmless s (logged c r p u)"
  by (auto intro: extends_trans)

lemma reads_only_done: "wire_library P \<Longrightarrow> pop3_harmless c \<Longrightarrow> reads_only (command_done P c)"
  unfolding adds_def command_done_def wp_seq wp_ret
  by (auto intro!: wp_issue simp: wire_library_def)

lemma reads_only_session: "wire_library P \<Longrightarrow> reads_only (pop3_session P c pw)"
  unfolding pop3_session_def wire_done_def by (intro adds_intros reads_only_done) auto

lemma wp_quiet:
  assumes "\<And>s. \<exists>x p. P c s = (Inr x, p)" and "\<And>x p. Q () (logged c (Inr x) p s)"
  shows "wp (wire_done P c) Q E s"
  unfolding wire_done_def command_done_def wp_seq wp_ret
  by (rule wp_issue) (use assms in \<open>auto simp: prod_eq_iff\<close>, metis Inr_Inl_False assms(1) prod.inject)

lemma wp_abort:
  "wire_library P \<Longrightarrow> (\<And>x p. Q () (logged Pop3Abort (Inr x) p s)) \<Longrightarrow> wp (wire_done P Pop3Abort) Q E s"
  by (rule wp_quiet) (auto simp: wire_library_def)

lemma wp_uidls:
  assumes "wire_library P"
    and "\<And>l p. Q l (logged Pop3Uidls (Inr (Listing l)) p s)"
    and "\<And>e x p. e \<noteq> Pop3SyncBusyError \<Longrightarrow> E e (logged Pop3Uidls x p s)"
  shows "wp (wire_uidls P) Q E s"
  unfolding wire_uidls_def wp_seq
  by (rule wp_issue) (use assms wire_raises [OF assms(1)] in \<open>auto split: reply.split\<close>)

lemma wp_retr:
  assumes "wire_library P"
    and "\<And>b p. Q b (logged (Pop3Retr n) (Inr (Octets b)) p s)"
    and "\<And>e x p. e \<noteq> Pop3SyncBusyError \<Longrightarrow> E e (logged (Pop3Retr n) x p s)"
  shows "wp (wire_retr P n) Q E s"
  unfolding wire_retr_def wp_seq
  by (rule wp_issue) (use assms wire_raises [OF assms(1)] in \<open>auto split: reply.split\<close>)

section \<open>What was observed\<close>

definition listed_without :: "target \<Rightarrow> event \<Rightarrow> bool" where
  "listed_without t x \<longleftrightarrow> (\<exists>l. x = (Pop3Uidls, Inr (Listing l)) \<and>
     tg_provider_message_id t \<notin> snd ` set l)"

definition uidl_absent :: "target \<Rightarrow> event list \<Rightarrow> bool" where
  "uidl_absent t l \<longleftrightarrow> (\<exists>x \<in> set l. listed_without t x)"

text \<open>The message the listing names was retrieved at once and has the canonical digest.\<close>

definition retrieved :: "host \<Rightarrow> target \<Rightarrow> (int \<times> string) list \<Rightarrow> int \<Rightarrow> event list \<Rightarrow> bool" where
  "retrieved H t l n k \<longleftrightarrow> (\<exists>raw. k = [(Pop3Uidls, Inr (Listing l)), (Pop3Retr n, Inr (Octets raw))] \<and>
     h_sha256 H raw = tg_canonical_sha256 (base t))"

definition uidl_intact :: "host \<Rightarrow> target \<Rightarrow> event list \<Rightarrow> bool" where
  "uidl_intact H t l \<longleftrightarrow> (\<exists>a k b ls n. l = a @ k @ b \<and> retrieved H t ls n k \<and>
     (n, tg_provider_message_id t) \<in> set ls)"

interpretation pop3_evidence: provider_evidence pop3_harmless uidl_absent "uidl_intact H" for H
proof
  fix t l k
  show "uidl_absent t l \<Longrightarrow> uidl_absent t (l @ k)" "uidl_absent t l \<Longrightarrow> uidl_absent t (k @ l)"
    by (auto simp: uidl_absent_def)
  show "uidl_intact H t l \<Longrightarrow> uidl_intact H t (l @ k)" "uidl_intact H t l \<Longrightarrow> uidl_intact H t (k @ l)"
    unfolding uidl_intact_def by (metis append_assoc)+
qed

lemma last_number_None: "last_number l u = None \<longleftrightarrow> u \<notin> snd ` set l"
  by (force simp: last_number_def find_None_iff)

lemma first_number_None: "first_number l u = None \<longleftrightarrow> u \<notin> snd ` set l"
  by (force simp: first_number_def find_None_iff)

lemma find_member: "find Q l = Some x \<Longrightarrow> x \<in> set l \<and> Q x"
  by (auto simp: find_Some_iff)

lemma last_number_Some: "last_number l u = Some n \<Longrightarrow> (n, u) \<in> set l"
  using find_member [of _ "rev l"] by (fastforce simp: last_number_def)

lemma first_number_Some: "first_number l u = Some n \<Longrightarrow> (n, u) \<in> set l"
  using find_member [of _ l] by (fastforce simp: first_number_def)

abbreviation pop3_reports where
  "pop3_reports H \<equiv> reports_by pop3_harmless uidl_absent (uidl_intact H)"

abbreviation pop3_settles where
  "pop3_settles H \<equiv> settles_by pop3_harmless uidl_absent (uidl_intact H)"

text \<open>The exceptions an outer handler of \<open>delete\<close> turns into a failure.\<close>

definition pop3_caught :: "error \<Rightarrow> bool" where
  "pop3_caught e \<longleftrightarrow> e = Pop3SyncBusyError \<or> pop3_failure e"

lemma wp_observe_wire:
  fixes s :: "'s net"
  assumes P: "wire_library P"
  shows "wp (observe_wire H P t) (pop3_reports H t s)
     (\<lambda>e u. extends pop3_harmless s u \<and> e \<noteq> Pop3SyncBusyError) s"
  unfolding observe_wire_def wp_seq
proof (rule wp_uidls [OF P])
  fix l and p :: 's
  let ?x = "(Pop3Uidls, Inr (Listing l)) :: event"
  let ?u = "logged (fst ?x) (snd ?x) p s"
  let ?E = "\<lambda>e u. extends pop3_harmless s u \<and> e \<noteq> Pop3SyncBusyError"
  show "wp (case last_number l (tg_provider_message_id t) of None \<Rightarrow> ret ''confirmed-absent''
      | Some n \<Rightarrow> seq (wire_retr P n) (\<lambda>raw. ret (if h_sha256 H raw = tg_canonical_sha256 (base t)
          then ''confirmed-present-match'' else ''identity-conflict'')))
      (pop3_reports H t s) ?E (logged Pop3Uidls (Inr (Listing l)) p s)"
  proof (cases "last_number l (tg_provider_message_id t)")
    case None
    then have "uidl_absent t [?x]"
      by (simp add: uidl_absent_def listed_without_def last_number_None)
    with None show ?thesis by (simp add: reports_by_def)
  next
    case (Some n)
    have "wp (wire_retr P n) (\<lambda>raw. pop3_reports H t s (if h_sha256 H raw = tg_canonical_sha256 (base t)
        then ''confirmed-present-match'' else ''identity-conflict'')) ?E ?u"
    proof (rule wp_retr [OF P])
      fix raw q
      let ?y = "(Pop3Retr n, Inr (Octets raw)) :: event"
      have "uidl_intact H t [?x, ?y]" if "h_sha256 H raw = tg_canonical_sha256 (base t)"
        unfolding uidl_intact_def retrieved_def using that last_number_Some [OF Some]
        by (intro exI [of _ "[]"] exI [of _ "[?x, ?y]"] exI [of _ l] exI [of _ n]) simp
      then show "pop3_reports H t s (if h_sha256 H raw = tg_canonical_sha256 (base t)
          then ''confirmed-present-match'' else ''identity-conflict'') (logged (Pop3Retr n) (Inr (Octets raw)) q ?u)"
        by (simp add: reports_by_def)
    qed simp
    with Some show ?thesis by (simp add: wp_seq)
  qed
qed simp

lemma wp_pop3_report:
  "extends pop3_harmless s u \<Longrightarrow> wp (pop3_report e) (pop3_reports H t s) E u"
  by (simp add: pop3_report_def pop3_evidence.reports_nothing)

lemma wp_observe_unlocked:
  fixes s :: "'s net"
  assumes P: "wire_library P"
  shows "wp (observe_unlocked H P c t pw) (pop3_reports H t s)
     (\<lambda>e u. extends pop3_harmless s u \<and> \<not> pop3_caught e) s"
proof -
  let ?R = "pop3_reports H t s"
  let ?I = "extends pop3_harmless s"
  let ?E = "\<lambda>e u. ?I u \<and> \<not> pop3_caught e"
  have observing: "wp (observe_wire H P t) ?R (\<lambda>e u. ?I u \<and> e \<noteq> Pop3SyncBusyError) u" if "?I u" for u
    by (rule wp_mono [OF wp_observe_wire [OF P]])
       (use that in \<open>auto intro: pop3_evidence.reports_before extends_trans\<close>)
  have caught: "wp (attempt (observe_wire H P t) pop3_failure pop3_report) ?R ?E u" if "?I u" for u
    unfolding wp_attempt
    by (rule wp_mono [OF observing [OF that]]) (auto intro: wp_pop3_report simp: pop3_caught_def)
  have close: "wp (wire_done P Pop3Abort) (\<lambda>x. ?R r) E u" if "?R r u" for r u E
    by (rule wp_abort [OF P], rule pop3_evidence.reports_after [OF that]) simp
  have close_raised: "wp (wire_done P Pop3Abort) (\<lambda>x. ?E e) E u" if "?E e u" for e u E
    by (rule wp_abort [OF P]) (use that in simp)
  have opened: "wp (finalize (attempt (observe_wire H P t) pop3_failure pop3_report) (wire_done P Pop3Abort))
      ?R ?E u" if "?I u" for u
    unfolding wp_finalize by (rule wp_mono [OF caught [OF that]]) (rule close close_raised; assumption)+
  show ?thesis
    unfolding observe_unlocked_def wp_seq [of "attempt _ _ _"] wp_attempt [of "seq _ _"] wp_seq wp_ret
    by (rule adds_wp [OF reads_only_session [OF P]])
       (auto intro: opened [unfolded pop3_caught_def de_Morgan_disj] wp_pop3_report simp: pop3_caught_def)
qed

lemma wp_pop3_resolve:
  fixes s :: "'s net"
  assumes P: "wire_library P"
  shows "wp (pop3_resolve H P c t pw) (pop3_settles H t s)
     (\<lambda>e u. extends pop3_harmless s u \<and> \<not> pop3_caught e) s"
  unfolding pop3_resolve_def wp_seq wp_ret
proof (rule wp_mono [OF wp_observe_unlocked [OF P]])
  fix r u assume "pop3_reports H t s r u"
  then show "pop3_settles H t s (observed_result r) u"
    by (auto simp: reports_by_def settles_by_def settled_by_def observed_result_def)
qed

section \<open>What a deletion does\<close>

text \<open>
  The mutating events: a DELE, and a QUIT only after the server accepted it.  Without the QUIT
  nothing is committed.
\<close>

definition pop3_mutations :: "target \<Rightarrow> event list \<Rightarrow> bool" where
  "pop3_mutations t m \<longleftrightarrow> m = [] \<or> (\<exists>n x. m = [(Pop3Dele n, x)]) \<or>
     (\<exists>n d y. m = [(Pop3Dele n, Inr d), (Pop3Quit, y)])"

definition uncommitted :: "event list \<Rightarrow> bool" where
  "uncommitted m \<longleftrightarrow> Pop3Quit \<notin> fst ` set m"

text \<open>
  The evidence for deleting message \<open>n\<close>: the very session that sends DELE just authenticated,
  listed the UIDL under that number, and retrieved bytes with the canonical digest.
\<close>

definition deletable :: "host \<Rightarrow> target \<Rightarrow> event list \<Rightarrow> event list \<Rightarrow> bool" where
  "deletable H t m k \<longleftrightarrow> (\<exists>ls n. retrieved H t ls n k \<and>
     first_number ls (tg_provider_message_id t) = Some n \<and> fst (hd m) = Pop3Dele n)"

definition pop3_evidence_for :: "host \<Rightarrow> target \<Rightarrow> event list \<Rightarrow> event list \<Rightarrow> bool" where
  "pop3_evidence_for H t m pre \<longleftrightarrow> (\<exists>a c o' u pw x k.
     pre = a @ [(Pop3Open c, Inr o'), (Pop3Auth u pw, Inr x)] @ k \<and> deletable H t m k)"

abbreviation pop3_ran where
  "pop3_ran H K \<equiv> ran_by pop3_harmless uidl_absent (uidl_intact H) pop3_mutations uncommitted pop3_caught K"

text \<open>Once the mutating events \<open>m\<close> are out, what an observation settles is the result of the run.\<close>

lemma settled_run:
  assumes "nt_trace u = nt_trace s @ m" "pop3_mutations t m" "m \<noteq> []" "K m []"
    and "pop3_settles H t u r v"
  shows "pop3_ran H K t s (Inr r) v"
proof -
  from assms(5) obtain l where l: "nt_trace v = nt_trace u @ l" "list_all (\<lambda>x. pop3_harmless (fst x)) l"
    "settled_by uidl_absent (uidl_intact H) t r l" unfolding settles_by_def by blast
  then have "justified_by uidl_absent (uidl_intact H) uncommitted t r [] m l"
    using assms(3) unfolding settled_by_def justified_by_def
    by (auto simp: FAILURE_ERROR_CODES_def)
  then show ?thesis
    unfolding ran_by_def using l assms
    by (intro exI [of _ "[]"] exI [of _ m] exI [of _ l]) simp
qed

lemma raised_run:
  assumes "nt_trace u = nt_trace s @ m" "pop3_mutations t m" "m \<noteq> [] \<longrightarrow> K m []"
    and "extends pop3_harmless u v" "\<not> pop3_caught e"
  shows "pop3_ran H K t s (Inl e) v"
proof -
  from assms(4) obtain l where l: "nt_trace v = nt_trace u @ l" "list_all (\<lambda>x. pop3_harmless (fst x)) l"
    unfolding extends_def by blast
  then show ?thesis
    unfolding ran_by_def using assms
    by (intro exI [of _ "[]"] exI [of _ m] exI [of _ l]) simp
qed

lemma wp_resolved:
  fixes u :: "'s net"
  assumes "wire_library P" "nt_trace u = nt_trace s @ m" "pop3_mutations t m" "m \<noteq> []" "K m []"
  shows "wp (pop3_resolve H P c t pw) (\<lambda>r. pop3_ran H K t s (Inr r)) (\<lambda>e. pop3_ran H K t s (Inl e)) u"
proof (rule wp_mono [OF wp_pop3_resolve [OF assms(1)]])
  fix r v assume "pop3_settles H t u r v"
  then show "pop3_ran H K t s (Inr r) v" by (rule settled_run [where K = K, OF assms(2-5)])
next
  fix e v assume "extends pop3_harmless u v \<and> \<not> pop3_caught e"
  then show "pop3_ran H K t s (Inl e) v"
    using raised_run [where K = K, OF assms(2,3)] assms(5) by blast
qed

lemma wp_dele_and_quit:
  fixes s :: "'s net"
  assumes P: "wire_library P" and K: "\<And>m. m \<noteq> [] \<Longrightarrow> fst (hd m) = Pop3Dele n \<Longrightarrow> K m []"
  shows "wp (dele_and_quit H P c t pw n) (\<lambda>r. pop3_ran H K t s (Inr r)) (\<lambda>e. pop3_ran H K t s (Inl e)) s"
proof -
  let ?Q = "\<lambda>r. pop3_ran H K t s (Inr r)" and ?E = "\<lambda>e. pop3_ran H K t s (Inl e)"
  have rejected: "wp (seq (wire_done P Pop3Abort) (\<lambda>u. seq (bind_client False) (\<lambda>v.
      pop3_resolve H P c t pw))) ?Q ?E (logged (Pop3Dele n) x p s)" (is "wp ?m _ _ ?s") for x and p :: 's
  proof -
    let ?d = "[(Pop3Dele n, x)]"
    have m: "pop3_mutations t ?d" "K ?d []" "?d \<noteq> []" using K by (auto simp: pop3_mutations_def)
    show ?thesis
      unfolding wp_seq bind_client_def wp_write
    proof (rule wp_abort [OF P])
      fix y and q :: 's
      let ?u = "(logged Pop3Abort (Inr y) q ?s)\<lparr>nt_client := False\<rparr>"
      have ran: "pop3_ran H K t s r v" if "pop3_ran H K t s r v" for r v using that .
      have ext: "extends pop3_harmless ?s ?u" by (simp add: extends_def)
      show "wp (pop3_resolve H P c t pw) ?Q ?E ?u"
      proof (rule wp_mono [OF wp_pop3_resolve [OF P]])
        fix r v assume "pop3_settles H t ?u r v"
        then have "pop3_settles H t ?s r v" by (rule pop3_evidence.settles_before [OF ext])
        then show "?Q r v" by (rule settled_run [where K = K, rotated 4]) (use m in simp_all)
      next
        fix e v assume "extends pop3_harmless ?u v \<and> \<not> pop3_caught e"
        then have "extends pop3_harmless ?s v" "\<not> pop3_caught e" using ext extends_trans by blast+
        then show "?E e v" using raised_run [of ?s s ?d t K v e H] m by simp
      qed
    qed
  qed
  have quit: "wp (seq (attempt (seq (wire_done P Pop3Quit) (\<lambda>u. ret True)) pop3_failure (\<lambda>e. ret False)) (\<lambda>done.
      if \<not> done then pop3_resolve H P c t pw
      else seq (bind_client False) (\<lambda>v. pop3_resolve H P c t pw))) ?Q ?E (logged (Pop3Dele n) (Inr x) p s)"
    (is "wp _ _ _ ?s") for x and p :: 's
  proof -
    have m: "pop3_mutations t [(Pop3Dele n, Inr x), (Pop3Quit, y)]" "K [(Pop3Dele n, Inr x), (Pop3Quit, y)] []"
      for y using K by (auto simp: pop3_mutations_def)
    have tr: "nt_trace (logged Pop3Quit y q ?s) = nt_trace s @ [(Pop3Dele n, Inr x), (Pop3Quit, y)]" for y q
      by simp
    have resolve: "wp (pop3_resolve H P c t pw) ?Q ?E (logged Pop3Quit y q ?s)" for y q
      by (rule wp_resolved [where K = K, OF P tr m(1) _ m(2)]) simp
    have resolve': "wp (pop3_resolve H P c t pw) ?Q ?E ((logged Pop3Quit y q ?s)\<lparr>nt_client := False\<rparr>)" for y q
      by (rule wp_resolved [where K = K, OF P _ m(1) _ m(2)]) simp_all
    have escaped: "?E e (logged Pop3Quit y q ?s)" if "\<not> pop3_caught e" for e y q
      by (rule raised_run [where K = K, OF tr [of y q] m(1)]) (use m that in simp_all)
    show ?thesis
      unfolding wp_seq wp_attempt wp_ret bind_client_def wp_write wire_done_def command_done_def
      by (rule wp_issue)
         (auto simp: resolve resolve' wp_seq wp_write escaped pop3_caught_def wire_raises [OF P])
  qed
  have escaped: "?E e (logged (Pop3Dele n) x p s)" if "\<not> pop3_caught e" for e x and p :: 's
    by (rule raised_run [where K = K and m = "[(Pop3Dele n, x)]" and u = "logged (Pop3Dele n) x p s"])
       (use that K in \<open>auto simp: pop3_mutations_def\<close>)
  show ?thesis
    unfolding dele_and_quit_def wp_seq [of "attempt _ _ _"] wp_attempt [of "seq _ _"]
    unfolding wire_done_def [of P "Pop3Dele n"] command_done_def wp_seq [of "seq _ _"] wp_seq [of "issue _ _"] wp_ret
    by (rule wp_issue)
       (auto simp: rejected quit escaped pop3_caught_def wire_raises [OF P])
qed

lemma pop3_run_ends:
  assumes "extends pop3_harmless s u"
  shows "code \<in> set FAILURE_ERROR_CODES \<Longrightarrow> pop3_ran H K t s (Inr (failure_result code)) u"
    and "pop3_ran H K t s (Inl e) u"
  using pop3_evidence.ran_failure [OF assms] pop3_evidence.ran_error [OF assms]
  by (auto simp: pop3_mutations_def uncommitted_def)

lemma wp_pop3_delete_session:
  fixes s :: "'s net"
  assumes P: "wire_library P"
  shows "wp (pop3_delete_session H P c t pw)
     (\<lambda>r. pop3_ran H (pop3_evidence_for H t) t s (Inr r)) (\<lambda>e. pop3_ran H (pop3_evidence_for H t) t s (Inl e)) s"
proof -
  let ?Q = "\<lambda>r. pop3_ran H (pop3_evidence_for H t) t s (Inr r)"
  let ?E = "\<lambda>e. pop3_ran H (pop3_evidence_for H t) t s (Inl e)"
  have retrieve: "wp (seq (wire_retr P n) (\<lambda>raw.
        if h_sha256 H raw \<noteq> tg_canonical_sha256 (base t) then ret (failure_result ''IDENTITY_MISMATCH'')
        else dele_and_quit H P c t pw n)) ?Q ?E u"
    if tr: "nt_trace u = nt_trace s @ [(Pop3Open c, Inr x), (Pop3Auth un pw, Inr y), (Pop3Uidls, Inr (Listing l))]"
      and n: "first_number l (tg_provider_message_id t) = Some n" for u :: "'s net" and x un y l n
    unfolding wp_seq
  proof (rule wp_retr [OF P])
    fix raw and p :: 's
    let ?k = "[(Pop3Uidls, Inr (Listing l)), (Pop3Retr n, Inr (Octets raw))]"
    let ?v = "logged (Pop3Retr n) (Inr (Octets raw)) p u"
    have all: "nt_trace ?v = nt_trace s @ [(Pop3Open c, Inr x), (Pop3Auth un pw, Inr y)] @ ?k"
      using tr by simp
    show "wp (if h_sha256 H raw \<noteq> tg_canonical_sha256 (base t) then ret (failure_result ''IDENTITY_MISMATCH'')
        else dele_and_quit H P c t pw n) ?Q ?E ?v"
    proof (cases "h_sha256 H raw = tg_canonical_sha256 (base t)")
      case False
      moreover have "extends pop3_harmless s ?v" unfolding extends_def all by simp
      ultimately show ?thesis by (simp add: pop3_run_ends)
    next
      case True
      let ?K = "\<lambda>m (pre :: event list). fst (hd m) = Pop3Dele n \<and> pre = []"
      have K: "pop3_evidence_for H t m (([(Pop3Open c, Inr x), (Pop3Auth un pw, Inr y)] @ ?k) @ pre)"
        if "?K m pre" for m pre
        unfolding pop3_evidence_for_def deletable_def retrieved_def using True n that
        by (intro exI [of _ "[]"] exI [of _ c] exI [of _ x] exI [of _ un] exI [of _ pw] exI [of _ y]
            exI [of _ ?k]) auto
      have "pop3_ran H (pop3_evidence_for H t) t s r v" if "pop3_ran H ?K t ?v r v" for r v
        by (rule pop3_evidence.ran_before [where K = ?K and K' = "pop3_evidence_for H t", OF all _ that K]) simp_all
      then show ?thesis
        using True wp_mono [OF wp_dele_and_quit [OF P, where K = ?K]] by simp
    qed
  next
    fix e x' and p :: 's
    have "extends pop3_harmless s u" by (simp add: extends_def tr)
    then show "?E e (logged (Pop3Retr n) x' p u)" by (simp add: pop3_run_ends)
  qed
  have listing: "wp (seq (wire_uidls P) (\<lambda>l. case first_number l (tg_provider_message_id t) of
          None \<Rightarrow> ret success_result
        | Some n \<Rightarrow> seq (wire_retr P n) (\<lambda>raw.
            if h_sha256 H raw \<noteq> tg_canonical_sha256 (base t) then ret (failure_result ''IDENTITY_MISMATCH'')
            else dele_and_quit H P c t pw n))) ?Q ?E u"
    if tr: "nt_trace u = nt_trace s @ [(Pop3Open c, Inr x), (Pop3Auth un pw, Inr y)]" for u :: "'s net" and x un y
    unfolding wp_seq [of "wire_uidls P"]
  proof (rule wp_uidls [OF P])
    fix l and p :: 's
    let ?v = "logged Pop3Uidls (Inr (Listing l)) p u"
    let ?l = "[(Pop3Open c, Inr x), (Pop3Auth un pw, Inr y), (Pop3Uidls, Inr (Listing l))]"
    have v: "nt_trace ?v = nt_trace s @ ?l" using tr by simp
    show "wp (case first_number l (tg_provider_message_id t) of None \<Rightarrow> ret success_result
        | Some n \<Rightarrow> seq (wire_retr P n) (\<lambda>raw.
            if h_sha256 H raw \<noteq> tg_canonical_sha256 (base t) then ret (failure_result ''IDENTITY_MISMATCH'')
            else dele_and_quit H P c t pw n)) ?Q ?E ?v"
    proof (cases "first_number l (tg_provider_message_id t)")
      case None
      then have "uidl_absent t ?l"
        by (simp add: uidl_absent_def listed_without_def first_number_None)
      from pop3_evidence.ran_absent [OF v _ this] have "?Q success_result ?v"
        by (simp add: pop3_mutations_def)
      with None show ?thesis by simp
    next
      case (Some n)
      with retrieve [OF v Some] show ?thesis by simp
    qed
  next
    fix e x' and p :: 's
    have "extends pop3_harmless s u" by (simp add: extends_def tr)
    then show "?E e (logged Pop3Uidls x' p u)" by (simp add: pop3_run_ends)
  qed
  show ?thesis
    unfolding pop3_delete_session_def pop3_session_def wp_seq [of "seq _ _"] wp_seq [of "wire_done P (Pop3Open c)"]
      wp_seq [of "bind_client True"] bind_client_def wp_write wire_done_def command_done_def
      wp_seq [of "issue _ _"] wp_ret
    by (rule wp_issue, rule wp_issue)
       (auto simp: wp_seq [of "write_state _"] wp_write intro!: listing pop3_run_ends)
qed

definition pop3_contract :: "host \<Rightarrow> target \<Rightarrow> 's net \<Rightarrow> mutation_result result \<Rightarrow> 's net \<Rightarrow> bool" where
  "pop3_contract H t s r u \<longleftrightarrow> (\<exists>pre m post. nt_trace u = nt_trace s @ pre @ m @ post \<and>
     list_all (\<lambda>x. pop3_harmless (fst x)) pre \<and> list_all (\<lambda>x. pop3_harmless (fst x)) post \<and>
     pop3_mutations t m \<and> (m \<noteq> [] \<longrightarrow> pop3_evidence_for H t m pre) \<and>
     (\<forall>x. r = Inr x \<longrightarrow> justified_by uidl_absent (uidl_intact H) uncommitted t x pre m post))"

lemma ran_contract: "pop3_ran H (pop3_evidence_for H t) t s r u \<Longrightarrow> pop3_contract H t s r u"
  unfolding ran_by_def pop3_contract_def by (elim exE conjE, intro exI conjI) (auto split: sum.split_asm)

text \<open>An exception the handlers of \<open>delete\<close> catch left nothing committed, so it is a failure.\<close>

lemma ran_caught:
  assumes "pop3_ran H K t s (Inl e) u" "pop3_caught e" "code \<in> set FAILURE_ERROR_CODES"
  shows "pop3_ran H K t s (Inr (failure_result code)) u"
proof -
  from assms(1) obtain pre m post where "nt_trace u = nt_trace s @ pre @ m @ post"
    "list_all (\<lambda>x. pop3_harmless (fst x)) pre" "list_all (\<lambda>x. pop3_harmless (fst x)) post"
    "pop3_mutations t m" "m \<noteq> [] \<longrightarrow> K m pre" "\<not> uncommitted m \<longrightarrow> \<not> pop3_caught e"
    unfolding ran_by_def by auto
  with assms(2,3) show ?thesis
    unfolding ran_by_def justified_by_def
    by (intro exI [of _ pre] exI [of _ m] exI [of _ post]) auto
qed

lemma pop3_target_cases: "pop3_target A t = None \<or> pop3_target A t = Some t"
  by (auto simp: pop3_target_def split: target.split)

lemma pop3_contract_failure: "code \<in> set FAILURE_ERROR_CODES \<Longrightarrow> pop3_contract H t s (Inr (failure_result code)) s"
  by (rule ran_contract) (simp add: pop3_run_ends)

lemma wp_pop3_locked:
  fixes s u :: "'s net"
  assumes P: "wire_library P" and body: "\<And>u. extends pop3_harmless s u \<Longrightarrow>
      wp body (\<lambda>r. pop3_ran H K t s (Inr r)) (\<lambda>e. pop3_ran H K t s (Inl e)) u"
    and u: "extends pop3_harmless s u"
  shows "wp (pop3_lock H P cfg a body) (\<lambda>r. pop3_ran H K t s (Inr r)) (\<lambda>e. pop3_ran H K t s (Inl e)) u"
proof (cases "pop3_lock_path H cfg a")
  case (Inl e)
  with u show ?thesis by (simp add: pop3_lock_def wp_rules pop3_run_ends)
next
  case (Inr f)
  have unlock: "wp (command_done P (Unlock f)) (\<lambda>x. pop3_ran H K t s r) E v" if "pop3_ran H K t s r v" for r v E
    by (rule wp_quiet [unfolded wire_done_def])
       (use P in \<open>auto simp: wire_library_def intro: pop3_evidence.ran_after [OF that]\<close>)
  have held: "wp (finalize body (command_done P (Unlock f)))
      (\<lambda>r. pop3_ran H K t s (Inr r)) (\<lambda>e. pop3_ran H K t s (Inl e)) v" if "extends pop3_harmless s v" for v
    unfolding wp_finalize by (rule wp_mono [OF body [OF that]]) (rule unlock; assumption)+
  show ?thesis
    unfolding pop3_lock_def Inr with_lock_def wp_seq wp_lift sum.case
    by (rule wp_issue) (use u in \<open>auto simp: pop3_run_ends intro: held\<close>)
qed

lemma wp_pop3_delete:
  fixes s :: "'s net"
  assumes P: "wire_library P"
  shows "wp (pop3_delete H P A t) (\<lambda>r. pop3_contract H t s (Inr r)) (\<lambda>e. pop3_contract H t s (Inl e)) s"
proof (cases "\<exists>c pw. pop3_target A t = Some t \<and> ac_pop3 (pm_account A) = Some c \<and>
    h_environ H (pm_variable A) = Some pw \<and> pw \<noteq> []")
  case False
  then have "pop3_delete H P A t = ret (failure_result ''IDENTITY_MISMATCH'')"
    using pop3_target_cases [of A t] by (auto simp: pop3_delete_def split: option.splits)
  then show ?thesis by (simp add: pop3_contract_failure)
next
  case True
  then obtain c pw where v: "pop3_target A t = Some t" "ac_pop3 (pm_account A) = Some c"
    "h_environ H (pm_variable A) = Some pw" "pw \<noteq> []" by blast
  let ?K = "pop3_evidence_for H t"
  let ?R = "pop3_ran H ?K t s"
  have session: "wp (pop3_delete_session H P c t pw) (\<lambda>r. ?R (Inr r)) (\<lambda>e. ?R (Inl e)) u"
    if ext: "extends pop3_harmless s u" for u
  proof -
    from ext obtain k where k: "nt_trace u = nt_trace s @ k" "list_all (\<lambda>x. pop3_harmless (fst x)) k"
      unfolding extends_def by blast
    have "?K m (k @ pre)" if "?K m pre" for m pre
      using that unfolding pop3_evidence_for_def by (metis append_assoc)
    then have "?R r w" if "pop3_ran H ?K t u r w" for r w
      using pop3_evidence.ran_before [OF k that] by blast
    then show ?thesis by (intro wp_mono [OF wp_pop3_delete_session [OF P]])
  qed
  have closing: "wp (close_wire P) (\<lambda>x. ?R r) E u" if "?R r u" for r u E
    unfolding close_wire_def wp_seq wp_read
    using that by (auto intro!: wp_abort [OF P] pop3_evidence.ran_after [OF that])
  have start: "extends pop3_harmless s (s\<lparr>nt_client := False\<rparr>)" by (simp add: extends_def)
  have "wp (finalize (attempt (pop3_lock H P (pm_config A) (pm_account A) (pop3_delete_session H P c t pw))
      (\<lambda>e. e = Pop3SyncBusyError \<or> pop3_failure e)
      (\<lambda>e. ret (failure_result (if e = Pop3SyncBusyError then ''REMOTE_STATE_CONFLICT''
         else ''PROVIDER_REJECTED'')))) (close_wire P))
      (\<lambda>r. ?R (Inr r)) (\<lambda>e. ?R (Inl e)) (s\<lparr>nt_client := False\<rparr>)"
    unfolding wp_finalize wp_attempt wp_ret
    by (rule wp_mono [OF wp_pop3_locked [OF P session start]])
       (auto intro: closing closing [OF ran_caught] simp: pop3_caught_def)
  then have "wp (pop3_delete H P A t) (\<lambda>r. ?R (Inr r)) (\<lambda>e. ?R (Inl e)) s"
    by (simp add: pop3_delete_def v bind_client_def wp_seq wp_write)
  then show ?thesis by (rule wp_mono) (rule ran_contract; assumption)+
qed

lemma pop3_delete_run:
  assumes "wire_library P" and "pop3_delete H P A t s = (r, u)"
  shows "pop3_contract H t s r u"
  using wp_pop3_delete [OF assms(1), of H A t s] assms(2) by (auto simp: wp_def split: sum.splits)

text \<open>
  C22.  QUIT commits exactly what was proved.  Whatever the server answers, a run of the POP3
  \<open>delete\<close> sends DELE at most once, and QUIT at most once, only right after the server accepted
  that DELE.  The DELE is for the number under which the session, opened and authenticated just
  before, listed the target's UIDL and returned bytes with the canonical digest.  Success is
  reported only for a listing without the UIDL, made after the mutating commands if there are
  any; a failure after QUIT only when the same bytes were read again; anything else is unknown.
\<close>

theorem pop3_delete_commits_what_was_proved:
  assumes "wire_library P" and "pop3_delete H P A t s = (r, u)"
  shows "\<exists>pre m post. nt_trace u = nt_trace s @ pre @ m @ post \<and>
     list_all (\<lambda>x. pop3_harmless (fst x)) pre \<and> list_all (\<lambda>x. pop3_harmless (fst x)) post \<and>
     pop3_mutations t m \<and> (m \<noteq> [] \<longrightarrow> pop3_evidence_for H t m pre) \<and>
     (\<forall>x. r = Inr x \<longrightarrow> justified_by uidl_absent (uidl_intact H) uncommitted t x pre m post)"
  using pop3_delete_run [OF assms] unfolding pop3_contract_def .

interpretation pop3: deletion_adapter "\<lambda>P. pop3_delete H P A" wire_library pop3_harmless pop3_mutations
  "pop3_evidence_for H" uidl_absent "uidl_intact H" uncommitted for H A
  by unfold_locales (rule pop3_delete_run [unfolded pop3_contract_def])

section \<open>What an observation proves\<close>

lemma wp_pop3_observe:
  fixes s :: "'s net"
  assumes P: "wire_library P"
  shows "wp (pop3_observe H P A t) (pop3_reports H t s) (\<lambda>e. extends pop3_harmless s) s"
proof (cases "\<exists>c pw. pop3_target A t = Some t \<and> ac_pop3 (pm_account A) = Some c \<and>
    h_environ H (pm_variable A) = Some pw \<and> pw \<noteq> []")
  case False
  then have "pop3_observe H P A t = ret ''identity-conflict'' \<or> pop3_observe H P A t = ret ''unknown''"
    using pop3_target_cases [of A t] by (auto simp: pop3_observe_def split: option.splits)
  then show ?thesis by (auto simp: pop3_evidence.reports_nothing)
next
  case True
  then obtain c pw where v: "pop3_target A t = Some t" "ac_pop3 (pm_account A) = Some c"
    "h_environ H (pm_variable A) = Some pw" "pw \<noteq> []" by blast
  let ?R = "pop3_reports H t s" and ?I = "extends pop3_harmless s"
  have observed: "wp (observe_unlocked H P c t pw) ?R (\<lambda>e. ?I) u" if "?I u" for u
    by (rule wp_mono [OF wp_observe_unlocked [OF P]])
       (use that in \<open>auto intro: pop3_evidence.reports_before extends_trans\<close>)
  have locked: "wp (pop3_lock H P (pm_config A) (pm_account A) (observe_unlocked H P c t pw)) ?R (\<lambda>e. ?I) s"
  proof (cases "pop3_lock_path H (pm_config A) (pm_account A)")
    case (Inl e)
    then show ?thesis by (simp add: pop3_lock_def wp_rules)
  next
    case (Inr f)
    have unlock: "wp (command_done P (Unlock f)) (\<lambda>x. ?R r) E u" if "?R r u" for r u E
      by (rule wp_quiet [unfolded wire_done_def])
         (use P in \<open>auto simp: wire_library_def intro: pop3_evidence.reports_after [OF that]\<close>)
    have release: "wp (command_done P (Unlock f)) (\<lambda>x. ?I) E u" if "?I u" for u E
      by (rule wp_quiet [unfolded wire_done_def]) (use P that in \<open>auto simp: wire_library_def\<close>)
    have held: "wp (finalize (observe_unlocked H P c t pw) (command_done P (Unlock f))) ?R (\<lambda>e. ?I) u"
      if "?I u" for u
      unfolding wp_finalize by (rule wp_mono [OF observed [OF that]]) (rule unlock release; assumption)+
    show ?thesis
      unfolding pop3_lock_def Inr with_lock_def wp_seq wp_lift sum.case
      by (rule wp_issue) (auto intro: held)
  qed
  show ?thesis
    unfolding pop3_observe_def v prod.case option.case wp_if wp_attempt wp_ret
    using v(4) by (auto intro!: wp_mono [OF locked] intro: pop3_evidence.reports_nothing)
qed

text \<open>
  POP3 observation never commits: whatever the server answers, \<open>observe\<close> sends neither DELE
  nor QUIT, reports one of the closed states, and reports an absence or an intact presence only
  for a listing without the UIDL or for the canonical bytes retrieved right after a listing of it.
\<close>

theorem pop3_observe_proves_its_report:
  assumes "wire_library P"
  shows "case pop3_observe H P A t s of
     (Inl e, u) \<Rightarrow> extends pop3_harmless s u
   | (Inr r, u) \<Rightarrow> pop3_reports H t s r u"
  using wp_pop3_observe [OF assms, of H A t s] by (auto simp: wp_def split: prod.splits sum.splits)

end
