(* ===== verification/GmailProtocol.thy ===== *)
theory GmailProtocol
  imports Wire
begin

text \<open>
  The validation of Gmail responses (\<open>gmail.py\<close>): identifiers, history ids, label names and the
  strict base64url decoding of a RAW message, with the round trip that makes a decoded message
  byte-exact.
\<close>

section \<open>Identifiers\<close>

definition valid_id :: "pyval \<Rightarrow> string \<Rightarrow> string result" where
  "valid_id v field =
     (case v of
        VStr s \<Rightarrow> if s = [] \<or> (\<exists>c \<in> set s. str_space c \<or> (of_char c :: nat) < 32)
                  then Inl (GmailResponseError field) else Inr s
      | _ \<Rightarrow> Inl (GmailResponseError field))"

text \<open>\<open>str.isdecimal()\<close> below code point 256 is the ASCII digits (superscripts are not decimal).\<close>

definition history_id :: "pyval \<Rightarrow> string result" where
  "history_id v =
     (case valid_id v ''historyId'' of Inl e \<Rightarrow> Inl e
      | Inr s \<Rightarrow> if all_digits s then Inr s else Inl (GmailResponseError ''historyId''))"

definition label_name :: "pyval \<Rightarrow> string result" where
  "label_name v =
     (case v of
        VStr s \<Rightarrow> if s = [] \<or> (\<exists>c \<in> set s. (of_char c :: nat) < 32)
                  then Inl (GmailResponseError ''label name'') else Inr s
      | _ \<Rightarrow> Inl (GmailResponseError ''label name''))"

section \<open>Requests and files\<close>

definition message_path :: "string \<Rightarrow> string" where
  "message_path m = ''messages/'' @ m"

text \<open>What a local token file is: the checks of \<open>_safe_token_file\<close> and \<open>_safe_delete_token\<close>, the
  parsed content, and whether the OAuth library accepts it.\<close>

datatype token_file =
    NoToken
  | UnsafeToken
  | UnreadableToken
  | Token pyval bool

fun scope_text :: "pyval \<Rightarrow> string option" where
  "scope_text (VStr s) = Some s"
| "scope_text _ = None"

definition gmail_lock_path :: "host \<Rightarrow> app_config \<Rightarrow> account_config \<Rightarrow> string \<Rightarrow> path" where
  "gmail_lock_path H cfg a purpose = cf_archive_root cfg @ [''state'', ''locks'',
     ''gmail-'' @ purpose @ ''-'' @ take 20 (h_sha256 H (utf8 (ac_name a))) @ ''.lock'']"

section \<open>RAW messages\<close>

text \<open>The value of a base64url character, as \<open>binascii\<close> reads it after \<open>altchars\<close>.\<close>

definition sextet :: "char \<Rightarrow> nat option" where
  "sextet c =
     (let n = of_char c :: nat in
      if 65 \<le> n \<and> n \<le> 90 then Some (n - 65)
      else if 97 \<le> n \<and> n \<le> 122 then Some (n - 71)
      else if 48 \<le> n \<and> n \<le> 57 then Some (n + 4)
      else if c = CHR ''-'' then Some 62
      else if c = CHR ''_'' then Some 63 else None)"

text \<open>
  \<^verbatim>\<open>base64.b64decode(value + padding, validate=True)\<close> of valid characters, the padding filling the
  last quantum: the bits left over in a short quantum are ignored; one lonely character is an error.
\<close>

fun decode_quanta :: "nat list \<Rightarrow> bytes option" where
  "decode_quanta [] = Some []"
| "decode_quanta [a] = None"
| "decode_quanta [a, b] = Some [char_of (4 * a + b div 16)]"
| "decode_quanta [a, b, c] = Some [char_of (4 * a + b div 16), char_of (16 * (b mod 16) + c div 4)]"
| "decode_quanta (a # b # c # d # r) =
     map_option (\<lambda>t. char_of (4 * a + b div 16) # char_of (16 * (b mod 16) + c div 4) #
       char_of (64 * (c mod 4) + d) # t) (decode_quanta r)"

definition decode_raw :: "pyval \<Rightarrow> bytes result" where
  "decode_raw v =
     (case v of
        VStr s \<Rightarrow>
          if s = [] then Inl (GmailResponseError ''Gmail RAW response lacks raw bytes'')
          else if \<exists>c \<in> set s. sextet c = None then Inl (GmailResponseError ''Gmail RAW is not base64url'')
          else (case decode_quanta (map (\<lambda>c. the (sextet c)) s) of
                  None \<Rightarrow> Inl (GmailResponseError ''Gmail RAW is invalid base64url'')
                | Some b \<Rightarrow> Inr b)
      | _ \<Rightarrow> Inl (GmailResponseError ''Gmail RAW response lacks raw bytes''))"

text \<open>The reference encoder of RFC 4648 (base64url, without padding), for the round trip.\<close>

definition sextet_char :: "nat \<Rightarrow> char" where
  "sextet_char n =
     (if n < 26 then char_of (n + 65) else if n < 52 then char_of (n + 71)
      else if n < 62 then char_of (n - 4) else if n = 62 then CHR ''-'' else CHR ''_'')"

fun quanta :: "nat list \<Rightarrow> nat list" where
  "quanta [] = []"
| "quanta [x] = [x div 4, 16 * (x mod 4)]"
| "quanta [x, y] = [x div 4, 16 * (x mod 4) + y div 16, 4 * (y mod 16)]"
| "quanta (x # y # z # r) =
     x div 4 # (16 * (x mod 4) + y div 16) # (4 * (y mod 16) + z div 64) # z mod 64 # quanta r"

definition encode_raw :: "bytes \<Rightarrow> string" where
  "encode_raw b = map sextet_char (quanta (map of_char b))"

lemma sextet_sextet_char: "n < 64 \<Longrightarrow> sextet (sextet_char n) = Some n"
proof -
  have "\<forall>n \<in> {0..<64}. sextet (sextet_char n) = Some n"
    by (simp add: sextet_def sextet_char_def Let_def atLeastLessThan_nat_numeral)
  then show "n < 64 \<Longrightarrow> sextet (sextet_char n) = Some n" by simp
qed

lemma quanta_small: "\<forall>x \<in> set l. x < 256 \<Longrightarrow> \<forall>n \<in> set (quanta l). n < 64"
  by (induction l rule: quanta.induct) auto

lemma middle:
  fixes x y z :: nat
  assumes "y < 256" "z < 4"
  shows "16 * ((16 * (x mod 4) + y div 16) mod 16) + (4 * (y mod 16) + z) div 4 = y"
proof -
  have "y div 16 < 16" using assms(1) by (simp add: less_mult_imp_div_less)
  moreover have "(4 * (y mod 16) + z) div 4 = y mod 16" using assms(2) by simp
  ultimately show ?thesis by simp
qed

lemma leading:
  fixes x y :: nat
  assumes "y < 256"
  shows "4 * (x div 4) + (16 * (x mod 4) + y div 16) div 16 = x"
proof -
  have "y div 16 < 16" using assms by (simp add: less_mult_imp_div_less)
  then show ?thesis by simp
qed

lemma decode_quanta_quanta:
  "\<forall>x \<in> set l. x < 256 \<Longrightarrow> decode_quanta (quanta l) = Some (map char_of l)"
proof (induction l rule: quanta.induct)
  case (4 x y z r)
  then have b: "x < 256" "y < 256" "z < 256" by auto
  have 1: "4 * (x div 4) + (16 * (x mod 4) + y div 16) div 16 = x" using leading b by simp
  have 2: "16 * ((16 * (x mod 4) + y div 16) mod 16) + (4 * (y mod 16) + z div 64) div 4 = y"
    using middle [of y x "z div 64"] b by simp
  have 3: "64 * ((4 * (y mod 16) + z div 64) mod 4) + z mod 64 = z" using b
    by (simp add: less_mult_imp_div_less)
  from 4 show ?case by (simp only: quanta.simps decode_quanta.simps 1 2 3) simp
next
  case (3 x y)
  then have b: "x < 256" "y < 256" by auto
  have 1: "4 * (x div 4) + (16 * (x mod 4) + y div 16) div 16 = x" using leading b by simp
  have 2: "16 * ((16 * (x mod 4) + y div 16) mod 16) + (4 * (y mod 16)) div 4 = y"
    using middle [of y x 0] b by simp
  show ?case by (simp only: quanta.simps decode_quanta.simps 1 2) simp
qed auto

lemma decode_encode: "b \<noteq> [] \<Longrightarrow> decode_raw (VStr (encode_raw b)) = Inr b"
proof -
  assume b: "b \<noteq> []"
  let ?l = "map of_char b :: nat list"
  have small: "\<forall>n \<in> set (quanta ?l). n < 64" by (rule quanta_small) auto
  have ne: "quanta ?l \<noteq> []" using b by (cases ?l rule: quanta.cases) auto
  have map: "map (\<lambda>n. the (sextet (sextet_char n))) (quanta ?l) = quanta ?l"
    using small by (intro map_idI) (simp add: sextet_sextet_char)
  have "decode_quanta (quanta ?l) = Some b"
    using decode_quanta_quanta [of ?l] by (simp add: o_def)
  then show ?thesis
    using ne small map by (auto simp: decode_raw_def encode_raw_def o_def sextet_sextet_char)
qed

lemma decode_quanta_length:
  "decode_quanta l = Some b \<Longrightarrow> length b = 3 * length l div 4 \<and> length l mod 4 \<noteq> 1"
proof (induction l arbitrary: b rule: decode_quanta.induct)
  case (5 a b c d r)
  then obtain t where t: "decode_quanta r = Some t" by auto
  with 5 have "length t = 3 * length r div 4" "length r mod 4 \<noteq> 1" by auto
  with 5 t show ?case by auto
qed auto

text \<open>
  C24.  A RAW message is decoded byte for byte: the base64url text of any non-empty octet sequence
  (without padding, as the RFC 4648 encoder writes it) decodes to exactly that sequence.
\<close>

theorem decode_raw_roundtrip:
  "b \<noteq> [] \<Longrightarrow> decode_raw (VStr (encode_raw b)) = Inr b"
  by (rule decode_encode)

theorem decode_raw_roundtrip_witness:
  "decode_raw (VStr (encode_raw ''From: x'')) = Inr ''From: x'' \<and> encode_raw ''From: x'' = ''RnJvbTogeA''"
proof
  show "decode_raw (VStr (encode_raw ''From: x'')) = Inr ''From: x''" by (rule decode_raw_roundtrip) simp
  show "encode_raw ''From: x'' = ''RnJvbTogeA''" by code_simp
qed

text \<open>
  A value \<open>decode_raw\<close> accepts is a text over the base64url alphabet whose length is not one
  more than a multiple of four, and the message has exactly three octets for four characters
  (rounded down), so nothing is dropped or added silently.
\<close>

theorem decode_raw_bounds:
  assumes "decode_raw v = Inr b"
  shows "\<exists>s. v = VStr s \<and> (\<forall>c \<in> set s. sextet c \<noteq> None) \<and> length s mod 4 \<noteq> 1 \<and>
     length b = 3 * length s div 4"
  using assms decode_quanta_length
  by (fastforce simp: decode_raw_def split: pyval.split_asm if_split_asm option.split_asm)

theorem decode_raw_bounds_witness:
  "length ''abc'' = 3 * length ''YWJj'' div 4 \<and> length ''YWJj'' mod 4 \<noteq> 1"
proof -
  have "decode_raw (VStr ''YWJj'') = Inr ''abc''" by code_simp
  from decode_raw_bounds [OF this] show ?thesis by simp
qed

end
