(* ===== verification/GmailMutation.thy ===== *)
theory GmailMutation
  imports AdapterContract GmailProtocol
begin

text \<open>
  The destructive Gmail adapter of \<open>gmail_mutation.py\<close> with the HTTP transport the program brings:
  the credential checks, one exact DELETE and the GET-only observations.  The credentials object
  (the OAuth library) and the HTTP server answer as the peer; nothing is assumed about either.
\<close>

section \<open>Credentials\<close>

definition GMAIL_DELETE_SCOPE :: string where
  "GMAIL_DELETE_SCOPE = ''https://mail.google.com/''"

definition delete_path :: "account_config \<Rightarrow> path result" where
  "delete_path a =
     (case ac_gmail a of
        None \<Rightarrow> Inl (GmailAuthError ''Gmail remote delete token file is not configured'')
      | Some g \<Rightarrow> (case gc_remote_delete_token_file g of
            None \<Rightarrow> Inl (GmailAuthError ''Gmail remote delete token file is not configured'')
          | Some p \<Rightarrow> Inr p))"

definition mailbox_scope :: "string \<Rightarrow> bool" where
  "mailbox_scope s \<longleftrightarrow> contains ''gmail'' s \<or> s = GMAIL_DELETE_SCOPE"

definition validate_delete_scopes :: "pyval option \<Rightarrow> unit result" where
  "validate_delete_scopes v =
     (case v of
        Some (VList l) \<Rightarrow>
          if list_all (\<lambda>x. scope_text x \<noteq> None) l
          then (if set (filter mailbox_scope (map (\<lambda>x. the (scope_text x)) l)) = {GMAIL_DELETE_SCOPE}
                then Inr ()
                else Inl (GmailAuthError ''Gmail deletion credential scope is not mail.google.com''))
          else Inl (GmailAuthError ''Gmail deletion credential scopes cannot be proven'')
      | _ \<Rightarrow> Inl (GmailAuthError ''Gmail deletion credential scopes cannot be proven''))"

definition load_delete_credentials :: "(path \<Rightarrow> token_file) \<Rightarrow> account_config \<Rightarrow> unit result" where
  "load_delete_credentials T a =
     (case delete_path a of Inl e \<Rightarrow> Inl e
      | Inr p \<Rightarrow>
          (case T p of
             NoToken \<Rightarrow> Inl (GmailAuthError ''Gmail remote delete token file is absent'')
           | UnsafeToken \<Rightarrow> Inl (GmailAuthError ''Gmail remote delete token file must be a regular 0600 file'')
           | UnreadableToken \<Rightarrow> Inl (GmailAuthError ''Gmail remote delete token file is invalid'')
           | Token v loads \<Rightarrow>
               (case v of
                  VDict kvs \<Rightarrow>
                    (case validate_delete_scopes (dict_get kvs ''scopes'') of Inl e \<Rightarrow> Inl e
                     | Inr u \<Rightarrow> if loads then Inr () else Inl (ValueError ''authorized user info''))
                | _ \<Rightarrow> Inl (GmailAuthError ''Gmail remote delete token file is invalid''))))"

text \<open>\<open>to_json\<close> and its check; what is written is the document the payload is the parse of.\<close>

definition serialized_delete_credentials :: "'s peer \<Rightarrow> ('s net, pyval) prog" where
  "serialized_delete_credentials P =
     seq (issue P CredJson) (\<lambda>r. case r of
       Parsed (Some (VDict kvs)) \<Rightarrow>
         seq (lift_result (validate_delete_scopes (dict_get kvs ''scopes''))) (\<lambda>u. ret (VDict kvs))
     | Parsed x \<Rightarrow> fail (GmailAuthError ''Gmail deletion credential cannot be safely persisted'')
     | _ \<Rightarrow> fail TypeError)"

section \<open>The HTTP transport\<close>

text \<open>\<open>_headers\<close>: the bearer token, which has to be a non-empty string.\<close>

definition bearer :: "'s peer \<Rightarrow> ('s net, string) prog" where
  "bearer P =
     seq (issue P CredToken) (\<lambda>r. case r of
       Text (Some t) \<Rightarrow> if t = [] then fail (GmailAuthError ''Gmail deletion access token is unavailable'')
                      else ret t
     | _ \<Rightarrow> fail (GmailAuthError ''Gmail deletion access token is unavailable''))"

definition http_result :: "int \<Rightarrow> pyval option \<Rightarrow> (pyval \<times> pyval) list option result" where
  "http_result status body =
     (if status = 404 then Inr None
      else if status = 401 \<or> status = 403 then Inl MutationAuthorizationError
      else if status \<noteq> 200 then Inl (GmailAuthError ''Gmail deletion observation failed'')
      else (case body of
          None \<Rightarrow> Inl (ValueError ''json'')
        | Some (VDict kvs) \<Rightarrow> Inr (Some kvs)
        | Some v \<Rightarrow> Inl (GmailAuthError ''Gmail deletion observation was malformed'')))"

definition http_get ::
  "'s peer \<Rightarrow> string \<Rightarrow> (string \<times> string) list \<Rightarrow> ('s net, (pyval \<times> pyval) list option) prog" where
  "http_get P path params =
     seq (bearer P) (\<lambda>token.
       seq (issue P (HttpGet path params token)) (\<lambda>r. case r of
         Http status body \<Rightarrow> lift_result (http_result status body)
       | _ \<Rightarrow> fail TypeError))"

definition gmail_profile :: "'s peer \<Rightarrow> ('s net, (pyval \<times> pyval) list) prog" where
  "gmail_profile P =
     seq (http_get P ''profile'' []) (\<lambda>r. case r of
       None \<Rightarrow> fail (GmailAuthError ''Gmail profile was absent'') | Some kvs \<Rightarrow> ret kvs)"

definition gmail_get_raw :: "'s peer \<Rightarrow> string \<Rightarrow> ('s net, (pyval \<times> pyval) list option) prog" where
  "gmail_get_raw P m =
     seq (lift_result (valid_id (VStr m) ''message id'')) (\<lambda>x.
       http_get P (message_path x) [(''format'', ''raw'')])"

text \<open>One request, no retry; the response is not looked at.\<close>

definition delete_message_once :: "'s peer \<Rightarrow> string \<Rightarrow> ('s net, unit) prog" where
  "delete_message_once P m =
     seq (lift_result (valid_id (VStr m) ''message id'')) (\<lambda>x.
       seq (bearer P) (\<lambda>token. command_done P (HttpDelete (message_path x) token)))"

section \<open>The adapter object\<close>

record gmail_mutation =
  gm_config :: app_config
  gm_account :: account_config
  gm_account_id :: int

definition gmail_mutation_adapter ::
  "(path \<Rightarrow> token_file) \<Rightarrow> app_config \<Rightarrow> string \<Rightarrow> db \<Rightarrow> gmail_mutation result" where
  "gmail_mutation_adapter T cfg name d =
     (case config_account cfg name of
        None \<Rightarrow> Inl (GmailAuthError ''account is not configured for Gmail mutation'')
      | Some a \<Rightarrow>
          if ac_kind a \<noteq> Gmail \<or> ac_gmail a = None
          then Inl (GmailAuthError ''account is not configured for Gmail mutation'')
          else (case account_id d name of
              None \<Rightarrow> Inl (GmailAuthError ''account is not active in local state'')
            | Some i \<Rightarrow>
                (case load_delete_credentials T a of Inl e \<Rightarrow> Inl e
                 | Inr u \<Rightarrow> Inr \<lparr>gm_config = cfg, gm_account = a, gm_account_id = i\<rparr>)))"

definition gmail_target :: "gmail_mutation \<Rightarrow> target \<Rightarrow> target option" where
  "gmail_target A t =
     (case t of
        ImapDeletionTarget b f v u \<Rightarrow> None
      | ProviderDeletionTarget b m \<Rightarrow>
          if tg_provider_kind b \<noteq> Gmail then None
          else if tg_account_id b \<noteq> gm_account_id A \<or> tg_account_name b \<noteq> ac_name (gm_account A) then None
          else (case valid_id (VStr m) ''message id'' of Inl e \<Rightarrow> None | Inr x \<Rightarrow> Some t))"

definition gmail_lock ::
  "host \<Rightarrow> 's peer \<Rightarrow> app_config \<Rightarrow> account_config \<Rightarrow> string \<Rightarrow> ('s net, 'a) prog \<Rightarrow> ('s net, 'a) prog" where
  "gmail_lock H P cfg a purpose body =
     with_lock P (gmail_lock_path H cfg a purpose) GmailSyncBusyError body"

section \<open>Observation\<close>

datatype observed_state = Absent | Present | Conflict | Unauthorised | Unobservable

text \<open>What the body of the exact RAW GET says of the target.\<close>

definition body_state :: "host \<Rightarrow> target \<Rightarrow> (pyval \<times> pyval) list \<Rightarrow> observed_state result" where
  "body_state H t kvs =
     (if dict_get_or kvs ''id'' VNull \<noteq> VNull \<and>
         dict_get_or kvs ''id'' VNull \<noteq> VStr (tg_provider_message_id t)
      then Inr Conflict
      else (case decode_raw (dict_get_or kvs ''raw'' VNull) of Inl e \<Rightarrow> Inl e
        | Inr raw \<Rightarrow> Inr (if h_sha256 H raw = tg_canonical_sha256 (base t) then Present else Conflict)))"

definition gmail_state :: "host \<Rightarrow> 's peer \<Rightarrow> target \<Rightarrow> ('s net, observed_state) prog" where
  "gmail_state H P t =
     attempt
       (seq (gmail_get_raw P (tg_provider_message_id t)) (\<lambda>item.
          case item of None \<Rightarrow> ret Absent | Some kvs \<Rightarrow> lift_result (body_state H t kvs)))
       (\<lambda>e. True) (\<lambda>e. ret (if e = MutationAuthorizationError then Unauthorised else Unobservable))"

definition profile_email :: "'s peer \<Rightarrow> ('s net, string) prog" where
  "profile_email P =
     seq (gmail_profile P) (\<lambda>kvs. lift_result (valid_id (dict_get_or kvs ''emailAddress'' VNull) ''profile email''))"

definition same_mailbox :: "gmail_config \<Rightarrow> string \<Rightarrow> bool" where
  "same_mailbox g email \<longleftrightarrow> casefold email = casefold (gc_account_email g)"

fun gmail_report :: "observed_state \<Rightarrow> string" where
  "gmail_report Absent = ''confirmed-absent''"
| "gmail_report Present = ''confirmed-present-match''"
| "gmail_report Conflict = ''identity-conflict''"
| "gmail_report Unauthorised = ''authorization''"
| "gmail_report Unobservable = ''unknown''"

definition observe_read_only :: "host \<Rightarrow> 's peer \<Rightarrow> gmail_config \<Rightarrow> target \<Rightarrow> ('s net, string) prog" where
  "observe_read_only H P g t =
     seq (attempt (seq (profile_email P) (\<lambda>e. ret (Inr e))) (\<lambda>e. True)
            (\<lambda>e. ret (Inl (if e = MutationAuthorizationError then ''authorization'' else ''unknown'')))) (\<lambda>o'.
       case o' of
         Inl state \<Rightarrow> ret state
       | Inr email \<Rightarrow>
           if \<not> same_mailbox g email then ret ''identity-conflict''
           else seq (gmail_state H P t) (\<lambda>st. ret (gmail_report st)))"

text \<open>\<open>except (RefreshError, OSError, GmailAuthError)\<close>.\<close>

fun refresh_failure :: "error \<Rightarrow> bool" where
  "refresh_failure RefreshError = True"
| "refresh_failure (GmailAuthError m) = True"
| "refresh_failure MutationAuthorizationError = True"
| "refresh_failure e = os_error e"

definition refresh_if_needed :: "'s peer \<Rightarrow> gmail_mutation \<Rightarrow> bool \<Rightarrow> ('s net, bool) prog" where
  "refresh_if_needed P A force =
     seq (if force then ret False else seq (issue P CredValid) (\<lambda>r. ret (r = Flag True))) (\<lambda>valid.
       if valid then ret True
       else attempt
         (seq (command_done P CredRefresh) (\<lambda>u.
            seq (lift_result (delete_path (gm_account A))) (\<lambda>p.
              seq (serialized_delete_credentials P) (\<lambda>v.
                seq (command_done P (InstallToken p v)) (\<lambda>w. ret True)))))
         refresh_failure (\<lambda>e. ret False))"

definition observe_guarded :: "host \<Rightarrow> 's peer \<Rightarrow> gmail_config \<Rightarrow> target \<Rightarrow> ('s net, string) prog" where
  "observe_guarded H P g t = attempt (observe_read_only H P g t) (\<lambda>e. True) (\<lambda>e. ret ''unknown'')"

definition closed_report :: "string \<Rightarrow> string" where
  "closed_report state =
     (if state \<in> {''confirmed-absent'', ''confirmed-present-match'', ''identity-conflict''}
      then state else ''unknown'')"

text \<open>\<open>refreshed = not self.credentials.valid\<close>, then one forced refresh and one repetition at most.\<close>

definition gmail_observe_locked ::
  "host \<Rightarrow> 's peer \<Rightarrow> gmail_mutation \<Rightarrow> gmail_config \<Rightarrow> target \<Rightarrow> ('s net, string) prog" where
  "gmail_observe_locked H P A g t =
     seq (issue P CredValid) (\<lambda>r.
       let refreshed = r \<noteq> Flag True in
       seq (if refreshed then refresh_if_needed P A False else ret True) (\<lambda>ok.
         if \<not> ok then ret ''unknown''
         else seq (observe_guarded H P g t) (\<lambda>state.
           if state = ''authorization'' \<and> \<not> refreshed
           then seq (refresh_if_needed P A True) (\<lambda>again.
                  if \<not> again then ret ''unknown''
                  else seq (observe_guarded H P g t) (\<lambda>state'. ret (closed_report state')))
           else ret (closed_report state))))"

definition gmail_observe ::
  "host \<Rightarrow> 's peer \<Rightarrow> gmail_mutation \<Rightarrow> target \<Rightarrow> ('s net, string) prog" where
  "gmail_observe H P A t =
     (case (gmail_target A t, ac_gmail (gm_account A)) of
        (Some x, Some g) \<Rightarrow>
          if \<not> ac_enabled (gm_account A) then ret ''identity-conflict''
          else gmail_lock H P (gm_config A) (gm_account A) ''sync'' (gmail_observe_locked H P A g x)
      | _ \<Rightarrow> ret ''identity-conflict'')"

section \<open>Deletion\<close>

fun confirmed :: "observed_state \<Rightarrow> mutation_result" where
  "confirmed Absent = success_result"
| "confirmed Present = failure_result ''PROVIDER_REJECTED''"
| "confirmed _ = unknown_result"

definition confirmation ::
  "host \<Rightarrow> 's peer \<Rightarrow> gmail_mutation \<Rightarrow> target \<Rightarrow> ('s net, mutation_result) prog" where
  "confirmation H P A t =
     seq (gmail_state H P t) (\<lambda>st.
       if st = Unauthorised
       then seq (refresh_if_needed P A True) (\<lambda>ok.
              if \<not> ok then ret unknown_result
              else seq (gmail_state H P t) (\<lambda>st'. ret (confirmed st')))
       else ret (confirmed st))"

definition delete_observed ::
  "host \<Rightarrow> 's peer \<Rightarrow> gmail_mutation \<Rightarrow> target \<Rightarrow> observed_state \<Rightarrow> ('s net, mutation_result) prog" where
  "delete_observed H P A t st =
     (if st = Absent then ret success_result
      else if st \<noteq> Present
      then ret (failure_result (if st = Conflict then ''IDENTITY_MISMATCH'' else ''PROVIDER_REJECTED''))
      else seq (attempt (delete_message_once P (tg_provider_message_id t)) (\<lambda>e. True) (\<lambda>e. ret ()))
        (\<lambda>u. confirmation H P A t))"

definition delete_in_mailbox ::
  "host \<Rightarrow> 's peer \<Rightarrow> gmail_mutation \<Rightarrow> gmail_config \<Rightarrow> target \<Rightarrow> string \<Rightarrow>
     ('s net, mutation_result) prog" where
  "delete_in_mailbox H P A g t email =
     (if \<not> same_mailbox g email then ret (failure_result ''AUTHORIZATION_FAILED'')
      else seq (gmail_state H P t) (delete_observed H P A t))"

definition gmail_delete_locked ::
  "host \<Rightarrow> 's peer \<Rightarrow> gmail_mutation \<Rightarrow> gmail_config \<Rightarrow> target \<Rightarrow> ('s net, mutation_result) prog" where
  "gmail_delete_locked H P A g t =
     seq (refresh_if_needed P A False) (\<lambda>ok.
       if \<not> ok then ret (failure_result ''AUTHORIZATION_FAILED'')
       else seq (attempt (seq (profile_email P) (\<lambda>e. ret (Some e))) (\<lambda>e. True) (\<lambda>e. ret None)) (\<lambda>o'.
         case o' of None \<Rightarrow> ret (failure_result ''AUTHORIZATION_FAILED'')
         | Some email \<Rightarrow> delete_in_mailbox H P A g t email))"

definition gmail_delete ::
  "host \<Rightarrow> 's peer \<Rightarrow> gmail_mutation \<Rightarrow> target \<Rightarrow> ('s net, mutation_result) prog" where
  "gmail_delete H P A t =
     (case (gmail_target A t, ac_gmail (gm_account A)) of
        (Some x, Some g) \<Rightarrow>
          if \<not> ac_enabled (gm_account A) then ret (failure_result ''IDENTITY_MISMATCH'')
          else gmail_lock H P (gm_config A) (gm_account A) ''sync'' (gmail_delete_locked H P A g x)
      | _ \<Rightarrow> ret (failure_result ''IDENTITY_MISMATCH''))"

section \<open>What is sent\<close>

fun gmail_harmless :: "command \<Rightarrow> bool" where
  "gmail_harmless (TryLock p) = True"
| "gmail_harmless (Unlock p) = True"
| "gmail_harmless CredValid = True"
| "gmail_harmless CredToken = True"
| "gmail_harmless CredRefresh = True"
| "gmail_harmless CredJson = True"
| "gmail_harmless (InstallToken p v) = True"
| "gmail_harmless (HttpGet p q t) = True"
| "gmail_harmless _ = False"

abbreviation gets_only :: "('s net, 'a) prog \<Rightarrow> bool" where
  "gets_only \<equiv> adds gmail_harmless (\<lambda>e. True)"

lemma gets_lift [adds_intros]: "gets_only (lift_result r)"
  by (rule adds_lift) simp

lemma gets_attempt [adds_intros]:
  "gets_only m \<Longrightarrow> (\<And>e. gets_only (h e)) \<Longrightarrow> gets_only (attempt m C h)"
  by (rule adds_attempt) auto

lemma gets_bearer [adds_intros]: "gets_only (bearer P)"
  unfolding bearer_def
  by (intro adds_intros) (auto split: reply.split option.split intro: adds_intros)

lemma gets_http [adds_intros]: "gets_only (http_get P path params)"
  unfolding http_get_def by (intro adds_intros) (auto split: reply.split intro: adds_intros)

lemma gets_raw [adds_intros]: "gets_only (gmail_get_raw P m)"
  unfolding gmail_get_raw_def by (intro adds_intros)

lemma gets_state [adds_intros]: "gets_only (gmail_state H P t)"
  unfolding gmail_state_def by (intro adds_intros) (auto split: option.split intro: adds_intros)

lemma gets_profile [adds_intros]: "gets_only (profile_email P)"
  unfolding profile_email_def gmail_profile_def
  by (intro adds_intros) (auto split: option.split intro: adds_intros)

lemma gets_serialized [adds_intros]: "gets_only (serialized_delete_credentials P)"
proof -
  have "gets_only (case x of Some (VDict kvs) \<Rightarrow>
        seq (lift_result (validate_delete_scopes (dict_get kvs ''scopes''))) (\<lambda>u. ret (VDict kvs))
      | y \<Rightarrow> fail (GmailAuthError ''Gmail deletion credential cannot be safely persisted''))"
    for x :: "pyval option"
    by (cases x; cases "the x") (simp_all add: adds_intros)
  then show ?thesis
    unfolding serialized_delete_credentials_def by (intro adds_intros) (auto split: reply.split intro: adds_intros)
qed

lemma gets_refresh [adds_intros]: "gets_only (refresh_if_needed P A f)"
  unfolding refresh_if_needed_def by (intro adds_intros) auto

section \<open>What was observed\<close>

definition raw_get :: "target \<Rightarrow> int \<Rightarrow> pyval option \<Rightarrow> event \<Rightarrow> bool" where
  "raw_get t status body x \<longleftrightarrow> (\<exists>token. x =
     (HttpGet (message_path (tg_provider_message_id t)) [(''format'', ''raw'')] token, Inr (Http status body)))"

definition gmail_absent :: "target \<Rightarrow> event list \<Rightarrow> bool" where
  "gmail_absent t l \<longleftrightarrow> (\<exists>x \<in> set l. \<exists>body. raw_get t 404 body x)"

text \<open>The exact GET returned the target's id or none, and bytes with the canonical digest.\<close>

definition intact_event :: "host \<Rightarrow> target \<Rightarrow> event \<Rightarrow> bool" where
  "intact_event H t x \<longleftrightarrow> (\<exists>kvs. raw_get t 200 (Some (VDict kvs)) x \<and> body_state H t kvs = Inr Present)"

definition gmail_intact :: "host \<Rightarrow> target \<Rightarrow> event list \<Rightarrow> bool" where
  "gmail_intact H t l \<longleftrightarrow> (\<exists>x \<in> set l. intact_event H t x)"

interpretation gmail_evidence: provider_evidence gmail_harmless gmail_absent "gmail_intact H" for H
  by unfold_locales (auto simp: gmail_absent_def gmail_intact_def)

abbreviation gmail_reports where
  "gmail_reports H \<equiv> reports_by gmail_harmless gmail_absent (gmail_intact H)"

abbreviation gmail_settles where
  "gmail_settles H \<equiv> settles_by gmail_harmless gmail_absent (gmail_intact H)"

lemma extends_logged_get [simp]:
  "extends gmail_harmless s u \<Longrightarrow> gmail_harmless c \<Longrightarrow> extends gmail_harmless s (logged c r p u)"
  by (auto intro: extends_trans)

lemma wp_bearer:
  assumes "\<And>token p. Q token (logged CredToken (Inr (Text (Some token))) p s)"
    and "\<And>e r p. E e (logged CredToken r p s)"
  shows "wp (bearer P) Q E s"
  unfolding bearer_def wp_seq
proof (rule wp_issue)
  fix r p
  show "wp (case r of Text (Some t) \<Rightarrow> if t = [] then fail (GmailAuthError ''Gmail deletion access token is unavailable'')
        else ret t | _ \<Rightarrow> fail (GmailAuthError ''Gmail deletion access token is unavailable'')) Q E
      (logged CredToken (Inr r) p s)"
  proof (cases r)
    case (Text o')
    then show ?thesis by (cases o') (simp_all add: assms)
  qed (simp_all add: assms)
qed (rule assms(2))

text \<open>Every GET reads the token first; its outcome is a function of the logged reply.\<close>

lemma wp_http_get:
  fixes s :: "'s net"
  assumes ok: "\<And>token status body x u. http_result status body = Inr x \<Longrightarrow> extends gmail_harmless s u \<Longrightarrow>
      nt_trace u = nt_trace s @ [(CredToken, Inr (Text (Some token))),
        (HttpGet path params token, Inr (Http status body))] \<Longrightarrow> Q x u"
    and raised: "\<And>e u. extends gmail_harmless s u \<Longrightarrow> E e u"
  shows "wp (http_get P path params) Q E s"
  unfolding http_get_def wp_seq
proof (rule wp_bearer)
  fix token and p :: 's
  let ?u = "logged CredToken (Inr (Text (Some token))) p s"
  show "wp (issue P (HttpGet path params token)) (\<lambda>r. wp (case r of
      Http status body \<Rightarrow> lift_result (http_result status body) | _ \<Rightarrow> fail TypeError) Q E) E ?u"
  proof (rule wp_issue)
    fix x and q :: 's
    let ?v = "logged (HttpGet path params token) (Inr x) q ?u"
    have ext: "extends gmail_harmless s ?v" by simp
    show "wp (case x of Http status body \<Rightarrow> lift_result (http_result status body) | _ \<Rightarrow> fail TypeError) Q E ?v"
    proof (cases x)
      case (Http status body)
      show ?thesis
      proof (cases "http_result status body")
        case (Inl e)
        with Http raised [OF ext] show ?thesis by (simp add: wp_lift)
      next
        case (Inr y)
        from ok [OF this ext] Http Inr show ?thesis by (simp add: wp_lift)
      qed
    qed (simp_all add: raised)
  qed (rule raised, simp)
qed (rule raised, simp)

lemma wp_gmail_state:
  fixes s :: "'s net"
  assumes "\<And>st l u. nt_trace u = nt_trace s @ l \<Longrightarrow> list_all (\<lambda>x. gmail_harmless (fst x)) l \<Longrightarrow>
      (st = Absent \<longrightarrow> gmail_absent t l) \<Longrightarrow> (st = Present \<longrightarrow> l \<noteq> [] \<and> intact_event H t (last l)) \<Longrightarrow> Q st u"
  shows "wp (gmail_state H P t) Q E s"
proof -
  have lost: "Q (if e = MutationAuthorizationError then Unauthorised else Unobservable) u"
    if "extends gmail_harmless s u" for e u
    using that unfolding extends_def by (auto intro: assms)
  show ?thesis
  proof (cases "valid_id (VStr (tg_provider_message_id t)) ''message id''")
    case (Inl e)
    then show ?thesis
      by (simp add: gmail_state_def gmail_get_raw_def wp_rules lost del: wp_if)
  next
    case (Inr m)
    then have m: "m = tg_provider_message_id t" by (auto simp: valid_id_def split: if_splits)
    show ?thesis
      unfolding gmail_state_def gmail_get_raw_def wp_attempt wp_seq wp_lift Inr sum.case if_True wp_ret
    proof (rule wp_http_get)
      fix token status body x and u :: "'s net"
      let ?g = "(HttpGet (message_path m) [(''format'', ''raw'')] token, Inr (Http status body)) :: event"
      assume r: "http_result status body = Inr x" and ext: "extends gmail_harmless s u"
        and tr: "nt_trace u = nt_trace s @ [(CredToken, Inr (Text (Some token))), ?g]"
      show "wp (case x of None \<Rightarrow> ret Absent | Some kvs \<Rightarrow> lift_result (body_state H t kvs)) Q
          (\<lambda>e. Q (if e = MutationAuthorizationError then Unauthorised else Unobservable)) u"
      proof (cases x)
        case None
        with r have "status = 404"
          by (auto simp: http_result_def split: if_splits option.splits pyval.splits)
        then have "gmail_absent t [(CredToken, Inr (Text (Some token))), ?g]"
          by (simp add: gmail_absent_def raw_get_def m)
        with None tr show ?thesis by (auto intro!: assms)
      next
        case (Some kvs)
        with r have ok: "status = 200" "body = Some (VDict kvs)"
          by (auto simp: http_result_def split: if_splits option.splits pyval.splits)
        show ?thesis
        proof (cases "body_state H t kvs")
          case (Inl e)
          with Some lost [OF ext] show ?thesis by (simp add: wp_lift)
        next
          case (Inr st)
          then have "st \<noteq> Absent" by (auto simp: body_state_def split: if_splits sum.splits)
          moreover have "st = Present \<Longrightarrow> intact_event H t ?g"
            using Inr ok by (simp add: intact_event_def raw_get_def m)
          ultimately show ?thesis using Some Inr tr by (auto simp: wp_lift intro!: assms)
        qed
      qed
    qed (rule lost)
  qed
qed

lemma wp_confirmation:
  fixes s :: "'s net"
  shows "wp (confirmation H P A t) (gmail_settles H t s) (\<lambda>e. extends gmail_harmless s) s"
proof -
  have settle: "gmail_settles H t s (confirmed st) u"
    if "nt_trace u = nt_trace s @ l" "list_all (\<lambda>x. gmail_harmless (fst x)) l"
      "st = Absent \<longrightarrow> gmail_absent t l" "st = Present \<longrightarrow> l \<noteq> [] \<and> intact_event H t (last l)"
    for st l and s u :: "'s net"
    using that unfolding settles_by_def settled_by_def gmail_intact_def
    by (cases st) (auto intro!: exI [of _ l] bexI [of _ "last l"])
  have again: "wp (gmail_state H P t) (\<lambda>st. gmail_settles H t s (confirmed st)) E u"
    if "extends gmail_harmless s u" for E u
    by (rule wp_gmail_state) (auto intro: gmail_evidence.settles_before [OF that settle])
  have refresh: "wp (refresh_if_needed P A True) (\<lambda>ok. if \<not> ok then gmail_settles H t s unknown_result
      else wp (gmail_state H P t) (\<lambda>st. gmail_settles H t s (confirmed st)) (\<lambda>e. extends gmail_harmless s))
      (\<lambda>e. extends gmail_harmless s) u" if "extends gmail_harmless s u" for u
    by (rule adds_wp [OF gets_refresh])
       (use that in \<open>auto intro: again gmail_evidence.settles_unknown extends_trans\<close>)
  show ?thesis
    unfolding confirmation_def wp_seq wp_if wp_ret
    by (rule wp_gmail_state) (auto intro: settle refresh simp: extends_def)
qed

section \<open>What a deletion does\<close>

definition gmail_mutations :: "target \<Rightarrow> event list \<Rightarrow> bool" where
  "gmail_mutations t m \<longleftrightarrow> m = [] \<or>
     (\<exists>token x. m = [(HttpDelete (message_path (tg_provider_message_id t)) token, x)])"

definition profile_event :: "gmail_mutation \<Rightarrow> event \<Rightarrow> bool" where
  "profile_event A x \<longleftrightarrow> (\<exists>g token kvs email. ac_gmail (gm_account A) = Some g \<and>
     x = (HttpGet ''profile'' [] token, Inr (Http 200 (Some (VDict kvs)))) \<and>
     valid_id (dict_get_or kvs ''emailAddress'' VNull) ''profile email'' = Inr email \<and> same_mailbox g email)"

text \<open>
  The evidence: the profile of the configured mailbox, then the exact bytes; between the bytes and
  the DELETE only the token is read.
\<close>

definition token_reads :: "event list \<Rightarrow> bool" where
  "token_reads k \<longleftrightarrow> list_all (\<lambda>x. fst x = CredToken) k"

definition gmail_evidence_for ::
  "host \<Rightarrow> gmail_mutation \<Rightarrow> target \<Rightarrow> event list \<Rightarrow> event list \<Rightarrow> bool" where
  "gmail_evidence_for H A t m pre \<longleftrightarrow> (\<exists>a b x k. pre = a @ b @ x # k \<and> (\<exists>p \<in> set a. profile_event A p) \<and>
     intact_event H t x \<and> token_reads k)"

abbreviation gmail_ran where
  "gmail_ran H K \<equiv> ran_by gmail_harmless gmail_absent (gmail_intact H) gmail_mutations (\<lambda>m. m = [])
     (\<lambda>e. False) K"

lemma gmail_run_ends:
  assumes "extends gmail_harmless s u"
  shows "code \<in> set FAILURE_ERROR_CODES \<Longrightarrow> gmail_ran H K t s (Inr (failure_result code)) u"
    and "gmail_ran H K t s (Inl e) u"
  using gmail_evidence.ran_failure [OF assms] gmail_evidence.ran_error [OF assms]
  by (auto simp: gmail_mutations_def)

text \<open>What the confirmation settles is the result of the run, whether or not the DELETE was sent.\<close>

lemma gmail_settled_run:
  assumes "nt_trace u = nt_trace s @ pre @ m" "list_all (\<lambda>x. gmail_harmless (fst x)) pre"
    and "gmail_mutations t m" "m \<noteq> [] \<longrightarrow> K m pre"
  shows "gmail_settles H t u r v \<Longrightarrow> gmail_ran H K t s (Inr r) v"
    and "extends gmail_harmless u v \<Longrightarrow> gmail_ran H K t s (Inl e) v"
proof -
  assume "gmail_settles H t u r v"
  then obtain l where l: "nt_trace v = nt_trace u @ l" "list_all (\<lambda>x. gmail_harmless (fst x)) l"
    "settled_by gmail_absent (gmail_intact H) t r l" unfolding settles_by_def by blast
  then have "justified_by gmail_absent (gmail_intact H) (\<lambda>m. m = []) t r pre m l"
    unfolding settled_by_def justified_by_def
    by (auto simp: FAILURE_ERROR_CODES_def intro: gmail_evidence.absent_before)
  then show "gmail_ran H K t s (Inr r) v"
    unfolding ran_by_def using l assms
    by (intro exI [of _ pre] exI [of _ m] exI [of _ l]) simp
next
  assume "extends gmail_harmless u v"
  then obtain l where "nt_trace v = nt_trace u @ l" "list_all (\<lambda>x. gmail_harmless (fst x)) l"
    unfolding extends_def by blast
  then show "gmail_ran H K t s (Inl e) v"
    unfolding ran_by_def using assms
    by (intro exI [of _ pre] exI [of _ m] exI [of _ l]) simp
qed

lemma wp_delete_once:
  fixes s :: "'s net"
  shows "wp (seq (attempt (delete_message_once P (tg_provider_message_id t)) (\<lambda>e. True) (\<lambda>e. ret ()))
       (\<lambda>u. confirmation H P A t))
     (\<lambda>r. gmail_ran H (\<lambda>m. token_reads) t s (Inr r)) (\<lambda>e. gmail_ran H (\<lambda>m. token_reads) t s (Inl e)) s"
proof -
  let ?Q = "\<lambda>r. gmail_ran H (\<lambda>m. token_reads) t s (Inr r)"
  let ?E = "\<lambda>e. gmail_ran H (\<lambda>m. token_reads) t s (Inl e)"
  have confirm: "wp (confirmation H P A t) ?Q ?E u"
    if "nt_trace u = nt_trace s @ pre @ m" "token_reads pre" "gmail_mutations t m" for u pre m
  proof -
    have "list_all (\<lambda>x. gmail_harmless (fst x)) pre"
      using that(2) by (auto simp: token_reads_def list_all_iff)
    note run = gmail_settled_run [where K = "\<lambda>m. token_reads", OF that(1) this that(3)]
    show ?thesis
      by (rule wp_mono [OF wp_confirmation]) (use run that(2) in blast)+
  qed
  have none: "wp (confirmation H P A t) ?Q ?E s"
    by (rule confirm [of s "[]" "[]"]) (simp_all add: token_reads_def gmail_mutations_def)
  have read: "wp (confirmation H P A t) ?Q ?E (logged CredToken r p s)" for r and p :: 's
    by (rule confirm [of _ "[(CredToken, r)]" "[]"]) (simp_all add: token_reads_def gmail_mutations_def)
  have sent: "wp (confirmation H P A t) ?Q ?E
      (logged (HttpDelete (message_path (tg_provider_message_id t)) token) x q (logged CredToken r p s))"
    for token x r and p q :: 's
    by (rule confirm [of _ "[(CredToken, r)]" "[(HttpDelete (message_path (tg_provider_message_id t)) token, x)]"])
       (simp_all add: token_reads_def gmail_mutations_def)
  show ?thesis
  proof (cases "valid_id (VStr (tg_provider_message_id t)) ''message id''")
    case (Inl e)
    then show ?thesis by (simp add: delete_message_once_def wp_rules none del: wp_if)
  next
    case (Inr m)
    then have m: "m = tg_provider_message_id t" by (auto simp: valid_id_def split: if_splits)
    show ?thesis
      unfolding delete_message_once_def wp_seq [of "attempt _ _ _"] wp_attempt wp_seq [of "lift_result _"]
        wp_lift Inr sum.case wp_seq [of "bearer P"] wp_ret if_True
      by (rule wp_bearer)
         (auto simp: command_done_def wp_seq [of "issue _ _"] m intro!: wp_issue sent read)
  qed
qed

lemma wp_profile_email:
  fixes s :: "'s net"
  assumes ok: "\<And>email k x kvs token u. nt_trace u = nt_trace s @ [k, x] \<Longrightarrow> gmail_harmless (fst k) \<Longrightarrow>
      x = (HttpGet ''profile'' [] token, Inr (Http 200 (Some (VDict kvs)))) \<Longrightarrow>
      valid_id (dict_get_or kvs ''emailAddress'' VNull) ''profile email'' = Inr email \<Longrightarrow> Q email u"
    and raised: "\<And>e u. extends gmail_harmless s u \<Longrightarrow> E e u"
  shows "wp (profile_email P) Q E s"
  unfolding profile_email_def gmail_profile_def wp_seq
proof (rule wp_http_get)
  fix token status body x and u :: "'s net"
  assume r: "http_result status body = Inr x" and ext: "extends gmail_harmless s u"
    and tr: "nt_trace u = nt_trace s @ [(CredToken, Inr (Text (Some token))),
        (HttpGet ''profile'' [] token, Inr (Http status body))]"
  show "wp (case x of None \<Rightarrow> fail (GmailAuthError ''Gmail profile was absent'') | Some kvs \<Rightarrow> ret kvs)
      (\<lambda>kvs. wp (lift_result (valid_id (dict_get_or kvs ''emailAddress'' VNull) ''profile email'')) Q E) E u"
  proof (cases x)
    case None
    then show ?thesis using raised [OF ext] by simp
  next
    case (Some kvs)
    with r have ok': "status = 200" "body = Some (VDict kvs)"
      by (auto simp: http_result_def split: if_splits option.splits pyval.splits)
    show ?thesis
    proof (cases "valid_id (dict_get_or kvs ''emailAddress'' VNull) ''profile email''")
      case (Inl e)
      then show ?thesis using Some raised [OF ext] by (simp add: wp_lift)
    next
      case (Inr email)
      from ok [OF tr _ _ Inr] show ?thesis using Some Inr ok' by (simp add: wp_lift)
    qed
  qed
qed (rule raised)

lemma wp_delete_in_mailbox:
  fixes s :: "'s net"
  assumes tr: "nt_trace u = nt_trace s @ a" "list_all (\<lambda>x. gmail_harmless (fst x)) a"
    and p: "same_mailbox g email \<Longrightarrow> \<exists>p \<in> set a. profile_event A p"
  shows "wp (delete_in_mailbox H P A g t email) (\<lambda>r. gmail_ran H (gmail_evidence_for H A t) t s (Inr r))
     (\<lambda>e. gmail_ran H (gmail_evidence_for H A t) t s (Inl e)) u"
proof (cases "same_mailbox g email")
  case False
  moreover have "extends gmail_harmless s u" using tr unfolding extends_def by blast
  ultimately show ?thesis by (simp add: delete_in_mailbox_def gmail_run_ends)
next
  case True
  let ?Q = "\<lambda>r. gmail_ran H (gmail_evidence_for H A t) t s (Inr r)"
  let ?E = "\<lambda>e. gmail_ran H (gmail_evidence_for H A t) t s (Inl e)"
  have "wp (gmail_state H P t) (\<lambda>st. wp (delete_observed H P A t st) ?Q ?E) ?E u"
  proof (rule wp_gmail_state)
    fix st l and v :: "'s net"
    assume l: "nt_trace v = nt_trace u @ l" "list_all (\<lambda>x. gmail_harmless (fst x)) l"
      "st = Absent \<longrightarrow> gmail_absent t l" "st = Present \<longrightarrow> l \<noteq> [] \<and> intact_event H t (last l)"
    have v: "nt_trace v = nt_trace s @ a @ l" "list_all (\<lambda>x. gmail_harmless (fst x)) (a @ l)"
      using tr l by simp_all
    then have ext: "extends gmail_harmless s v" unfolding extends_def by blast
    have absent: "?Q success_result v" if "st = Absent"
      by (rule gmail_evidence.ran_absent [OF v])
         (use that l(3) in \<open>auto simp: gmail_mutations_def intro: gmail_evidence.absent_before\<close>)
    have evidence: "gmail_evidence_for H A t m ((a @ l) @ k)" if "st = Present" "token_reads k" for m k
      unfolding gmail_evidence_for_def using that l(4) p [OF True]
      by (intro exI [of _ a] exI [of _ "butlast l"] exI [of _ "last l"] exI [of _ k]) simp
    have lift: "gmail_ran H (gmail_evidence_for H A t) t s r' w"
      if "gmail_ran H (\<lambda>m. token_reads) t v r' w" "st = Present" for r' w
      by (rule gmail_evidence.ran_before [where K = "\<lambda>m. token_reads", OF v that(1)])
         (rule evidence [OF that(2)])
    show "wp (delete_observed H P A t st) ?Q ?E v"
      unfolding delete_observed_def wp_if wp_ret
      using absent gmail_run_ends(1) [OF ext] by (auto intro!: wp_mono [OF wp_delete_once] lift)
  qed
  with True show ?thesis by (simp add: delete_in_mailbox_def wp_seq)
qed

lemma wp_gmail_delete_locked:
  fixes s :: "'s net"
  assumes g: "ac_gmail (gm_account A) = Some g"
  shows "wp (gmail_delete_locked H P A g t) (\<lambda>r. gmail_ran H (gmail_evidence_for H A t) t s (Inr r))
     (\<lambda>e. gmail_ran H (gmail_evidence_for H A t) t s (Inl e)) s"
proof -
  let ?Q = "\<lambda>r. gmail_ran H (gmail_evidence_for H A t) t s (Inr r)"
  let ?E = "\<lambda>e. gmail_ran H (gmail_evidence_for H A t) t s (Inl e)"
  have profile: "wp (profile_email P) (\<lambda>email. wp (delete_in_mailbox H P A g t email) ?Q ?E)
      (\<lambda>e. ?Q (failure_result ''AUTHORIZATION_FAILED'')) u" if ext: "extends gmail_harmless s u" for u
  proof (rule wp_profile_email)
    fix email k x kvs token and v :: "'s net"
    assume v: "nt_trace v = nt_trace u @ [k, x]" "gmail_harmless (fst k)"
      "x = (HttpGet ''profile'' [] token, Inr (Http 200 (Some (VDict kvs))))"
      "valid_id (dict_get_or kvs ''emailAddress'' VNull) ''profile email'' = Inr email"
    obtain l where l: "nt_trace u = nt_trace s @ l" "list_all (\<lambda>x. gmail_harmless (fst x)) l"
      using ext unfolding extends_def by blast
    have tr: "nt_trace v = nt_trace s @ (l @ [k, x])" "list_all (\<lambda>x. gmail_harmless (fst x)) (l @ [k, x])"
      using l v by simp_all
    have "profile_event A x" if "same_mailbox g email"
      using that v(3,4) g unfolding profile_event_def by blast
    then show "wp (delete_in_mailbox H P A g t email) ?Q ?E v"
      by (intro wp_delete_in_mailbox [OF tr]) auto
  next
    fix e v assume "extends gmail_harmless u v"
    then show "?Q (failure_result ''AUTHORIZATION_FAILED'') v"
      using extends_trans [OF ext] by (simp add: gmail_run_ends)
  qed
  show ?thesis
    unfolding gmail_delete_locked_def wp_seq [of "refresh_if_needed _ _ _"] wp_if
      wp_seq [of "attempt _ _ _"] wp_attempt wp_seq [of "profile_email P"] wp_ret
  proof (rule adds_wp [OF gets_refresh])
    fix ok u assume ext: "extends gmail_harmless s u"
    show "(if \<not> ok then ?Q (failure_result ''AUTHORIZATION_FAILED'')
        else wp (profile_email P) (\<lambda>x. wp (case Some x of None \<Rightarrow> ret (failure_result ''AUTHORIZATION_FAILED'')
            | Some email \<Rightarrow> delete_in_mailbox H P A g t email) ?Q ?E)
          (\<lambda>e. if True then wp (case None of None \<Rightarrow> ret (failure_result ''AUTHORIZATION_FAILED'')
            | Some email \<Rightarrow> delete_in_mailbox H P A g t email) ?Q ?E
            else ?E e)) u"
      using profile [OF ext] gmail_run_ends(1) [OF ext] by simp
  qed (rule gmail_run_ends)
qed

lemma gmail_ran_raise:
  assumes "gmail_ran H K t s r u"
  shows "gmail_ran H K t s (Inl e) u"
proof -
  from assms obtain pre m post where "nt_trace u = nt_trace s @ pre @ m @ post"
    "list_all (\<lambda>x. gmail_harmless (fst x)) pre" "list_all (\<lambda>x. gmail_harmless (fst x)) post"
    "gmail_mutations t m" "m \<noteq> [] \<longrightarrow> K m pre" unfolding ran_by_def by auto
  then show ?thesis
    unfolding ran_by_def by (intro exI [of _ pre] exI [of _ m] exI [of _ post]) auto
qed

definition gmail_contract ::
  "host \<Rightarrow> gmail_mutation \<Rightarrow> target \<Rightarrow> 's net \<Rightarrow> mutation_result result \<Rightarrow> 's net \<Rightarrow> bool" where
  "gmail_contract H A t s r u \<longleftrightarrow> (\<exists>pre m post. nt_trace u = nt_trace s @ pre @ m @ post \<and>
     list_all (\<lambda>x. gmail_harmless (fst x)) pre \<and> list_all (\<lambda>x. gmail_harmless (fst x)) post \<and>
     gmail_mutations t m \<and> (m \<noteq> [] \<longrightarrow> gmail_evidence_for H A t m pre) \<and>
     (\<forall>x. r = Inr x \<longrightarrow> justified_by gmail_absent (gmail_intact H) (\<lambda>m. m = []) t x pre m post))"

lemma gmail_ran_contract:
  "gmail_ran H (gmail_evidence_for H A t) t s r u \<Longrightarrow> gmail_contract H A t s r u"
  unfolding ran_by_def gmail_contract_def by (elim exE conjE, intro exI conjI) (auto split: sum.split_asm)

lemma gmail_target_cases: "gmail_target A t = None \<or> gmail_target A t = Some t"
  by (auto simp: gmail_target_def split: target.split sum.split)

lemma gmail_delete_run:
  assumes "gmail_delete H P A t s = (r, u)"
  shows "gmail_contract H A t s r u"
proof -
  let ?R = "gmail_ran H (gmail_evidence_for H A t) t s"
  have "wp (gmail_delete H P A t) (\<lambda>r. ?R (Inr r)) (\<lambda>e. ?R (Inl e)) s"
  proof (cases "\<exists>g. gmail_target A t = Some t \<and> ac_gmail (gm_account A) = Some g \<and> ac_enabled (gm_account A)")
    case False
    then have "gmail_delete H P A t = ret (failure_result ''IDENTITY_MISMATCH'')"
      using gmail_target_cases [of A t] by (auto simp: gmail_delete_def split: option.splits)
    then show ?thesis by (simp add: gmail_run_ends)
  next
    case True
    then obtain g where g: "gmail_target A t = Some t" "ac_gmail (gm_account A) = Some g"
      "ac_enabled (gm_account A)" by blast
    have body: "wp (gmail_delete_locked H P A g t) (\<lambda>r. ?R (Inr r)) (\<lambda>e. ?R (Inl e)) u"
      if ext: "extends gmail_harmless s u" for u
    proof -
      from ext obtain k where k: "nt_trace u = nt_trace s @ k" "list_all (\<lambda>x. gmail_harmless (fst x)) k"
        unfolding extends_def by blast
      have "gmail_evidence_for H A t m (k @ pre)" if "gmail_evidence_for H A t m pre" for m pre
      proof -
        from that obtain a b x c where c: "pre = a @ b @ x # c" "\<exists>p \<in> set a. profile_event A p"
          "intact_event H t x" "token_reads c" unfolding gmail_evidence_for_def by blast
        then show ?thesis unfolding gmail_evidence_for_def
          by (intro exI [of _ "k @ a"] exI [of _ b] exI [of _ x] exI [of _ c]) auto
      qed
      then have lift: "?R r' w" if "gmail_ran H (gmail_evidence_for H A t) t u r' w" for r' w
        using gmail_evidence.ran_before [OF k that] by blast
      show ?thesis by (rule wp_mono [OF wp_gmail_delete_locked [OF g(2)]]) (rule lift; assumption)+
    qed
    have unlock: "wp (command_done P (Unlock f)) (\<lambda>x. ?R r') (\<lambda>e. ?R (Inl e)) u" if "?R r' u" for f r' u
    proof (rule adds_wp [of gmail_harmless "\<lambda>e. True"])
      show "gets_only (command_done P (Unlock f))" by (intro adds_intros) auto
    next
      fix x v assume "extends gmail_harmless u v"
      then show "?R r' v" by (rule gmail_evidence.ran_after [OF that])
    next
      fix e v assume "extends gmail_harmless u v"
      from gmail_evidence.ran_after [OF that this] show "?R (Inl e) v" by (rule gmail_ran_raise)
    qed
    have held: "wp (finalize (gmail_delete_locked H P A g t) (command_done P (Unlock f)))
        (\<lambda>r. ?R (Inr r)) (\<lambda>e. ?R (Inl e)) u" if "extends gmail_harmless s u" for f u
      unfolding wp_finalize by (rule wp_mono [OF body [OF that]]) (rule unlock; assumption)+
    show ?thesis
      using g unfolding gmail_delete_def gmail_lock_def with_lock_def
      by (auto simp: wp_seq intro!: wp_issue held gmail_run_ends)
  qed
  then show ?thesis
    using assms by (auto simp: wp_def split: sum.splits intro: gmail_ran_contract)
qed

text \<open>
  C26.  One exact Gmail deletion.  Whatever the server and the OAuth library answer, a run of
  \<open>delete\<close> sends one DELETE at most, for the target's message id, and only after the profile of the
  configured mailbox and then the canonical bytes of the message were read, with nothing between
  the bytes and the DELETE but the access token.  Success is reported only for a 404 of the exact
  message, after the DELETE if there was one; a failure after the DELETE only when the same bytes
  were read again; anything else is unknown.
\<close>

theorem gmail_delete_is_exact:
  assumes "gmail_delete H P A t s = (r, u)"
  shows "\<exists>pre m post. nt_trace u = nt_trace s @ pre @ m @ post \<and>
     list_all (\<lambda>x. gmail_harmless (fst x)) pre \<and> list_all (\<lambda>x. gmail_harmless (fst x)) post \<and>
     gmail_mutations t m \<and> (m \<noteq> [] \<longrightarrow> gmail_evidence_for H A t m pre) \<and>
     (\<forall>x. r = Inr x \<longrightarrow> justified_by gmail_absent (gmail_intact H) (\<lambda>m. m = []) t x pre m post)"
  using gmail_delete_run [OF assms] unfolding gmail_contract_def .

interpretation gmail: deletion_adapter "\<lambda>P. gmail_delete H P A" "\<lambda>P. True" gmail_harmless gmail_mutations
  "gmail_evidence_for H A" gmail_absent "gmail_intact H" "\<lambda>m. m = []" for H A
  by unfold_locales (rule gmail_delete_run [unfolded gmail_contract_def])

section \<open>What an observation proves\<close>

text \<open>A report, or the request to refresh the credentials and ask again.\<close>

definition gmail_says :: "host \<Rightarrow> target \<Rightarrow> 's net \<Rightarrow> string \<Rightarrow> 's net \<Rightarrow> bool" where
  "gmail_says H t s r u \<longleftrightarrow>
     (if r = ''authorization'' then extends gmail_harmless s u else gmail_reports H t s r u)"

lemma says_nothing:
  assumes "extends gmail_harmless s u"
  shows "gmail_says H t s ''authorization'' u" "gmail_says H t s ''unknown'' u"
    "gmail_says H t s ''identity-conflict'' u"
  using assms by (simp_all add: gmail_says_def gmail_evidence.reports_nothing)

lemma wp_observe_read_only:
  fixes s :: "'s net"
  shows "wp (observe_read_only H P g t) (gmail_says H t s) E s"
proof -
  have state: "wp (gmail_state H P t) (\<lambda>st. gmail_says H t s (gmail_report st)) E u"
    if ext: "extends gmail_harmless s u" for u
  proof (rule wp_gmail_state)
    fix st l and v :: "'s net"
    assume l: "nt_trace v = nt_trace u @ l" "list_all (\<lambda>x. gmail_harmless (fst x)) l"
      "st = Absent \<longrightarrow> gmail_absent t l" "st = Present \<longrightarrow> l \<noteq> [] \<and> intact_event H t (last l)"
    then have u: "extends gmail_harmless u v" unfolding extends_def by blast
    show "gmail_says H t s (gmail_report st) v"
    proof (cases "st = Unauthorised")
      case True
      with ext u show ?thesis by (auto intro: extends_trans says_nothing)
    next
      case False
      then have "gmail_reports H t u (gmail_report st) v"
        unfolding reports_by_def gmail_intact_def using l
        by (intro exI [of _ l]) (cases st; auto intro!: bexI [of _ "last l"])
      from gmail_evidence.reports_before [OF ext this] show ?thesis
        using False by (cases st) (auto simp: gmail_says_def)
    qed
  qed
  show ?thesis
    unfolding observe_read_only_def wp_seq [of "attempt _ _ _"] wp_attempt wp_seq [of "profile_email P"] wp_ret
    by (rule adds_wp [OF gets_profile])
       (auto simp: wp_seq [of "gmail_state _ _ _"] intro!: state says_nothing)
qed

lemma wp_observe_guarded:
  fixes s :: "'s net"
  assumes "extends gmail_harmless s u"
  shows "wp (observe_guarded H P g t) (gmail_says H t s) E u"
  unfolding observe_guarded_def wp_attempt
  by (rule wp_mono [OF wp_observe_read_only [where E = "\<lambda>e v. False"]])
     (use assms in \<open>auto simp: gmail_says_def split: if_splits
        intro: gmail_evidence.reports_before extends_trans\<close>)

lemma closed_reports:
  assumes "gmail_says H t s r v"
  shows "gmail_reports H t s (closed_report r) v"
proof (cases "r \<in> {''confirmed-absent'', ''confirmed-present-match'', ''identity-conflict''}")
  case True
  with assms show ?thesis by (auto simp: gmail_says_def closed_report_def)
next
  case False
  have "extends gmail_harmless s v"
    using assms by (auto simp: gmail_says_def split: if_splits dest: gmail_evidence.reports_extends)
  with False show ?thesis by (simp add: closed_report_def gmail_evidence.reports_nothing)
qed

lemma wp_gmail_observe_locked:
  fixes s u :: "'s net"
  assumes "extends gmail_harmless s u"
  shows "wp (gmail_observe_locked H P A g t) (gmail_reports H t s) (\<lambda>e. extends gmail_harmless s) u"
proof -
  let ?I = "extends gmail_harmless s"
  let ?E = "\<lambda>e. ?I"
  let ?ask = "\<lambda>Q. wp (observe_guarded H P g t) Q ?E"
  let ?again = "\<lambda>ok. if \<not> ok then gmail_reports H t s ''unknown''
      else ?ask (\<lambda>st. gmail_reports H t s (closed_report st))"
  let ?first = "\<lambda>b ok. if \<not> ok then gmail_reports H t s ''unknown''
      else ?ask (\<lambda>st. if st = ''authorization'' \<and> \<not> b then wp (refresh_if_needed P A True) ?again ?E
        else gmail_reports H t s (closed_report st))"
  have unknown: "gmail_reports H t s ''unknown'' v" if "?I v" for v
    using that by (rule gmail_evidence.reports_nothing)
  have last: "?again ok v" if "?I v" for ok v
    using wp_mono [OF wp_observe_guarded [OF that, where E = ?E] closed_reports] unknown [OF that] by auto
  have retry: "wp (refresh_if_needed P A True) ?again ?E v" if "?I v" for v
    by (rule adds_wp [OF gets_refresh], rule last) (use that in \<open>auto intro: extends_trans\<close>)
  have says: "?I v" if "gmail_says H t s st v" for st v
    using that by (auto simp: gmail_says_def split: if_splits dest: gmail_evidence.reports_extends)
  have first: "?first b ok v" if "?I v" for b ok v
  proof (cases ok)
    case True
    have "?ask (\<lambda>st. if st = ''authorization'' \<and> \<not> b then wp (refresh_if_needed P A True) ?again ?E
        else gmail_reports H t s (closed_report st)) v"
    proof (rule wp_mono [OF wp_observe_guarded [OF that, where E = ?E]])
      fix st w assume r: "gmail_says H t s st w"
      show "(if st = ''authorization'' \<and> \<not> b then wp (refresh_if_needed P A True) ?again ?E
          else gmail_reports H t s (closed_report st)) w"
        using retry [OF says [OF r]] closed_reports [OF r] by simp
    qed
    with True show ?thesis by simp
  qed (simp add: unknown [OF that])
  have refresh: "(if b then wp (refresh_if_needed P A False) (?first b) ?E else ?first b True) v"
    if "?I v" for b v
  proof (cases b)
    case True
    show ?thesis unfolding if_P [OF True]
      by (rule adds_wp [OF gets_refresh], rule first) (use that in \<open>auto intro: extends_trans\<close>)
  next
    case False
    show ?thesis unfolding if_not_P [OF False] by (rule first [OF that])
  qed
  show ?thesis
    unfolding gmail_observe_locked_def Let_def wp_seq wp_if wp_ret
    by (rule wp_issue, rule refresh) (use assms in simp_all)
qed

lemma wp_gmail_observe:
  fixes s :: "'s net"
  shows "wp (gmail_observe H P A t) (gmail_reports H t s) (\<lambda>e. extends gmail_harmless s) s"
proof (cases "\<exists>g. gmail_target A t = Some t \<and> ac_gmail (gm_account A) = Some g \<and> ac_enabled (gm_account A)")
  case False
  then have "gmail_observe H P A t = ret ''identity-conflict''"
    using gmail_target_cases [of A t] by (auto simp: gmail_observe_def split: option.splits)
  then show ?thesis by (simp add: gmail_evidence.reports_nothing)
next
  case True
  then obtain g where g: "gmail_target A t = Some t" "ac_gmail (gm_account A) = Some g"
    "ac_enabled (gm_account A)" by blast
  let ?R = "gmail_reports H t s" and ?I = "extends gmail_harmless s"
  have gets: "gets_only (command_done P (Unlock f))" for f by (intro adds_intros) auto
  have unlock: "wp (command_done P (Unlock f)) (\<lambda>x. ?R r) (\<lambda>e. ?I) u" if "?R r u" for f r u
    by (rule adds_wp [OF gets])
       (use that in \<open>auto intro: gmail_evidence.reports_after extends_trans [OF gmail_evidence.reports_extends]\<close>)
  have release: "wp (command_done P (Unlock f)) (\<lambda>x. ?I) (\<lambda>e. ?I) u" if "?I u" for f u
    by (rule adds_wp [OF gets]) (use that in \<open>auto intro: extends_trans\<close>)
  have held: "wp (finalize (gmail_observe_locked H P A g t) (command_done P (Unlock f))) ?R (\<lambda>e. ?I) u"
    if "?I u" for f u
    unfolding wp_finalize
    by (rule wp_mono [OF wp_gmail_observe_locked [OF that]]) (rule unlock release; assumption)+
  show ?thesis
    using g unfolding gmail_observe_def gmail_lock_def with_lock_def
    by (auto simp: wp_seq intro!: wp_issue held)
qed

text \<open>
  Gmail observation is GET only: \<open>observe\<close> never sends a DELETE, reports one of the closed
  states, and reports an absence only for a 404 of the exact message and an intact presence only
  for its canonical bytes; a lost or refused answer is never more than unknown.
\<close>

theorem gmail_observe_proves_its_report:
  "case gmail_observe H P A t s of
     (Inl e, u) \<Rightarrow> extends gmail_harmless s u
   | (Inr r, u) \<Rightarrow> gmail_reports H t s r u"
  using wp_gmail_observe [of H P A t s] by (auto simp: wp_def split: prod.splits sum.splits)

section \<open>Least privilege\<close>

text \<open>
  A stored deletion credential is accepted only when its scopes are provable and the one scope
  that opens a mailbox is the deletion scope; in particular no other Gmail scope is carried along.
\<close>

theorem delete_credentials_least_privilege:
  assumes "load_delete_credentials T a = Inr u"
  shows "\<exists>p kvs l. delete_path a = Inr p \<and> T p = Token (VDict kvs) True \<and>
     dict_get kvs ''scopes'' = Some (VList l) \<and> VStr GMAIL_DELETE_SCOPE \<in> set l \<and>
     (\<forall>x \<in> set l. \<exists>sc. x = VStr sc \<and> (contains ''gmail'' sc \<longrightarrow> sc = GMAIL_DELETE_SCOPE))"
proof -
  from assms obtain p kvs where p: "delete_path a = Inr p" "T p = Token (VDict kvs) True"
    "validate_delete_scopes (dict_get kvs ''scopes'') = Inr ()"
    by (auto simp: load_delete_credentials_def split: sum.split_asm token_file.split_asm pyval.split_asm
        if_split_asm)
  then obtain l where l: "dict_get kvs ''scopes'' = Some (VList l)" "list_all (\<lambda>x. scope_text x \<noteq> None) l"
    "set (filter mailbox_scope (map (\<lambda>x. the (scope_text x)) l)) = {GMAIL_DELETE_SCOPE}"
    by (auto simp: validate_delete_scopes_def split: option.split_asm pyval.split_asm if_split_asm)
  have strings: "\<exists>sc. x = VStr sc" if "x \<in> set l" for x
    using l(2) that by (cases x) (auto simp: list_all_iff)
  have "GMAIL_DELETE_SCOPE \<in> set (filter mailbox_scope (map (\<lambda>x. the (scope_text x)) l))"
    unfolding l(3) by simp
  then have "\<exists>x \<in> set l. the (scope_text x) = GMAIL_DELETE_SCOPE" by auto metis
  with strings have del: "VStr GMAIL_DELETE_SCOPE \<in> set l" by force
  have "sc = GMAIL_DELETE_SCOPE" if "VStr sc \<in> set l" "contains ''gmail'' sc" for sc
  proof -
    have "sc \<in> set (filter mailbox_scope (map (\<lambda>x. the (scope_text x)) l))"
      using that by (auto simp: mailbox_scope_def intro: rev_image_eqI)
    with l(3) show ?thesis by simp
  qed
  with strings have "\<forall>x \<in> set l. \<exists>sc. x = VStr sc \<and> (contains ''gmail'' sc \<longrightarrow> sc = GMAIL_DELETE_SCOPE)"
    by blast
  with p l(1) del show ?thesis by blast
qed

end
