(* ===== verification/ProviderWitnesses.thy ===== *)
theory ProviderWitnesses
  imports Samples ImapMutation Pop3Mutation GmailMutation
begin

text \<open>
  Concrete provider sessions: a peer that answers from a script, the sample message on it, and the
  instances of the adapter properties.
\<close>

definition scripted :: "reply list peer" where
  "scripted c rs = (case c of Unlock f \<Rightarrow> (Inr Done, rs) | Pop3Abort \<Rightarrow> (Inr Done, rs)
     | _ \<Rightarrow> (case rs of [] \<Rightarrow> (Inl IMAP4Error, []) | r # rs' \<Rightarrow> (Inr r, rs')))"

definition script_net :: "reply list \<Rightarrow> reply list net" where
  "script_net rs = \<lparr>nt_trace = [], nt_client = False, nt_sock = False, nt_queue = [], nt_buffer = [],
     nt_commands = [], nt_labels = [], nt_peer = rs\<rparr>"

definition password_host :: host where
  "password_host = sample_host\<lparr>h_environ := (\<lambda>v. Some ''pw'')\<rparr>"

definition sample_imap :: imap_mutation where
  "sample_imap = \<lparr>im_config = sample_config, im_account = sample_account_config, im_account_id = 1,
     im_variable = ''V''\<rparr>"

text \<open>A server that has the message, accepts both commands, and then no longer has it.\<close>

definition imap_script :: "reply list" where
  "imap_script =
     [Done, Done, Status ''OK'' [], Status ''OK'' [IBytes ''imap4rev1 uidplus''], Status ''OK'' [],
      Status ''OK'' [IBytes ''7''],
      Status ''OK'' [ITuple [Some ''1 (UID 8 FLAGS () BODY[] {1}'', Some ''x''], IBytes '')''],
      Status ''OK'' [], Status ''OK'' [], Status ''OK'' [IBytes ''7''], Status ''OK'' [INone],
      Done, Done]"

lemma scripted_library: "library_client scripted"
  unfolding library_client_def
  by (auto simp: scripted_def split: command.splits list.splits)

definition sample_imap_run :: "mutation_result result \<times> reply list net" where
  "sample_imap_run = imap_delete password_host scripted sample_imap sample_target (script_net imap_script)"

lemma sample_imap_run_value:
  "(case sample_imap_run of (Inr r, u) \<Rightarrow> ms_outcome r = ''success-confirmed'' \<and>
      filter (\<lambda>c. \<not> imap_harmless c) (map fst (nt_trace u)) =
        [store_command sample_target, expunge_command sample_target] | _ \<Rightarrow> False)"
  by code_simp

theorem imap_delete_is_exact_witness:
  "\<exists>pre m post. nt_trace (snd sample_imap_run) = pre @ m @ post \<and> length m = 2 \<and>
     evidence password_host sample_target pre"
proof -
  obtain r u where run: "sample_imap_run = (Inr r, u)"
    using sample_imap_run_value by (auto split: prod.split_asm sum.split_asm)
  from imap_delete_is_exact [OF scripted_library run [unfolded sample_imap_run_def]]
  obtain pre m post where l: "nt_trace u = nt_trace (script_net imap_script) @ pre @ m @ post"
    "list_all (\<lambda>x. imap_harmless (fst x)) pre" "list_all (\<lambda>x. imap_harmless (fst x)) post"
    "m \<noteq> [] \<longrightarrow> evidence password_host sample_target pre" "mutation_events sample_target m" by blast
  have "filter (\<lambda>c. \<not> imap_harmless c) (map fst pre) = []" "filter (\<lambda>c. \<not> imap_harmless c) (map fst post) = []"
    using l(2,3) by (auto simp: list_all_iff filter_empty_conv)
  moreover have "filter (\<lambda>c. \<not> imap_harmless c) (map fst (nt_trace u)) =
      [store_command sample_target, expunge_command sample_target]"
    using sample_imap_run_value unfolding run prod.case sum.case by (rule conjunct2)
  ultimately have "length (filter (\<lambda>c. \<not> imap_harmless c) (map fst m)) = 2"
    using l(1) by (simp add: script_net_def)
  then have "length m = 2" "m \<noteq> []"
    using l(5) by (auto simp: mutation_events_def)
  with l show ?thesis
    by (intro exI [of _ pre] exI [of _ m] exI [of _ post]) (simp add: run script_net_def)
qed

section \<open>POP3\<close>

definition sample_pop3_config :: pop3_config where
  "sample_pop3_config = \<lparr>pc_host = ''h'', pc_port = 995, pc_username = ''u'', pc_tls_mode = POP3S,
     pc_connection_timeout_seconds = 30\<rparr>"

definition sample_pop3 :: pop3_mutation where
  "sample_pop3 = \<lparr>pm_config = sample_config,
     pm_account = sample_account_config\<lparr>ac_kind := Pop3, ac_imap := None, ac_pop3 := Some sample_pop3_config\<rparr>,
     pm_account_id = 1, pm_variable = ''V''\<rparr>"

definition sample_pop3_target :: target where
  "sample_pop3_target = ProviderDeletionTarget \<lparr>tg_remote_message_id = ''m'', tg_canonical_message_id = ''c'',
     tg_account_id = 1, tg_account_name = ''a'', tg_provider_kind = Pop3,
     tg_canonical_sha256 = sample_sha\<rparr> ''U''"

text \<open>A server that has the message as number 2, and after the deletion lists only the other one.\<close>

definition pop3_script :: "reply list" where
  "pop3_script = [Done, Done, Done, Listing [(1, ''T''), (2, ''U'')], Octets ''x'', Done, Done,
     Done, Done, Listing [(1, ''T'')]]"

lemma scripted_wire: "wire_library scripted"
  unfolding wire_library_def by (auto simp: scripted_def split: command.splits list.splits)

definition sample_pop3_run :: "mutation_result result \<times> reply list net" where
  "sample_pop3_run = pop3_delete password_host scripted sample_pop3 sample_pop3_target (script_net pop3_script)"

lemma sample_pop3_run_value:
  "(case sample_pop3_run of (Inr r, u) \<Rightarrow> ms_outcome r = ''success-confirmed'' \<and>
      filter (\<lambda>c. \<not> pop3_harmless c) (map fst (nt_trace u)) = [Pop3Dele 2, Pop3Quit] | _ \<Rightarrow> False)"
  by code_simp

theorem pop3_delete_commits_what_was_proved_witness:
  "\<exists>pre m post. nt_trace (snd sample_pop3_run) = pre @ m @ post \<and> map fst m = [Pop3Dele 2, Pop3Quit] \<and>
     pop3_evidence_for password_host sample_pop3_target m pre"
proof -
  obtain r u where run: "sample_pop3_run = (Inr r, u)"
    using sample_pop3_run_value by (auto split: prod.split_asm sum.split_asm)
  from pop3_delete_commits_what_was_proved [OF scripted_wire run [unfolded sample_pop3_run_def]]
  obtain pre m post where l: "nt_trace u = nt_trace (script_net pop3_script) @ pre @ m @ post"
    "list_all (\<lambda>x. pop3_harmless (fst x)) pre" "list_all (\<lambda>x. pop3_harmless (fst x)) post"
    "m \<noteq> [] \<longrightarrow> pop3_evidence_for password_host sample_pop3_target m pre"
    "pop3_mutations sample_pop3_target m" by blast
  have "filter (\<lambda>c. \<not> pop3_harmless c) (map fst pre) = []" "filter (\<lambda>c. \<not> pop3_harmless c) (map fst post) = []"
    using l(2,3) by (auto simp: list_all_iff filter_empty_conv)
  moreover have "filter (\<lambda>c. \<not> pop3_harmless c) (map fst (nt_trace u)) = [Pop3Dele 2, Pop3Quit]"
    using sample_pop3_run_value unfolding run prod.case sum.case by (rule conjunct2)
  ultimately have "filter (\<lambda>c. \<not> pop3_harmless c) (map fst m) = [Pop3Dele 2, Pop3Quit]"
    using l(1) by (simp add: script_net_def)
  then have "map fst m = [Pop3Dele 2, Pop3Quit]"
    using l(5) by (auto simp: pop3_mutations_def)
  with l show ?thesis
    by (intro exI [of _ pre] exI [of _ m] exI [of _ post]) (auto simp: run script_net_def)
qed

definition sample_pop3_observation :: "string result \<times> reply list net" where
  "sample_pop3_observation = pop3_observe password_host scripted sample_pop3 sample_pop3_target
     (script_net [Done, Done, Done, Listing [(1, ''T'')]])"

theorem pop3_observe_proves_its_report_witness:
  "\<exists>u. sample_pop3_observation = (Inr ''confirmed-absent'', u) \<and>
     uidl_absent sample_pop3_target (nt_trace u)"
proof -
  have "fst sample_pop3_observation = Inr ''confirmed-absent''" by code_simp
  then obtain u where u: "sample_pop3_observation = (Inr ''confirmed-absent'', u)"
    by (metis prod.collapse)
  then have "pop3_reports password_host sample_pop3_target (script_net [Done, Done, Done, Listing [(1, ''T'')]])
      ''confirmed-absent'' u"
    using pop3_observe_proves_its_report [OF scripted_wire, where H = password_host and A = sample_pop3 and
        t = sample_pop3_target and s = "script_net [Done, Done, Done, Listing [(1, ''T'')]]"]
    by (simp add: sample_pop3_observation_def)
  then have "uidl_absent sample_pop3_target (nt_trace u)" by (simp add: reports_by_def script_net_def)
  with u show ?thesis by blast
qed

section \<open>Gmail\<close>

definition sample_gmail_config :: gmail_config where
  "sample_gmail_config = \<lparr>gc_account_email = ''Me@X'', gc_oauth_client_secret_file = [''s''],
     gc_poll_interval_seconds = 90, gc_remote_delete_token_file = Some [''t'']\<rparr>"

definition sample_gmail_account :: account_config where
  "sample_gmail_account =
     sample_account_config\<lparr>ac_kind := Gmail, ac_imap := None, ac_gmail := Some sample_gmail_config\<rparr>"

definition sample_gmail :: gmail_mutation where
  "sample_gmail = \<lparr>gm_config = sample_config, gm_account = sample_gmail_account, gm_account_id = 1\<rparr>"

definition sample_gmail_target :: target where
  "sample_gmail_target = ProviderDeletionTarget \<lparr>tg_remote_message_id = ''m'', tg_canonical_message_id = ''c'',
     tg_account_id = 1, tg_account_name = ''a'', tg_provider_kind = Gmail,
     tg_canonical_sha256 = sample_sha\<rparr> ''U''"

text \<open>Valid credentials, the profile, the message, the DELETE, and then a 404.\<close>

definition gmail_script :: "reply list" where
  "gmail_script = [Done, Flag True,
     Text (Some ''k''), Http 200 (Some (VDict [(VStr ''emailAddress'', VStr ''me@x'')])),
     Text (Some ''k''), Http 200 (Some (VDict [(VStr ''id'', VStr ''U''), (VStr ''raw'', VStr ''eA'')])),
     Text (Some ''k''), Http 204 None,
     Text (Some ''k''), Http 404 None]"

definition sample_gmail_run :: "mutation_result result \<times> reply list net" where
  "sample_gmail_run = gmail_delete password_host scripted sample_gmail sample_gmail_target (script_net gmail_script)"

lemma sample_gmail_run_value:
  "(case sample_gmail_run of (Inr r, u) \<Rightarrow> ms_outcome r = ''success-confirmed'' \<and>
      filter (\<lambda>c. \<not> gmail_harmless c) (map fst (nt_trace u)) = [HttpDelete ''messages/U'' ''k''] | _ \<Rightarrow> False)"
  by code_simp

theorem gmail_delete_is_exact_witness:
  "\<exists>pre m post. nt_trace (snd sample_gmail_run) = pre @ m @ post \<and> map fst m = [HttpDelete ''messages/U'' ''k''] \<and>
     gmail_evidence_for password_host sample_gmail sample_gmail_target m pre"
proof -
  obtain r u where run: "sample_gmail_run = (Inr r, u)"
    using sample_gmail_run_value by (auto split: prod.split_asm sum.split_asm)
  from gmail_delete_is_exact [OF run [unfolded sample_gmail_run_def]]
  obtain pre m post where l: "nt_trace u = nt_trace (script_net gmail_script) @ pre @ m @ post"
    "list_all (\<lambda>x. gmail_harmless (fst x)) pre" "list_all (\<lambda>x. gmail_harmless (fst x)) post"
    "m \<noteq> [] \<longrightarrow> gmail_evidence_for password_host sample_gmail sample_gmail_target m pre"
    "gmail_mutations sample_gmail_target m" by blast
  have "filter (\<lambda>c. \<not> gmail_harmless c) (map fst pre) = []" "filter (\<lambda>c. \<not> gmail_harmless c) (map fst post) = []"
    using l(2,3) by (auto simp: list_all_iff filter_empty_conv)
  moreover have "filter (\<lambda>c. \<not> gmail_harmless c) (map fst (nt_trace u)) = [HttpDelete ''messages/U'' ''k'']"
    using sample_gmail_run_value unfolding run prod.case sum.case by (rule conjunct2)
  ultimately have "filter (\<lambda>c. \<not> gmail_harmless c) (map fst m) = [HttpDelete ''messages/U'' ''k'']"
    using l(1) by (simp add: script_net_def)
  then have "map fst m = [HttpDelete ''messages/U'' ''k'']"
    using l(5) by (auto simp: gmail_mutations_def)
  with l show ?thesis
    by (intro exI [of _ pre] exI [of _ m] exI [of _ post]) (auto simp: run script_net_def)
qed

definition sample_token :: token_file where
  "sample_token = Token (VDict [(VStr ''scopes'', VList [VStr ''openid'', VStr GMAIL_DELETE_SCOPE])]) True"

theorem delete_credentials_least_privilege_witness:
  "load_delete_credentials (\<lambda>p. sample_token) sample_gmail_account = Inr () \<and>
   (\<exists>l. VStr GMAIL_DELETE_SCOPE \<in> set l \<and> (\<forall>x \<in> set l. \<exists>sc. x = VStr sc))"
proof -
  have "(case load_delete_credentials (\<lambda>p. sample_token) sample_gmail_account of Inr u \<Rightarrow> True | _ \<Rightarrow> False)"
    by code_simp
  then have load: "load_delete_credentials (\<lambda>p. sample_token) sample_gmail_account = Inr ()"
    by (auto split: sum.split_asm)
  from delete_credentials_least_privilege [OF load] load show ?thesis by blast
qed

end
