(* ===== verification/ProviderAdapters.thy ===== *)
theory ProviderAdapters
  imports ImapMutation Pop3Mutation GmailMutation MutationReconcile
begin

text \<open>
  The closed factories of \<open>remote_mutation.py\<close>: which concrete adapter a production run and a
  reconciliation get, and the composition of the execution engine with the provider adapters.
\<close>

section \<open>The factories\<close>

text \<open>
  The constructors read the configuration, the local database and, for Gmail, the token file \<open>T\<close>.
  The gmail adapter is given the transport over HTTP.
\<close>

definition imap_adapter_of :: "host \<Rightarrow> 's peer \<Rightarrow> app_config \<Rightarrow> string \<Rightarrow> db \<Rightarrow> 's net adapter result" where
  "imap_adapter_of H P cfg name d =
     (case imap_mutation_adapter cfg name d of Inl e \<Rightarrow> Inl e | Inr A \<Rightarrow> Inr (adapter_of (imap_delete H P A)))"

definition pop3_adapter_of :: "host \<Rightarrow> 's peer \<Rightarrow> app_config \<Rightarrow> string \<Rightarrow> db \<Rightarrow> 's net adapter result" where
  "pop3_adapter_of H P cfg name d =
     (case pop3_mutation_adapter cfg name d of Inl e \<Rightarrow> Inl e | Inr A \<Rightarrow> Inr (adapter_of (pop3_delete H P A)))"

definition gmail_adapter_of ::
  "host \<Rightarrow> (path \<Rightarrow> token_file) \<Rightarrow> 's peer \<Rightarrow> app_config \<Rightarrow> string \<Rightarrow> db \<Rightarrow> 's net adapter result" where
  "gmail_adapter_of H T P cfg name d =
     (case gmail_mutation_adapter T cfg name d of Inl e \<Rightarrow> Inl e | Inr A \<Rightarrow> Inr (adapter_of (gmail_delete H P A)))"

definition preflight :: "'a result \<Rightarrow> 'a result" where
  "preflight r = (case r of
     Inl e \<Rightarrow> Inl (ProductionPlanError ''production provider adapter local preflight failed'') | Inr x \<Rightarrow> Inr x)"

definition production_adapter_factory ::
  "host \<Rightarrow> (path \<Rightarrow> token_file) \<Rightarrow> 's peer \<Rightarrow> 's net adapter_factory" where
  "production_adapter_factory H T P w cfg name =
     (case config_account cfg name of
        None \<Rightarrow> Inl (ProductionPlanError ''account is not enabled for production remote deletion'')
      | Some a \<Rightarrow>
          if \<not> ac_enabled a \<or> \<not> ac_remote_deletion_enabled a
          then Inl (ProductionPlanError ''account is not enabled for production remote deletion'')
          else preflight (case ac_kind a of
              Imap \<Rightarrow> imap_adapter_of H P cfg name (w_db w)
            | Gmail \<Rightarrow> gmail_adapter_of H T P cfg name (w_db w)
            | Pop3 \<Rightarrow> pop3_adapter_of H P cfg name (w_db w)))"

definition observation_adapter_factory ::
  "host \<Rightarrow> (path \<Rightarrow> token_file) \<Rightarrow> 's peer \<Rightarrow> 's net observer_factory" where
  "observation_adapter_factory H T P w cfg name =
     (case config_account cfg name of
        None \<Rightarrow> Inl (ReconciliationError ''reconciliation account is not configured'')
      | Some a \<Rightarrow>
          (case ac_kind a of
             Imap \<Rightarrow> (case imap_mutation_adapter cfg name (w_db w) of Inl e \<Rightarrow> Inl e
               | Inr A \<Rightarrow> Inr (observer_of (imap_observe H P A)))
           | Gmail \<Rightarrow> (case gmail_mutation_adapter T cfg name (w_db w) of Inl e \<Rightarrow> Inl e
               | Inr A \<Rightarrow> Inr (observer_of (gmail_observe H P A)))
           | Pop3 \<Rightarrow> (case pop3_mutation_adapter cfg name (w_db w) of Inl e \<Rightarrow> Inl e
               | Inr A \<Rightarrow> Inr (observer_of (pop3_observe H P A)))))"

section \<open>What a recorded success means\<close>

text \<open>The absence of a target, as one of the providers shows it.\<close>

definition provider_absent :: "target \<Rightarrow> event list \<Rightarrow> bool" where
  "provider_absent t l \<longleftrightarrow> observed_absent t l \<or> uidl_absent t l \<or> gmail_absent t l"

definition absence_between :: "target \<Rightarrow> 's net \<Rightarrow> 's net \<Rightarrow> bool" where
  "absence_between t a b \<longleftrightarrow> (\<exists>k l j. nt_trace b = nt_trace a @ k @ l @ j \<and> provider_absent t l)"

definition trace_extends :: "'s net \<Rightarrow> 's net \<Rightarrow> bool" where
  "trace_extends a b \<longleftrightarrow> (\<exists>l. nt_trace b = nt_trace a @ l)"

lemma trace_extends_refl [simp]: "trace_extends a a"
  by (simp add: trace_extends_def)

lemma absence_before: "trace_extends a b \<Longrightarrow> absence_between t b c \<Longrightarrow> absence_between t a c"
  unfolding trace_extends_def absence_between_def by (metis append_assoc)

lemma absence_after: "absence_between t a b \<Longrightarrow> trace_extends b c \<Longrightarrow> absence_between t a c"
  unfolding trace_extends_def absence_between_def by (metis append_assoc)

lemma trace_extends_trans: "trace_extends a b \<Longrightarrow> trace_extends b c \<Longrightarrow> trace_extends a c"
  unfolding trace_extends_def by (metis append_assoc)

text \<open>An adapter whose confirmed absences are observed.\<close>

definition proving_adapter :: "'s net adapter \<Rightarrow> bool" where
  "proving_adapter A \<longleftrightarrow> (\<forall>w t r p. A w t = (r, p) \<longrightarrow> trace_extends (w_net w) p \<and>
     (\<forall>x. r = Some x \<and> ms_confirmed_absent x \<longrightarrow> absence_between t (w_net w) p))"

lemma proving_adapter_of:
  assumes "\<And>t s r u. delete t s = (r, u) \<Longrightarrow> \<exists>l. nt_trace u = nt_trace s @ l"
    and "\<And>t s r u. delete t s = (Inr r, u) \<Longrightarrow> ms_confirmed_absent r \<Longrightarrow>
      \<exists>l k. nt_trace u = nt_trace s @ k @ l \<and> absent t l"
    and "\<And>t l. absent t l \<Longrightarrow> provider_absent t l"
  shows "proving_adapter (adapter_of delete)"
  unfolding proving_adapter_def
proof (intro allI impI conjI)
  fix w t r p
  assume run: "adapter_of delete w t = (r, p)"
  obtain y u where y: "delete t (w_net w) = (y, u)" by (meson surj_pair)
  then have p: "p = u" "r = (case y of Inl e \<Rightarrow> None | Inr x \<Rightarrow> Some x)"
    using run by (auto simp: adapter_of_def split: sum.splits)
  show "trace_extends (w_net w) p"
    using assms(1) [OF y] p(1) by (simp add: trace_extends_def)
  fix x assume x: "r = Some x \<and> ms_confirmed_absent x"
  then have "delete t (w_net w) = (Inr x, u)" using p(2) y by (auto split: sum.splits)
  from assms(2) [OF this] assms(3) x obtain l k where "nt_trace u = nt_trace (w_net w) @ k @ l @ []" "provider_absent t l"
    by auto
  then show "absence_between t (w_net w) p" unfolding absence_between_def p(1) by blast
qed

lemma factory_proves:
  assumes "library_client P" "wire_library P" "production_adapter_factory H T P w cfg name = Inr A"
  shows "proving_adapter A"
proof -
  have imap: "proving_adapter (adapter_of (imap_delete H P B))" for B
    by (rule proving_adapter_of [where absent = observed_absent], erule imap.trace_grows [OF assms(1)],
        erule (1) imap.confirmed_absence [OF assms(1)], simp add: provider_absent_def)
  have pop3: "proving_adapter (adapter_of (pop3_delete H P B))" for B
    by (rule proving_adapter_of [where absent = uidl_absent], erule pop3.trace_grows [OF assms(2)],
        erule (1) pop3.confirmed_absence [OF assms(2)], simp add: provider_absent_def)
  have gmail: "proving_adapter (adapter_of (gmail_delete H P B))" for B
    by (rule proving_adapter_of [where absent = gmail_absent], erule gmail.trace_grows [OF TrueI],
        erule (1) gmail.confirmed_absence [OF TrueI], simp add: provider_absent_def)
  show ?thesis
    using assms(3) imap pop3 gmail
    by (auto simp: production_adapter_factory_def preflight_def imap_adapter_of_def pop3_adapter_of_def
        gmail_adapter_of_def split: option.split_asm if_split_asm provider.split_asm sum.split_asm)
qed

text \<open>Every row of the run that is recorded as succeeded has its absence in the trace since \<open>a\<close>.\<close>

definition successes_observed :: "int \<Rightarrow> 's net \<Rightarrow> 's net world \<Rightarrow> bool" where
  "successes_observed run a w \<longleftrightarrow> (\<forall>m \<in> run_rows run (w_db w). mu_status m = Succeeded \<longrightarrow>
     (\<exists>t. tg_remote_message_id (base t) = mu_remote_message_id m \<and> absence_between t a (w_net w)))"

lemma successes_cong:
  "remote_mutations (w_db w') = remote_mutations (w_db w) \<Longrightarrow> w_net w' = w_net w \<Longrightarrow>
     successes_observed run a w \<Longrightarrow> successes_observed run a w'"
  by (simp add: successes_observed_def run_rows_def)

lemma execute_serial_observed:
  assumes "execute_serial H cfg run A w = (res, w')" and "unique_keys (w_db w)"
    and "proving_adapter A" and "successes_observed run a w" and "trace_extends a (w_net w)"
  shows "successes_observed run a w'"
  using assms
proof (induction H cfg run A w rule: execute_serial.induct)
  case (1 H cfg run A w)
  show ?case
  proof (cases "next_with Planned run (w_db w)")
    case None
    with "1.prems"(1) have "w' = complete_run H run True w"
      by (simp add: execute_serial.simps [of H cfg run A w])
    with "1.prems"(4) show ?thesis
      by (intro successes_cong [of w' w]) (simp_all add: complete_run_def Let_def)
  next
    case (Some row)
    from next_with_mem [OF Some] have row: "row \<in> set (remote_mutations (w_db w))" "mu_run_id row = run"
      "mu_status row = Planned" by simp_all
    obtain r w1 where step: "serial_step H cfg run A True row w = (r, w1)" by (meson surj_pair)
    have rest: "(case r of Inl e \<Rightarrow> (Inl e, w1) | Inr go \<Rightarrow>
        if go then execute_serial H cfg run A w1 else (Inr (), w1)) = (res, w')"
      using "1.prems"(1) Some step by (cases r) (simp_all add: execute_serial.simps [of H cfg run A w])
    have "successes_observed run a w1 \<and> unique_keys (w_db w1) \<and> trace_extends a (w_net w1)"
      using step row(1,2)
    proof (cases rule: serial_step_cases)
      case (error e)
      with "1.prems"(2,4,5) show ?thesis by (auto intro: successes_cong [of w1 w])
    next
      case (stale n)
      then have "successes_observed run a w1"
        using "1.prems"(4) by (auto simp: successes_observed_def run_rows_def update_where_def split: if_splits)
      with stale "1.prems"(2,5) show ?thesis by simp
    next
      case (called w2 target n0 n st sm code ar)
      have ext: "trace_extends (w_net w) (w_net w1)"
        and abs: "st = Succeeded \<Longrightarrow> absence_between target (w_net w) (w_net w1)"
        using called(3,4,10) "1.prems"(3) unfolding proving_adapter_def by metis+
      have target: "tg_remote_message_id (base target) = mu_remote_message_id row"
        using called(2) "1.prems"(2) by blast
      have new: "absence_between target a (w_net w1)" if "st = Succeeded"
        by (rule absence_before [OF "1.prems"(5) abs [OF that]])
      have old: "\<exists>t. tg_remote_message_id (base t) = mu_remote_message_id m \<and> absence_between t a (w_net w1)"
        if "m \<in> run_rows run (w_db w)" "mu_status m = Succeeded" for m
        using "1.prems"(4) that absence_after [OF _ ext] unfolding successes_observed_def by blast
      have key: "m = row" if "m \<in> set (remote_mutations (w_db w))" "mu_id m = mu_id row" for m
        using that row(1) "1.prems"(2) unfolding unique_keys_def
        by (auto simp: distinct_map inj_on_def)
      have "\<exists>t. tg_remote_message_id (base t) = mu_remote_message_id m \<and> absence_between t a (w_net w1)"
        if m: "m \<in> run_rows run (w_db w1)" "mu_status m = Succeeded" for m
      proof -
        from m(1) called(11) obtain m0 where m0: "m0 \<in> set (remote_mutations (w_db w))"
          "m = (if mu_id m0 = mu_id row then mark_outcome n st sm code (mark_started n0 m0) else m0)"
          "mu_run_id m = run"
          unfolding run_rows_def by (auto simp: update_where_def)
        show ?thesis
        proof (cases "mu_id m0 = mu_id row")
          case True
          with key m0 have "m0 = row" by blast
          with m0(2) True m(2) target new show ?thesis by auto
        next
          case False
          with m0 m old [of m0] show ?thesis by (simp add: run_rows_def)
        qed
      qed
      then have "successes_observed run a w1" unfolding successes_observed_def by blast
      then show ?thesis
        using called(7) "1.prems"(2) trace_extends_trans [OF "1.prems"(5) ext] by blast
    qed
    then show ?thesis
      using rest 1 Some step by (cases r) (auto split: if_splits)
  qed
qed


end
