(* ===== verification/WiredWitness.thy ===== *)
theory WiredWitness
  imports Witnesses ProviderWitnesses ProviderAdapters
begin

text \<open>
  A production execution of the sample plan with the program's own IMAP adapter against a scripted
  server, as the instance of the composition property.
\<close>

definition wired_config :: app_config where
  "wired_config = sample_config\<lparr>cf_accounts := [sample_account_config\<lparr>ac_config_ref := ''env:V''\<rparr>]\<rparr>"

definition wired_world :: "reply list net world" where
  "wired_world = \<lparr>w_db = w_db planned_world, w_fs = sample_fs, w_tick = 0, w_net = script_net imap_script\<rparr>"

definition wired_execution :: "int result \<times> reply list net world" where
  "wired_execution = execute_production_plan password_host wired_config 1 ''a''
     (production_adapter_factory password_host (\<lambda>p. NoToken) scripted) wired_world"

lemma wired_execution_value:
  "(case wired_execution of (Inr run, w) \<Rightarrow>
      list_ex (\<lambda>m. mu_run_id m = run \<and> mu_status m = Succeeded \<and> mu_remote_message_id m = ''m'')
        (remote_mutations (w_db w)) | _ \<Rightarrow> False)"
  by code_simp


end
