(* ===== verification/Url.thy ===== *)
theory Url
  imports PyText
begin

text \<open>
  The part of \<^verbatim>\<open>urllib.parse\<close> and \<^verbatim>\<open>pathlib\<close> the configuration uses: \<open>urlparse\<close> of an \<open>ssh://\<close>
  reference (network location, user info, bracketed hosts, port, query, fragment) and the
  components of a POSIX path.
\<close>

section \<open>Cutting texts\<close>

text \<open>\<open>s.partition(c)\<close> and \<open>s.rpartition(c)\<close>: the part after is \<^term>\<open>None\<close> (before, for the latter)
  when \<open>c\<close> does not occur.\<close>

definition cut_first :: "char \<Rightarrow> string \<Rightarrow> string \<times> string option" where
  "cut_first c s = (takeWhile (\<lambda>x. x \<noteq> c) s,
     case dropWhile (\<lambda>x. x \<noteq> c) s of [] \<Rightarrow> None | _ # t \<Rightarrow> Some t)"

definition cut_last :: "char \<Rightarrow> string \<Rightarrow> string option \<times> string" where
  "cut_last c s = (case dropWhile (\<lambda>x. x \<noteq> c) (rev s) of [] \<Rightarrow> None | _ # t \<Rightarrow> Some (rev t),
     rev (takeWhile (\<lambda>x. x \<noteq> c) (rev s)))"

text \<open>\<open>s.split(c)\<close>\<close>

fun split_on :: "char \<Rightarrow> string \<Rightarrow> string \<Rightarrow> string list" where
  "split_on c cur [] = [cur]"
| "split_on c cur (x # xs) = (if x = c then cur # split_on c [] xs else split_on c (cur @ [x]) xs)"

section \<open>Addresses in brackets\<close>

definition hex_char :: "char \<Rightarrow> bool" where
  "hex_char c \<longleftrightarrow> is_digit c \<or> (65 :: nat) \<le> of_char c \<and> of_char c \<le> (70 :: nat) \<or>
     (97 :: nat) \<le> of_char c \<and> of_char c \<le> (102 :: nat)"

definition ipv4_octet :: "string \<Rightarrow> bool" where
  "ipv4_octet s \<longleftrightarrow> all_digits s \<and> length s \<le> 3 \<and> (s = ''0'' \<or> hd s \<noteq> CHR ''0'') \<and> digits_value s \<le> 255"

definition ipv4 :: "string \<Rightarrow> bool" where
  "ipv4 s \<longleftrightarrow> length (split_on CHR ''.'' [] s) = 4 \<and> list_all ipv4_octet (split_on CHR ''.'' [] s)"

definition hextet :: "string \<Rightarrow> bool" where
  "hextet s \<longleftrightarrow> s \<noteq> [] \<and> list_all hex_char s \<and> length s \<le> 4"

text \<open>
  \<open>ipaddress.IPv6Address\<close>: a last part in dotted form counts for two; at most one inner empty part
  (\<open>::\<close>), which stands for at least one group; an outer empty part only beside it.
\<close>

definition ipv6_groups :: "string list \<Rightarrow> bool" where
  "ipv6_groups ps \<longleftrightarrow>
     (let inner = filter (\<lambda>i. ps ! i = []) [1..<length ps - 1] in
      length ps \<le> 9 \<and> length inner \<le> 1 \<and>
      (case inner of
         k # _ \<Rightarrow>
           let before = take k ps; after = drop (Suc k) ps;
               hi = (if before = [[]] then [] else before); lo = (if after = [[]] then [] else after)
           in list_all hextet hi \<and> list_all hextet lo \<and> length hi + length lo < 8
       | [] \<Rightarrow> length ps = 8 \<and> list_all hextet ps))"

definition ipv6_address :: "string \<Rightarrow> bool" where
  "ipv6_address s \<longleftrightarrow>
     (let ps = split_on CHR '':'' [] s in
      3 \<le> length ps \<and>
      (if CHR ''.'' \<in> set (last ps)
       then ipv4 (last ps) \<and> ipv6_groups (butlast ps @ [''0'', ''0''])
       else ipv6_groups ps))"

definition ipv6 :: "string \<Rightarrow> bool" where
  "ipv6 s \<longleftrightarrow> CHR ''/'' \<notin> set s \<and>
     (case cut_first CHR ''%'' s of
        (a, None) \<Rightarrow> ipv6_address a
      | (a, Some scope) \<Rightarrow> scope \<noteq> [] \<and> CHR ''%'' \<notin> set scope \<and> ipv6_address a)"

text \<open>\<^verbatim>\<open>v[a-fA-F0-9]+\..+\<close>\<close>

definition ip_future :: "string \<Rightarrow> bool" where
  "ip_future s \<longleftrightarrow>
     (case s of [] \<Rightarrow> False
      | c # cs \<Rightarrow> c = CHR ''v'' \<and>
          (case cut_first CHR ''.'' cs of
             (v, None) \<Rightarrow> False
           | (v, Some r) \<Rightarrow> v \<noteq> [] \<and> list_all hex_char v \<and> r \<noteq> [] \<and> CHR 0x0A \<notin> set r))"

definition bracketed_host :: "string \<Rightarrow> bool" where
  "bracketed_host s \<longleftrightarrow> (if starts_with ''v'' s then ip_future s else ipv6 s)"

text \<open>\<open>_check_bracketed_netloc\<close>\<close>

definition brackets_ok :: "string \<Rightarrow> bool" where
  "brackets_ok netloc \<longleftrightarrow>
     (if CHR ''['' \<notin> set netloc \<and> CHR '']'' \<notin> set netloc then True
      else if CHR ''['' \<notin> set netloc \<or> CHR '']'' \<notin> set netloc then False
      else (case cut_first CHR ''['' (snd (cut_last CHR ''@'' netloc)) of
          (before, Some rest) \<Rightarrow>
            before = [] \<and>
            (case cut_first CHR '']'' rest of (host, port) \<Rightarrow>
               (case port of None \<Rightarrow> True | Some p \<Rightarrow> p = [] \<or> starts_with '':'' p) \<and> bracketed_host host)
        | (hostport, None) \<Rightarrow> bracketed_host (fst (cut_first CHR '':'' hostport))))"

section \<open>\<open>urlparse\<close> of an ssh reference\<close>

record url =
  ur_netloc :: string
  ur_path :: string
  ur_query :: string
  ur_fragment :: string

text \<open>Tabs are removed, the network location ends at the first of \<open>/?#\<close>; bad brackets raise.\<close>

definition parse_ssh_url :: "string \<Rightarrow> url result" where
  "parse_ssh_url s =
     (let rest = drop 6 (filter (\<lambda>c. c \<noteq> CHR 0x09 \<and> c \<noteq> CHR 0x0A \<and> c \<noteq> CHR 0x0D) s);
          netloc = takeWhile (\<lambda>c. c \<notin> {CHR ''/'', CHR ''?'', CHR ''#''}) rest;
          tail = drop (length netloc) rest
      in if \<not> brackets_ok netloc then Inl (ValueError ''Invalid IPv6 URL'')
         else (case cut_first CHR ''#'' tail of (front, fragment) \<Rightarrow>
           (case cut_first CHR ''?'' front of (path, query) \<Rightarrow>
             Inr \<lparr>ur_netloc = netloc, ur_path = path,
               ur_query = (case query of None \<Rightarrow> [] | Some q \<Rightarrow> q),
               ur_fragment = (case fragment of None \<Rightarrow> [] | Some q \<Rightarrow> q)\<rparr>)))"

definition url_password :: "url \<Rightarrow> string option" where
  "url_password u =
     (case cut_last CHR ''@'' (ur_netloc u) of
        (None, _) \<Rightarrow> None
      | (Some info, _) \<Rightarrow> snd (cut_first CHR '':'' info))"

text \<open>\<open>_hostinfo\<close>: the host as written and the port text (\<^term>\<open>None\<close> without a colon or when empty).\<close>

definition host_info :: "url \<Rightarrow> string \<times> string option" where
  "host_info u =
     (case cut_first CHR ''['' (snd (cut_last CHR ''@'' (ur_netloc u))) of
        (before, Some rest) \<Rightarrow>
          (case cut_first CHR '']'' rest of (host, port) \<Rightarrow>
             (host, case port of None \<Rightarrow> None | Some p \<Rightarrow> snd (cut_first CHR '':'' p)))
      | (hostport, None) \<Rightarrow> cut_first CHR '':'' hostport)"

text \<open>\<open>parsed.port\<close>: an empty text is no port; anything else has to be a decimal up to 65535.\<close>

definition url_port :: "url \<Rightarrow> int option result" where
  "url_port u =
     (case snd (host_info u) of
        None \<Rightarrow> Inr None
      | Some p \<Rightarrow>
          if p = [] then Inr None
          else if \<not> all_digits p then Inl (ValueError ''port'')
          else rbind (py_int p) (\<lambda>n.
            if n > 65535 then Inl (ValueError ''Port out of range 0-65535'') else Inr (Some n)))"

section \<open>Paths\<close>

text \<open>\<open>Path(s)\<close> as its parts; exactly two leading slashes are a root of their own.\<close>

definition path_root :: "string \<Rightarrow> path" where
  "path_root s =
     (if starts_with ''//'' s \<and> \<not> starts_with ''///'' s then [''//'']
      else if starts_with ''/'' s then [''/''] else [])"

definition path_of :: "string \<Rightarrow> path" where
  "path_of s = path_root s @ filter (\<lambda>c. c \<noteq> [] \<and> c \<noteq> ''.'') (split_on CHR ''/'' [] s)"

definition is_absolute :: "path \<Rightarrow> bool" where
  "is_absolute p \<longleftrightarrow> p \<noteq> [] \<and> (hd p = ''/'' \<or> hd p = ''//'')"

text \<open>\<open>str(path)\<close>\<close>

definition path_str :: "path \<Rightarrow> string" where
  "path_str p =
     (if p = [] then ''.''
      else if is_absolute p then hd p @ join ''/'' (tl p) else join ''/'' p)"

lemma cut_first_None: "snd (cut_first c s) = None \<longleftrightarrow> c \<notin> set s"
  by (induction s) (auto simp: cut_first_def)

lemma cut_last_None: "fst (cut_last c s) = None \<longleftrightarrow> c \<notin> set s"
proof (cases "c \<in> set s")
  case True
  then have "dropWhile (\<lambda>x. x \<noteq> c) (rev s) \<noteq> []" by (auto simp: dropWhile_eq_Nil_conv)
  with True show ?thesis by (auto simp: cut_last_def split: list.split)
next
  case False
  then have "\<forall>x \<in> set (rev s). x \<noteq> c" by auto
  then have "dropWhile (\<lambda>x. x \<noteq> c) (rev s) = []" unfolding dropWhile_eq_Nil_conv .
  with False show ?thesis by (simp only: cut_last_def fst_conv list.case) simp
qed

lemma split_on_absent: "c \<notin> set s \<Longrightarrow> split_on c cur s = [cur @ s]"
  by (induction s arbitrary: cur) auto

end
