(* ===== verification/Config.thy ===== *)
theory Config
  imports Models Url Wire
begin

text \<open>
  \<open>config.py\<close>: from a parsed YAML document to the typed configuration, and the summary shown to the
  operator.  The file (with what the YAML parser makes of it) and the time zone database are
  parameters; path resolution is the host's.  The lemmas show what an accepted configuration
  guarantees the other components, and which exceptions are not configuration errors.  Quotation
  marks inside messages are left out.
\<close>

section \<open>Scalar fields\<close>

definition bad :: "string \<Rightarrow> error" where
  "bad message = ConfigError message"

definition mapping :: "pyval \<Rightarrow> string \<Rightarrow> (pyval \<times> pyval) list result" where
  "mapping v label = (case v of VDict kvs \<Rightarrow> Inr kvs | _ \<Rightarrow> Inl (bad (label @ '' must be a mapping'')))"

definition get_or_none :: "(pyval \<times> pyval) list \<Rightarrow> string \<Rightarrow> pyval" where
  "get_or_none kvs field = dict_get_or kvs field VNull"

definition blank :: "string \<Rightarrow> bool" where
  "blank s \<longleftrightarrow> list_all str_space s"

definition required_string :: "(pyval \<times> pyval) list \<Rightarrow> string \<Rightarrow> string \<Rightarrow> string result" where
  "required_string kvs field label =
     (case get_or_none kvs field of
        VStr s \<Rightarrow> if blank s then Inl (bad (label @ ''.'' @ field @ '' must be a non-empty string'')) else Inr s
      | _ \<Rightarrow> Inl (bad (label @ ''.'' @ field @ '' must be a non-empty string'')))"

definition required_bool :: "(pyval \<times> pyval) list \<Rightarrow> string \<Rightarrow> string \<Rightarrow> bool \<Rightarrow> bool result" where
  "required_bool kvs field label dflt =
     (case dict_get_or kvs field (VBool dflt) of
        VBool b \<Rightarrow> Inr b | _ \<Rightarrow> Inl (bad (label @ ''.'' @ field @ '' must be a boolean'')))"

text \<open>The integer tests: \<open>isinstance(value, bool)\<close> excludes truth values, then a range.\<close>

definition int_in :: "pyval \<Rightarrow> (int \<Rightarrow> bool) \<Rightarrow> string \<Rightarrow> int result" where
  "int_in v ok message =
     (case v of VInt i \<Rightarrow> if ok i then Inr i else Inl (bad message) | _ \<Rightarrow> Inl (bad message))"

definition required_nonnegative_int :: "(pyval \<times> pyval) list \<Rightarrow> string \<Rightarrow> string \<Rightarrow> int result" where
  "required_nonnegative_int kvs field label =
     int_in (get_or_none kvs field) (\<lambda>i. 0 \<le> i) (label @ ''.'' @ field @ '' must be a non-negative integer'')"

definition required_positive_int :: "(pyval \<times> pyval) list \<Rightarrow> string \<Rightarrow> string \<Rightarrow> int result" where
  "required_positive_int kvs field label =
     int_in (get_or_none kvs field) (\<lambda>i. 1 \<le> i) (label @ ''.'' @ field @ '' must be a positive integer'')"

definition config_retention_days :: "pyval \<Rightarrow> string \<Rightarrow> int option result" where
  "config_retention_days v label =
     (if v = VStr ''never'' then Inr None
      else rbind (int_in v (\<lambda>i. 0 < i) (label @ ''.remote_retention_days must be a positive integer or never''))
        (\<lambda>i. Inr (Some i)))"

text \<open>\<^verbatim>\<open>[A-Za-z0-9][A-Za-z0-9_.-]*\<close>\<close>

definition alnum :: "char \<Rightarrow> bool" where
  "alnum c \<longleftrightarrow> is_digit c \<or> (65 :: nat) \<le> of_char c \<and> of_char c \<le> (90 :: nat) \<or>
     (97 :: nat) \<le> of_char c \<and> of_char c \<le> (122 :: nat)"

definition portable_name :: "string \<Rightarrow> bool" where
  "portable_name s \<longleftrightarrow> (case s of [] \<Rightarrow> False
     | c # cs \<Rightarrow> alnum c \<and> list_all (\<lambda>x. alnum x \<or> x = CHR ''_'' \<or> x = CHR ''.'' \<or> x = CHR ''-'') cs)"

definition account_name :: "pyval \<Rightarrow> string result" where
  "account_name v =
     (case v of
        VStr s \<Rightarrow>
          rbind (ensure (s \<noteq> [] \<and> s \<noteq> ''.'' \<and> s \<noteq> ''..'') (bad ''account names must be non-empty safe strings'')) (\<lambda>u.
          rbind (ensure (CHR ''/'' \<notin> set s \<and> CHR 0x5C \<notin> set s \<and> \<not> is_absolute (path_of s))
            (bad ''account names must not be paths'')) (\<lambda>u.
          rbind (ensure (portable_name s)
            (bad ''account names must use only letters, digits and ._-'')) (\<lambda>u.
          Inr s)))
      | _ \<Rightarrow> Inl (bad ''account names must be non-empty safe strings''))"

section \<open>Providers\<close>

fun tls_mode_of :: "string \<Rightarrow> tls_mode option" where
  "tls_mode_of s =
     (if s = ''IMAPS'' then Some IMAPS else if s = ''POP3S'' then Some POP3S
      else if s = ''STARTTLS'' then Some STARTTLS
      else if s = ''INSECURE_LOOPBACK'' then Some INSECURE_LOOPBACK else None)"

definition LOOPBACK :: "string list" where
  "LOOPBACK = [''localhost'', ''127.0.0.1'', ''::1'']"

definition folder_ok :: "pyval \<Rightarrow> bool" where
  "folder_ok v = (case v of
     VStr s \<Rightarrow> s \<noteq> [] \<and> list_all is_ascii s \<and>
       CHR 0x00 \<notin> set s \<and> CHR 0x0D \<notin> set s \<and> CHR 0x0A \<notin> set s
   | _ \<Rightarrow> False)"

fun text_of :: "pyval \<Rightarrow> string" where
  "text_of (VStr s) = s"
| "text_of _ = []"

definition folders_of :: "pyval \<Rightarrow> string \<Rightarrow> string list result" where
  "folders_of v label =
     (case v of
        VList l \<Rightarrow>
          rbind (ensure (l \<noteq> [] \<and> list_all folder_ok l)
            (bad (label @ ''.imap.folders must be non-empty ASCII remote folder names without CR, LF, or NUL''))) (\<lambda>u.
          rbind (ensure (distinct (map text_of l))
            (bad (label @ ''.imap.folders must not contain duplicates''))) (\<lambda>u.
          Inr (map text_of l)))
      | _ \<Rightarrow> Inl (bad (label @ ''.imap.folders must be a non-empty list of remote folder names'')))"

definition fast_path_of :: "(pyval \<times> pyval) list \<Rightarrow> string \<Rightarrow> fast_path_config result" where
  "fast_path_of kvs label =
     rbind (mapping (dict_get_or kvs ''fast_path'' (VDict [])) (label @ ''.imap.fast_path'')) (\<lambda>f.
     rbind (required_bool f ''idle_enabled'' (label @ ''.imap.fast_path'') True) (\<lambda>idle.
     rbind (int_in (dict_get_or f ''reconcile_interval_seconds'' (VInt 600)) (\<lambda>i. 60 \<le> i \<and> i \<le> 1740)
       (label @ ''.imap.fast_path.reconcile_interval_seconds must be 60..1740'')) (\<lambda>reconcile.
     rbind (int_in (dict_get_or f ''poll_interval_seconds'' (VInt 90)) (\<lambda>i. 60 \<le> i \<and> i \<le> 120)
       (label @ ''.imap.fast_path.poll_interval_seconds must be 60..120'')) (\<lambda>poll.
     Inr \<lparr>fp_idle_enabled = idle, fp_reconcile_interval_seconds = reconcile,
       fp_poll_interval_seconds = poll\<rparr>))))"

definition imap_settings :: "(pyval \<times> pyval) list \<Rightarrow> string \<Rightarrow> imap_config result" where
  "imap_settings kvs label =
     rbind (required_string kvs ''host'' (label @ ''.imap'')) (\<lambda>host.
     rbind (required_nonnegative_int kvs ''port'' (label @ ''.imap'')) (\<lambda>port.
     rbind (ensure (1 \<le> port \<and> port \<le> 65535) (bad (label @ ''.imap.port must be between 1 and 65535''))) (\<lambda>u.
     rbind (required_string kvs ''tls_mode'' (label @ ''.imap'')) (\<lambda>tls.
     rbind (ensure (tls \<in> {''IMAPS'', ''STARTTLS'', ''INSECURE_LOOPBACK''})
       (bad (label @ ''.imap.tls_mode must be IMAPS, STARTTLS, or INSECURE_LOOPBACK''))) (\<lambda>u.
     rbind (ensure (tls = ''INSECURE_LOOPBACK'' \<longrightarrow> map lower_char host \<in> set LOOPBACK)
       (bad (label @ ''.imap insecure mode is permitted only for a loopback host''))) (\<lambda>u.
     rbind (folders_of (dict_get_or kvs ''folders'' (VList [VStr ''INBOX''])) label) (\<lambda>folders.
     rbind (ensure (dict_get kvs ''sync_timeout_seconds'' = None)
       (bad (label @ ''.imap.sync_timeout_seconds is unsupported for direct IMAP acquisition''))) (\<lambda>u.
     rbind (if dict_get kvs ''connection_timeout_seconds'' = None then Inr 60
            else required_nonnegative_int kvs ''connection_timeout_seconds'' (label @ ''.imap'')) (\<lambda>timeout.
     rbind (ensure (timeout \<noteq> 0)
       (bad (label @ ''.imap.connection_timeout_seconds must be positive''))) (\<lambda>u.
     rbind (fast_path_of kvs label) (\<lambda>fast.
     rbind (required_string kvs ''username'' (label @ ''.imap'')) (\<lambda>user.
     Inr \<lparr>ic_host = host, ic_port = port, ic_username = user, ic_tls_mode = the (tls_mode_of tls),
       ic_folders = folders, ic_connection_timeout_seconds = timeout, ic_fast_path = fast\<rparr>))))))))))))"

definition imap_config_of :: "(pyval \<times> pyval) list \<Rightarrow> string \<Rightarrow> imap_config option result" where
  "imap_config_of account label =
     (if get_or_none account ''imap'' = VNull then Inr None
      else rbind (mapping (get_or_none account ''imap'') (label @ ''.imap'')) (\<lambda>kvs.
        rbind (imap_settings kvs label) (\<lambda>c. Inr (Some c))))"

text \<open>
  \<open>resolve(strict=False)\<close>: an embedded NUL is a \<open>ValueError\<close>, which the containment tests catch as
  "not inside"; any other failure is not a configuration error.
\<close>

definition resolved :: "host \<Rightarrow> path \<Rightarrow> path result" where
  "resolved H p =
     (if list_ex (\<lambda>s. CHR 0x00 \<in> set s) p then Inl (ValueError ''embedded null character'')
      else case h_resolve H p of None \<Rightarrow> Inl OSError | Some q \<Rightarrow> Inr q)"

fun value_error_is :: "'a \<Rightarrow> 'a result \<Rightarrow> 'a result" where
  "value_error_is v (Inl (ValueError m)) = Inr v"
| "value_error_is v r = r"

definition inside :: "host \<Rightarrow> path result \<Rightarrow> path \<Rightarrow> bool result" where
  "inside H p root_path =
     value_error_is False (rbind p (\<lambda>q. rbind (resolved H root_path) (\<lambda>r. Inr (is_prefix_of r q))))"

definition absolute_secret_path :: "host \<Rightarrow> string \<Rightarrow> string \<Rightarrow> path \<Rightarrow> path result" where
  "absolute_secret_path H s label root_path =
     rbind (ensure (is_absolute (path_of s)) (bad (label @ '' must be an absolute path''))) (\<lambda>u.
     rbind (resolved H (path_of s)) (\<lambda>p.
     rbind (inside H (Inr p) root_path) (\<lambda>b.
     rbind (ensure (\<not> b) (bad (label @ '' must not be inside archive.root''))) (\<lambda>u.
     Inr p))))"

definition delete_token_of :: "host \<Rightarrow> pyval \<Rightarrow> string \<Rightarrow> path \<Rightarrow> path option result" where
  "delete_token_of H v label root_path =
     (case v of
        VNull \<Rightarrow> Inr None
      | VStr s \<Rightarrow> rbind (absolute_secret_path H s (label @ ''.gmail.remote_delete_token_file'') root_path)
          (\<lambda>p. Inr (Some p))
      | _ \<Rightarrow> Inl (bad (label @ ''.gmail.remote_delete_token_file must be a path string'')))"

definition gmail_config_of :: "host \<Rightarrow> (pyval \<times> pyval) list \<Rightarrow> string \<Rightarrow> path \<Rightarrow> gmail_config result" where
  "gmail_config_of H account label root_path =
     rbind (ensure (get_or_none account ''imap'' = VNull)
       (bad (label @ ''.imap is not permitted for kind=gmail''))) (\<lambda>u.
     rbind (mapping (get_or_none account ''gmail'') (label @ ''.gmail'')) (\<lambda>kvs.
     rbind (required_string kvs ''account_email'' (label @ ''.gmail'')) (\<lambda>email.
     rbind (required_string kvs ''oauth_client_secret_file'' (label @ ''.gmail'')) (\<lambda>secret.
     rbind (absolute_secret_path H secret (label @ ''.gmail.oauth_client_secret_file'') root_path) (\<lambda>client.
     rbind (int_in (dict_get_or kvs ''poll_interval_seconds'' (VInt 90)) (\<lambda>i. 60 \<le> i \<and> i \<le> 120)
       (label @ ''.gmail.poll_interval_seconds must be 60..120'')) (\<lambda>poll.
     rbind (delete_token_of H (get_or_none kvs ''remote_delete_token_file'') label root_path) (\<lambda>token.
     rbind (case (token, get_or_none account ''config_ref'') of
              (Some p, VStr ref) \<Rightarrow>
                if starts_with ''file:'' ref
                then rbind (resolved H (path_of (drop 5 ref))) (\<lambda>q. ensure (q \<noteq> p)
                  (bad (label @ ''.gmail.remote_delete_token_file must differ from config_ref'')))
                else Inr ()
            | _ \<Rightarrow> Inr ()) (\<lambda>u.
     Inr \<lparr>gc_account_email = email, gc_oauth_client_secret_file = client,
       gc_poll_interval_seconds = poll, gc_remote_delete_token_file = token\<rparr>))))))))"

text \<open>Membership in a set of strings: an unhashable value raises.\<close>

fun hashable :: "pyval \<Rightarrow> bool" where
  "hashable (VList l) = False"
| "hashable (VDict kvs) = False"
| "hashable (VOther h) = h"
| "hashable _ = True"

definition pop3_tls :: "pyval \<Rightarrow> string \<Rightarrow> string result" where
  "pop3_tls v label =
     rbind (ensure (hashable v) TypeError) (\<lambda>u.
     case v of
       VStr s \<Rightarrow> rbind (ensure (s \<in> {''POP3S'', ''STARTTLS'', ''INSECURE_LOOPBACK''})
         (bad (label @ ''.pop3.tls_mode must be POP3S, STARTTLS, or INSECURE_LOOPBACK''))) (\<lambda>u. Inr s)
     | _ \<Rightarrow> Inl (bad (label @ ''.pop3.tls_mode must be POP3S, STARTTLS, or INSECURE_LOOPBACK'')))"

definition pop3_config_of :: "(pyval \<times> pyval) list \<Rightarrow> string \<Rightarrow> pop3_config result" where
  "pop3_config_of account label =
     rbind (ensure (get_or_none account ''imap'' = VNull \<and> get_or_none account ''gmail'' = VNull)
       (bad (label @ '' may not combine pop3 with another provider configuration''))) (\<lambda>u.
     rbind (mapping (get_or_none account ''pop3'') (label @ ''.pop3'')) (\<lambda>kvs.
     rbind (required_string kvs ''host'' (label @ ''.pop3'')) (\<lambda>host.
     rbind (int_in (get_or_none kvs ''port'') (\<lambda>i. 1 \<le> i \<and> i \<le> 65535) (label @ ''.pop3.port must be 1..65535'')) (\<lambda>port.
     rbind (pop3_tls (get_or_none kvs ''tls_mode'') label) (\<lambda>tls.
     rbind (ensure (tls = ''INSECURE_LOOPBACK'' \<longrightarrow> host \<in> set LOOPBACK)
       (bad (label @ ''.pop3 INSECURE_LOOPBACK host must be loopback''))) (\<lambda>u.
     rbind (int_in (dict_get_or kvs ''connection_timeout_seconds'' (VInt 30)) (\<lambda>i. 1 \<le> i \<and> i \<le> 300)
       (label @ ''.pop3.connection_timeout_seconds must be 1..300'')) (\<lambda>timeout.
     rbind (required_string kvs ''username'' (label @ ''.pop3'')) (\<lambda>user.
     Inr \<lparr>pc_host = host, pc_port = port, pc_username = user, pc_tls_mode = the (tls_mode_of tls),
       pc_connection_timeout_seconds = timeout\<rparr>))))))))"

section \<open>Backup repositories\<close>

definition ssh_reference :: "string \<Rightarrow> string \<Rightarrow> unit result" where
  "ssh_reference ref label =
     rbind (parse_ssh_url ref) (\<lambda>url.
     rbind (ensure (fst (host_info url) \<noteq> [] \<and> url_password url = None \<and>
         ur_query url = [] \<and> ur_fragment url = [])
       (bad (label @ ''.repository_ref must be a password-free ssh:// Borg URL''))) (\<lambda>u.
     rbind (case url_port url of
              Inl (ValueError m) \<Rightarrow> Inl (bad (label @ ''.repository_ref has an invalid ssh port''))
            | r \<Rightarrow> r) (\<lambda>port.
     rbind (ensure (case port of None \<Rightarrow> True | Some n \<Rightarrow> 1 \<le> n \<and> n \<le> 65535)
       (bad (label @ ''.repository_ref has an invalid ssh port''))) (\<lambda>u.
     ensure (ur_path url \<noteq> []) (bad (label @ ''.repository_ref must not embed a password''))))))"

definition local_reference :: "host \<Rightarrow> string \<Rightarrow> string \<Rightarrow> path \<Rightarrow> unit result" where
  "local_reference H ref label root_path =
     rbind (ensure (is_absolute (path_of ref))
       (bad (label @ ''.repository_ref must be an absolute path or ssh:// URL''))) (\<lambda>u.
     rbind (inside H (resolved H (path_of ref)) root_path) (\<lambda>b.
     ensure (\<not> b) (bad (label @ ''.repository_ref must be outside archive.root''))))"

fun encryption_of :: "string \<Rightarrow> encryption_mode option" where
  "encryption_of s =
     (if s = ''repokey'' then Some Repokey else if s = ''repokey-blake2'' then Some RepokeyBlake2
      else if s = ''none'' then Some NoEncryption else None)"

text \<open>\<^verbatim>\<open>[A-Za-z_][A-Za-z0-9_]*\<close>\<close>

definition variable_name :: "string \<Rightarrow> bool" where
  "variable_name s \<longleftrightarrow> (case s of [] \<Rightarrow> False
     | c # cs \<Rightarrow> (alnum c \<and> \<not> is_digit c \<or> c = CHR ''_'') \<and> list_all (\<lambda>x. alnum x \<or> x = CHR ''_'') cs)"

definition passphrase_of :: "pyval \<Rightarrow> string \<Rightarrow> string \<Rightarrow> string option result" where
  "passphrase_of v mode label =
     (if mode \<noteq> ''none''
      then (case v of
          VStr s \<Rightarrow> rbind (ensure (variable_name s)
            (bad (label @ ''.passphrase_env must name an environment variable''))) (\<lambda>u. Inr (Some s))
        | _ \<Rightarrow> Inl (bad (label @ ''.passphrase_env must name an environment variable'')))
      else rbind (ensure (v = VNull)
        (bad (label @ ''.passphrase_env is only valid for encrypted repositories''))) (\<lambda>u. Inr None))"

definition POLICY :: string where
  "POLICY = ''borg-archive-data-v1''"

definition repository_of :: "host \<Rightarrow> path \<Rightarrow> pyval \<times> pyval \<Rightarrow> backup_repository_config result" where
  "repository_of H root_path kv =
     rbind (account_name (fst kv)) (\<lambda>name. let label = ''backup.repositories.'' @ name in
     rbind (mapping (snd kv) label) (\<lambda>item.
     rbind (ensure (dict_get_or item ''kind'' (VStr ''borg'') = VStr ''borg'') (bad (label @ ''.kind must be borg''))) (\<lambda>u.
     rbind (required_string item ''repository_ref'' label) (\<lambda>ref.
     rbind (ensure (CHR 0x00 \<notin> set ref \<and> CHR 0x0D \<notin> set ref \<and> CHR 0x0A \<notin> set ref)
       (bad (label @ ''.repository_ref must not contain CR, LF, or NUL''))) (\<lambda>u.
     rbind (if starts_with ''ssh://'' ref then ssh_reference ref label
            else local_reference H ref label root_path) (\<lambda>u.
     rbind (required_string item ''encryption_mode'' label) (\<lambda>mode.
     rbind (ensure (encryption_of mode \<noteq> None) (bad (label @ ''.encryption_mode is unsupported''))) (\<lambda>u.
     rbind (passphrase_of (get_or_none item ''passphrase_env'') mode label) (\<lambda>env.
     rbind (int_in (dict_get_or item ''command_timeout_seconds'' (VInt 21600)) (\<lambda>i. 1 \<le> i \<and> i \<le> 86400)
       (label @ ''.command_timeout_seconds must be 1..86400'')) (\<lambda>timeout.
     rbind (ensure (dict_get_or item ''verification_policy'' (VStr POLICY) = VStr POLICY)
       (bad (label @ ''.verification_policy must be borg-archive-data-v1''))) (\<lambda>u.
     rbind (required_bool item ''enabled'' label True) (\<lambda>enabled.
     Inr \<lparr>br_name = name, br_enabled = enabled, br_repository_ref = ref,
       br_encryption_mode = the (encryption_of mode), br_passphrase_env = env,
       br_verification_policy = POLICY, br_command_timeout_seconds = timeout\<rparr>))))))))))))"

text \<open>A loop that appends one result for each entry, or raises.\<close>

fun each :: "('a \<Rightarrow> 'b result) \<Rightarrow> 'a list \<Rightarrow> 'b list result" where
  "each f [] = Inr []"
| "each f (x # xs) = rbind (f x) (\<lambda>y. rbind (each f xs) (\<lambda>ys. Inr (y # ys)))"

definition repositories_of :: "host \<Rightarrow> (pyval \<times> pyval) list \<Rightarrow> path \<Rightarrow> backup_repository_config list result" where
  "repositories_of H kvs root_path =
     rbind (mapping (dict_get_or kvs ''backup'' (VDict [])) ''backup'') (\<lambda>backup.
     rbind (mapping (dict_get_or backup ''repositories'' (VDict [])) ''backup.repositories'') (\<lambda>items.
     each (repository_of H root_path) items))"

section \<open>Accounts\<close>

fun provider_of :: "string \<Rightarrow> provider option" where
  "provider_of s = (if s = ''imap'' then Some Imap else if s = ''gmail'' then Some Gmail
     else if s = ''pop3'' then Some Pop3 else None)"

definition REMOTE_DELETION_DEFAULT :: bool where
  "REMOTE_DELETION_DEFAULT = False"

definition gmail_part :: "host \<Rightarrow> (pyval \<times> pyval) list \<Rightarrow> string \<Rightarrow> string \<Rightarrow> path \<Rightarrow> gmail_config result" where
  "gmail_part H account label ref root_path =
     rbind (ensure (starts_with ''file:'' ref) (bad (label @ ''.config_ref must use file: for Gmail''))) (\<lambda>u.
     rbind (absolute_secret_path H (drop 5 ref) (label @ ''.config_ref'') root_path) (\<lambda>p.
     gmail_config_of H account label root_path))"

definition account_of :: "host \<Rightarrow> path \<Rightarrow> int \<Rightarrow> int \<Rightarrow> pyval \<times> pyval \<Rightarrow> account_config result" where
  "account_of H root_path days backups kv =
     rbind (account_name (fst kv)) (\<lambda>name. let label = ''accounts.'' @ name in
     rbind (mapping (snd kv) label) (\<lambda>account.
     rbind (required_string account ''kind'' label) (\<lambda>kind.
     rbind (ensure (provider_of kind \<noteq> None) (bad (label @ ''.kind must be one of: imap, gmail, pop3''))) (\<lambda>u.
     rbind (required_bool account ''remote_deletion_enabled'' label REMOTE_DELETION_DEFAULT) (\<lambda>deletion.
     rbind (required_string account ''config_ref'' label) (\<lambda>ref.
     rbind (if kind = ''gmail'' then rbind (gmail_part H account label ref root_path) (\<lambda>g. Inr (Some g))
            else Inr None) (\<lambda>gmail.
     rbind (if kind = ''pop3'' then rbind (pop3_config_of account label) (\<lambda>c. Inr (Some c))
            else Inr None) (\<lambda>pop3.
     rbind (required_bool account ''enabled'' label True) (\<lambda>enabled.
     rbind (case dict_get account ''remote_retention_days'' of
              None \<Rightarrow> Inr (Some days) | Some v \<Rightarrow> config_retention_days v label) (\<lambda>retention.
     rbind (case dict_get account ''required_verified_backups'' of
              None \<Rightarrow> Inr backups
            | Some v \<Rightarrow> required_positive_int account ''required_verified_backups'' label) (\<lambda>required.
     rbind (if kind = ''imap'' then imap_config_of account label else Inr None) (\<lambda>imap.
     Inr \<lparr>ac_name = name, ac_kind = the (provider_of kind), ac_enabled = enabled,
       ac_remote_retention_days = retention, ac_remote_deletion_enabled = deletion,
       ac_required_verified_backups = required, ac_config_ref = ref, ac_imap = imap,
       ac_gmail = gmail, ac_pop3 = pop3\<rparr>))))))))))))"

section \<open>The document\<close>

text \<open>
  \<open>yaml.safe_load(path.read_text())\<close>: the file cannot be read, is not UTF-8, is not YAML, makes a
  constructor of the parser raise (an impossible date), or gives a value.
\<close>

datatype document = CannotRead | NotUtf8 | NotYaml | YamlRaises error | Document pyval

datatype zone_answer = KnownZone | ZoneNotFound | ZoneRaises error

fun read_document :: "document \<Rightarrow> string \<Rightarrow> pyval result" where
  "read_document CannotRead p = Inl (bad (''cannot read configuration: '' @ p))"
| "read_document NotUtf8 p = Inl UnicodeError"
| "read_document NotYaml p = Inl (bad ''configuration is not valid YAML'')"
| "read_document (YamlRaises e) p = Inl e"
| "read_document (Document v) p = Inr v"

fun zone_check :: "zone_answer \<Rightarrow> string \<Rightarrow> unit result" where
  "zone_check KnownZone tz = Inr ()"
| "zone_check ZoneNotFound tz = Inl (bad (''archive.timezone is invalid: '' @ tz))"
| "zone_check (ZoneRaises e) tz = Inl e"

definition default_days_of :: "(pyval \<times> pyval) list \<Rightarrow> int result" where
  "default_days_of kvs =
     rbind (config_retention_days (dict_get_or kvs ''remote_retention_days_default'' (VInt 365)) ''retention'') (\<lambda>d.
     case d of None \<Rightarrow> Inl (bad ''retention.remote_retention_days_default must not be never'') | Some n \<Rightarrow> Inr n)"

definition config_of :: "host \<Rightarrow> (string \<Rightarrow> zone_answer) \<Rightarrow> pyval \<Rightarrow> app_config result" where
  "config_of H Z raw =
     rbind (mapping raw ''configuration'') (\<lambda>kvs.
     rbind (mapping (get_or_none kvs ''archive'') ''archive'') (\<lambda>archive.
     rbind (mapping (get_or_none kvs ''database'') ''database'') (\<lambda>database.
     rbind (mapping (get_or_none kvs ''accounts'') ''accounts'') (\<lambda>entries.
     rbind (required_string archive ''timezone'' ''archive'') (\<lambda>tz.
     rbind (zone_check (Z tz) tz) (\<lambda>u.
     rbind (required_string archive ''root'' ''archive'') (\<lambda>root_text.
     rbind (mapping (dict_get_or kvs ''retention'' (VDict [])) ''retention'') (\<lambda>retention.
     rbind (default_days_of retention) (\<lambda>days.
     rbind (int_in (dict_get_or retention ''required_verified_backups_default'' (VInt 2)) (\<lambda>i. 1 \<le> i)
       ''retention.required_verified_backups_default must be a positive integer'') (\<lambda>backups.
     rbind (each (account_of H (path_of root_text) days backups) entries) (\<lambda>accounts.
     rbind (ensure (accounts \<noteq> []) (bad ''accounts must contain at least one account'')) (\<lambda>u.
     rbind (mapping (dict_get_or kvs ''remote_deletion'' (VDict [])) ''remote_deletion'') (\<lambda>deletion.
     rbind (int_in (dict_get_or deletion ''max_per_run'' (VInt 10)) (\<lambda>i. 1 \<le> i)
       ''remote_deletion.max_per_run must be a positive integer'') (\<lambda>per_run.
     rbind (int_in (dict_get_or deletion ''max_per_account'' (VInt 10)) (\<lambda>i. 1 \<le> i)
       ''remote_deletion.max_per_account must be a positive integer'') (\<lambda>per_account.
     rbind (required_string database ''path'' ''database'') (\<lambda>db_text.
     rbind (repositories_of H kvs (path_of root_text)) (\<lambda>repositories.
     Inr \<lparr>cf_archive_root = path_of root_text, cf_timezone = tz, cf_database_path = path_of db_text,
       cf_accounts = accounts, cf_backup_repositories = repositories,
       cf_retention = \<lparr>rc_remote_retention_days_default = days, rc_required_verified_backups_default = backups\<rparr>,
       cf_remote_deletion = \<lparr>rd_max_per_run = per_run, rd_max_per_account = per_account\<rparr>\<rparr>)))))))))))))))))"

definition load_config :: "host \<Rightarrow> (string \<Rightarrow> zone_answer) \<Rightarrow> document \<Rightarrow> string \<Rightarrow> app_config result" where
  "load_config H Z doc p = rbind (read_document doc p) (config_of H Z)"

section \<open>The summary shown to the operator\<close>

fun tls_mode_text :: "tls_mode \<Rightarrow> string" where
  "tls_mode_text IMAPS = ''IMAPS''"
| "tls_mode_text POP3S = ''POP3S''"
| "tls_mode_text STARTTLS = ''STARTTLS''"
| "tls_mode_text INSECURE_LOOPBACK = ''INSECURE_LOOPBACK''"

fun encryption_text :: "encryption_mode \<Rightarrow> string" where
  "encryption_text Repokey = ''repokey''"
| "encryption_text RepokeyBlake2 = ''repokey-blake2''"
| "encryption_text NoEncryption = ''none''"

definition or_null :: "('a \<Rightarrow> json) \<Rightarrow> 'a option \<Rightarrow> json" where
  "or_null f x = (case x of None \<Rightarrow> JNull | Some y \<Rightarrow> f y)"

definition display_imap :: "imap_config \<Rightarrow> json" where
  "display_imap c = JObj
     [(''host'', JStr (ic_host c)), (''port'', JInt (ic_port c)), (''username'', JStr (ic_username c)),
      (''tls_mode'', JStr (tls_mode_text (ic_tls_mode c))), (''folders'', JArr (map JStr (ic_folders c))),
      (''fast_path'', JObj
        [(''idle_enabled'', JBool (fp_idle_enabled (ic_fast_path c))),
         (''reconcile_interval_seconds'', JInt (fp_reconcile_interval_seconds (ic_fast_path c))),
         (''poll_interval_seconds'', JInt (fp_poll_interval_seconds (ic_fast_path c)))])]"

definition display_gmail :: "gmail_config \<Rightarrow> json" where
  "display_gmail c = JObj
     [(''account_email'', JStr (gc_account_email c)),
      (''oauth_client_secret_file'', JStr (path_str (gc_oauth_client_secret_file c))),
      (''poll_interval_seconds'', JInt (gc_poll_interval_seconds c))]"

definition display_pop3 :: "pop3_config \<Rightarrow> json" where
  "display_pop3 c = JObj
     [(''host'', JStr (pc_host c)), (''port'', JInt (pc_port c)), (''username'', JStr (pc_username c)),
      (''tls_mode'', JStr (tls_mode_text (pc_tls_mode c))),
      (''connection_timeout_seconds'', JInt (pc_connection_timeout_seconds c))]"

definition display_account :: "account_config \<Rightarrow> json" where
  "display_account a = JObj
     [(''name'', JStr (ac_name a)), (''kind'', JStr (provider_text (ac_kind a))),
      (''enabled'', JBool (ac_enabled a)),
      (''remote_retention_days'', or_null JInt (ac_remote_retention_days a)),
      (''remote_deletion_enabled'', JBool (ac_remote_deletion_enabled a)),
      (''required_verified_backups'', JInt (ac_required_verified_backups a)),
      (''config_ref'', JStr (redact_secret_reference (ac_config_ref a))),
      (''imap'', or_null display_imap (ac_imap a)),
      (''gmail'', or_null display_gmail (ac_gmail a)),
      (''pop3'', or_null display_pop3 (ac_pop3 a))]"

definition display_repository :: "backup_repository_config \<Rightarrow> json" where
  "display_repository b = JObj
     [(''name'', JStr (br_name b)), (''enabled'', JBool (br_enabled b)),
      (''repository_ref'', JStr (br_repository_ref b)),
      (''encryption_mode'', JStr (encryption_text (br_encryption_mode b))),
      (''passphrase_env'', or_null JStr (br_passphrase_env b)),
      (''verification_policy'', JStr (br_verification_policy b)),
      (''command_timeout_seconds'', JInt (br_command_timeout_seconds b))]"

definition display_config :: "app_config \<Rightarrow> json" where
  "display_config cfg = JObj
     [(''archive_root'', JStr (path_str (cf_archive_root cfg))), (''timezone'', JStr (cf_timezone cfg)),
      (''database_path'', JStr (path_str (cf_database_path cfg))),
      (''retention'', JObj
        [(''remote_retention_days_default'', JInt (rc_remote_retention_days_default (cf_retention cfg))),
         (''required_verified_backups_default'', JInt (rc_required_verified_backups_default (cf_retention cfg)))]),
      (''remote_deletion'', JObj
        [(''max_per_run'', JInt (rd_max_per_run (cf_remote_deletion cfg))),
         (''max_per_account'', JInt (rd_max_per_account (cf_remote_deletion cfg)))]),
      (''accounts'', JArr (map display_account (cf_accounts cfg))),
      (''backup_repositories'', JArr (map display_repository (cf_backup_repositories cfg)))]"

section \<open>What an accepted configuration guarantees\<close>

definition imap_ok :: "imap_config \<Rightarrow> bool" where
  "imap_ok c \<longleftrightarrow> 1 \<le> ic_port c \<and> ic_port c \<le> 65535 \<and> \<not> blank (ic_host c) \<and> \<not> blank (ic_username c) \<and>
     ic_tls_mode c \<noteq> POP3S \<and>
     (ic_tls_mode c = INSECURE_LOOPBACK \<longrightarrow> map lower_char (ic_host c) \<in> set LOOPBACK) \<and>
     ic_folders c \<noteq> [] \<and> distinct (ic_folders c) \<and>
     (\<forall>f \<in> set (ic_folders c). f \<noteq> [] \<and> CHR 0x0D \<notin> set f \<and> CHR 0x0A \<notin> set f) \<and>
     0 < ic_connection_timeout_seconds c \<and>
     60 \<le> fp_reconcile_interval_seconds (ic_fast_path c) \<and> fp_reconcile_interval_seconds (ic_fast_path c) \<le> 1740 \<and>
     60 \<le> fp_poll_interval_seconds (ic_fast_path c) \<and> fp_poll_interval_seconds (ic_fast_path c) \<le> 120"

definition pop3_ok :: "pop3_config \<Rightarrow> bool" where
  "pop3_ok c \<longleftrightarrow> 1 \<le> pc_port c \<and> pc_port c \<le> 65535 \<and> \<not> blank (pc_host c) \<and> \<not> blank (pc_username c) \<and>
     pc_tls_mode c \<noteq> IMAPS \<and> (pc_tls_mode c = INSECURE_LOOPBACK \<longrightarrow> pc_host c \<in> set LOOPBACK) \<and>
     1 \<le> pc_connection_timeout_seconds c \<and> pc_connection_timeout_seconds c \<le> 300"

definition gmail_ok :: "gmail_config \<Rightarrow> bool" where
  "gmail_ok c \<longleftrightarrow> \<not> blank (gc_account_email c) \<and> 60 \<le> gc_poll_interval_seconds c \<and> gc_poll_interval_seconds c \<le> 120"

definition settings_match :: "account_config \<Rightarrow> bool" where
  "settings_match a \<longleftrightarrow>
     (case ac_kind a of
        Imap \<Rightarrow> ac_gmail a = None \<and> ac_pop3 a = None \<and> (\<forall>c. ac_imap a = Some c \<longrightarrow> imap_ok c)
      | Gmail \<Rightarrow> ac_imap a = None \<and> ac_pop3 a = None \<and> (\<exists>c. ac_gmail a = Some c \<and> gmail_ok c) \<and>
          starts_with ''file:'' (ac_config_ref a)
      | Pop3 \<Rightarrow> ac_imap a = None \<and> ac_gmail a = None \<and> (\<exists>c. ac_pop3 a = Some c \<and> pop3_ok c))"

definition account_ok :: "account_config \<Rightarrow> bool" where
  "account_ok a \<longleftrightarrow> portable_name (ac_name a) \<and> \<not> blank (ac_config_ref a) \<and>
     (\<forall>d. ac_remote_retention_days a = Some d \<longrightarrow> 0 < d) \<and> 1 \<le> ac_required_verified_backups a \<and> settings_match a"

definition repository_ok :: "backup_repository_config \<Rightarrow> bool" where
  "repository_ok b \<longleftrightarrow> portable_name (br_name b) \<and>
     (br_encryption_mode b = NoEncryption \<longleftrightarrow> br_passphrase_env b = None) \<and>
     (\<forall>v. br_passphrase_env b = Some v \<longrightarrow> variable_name v) \<and>
     1 \<le> br_command_timeout_seconds b \<and> br_command_timeout_seconds b \<le> 86400"

definition config_ok :: "app_config \<Rightarrow> bool" where
  "config_ok cfg \<longleftrightarrow> cf_accounts cfg \<noteq> [] \<and> list_all account_ok (cf_accounts cfg) \<and>
     list_all repository_ok (cf_backup_repositories cfg) \<and>
     0 < rc_remote_retention_days_default (cf_retention cfg) \<and>
     1 \<le> rc_required_verified_backups_default (cf_retention cfg) \<and>
     1 \<le> rd_max_per_run (cf_remote_deletion cfg) \<and> 1 \<le> rd_max_per_account (cf_remote_deletion cfg)"

lemma tls_mode_of_values [simp]:
  "tls_mode_of ''IMAPS'' = Some IMAPS" "tls_mode_of ''POP3S'' = Some POP3S"
  "tls_mode_of ''STARTTLS'' = Some STARTTLS" "tls_mode_of ''INSECURE_LOOPBACK'' = Some INSECURE_LOOPBACK"
  by simp_all

lemma encryption_of_none: "encryption_of s = Some NoEncryption \<longleftrightarrow> s = ''none''"
  by simp

lemma provider_of_text: "provider_of s = Some k \<longleftrightarrow> s = provider_text k"
  by (cases k) auto

declare encryption_of.simps [simp del] provider_of.simps [simp del] tls_mode_of.simps [simp del]

lemma mapping_Inr: "mapping v label = Inr kvs \<longleftrightarrow> v = VDict kvs"
  by (auto simp: mapping_def split: pyval.split)

lemma required_string_Inr:
  "required_string kvs field label = Inr s \<longleftrightarrow> get_or_none kvs field = VStr s \<and> \<not> blank s"
  by (auto simp: required_string_def split: pyval.split)

lemma required_bool_Inr:
  "required_bool kvs field label d = Inr b \<longleftrightarrow> dict_get_or kvs field (VBool d) = VBool b"
  by (auto simp: required_bool_def split: pyval.split)

lemma int_in_Inr: "int_in v ok m = Inr i \<longleftrightarrow> v = VInt i \<and> ok i"
  by (auto simp: int_in_def split: pyval.split)

lemma config_retention_days_Inr:
  "config_retention_days v label = Inr d \<Longrightarrow> (\<forall>n. d = Some n \<longrightarrow> 0 < n)"
  by (auto simp: config_retention_days_def rbind_Inr int_in_Inr split: if_splits)

lemma portable_name_chars:
  "portable_name s \<Longrightarrow> c \<in> set s \<Longrightarrow> alnum c \<or> c = CHR ''_'' \<or> c = CHR ''.'' \<or> c = CHR ''-''"
  by (auto simp: portable_name_def list_all_iff split: list.splits)

lemma portable_name_no_slash:
  "portable_name s \<Longrightarrow> CHR ''/'' \<notin> set s \<and> CHR 0x5C \<notin> set s"
  using portable_name_chars [of s "CHR ''/''"] portable_name_chars [of s "CHR 0x5C"]
  by (auto simp: alnum_def is_digit_def)

lemma portable_name_not_dots: "portable_name s \<Longrightarrow> s \<noteq> [] \<and> s \<noteq> ''.'' \<and> s \<noteq> ''..''"
  by (auto simp: portable_name_def alnum_def is_digit_def)

lemma relative_name: "CHR ''/'' \<notin> set s \<Longrightarrow> \<not> is_absolute (path_of s)"
  by (cases s) (auto simp: is_absolute_def path_of_def path_root_def split_on_absent starts_with_def)

lemma account_name_Inr: "account_name v = Inr s \<longleftrightarrow> v = VStr s \<and> portable_name s"
  using portable_name_no_slash [of s] portable_name_not_dots [of s] relative_name [of s]
  by (auto simp: account_name_def rbind_Inr split: pyval.splits)

lemmas field_Inr = mapping_Inr required_string_Inr required_bool_Inr int_in_Inr account_name_Inr
  required_nonnegative_int_def required_positive_int_def rbind_Inr

lemma folders_of_Inr:
  "folders_of v label = Inr fs \<Longrightarrow> fs \<noteq> [] \<and> distinct fs \<and>
     (\<forall>f \<in> set fs. f \<noteq> [] \<and> CHR 0x0D \<notin> set f \<and> CHR 0x0A \<notin> set f)"
proof -
  assume "folders_of v label = Inr fs"
  then obtain l where l: "l \<noteq> []" "list_all folder_ok l" "distinct (map text_of l)" "fs = map text_of l"
    by (cases v) (auto simp: folders_of_def rbind_Inr)
  have "folder_ok x \<Longrightarrow> text_of x \<noteq> [] \<and> CHR 0x0D \<notin> set (text_of x) \<and> CHR 0x0A \<notin> set (text_of x)" for x
    by (cases x) (auto simp: folder_ok_def)
  with l show ?thesis by (auto simp: list_all_iff)
qed

lemma fast_path_of_Inr:
  "fast_path_of kvs label = Inr f \<Longrightarrow> 60 \<le> fp_reconcile_interval_seconds f \<and>
     fp_reconcile_interval_seconds f \<le> 1740 \<and> 60 \<le> fp_poll_interval_seconds f \<and> fp_poll_interval_seconds f \<le> 120"
  unfolding fast_path_of_def by (auto simp: field_Inr)

lemma imap_settings_ok:
  assumes "imap_settings kvs label = Inr c"
  shows "imap_ok c"
proof -
  obtain host port tls folders timeout fast user where
    facts: "\<not> blank host" "1 \<le> port" "port \<le> 65535" "tls \<in> {''IMAPS'', ''STARTTLS'', ''INSECURE_LOOPBACK''}"
    "tls = ''INSECURE_LOOPBACK'' \<longrightarrow> map lower_char host \<in> set LOOPBACK"
    "folders_of (dict_get_or kvs ''folders'' (VList [VStr ''INBOX''])) label = Inr folders"
    "(if dict_get kvs ''connection_timeout_seconds'' = None then Inr 60
            else required_nonnegative_int kvs ''connection_timeout_seconds'' (label @ ''.imap'')) = Inr timeout"
    "timeout \<noteq> 0" "fast_path_of kvs label = Inr fast" "\<not> blank user"
    and c: "c = \<lparr>ic_host = host, ic_port = port, ic_username = user, ic_tls_mode = the (tls_mode_of tls),
       ic_folders = folders, ic_connection_timeout_seconds = timeout, ic_fast_path = fast\<rparr>"
    using assms unfolding imap_settings_def rbind_Inr ensure_Inr required_string_Inr sum.inject
    by (elim exE conjE) (rule that; (assumption | erule sym))
  have "0 < timeout" using facts(7,8) by (auto simp: field_Inr split: if_splits)
  moreover have "ic_tls_mode c \<noteq> POP3S" "ic_tls_mode c = INSECURE_LOOPBACK \<longrightarrow> tls = ''INSECURE_LOOPBACK''"
    using facts(4) by (auto simp: c)
  ultimately show ?thesis
    using facts(1,2,3,5,10) folders_of_Inr [OF facts(6)] fast_path_of_Inr [OF facts(9)]
    unfolding imap_ok_def by (simp add: c)
qed

lemma imap_config_of_ok: "imap_config_of account label = Inr (Some c) \<Longrightarrow> imap_ok c"
  unfolding imap_config_of_def by (auto simp: rbind_Inr dest: imap_settings_ok split: if_splits)

lemma gmail_config_of_ok: "gmail_config_of H account label r = Inr c \<Longrightarrow> gmail_ok c"
  unfolding gmail_config_of_def gmail_ok_def rbind_Inr ensure_Inr by (auto simp: field_Inr)

lemma pop3_tls_Inr:
  "pop3_tls v label = Inr t \<longleftrightarrow> v = VStr t \<and> t \<in> {''POP3S'', ''STARTTLS'', ''INSECURE_LOOPBACK''}"
  by (auto simp: pop3_tls_def rbind_Inr split: pyval.splits)

lemma pop3_config_of_ok:
  assumes "pop3_config_of account label = Inr c"
  shows "pop3_ok c"
proof -
  obtain host port tls timeout user where
    facts: "\<not> blank host" "1 \<le> port" "port \<le> 65535" "tls \<in> {''POP3S'', ''STARTTLS'', ''INSECURE_LOOPBACK''}"
    "tls = ''INSECURE_LOOPBACK'' \<longrightarrow> host \<in> set LOOPBACK" "1 \<le> timeout" "timeout \<le> 300" "\<not> blank user"
    and c: "c = \<lparr>pc_host = host, pc_port = port, pc_username = user, pc_tls_mode = the (tls_mode_of tls),
       pc_connection_timeout_seconds = timeout\<rparr>"
    using assms unfolding pop3_config_of_def rbind_Inr ensure_Inr required_string_Inr int_in_Inr
      pop3_tls_Inr sum.inject
    by (elim exE conjE) (rule that; (assumption | erule sym))
  have "pc_tls_mode c \<noteq> IMAPS" "pc_tls_mode c = INSECURE_LOOPBACK \<longrightarrow> tls = ''INSECURE_LOOPBACK''"
    using facts(4) by (auto simp: c)
  then show ?thesis using facts(1,2,3,5,6,7,8) unfolding pop3_ok_def by (simp add: c)
qed

text \<open>The checks an accepted entry has passed, with the values they produced.\<close>

lemma account_of_E:
  assumes "account_of H root_path days backups kv = Inr a"
  obtains account kind where
    "fst kv = VStr (ac_name a)" "portable_name (ac_name a)" "snd kv = VDict account"
    "provider_of kind = Some (ac_kind a)"
    "dict_get_or account ''remote_deletion_enabled'' (VBool REMOTE_DELETION_DEFAULT) =
       VBool (ac_remote_deletion_enabled a)"
    "get_or_none account ''config_ref'' = VStr (ac_config_ref a)" "\<not> blank (ac_config_ref a)"
    "if kind = ''gmail'' then \<exists>g. ac_gmail a = Some g \<and>
         gmail_part H account (''accounts.'' @ ac_name a) (ac_config_ref a) root_path = Inr g
       else ac_gmail a = None"
    "if kind = ''pop3'' then \<exists>c. ac_pop3 a = Some c \<and>
         pop3_config_of account (''accounts.'' @ ac_name a) = Inr c
       else ac_pop3 a = None"
    "case dict_get account ''remote_retention_days'' of None \<Rightarrow> ac_remote_retention_days a = Some days
       | Some v \<Rightarrow> config_retention_days v (''accounts.'' @ ac_name a) = Inr (ac_remote_retention_days a)"
    "ac_required_verified_backups a = backups \<or> 1 \<le> ac_required_verified_backups a"
    "(if kind = ''imap'' then imap_config_of account (''accounts.'' @ ac_name a) else Inr None) = Inr (ac_imap a)"
proof -
  obtain name account kind deletion ref gmail pop3 enabled retention required imap where
    facts: "fst kv = VStr name" "portable_name name" "snd kv = VDict account" "provider_of kind \<noteq> None"
    "dict_get_or account ''remote_deletion_enabled'' (VBool REMOTE_DELETION_DEFAULT) = VBool deletion"
    "get_or_none account ''config_ref'' = VStr ref" "\<not> blank ref"
    "(if kind = ''gmail'' then rbind (gmail_part H account (''accounts.'' @ name) ref root_path) (\<lambda>g. Inr (Some g))
            else Inr None) = Inr gmail"
    "(if kind = ''pop3'' then rbind (pop3_config_of account (''accounts.'' @ name)) (\<lambda>c. Inr (Some c))
            else Inr None) = Inr pop3"
    "(case dict_get account ''remote_retention_days'' of
              None \<Rightarrow> Inr (Some days) | Some v \<Rightarrow> config_retention_days v (''accounts.'' @ name)) = Inr retention"
    "(case dict_get account ''required_verified_backups'' of
              None \<Rightarrow> Inr backups
            | Some v \<Rightarrow> required_positive_int account ''required_verified_backups'' (''accounts.'' @ name)) = Inr required"
    "(if kind = ''imap'' then imap_config_of account (''accounts.'' @ name) else Inr None) = Inr imap"
    and a: "a = \<lparr>ac_name = name, ac_kind = the (provider_of kind), ac_enabled = enabled,
       ac_remote_retention_days = retention, ac_remote_deletion_enabled = deletion,
       ac_required_verified_backups = required, ac_config_ref = ref, ac_imap = imap,
       ac_gmail = gmail, ac_pop3 = pop3\<rparr>"
    using assms unfolding account_of_def Let_def rbind_Inr ensure_Inr account_name_Inr mapping_Inr
      required_string_Inr required_bool_Inr sum.inject
    by (elim exE conjE) (rule that; (assumption | erule sym))
  from a have fields: "ac_name a = name" "ac_kind a = the (provider_of kind)"
    "ac_remote_retention_days a = retention" "ac_remote_deletion_enabled a = deletion"
    "ac_required_verified_backups a = required" "ac_config_ref a = ref" "ac_imap a = imap"
    "ac_gmail a = gmail" "ac_pop3 a = pop3"
    by simp_all
  show ?thesis
    by (rule that [of account kind]; use facts in \<open>simp add: fields rbind_Inr field_Inr split: if_splits option.splits; fail\<close>
        | (use facts in \<open>auto simp: fields rbind_Inr field_Inr split: if_splits option.splits\<close>))
qed

lemma account_of_ok:
  assumes days: "0 < days" and backups: "1 \<le> backups"
    and ok: "account_of H root_path days backups kv = Inr a"
  shows "account_ok a"
  using ok
proof (rule account_of_E)
  fix account kind
  assume kind: "provider_of kind = Some (ac_kind a)"
    and parts: "if kind = ''gmail'' then \<exists>g. ac_gmail a = Some g \<and>
         gmail_part H account (''accounts.'' @ ac_name a) (ac_config_ref a) root_path = Inr g
       else ac_gmail a = None"
    "if kind = ''pop3'' then \<exists>c. ac_pop3 a = Some c \<and>
         pop3_config_of account (''accounts.'' @ ac_name a) = Inr c
       else ac_pop3 a = None"
    "(if kind = ''imap'' then imap_config_of account (''accounts.'' @ ac_name a) else Inr None) = Inr (ac_imap a)"
    and retention: "case dict_get account ''remote_retention_days'' of None \<Rightarrow> ac_remote_retention_days a = Some days
       | Some v \<Rightarrow> config_retention_days v (''accounts.'' @ ac_name a) = Inr (ac_remote_retention_days a)"
    and rest: "portable_name (ac_name a)" "\<not> blank (ac_config_ref a)"
      "ac_required_verified_backups a = backups \<or> 1 \<le> ac_required_verified_backups a"
  from retention days have "\<forall>d. ac_remote_retention_days a = Some d \<longrightarrow> 0 < d"
    by (auto split: option.splits dest: config_retention_days_Inr)
  moreover have "settings_match a"
    using parts kind [unfolded provider_of_text] unfolding settings_match_def
    by (cases "ac_kind a") (auto simp: gmail_part_def rbind_Inr
        dest: imap_config_of_ok gmail_config_of_ok pop3_config_of_ok)
  ultimately show ?thesis using rest backups by (auto simp: account_ok_def)
qed

lemma passphrase_of_Inr:
  "passphrase_of v mode label = Inr env \<Longrightarrow> (env = None \<longleftrightarrow> mode = ''none'') \<and> (\<forall>x. env = Some x \<longrightarrow> variable_name x)"
  by (auto simp: passphrase_of_def rbind_Inr split: if_splits pyval.splits)

lemma repository_of_E:
  assumes "repository_of H root_path kv = Inr b"
  obtains item mode where
    "fst kv = VStr (br_name b)" "portable_name (br_name b)" "snd kv = VDict item"
    "if starts_with ''ssh://'' (br_repository_ref b)
       then ssh_reference (br_repository_ref b) (''backup.repositories.'' @ br_name b) = Inr ()
       else local_reference H (br_repository_ref b) (''backup.repositories.'' @ br_name b) root_path = Inr ()"
    "encryption_of mode = Some (br_encryption_mode b)"
    "passphrase_of (get_or_none item ''passphrase_env'') mode (''backup.repositories.'' @ br_name b) =
       Inr (br_passphrase_env b)"
    "1 \<le> br_command_timeout_seconds b" "br_command_timeout_seconds b \<le> 86400"
proof -
  obtain name item ref u mode env timeout enabled where
    facts: "fst kv = VStr name" "portable_name name" "snd kv = VDict item"
    "(if starts_with ''ssh://'' ref then ssh_reference ref (''backup.repositories.'' @ name)
      else local_reference H ref (''backup.repositories.'' @ name) root_path) = Inr u"
    "encryption_of mode \<noteq> None"
    "passphrase_of (get_or_none item ''passphrase_env'') mode (''backup.repositories.'' @ name) = Inr env"
    "1 \<le> timeout" "timeout \<le> 86400"
    and b: "b = \<lparr>br_name = name, br_enabled = enabled, br_repository_ref = ref,
       br_encryption_mode = the (encryption_of mode), br_passphrase_env = env,
       br_verification_policy = POLICY, br_command_timeout_seconds = timeout\<rparr>"
    using assms unfolding repository_of_def Let_def rbind_Inr ensure_Inr account_name_Inr mapping_Inr
      int_in_Inr sum.inject
    by (elim exE conjE) (rule that; (assumption | erule sym))
  show ?thesis by (rule that [of item mode]) (use facts in \<open>auto simp: b split: if_splits\<close>)
qed

lemma repository_of_ok:
  assumes "repository_of H root_path kv = Inr b"
  shows "repository_ok b"
  using assms
proof (rule repository_of_E)
  fix item mode
  assume mode: "encryption_of mode = Some (br_encryption_mode b)"
    and env: "passphrase_of (get_or_none item ''passphrase_env'') mode (''backup.repositories.'' @ br_name b) =
       Inr (br_passphrase_env b)"
    and rest: "portable_name (br_name b)" "1 \<le> br_command_timeout_seconds b" "br_command_timeout_seconds b \<le> 86400"
  from passphrase_of_Inr [OF env] rest mode encryption_of_none [of mode] show ?thesis
    by (auto simp: repository_ok_def)
qed

lemma each_Inr: "each f xs = Inr ys \<longleftrightarrow> list_all2 (\<lambda>x y. f x = Inr y) xs ys"
  by (induction f xs arbitrary: ys rule: each.induct)
    (auto simp: rbind_Inr list_all2_Cons1)

lemma each_all:
  assumes "each f xs = Inr ys" and "\<And>x y. f x = Inr y \<Longrightarrow> P y"
  shows "list_all P ys"
  using assms unfolding each_Inr by (induction rule: list_all2_induct) auto

lemma each_mem:
  assumes "each f xs = Inr ys" and "y \<in> set ys"
  obtains x where "x \<in> set xs" "f x = Inr y"
  using assms unfolding each_Inr by (induction rule: list_all2_induct) auto

lemma config_of_E:
  assumes "config_of H Z raw = Inr cfg"
  obtains kvs entries items root_text where
    "raw = VDict kvs" "get_or_none kvs ''accounts'' = VDict entries"
    "cf_archive_root cfg = path_of root_text" "Z (cf_timezone cfg) = KnownZone"
    "0 < rc_remote_retention_days_default (cf_retention cfg)"
    "1 \<le> rc_required_verified_backups_default (cf_retention cfg)"
    "each (account_of H (cf_archive_root cfg) (rc_remote_retention_days_default (cf_retention cfg))
       (rc_required_verified_backups_default (cf_retention cfg))) entries = Inr (cf_accounts cfg)"
    "cf_accounts cfg \<noteq> []"
    "1 \<le> rd_max_per_run (cf_remote_deletion cfg)" "1 \<le> rd_max_per_account (cf_remote_deletion cfg)"
    "each (repository_of H (cf_archive_root cfg)) items = Inr (cf_backup_repositories cfg)"
proof -
  obtain kvs entries tz u root_text retention days backups accounts per_run per_account db_text repositories where
    facts: "raw = VDict kvs" "get_or_none kvs ''accounts'' = VDict entries"
    "zone_check (Z tz) tz = Inr u" "default_days_of retention = Inr days" "1 \<le> backups"
    "each (account_of H (path_of root_text) days backups) entries = Inr accounts" "accounts \<noteq> []"
    "1 \<le> per_run" "1 \<le> per_account" "repositories_of H kvs (path_of root_text) = Inr repositories"
    and cfg: "cfg = \<lparr>cf_archive_root = path_of root_text, cf_timezone = tz, cf_database_path = path_of db_text,
       cf_accounts = accounts, cf_backup_repositories = repositories,
       cf_retention = \<lparr>rc_remote_retention_days_default = days, rc_required_verified_backups_default = backups\<rparr>,
       cf_remote_deletion = \<lparr>rd_max_per_run = per_run, rd_max_per_account = per_account\<rparr>\<rparr>"
    using assms unfolding config_of_def rbind_Inr ensure_Inr mapping_Inr required_string_Inr int_in_Inr sum.inject
    by (elim exE conjE) (rule that; (assumption | erule sym))
  obtain items where items: "each (repository_of H (path_of root_text)) items = Inr repositories"
    using facts(10) unfolding repositories_of_def rbind_Inr by blast
  have "Z tz = KnownZone" using facts(3) by (cases "Z tz") auto
  moreover have "0 < days"
    using facts(4) by (auto simp: default_days_of_def rbind_Inr dest: config_retention_days_Inr split: option.splits)
  ultimately show ?thesis
    using that [of kvs entries root_text items] facts items by (simp add: cfg)
qed

lemma load_config_Inr: "load_config H Z doc p = Inr cfg \<longleftrightarrow> (\<exists>v. doc = Document v \<and> config_of H Z v = Inr cfg)"
  by (cases doc) (simp_all add: load_config_def)

lemma inside_False:
  assumes "inside H (Inr q) r = Inr False" and "resolved H r = Inr r'"
  shows "\<not> is_prefix_of r' q"
  using assms by (simp add: inside_def)

lemma absolute_secret_path_Inr:
  assumes "absolute_secret_path H s label r = Inr p"
  shows "resolved H (path_of s) = Inr p" and "resolved H r = Inr r' \<Longrightarrow> \<not> is_prefix_of r' p"
  using assms by (auto simp: absolute_secret_path_def rbind_Inr dest: inside_False)

lemma display_account_hides:
  assumes "ac_config_ref a \<noteq> []" and "ref \<noteq> []"
  shows "display_account (a\<lparr>ac_config_ref := ref,
    ac_gmail := map_option (\<lambda>g. g\<lparr>gc_remote_delete_token_file := t\<rparr>) (ac_gmail a)\<rparr>) = display_account a"
  using assms by (cases "ac_gmail a")
    (simp_all add: display_account_def redact_secret_reference_def or_null_def display_gmail_def)

lemma names_are_keys:
  assumes "list_all2 (\<lambda>kv a. account_of H r d b kv = Inr a) kvs acs"
  shows "map fst kvs = map (VStr \<circ> ac_name) acs"
  using assms by (induction rule: list_all2_induct) (auto elim: account_of_E)

lemma account_of_deletion:
  assumes "account_of H r d b kv = Inr a"
  shows "fst kv = VStr (ac_name a) \<and> (\<exists>account. snd kv = VDict account \<and>
    (ac_remote_deletion_enabled a \<longleftrightarrow> dict_get account ''remote_deletion_enabled'' = Some (VBool True)))"
  using assms
  by (rule account_of_E) (auto simp: dict_get_or_def REMOTE_DELETION_DEFAULT_def split: option.splits)

lemma gmail_secrets:
  assumes "account_of H root_path days backups kv = Inr a" and "ac_gmail a = Some g"
    and r: "resolved H root_path = Inr r"
  shows "\<not> is_prefix_of r (gc_oauth_client_secret_file g) \<and>
     (\<exists>q. resolved H (path_of (drop 5 (ac_config_ref a))) = Inr q \<and> \<not> is_prefix_of r q \<and>
        (\<forall>t. gc_remote_delete_token_file g = Some t \<longrightarrow> t \<noteq> q \<and> \<not> is_prefix_of r t))"
  using assms(1)
proof (rule account_of_E)
  fix account kind
  assume ref: "get_or_none account ''config_ref'' = VStr (ac_config_ref a)"
    and "if kind = ''gmail'' then \<exists>g. ac_gmail a = Some g \<and>
         gmail_part H account (''accounts.'' @ ac_name a) (ac_config_ref a) root_path = Inr g
       else ac_gmail a = None"
  with assms(2) have part: "gmail_part H account (''accounts.'' @ ac_name a) (ac_config_ref a) root_path = Inr g"
    by (auto split: if_splits)
  then obtain q where scheme: "starts_with ''file:'' (ac_config_ref a)"
    and q: "absolute_secret_path H (drop 5 (ac_config_ref a)) ((''accounts.'' @ ac_name a) @ ''.config_ref'') root_path = Inr q"
    and g: "gmail_config_of H account (''accounts.'' @ ac_name a) root_path = Inr g"
    unfolding gmail_part_def rbind_Inr ensure_Inr by blast
  obtain kvs email secret client poll token u where
    facts: "absolute_secret_path H secret ((''accounts.'' @ ac_name a) @ ''.gmail.oauth_client_secret_file'') root_path = Inr client"
    "delete_token_of H (get_or_none kvs ''remote_delete_token_file'') (''accounts.'' @ ac_name a) root_path = Inr token"
    "(case (token, get_or_none account ''config_ref'') of
              (Some p, VStr ref) \<Rightarrow>
                if starts_with ''file:'' ref
                then rbind (resolved H (path_of (drop 5 ref))) (\<lambda>q. ensure (q \<noteq> p)
                  (bad ((''accounts.'' @ ac_name a) @ ''.gmail.remote_delete_token_file must differ from config_ref'')))
                else Inr ()
            | _ \<Rightarrow> Inr ()) = Inr u"
    and c: "g = \<lparr>gc_account_email = email, gc_oauth_client_secret_file = client,
       gc_poll_interval_seconds = poll, gc_remote_delete_token_file = token\<rparr>"
    using g unfolding gmail_config_of_def rbind_Inr [of _ _ g] ensure_Inr sum.inject
    by (elim exE conjE) (rule that; (assumption | erule sym))
  show ?thesis
    using facts ref scheme absolute_secret_path_Inr [OF q] absolute_secret_path_Inr [OF facts(1)] r
    by (auto simp: c rbind_Inr delete_token_of_def dest: absolute_secret_path_Inr(2) split: option.splits pyval.splits)
qed

lemma repository_outside:
  assumes "repository_of H root_path kv = Inr b" and r: "resolved H root_path = Inr r"
  shows "if starts_with ''ssh://'' (br_repository_ref b)
     then \<exists>u. parse_ssh_url (br_repository_ref b) = Inr u \<and> url_password u = None \<and> fst (host_info u) \<noteq> []
     else is_absolute (path_of (br_repository_ref b)) \<and>
       (\<forall>q. resolved H (path_of (br_repository_ref b)) = Inr q \<longrightarrow> \<not> is_prefix_of r q)"
  using assms(1)
proof (rule repository_of_E)
  assume "if starts_with ''ssh://'' (br_repository_ref b)
       then ssh_reference (br_repository_ref b) (''backup.repositories.'' @ br_name b) = Inr ()
       else local_reference H (br_repository_ref b) (''backup.repositories.'' @ br_name b) root_path = Inr ()"
  then show ?thesis
    using r by (auto simp: ssh_reference_def local_reference_def rbind_Inr dest: inside_False split: if_splits)
qed

section \<open>The exceptions of the loader\<close>

definition raises_in :: "error set \<Rightarrow> 'a result \<Rightarrow> bool" where
  "raises_in E m \<longleftrightarrow> (\<forall>e. m = Inl e \<longrightarrow> e \<in> E)"

lemma raises_in_Inr [simp, intro]: "raises_in E (Inr x)"
  by (simp add: raises_in_def)

lemma raises_in_Inl [simp]: "raises_in E (Inl e) \<longleftrightarrow> e \<in> E"
  by (simp add: raises_in_def)

lemma raises_in_rbind [intro]:
  "raises_in E m \<Longrightarrow> (\<And>x. m = Inr x \<Longrightarrow> raises_in E (f x)) \<Longrightarrow> raises_in E (rbind m f)"
  by (auto simp: raises_in_def rbind_Inl)

lemma raises_in_ensure [simp]: "raises_in E (ensure b e) \<longleftrightarrow> b \<or> e \<in> E"
  by (auto simp: raises_in_def)

lemma raises_in_mono: "raises_in E m \<Longrightarrow> E \<subseteq> E' \<Longrightarrow> raises_in E' m"
  by (auto simp: raises_in_def)

lemma raises_in_each:
  "(\<And>x. x \<in> set xs \<Longrightarrow> raises_in E (f x)) \<Longrightarrow> raises_in E (each f xs)"
  by (induction xs) auto

definition refusals :: "host \<Rightarrow> error set" where
  "refusals H = {e. (\<exists>m. e = ConfigError m) \<or> (e = OSError \<and> (\<exists>q. h_resolve H q = None)) \<or> (\<exists>m. e = ValueError m)}"

lemma bad_refusal [simp]: "bad m \<in> refusals H" "ConfigError m \<in> refusals H" "ValueError m \<in> refusals H"
  by (simp_all add: refusals_def bad_def)

lemma scalar_raises [simp, intro]:
  "raises_in (refusals H) (mapping v l)" "raises_in (refusals H) (required_string kvs f l)"
  "raises_in (refusals H) (required_bool kvs f l b)" "raises_in (refusals H) (int_in v ok l)"
  "raises_in (refusals H) (required_nonnegative_int kvs f l)"
  "raises_in (refusals H) (required_positive_int kvs f l)"
  "raises_in (refusals H) (config_retention_days v l)"
  "raises_in (refusals H) (account_name v)" "raises_in (refusals H) (folders_of v l)"
  by (auto simp: mapping_def required_string_def required_bool_def int_in_def
      required_nonnegative_int_def required_positive_int_def split: pyval.split)
    (auto simp: config_retention_days_def account_name_def folders_of_def int_in_def
      split: pyval.split intro!: raises_in_rbind)

lemma resolved_raises [simp, intro]: "raises_in (refusals H) (resolved H p)"
  by (auto simp: resolved_def refusals_def split: option.split)

lemma inside_raises [simp, intro]:
  assumes "raises_in (refusals H) p"
  shows "raises_in (refusals H) (inside H p r)"
proof -
  have "raises_in (refusals H) (rbind p (\<lambda>q. rbind (resolved H r) (\<lambda>r. Inr (is_prefix_of r q))))"
    using assms by (intro raises_in_rbind) simp_all
  moreover have "raises_in E (value_error_is v m)" if "raises_in E m" for E and v :: bool and m
    using that by (cases "(v, m)" rule: value_error_is.cases) simp_all
  ultimately show ?thesis by (simp add: inside_def)
qed

lemma secret_raises [simp, intro]: "raises_in (refusals H) (absolute_secret_path H s l r)"
  unfolding absolute_secret_path_def by (intro raises_in_rbind) simp_all

lemma imap_raises [simp, intro]: "raises_in (refusals H) (imap_config_of account l)"
  unfolding imap_config_of_def imap_settings_def fast_path_of_def
  by (simp, intro impI raises_in_rbind; simp)

lemma gmail_raises [simp, intro]: "raises_in (refusals H) (gmail_part H account l ref r)"
  unfolding gmail_part_def gmail_config_of_def delete_token_of_def
  by (intro raises_in_rbind; auto split: pyval.splits option.splits intro!: raises_in_rbind)

lemma url_port_raises: "url_port u = Inl e \<Longrightarrow> \<exists>m. e = ValueError m"
  by (auto simp: url_port_def rbind_Inl py_int_def split: option.splits if_splits)

lemma ssh_raises [simp, intro]: "raises_in (refusals H) (ssh_reference ref l)"
proof -
  have "raises_in (refusals H) (case url_port u of
      Inl (ValueError m) \<Rightarrow> Inl (bad (l @ ''.repository_ref has an invalid ssh port'')) | r \<Rightarrow> r)" for u
    by (cases "url_port u") (auto dest: url_port_raises)
  moreover have "raises_in (refusals H) (parse_ssh_url ref)"
    by (auto simp: parse_ssh_url_def Let_def split: prod.split)
  ultimately show ?thesis
    unfolding ssh_reference_def by (intro raises_in_rbind) auto
qed

lemma repository_raises [simp, intro]: "raises_in (refusals H) (repository_of H r kv)"
  unfolding repository_of_def Let_def local_reference_def passphrase_of_def
  by (intro raises_in_rbind; auto split: pyval.splits intro!: raises_in_rbind)

definition bad_tls_entry :: "pyval \<times> pyval \<Rightarrow> bool" where
  "bad_tls_entry kv \<longleftrightarrow> (\<exists>name account settings. kv = (VStr name, VDict account) \<and>
     get_or_none account ''kind'' = VStr ''pop3'' \<and> get_or_none account ''pop3'' = VDict settings \<and>
     \<not> hashable (get_or_none settings ''tls_mode''))"

definition tls_refusals :: "host \<Rightarrow> pyval \<times> pyval \<Rightarrow> error set" where
  "tls_refusals H kv = refusals H \<union> {e. e = TypeError \<and> bad_tls_entry kv}"

lemma tls_refusals_mono: "raises_in (refusals H) m \<Longrightarrow> raises_in (tls_refusals H kv) m"
  by (erule raises_in_mono) (simp add: tls_refusals_def)

lemma bad_tls_refusal [simp]: "bad m \<in> tls_refusals H kv" "refusals H \<subseteq> tls_refusals H kv"
  by (auto simp: tls_refusals_def)

lemma pop3_raises:
  assumes "fst kv = VStr name" "snd kv = VDict account" "get_or_none account ''kind'' = VStr ''pop3''"
  shows "raises_in (tls_refusals H kv) (pop3_config_of account l)"
proof -
  have "raises_in (tls_refusals H kv) (pop3_tls (get_or_none settings ''tls_mode'') l)"
    if "get_or_none account ''pop3'' = VDict settings" for settings
  proof (cases "hashable (get_or_none settings ''tls_mode'')")
    case True
    then have "raises_in (refusals H) (pop3_tls (get_or_none settings ''tls_mode'') l)"
      unfolding pop3_tls_def by (auto split: pyval.splits intro!: raises_in_rbind)
    then show ?thesis by (rule tls_refusals_mono)
  next
    case False
    moreover have "bad_tls_entry kv"
      unfolding bad_tls_entry_def using assms that False by (intro exI conjI; (assumption | simp add: prod_eq_iff))
    ultimately show ?thesis by (simp add: pop3_tls_def ensure_def tls_refusals_def)
  qed
  then show ?thesis
    unfolding pop3_config_of_def mapping_Inr
    by (intro raises_in_rbind) (auto simp: mapping_Inr intro: tls_refusals_mono)
qed

lemma account_raises: "raises_in (tls_refusals H kv) (account_of H r d b kv)"
proof -
  have "raises_in (tls_refusals H kv) (rbind (pop3_config_of account l) (\<lambda>c. Inr (Some c)))"
    if "account_name (fst kv) = Inr name" "mapping (snd kv) l' = Inr account"
      "required_string account ''kind'' l' = Inr ''pop3''" for account l l' name
    using that pop3_raises [of kv name account H l]
    by (intro raises_in_rbind) (simp_all add: account_name_Inr mapping_Inr required_string_Inr)
  then show ?thesis
    unfolding account_of_def Let_def
    by (intro raises_in_rbind) (auto split: option.split if_split
        intro: tls_refusals_mono intro!: raises_in_rbind)
qed

definition config_refusals :: "host \<Rightarrow> (string \<Rightarrow> zone_answer) \<Rightarrow> pyval \<Rightarrow> error set" where
  "config_refusals H Z raw = refusals H \<union> {e. \<exists>tz. Z tz = ZoneRaises e} \<union>
     {e. e = TypeError \<and> (\<exists>kvs entries kv. raw = VDict kvs \<and> get_or_none kvs ''accounts'' = VDict entries \<and>
        kv \<in> set entries \<and> bad_tls_entry kv)}"

lemma config_refusals_mono: "raises_in (refusals H) m \<Longrightarrow> raises_in (config_refusals H Z raw) m"
  by (erule raises_in_mono) (auto simp: config_refusals_def)

lemma bad_config_refusal [simp]: "bad m \<in> config_refusals H Z raw"
  by (simp add: config_refusals_def)

lemma config_raises: "raises_in (config_refusals H Z raw) (config_of H Z raw)"
proof -
  have "raises_in (config_refusals H Z raw) (each (account_of H r d b) entries)"
    if "raw = VDict kvs" "get_or_none kvs ''accounts'' = VDict entries" for kvs entries r d b
  proof (rule raises_in_each)
    fix kv assume "kv \<in> set entries"
    with that have "tls_refusals H kv \<subseteq> config_refusals H Z raw"
      by (cases kv) (auto simp: tls_refusals_def config_refusals_def)
    with account_raises show "raises_in (config_refusals H Z raw) (account_of H r d b kv)"
      by (rule raises_in_mono)
  qed
  moreover have "raises_in (config_refusals H Z raw) (zone_check (Z tz) tz)" for tz
    by (cases "Z tz") (auto simp: config_refusals_def)
  moreover have "raises_in (refusals H) (default_days_of kvs)" "raises_in (refusals H) (repositories_of H kvs r)" for kvs r
    unfolding default_days_of_def repositories_of_def
    by (intro raises_in_rbind raises_in_each; simp split: option.split)+
  ultimately show ?thesis
    unfolding config_of_def
    by (intro raises_in_rbind) (auto simp: mapping_Inr intro: config_refusals_mono)
qed

section \<open>The properties\<close>

text \<open>
  C30.  An accepted configuration is well formed: names are single portable components, each
  account's provider settings match its kind with ports, intervals and time-outs in range and the
  unencrypted mode only towards the own machine, limits and required backups are positive, an
  encrypted repository names its variable, the time zone exists; and as the keys of a mapping are
  distinct, so are the account names every other component looks up.
\<close>

theorem accepted_config_is_well_formed:
  assumes "load_config H Z doc p = Inr cfg"
  shows "config_ok cfg \<and> Z (cf_timezone cfg) = KnownZone \<and>
    (\<forall>kvs entries. doc = Document (VDict kvs) \<and> get_or_none kvs ''accounts'' = VDict entries \<and>
       distinct (map fst entries) \<longrightarrow> distinct (map ac_name (cf_accounts cfg)))"
proof -
  from assms obtain v where doc: "doc = Document v" and v: "config_of H Z v = Inr cfg"
    by (auto simp: load_config_Inr)
  from v show ?thesis
  proof (rule config_of_E)
    fix kvs entries items root_text
    assume raw: "v = VDict kvs" "get_or_none kvs ''accounts'' = VDict entries"
      and accounts: "each (account_of H (cf_archive_root cfg) (rc_remote_retention_days_default (cf_retention cfg))
       (rc_required_verified_backups_default (cf_retention cfg))) entries = Inr (cf_accounts cfg)"
      and repositories: "each (repository_of H (cf_archive_root cfg)) items = Inr (cf_backup_repositories cfg)"
      and rest: "Z (cf_timezone cfg) = KnownZone" "0 < rc_remote_retention_days_default (cf_retention cfg)"
        "1 \<le> rc_required_verified_backups_default (cf_retention cfg)" "cf_accounts cfg \<noteq> []"
        "1 \<le> rd_max_per_run (cf_remote_deletion cfg)" "1 \<le> rd_max_per_account (cf_remote_deletion cfg)"
    have "list_all account_ok (cf_accounts cfg)"
      using accounts by (rule each_all) (rule account_of_ok [OF rest(2,3)])
    moreover have "list_all repository_ok (cf_backup_repositories cfg)"
      using repositories by (rule each_all) (rule repository_of_ok)
    moreover have "map fst entries = map (VStr \<circ> ac_name) (cf_accounts cfg)"
      using accounts unfolding each_Inr by (rule names_are_keys)
    then have "distinct (map fst entries) \<longrightarrow> distinct (map ac_name (cf_accounts cfg))"
      by (simp add: distinct_map comp_inj_on_iff inj_on_def)
    ultimately show ?thesis using rest raw doc by (simp add: config_ok_def)
  qed
qed

text \<open>
  C31.  Secrets and backups stay outside the archive: for a Gmail account the client secret, the
  deletion token and the read-only credentials, with symbolic links resolved, are not under the
  archive root, and the deletion token is not the file of the read-only credentials; a backup
  repository is an \<open>ssh://\<close> reference with a host and without a password, or an absolute path that
  does not resolve to a place under the archive root.
\<close>

theorem secrets_and_backups_outside_archive:
  assumes "load_config H Z doc p = Inr cfg" and "resolved H (cf_archive_root cfg) = Inr r"
  shows "(\<forall>a \<in> set (cf_accounts cfg). \<forall>g. ac_gmail a = Some g \<longrightarrow>
        \<not> is_prefix_of r (gc_oauth_client_secret_file g) \<and>
        (\<exists>q. resolved H (path_of (drop 5 (ac_config_ref a))) = Inr q \<and> \<not> is_prefix_of r q \<and>
           (\<forall>t. gc_remote_delete_token_file g = Some t \<longrightarrow> t \<noteq> q \<and> \<not> is_prefix_of r t))) \<and>
    (\<forall>b \<in> set (cf_backup_repositories cfg).
        if starts_with ''ssh://'' (br_repository_ref b)
        then \<exists>u. parse_ssh_url (br_repository_ref b) = Inr u \<and> url_password u = None \<and> fst (host_info u) \<noteq> []
        else is_absolute (path_of (br_repository_ref b)) \<and>
          (\<forall>q. resolved H (path_of (br_repository_ref b)) = Inr q \<longrightarrow> \<not> is_prefix_of r q))"
proof -
  from assms(1) obtain v where "config_of H Z v = Inr cfg" by (auto simp: load_config_Inr)
  then show ?thesis
  proof (rule config_of_E)
    fix kvs entries items root_text
    assume accounts: "each (account_of H (cf_archive_root cfg) (rc_remote_retention_days_default (cf_retention cfg))
       (rc_required_verified_backups_default (cf_retention cfg))) entries = Inr (cf_accounts cfg)"
      and repositories: "each (repository_of H (cf_archive_root cfg)) items = Inr (cf_backup_repositories cfg)"
    have "\<not> is_prefix_of r (gc_oauth_client_secret_file g) \<and>
        (\<exists>q. resolved H (path_of (drop 5 (ac_config_ref a))) = Inr q \<and> \<not> is_prefix_of r q \<and>
           (\<forall>t. gc_remote_delete_token_file g = Some t \<longrightarrow> t \<noteq> q \<and> \<not> is_prefix_of r t))"
      if "a \<in> set (cf_accounts cfg)" "ac_gmail a = Some g" for a g
      using accounts that(1) by (rule each_mem) (rule gmail_secrets [OF _ that(2) assms(2)])
    moreover have "if starts_with ''ssh://'' (br_repository_ref b)
        then \<exists>u. parse_ssh_url (br_repository_ref b) = Inr u \<and> url_password u = None \<and> fst (host_info u) \<noteq> []
        else is_absolute (path_of (br_repository_ref b)) \<and>
          (\<forall>q. resolved H (path_of (br_repository_ref b)) = Inr q \<longrightarrow> \<not> is_prefix_of r q)"
      if "b \<in> set (cf_backup_repositories cfg)" for b
      using repositories that by (rule each_mem) (rule repository_outside [OF _ assms(2)])
    ultimately show ?thesis by simp
  qed
qed

text \<open>
  C32.  Deletion is never on by accident: the accounts are the entries of the document, in order, and
  an account has remote deletion enabled exactly when its entry says
  \<open>remote_deletion_enabled: true\<close>, a truth value; leaving the field out, or any other value, does not
  enable it.
\<close>

theorem deletion_needs_explicit_true:
  assumes "load_config H Z doc p = Inr cfg"
  shows "\<exists>kvs entries. doc = Document (VDict kvs) \<and> get_or_none kvs ''accounts'' = VDict entries \<and>
    list_all2 (\<lambda>kv a. fst kv = VStr (ac_name a) \<and>
      (\<exists>account. snd kv = VDict account \<and>
        (ac_remote_deletion_enabled a \<longleftrightarrow> dict_get account ''remote_deletion_enabled'' = Some (VBool True))))
      entries (cf_accounts cfg)"
proof -
  from assms obtain v where doc: "doc = Document v" and v: "config_of H Z v = Inr cfg"
    by (auto simp: load_config_Inr)
  from v show ?thesis
  proof (rule config_of_E)
    fix kvs entries items root_text
    assume raw: "v = VDict kvs" "get_or_none kvs ''accounts'' = VDict entries"
      and acs: "each (account_of H (cf_archive_root cfg) (rc_remote_retention_days_default (cf_retention cfg))
       (rc_required_verified_backups_default (cf_retention cfg))) entries = Inr (cf_accounts cfg)"
    show ?thesis
    proof (intro exI conjI)
      show "doc = Document (VDict kvs)" using doc raw by simp
      show "get_or_none kvs ''accounts'' = VDict entries" by (rule raw)
      show "list_all2 (\<lambda>kv a. fst kv = VStr (ac_name a) \<and>
        (\<exists>account. snd kv = VDict account \<and>
          (ac_remote_deletion_enabled a \<longleftrightarrow> dict_get account ''remote_deletion_enabled'' = Some (VBool True))))
        entries (cf_accounts cfg)"
        using acs [unfolded each_Inr] by (rule list_all2_mono) (rule account_of_deletion)
    qed
  qed
qed

text \<open>
  The summary shown to the operator does not depend on the references to credentials: two
  configurations that differ only in non-empty \<open>config_ref\<close> texts and in the place of the deletion
  token are displayed alike.
\<close>

theorem display_hides_credential_references:
  assumes "\<forall>a \<in> set (cf_accounts cfg). ac_config_ref a \<noteq> [] \<and> ref a \<noteq> []"
  shows "display_config (cfg\<lparr>cf_accounts := map (\<lambda>a. a\<lparr>ac_config_ref := ref a,
      ac_gmail := map_option (\<lambda>g. g\<lparr>gc_remote_delete_token_file := token a\<rparr>) (ac_gmail a)\<rparr>) (cf_accounts cfg)\<rparr>) =
    display_config cfg"
  using assms by (simp add: display_config_def display_account_hides)


end
