(* ===== verification/ConfigWitness.thy ===== *)
theory ConfigWitness
  imports Config Samples
begin

text \<open>Concrete documents on which the hypotheses of the configuration's properties hold.\<close>

definition sample_pop3_entry :: "pyval \<Rightarrow> pyval" where
  "sample_pop3_entry tls = VDict
     [(VStr ''kind'', VStr ''pop3''), (VStr ''config_ref'', VStr ''env:P''),
      (VStr ''remote_deletion_enabled'', VBool True), (VStr ''remote_retention_days'', VStr ''never''),
      (VStr ''pop3'', VDict [(VStr ''host'', VStr ''p''), (VStr ''port'', VInt 995),
         (VStr ''tls_mode'', tls), (VStr ''username'', VStr ''u'')])]"

definition sample_gmail_entry :: pyval where
  "sample_gmail_entry = VDict
     [(VStr ''kind'', VStr ''gmail''), (VStr ''config_ref'', VStr ''file:/s/r''),
      (VStr ''gmail'', VDict [(VStr ''account_email'', VStr ''e''),
         (VStr ''oauth_client_secret_file'', VStr ''/s/c''), (VStr ''remote_delete_token_file'', VStr ''/s/d'')])]"

definition sample_entries :: "pyval \<Rightarrow> (pyval \<times> pyval) list" where
  "sample_entries tls = [(VStr ''p'', sample_pop3_entry tls), (VStr ''g'', sample_gmail_entry)]"

definition sample_document :: "pyval \<Rightarrow> document" where
  "sample_document tls = Document (VDict
     [(VStr ''archive'', VDict [(VStr ''root'', VStr ''/a''), (VStr ''timezone'', VStr ''UTC'')]),
      (VStr ''database'', VDict [(VStr ''path'', VStr ''/d'')]),
      (VStr ''accounts'', VDict (sample_entries tls)),
      (VStr ''backup'', VDict [(VStr ''repositories'', VDict
         [(VStr ''b'', VDict [(VStr ''repository_ref'', VStr ''ssh://u@h:22/r''),
            (VStr ''encryption_mode'', VStr ''repokey''), (VStr ''passphrase_env'', VStr ''E'')])])])])"

definition sample_loaded :: app_config where
  "sample_loaded = projr (load_config sample_host (\<lambda>z. KnownZone) (sample_document (VStr ''POP3S'')) [])"

lemma sample_loads:
  "load_config sample_host (\<lambda>z. KnownZone) (sample_document (VStr ''POP3S'')) [] = Inr sample_loaded"
proof -
  have "\<not> isl (load_config sample_host (\<lambda>z. KnownZone) (sample_document (VStr ''POP3S'')) [])"
    by code_simp
  then show ?thesis unfolding sample_loaded_def by (cases "load_config sample_host (\<lambda>z. KnownZone) (sample_document (VStr ''POP3S'')) []") simp_all
qed

theorem accepted_config_is_well_formed_witness:
  "config_ok sample_loaded"
  using accepted_config_is_well_formed [OF sample_loads] by blast

theorem secrets_and_backups_outside_archive_witness:
  "\<not> is_prefix_of [''/'', ''a''] (gc_oauth_client_secret_file (the (ac_gmail (cf_accounts sample_loaded ! 1))))"
proof -
  have "resolved sample_host (cf_archive_root sample_loaded) = Inr [''/'', ''a'']" by code_simp
  from secrets_and_backups_outside_archive [OF sample_loads this]
  have outside: "a \<in> set (cf_accounts sample_loaded) \<Longrightarrow> ac_gmail a = Some g \<Longrightarrow>
     \<not> is_prefix_of [''/'', ''a''] (gc_oauth_client_secret_file g)" for a g
    by blast
  have "ac_kind (cf_accounts sample_loaded ! 1) = Gmail \<and> 1 < length (cf_accounts sample_loaded) \<and>
      \<not> Option.is_none (ac_gmail (cf_accounts sample_loaded ! 1))"
    by code_simp
  then show ?thesis by (intro outside) (auto simp: Option.is_none_def)
qed

theorem deletion_needs_explicit_true_witness:
  "length (cf_accounts sample_loaded) = 2"
proof -
  from deletion_needs_explicit_true [OF sample_loads] obtain kvs entries where
    doc: "sample_document (VStr ''POP3S'') = Document (VDict kvs)" "get_or_none kvs ''accounts'' = VDict entries"
    and len: "length entries = length (cf_accounts sample_loaded)"
    by (auto dest: list_all2_lengthD)
  from doc have "length entries = 2"
    by (auto simp: sample_document_def sample_entries_def get_or_none_def dict_get_or_def dict_get_def)
  with len show ?thesis by simp
qed

theorem display_hides_credential_references_witness:
  "display_config (sample_config\<lparr>cf_accounts := map (\<lambda>a. a\<lparr>ac_config_ref := ''other'',
      ac_gmail := map_option (\<lambda>g. g\<lparr>gc_remote_delete_token_file := None\<rparr>) (ac_gmail a)\<rparr>) (cf_accounts sample_config)\<rparr>) =
    display_config sample_config"
  by (rule display_hides_credential_references) (simp add: sample_config_def sample_account_config_def)

text \<open>A list of modes for a POP3 account: the failure is a \<open>TypeError\<close>, not a configuration error.\<close>

lemma unhashable_tls_mode:
  "load_config sample_host (\<lambda>z. KnownZone) (sample_document (VList [])) [] = Inl TypeError"
  by code_simp


end
