(* ===== verification/Disk.thy ===== *)
theory Disk
  imports Effects Inventory
begin

text \<open>
  The system calls of the ingestion and transition code.  Before every call the surroundings may
  act: the call fails (a write after some of its bytes), or another process creates a file at a free
  path.  What stands on disk and in the database after every call and every commit is recorded, so
  that a claim can speak of the state a crash at any moment leaves behind.  Flushing is visible
  only as a call that may fail; the loss of unflushed data is not modelled.
\<close>

section \<open>Calls\<close>

datatype os_event = Normal | Fault nat | Appears path bytes

record system =
  sy_event :: "nat \<Rightarrow> os_event"
  sy_name :: "nat \<Rightarrow> string"

record 'p disk =
  dk_calls :: nat
  dk_past :: "(fs \<times> db) list"
  dk_rest :: 'p

type_synonym 'p station = "'p disk world"

definition remember :: "'p station \<Rightarrow> 'p station" where
  "remember w = w\<lparr>w_net := (w_net w)\<lparr>dk_past := dk_past (w_net w) @ [(w_fs w, w_db w)]\<rparr>\<rparr>"

definition bump :: "'p station \<Rightarrow> 'p station" where
  "bump w = w\<lparr>w_net := (w_net w)\<lparr>dk_calls := Suc (dk_calls (w_net w))\<rparr>\<rparr>"

definition put_fs :: "fs \<Rightarrow> 'p station \<Rightarrow> 'p station" where
  "put_fs F w = remember (w\<lparr>w_fs := F\<rparr>)"

fun interfere :: "os_event \<Rightarrow> fs \<Rightarrow> fs" where
  "interfere (Appears p b) F = (if F p = None then F(p \<mapsto> RegFile b) else F)"
| "interfere e F = F"

text \<open>A call that returns a value and the files it leaves, or raises and leaves them; \<open>torn n\<close> is what
  a call that fails half-way leaves.\<close>

definition syscall :: "system \<Rightarrow> (nat \<Rightarrow> fs \<Rightarrow> fs) \<Rightarrow> (fs \<Rightarrow> (fs \<times> 'a) result) \<Rightarrow> ('p station, 'a) prog" where
  "syscall S torn f w =
     (let ev = sy_event S (dk_calls (w_net w)); F = interfere ev (w_fs w); v = bump (put_fs F w) in
      case ev of
        Fault n \<Rightarrow> (Inl OSError, put_fs (torn n F) v)
      | _ \<Rightarrow> (case f F of Inl e \<Rightarrow> (Inl e, v) | Inr (F', x) \<Rightarrow> (Inr x, put_fs F' v)))"

text \<open>\<open>exists()\<close> and \<open>is_file()\<close> answer \<open>False\<close> when the call fails.\<close>

definition query :: "system \<Rightarrow> (fs \<Rightarrow> bool) \<Rightarrow> ('p station, bool) prog" where
  "query S f w =
     (let ev = sy_event S (dk_calls (w_net w)); F = interfere ev (w_fs w); v = bump (put_fs F w) in
      (Inr (case ev of Fault n \<Rightarrow> False | _ \<Rightarrow> f F), v))"

definition exists_at :: "system \<Rightarrow> path \<Rightarrow> ('p station, bool) prog" where
  "exists_at S p = query S (\<lambda>F. file_exists F p)"

definition is_file_at :: "system \<Rightarrow> path \<Rightarrow> ('p station, bool) prog" where
  "is_file_at S p = query S (\<lambda>F. is_file F p)"

definition read_at :: "system \<Rightarrow> path \<Rightarrow> ('p station, bytes) prog" where
  "read_at S p = syscall S (\<lambda>n F. F)
     (\<lambda>F. case read_bytes F p of None \<Rightarrow> Inl OSError | Some b \<Rightarrow> Inr (F, b))"

text \<open>\<open>sha256_file\<close>\<close>

definition sha_at :: "system \<Rightarrow> host \<Rightarrow> path \<Rightarrow> ('p station, string) prog" where
  "sha_at S H p = seq (read_at S p) (\<lambda>b. ret (h_sha256 H b))"

definition parent :: "path \<Rightarrow> path" where
  "parent p = butlast p"

definition ancestors :: "path \<Rightarrow> path list" where
  "ancestors p = map (\<lambda>k. take k p) [1..<Suc (length p)]"

definition make_dir :: "path \<Rightarrow> fs \<Rightarrow> fs" where
  "make_dir p F = (if F p = None then F(p \<mapsto> Directory) else F)"

text \<open>\<open>mkdir(parents=True, exist_ok=True)\<close>\<close>

definition mkdirs :: "system \<Rightarrow> path \<Rightarrow> ('p station, unit) prog" where
  "mkdirs S p = syscall S (\<lambda>n. fold make_dir (take n (ancestors p)))
     (\<lambda>F. if list_all (\<lambda>q. F q = None \<or> F q = Some Directory) (ancestors p)
           then Inr (fold make_dir (ancestors p) F, ()) else Inl FileExistsError)"

text \<open>\<open>mkstemp\<close>: exclusive creation under a random name.\<close>

definition mkstemp :: "system \<Rightarrow> path \<Rightarrow> string \<Rightarrow> string \<Rightarrow> ('p station, path) prog" where
  "mkstemp S dir pre suf w =
     (let p = dir @ [pre @ sy_name S (dk_calls (w_net w)) @ suf] in
      syscall S (\<lambda>n F. F)
        (\<lambda>F. if F dir \<noteq> Some Directory then Inl OSError
              else if F p \<noteq> None then Inl FileExistsError
              else Inr (F(p \<mapsto> RegFile []), p)) w)"

text \<open>Writing, flushing and closing the open temporary file.\<close>

definition write_file :: "system \<Rightarrow> path \<Rightarrow> bytes \<Rightarrow> ('p station, unit) prog" where
  "write_file S p b = syscall S (\<lambda>n F. F(p \<mapsto> RegFile (take n b))) (\<lambda>F. Inr (F(p \<mapsto> RegFile b), ()))"

definition copy_file :: "system \<Rightarrow> path \<Rightarrow> path \<Rightarrow> ('p station, unit) prog" where
  "copy_file S src dst = seq (read_at S src) (write_file S dst)"

text \<open>\<open>os.link\<close>: never overwrites.\<close>

definition link :: "system \<Rightarrow> path \<Rightarrow> path \<Rightarrow> ('p station, unit) prog" where
  "link S src dst = syscall S (\<lambda>n F. F)
     (\<lambda>F. if \<not> is_file F src then Inl OSError
           else if F dst \<noteq> None then Inl FileExistsError
           else if F (parent dst) \<noteq> Some Directory then Inl OSError
           else Inr (F(dst := F src), ()))"

definition unlink :: "system \<Rightarrow> path \<Rightarrow> bool \<Rightarrow> ('p station, unit) prog" where
  "unlink S p missing_ok = syscall S (\<lambda>n F. F)
     (\<lambda>F. if F p = None then (if missing_ok then Inr (F, ()) else Inl OSError)
           else if F p = Some Directory then Inl OSError else Inr (F(p := None), ()))"

text \<open>Opening a directory and flushing it.\<close>

definition fsync_directory :: "system \<Rightarrow> path \<Rightarrow> ('p station, unit) prog" where
  "fsync_directory S p = syscall S (\<lambda>n F. F)
     (\<lambda>F. if F p = Some Directory then Inr (F, ()) else Inl OSError)"

text \<open>\<open>if not p.is_file() or sha256_file(p) != digest: raise IngestError(message)\<close>\<close>

definition expect_digest :: "system \<Rightarrow> host \<Rightarrow> path \<Rightarrow> string \<Rightarrow> string \<Rightarrow> ('p station, unit) prog" where
  "expect_digest S H p digest message =
     seq (is_file_at S p) (\<lambda>b.
     if b then seq (sha_at S H p) (\<lambda>s. require (s = digest) (IngestError message))
     else fail (IngestError message))"

text \<open>\<open>except BaseException: cleanup; raise\<close>\<close>

definition on_error :: "('s, 'a) prog \<Rightarrow> ('s, unit) prog \<Rightarrow> ('s, 'a) prog" where
  "on_error m c = attempt m (\<lambda>e. True) (\<lambda>e. seq c (\<lambda>u. fail e))"

text \<open>A reading of the clock, and a committed transaction.\<close>

definition clock :: "host \<Rightarrow> ('p station, string) prog" where
  "clock H w = (Inr (reading H w 0), tick 1 w)"

definition transaction :: "('p station, 'a) prog \<Rightarrow> ('p station, 'a) prog" where
  "transaction m = seq m (\<lambda>x. seq (write_state remember) (\<lambda>u. ret x))"

section \<open>Invariants of the files over a whole run\<close>

text \<open>\<open>always J\<close>: the files now and at every recorded moment satisfy \<open>J\<close>.\<close>

definition always :: "(fs \<Rightarrow> bool) \<Rightarrow> 'p station \<Rightarrow> bool" where
  "always J w \<longleftrightarrow> J (w_fs w) \<and> (\<forall>x \<in> set (dk_past (w_net w)). J (fst x))"

lemma always_now: "always J w \<Longrightarrow> J (w_fs w)"
  by (simp add: always_def)

lemma always_mono: "always J w \<Longrightarrow> (\<And>F. J F \<Longrightarrow> J' F) \<Longrightarrow> always J' w"
  by (auto simp: always_def)

lemma always_put_fs: "always J w \<Longrightarrow> J F \<Longrightarrow> always J (put_fs F w)"
  by (auto simp: always_def put_fs_def remember_def)

lemma always_same: "always J u \<Longrightarrow> w_fs v = w_fs u \<Longrightarrow> w_net v = w_net u \<Longrightarrow> always J v"
  by (simp add: always_def)

lemma always_bump [simp]: "always J (bump w) = always J w"
  by (simp add: always_def bump_def)

lemma always_remember [simp]: "always J (remember w) = always J w"
  by (auto simp: always_def remember_def)

lemma always_tick [simp]: "always J (tick n w) = always J w"
  by (simp add: always_def)

lemma always_commit [simp]: "always J (commit d n w) = always J w"
  by (simp add: always_def)

lemma world_of_disk [simp]:
  "w_fs (put_fs F w) = F" "w_db (put_fs F w) = w_db w" "w_tick (put_fs F w) = w_tick w"
  "w_fs (bump w) = w_fs w" "w_db (bump w) = w_db w" "w_tick (bump w) = w_tick w"
  "w_fs (remember w) = w_fs w" "w_db (remember w) = w_db w" "w_tick (remember w) = w_tick w"
  by (simp_all add: put_fs_def bump_def remember_def)

text \<open>
  The rule for a call: the invariant must survive interference and a torn call, and the
  postcondition hold of what the call computes.  \<open>K\<close> is what else is known before the call, stable
  under interference.
\<close>

definition stable :: "(fs \<Rightarrow> bool) \<Rightarrow> bool" where
  "stable J \<longleftrightarrow> (\<forall>F p n. J F \<longrightarrow> F p = None \<longrightarrow> J (F(p \<mapsto> n)))"

lemma stableD: "stable J \<Longrightarrow> J F \<Longrightarrow> F p = None \<Longrightarrow> J (F(p \<mapsto> n))"
  by (simp add: stable_def)

lemma stable_interfere: "stable J \<Longrightarrow> J F \<Longrightarrow> J (interfere e F)"
  by (cases e) (auto simp: stable_def)

lemma stable_dirs: "stable J \<Longrightarrow> J F \<Longrightarrow> J (fold make_dir ps F)"
  by (induction ps arbitrary: F) (auto simp: make_dir_def stable_def)

named_theorems stables \<open>facts about files that survive the creation of others\<close>

lemma stable_True [stables, simp]: "stable (\<lambda>F. b)"
  by (simp add: stable_def)

lemma stable_conj [stables]: "stable J \<Longrightarrow> stable K \<Longrightarrow> stable (\<lambda>F. J F \<and> K F)"
  by (auto simp: stable_def)

lemma stable_disj [stables]: "stable J \<Longrightarrow> stable K \<Longrightarrow> stable (\<lambda>F. J F \<or> K F)"
  by (auto simp: stable_def)

lemma stable_has [stables]: "stable (\<lambda>F. F p = Some n)"
  by (simp add: stable_def)

text \<open>A regular file with a given digest.\<close>

definition intact :: "host \<Rightarrow> string \<Rightarrow> path \<Rightarrow> fs \<Rightarrow> bool" where
  "intact H d p F \<longleftrightarrow> (case F p of Some (RegFile b) \<Rightarrow> h_sha256 H b = d | _ \<Rightarrow> False)"

lemma stable_intact [stables]: "stable (intact H d p)"
  by (auto simp: stable_def intact_def)

text \<open>Every regular file of \<open>F0\<close>, but possibly those in \<open>X\<close>, is still there unchanged.\<close>

definition keeps_files :: "fs \<Rightarrow> path set \<Rightarrow> fs \<Rightarrow> bool" where
  "keeps_files F0 X F \<longleftrightarrow> (\<forall>p b. p \<notin> X \<longrightarrow> F0 p = Some (RegFile b) \<longrightarrow> F p = Some (RegFile b))"

lemma stable_keeps [stables]: "stable (keeps_files F0 X)"
  by (auto simp: stable_def keeps_files_def)

lemma keeps_refl [simp]: "keeps_files F X F"
  by (simp add: keeps_files_def)

section \<open>Triples\<close>

text \<open>
  \<open>triple J K m Q E\<close>: from files satisfying \<open>K\<close>, with \<open>J\<close> always true so far, \<open>m\<close> keeps \<open>J\<close> true at every
  moment, leaves the database and the clock alone, and returns with \<open>Q\<close> or raises with \<open>E\<close>.
\<close>

definition triple ::
  "(fs \<Rightarrow> bool) \<Rightarrow> (fs \<Rightarrow> bool) \<Rightarrow> ('p station, 'a) prog \<Rightarrow> ('a \<Rightarrow> fs \<Rightarrow> bool) \<Rightarrow> (error \<Rightarrow> fs \<Rightarrow> bool) \<Rightarrow> bool" where
  "triple J K m Q E \<longleftrightarrow> (\<forall>w. always J w \<longrightarrow> K (w_fs w) \<longrightarrow>
     wp m (\<lambda>x u. always J u \<and> Q x (w_fs u) \<and> w_db u = w_db w \<and> w_tick u = w_tick w)
       (\<lambda>e u. always J u \<and> E e (w_fs u) \<and> w_db u = w_db w \<and> w_tick u = w_tick w) w)"

lemma tripleD:
  "triple J K m Q E \<Longrightarrow> always J w \<Longrightarrow> K (w_fs w) \<Longrightarrow>
     wp m (\<lambda>x u. always J u \<and> Q x (w_fs u) \<and> w_db u = w_db w \<and> w_tick u = w_tick w)
       (\<lambda>e u. always J u \<and> E e (w_fs u) \<and> w_db u = w_db w \<and> w_tick u = w_tick w) w"
  by (simp add: triple_def)

lemma triple_conseq:
  fixes m :: "('p station, 'a) prog"
  assumes "triple J K m Q E" and "\<And>F. J F \<Longrightarrow> K' F \<Longrightarrow> K F"
    and "\<And>x F. J F \<Longrightarrow> Q x F \<Longrightarrow> Q' x F" and "\<And>e F. J F \<Longrightarrow> E e F \<Longrightarrow> E' e F"
  shows "triple J K' m Q' E'"
  unfolding triple_def
proof (intro allI impI)
  fix w :: "'p station" assume w: "always J w" "K' (w_fs w)"
  show "wp m (\<lambda>x u. always J u \<and> Q' x (w_fs u) \<and> w_db u = w_db w \<and> w_tick u = w_tick w)
       (\<lambda>e u. always J u \<and> E' e (w_fs u) \<and> w_db u = w_db w \<and> w_tick u = w_tick w) w"
    by (rule wp_mono [OF tripleD [OF assms(1) w(1) assms(2) [OF always_now [OF w(1)] w(2)]]])
      (auto intro: assms(3,4) always_now)
qed

named_theorems triples \<open>rules for the commands\<close>

lemma triple_ret [triples]: "(\<And>F. J F \<Longrightarrow> K F \<Longrightarrow> Q x F) \<Longrightarrow> triple J K (ret x) Q E"
  by (simp add: triple_def wp_rules always_now)

lemma triple_fail [triples]: "(\<And>F. J F \<Longrightarrow> K F \<Longrightarrow> E e F) \<Longrightarrow> triple J K (fail e) Q E"
  by (simp add: triple_def wp_rules always_now)

lemma triple_require [triples]:
  "(\<And>F. J F \<Longrightarrow> K F \<Longrightarrow> b \<Longrightarrow> Q () F) \<Longrightarrow> (\<And>F. J F \<Longrightarrow> K F \<Longrightarrow> \<not> b \<Longrightarrow> E e F) \<Longrightarrow> triple J K (require b e) Q E"
  by (simp add: triple_def wp_rules always_now)

lemma triple_seq:
  fixes m :: "('p station, 'a) prog"
  assumes "triple J K m Q E" and "\<And>x. triple J (Q x) (f x) R E"
  shows "triple J K (seq m f) R E"
  unfolding triple_def wp_seq
proof (intro allI impI)
  fix w :: "'p station" assume w: "always J w" "K (w_fs w)"
  let ?R = "\<lambda>x u. always J u \<and> R x (w_fs u) \<and> w_db u = w_db w \<and> w_tick u = w_tick w"
  let ?E = "\<lambda>e u. always J u \<and> E e (w_fs u) \<and> w_db u = w_db w \<and> w_tick u = w_tick w"
  show "wp m (\<lambda>x. wp (f x) ?R ?E) ?E w"
  proof (rule wp_mono [OF tripleD [OF assms(1) w]])
    fix x and u :: "'p station" assume "always J u \<and> Q x (w_fs u) \<and> w_db u = w_db w \<and> w_tick u = w_tick w"
    then show "wp (f x) ?R ?E u" using tripleD [OF assms(2), of u x] by simp
  qed simp
qed

lemma triple_if [triples]:
  "(b \<Longrightarrow> triple J K m Q E) \<Longrightarrow> (\<not> b \<Longrightarrow> triple J K n Q E) \<Longrightarrow> triple J K (if b then m else n) Q E"
  by simp

lemma triple_attempt:
  fixes m :: "('p station, 'a) prog"
  assumes "triple J K m Q E0" and "\<And>e. C e \<Longrightarrow> triple J (E0 e) (h e) Q E"
    and "\<And>e F. J F \<Longrightarrow> E0 e F \<Longrightarrow> \<not> C e \<Longrightarrow> E e F"
  shows "triple J K (attempt m C h) Q E"
  unfolding triple_def wp_attempt
proof (intro allI impI)
  fix w :: "'p station" assume w: "always J w" "K (w_fs w)"
  let ?Q = "\<lambda>x u. always J u \<and> Q x (w_fs u) \<and> w_db u = w_db w \<and> w_tick u = w_tick w"
  let ?E = "\<lambda>e u. always J u \<and> E e (w_fs u) \<and> w_db u = w_db w \<and> w_tick u = w_tick w"
  show "wp m ?Q (\<lambda>e. if C e then wp (h e) ?Q ?E else ?E e) w"
  proof (rule wp_mono [OF tripleD [OF assms(1) w]])
    fix e and u :: "'p station" assume u: "always J u \<and> E0 e (w_fs u) \<and> w_db u = w_db w \<and> w_tick u = w_tick w"
    show "(if C e then wp (h e) ?Q ?E else ?E e) u"
      using u tripleD [OF assms(2), of e u] assms(3) [of "w_fs u" e] always_now [of J u] by auto
  qed simp
qed

lemma triple_finalize:
  fixes m :: "('p station, 'a) prog"
  assumes "triple J K m Q E0" and "\<And>x. triple J (Q x) c (\<lambda>u. R x) E" and "\<And>e. triple J (E0 e) c (\<lambda>u. E e) E"
  shows "triple J K (finalize m c) R E"
  unfolding triple_def wp_finalize
proof (intro allI impI)
  fix w :: "'p station" assume w: "always J w" "K (w_fs w)"
  let ?R = "\<lambda>x u. always J u \<and> R x (w_fs u) \<and> w_db u = w_db w \<and> w_tick u = w_tick w"
  let ?E = "\<lambda>e u. always J u \<and> E e (w_fs u) \<and> w_db u = w_db w \<and> w_tick u = w_tick w"
  show "wp m (\<lambda>x. wp c (\<lambda>u. ?R x) ?E) (\<lambda>e. wp c (\<lambda>u. ?E e) ?E) w"
  proof (rule wp_mono [OF tripleD [OF assms(1) w]])
    fix x and u :: "'p station" assume "always J u \<and> Q x (w_fs u) \<and> w_db u = w_db w \<and> w_tick u = w_tick w"
    then show "wp c (\<lambda>u. ?R x) ?E u" using tripleD [OF assms(2), of u x] by simp
  next
    fix e and u :: "'p station" assume "always J u \<and> E0 e (w_fs u) \<and> w_db u = w_db w \<and> w_tick u = w_tick w"
    then show "wp c (\<lambda>u. ?E e) ?E u" using tripleD [OF assms(3), of u e] by simp
  qed
qed

lemma triple_syscall:
  assumes J: "stable J" and K: "stable K"
    and torn: "\<And>n F. J F \<Longrightarrow> K F \<Longrightarrow> J (torn n F) \<and> E OSError (torn n F)"
    and bad: "\<And>F e. J F \<Longrightarrow> K F \<Longrightarrow> f F = Inl e \<Longrightarrow> E e F"
    and good: "\<And>F F' x. J F \<Longrightarrow> K F \<Longrightarrow> f F = Inr (F', x) \<Longrightarrow> J F' \<and> Q x F'"
  shows "triple J K (syscall S torn f :: ('p station, 'a) prog) Q E"
  unfolding triple_def
proof (intro allI impI)
  fix w :: "'p station" assume w: "always J w" "K (w_fs w)"
  let ?ev = "sy_event S (dk_calls (w_net w))"
  let ?F = "interfere ?ev (w_fs w)"
  have now: "J ?F" "K ?F"
    using stable_interfere [OF J] stable_interfere [OF K] always_now [OF w(1)] w(2) by auto
  have v: "always J (bump (put_fs ?F w))" using w(1) now(1) by (simp add: always_put_fs)
  have fault: "always J (put_fs (torn n ?F) (bump (put_fs ?F w))) \<and> E OSError (torn n ?F)" for n
    using torn [OF now] v by (simp add: always_put_fs)
  have norm: "case f ?F of Inl e \<Rightarrow> E e ?F
     | Inr (F', x) \<Rightarrow> always J (put_fs F' (bump (put_fs ?F w))) \<and> Q x F'"
    using good [OF now] bad [OF now] v by (auto simp: always_put_fs split: sum.split prod.split)
  show "wp (syscall S torn f) (\<lambda>x u. always J u \<and> Q x (w_fs u) \<and> w_db u = w_db w \<and> w_tick u = w_tick w)
      (\<lambda>e u. always J u \<and> E e (w_fs u) \<and> w_db u = w_db w \<and> w_tick u = w_tick w) w"
    using fault norm v unfolding wp_def syscall_def Let_def
    by (cases ?ev) (auto split: sum.splits prod.splits)
qed

lemma triple_query:
  assumes J: "stable J" and K: "stable K" and Q: "\<And>F b. J F \<Longrightarrow> K F \<Longrightarrow> (b \<Longrightarrow> f F) \<Longrightarrow> Q b F"
  shows "triple J K (query S f :: ('p station, bool) prog) Q E"
  unfolding triple_def
proof (intro allI impI)
  fix w :: "'p station" assume w: "always J w" "K (w_fs w)"
  let ?ev = "sy_event S (dk_calls (w_net w))"
  let ?F = "interfere ?ev (w_fs w)"
  have now: "J ?F" "K ?F"
    using stable_interfere [OF J] stable_interfere [OF K] always_now [OF w(1)] w(2) by auto
  have "always J (bump (put_fs ?F w))" using w(1) now(1) by (simp add: always_put_fs)
  then show "wp (query S f) (\<lambda>x u. always J u \<and> Q x (w_fs u) \<and> w_db u = w_db w \<and> w_tick u = w_tick w)
      (\<lambda>e u. always J u \<and> E e (w_fs u) \<and> w_db u = w_db w \<and> w_tick u = w_tick w) w"
    using Q [OF now] unfolding wp_def query_def Let_def by (cases ?ev) auto
qed

section \<open>Rules for the calls\<close>

lemma triple_exists [triples]: "stable J \<Longrightarrow> stable K \<Longrightarrow> triple J K (exists_at S p) (\<lambda>b. K) E"
  unfolding exists_at_def by (rule triple_query)

lemma triple_is_file [triples]: "stable J \<Longrightarrow> stable K \<Longrightarrow> triple J K (is_file_at S p) (\<lambda>b. K) E"
  unfolding is_file_at_def by (rule triple_query)

lemma triple_read [triples]:
  assumes "stable J" "stable K" "\<And>F e. J F \<Longrightarrow> K F \<Longrightarrow> E e F"
  shows "triple J K (read_at S p) (\<lambda>b F. K F \<and> F p = Some (RegFile b)) E"
  unfolding read_at_def
  by (rule triple_syscall) (use assms in \<open>auto simp: read_bytes_def split: option.splits node.splits\<close>)

lemma triple_sha [triples]:
  assumes "stable J" "stable K" "\<And>F e. J F \<Longrightarrow> K F \<Longrightarrow> E e F"
  shows "triple J K (sha_at S H p) (\<lambda>d F. K F \<and> intact H d p F) E"
  unfolding sha_at_def
  by (rule triple_seq [OF triple_read [OF assms]]) (auto simp: intact_def intro: triples)

lemma triple_expect [triples]:
  assumes "stable J" "stable K" "\<And>F e. J F \<Longrightarrow> K F \<Longrightarrow> E e F"
  shows "triple J K (expect_digest S H p d m) (\<lambda>u F. K F \<and> intact H d p F) E"
  unfolding expect_digest_def
proof (rule triple_seq [OF triple_is_file], (rule assms)+, rule triple_if)
  show "triple J K (seq (sha_at S H p) (\<lambda>s. require (s = d) (IngestError m))) (\<lambda>u F. K F \<and> intact H d p F) E"
    by (rule triple_seq [OF triple_sha [OF assms]]) (auto intro: triples assms(3))
  show "triple J K (fail (IngestError m)) (\<lambda>u F. K F \<and> intact H d p F) E"
    by (rule triple_fail) (rule assms(3))
qed

lemma triple_mkdirs [triples]:
  assumes "stable J" "stable K" "\<And>F e. J F \<Longrightarrow> K F \<Longrightarrow> E e F"
  shows "triple J K (mkdirs S p) (\<lambda>u. K) E"
  unfolding mkdirs_def
  by (rule triple_syscall) (use assms in \<open>auto simp: stable_dirs split: if_splits\<close>)

lemma triple_fsync [triples]:
  assumes "stable J" "stable K" "\<And>F e. J F \<Longrightarrow> K F \<Longrightarrow> E e F"
  shows "triple J K (fsync_directory S p) (\<lambda>u. K) E"
  unfolding fsync_directory_def
  by (rule triple_syscall) (use assms in \<open>auto split: if_splits\<close>)

lemma triple_mkstemp:
  assumes "stable J" "stable K" "\<And>F e. J F \<Longrightarrow> K F \<Longrightarrow> E e F"
    and "\<And>F F' x n. J F \<Longrightarrow> K F \<Longrightarrow> F (dir @ [pre @ x @ suf]) = None \<Longrightarrow>
      F' = F(dir @ [pre @ x @ suf] \<mapsto> RegFile []) \<Longrightarrow> J F' \<Longrightarrow> K F' \<Longrightarrow> Q (dir @ [pre @ x @ suf]) F'"
  shows "triple J K (mkstemp S dir pre suf :: ('p station, path) prog) Q E"
proof -
  have "triple J K (syscall S (\<lambda>n F. F)
        (\<lambda>F. if F dir \<noteq> Some Directory then Inl OSError
              else if F (dir @ [pre @ x @ suf]) \<noteq> None then Inl FileExistsError
              else Inr (F(dir @ [pre @ x @ suf] \<mapsto> RegFile []), dir @ [pre @ x @ suf])) :: ('p station, path) prog) Q E" for x
    by (rule triple_syscall) (use assms in \<open>auto simp: stable_def split: if_splits\<close>)
  note this [unfolded triple_def wp_def, rule_format]
  then show ?thesis unfolding triple_def wp_def mkstemp_def Let_def by simp
qed

lemma triple_write:
  assumes "stable J" "stable K" "\<And>F c. J F \<Longrightarrow> K F \<Longrightarrow> J (F(p \<mapsto> RegFile c)) \<and> E OSError (F(p \<mapsto> RegFile c))"
    and "\<And>F. J F \<Longrightarrow> K F \<Longrightarrow> Q () (F(p \<mapsto> RegFile b))"
  shows "triple J K (write_file S p b) Q E"
  unfolding write_file_def by (rule triple_syscall) (use assms in auto)

lemma triple_link:
  assumes "stable J" "stable K" "\<And>F e. J F \<Longrightarrow> K F \<Longrightarrow> E e F"
  shows "triple J K (link S src dst) (\<lambda>u F. K F \<and> F dst = F src) E"
  unfolding link_def
  by (rule triple_syscall) (use assms in \<open>auto simp: is_file_def stable_def split: if_splits option.splits\<close>)

lemma triple_unlink:
  assumes "stable J" "stable K" "\<And>F e. J F \<Longrightarrow> K F \<Longrightarrow> E e F"
    and "\<And>F. J F \<Longrightarrow> K F \<Longrightarrow> J (F(p := None)) \<and> Q () (F(p := None))"
  shows "triple J K (unlink S p missing) Q E"
  unfolding unlink_def
proof (rule triple_syscall)
  fix F F' x assume F: "J F" "K F" and run: "(if F p = None then if missing then Inr (F, ()) else Inl OSError
        else if F p = Some Directory then Inl OSError else Inr (F(p := None), ())) = Inr (F', x)"
  then have "F' = F(p := None)" by (auto simp: fun_upd_idem split: if_splits)
  with assms(4) [OF F] show "J F' \<and> Q x F'" by simp
qed (use assms in \<open>auto split: if_splits\<close>)

end
