(* ===== verification/Ingest.thy ===== *)
theory Ingest
  imports Disk Config
begin

text \<open>
  \<open>ingest.py\<close>: admission of exact message bytes into the staging Maildir and their registration.
  The email parser of the standard library is a parameter; what the code does with its answers,
  exceptions included, is modelled.  The lemmas show that admission never alters a file that is
  already there, at no moment, and that a returned message is stored with intact bytes.
\<close>

section \<open>Metadata\<close>

text \<open>
  A header of a parsed message: absent, a text, or (when its bytes are not ASCII) an
  \<open>email.header.Header\<close> object, which is not a string.  A parsed date is a wall-clock time in
  microseconds with its offset from UTC, or has no time zone.
\<close>

datatype header = NoHeader | HeaderText string | HeaderObject

datatype parsed_date = Zoned int int | Unzoned

record mail_parser =
  mp_headers :: "bytes \<Rightarrow> (header \<times> header) result"
  mp_date :: "string \<Rightarrow> parsed_date result"

fun parse_failure :: "error \<Rightarrow> bool" where
  "parse_failure TypeError = True"
| "parse_failure (ValueError m) = True"
| "parse_failure UnicodeError = True"
| "parse_failure e = False"

fun date_failure :: "error \<Rightarrow> bool" where
  "date_failure IndexError = True"
| "date_failure OverflowError = True"
| "date_failure e = parse_failure e"

definition datetime_min :: int where
  "datetime_min = - 62135596800000000"

text \<open>\<open>astimezone(UTC).isoformat()\<close>: outside the range of \<open>datetime\<close> it raises.\<close>

definition utc_text :: "host \<Rightarrow> int \<Rightarrow> int \<Rightarrow> string result" where
  "utc_text H t offset =
     (if datetime_min \<le> t - offset \<and> t - offset \<le> datetime_max then Inr (h_isoformat H (t - offset))
      else Inl OverflowError)"

definition message_date_of :: "host \<Rightarrow> mail_parser \<Rightarrow> header \<Rightarrow> string option result" where
  "message_date_of H M h =
     (case h of
        NoHeader \<Rightarrow> Inr None
      | HeaderObject \<Rightarrow> Inl AttributeError
      | HeaderText s \<Rightarrow>
          if s = [] then Inr None
          else (case mp_date M s of
              Inl e \<Rightarrow> if date_failure e then Inr None else Inl e
            | Inr Unzoned \<Rightarrow> Inr None
            | Inr (Zoned t offset) \<Rightarrow> rbind (utc_text H t offset) (\<lambda>x. Inr (Some x))))"

definition metadata :: "host \<Rightarrow> mail_parser \<Rightarrow> bytes \<Rightarrow> (header \<times> string option) result" where
  "metadata H M raw =
     (case mp_headers M raw of
        Inl e \<Rightarrow> if parse_failure e then Inr (NoHeader, None) else Inl e
      | Inr (mid, date) \<Rightarrow> rbind (message_date_of H M date) (\<lambda>d. Inr (mid, d)))"

section \<open>Canonical files\<close>

definition eml :: "string \<Rightarrow> string" where
  "eml sha = sha @ ''.eml''"

fun is_value_error :: "error \<Rightarrow> bool" where
  "is_value_error (ValueError m) = True"
| "is_value_error e = False"

text \<open>\<open>_maildir_path\<close>\<close>

definition maildir_path :: "host \<Rightarrow> path \<Rightarrow> string \<Rightarrow> string \<Rightarrow> path result" where
  "maildir_path H root_path name sha =
     rbind (resolved H (root_path @ [''staging''])) (\<lambda>mail.
     let destination = mail @ [name, ''cur'', eml sha] in
     case resolved H destination of
       Inl e \<Rightarrow> Inl (if is_value_error e then IngestError ''canonical path escapes the archive mail root'' else e)
     | Inr q \<Rightarrow> if is_prefix_of mail q then Inr destination
                else Inl (IngestError ''canonical path escapes the archive mail root''))"

definition mismatch :: "path \<Rightarrow> string" where
  "mismatch p = ''canonical path exists but does not match expected bytes: '' @ path_str p"

definition write_and_link :: "system \<Rightarrow> host \<Rightarrow> path \<Rightarrow> path \<Rightarrow> bytes \<Rightarrow> string \<Rightarrow> ('p station, unit) prog" where
  "write_and_link S H temporary destination raw sha =
     seq (write_file S temporary raw) (\<lambda>u.
     seq (attempt (link S temporary destination) (\<lambda>e. e = FileExistsError)
       (\<lambda>e. expect_digest S H destination sha (mismatch destination))) (\<lambda>u.
     seq (fsync_directory S (parent destination)) (\<lambda>u.
     unlink S temporary False)))"

definition create_canonical_file :: "system \<Rightarrow> host \<Rightarrow> path \<Rightarrow> bytes \<Rightarrow> string \<Rightarrow> ('p station, unit) prog" where
  "create_canonical_file S H destination raw sha =
     (let maildir = parent (parent destination) in
      seq (mkdirs S (parent destination)) (\<lambda>u.
      seq (mkdirs S (maildir @ [''tmp''])) (\<lambda>u.
      seq (mkdirs S (maildir @ [''new''])) (\<lambda>u.
      seq (exists_at S destination) (\<lambda>e.
      if e then expect_digest S H destination sha (mismatch destination)
      else seq (mkstemp S (maildir @ [''tmp'']) (sha @ ''.'') ''.tmp'') (\<lambda>temporary.
        on_error (write_and_link S H temporary destination raw sha) (unlink S temporary True)))))))"

section \<open>Admission\<close>

text \<open>\<open>verify_canonical_message\<close>\<close>

definition verify_canonical_message :: "system \<Rightarrow> host \<Rightarrow> canonical_message \<Rightarrow> ('p station, bool) prog" where
  "verify_canonical_message S H m =
     seq (is_file_at S (cm_local_path m)) (\<lambda>b.
     if b then seq (sha_at S H (cm_local_path m)) (\<lambda>d. ret (d = cm_sha256 m)) else ret False)"

definition staged_message :: "int \<Rightarrow> string \<Rightarrow> path \<Rightarrow> bytes \<Rightarrow> string option \<Rightarrow> string option \<Rightarrow> string \<Rightarrow> canonical_message" where
  "staged_message aid sha destination raw mid date now =
     \<lparr>cm_id = int_text aid @ '':'' @ sha, cm_account_id = aid, cm_sha256 = sha,
      cm_local_path = destination, cm_size_bytes = int (length raw), cm_message_id_header = mid,
      cm_message_date = date, cm_downloaded_at = now, cm_archived_at = None,
      cm_integrity_status = ''verified'', cm_integrity_verified_at = Some now, cm_created_at = now,
      cm_storage_state = Pending, cm_quarantined_at = None\<rparr>"

text \<open>The \<open>message_id\<close> of the audit details: a header object is not serialisable.\<close>

fun header_text :: "header \<Rightarrow> string option result" where
  "header_text NoHeader = Inr None"
| "header_text (HeaderText s) = Inr (Some s)"
| "header_text HeaderObject = Inl TypeError"

definition reuse_message :: "system \<Rightarrow> host \<Rightarrow> int \<Rightarrow> string \<Rightarrow> string \<Rightarrow> canonical_message \<Rightarrow>
    ('p station, canonical_message \<times> bool) prog" where
  "reuse_message S H aid sha kind existing =
     seq (verify_canonical_message S H existing) (\<lambda>ok.
     seq (require ok (IngestError ''existing canonical record is missing or fails its SHA-256 check'')) (\<lambda>u.
     transaction (register_canonical_message H existing aid ''ingest.succeeded''
       (json_text [(''sha256'', JStr sha), (''source_kind'', JStr kind)]))))"

definition admit_message :: "system \<Rightarrow> host \<Rightarrow> app_config \<Rightarrow> string \<Rightarrow> int \<Rightarrow> bytes \<Rightarrow> string \<Rightarrow> header \<Rightarrow>
    string option \<Rightarrow> string \<Rightarrow> ('p station, canonical_message \<times> bool) prog" where
  "admit_message S H cfg name aid raw sha mid date kind =
     seq (lift_result (maildir_path H (cf_archive_root cfg) name sha)) (\<lambda>destination.
     seq (create_canonical_file S H destination raw sha) (\<lambda>u.
     seq (clock H) (\<lambda>now.
     seq (lift_result (header_text mid)) (\<lambda>m.
     seq (transaction (register_canonical_message H (staged_message aid sha destination raw m date now)
       aid ''ingest.succeeded'' (json_text
         [(''sha256'', JStr sha), (''source_kind'', JStr kind), (''message_id'', json_opt m)]))) (\<lambda>stored.
     seq (verify_canonical_message S H (fst stored)) (\<lambda>ok.
     seq (require ok (IngestError ''canonical file is missing or fails its SHA-256 check after registration'')) (\<lambda>u.
     ret stored)))))))"

definition ingest_bytes :: "system \<Rightarrow> host \<Rightarrow> mail_parser \<Rightarrow> app_config \<Rightarrow> bytes \<Rightarrow> string \<Rightarrow> string \<Rightarrow>
    ('p station, canonical_message \<times> bool) prog" where
  "ingest_bytes S H M cfg raw name kind =
     (case config_account cfg name of
        None \<Rightarrow> fail (IngestError (''unknown account: '' @ name))
      | Some a \<Rightarrow>
          let sha = h_sha256 H raw in
          seq (require (ac_enabled a) (IngestError (''account is disabled: '' @ name))) (\<lambda>u.
          seq (lift_result (metadata H M raw)) (\<lambda>meta.
          seq (transaction (initialize H (cf_accounts cfg) [])) (\<lambda>u.
          seq (read_state (\<lambda>w. account_id (w_db w) name)) (\<lambda>found.
          case found of
            None \<Rightarrow> fail (IngestError (''account is not active in local state: '' @ name))
          | Some aid \<Rightarrow>
              seq (read_state (\<lambda>w. canonical_message_by_account_and_sha256 (w_db w) aid sha)) (\<lambda>existing.
              case existing of
                Some m \<Rightarrow> reuse_message S H aid sha kind m
              | None \<Rightarrow> admit_message S H cfg name aid raw sha (fst meta) (snd meta) kind))))))"

text \<open>\<open>Path.suffix\<close>: leading dots do not count.\<close>

definition suffix_of :: "path \<Rightarrow> string" where
  "suffix_of p = (if p = [] then [] else
     case cut_last CHR ''.'' (dropWhile (\<lambda>c. c = CHR ''.'') (last p)) of
       (None, _) \<Rightarrow> [] | (Some _, s) \<Rightarrow> CHR ''.'' # s)"

section \<open>Admission keeps every file\<close>

lemma temporary_name: "last (dir @ [pre @ x @ ''.tmp'']) = eml sha \<Longrightarrow> False"
proof -
  assume "last (dir @ [pre @ x @ ''.tmp'']) = eml sha"
  then have "last (pre @ x @ ''.tmp'') = last (eml sha)" by simp
  then show False by (simp add: eml_def)
qed

text \<open>A path at which the files to keep have no regular file may be written and removed.\<close>

lemma keeps_upd: "keeps_files F0 X F \<Longrightarrow> p \<in> X \<or> (\<forall>b. F0 p \<noteq> Some (RegFile b)) \<Longrightarrow> keeps_files F0 X (F(p := n))"
  by (auto simp: keeps_files_def)

lemma keeps_free: "keeps_files F0 X F \<Longrightarrow> F p = None \<Longrightarrow> p \<in> X \<or> (\<forall>b. F0 p \<noteq> Some (RegFile b))"
  by (auto simp: keeps_files_def)

lemma intact_upd: "p \<noteq> q \<Longrightarrow> intact H d q (F(p := n)) = intact H d q F"
  by (simp add: intact_def)

lemma triple_write_and_link:
  assumes "t \<noteq> destination" and free: "\<forall>b. F0 t \<noteq> Some (RegFile b)" and sha: "h_sha256 H raw = sha"
  shows "triple (keeps_files F0 {}) (\<lambda>F. True) (write_and_link S H t destination raw sha)
    (\<lambda>u F. intact H sha destination F) (\<lambda>e F. True)"
  unfolding write_and_link_def
proof (rule triple_seq)
  show "triple (keeps_files F0 {}) (\<lambda>F. True) (write_file S t raw) (\<lambda>u F. F t = Some (RegFile raw)) (\<lambda>e F. True)"
    by (rule triple_write) (simp_all add: stables keeps_upd free)
  show "triple (keeps_files F0 {}) (\<lambda>F. F t = Some (RegFile raw))
     (seq (attempt (link S t destination) (\<lambda>e. e = FileExistsError) (\<lambda>e. expect_digest S H destination sha (mismatch destination)))
       (\<lambda>u. seq (fsync_directory S (parent destination)) (\<lambda>u. unlink S t False)))
     (\<lambda>u F. intact H sha destination F) (\<lambda>e F. True)"
  proof (rule triple_seq)
    show "triple (keeps_files F0 {}) (\<lambda>F. F t = Some (RegFile raw))
       (attempt (link S t destination) (\<lambda>e. e = FileExistsError) (\<lambda>e. expect_digest S H destination sha (mismatch destination)))
       (\<lambda>u F. intact H sha destination F) (\<lambda>e F. True)"
    proof (rule triple_attempt)
      show "triple (keeps_files F0 {}) (\<lambda>F. F t = Some (RegFile raw)) (link S t destination)
         (\<lambda>u F. intact H sha destination F) (\<lambda>e F. True)"
        by (rule triple_conseq [OF triple_link [where K = "\<lambda>F. F t = Some (RegFile raw)" and E = "\<lambda>e F. True"]])
          (simp_all add: stables intact_def sha)
      show "triple (keeps_files F0 {}) (\<lambda>F. True) (expect_digest S H destination sha (mismatch destination))
         (\<lambda>u F. intact H sha destination F) (\<lambda>e F. True)"
        by (rule triple_conseq [OF triple_expect [where K = "\<lambda>F. True" and E = "\<lambda>e F. True"]]) (simp_all add: stables)
    qed simp
    show "triple (keeps_files F0 {}) (\<lambda>F. intact H sha destination F)
       (seq (fsync_directory S (parent destination)) (\<lambda>u. unlink S t False)) (\<lambda>u F. intact H sha destination F) (\<lambda>e F. True)"
      by (rule triple_seq [OF triple_fsync triple_unlink])
        (simp_all add: stables keeps_upd free intact_upd assms(1))
  qed
qed

lemma triple_create:
  fixes S :: system
  assumes last: "last destination = eml sha" and sha: "h_sha256 H raw = sha"
  shows "triple (keeps_files F0 {}) (\<lambda>F. True) (create_canonical_file S H destination raw sha)
    (\<lambda>u F. intact H sha destination F) (\<lambda>e F. True)"
proof -
  let ?J = "keeps_files F0 {}"
  let ?tmp = "parent (parent destination) @ [''tmp'']"
  have made: "triple ?J (\<lambda>F. True) (mkdirs S p) (\<lambda>u F. True) (\<lambda>e F. True)" for p
    by (rule triple_mkdirs) (simp_all add: stables)
  have asked: "triple ?J (\<lambda>F. True) (exists_at S destination) (\<lambda>e F. True) (\<lambda>e F. True)"
    by (rule triple_exists) (simp_all add: stables)
  have expected: "triple ?J (\<lambda>F. True) (expect_digest S H destination sha (mismatch destination))
      (\<lambda>u F. intact H sha destination F) (\<lambda>e F. True)"
    by (rule triple_conseq [OF triple_expect [where K = "\<lambda>F. True" and E = "\<lambda>e F. True"]]) (simp_all add: stables)
  have named: "triple ?J (\<lambda>F. True) (mkstemp S ?tmp (sha @ ''.'') ''.tmp'')
      (\<lambda>t F. t \<noteq> destination \<and> (\<forall>b. F0 t \<noteq> Some (RegFile b))) (\<lambda>e F. True)"
  proof (rule triple_mkstemp)
    fix F F' x n
    assume "?J F" "F (?tmp @ [(sha @ ''.'') @ x @ ''.tmp'']) = None"
    moreover have "?tmp @ [(sha @ ''.'') @ x @ ''.tmp''] \<noteq> destination"
      using temporary_name [of ?tmp "sha @ ''.''" x sha] last by metis
    ultimately show "?tmp @ [(sha @ ''.'') @ x @ ''.tmp''] \<noteq> destination \<and>
        (\<forall>b. F0 (?tmp @ [(sha @ ''.'') @ x @ ''.tmp'']) \<noteq> Some (RegFile b))"
      using keeps_free by fastforce
  qed (simp_all add: stables)
  have written: "triple ?J (\<lambda>F. t \<noteq> destination \<and> (\<forall>b. F0 t \<noteq> Some (RegFile b)))
      (on_error (write_and_link S H t destination raw sha) (unlink S t True))
      (\<lambda>u F. intact H sha destination F) (\<lambda>e F. True)" for t
  proof (cases "t \<noteq> destination \<and> (\<forall>b. F0 t \<noteq> Some (RegFile b))")
    case True
    have "triple ?J (\<lambda>F. True) (on_error (write_and_link S H t destination raw sha) (unlink S t True))
        (\<lambda>u F. intact H sha destination F) (\<lambda>e F. True)"
      unfolding on_error_def
    proof (rule triple_attempt [OF triple_write_and_link])
      fix e :: error
      show "triple ?J (\<lambda>F. True) (seq (unlink S t True) (\<lambda>u. fail e)) (\<lambda>u F. intact H sha destination F) (\<lambda>e F. True)"
        by (rule triple_seq [OF triple_unlink [where Q = "\<lambda>u F. True"] triple_fail])
          (use True in \<open>simp_all add: stables keeps_upd\<close>)
    qed (use True sha in auto)
    then show ?thesis by (rule triple_conseq) simp_all
  next
    case False
    then show ?thesis unfolding triple_def by blast
  qed
  show ?thesis
    unfolding create_canonical_file_def Let_def
    by (rule triple_seq [OF made triple_seq [OF made triple_seq [OF made triple_seq [OF asked triple_if]]]])
      (rule expected, rule triple_seq [OF named written])
qed

section \<open>What is stored\<close>

lemma wp_transaction: "wp (transaction m) Q E = wp m (\<lambda>x u. Q x (remember u)) E"
  unfolding transaction_def wp_seq wp_write wp_ret ..

lemma wp_clock: "wp (clock H) Q E w = Q (reading H w 0) (tick 1 w)"
  by (simp add: wp_def clock_def)

lemma wp_initialize:
  assumes "\<And>u. w_fs u = w_fs w \<Longrightarrow> w_net u = w_net w \<Longrightarrow>
      canonical_messages (w_db u) = canonical_messages (w_db w) \<Longrightarrow> Q () u" and "E IntegrityError w"
  shows "wp (initialize H a r) Q E w"
  using assms by (auto simp: wp_def initialize_def Let_def)

lemma wp_register:
  assumes "\<And>stored created u ms. w_fs u = w_fs w \<Longrightarrow> w_net u = w_net w \<Longrightarrow>
      canonical_messages (w_db u) = canonical_messages (w_db w) @ ms \<Longrightarrow>
      stored \<in> set (canonical_messages (w_db u)) \<Longrightarrow> cm_sha256 stored = cm_sha256 m \<Longrightarrow>
      (\<And>x. canonical_message_by_account_and_sha256 (w_db w) (cm_account_id m) (cm_sha256 m) = Some x \<Longrightarrow> stored = x) \<Longrightarrow>
      Q (stored, created) u"
    and "E IntegrityError w"
  shows "wp (register_canonical_message H m aid ev details) Q E w"
proof (cases "canonical_message_by_account_and_sha256 (w_db w) (cm_account_id m) (cm_sha256 m)")
  case None
  then show ?thesis
    unfolding wp_def register_canonical_message_def Let_def None
    using assms(2) by (auto intro!: assms(1) [where ms = "[m]"] simp: None)
next
  case (Some stored)
  then have "stored \<in> set (canonical_messages (w_db w)) \<and> cm_account_id stored = cm_account_id m \<and>
      cm_sha256 stored = cm_sha256 m"
    unfolding canonical_message_by_account_and_sha256_def by (drule_tac find_mem) simp
  then show ?thesis
    unfolding wp_def register_canonical_message_def Let_def Some
    by simp (rule assms(1) [where ms = "[]"]; use Some in simp)
qed

lemma triple_verify:
  assumes "stable J" "stable K"
  shows "triple J K (verify_canonical_message S H m)
    (\<lambda>ok F. K F \<and> (ok \<longrightarrow> intact H (cm_sha256 m) (cm_local_path m) F)) (\<lambda>e F. True)"
  unfolding verify_canonical_message_def
proof (rule triple_seq [OF triple_is_file], (rule assms)+, rule triple_if)
  show "triple J K (seq (sha_at S H (cm_local_path m)) (\<lambda>d. ret (d = cm_sha256 m)))
    (\<lambda>ok F. K F \<and> (ok \<longrightarrow> intact H (cm_sha256 m) (cm_local_path m) F)) (\<lambda>e F. True)"
    by (rule triple_seq [OF triple_sha]) (use assms in \<open>auto intro: triple_ret\<close>)
qed (auto intro: triple_ret)

text \<open>The state an admission may be in: no file was touched, registered messages were only added.\<close>

definition admitting :: "'p station \<Rightarrow> 'p station \<Rightarrow> bool" where
  "admitting w u \<longleftrightarrow> always (keeps_files (w_fs w) {}) u \<and>
     (\<exists>ms. canonical_messages (w_db u) = canonical_messages (w_db w) @ ms)"

definition stored_intact :: "host \<Rightarrow> bytes \<Rightarrow> canonical_message \<Rightarrow> 'p station \<Rightarrow> bool" where
  "stored_intact H raw m u \<longleftrightarrow> cm_sha256 m = h_sha256 H raw \<and> m \<in> set (canonical_messages (w_db u)) \<and>
     intact H (h_sha256 H raw) (cm_local_path m) (w_fs u)"

lemma admitting_remember [simp]: "admitting w (remember u) = admitting w u"
  by (simp add: admitting_def)

lemma admitting_tick [simp]: "admitting w (tick n u) = admitting w u"
  by (simp add: admitting_def)

lemma admitting_db:
  assumes "admitting w u" "w_fs v = w_fs u" "w_net v = w_net u"
    and "canonical_messages (w_db v) = canonical_messages (w_db u) @ ms"
  shows "admitting w v"
  using assms by (auto simp: admitting_def always_def)

lemma admitting_same:
  "admitting w w \<Longrightarrow> w_fs u = w_fs w \<Longrightarrow> w_net u = w_net w \<Longrightarrow>
     canonical_messages (w_db u) = canonical_messages (w_db w) \<Longrightarrow> admitting w u"
  by (auto simp: admitting_def always_def)

lemma admitting_files:
  assumes "triple (keeps_files (w_fs w) {}) (\<lambda>F. True) m Q E" "admitting w u"
  shows "wp m (\<lambda>x v. admitting w v \<and> Q x (w_fs v) \<and> w_db v = w_db u) (\<lambda>e v. admitting w v) u"
  by (rule wp_mono [OF tripleD [OF assms(1)]]) (use assms(2) in \<open>auto simp: admitting_def\<close>)

lemma admitting_verify:
  assumes "admitting w u"
  shows "wp (verify_canonical_message S H m)
    (\<lambda>ok v. admitting w v \<and> (ok \<longrightarrow> intact H (cm_sha256 m) (cm_local_path m) (w_fs v)) \<and> w_db v = w_db u)
    (\<lambda>e v. admitting w v) u"
  by (rule wp_mono [OF admitting_files [OF triple_verify [where K = "\<lambda>F. True"] assms]]) (simp_all add: stables)

lemma wp_reuse:
  assumes u: "admitting w u"
    and found: "canonical_message_by_account_and_sha256 (w_db u) aid (h_sha256 H raw) = Some m"
  shows "wp (reuse_message S H aid (h_sha256 H raw) kind m)
    (\<lambda>x v. admitting w v \<and> stored_intact H raw (fst x) v) (\<lambda>e v. admitting w v) u"
proof -
  from found have m: "m \<in> set (canonical_messages (w_db u))" "cm_account_id m = aid" "cm_sha256 m = h_sha256 H raw"
    unfolding canonical_message_by_account_and_sha256_def by (drule_tac find_mem, simp)+
  show ?thesis
    unfolding reuse_message_def wp_seq wp_require wp_transaction
  proof (rule wp_mono [OF admitting_verify [OF u]])
    fix ok v
    assume v: "admitting w v \<and> (ok \<longrightarrow> intact H (cm_sha256 m) (cm_local_path m) (w_fs v)) \<and> w_db v = w_db u"
    have again: "canonical_message_by_account_and_sha256 (w_db v) (cm_account_id m) (cm_sha256 m) = Some m"
      using found v m by simp
    show "(if ok then wp (register_canonical_message H m aid ''ingest.succeeded''
         (json_text [(''sha256'', JStr (h_sha256 H raw)), (''source_kind'', JStr kind)]))
          (\<lambda>x v. admitting w (remember v) \<and> stored_intact H raw (fst x) (remember v)) (\<lambda>e v. admitting w v)
        else (\<lambda>v. admitting w v)) v"
      using v m again by (auto simp: stored_intact_def intro!: wp_register intro: admitting_db)
  qed simp
qed

lemma maildir_path_last:
  assumes "maildir_path H r name sha = Inr destination"
  shows "last destination = eml sha"
proof -
  obtain mail where mail: "(case resolved H (mail @ [name, ''cur'', eml sha]) of
       Inl e \<Rightarrow> Inl (if is_value_error e then IngestError ''canonical path escapes the archive mail root'' else e)
     | Inr q \<Rightarrow> if is_prefix_of mail q then Inr (mail @ [name, ''cur'', eml sha])
                else Inl (IngestError ''canonical path escapes the archive mail root'')) = Inr destination"
    using assms unfolding maildir_path_def rbind_Inr Let_def by blast
  then have "destination = mail @ [name, ''cur'', eml sha]"
    by (cases "resolved H (mail @ [name, ''cur'', eml sha])") (simp_all split: if_splits)
  then show ?thesis by simp
qed

lemma wp_admit:
  assumes u: "admitting w u"
  shows "wp (admit_message S H cfg name aid raw (h_sha256 H raw) mid date kind)
    (\<lambda>x v. admitting w v \<and> stored_intact H raw (fst x) v) (\<lambda>e v. admitting w v) u"
proof (cases "maildir_path H (cf_archive_root cfg) name (h_sha256 H raw)")
  case (Inl e)
  with u show ?thesis by (simp add: admit_message_def wp_seq wp_lift)
next
  case (Inr destination)
  have checked: "wp (verify_canonical_message S H (fst x))
      (\<lambda>ok. if ok then \<lambda>v. admitting w v \<and> stored_intact H raw (fst x) v else (\<lambda>v. admitting w v))
      (\<lambda>e v. admitting w v) v"
    if "admitting w v" "cm_sha256 (fst x) = h_sha256 H raw" "fst x \<in> set (canonical_messages (w_db v))"
    for x :: "canonical_message \<times> bool" and v
    by (rule wp_mono [OF admitting_verify [OF that(1)]]) (use that(2,3) in \<open>auto simp: stored_intact_def\<close>)
  show ?thesis
    unfolding admit_message_def wp_seq wp_lift Inr sum.case wp_require wp_transaction wp_ret
  proof (rule wp_mono [OF admitting_files [OF triple_create [OF maildir_path_last [OF Inr] refl] u]], goal_cases)
    case (1 x v)
    then have v: "admitting w v" by simp
    show ?case
      unfolding wp_clock
      by (cases "header_text mid")
        (use v in \<open>auto simp: staged_message_def intro!: wp_register checked intro: admitting_db [of w v]\<close>)
  qed simp
qed

lemma wp_ingest:
  assumes w: "admitting w w"
  shows "wp (ingest_bytes S H M cfg raw name kind)
      (\<lambda>x v. admitting w v \<and> stored_intact H raw (fst x) v) (\<lambda>e v. admitting w v) w"
proof (cases "config_account cfg name")
  case None
  with w show ?thesis by (simp add: ingest_bytes_def wp_rules)
next
  case (Some a)
  have looked: "wp (seq (read_state (\<lambda>w. account_id (w_db w) name)) (\<lambda>found.
          case found of
            None \<Rightarrow> fail (IngestError (''account is not active in local state: '' @ name))
          | Some aid \<Rightarrow>
              seq (read_state (\<lambda>w. canonical_message_by_account_and_sha256 (w_db w) aid (h_sha256 H raw))) (\<lambda>existing.
              case existing of
                Some m \<Rightarrow> reuse_message S H aid (h_sha256 H raw) kind m
              | None \<Rightarrow> admit_message S H cfg name aid raw (h_sha256 H raw) (fst meta) (snd meta) kind)))
      (\<lambda>x v. admitting w v \<and> stored_intact H raw (fst x) v) (\<lambda>e v. admitting w v) v"
    if "admitting w v" for v meta
    unfolding wp_seq wp_read
    by (cases "account_id (w_db v) name"; cases "canonical_message_by_account_and_sha256 (w_db v)
        (the (account_id (w_db v) name)) (h_sha256 H raw)")
      (use that in \<open>auto simp: wp_rules intro: wp_reuse wp_admit\<close>)
  show ?thesis
    unfolding ingest_bytes_def Some option.case Let_def wp_seq wp_require wp_lift wp_transaction
    using w by (auto intro!: wp_initialize looked [unfolded wp_seq]
      intro: admitting_same split: sum.splits)
qed

section \<open>The properties\<close>

text \<open>
  C35.  Admission keeps every byte.  Whatever calls fail, tear or meet a concurrent process, at no
  moment of an admission is a file that was there when it began changed or removed, and the table of
  messages only grows; when it returns, the returned message is in the table under the digest of
  the given bytes, and the file it names has that digest.
\<close>

theorem ingest_keeps_files_and_stores_exact_bytes:
  assumes "ingest_bytes S H M cfg raw name kind w = (r, u)" and "dk_past (w_net w) = []"
  shows "(\<forall>x \<in> set (dk_past (w_net u)). keeps_files (w_fs w) {} (fst x)) \<and> keeps_files (w_fs w) {} (w_fs u) \<and>
    (\<exists>ms. canonical_messages (w_db u) = canonical_messages (w_db w) @ ms) \<and>
    (\<forall>m created. r = Inr (m, created) \<longrightarrow>
       cm_sha256 m = h_sha256 H raw \<and> m \<in> set (canonical_messages (w_db u)) \<and>
       intact H (h_sha256 H raw) (cm_local_path m) (w_fs u))"
proof -
  have start: "admitting w w" using assms(2) by (simp add: admitting_def always_def)
  have "wp (ingest_bytes S H M cfg raw name kind)
      (\<lambda>x v. admitting w v \<and> stored_intact H raw (fst x) v) (\<lambda>e v. admitting w v) w"
    by (rule wp_ingest [OF start])
  with assms(1) have "case r of Inl e \<Rightarrow> admitting w u | Inr x \<Rightarrow> admitting w u \<and> stored_intact H raw (fst x) u"
    by (auto simp: wp_def split: sum.splits)
  then show ?thesis by (auto simp: admitting_def always_def stored_intact_def split: sum.splits)
qed

text \<open>
  Optional metadata can refuse a message: a \<open>Date\<close> header that parses to a zoned time outside the
  range of UTC dates (\<open>31 Dec 9999 23:59:59 -0100\<close>) makes \<open>ingest_bytes\<close> raise \<open>OverflowError\<close>, which
  \<open>_metadata\<close> does not catch, before anything is stored.
\<close>

theorem unrepresentable_date_refuses_message:
  assumes "config_account cfg name = Some a" and "ac_enabled a"
    and "mp_headers M raw = Inr (mid, HeaderText s)" and "s \<noteq> []"
    and "mp_date M s = Inr (Zoned t offset)" and "t - offset > datetime_max \<or> t - offset < datetime_min"
  shows "ingest_bytes S H M cfg raw name kind w = (Inl OverflowError, w)"
proof -
  have "metadata H M raw = Inl OverflowError"
    using assms(3-6) by (auto simp: metadata_def message_date_of_def utc_text_def)
  then show ?thesis
    using assms(1,2) by (simp add: ingest_bytes_def Let_def seq_def lift_result_def require_def ret_def)
qed

end
