(* ===== verification/Classification.thy ===== *)
theory Classification
  imports Ingest
begin

text \<open>
  \<open>classification.py\<close> and the local import of \<open>ingest.py\<close>: the verdict of the spam filter, the
  transition of a message's file between staging, mail and quarantine, and the recovery of messages
  left in staging.  The HTTP answer of the filter is a
  parameter.  The lemmas show that a transition never loses the bytes, at no moment.
\<close>

section \<open>Verdicts\<close>

record classification_result =
  cr_classification :: verdict
  cr_score :: "real option"
  cr_reason :: string
  cr_classifier :: string
  cr_classifier_version :: "string option"

definition FAILURE_REASONS :: "string list" where
  "FAILURE_REASONS = [''classifier-timeout'', ''classifier-unavailable'', ''classifier-malformed-response'',
     ''classifier-unknown-action'', ''classifier-skipped'']"

datatype http_answer = HttpTimeout | HttpUnavailable | HttpUndecodable | HttpRaises error | HttpJson pyval

definition rspamd_verdict :: "verdict \<Rightarrow> real option \<Rightarrow> string \<Rightarrow> classification_result" where
  "rspamd_verdict v score reason = \<lparr>cr_classification = v, cr_score = score, cr_reason = reason,
     cr_classifier = ''rspamd'', cr_classifier_version = None\<rparr>"

text \<open>\<open>float(score)\<close>: an integer that rounds to more than the largest double raises.\<close>

definition float_of :: "pyval \<Rightarrow> real result option" where
  "float_of v = (case v of
     VInt i \<Rightarrow> Some (if 2 ^ 1024 - 2 ^ 970 \<le> \<bar>i\<bar> then Inl OverflowError else Inr (of_int i))
   | VFloat x \<Rightarrow> Some (Inr x)
   | _ \<Rightarrow> None)"

definition action_verdict :: "string \<Rightarrow> verdict option" where
  "action_verdict action =
     (if action = ''no action'' then Some Ham
      else if map lower_char action \<in> {''add header'', ''reject'', ''soft reject'', ''discard''} then Some Spam
      else if map lower_char action \<in> {''greylist'', ''rewrite subject''} then Some Suspect
      else None)"

definition rspamd_payload :: "(pyval \<times> pyval) list \<Rightarrow> classification_result result" where
  "rspamd_payload data =
     (if get_or_none data ''is_skipped'' = VBool True
      then Inr (rspamd_verdict Suspect None ''classifier-skipped'')
      else case (get_or_none data ''action'', float_of (get_or_none data ''score'')) of
          (VStr action, Some score) \<Rightarrow>
            rbind score (\<lambda>x.
            case action_verdict action of
              None \<Rightarrow> Inr (rspamd_verdict Suspect (Some x) ''classifier-unknown-action'')
            | Some v \<Rightarrow> Inr (rspamd_verdict v (Some x) (take 256 (''rspamd-action:'' @ action))))
        | _ \<Rightarrow> Inr (rspamd_verdict Suspect None ''classifier-malformed-response''))"

definition rspamd_classify :: "http_answer \<Rightarrow> classification_result result" where
  "rspamd_classify answer =
     (case answer of
        HttpTimeout \<Rightarrow> Inr (rspamd_verdict Suspect None ''classifier-timeout'')
      | HttpUnavailable \<Rightarrow> Inr (rspamd_verdict Suspect None ''classifier-unavailable'')
      | HttpUndecodable \<Rightarrow> Inr (rspamd_verdict Suspect None ''classifier-malformed-response'')
      | HttpRaises e \<Rightarrow> Inl e
      | HttpJson (VDict data) \<Rightarrow> rspamd_payload data
      | HttpJson v \<Rightarrow> Inr (rspamd_verdict Suspect None ''classifier-malformed-response''))"

text \<open>The filter fails closed: wanted mail needs an answer that says so and is not skipped.\<close>

lemma ham_needs_no_action:
  assumes "rspamd_classify answer = Inr r" and "cr_classification r = Ham"
  shows "\<exists>data. answer = HttpJson (VDict data) \<and> get_or_none data ''action'' = VStr ''no action'' \<and>
    get_or_none data ''is_skipped'' \<noteq> VBool True"
proof -
  obtain data where data: "answer = HttpJson (VDict data)" "rspamd_payload data = Inr r"
    using assms by (auto simp: rspamd_classify_def rspamd_verdict_def split: http_answer.splits pyval.splits)
  then show ?thesis
    using assms(2) unfolding rspamd_payload_def
    by (auto simp: rspamd_verdict_def rbind_Inr action_verdict_def
        split: if_splits pyval.splits option.splits)
qed

section \<open>Moving the file\<close>

fun state_directory :: "storage_state \<Rightarrow> string" where
  "state_directory Archived = ''mail''"
| "state_directory Quarantined = ''quarantine''"
| "state_directory Pending = ''staging''"

definition state_path :: "app_config \<Rightarrow> string \<Rightarrow> string \<Rightarrow> storage_state \<Rightarrow> path" where
  "state_path cfg name sha st = cf_archive_root cfg @ [state_directory st, name, ''cur'', eml sha]"

definition taken :: string where
  "taken = ''destination exists with a different SHA-256''"

text \<open>The fallback when linking fails for another reason: a verified copy.\<close>

definition copy_in :: "system \<Rightarrow> host \<Rightarrow> path \<Rightarrow> path \<Rightarrow> string \<Rightarrow> ('p station, unit) prog" where
  "copy_in S H source destination sha =
     seq (mkstemp S (parent destination) (sha @ ''.'') ''.tmp'') (\<lambda>temporary.
     finalize
       (seq (copy_file S source temporary) (\<lambda>u.
        seq (sha_at S H temporary) (\<lambda>d.
        seq (require (d = sha) (IngestError ''temporary transition bytes fail SHA-256 verification'')) (\<lambda>u.
        attempt (link S temporary destination) (\<lambda>e. e = FileExistsError)
          (\<lambda>e. expect_digest S H destination sha taken)))))
       (unlink S temporary True))"

definition install :: "system \<Rightarrow> host \<Rightarrow> path \<Rightarrow> path \<Rightarrow> string \<Rightarrow> ('p station, unit) prog" where
  "install S H source destination sha =
     seq (expect_digest S H source sha ''source canonical bytes are unavailable or corrupt'') (\<lambda>u.
     attempt (link S source destination) os_error
       (\<lambda>e. if e = FileExistsError then expect_digest S H destination sha taken
            else copy_in S H source destination sha))"

definition drop_source :: "system \<Rightarrow> host \<Rightarrow> path \<Rightarrow> path \<Rightarrow> string \<Rightarrow> ('p station, unit) prog" where
  "drop_source S H source destination sha =
     (if source = destination then ret ()
      else seq (exists_at S source) (\<lambda>e.
        if e then
          seq (sha_at S H source) (\<lambda>d.
          seq (require (d = sha) (IngestError ''source canonical bytes are corrupt'')) (\<lambda>u.
          seq (unlink S source False) (\<lambda>u.
          fsync_directory S (parent source))))
        else ret ()))"

definition move_exact :: "system \<Rightarrow> host \<Rightarrow> path \<Rightarrow> path \<Rightarrow> string \<Rightarrow> ('p station, unit) prog" where
  "move_exact S H source destination sha =
     (let maildir = parent (parent destination) in
      seq (mkdirs S (parent destination)) (\<lambda>u.
      seq (mkdirs S (maildir @ [''new''])) (\<lambda>u.
      seq (mkdirs S (maildir @ [''tmp''])) (\<lambda>u.
      seq (exists_at S destination) (\<lambda>e.
      seq (if e then expect_digest S H destination sha taken else install S H source destination sha) (\<lambda>u.
      seq (fsync_directory S (parent destination)) (\<lambda>u.
      drop_source S H source destination sha)))))))"

section \<open>The transition and its record\<close>

definition overrides_of :: "db \<Rightarrow> string \<Rightarrow> classification_row list" where
  "overrides_of d cid = filter (\<lambda>c. cl_canonical_message_id c = cid \<and> cl_manual_override c) (classifications d)"

text \<open>\<open>_effective_auto_result\<close>: a manual verdict, the last by identifier, outranks the filter.\<close>

definition effective_auto_result :: "db \<Rightarrow> canonical_message \<Rightarrow> classification_result \<Rightarrow> verdict" where
  "effective_auto_result d m result =
     (case overrides_of d (cm_id m) of
        [] \<Rightarrow> cr_classification result
      | c # cs \<Rightarrow> cl_classification (foldl (\<lambda>a b. if cl_id b > cl_id a then b else a) c cs))"

text \<open>\<open>effective_classification\<close>: the last manual verdict, otherwise the last one.\<close>

definition outranks :: "classification_row \<Rightarrow> classification_row \<Rightarrow> bool" where
  "outranks b a \<longleftrightarrow> (if cl_manual_override a = cl_manual_override b then cl_id b > cl_id a else cl_manual_override b)"

definition effective_classification :: "db \<Rightarrow> string \<Rightarrow> classification_row option" where
  "effective_classification d cid =
     (case filter (\<lambda>c. cl_canonical_message_id c = cid) (classifications d) of
        [] \<Rightarrow> None
      | c # cs \<Rightarrow> Some (foldl (\<lambda>a b. if outranks b a then b else a) c cs))"

fun verdict_text :: "verdict \<Rightarrow> string" where
  "verdict_text Ham = ''ham''"
| "verdict_text Suspect = ''suspect''"
| "verdict_text Spam = ''spam''"

definition transition_event :: "storage_state \<Rightarrow> storage_state \<Rightarrow> string option" where
  "transition_event before after =
     (if (before = Pending \<or> before = Archived) \<and> after = Quarantined then Some ''quarantine.entered''
      else if before = Quarantined \<and> after = Archived then Some ''quarantine.restored''
      else None)"

definition moved_message :: "canonical_message \<Rightarrow> path \<Rightarrow> storage_state \<Rightarrow> string \<Rightarrow> canonical_message" where
  "moved_message m destination st now =
     m\<lparr>cm_local_path := destination, cm_storage_state := st,
       cm_archived_at := (if st = Archived \<and> cm_archived_at m = None then Some now else cm_archived_at m),
       cm_quarantined_at := (if st = Quarantined then Some now else cm_quarantined_at m)\<rparr>"

definition classification_audits :: "host \<Rightarrow> nat \<Rightarrow> canonical_message \<Rightarrow> classification_result \<Rightarrow> bool \<Rightarrow>
    storage_state \<Rightarrow> db \<Rightarrow> db \<times> nat" where
  "classification_audits H k m result manual st d =
     (let event = (\<lambda>n name res details d. insert_audit_event (stamp H n) ''mailarchive.classification'' name res
            (Some (cm_account_id m)) (Some (cm_id m)) details d);
          d1 = event k (if manual then ''classification.manual_override'' else ''classification.succeeded'') ''success''
            (json_text [(''classification'', JStr (verdict_text (cr_classification result))),
               (''reason'', JStr (take 256 (cr_reason result))),
               (''classifier'', JStr (take 128 (cr_classifier result)))]) d;
          (d2, k2) = (if \<not> manual \<and> cr_reason result \<in> set FAILURE_REASONS
            then (event (Suc k) ''classification.failed'' ''fail-safe''
              (json_text [(''reason'', JStr (cr_reason result)),
                 (''classifier'', JStr (take 128 (cr_classifier result)))]) d1, Suc (Suc k))
            else (d1, Suc k))
      in case transition_event (cm_storage_state m) st of
           None \<Rightarrow> (d2, k2)
         | Some name \<Rightarrow> (event k2 name ''success'' ''{}'' d2, Suc k2))"

text \<open>
  One transaction: the verdict, the new place and state, the audit events.  A message that is not
  in the table, a path another message has, or a state its time stamps contradict is an
  \<open>IntegrityError\<close>, and nothing is written.
\<close>

definition placed :: "canonical_message \<Rightarrow> path \<Rightarrow> storage_state \<Rightarrow> string \<Rightarrow> canonical_message \<Rightarrow> canonical_message" where
  "placed m destination st now c = c\<lparr>cm_local_path := destination, cm_storage_state := st,
     cm_archived_at := cm_archived_at (moved_message m destination st now),
     cm_quarantined_at := cm_quarantined_at (moved_message m destination st now)\<rparr>"

definition transition_refused :: "canonical_message \<Rightarrow> path \<Rightarrow> storage_state \<Rightarrow> string \<Rightarrow> db \<Rightarrow> bool" where
  "transition_refused m destination st now d \<longleftrightarrow>
     \<not> list_ex (\<lambda>c. cm_id c = cm_id m) (canonical_messages d) \<or>
     list_ex (\<lambda>c. cm_id c \<noteq> cm_id m \<and> cm_local_path c = destination) (canonical_messages d) \<or>
     \<not> list_all (\<lambda>c. canonical_check (placed m destination st now c))
         (filter (\<lambda>c. cm_id c = cm_id m) (canonical_messages d))"

definition transition_tables :: "canonical_message \<Rightarrow> classification_result \<Rightarrow> bool \<Rightarrow> path \<Rightarrow>
    storage_state \<Rightarrow> string \<Rightarrow> db \<Rightarrow> db" where
  "transition_tables m result manual destination st now d =
     d\<lparr>classifications := classifications d @
         [\<lparr>cl_id = next_rowid (map cl_id (classifications d)), cl_canonical_message_id = cm_id m,
           cl_classification = cr_classification result, cl_score = cr_score result,
           cl_reason = take 256 (cr_reason result), cl_classifier = take 128 (cr_classifier result),
           cl_classifier_version = cr_classifier_version result, cl_manual_override = manual,
           cl_classified_at = now\<rparr>],
       canonical_messages := update_where (\<lambda>c. cm_id c = cm_id m) (placed m destination st now) (canonical_messages d)\<rparr>"

definition record_transition :: "host \<Rightarrow> canonical_message \<Rightarrow> classification_result \<Rightarrow> bool \<Rightarrow>
    path \<Rightarrow> storage_state \<Rightarrow> string \<Rightarrow> 'p world \<Rightarrow> unit result \<times> 'p world" where
  "record_transition H m result manual destination st now w =
     (if transition_refused m destination st now (w_db w) then (Inl IntegrityError, w)
      else let audited = classification_audits H (w_tick w) m result manual st
             (transition_tables m result manual destination st now (w_db w))
           in (Inr (), commit (fst audited) (snd audited - w_tick w) w))"

text \<open>
  The refresh of the two search indexes at the end, whose failures are swallowed, writes only the
  files of the indexes, which are not part of the modelled files.
\<close>

definition apply_classification :: "system \<Rightarrow> host \<Rightarrow> app_config \<Rightarrow> canonical_message \<Rightarrow>
    classification_result \<Rightarrow> bool \<Rightarrow> ('p station, canonical_message) prog" where
  "apply_classification S H cfg m result manual =
     seq (read_state (\<lambda>w. find (\<lambda>a. ar_id a = cm_account_id m) (accounts (w_db w)))) (\<lambda>account.
     case account of
       None \<Rightarrow> fail (IngestError ''canonical message account no longer exists'')
     | Some a \<Rightarrow>
         seq (read_state (\<lambda>w. if manual then cr_classification result else effective_auto_result (w_db w) m result)) (\<lambda>verdict.
         let st = (if verdict = Ham then Archived else Quarantined);
             destination = state_path cfg (ar_name a) (cm_sha256 m) st
         in seq (move_exact S H (cm_local_path m) destination (cm_sha256 m)) (\<lambda>u.
            seq (clock H) (\<lambda>now.
            seq (transaction (record_transition H m result manual destination st now)) (\<lambda>u.
            ret (moved_message m destination st now))))))"

section \<open>Pending messages\<close>

text \<open>The filter's answer may differ from call to call.\<close>

type_synonym classifier = "nat \<Rightarrow> bytes \<Rightarrow> http_answer"

definition classify :: "classifier \<Rightarrow> bytes \<Rightarrow> ('p station, classification_result) prog" where
  "classify K raw w = (rspamd_classify (K (dk_calls (w_net w)) raw), bump w)"

definition classify_pending :: "system \<Rightarrow> host \<Rightarrow> classifier \<Rightarrow> app_config \<Rightarrow> canonical_message \<Rightarrow>
    ('p station, canonical_message) prog" where
  "classify_pending S H K cfg m =
     (if cm_storage_state m \<noteq> Pending then ret m
      else seq (expect_digest S H (cm_local_path m) (cm_sha256 m)
          ''pending canonical bytes are unavailable or corrupt'') (\<lambda>u.
        seq (read_at S (cm_local_path m)) (\<lambda>raw.
        seq (classify K raw) (\<lambda>result.
        apply_classification S H cfg m result False))))"

definition pending_ids :: "db \<Rightarrow> string option \<Rightarrow> nat option \<Rightarrow> string list" where
  "pending_ids d name limit =
     (let hits = sort (map cm_id (filter (\<lambda>c. cm_storage_state c = Pending \<and>
            list_ex (\<lambda>a. ar_id a = cm_account_id c \<and> (case name of None \<Rightarrow> True | Some n \<Rightarrow> ar_name a = n)) (accounts d))
          (canonical_messages d)))
      in case limit of None \<Rightarrow> hits | Some n \<Rightarrow> take n hits)"

definition pending_integrity :: "host \<Rightarrow> canonical_message \<Rightarrow> ('p station, unit) prog" where
  "pending_integrity H m = transaction (\<lambda>w. (Inr (), commit
     (insert_audit_event (reading H w 0) ''mailarchive.classification'' ''classification.failed'' ''pending-integrity''
       (Some (cm_account_id m)) (Some (cm_id m))
       (CHR ''{'' # json_string ''reason'' @ '':'' @ json_string ''pending-integrity'' @ ''}'') (w_db w)) 1 w))"

fun ingest_error :: "error \<Rightarrow> bool" where
  "ingest_error (IngestError m) = True"
| "ingest_error e = False"

definition reconcile_one :: "system \<Rightarrow> host \<Rightarrow> classifier \<Rightarrow> app_config \<Rightarrow> string \<Rightarrow>
    ('p station, string list) prog" where
  "reconcile_one S H K cfg ident =
     seq (read_state (\<lambda>w. canonical_message_by_id (w_db w) ident)) (\<lambda>found.
     case found of
       None \<Rightarrow> ret []
     | Some m \<Rightarrow>
         if cm_storage_state m \<noteq> Pending then ret []
         else attempt (seq (classify_pending S H K cfg m) (\<lambda>x. ret [ident])) ingest_error
           (\<lambda>e. seq (pending_integrity H m) (\<lambda>u. ret [])))"

definition reconcile_pending :: "system \<Rightarrow> host \<Rightarrow> classifier \<Rightarrow> app_config \<Rightarrow> string option \<Rightarrow>
    int option \<Rightarrow> ('p station, string list) prog" where
  "reconcile_pending S H K cfg name limit =
     seq (require (case limit of None \<Rightarrow> True | Some n \<Rightarrow> 1 \<le> n) (ValueError ''limit must be positive'')) (\<lambda>u.
     seq (read_state (\<lambda>w. pending_ids (w_db w) name (map_option nat limit))) (\<lambda>idents.
     seq (for_each (reconcile_one S H K cfg) idents) (\<lambda>completed.
     ret (concat completed))))"

text \<open>\<open>ingest_file\<close>: the operator's import of a local file, admitted as wanted mail.\<close>

definition ingest_file :: "system \<Rightarrow> host \<Rightarrow> mail_parser \<Rightarrow> app_config \<Rightarrow> path \<Rightarrow> string \<Rightarrow>
    ('p station, canonical_message \<times> bool) prog" where
  "ingest_file S H M cfg source name =
     seq (if map lower_char (suffix_of source) = ''.eml'' then is_file_at S source else ret False) (\<lambda>ok.
     seq (require ok (IngestError ''source must be an existing .eml file'')) (\<lambda>u.
     seq (read_at S source) (\<lambda>raw.
     seq (ingest_bytes S H M cfg raw name ''file'') (\<lambda>stored.
     if cm_storage_state (fst stored) = Pending
     then seq (apply_classification S H cfg (fst stored)
         \<lparr>cr_classification = Ham, cr_score = None, cr_reason = ''operator-local-import'',
          cr_classifier = ''local-import'', cr_classifier_version = None\<rparr> True)
       (\<lambda>m. ret (m, snd stored))
     else ret stored))))"

section \<open>No moment without the bytes\<close>

definition held_somewhere :: "host \<Rightarrow> string \<Rightarrow> path \<Rightarrow> path \<Rightarrow> fs \<Rightarrow> bool" where
  "held_somewhere H sha source destination F \<longleftrightarrow> intact H sha source F \<or> intact H sha destination F"

definition moving :: "host \<Rightarrow> string \<Rightarrow> path \<Rightarrow> path \<Rightarrow> fs \<Rightarrow> fs \<Rightarrow> bool" where
  "moving H sha source destination F0 F \<longleftrightarrow>
     keeps_files F0 {source} F \<and> held_somewhere H sha source destination F"

lemma stable_moving [stables]: "stable (moving H sha source destination F0)"
  unfolding moving_def held_somewhere_def by (intro stables)

lemma triple_pure: "(P \<Longrightarrow> triple J K m Q E) \<Longrightarrow> triple J (\<lambda>F. P \<and> K F) m Q E"
  by (auto simp: triple_def)

definition scratch :: "fs \<Rightarrow> path \<Rightarrow> path \<Rightarrow> path \<Rightarrow> bool" where
  "scratch F0 source destination t \<longleftrightarrow> t \<noteq> source \<and> t \<noteq> destination \<and> (\<forall>b. F0 t \<noteq> Some (RegFile b))"

lemma moving_scratch:
  "scratch F0 source destination t \<Longrightarrow> moving H sha source destination F0 F \<Longrightarrow> moving H sha source destination F0 (F(t := n))"
  by (auto simp: scratch_def moving_def held_somewhere_def intact_upd intro: keeps_upd)

text \<open>
  The contract between the transition and whoever names its destination: the file name is the
  digest with the message suffix, so that no temporary name can be the destination.
\<close>

locale transition =
  fixes H :: host and sha :: string and source destination :: path and F0 :: fs
  assumes named: "last destination = eml sha"
begin

abbreviation J :: "fs \<Rightarrow> bool" where "J \<equiv> moving H sha source destination F0"
abbreviation src :: "fs \<Rightarrow> bool" where "src \<equiv> intact H sha source"
abbreviation dst :: "fs \<Rightarrow> bool" where "dst \<equiv> intact H sha destination"

lemma taken_dst:
  assumes "stable K"
  shows "triple J K (expect_digest S H destination sha m) (\<lambda>u F. K F \<and> dst F) (\<lambda>e. K)"
  by (rule triple_expect) (simp_all add: stables assms)

lemma named_scratch:
  "triple J src (mkstemp S (parent destination) (sha @ ''.'') ''.tmp'')
     (\<lambda>t F. scratch F0 source destination t \<and> src F) (\<lambda>e. src)"
proof (rule triple_mkstemp)
  fix F F' x n
  let ?t = "parent destination @ [(sha @ ''.'') @ x @ ''.tmp'']"
  assume "J F" "src F" "F ?t = None" "src F'"
  moreover have "?t \<noteq> destination"
    using temporary_name [of "parent destination" "sha @ ''.''" x sha] named by metis
  moreover have "?t \<noteq> source" using \<open>src F\<close> \<open>F ?t = None\<close> by (auto simp: intact_def)
  ultimately show "scratch F0 source destination ?t \<and> src F'"
    using keeps_free [of F0 "{source}" F ?t] by (auto simp: scratch_def moving_def)
qed (simp_all add: stables)

lemma link_dst:
  assumes "stable K" and "\<And>F. K F \<Longrightarrow> intact H sha p F"
  shows "triple J K (link S p destination) (\<lambda>u F. K F \<and> dst F) (\<lambda>e. K)"
  by (rule triple_conseq [OF triple_link [where K = K and E = "\<lambda>e. K"]])
    (use assms in \<open>auto simp: stables intact_def split: option.splits node.splits\<close>)

lemma copy_in_dst: "triple J src (copy_in S H source destination sha) (\<lambda>u. dst) (\<lambda>e F. True)"
  unfolding copy_in_def
proof (rule triple_seq)
  show "triple J src (mkstemp S (parent destination) (sha @ ''.'') ''.tmp'')
     (\<lambda>t F. scratch F0 source destination t \<and> src F) (\<lambda>e F. True)"
    by (rule triple_conseq [OF named_scratch]) simp_all
  fix t
  let ?copied = "\<lambda>F. src F \<and> intact H sha t F"
  show "triple J (\<lambda>F. scratch F0 source destination t \<and> src F)
     (finalize (seq (copy_file S source t) (\<lambda>u. seq (sha_at S H t) (\<lambda>d.
        seq (require (d = sha) (IngestError ''temporary transition bytes fail SHA-256 verification'')) (\<lambda>u.
        attempt (link S t destination) (\<lambda>e. e = FileExistsError) (\<lambda>e. expect_digest S H destination sha taken)))))
       (unlink S t True)) (\<lambda>u. dst) (\<lambda>e F. True)"
  proof (rule triple_pure, rule triple_finalize)
    assume t: "scratch F0 source destination t"
    then have ne: "t \<noteq> source" "t \<noteq> destination" by (auto simp: scratch_def)
    have written: "triple J src (copy_file S source t) (\<lambda>u. src) (\<lambda>e. src)"
      unfolding copy_file_def
    proof (rule triple_seq [OF triple_read])
      fix b
      show "triple J (\<lambda>F. src F \<and> F source = Some (RegFile b)) (write_file S t b) (\<lambda>u. src) (\<lambda>e. src)"
        by (rule triple_write) (use t ne in \<open>auto simp: stables intact_upd moving_scratch\<close>)
    qed (simp_all add: stables)
    have checked: "triple J (\<lambda>F. src F \<and> intact H d t F)
        (require (d = sha) (IngestError m)) (\<lambda>u. ?copied) (\<lambda>e. src)" for d m
      by (rule triple_require) auto
    have linked: "triple J ?copied (attempt (link S t destination) (\<lambda>e. e = FileExistsError)
        (\<lambda>e. expect_digest S H destination sha taken)) (\<lambda>u F. src F \<and> dst F) (\<lambda>e. src)"
    proof (rule triple_attempt)
      show "triple J ?copied (link S t destination) (\<lambda>u F. src F \<and> dst F) (\<lambda>e. src)"
        by (rule triple_conseq [OF link_dst [where K = ?copied]]) (simp_all add: stables)
    qed (simp_all add: taken_dst stables)
    show "triple J src (seq (copy_file S source t) (\<lambda>u. seq (sha_at S H t) (\<lambda>d.
        seq (require (d = sha) (IngestError ''temporary transition bytes fail SHA-256 verification'')) (\<lambda>u.
        attempt (link S t destination) (\<lambda>e. e = FileExistsError) (\<lambda>e. expect_digest S H destination sha taken)))))
       (\<lambda>u F. src F \<and> dst F) (\<lambda>e. src)"
      by (rule triple_seq [OF written triple_seq [OF triple_sha triple_seq [OF checked linked]]])
        (simp_all add: stables)
    show "triple J (\<lambda>F. src F \<and> dst F) (unlink S t True) (\<lambda>u. dst) (\<lambda>e F. True)"
      by (rule triple_unlink) (use t ne in \<open>auto simp: stables intact_upd moving_scratch\<close>)
    show "triple J src (unlink S t True) (\<lambda>u F. True) (\<lambda>e F. True)"
      by (rule triple_unlink) (use t ne in \<open>auto simp: stables moving_scratch\<close>)
  qed
qed

lemma install_dst: "triple J (\<lambda>F. True) (install S H source destination sha) (\<lambda>u. dst) (\<lambda>e F. True)"
  unfolding install_def
proof (rule triple_seq)
  show "triple J (\<lambda>F. True) (expect_digest S H source sha ''source canonical bytes are unavailable or corrupt'')
      (\<lambda>u. src) (\<lambda>e F. True)"
    by (rule triple_conseq [OF triple_expect [where K = "\<lambda>F. True" and E = "\<lambda>e F. True"]]) (simp_all add: stables)
  show "triple J src (attempt (link S source destination) os_error
      (\<lambda>e. if e = FileExistsError then expect_digest S H destination sha taken
            else copy_in S H source destination sha)) (\<lambda>u. dst) (\<lambda>e F. True)"
  proof (rule triple_attempt)
    show "triple J src (link S source destination) (\<lambda>u. dst) (\<lambda>e. src)"
      by (rule triple_conseq [OF link_dst [where K = src]]) (simp_all add: stables)
    fix e
    show "triple J src (if e = FileExistsError then expect_digest S H destination sha taken
            else copy_in S H source destination sha) (\<lambda>u. dst) (\<lambda>e F. True)"
      by (rule triple_if, rule triple_conseq [OF taken_dst [where K = src]])
        (simp_all add: stables copy_in_dst)
  qed simp
qed

lemma drop_dst: "triple J dst (drop_source S H source destination sha) (\<lambda>u. dst) (\<lambda>e. dst)"
proof (cases "source = destination")
  case True
  then show ?thesis by (simp add: drop_source_def triple_ret)
next
  case False
  have gone: "J F \<Longrightarrow> dst F \<Longrightarrow> J (F(source := None)) \<and> dst (F(source := None))" for F
    using False by (auto simp: moving_def held_somewhere_def intact_upd intro: keeps_upd)
  have "triple J dst (seq (sha_at S H source) (\<lambda>d.
          seq (require (d = sha) (IngestError ''source canonical bytes are corrupt'')) (\<lambda>u.
          seq (unlink S source False) (\<lambda>u. fsync_directory S (parent source))))) (\<lambda>u. dst) (\<lambda>e. dst)"
  proof (rule triple_seq [OF triple_sha])
    fix d
    show "triple J (\<lambda>F. dst F \<and> intact H d source F)
       (seq (require (d = sha) (IngestError ''source canonical bytes are corrupt'')) (\<lambda>u.
          seq (unlink S source False) (\<lambda>u. fsync_directory S (parent source)))) (\<lambda>u. dst) (\<lambda>e. dst)"
      by (rule triple_seq [OF triple_require [where Q = "\<lambda>u. dst"] triple_seq [OF triple_unlink triple_fsync]])
        (simp_all add: stables gone)
  qed (simp_all add: stables)
  then show ?thesis
    unfolding drop_source_def
    by (simp add: False, intro triple_seq [OF triple_exists] triple_if triple_ret)
      (simp_all add: stables)
qed

lemma move_dst: "triple J (\<lambda>F. True) (move_exact S H source destination sha) (\<lambda>u. dst) (\<lambda>e F. True)"
proof -
  have made: "triple J (\<lambda>F. True) (mkdirs S p) (\<lambda>u F. True) (\<lambda>e F. True)" for p
    by (rule triple_mkdirs) (simp_all add: stables)
  have asked: "triple J (\<lambda>F. True) (exists_at S destination) (\<lambda>e F. True) (\<lambda>e F. True)"
    by (rule triple_exists) (simp_all add: stables)
  have installed: "triple J (\<lambda>F. True) (if e then expect_digest S H destination sha taken
      else install S H source destination sha) (\<lambda>u. dst) (\<lambda>e F. True)" for e
    by (rule triple_if, rule triple_conseq [OF taken_dst [where K = "\<lambda>F. True"]])
      (simp_all add: stables install_dst)
  have flushed: "triple J dst (fsync_directory S (parent destination)) (\<lambda>u. dst) (\<lambda>e F. True)"
    by (rule triple_fsync) (simp_all add: stables)
  have dropped: "triple J dst (drop_source S H source destination sha) (\<lambda>u. dst) (\<lambda>e F. True)"
    by (rule triple_conseq [OF drop_dst]) simp_all
  show ?thesis
    unfolding move_exact_def Let_def
    by (rule triple_seq [OF made triple_seq [OF made triple_seq [OF made triple_seq [OF asked
        triple_seq [OF installed triple_seq [OF flushed dropped]]]]]])
qed

end

interpretation moved: transition H sha source "state_path cfg name sha st" F0
  for H sha source cfg name st F0
  by unfold_locales (simp add: state_path_def)

section \<open>The recorded transition\<close>

lemma classification_audits_messages [simp]:
  "canonical_messages (fst (classification_audits H k m result manual st d)) = canonical_messages d"
  by (auto simp: classification_audits_def Let_def split: option.split)

lemma placed_simps [simp]:
  "cm_id (placed m destination st now c) = cm_id c"
  "cm_local_path (placed m destination st now c) = destination"
  "cm_storage_state (placed m destination st now c) = st"
  by (simp_all add: placed_def)

text \<open>The row of the message has the new place and state; the rows of all others are as they were.\<close>

definition settled_row :: "canonical_message \<Rightarrow> path \<Rightarrow> storage_state \<Rightarrow> db \<Rightarrow> db \<Rightarrow> bool" where
  "settled_row m destination st d d' \<longleftrightarrow>
     list_ex (\<lambda>c. cm_id c = cm_id m) (canonical_messages d') \<and>
     list_all (\<lambda>c. cm_id c = cm_id m \<longrightarrow> cm_local_path c = destination \<and> cm_storage_state c = st) (canonical_messages d') \<and>
     filter (\<lambda>c. cm_id c \<noteq> cm_id m) (canonical_messages d') = filter (\<lambda>c. cm_id c \<noteq> cm_id m) (canonical_messages d)"

lemma filter_others:
  "filter (\<lambda>c. cm_id c \<noteq> i) (update_where (\<lambda>c. cm_id c = i) (placed m destination st now) t) = filter (\<lambda>c. cm_id c \<noteq> i) t"
  by (induction t) auto

lemma row_placed:
  "list_ex (\<lambda>c. cm_id c = i) (update_where (\<lambda>c. cm_id c = i) (placed m destination st now) t) \<longleftrightarrow> list_ex (\<lambda>c. cm_id c = i) t"
  "list_all (\<lambda>c. cm_id c = i \<longrightarrow> cm_local_path c = destination \<and> cm_storage_state c = st)
     (update_where (\<lambda>c. cm_id c = i) (placed m destination st now) t)"
  by (induction t) auto

lemma settled_tables:
  assumes "\<not> transition_refused m destination st now d"
  shows "settled_row m destination st d (transition_tables m result manual destination st now d)"
  using assms
  by (simp add: settled_row_def transition_tables_def transition_refused_def filter_others row_placed)

lemma wp_record:
  assumes "\<And>u. w_fs u = w_fs w \<Longrightarrow> w_net u = w_net w \<Longrightarrow> settled_row m destination st (w_db w) (w_db u) \<Longrightarrow> Q () u"
    and "E IntegrityError w"
  shows "wp (record_transition H m result manual destination st now) Q E w"
proof -
  have "settled_row m destination st (w_db w) (fst (classification_audits H k m result manual st
      (transition_tables m result manual destination st now (w_db w))))"
    if "\<not> transition_refused m destination st now (w_db w)" for k
    using settled_tables [OF that, of result manual] by (simp add: settled_row_def)
  then show ?thesis
    unfolding wp_def record_transition_def Let_def
    using assms(2) by (auto intro!: assms(1) simp: commit_def)
qed

section \<open>The whole transition\<close>

text \<open>What is true of every moment of a transition to a place, and of its end.\<close>

definition transiting :: "host \<Rightarrow> canonical_message \<Rightarrow> path \<Rightarrow> 'p station \<Rightarrow> 'p station \<Rightarrow> bool" where
  "transiting H m destination w u \<longleftrightarrow>
     always (moving H (cm_sha256 m) (cm_local_path m) destination (w_fs w)) u"

lemma wp_apply:
  assumes w: "dk_past (w_net w) = []" and src: "intact H (cm_sha256 m) (cm_local_path m) (w_fs w)"
    and account: "find (\<lambda>a. ar_id a = cm_account_id m) (accounts (w_db w)) = Some a"
    and st: "st = (if (if manual then cr_classification result else effective_auto_result (w_db w) m result) = Ham
       then Archived else Quarantined)"
    and destination: "destination = state_path cfg (ar_name a) (cm_sha256 m) st"
  shows "wp (apply_classification S H cfg m result manual)
    (\<lambda>m' u. transiting H m destination w u \<and> cm_local_path m' = destination \<and> cm_storage_state m' = st \<and>
       intact H (cm_sha256 m) destination (w_fs u) \<and> settled_row m destination st (w_db w) (w_db u))
    (\<lambda>e u. transiting H m destination w u \<and> w_db u = w_db w) w"
proof -
  let ?J = "moving H (cm_sha256 m) (cm_local_path m) destination (w_fs w)"
  have start: "always ?J w"
    using w src by (simp add: always_def moving_def held_somewhere_def)
  have moved: "triple ?J (\<lambda>F. True) (move_exact S H (cm_local_path m) destination (cm_sha256 m))
      (\<lambda>u F. intact H (cm_sha256 m) destination F) (\<lambda>e F. True)"
    unfolding destination by (rule moved.move_dst)
  show ?thesis
    unfolding apply_classification_def wp_seq wp_read account option.case Let_def st [symmetric] destination [symmetric]
      wp_transaction wp_ret
  proof (rule wp_mono [OF tripleD [OF moved start]], simp, goal_cases)
    case (1 x u)
    then show ?case
      unfolding wp_clock
      by (auto intro!: wp_record intro: always_same simp: transiting_def moved_message_def)
  qed (simp add: transiting_def)
qed

section \<open>Calm runs\<close>

text \<open>A system in which no call fails and no other process acts.\<close>

definition calm :: "system \<Rightarrow> bool" where
  "calm S \<longleftrightarrow> (\<forall>k. sy_event S k = Normal)"

definition called :: "fs \<Rightarrow> 'p station \<Rightarrow> 'p station" where
  "called F w = put_fs F (bump (put_fs (w_fs w) w))"

definition asked :: "'p station \<Rightarrow> 'p station" where
  "asked w = bump (put_fs (w_fs w) w)"

lemma calm_syscall:
  "calm S \<Longrightarrow> wp (syscall S torn f) Q E w =
     (case f (w_fs w) of Inl e \<Rightarrow> E e (asked w) | Inr (F, x) \<Rightarrow> Q x (called F w))"
  by (auto simp: wp_def syscall_def calm_def Let_def called_def asked_def split: sum.split prod.split)

lemma calm_query: "calm S \<Longrightarrow> wp (query S f) Q E w = Q (f (w_fs w)) (asked w)"
  by (auto simp: wp_def query_def calm_def Let_def asked_def)

lemma called_simps [simp]:
  "w_fs (called F w) = F" "w_db (called F w) = w_db w" "w_tick (called F w) = w_tick w"
  "w_fs (asked w) = w_fs w" "w_db (asked w) = w_db w" "w_tick (asked w) = w_tick w"
  by (simp_all add: called_def asked_def)

text \<open>The present is recorded.\<close>

definition recorded :: "'p station \<Rightarrow> bool" where
  "recorded w \<longleftrightarrow> (w_fs w, w_db w) \<in> set (dk_past (w_net w))"

lemma recorded_calls [simp]: "recorded (called F w)" "recorded (asked w)"
  by (simp_all add: recorded_def called_def asked_def put_fs_def remember_def bump_def)

section \<open>Programs that only touch files\<close>

named_theorems files_only \<open>programs that leave the database and the clock alone\<close>

definition only_files :: "('p station, 'a) prog \<Rightarrow> bool" where
  "only_files m \<longleftrightarrow> (\<forall>w. w_db (snd (m w)) = w_db w)"

lemma only_files_basic [files_only]:
  "only_files (ret x)" "only_files (fail e)" "only_files (require b e)"
  by (simp_all add: only_files_def ret_def fail_def require_def)

lemma only_files_seq [files_only]: "only_files m \<Longrightarrow> (\<And>x. only_files (f x)) \<Longrightarrow> only_files (seq m f)"
  unfolding only_files_def seq_def by (auto split: prod.split sum.split) (metis snd_conv)+

lemma only_files_attempt [files_only]:
  "only_files m \<Longrightarrow> (\<And>e. only_files (h e)) \<Longrightarrow> only_files (attempt m C h)"
  unfolding only_files_def attempt_def by (auto split: prod.split sum.split) (metis snd_conv)+

lemma only_files_finalize [files_only]: "only_files m \<Longrightarrow> only_files c \<Longrightarrow> only_files (finalize m c)"
  unfolding only_files_def finalize_def by (auto split: prod.split sum.split) (metis snd_conv)+

lemma only_files_if [files_only]: "(b \<Longrightarrow> only_files m) \<Longrightarrow> (\<not> b \<Longrightarrow> only_files n) \<Longrightarrow> only_files (if b then m else n)"
  by simp

lemma only_files_syscall [files_only]: "only_files (syscall S torn f)"
  by (auto simp: only_files_def syscall_def Let_def split: os_event.split sum.split prod.split)

lemma only_files_query [files_only]: "only_files (query S f)"
  by (simp add: only_files_def query_def Let_def)

lemma only_files_mkstemp [files_only]: "only_files (mkstemp S dir pre suf)"
  using only_files_syscall unfolding only_files_def mkstemp_def Let_def by blast

lemmas file_programs = mkdirs_def exists_at_def is_file_at_def read_at_def sha_at_def link_def unlink_def
  write_file_def copy_file_def fsync_directory_def expect_digest_def

lemma only_files_move [files_only]: "only_files (move_exact S H source destination sha)"
  unfolding move_exact_def install_def copy_in_def drop_source_def Let_def file_programs
  by (intro files_only)

lemma wp_only_files: "only_files m \<Longrightarrow> wp m (\<lambda>x u. w_db u = w_db w) (\<lambda>e u. w_db u = w_db w) w"
  by (simp add: wp_always only_files_def)

lemma wp_seq_any:
  "(\<And>x v. wp (f x) Q (\<lambda>e u. True) v) \<Longrightarrow> wp (seq m f) Q (\<lambda>e u. True) w"
  unfolding wp_seq by (auto simp: wp_def split: prod.split sum.split)

lemma wp_drop_gone:
  assumes "calm S" "source \<noteq> destination"
  shows "wp (drop_source S H source destination sha) (\<lambda>x u. w_fs u source = None \<and> recorded u) (\<lambda>e u. True) w"
  unfolding drop_source_def sha_at_def read_at_def exists_at_def unlink_def fsync_directory_def wp_seq
  using assms
  by (auto simp: calm_query calm_syscall wp_rules file_exists_def split: option.splits sum.splits)

lemma wp_move_gone:
  assumes "calm S" "source \<noteq> destination"
  shows "wp (move_exact S H source destination sha)
    (\<lambda>x u. w_fs u source = None \<and> recorded u \<and> w_db u = w_db w) (\<lambda>e u. True) w"
proof -
  have "wp (move_exact S H source destination sha) (\<lambda>x u. w_fs u source = None \<and> recorded u) (\<lambda>e u. True) w"
    unfolding move_exact_def Let_def by (intro wp_seq_any wp_drop_gone assms)
  then show ?thesis
    by (rule wp_mono [OF wp_both [OF _ wp_only_files [OF only_files_move]]]) auto
qed

text \<open>A moment in which the file has moved and nothing was recorded yet.\<close>

definition moved_unrecorded :: "canonical_message \<Rightarrow> db \<Rightarrow> 'p station \<Rightarrow> bool" where
  "moved_unrecorded m d u \<longleftrightarrow> (\<exists>F. (F, d) \<in> set (dk_past (w_net u)) \<and> F (cm_local_path m) = None)"

lemma wp_apply_moves:
  assumes calm: "calm S" and elsewhere: "\<And>name st. st \<noteq> Pending \<Longrightarrow> cm_local_path m \<noteq> state_path cfg name (cm_sha256 m) st"
  shows "wp (apply_classification S H cfg m result manual) (\<lambda>m' u. moved_unrecorded m (w_db w) u) (\<lambda>e u. True) w"
proof (cases "find (\<lambda>a. ar_id a = cm_account_id m) (accounts (w_db w))")
  case None
  then show ?thesis by (simp add: apply_classification_def wp_rules)
next
  case (Some a)
  define st where "st = (if (if manual then cr_classification result else effective_auto_result (w_db w) m result) = Ham
    then Archived else Quarantined)"
  let ?dest = "state_path cfg (ar_name a) (cm_sha256 m) st"
  have "cm_local_path m \<noteq> ?dest" by (rule elsewhere) (simp add: st_def)
  from wp_move_gone [OF calm this] show ?thesis
    unfolding apply_classification_def wp_seq wp_read Some option.case Let_def st_def [symmetric] wp_transaction wp_ret
  proof (rule wp_mono, goal_cases)
    case (1 x u)
    then show ?case
      unfolding wp_clock
      by (auto intro!: wp_record simp: moved_unrecorded_def recorded_def remember_def)
  qed simp
qed

lemma wp_classify: "wp (classify K raw) Q E w =
    (case rspamd_classify (K (dk_calls (w_net w)) raw) of Inl e \<Rightarrow> E e (bump w) | Inr x \<Rightarrow> Q x (bump w))"
  by (simp add: wp_def classify_def)

lemma wp_classify_moves:
  fixes w :: "'p station"
  assumes "calm S" "cm_storage_state m = Pending"
    and elsewhere: "\<And>name st. st \<noteq> Pending \<Longrightarrow> cm_local_path m \<noteq> state_path cfg name (cm_sha256 m) st"
  shows "wp (classify_pending S H K cfg m) (\<lambda>m' u. moved_unrecorded m (w_db w) u) (\<lambda>e u. True) w"
proof -
  have applied: "w_db v = w_db w \<Longrightarrow>
      wp (apply_classification S H cfg m result False) (\<lambda>m' u. moved_unrecorded m (w_db w) u) (\<lambda>e u. True) v" for v :: "'p station" and result
    using wp_apply_moves [OF assms(1) elsewhere, where w = v] by simp
  show ?thesis
    unfolding classify_pending_def expect_digest_def is_file_at_def sha_at_def read_at_def wp_seq
    using assms(1,2) applied
    by (auto simp: calm_query calm_syscall wp_rules wp_classify read_bytes_def split: option.split node.split sum.split)
qed

lemma missing_source_is_refused:
  fixes w :: "'p station"
  assumes "calm S" "cm_storage_state m = Pending" "w_fs w (cm_local_path m) = None"
    and "canonical_message_by_id (w_db w) (cm_id m) = Some m"
  shows "\<exists>v. reconcile_one S H K cfg (cm_id m) w = (Inr [], v) \<and>
    canonical_messages (w_db v) = canonical_messages (w_db w) \<and> w_fs v = w_fs w"
proof -
  have "wp (reconcile_one S H K cfg (cm_id m))
      (\<lambda>x v. x = [] \<and> canonical_messages (w_db v) = canonical_messages (w_db w) \<and> w_fs v = w_fs w) (\<lambda>e v. False) w"
    unfolding reconcile_one_def classify_pending_def expect_digest_def is_file_at_def wp_seq wp_read
    using assms
    by (simp add: wp_rules calm_query is_file_def pending_integrity_def wp_transaction)
      (simp add: wp_def commit_def)
  then show ?thesis by (auto simp: wp_def split: prod.splits sum.splits)
qed

section \<open>A calm transition completes\<close>

definition free_way :: "fs \<Rightarrow> path \<Rightarrow> bool" where
  "free_way F p \<longleftrightarrow> list_all (\<lambda>q. F q = None \<or> F q = Some Directory) (ancestors p)"

lemma made_dirs: "fold make_dir ps F p = (if p \<in> set ps \<and> F p = None then Some Directory else F p)"
  by (induction ps arbitrary: F) (auto simp: make_dir_def)

lemma free_way_dirs: "free_way F p \<Longrightarrow> free_way (fold make_dir ps F) p"
  by (auto simp: free_way_def list_all_iff made_dirs)

lemma ancestors_length: "q \<in> set (ancestors p) \<Longrightarrow> length q \<le> length p"
  by (auto simp: ancestors_def)

lemma self_ancestor: "p \<noteq> [] \<Longrightarrow> p \<in> set (ancestors p)"
  unfolding ancestors_def by (cases p) (auto simp: image_iff intro!: bexI [of _ "length p"])

lemma row_of: "filter (\<lambda>c. cm_id c = i) t = [m] \<Longrightarrow> m \<in> set t \<and> cm_id m = i"
  by (drule arg_cong [where f = "\<lambda>l. m \<in> set l"]) simp

lemma placed_pending_check:
  "canonical_check m \<Longrightarrow> cm_storage_state m = Pending \<Longrightarrow> st \<noteq> Pending \<Longrightarrow>
     canonical_check (placed m destination st now m)"
  by (cases st) (auto simp: canonical_check_def placed_def moved_message_def)

lemma settled_record:
  assumes "\<not> transition_refused m destination st now d"
  shows "settled_row m destination st d (fst (classification_audits H k m result manual st
    (transition_tables m result manual destination st now d)))"
  using settled_tables [OF assms, of result manual] by (simp add: settled_row_def)

text \<open>What a transition needs of the files: an intact source in a directory, and room at the destination.\<close>

definition ready :: "host \<Rightarrow> canonical_message \<Rightarrow> path \<Rightarrow> bytes \<Rightarrow> fs \<Rightarrow> bool" where
  "ready H m destination b F \<longleftrightarrow>
     F (cm_local_path m) = Some (RegFile b) \<and> h_sha256 H b = cm_sha256 m \<and>
     F (parent (cm_local_path m)) = Some Directory \<and> F destination = None \<and>
     free_way F (parent destination) \<and> free_way F (parent (parent destination) @ [''new'']) \<and>
     free_way F (parent (parent destination) @ [''tmp''])"

lemma wp_mkdirs_calm:
  assumes "calm S" "free_way (w_fs w) p" "Q () (called (fold make_dir (ancestors p) (w_fs w)) w)"
  shows "wp (mkdirs S p) Q E w"
  using assms by (simp add: mkdirs_def calm_syscall free_way_def)

lemma wp_expect_calm:
  assumes "calm S" "intact H d p (w_fs w)" "\<And>u. w_fs u = w_fs w \<Longrightarrow> w_db u = w_db w \<Longrightarrow> Q () u"
  shows "wp (expect_digest S H p d msg) Q E w"
  using assms
  by (auto simp: expect_digest_def is_file_at_def sha_at_def read_at_def wp_rules calm_query calm_syscall
      is_file_def read_bytes_def intact_def split: option.splits node.splits)

lemma wp_move_calm:
  assumes calm: "calm S" and ready: "ready H m destination b (w_fs w)"
    and long: "2 \<le> length destination"
    and Q: "\<And>u. w_db u = w_db w \<Longrightarrow> w_fs u destination = Some (RegFile b) \<Longrightarrow>
      w_fs u (cm_local_path m) = None \<Longrightarrow> Q () u"
  shows "wp (move_exact S H (cm_local_path m) destination (cm_sha256 m)) Q E w"
proof -
  let ?src = "cm_local_path m" and ?D = "parent destination"
  let ?new = "parent ?D @ [''new'']" and ?tmp = "parent ?D @ [''tmp'']"
  let ?F = "fold make_dir (ancestors ?tmp) (fold make_dir (ancestors ?new) (fold make_dir (ancestors ?D) (w_fs w)))"
  have ne: "?D \<noteq> []" using long by (cases destination rule: rev_cases) (auto simp: parent_def)
  have short: "destination \<notin> set (ancestors p)" if "length p < length destination" for p
    using ancestors_length [of destination p] that by auto
  have D: "?F ?D = Some Directory"
    using self_ancestor [OF ne] ready ne
    by (auto simp: made_dirs ready_def free_way_def list_all_iff)
  have src: "?F ?src = Some (RegFile b)" using ready by (simp add: made_dirs ready_def)
  have dest: "?F destination = None"
    using ready long short [of ?D] short [of ?new] short [of ?tmp] by (simp add: made_dirs ready_def parent_def)
  have home: "?F (parent ?src) = Some Directory" using ready by (simp add: made_dirs ready_def)
  have differ: "?src \<noteq> destination" using src dest by auto
  have away: "parent ?src \<noteq> destination" "parent ?src \<noteq> ?src" using home dest src by auto
  have link: "wp (install S H ?src destination (cm_sha256 m)) Q' E' v"
    if "w_fs v = ?F" and "\<And>u. w_db u = w_db v \<Longrightarrow> w_fs u = ?F(destination \<mapsto> RegFile b) \<Longrightarrow> Q' () u" for v Q' E'
    unfolding install_def link_def wp_seq wp_attempt
    by (rule wp_expect_calm [OF calm])
      (use that src dest D ready in \<open>auto simp: intact_def ready_def calm_syscall [OF calm] is_file_def\<close>)
  have drop: "wp (drop_source S H ?src destination (cm_sha256 m)) Q E v"
    if "w_fs v = ?F(destination \<mapsto> RegFile b)" "w_db v = w_db w" for v
    unfolding drop_source_def sha_at_def read_at_def exists_at_def unlink_def fsync_directory_def wp_seq
    using that src differ away home ready
    by (auto simp: calm_query [OF calm] calm_syscall [OF calm] wp_rules file_exists_def read_bytes_def ready_def intro!: Q)
  show ?thesis
    unfolding move_exact_def Let_def wp_seq
    using ready
    by (intro wp_mkdirs_calm [OF calm])
      (use dest D differ in \<open>auto simp: ready_def free_way_dirs exists_at_def calm_query [OF calm] file_exists_def wp_if
         fsync_directory_def calm_syscall [OF calm] intro!: link drop\<close>)
qed

section \<open>The properties\<close>

text \<open>
  C37.  A transition never loses a message.  Starting from an intact file, whatever calls fail, tear
  or meet a concurrent process, at every moment the source or the destination holds the bytes, and
  no other file was changed; when it returns, the destination holds them and exactly this message's
  row names it; when it raises, the database is as it was.
\<close>

theorem transition_never_loses_bytes:
  assumes "apply_classification S H cfg m result manual w = (r, u)" and "dk_past (w_net w) = []"
    and "intact H (cm_sha256 m) (cm_local_path m) (w_fs w)"
    and "find (\<lambda>a. ar_id a = cm_account_id m) (accounts (w_db w)) = Some a"
    and "st = (if (if manual then cr_classification result else effective_auto_result (w_db w) m result) = Ham
       then Archived else Quarantined)"
    and "destination = state_path cfg (ar_name a) (cm_sha256 m) st"
  shows "(\<forall>F \<in> insert (w_fs u) (fst ` set (dk_past (w_net u))).
      held_somewhere H (cm_sha256 m) (cm_local_path m) destination F \<and> keeps_files (w_fs w) {cm_local_path m} F) \<and>
    (case r of
       Inr m' \<Rightarrow> cm_local_path m' = destination \<and> cm_storage_state m' = st \<and>
         intact H (cm_sha256 m) destination (w_fs u) \<and> settled_row m destination st (w_db w) (w_db u)
     | Inl e \<Rightarrow> w_db u = w_db w)"
proof -
  from wp_apply [OF assms(2-6), of S] assms(1)
  have "transiting H m destination w u \<and> (case r of
       Inr m' \<Rightarrow> cm_local_path m' = destination \<and> cm_storage_state m' = st \<and>
         intact H (cm_sha256 m) destination (w_fs u) \<and> settled_row m destination st (w_db w) (w_db u)
     | Inl e \<Rightarrow> w_db u = w_db w)"
    by (auto simp: wp_def split: sum.splits)
  then show ?thesis by (auto simp: transiting_def always_def moving_def)
qed

text \<open>
  C38.  What a crash strands.  Even with no failing call, every completed transition of a pending
  message passes a recorded moment at which its file has left staging and the database still says
  pending.  Restarted from there, recovery never completes the message: it reports a missing file,
  returns nothing for it and leaves its row pending, although \<open>_move_exact\<close> could finish the move.
\<close>

theorem crash_strands_pending_message:
  assumes "classify_pending S H K cfg m w = (Inr m', u)" and "calm S" and "cm_storage_state m = Pending"
    and "canonical_message_by_id (w_db w) (cm_id m) = Some m"
    and "\<forall>name. cm_local_path m \<noteq> state_path cfg name (cm_sha256 m) Archived \<and>
      cm_local_path m \<noteq> state_path cfg name (cm_sha256 m) Quarantined"
  shows "\<exists>F. (F, w_db w) \<in> set (dk_past (w_net u)) \<and>
    (\<forall>S' K' w'. calm S' \<and> w_fs w' = F \<and> w_db w' = w_db w \<longrightarrow>
       (\<exists>v. reconcile_one S' H K' cfg (cm_id m) (w' :: 'p station) = (Inr [], v) \<and>
         canonical_messages (w_db v) = canonical_messages (w_db w) \<and> w_fs v = F))"
proof -
  have "cm_local_path m \<noteq> state_path cfg name (cm_sha256 m) st" if "st \<noteq> Pending" for name st
    using assms(5) that by (cases st) auto
  from wp_classify_moves [OF assms(2,3) this, of H K w] assms(1)
  obtain F where F: "(F, w_db w) \<in> set (dk_past (w_net u))" "F (cm_local_path m) = None"
    by (auto simp: wp_def moved_unrecorded_def)
  have "\<exists>v. reconcile_one S' H K' cfg (cm_id m) w' = (Inr [], v) \<and>
         canonical_messages (w_db v) = canonical_messages (w_db w) \<and> w_fs v = F"
    if "calm S'" "w_fs w' = F" "w_db w' = w_db w" for S' K' and w' :: "'p station"
    using missing_source_is_refused [OF that(1) assms(3), of w' H K' cfg] that(2,3) F(2) assms(4) by simp
  with F(1) show ?thesis by blast
qed

text \<open>
  C39.  Every waiting message can be decided: with no failing call and no other process, a pending
  message whose file is intact, whose place is free and whose row is sound is classified by one call;
  the call returns, the row says archived or quarantined as the verdict demands, the bytes stand at
  the new place and staging no longer holds them.
\<close>

theorem classify_pending_completes:
  fixes w :: "'p station"
  assumes "calm S" and "cm_storage_state m = Pending" and "canonical_check m"
    and "filter (\<lambda>c. cm_id c = cm_id m) (canonical_messages (w_db w)) = [m]"
    and "find (\<lambda>a. ar_id a = cm_account_id m) (accounts (w_db w)) = Some a"
    and "\<forall>k. rspamd_classify (K k b) = Inr result"
    and "st = (if effective_auto_result (w_db w) m result = Ham then Archived else Quarantined)"
    and "destination = state_path cfg (ar_name a) (cm_sha256 m) st"
    and "\<forall>c \<in> set (canonical_messages (w_db w)). cm_id c \<noteq> cm_id m \<longrightarrow> cm_local_path c \<noteq> destination"
    and "ready H m destination b (w_fs w)"
  shows "\<exists>m' u. classify_pending S H K cfg m w = (Inr m', u) \<and> cm_storage_state m' = st \<and>
    cm_local_path m' = destination \<and> w_fs u destination = Some (RegFile b) \<and>
    w_fs u (cm_local_path m) = None \<and> settled_row m destination st (w_db w) (w_db u)"
proof -
  let ?Q = "\<lambda>m' u. cm_storage_state m' = st \<and> cm_local_path m' = destination \<and>
    w_fs u destination = Some (RegFile b) \<and> w_fs u (cm_local_path m) = None \<and>
    settled_row m destination st (w_db w) (w_db u)"
  have long: "2 \<le> length destination" by (simp add: assms(8) state_path_def)
  have room: "\<not> transition_refused m destination st now (w_db w)" for now
    using assms(2,3,7,9) row_of [OF assms(4)] unfolding transition_refused_def
    by (simp add: assms(4) list_ex_iff placed_pending_check) blast
  have recorded: "wp (record_transition H m result False destination st now) Q E v"
    if "w_db v = w_db w" "\<And>u. w_fs u = w_fs v \<Longrightarrow> settled_row m destination st (w_db w) (w_db u) \<Longrightarrow> Q () u"
    for v :: "'p station" and Q E now
    using that room settled_record [OF room] by (simp add: wp_def record_transition_def Let_def commit_def)
  have applied: "wp (apply_classification S H cfg m result False) ?Q (\<lambda>e u. False) v"
    if "w_db v = w_db w" "w_fs v = w_fs w" for v :: "'p station"
    unfolding apply_classification_def wp_seq wp_read that assms(5) option.case Let_def if_False
      assms(7) [symmetric] assms(8) [symmetric] wp_transaction wp_ret
    by (rule wp_move_calm [OF assms(1) _ long, where b = b])
      (use assms(10) that in \<open>auto simp: wp_clock moved_message_def intro!: recorded\<close>)
  have "wp (classify_pending S H K cfg m) ?Q (\<lambda>e u. False) w"
    unfolding classify_pending_def
    using assms(1,2,6,10)
    by (auto simp: wp_seq ready_def intact_def read_at_def calm_syscall read_bytes_def wp_classify
        intro!: wp_expect_calm applied)
  then show ?thesis by (auto simp: wp_def split: prod.splits sum.splits)
qed

end
