(* ===== verification/Acquire.thy ===== *)
theory Acquire
  imports Classification Wire PyText
begin

text \<open>
  What the acquisition adapters of \<open>pop3.py\<close> and \<open>imap.py\<close> share: the outside they run in, provider
  commands inside a local operation, the account lock around it, and the transaction that binds a
  provider identity to a canonical message.  The locales \<open>step_frame\<close> and \<open>acquisition_frame\<close> collect
  what a relation between the states before and after must satisfy to be kept by every local part of an
  acquisition; the adapters use it for what they send and for the bindings they keep.
\<close>

section \<open>The outside of an acquisition\<close>

text \<open>
  The system calls, the host, the mail parser, the spam filter, the provider, and \<open>__name__\<close> of an
  exception's class (the model's exceptions stand for several classes each).
\<close>

record 's outside =
  ou_system :: system
  ou_host :: host
  ou_parser :: mail_parser
  ou_classifier :: classifier
  ou_peer :: "'s peer"
  ou_class_name :: "error \<Rightarrow> string"

definition on_net :: "('s net, 'a) prog \<Rightarrow> ('s net station, 'a) prog" where
  "on_net m w = (case m (dk_rest (w_net w)) of (r, n) \<Rightarrow> (r, w\<lparr>w_net := (w_net w)\<lparr>dk_rest := n\<rparr>\<rparr>))"

definition locked :: "'s peer \<Rightarrow> path \<Rightarrow> error \<Rightarrow> ('s net station, 'a) prog \<Rightarrow> ('s net station, 'a) prog" where
  "locked P p busy body =
     seq (on_net (issue P (TryLock p))) (\<lambda>r.
       if r = Busy then fail busy else finalize body (on_net (command_done P (Unlock p))))"

text \<open>\<open>_audit\<close> of both adapters.\<close>

definition acquisition_audit :: "host \<Rightarrow> string \<Rightarrow> string \<Rightarrow> string \<Rightarrow> string \<Rightarrow> (string \<times> json) list \<Rightarrow>
    ('p station, unit) prog" where
  "acquisition_audit H actor name event res details = transaction (\<lambda>w. (Inr (), commit
     (insert_audit_event (reading H w 0) actor event res (account_id (w_db w) name) None
       (json_sorted details) (w_db w)) 1 w))"

section \<open>Binding a provider identity\<close>

text \<open>
  The upsert of the remote row (\<open>same\<close> is the provider's unique key, an existing row is only seen
  again), then \<open>INSERT OR IGNORE\<close> of the link unless the identity is linked to another canonical
  message.  The first component reports that conflict.
\<close>

definition upsert_remote :: "(remote_row \<Rightarrow> bool) \<Rightarrow> remote_row \<Rightarrow> remote_row list \<Rightarrow> remote_row list result" where
  "upsert_remote same row rows =
     (if list_ex same rows
      then Inr (update_where same (\<lambda>r. r\<lparr>rm_last_seen_at := rm_last_seen_at row, rm_remote_present := True\<rparr>) rows)
      else if \<not> remote_check row \<or> list_ex (\<lambda>r. rm_id r = rm_id row) rows then Inl IntegrityError
      else Inr (rows @ [row]))"

definition link_remote :: "string \<Rightarrow> string \<Rightarrow> string \<Rightarrow> string \<Rightarrow> db \<Rightarrow> (bool \<times> db) result" where
  "link_remote rid cid reason now d =
     (case find (\<lambda>l. lk_remote_message_id l = rid) (remote_canonical_links d) of
        Some l \<Rightarrow> Inr (lk_canonical_message_id l \<noteq> cid, d)
      | None \<Rightarrow>
          if list_ex (\<lambda>c. cm_id c = cid) (canonical_messages d)
          then Inr (False, d\<lparr>remote_canonical_links := remote_canonical_links d @
            [\<lparr>lk_remote_message_id = rid, lk_canonical_message_id = cid, lk_link_reason = reason, lk_created_at = now\<rparr>]\<rparr>)
          else Inl IntegrityError)"

definition bind_remote :: "(remote_row \<Rightarrow> bool) \<Rightarrow> remote_row \<Rightarrow> string \<Rightarrow> string \<Rightarrow> db \<Rightarrow> (bool \<times> db) result" where
  "bind_remote same row cid reason d =
     rbind (upsert_remote same row (remote_messages d)) (\<lambda>rows.
     case find same rows of
       None \<Rightarrow> Inl TypeError
     | Some r \<Rightarrow> link_remote (rm_id r) cid reason (rm_last_seen_at row) (d\<lparr>remote_messages := rows\<rparr>))"

text \<open>What identifies a remote row; acquisition never changes it.\<close>

definition identity_of :: "remote_row \<Rightarrow> string \<times> int \<times> provider \<times> string option \<times> int option \<times> int option \<times> string option" where
  "identity_of r = (rm_id r, rm_account_id r, rm_provider_kind r, rm_remote_folder r, rm_uidvalidity r,
     rm_remote_uid r, rm_provider_message_id r)"

definition account_key :: "account_row \<Rightarrow> int \<times> string" where
  "account_key a = (ar_id a, ar_name a)"

text \<open>
  \<open>bindings_grow d d'\<close>: every account, remote identity and link is kept, in place; new ones are added.
\<close>

definition bindings_grow :: "db \<Rightarrow> db \<Rightarrow> bool" where
  "bindings_grow d d' \<longleftrightarrow>
     (\<exists>rs. map identity_of (remote_messages d') = map identity_of (remote_messages d) @ rs) \<and>
     (\<exists>ls. remote_canonical_links d' = remote_canonical_links d @ ls) \<and>
     (\<exists>as. map account_key (accounts d') = map account_key (accounts d) @ as)"

lemma bindings_refl [simp]: "bindings_grow d d"
  by (simp add: bindings_grow_def)

lemma bindings_trans: "bindings_grow d e \<Longrightarrow> bindings_grow e f \<Longrightarrow> bindings_grow d f"
  by (auto simp: bindings_grow_def)

text \<open>A provider identity that is linked to a canonical message.\<close>

definition linked :: "(remote_row \<Rightarrow> bool) \<Rightarrow> db \<Rightarrow> bool" where
  "linked same d \<longleftrightarrow> list_ex (\<lambda>r. same r \<and>
     list_ex (\<lambda>l. lk_remote_message_id l = rm_id r) (remote_canonical_links d)) (remote_messages d)"

text \<open>The same for an identity within the account of a name.\<close>

definition account_linked :: "string \<Rightarrow> (int \<Rightarrow> remote_row \<Rightarrow> bool) \<Rightarrow> db \<Rightarrow> bool" where
  "account_linked name same d \<longleftrightarrow> list_ex (\<lambda>a. ar_name a = name \<and> linked (same (ar_id a)) d) (accounts d)"

text \<open>\<open>same\<close> looks at nothing but the identity.\<close>

definition identifying :: "(remote_row \<Rightarrow> bool) \<Rightarrow> bool" where
  "identifying same \<longleftrightarrow> (\<forall>r r'. identity_of r = identity_of r' \<longrightarrow> same r = same r')"

lemma identifyingD: "identifying same \<Longrightarrow> identity_of r = identity_of r' \<Longrightarrow> same r = same r'"
  unfolding identifying_def by blast

lemma linked_grows:
  assumes "linked same d" "bindings_grow d d'" "identifying same"
  shows "linked same d'"
proof -
  from assms(1) obtain r l where r: "r \<in> set (remote_messages d)" "same r"
    and l: "l \<in> set (remote_canonical_links d)" "lk_remote_message_id l = rm_id r"
    by (auto simp: linked_def list_ex_iff)
  from assms(2) obtain rs ls where "map identity_of (remote_messages d') = map identity_of (remote_messages d) @ rs"
    and ls: "remote_canonical_links d' = remote_canonical_links d @ ls"
    unfolding bindings_grow_def by blast
  with r(1) have "identity_of r \<in> set (map identity_of (remote_messages d'))" by simp
  then obtain r' where r': "r' \<in> set (remote_messages d')" "identity_of r' = identity_of r" by auto
  from identifyingD [OF assms(3) this(2)] r(2) have "same r'" by simp
  moreover have "rm_id r' = rm_id r" using r'(2) by (simp add: identity_of_def)
  ultimately show ?thesis using r'(1) l ls unfolding linked_def list_ex_iff
    by (intro bexI [of _ r'] conjI bexI [of _ l]) simp_all
qed

lemma account_linked_grows:
  assumes "account_linked name same d" "bindings_grow d d'" "\<And>i. identifying (same i)"
  shows "account_linked name same d'"
proof -
  from assms(1) obtain a where a: "a \<in> set (accounts d)" "ar_name a = name" "linked (same (ar_id a)) d"
    by (auto simp: account_linked_def list_ex_iff)
  from assms(2) obtain as where "map account_key (accounts d') = map account_key (accounts d) @ as"
    unfolding bindings_grow_def by blast
  with a(1) have "account_key a \<in> set (map account_key (accounts d'))" by simp
  then obtain a' where a': "a' \<in> set (accounts d')" "ar_id a' = ar_id a" "ar_name a' = ar_name a"
    by (auto simp: account_key_def)
  with linked_grows [OF a(3) assms(2,3)] a(2) show ?thesis
    unfolding account_linked_def list_ex_iff by (intro bexI [of _ a']) simp_all
qed

lemma account_linkedI: "account_id d name = Some i \<Longrightarrow> linked (same i) d \<Longrightarrow> account_linked name same d"
  by (auto simp: account_id_def account_linked_def list_ex_iff dest!: find_mem)

lemma account_keys_update: "(\<And>a. account_key (f a) = account_key a) \<Longrightarrow>
    map account_key (update_where P f t) = map account_key t"
  by (induction t) simp_all

lemma account_keys_upsert: "\<exists>as. map account_key (upsert_accounts H k accts t) = map account_key t @ as"
proof (induction accts arbitrary: k t)
  case (Cons a accts)
  have "\<exists>as. map account_key (upsert_account now a t) = map account_key t @ as" for now
    by (auto simp: upsert_account_def account_keys_update account_key_def)
  with Cons.IH show ?case by simp (metis append_assoc)
qed simp

lemma account_keys_reconciled:
  "\<exists>as. map account_key (upsert_accounts H k accts (disable_unconfigured now names t)) = map account_key t @ as"
  using account_keys_upsert [of H k accts "disable_unconfigured now names t"]
  by (simp add: disable_unconfigured_def account_keys_update account_key_def)

lemma identity_update: "(\<And>r. identity_of (f r) = identity_of r) \<Longrightarrow>
    map identity_of (update_where P f rows) = map identity_of rows"
  by (induction rows) simp_all

lemma identity_seen [simp]: "identity_of (r\<lparr>rm_last_seen_at := t, rm_remote_present := b\<rparr>) = identity_of r"
  "identity_of (r\<lparr>rm_last_seen_at := t\<rparr>) = identity_of r"
  by (simp_all add: identity_of_def)

lemma upsert_remote_identities:
  "upsert_remote same row rows = Inr rows' \<Longrightarrow> \<exists>rs. map identity_of rows' = map identity_of rows @ rs"
  by (auto simp: upsert_remote_def identity_update split: if_splits)

lemma link_remote_grows: "link_remote rid cid reason now d = Inr (c, d') \<Longrightarrow> bindings_grow d d'"
  by (auto simp: link_remote_def bindings_grow_def split: option.splits if_splits)

lemma link_remote_links:
  assumes "link_remote rid cid reason now d = Inr (False, d')"
  shows "\<exists>l \<in> set (remote_canonical_links d'). lk_remote_message_id l = rid"
  using assms by (auto simp: link_remote_def find_Some_iff split: option.splits if_splits)

lemma link_remote_rows: "link_remote rid cid reason now d = Inr (c, d') \<Longrightarrow>
    remote_messages d' = remote_messages d \<and> accounts d' = accounts d"
  by (auto simp: link_remote_def split: option.splits if_splits)

lemma bind_remote_parts:
  assumes "bind_remote same row cid reason d = Inr (c, d')"
  obtains rows r where "upsert_remote same row (remote_messages d) = Inr rows" "find same rows = Some r"
    "link_remote (rm_id r) cid reason (rm_last_seen_at row) (d\<lparr>remote_messages := rows\<rparr>) = Inr (c, d')"
  using assms by (auto simp: bind_remote_def rbind_Inr split: option.split_asm)

lemma bind_remote_grows:
  assumes "bind_remote same row cid reason d = Inr (c, d')"
  shows "bindings_grow d d'"
proof -
  from assms obtain rows and r :: remote_row where u: "upsert_remote same row (remote_messages d) = Inr rows"
    and l: "link_remote (rm_id r) cid reason (rm_last_seen_at row) (d\<lparr>remote_messages := rows\<rparr>) = Inr (c, d')"
    by (rule bind_remote_parts) blast
  have "bindings_grow d (d\<lparr>remote_messages := rows\<rparr>)"
    using upsert_remote_identities [OF u] by (simp add: bindings_grow_def)
  then show ?thesis using link_remote_grows [OF l] by (rule bindings_trans)
qed

lemma bind_remote_account_id:
  "bind_remote same row cid reason d = Inr (c, d') \<Longrightarrow> account_id d' name = account_id d name"
  by (erule bind_remote_parts) (auto dest: link_remote_rows simp: account_id_def)

lemma bind_remote_linked:
  assumes "bind_remote same row cid reason d = Inr (False, d')"
  shows "linked same d'"
proof -
  from assms obtain rows r where r: "find same rows = Some r"
    and l: "link_remote (rm_id r) cid reason (rm_last_seen_at row) (d\<lparr>remote_messages := rows\<rparr>) = Inr (False, d')"
    by (rule bind_remote_parts) blast
  from r have "r \<in> set rows" "same r" by (auto simp: find_Some_iff)
  with link_remote_links [OF l] link_remote_rows [OF l] show ?thesis
    by (auto simp: linked_def list_ex_iff)
qed

section \<open>Relations every local part keeps\<close>

definition leads :: "('s net station \<Rightarrow> 's net station \<Rightarrow> bool) \<Rightarrow> ('s net station, 'a) prog \<Rightarrow> bool" where
  "leads R m \<longleftrightarrow> (\<forall>w. R w (snd (m w)))"

lemma leads_wp: "leads R m \<Longrightarrow> wp m (\<lambda>x. R w) (\<lambda>e. R w) w"
  by (simp add: leads_def wp_always)

text \<open>The state as far as the acquisition adapters share it with the provider and the bindings.\<close>

definition same_bindings :: "'s net station \<Rightarrow> 's net station \<Rightarrow> bool" where
  "same_bindings w v \<longleftrightarrow> remote_messages (w_db v) = remote_messages (w_db w) \<and>
     remote_canonical_links (w_db v) = remote_canonical_links (w_db w) \<and>
     (\<exists>as. map account_key (accounts (w_db v)) = map account_key (accounts (w_db w)) @ as) \<and>
     gmail_labels (w_db v) = gmail_labels (w_db w) \<and> gmail_message_labels (w_db v) = gmail_message_labels (w_db w) \<and>
     gmail_sync_state (w_db v) = gmail_sync_state (w_db w) \<and> dk_rest (w_net v) = dk_rest (w_net w)"

text \<open>
  A relation that holds when neither the database nor what the peer was told has changed is kept by
  every program of files and control flow whose parts keep it.
\<close>

locale step_frame =
  fixes R :: "'s net station \<Rightarrow> 's net station \<Rightarrow> bool"
  assumes quiet_step: "w_db v = w_db w \<Longrightarrow> dk_rest (w_net v) = dk_rest (w_net w) \<Longrightarrow> R w v"
    and steps: "R u v \<Longrightarrow> R v w \<Longrightarrow> R u w"
begin

lemma refl [simp]: "R w w"
  by (rule quiet_step) simp_all

lemma basic: "leads R (ret x)" "leads R (fail e)" "leads R (require b e)" "leads R (lift_result r)"
  "leads R (read_state f)" "leads R (clock H)"
  by (auto simp: leads_def run_simps clock_def intro!: quiet_step)

lemma seq: "leads R m \<Longrightarrow> (\<And>x. leads R (f x)) \<Longrightarrow> leads R (seq m f)"
  unfolding leads_def seq_def by (auto split: prod.split sum.split) (metis snd_conv steps)+

lemma attempt: "leads R m \<Longrightarrow> (\<And>e. C e \<Longrightarrow> leads R (h e)) \<Longrightarrow> leads R (attempt m C h)"
  unfolding leads_def attempt_def by (auto split: prod.split sum.split) (metis snd_conv steps)+

lemma finalize: "leads R m \<Longrightarrow> leads R c \<Longrightarrow> leads R (finalize m c)"
  unfolding leads_def finalize_def by (auto split: prod.split sum.split) (metis snd_conv steps)+

lemma conditional: "(b \<Longrightarrow> leads R m) \<Longrightarrow> (\<not> b \<Longrightarrow> leads R n) \<Longrightarrow> leads R (if b then m else n)"
  by simp

lemma option_case: "leads R m \<Longrightarrow> (\<And>x. leads R (f x)) \<Longrightarrow> leads R (case y of None \<Rightarrow> m | Some x \<Rightarrow> f x)"
  by (simp split: option.split)

lemma loop: "(\<And>x. leads R (f x)) \<Longrightarrow> leads R (for_each f xs)"
  by (induction xs) (simp_all add: basic seq)

lemma on_error: "leads R m \<Longrightarrow> leads R c \<Longrightarrow> leads R (on_error m c)"
  unfolding on_error_def by (intro attempt seq basic)

lemma syscall: "leads R (syscall S torn f)"
  unfolding leads_def
  by (auto simp: syscall_def Let_def put_fs_def bump_def remember_def
      intro!: quiet_step split: os_event.split sum.split prod.split)

lemma query: "leads R (query S f)"
  by (auto simp: leads_def query_def Let_def put_fs_def bump_def remember_def intro!: quiet_step)

lemma mkstemp: "leads R (mkstemp S dir pre suf)"
  using syscall unfolding leads_def mkstemp_def Let_def by blast

lemma remembering: "leads R (write_state remember)"
  by (auto simp: leads_def write_state_def remember_def intro!: quiet_step)

lemma transaction: "leads R m \<Longrightarrow> leads R (transaction m)"
  unfolding transaction_def by (intro seq basic remembering)

lemmas structural = seq attempt finalize conditional option_case loop on_error basic syscall query
  mkstemp transaction

end

text \<open>The same for a relation that is also kept by what the local parts write to the database.\<close>

locale acquisition_frame = step_frame R for R :: "'s net station \<Rightarrow> 's net station \<Rightarrow> bool" +
  assumes local_step: "same_bindings w v \<Longrightarrow> R w v"
begin

lemma moving: "leads R (move_exact S H source destination sha)"
  unfolding move_exact_def install_def copy_in_def drop_source_def Let_def file_programs
  by (intro structural)

lemma creating: "leads R (create_canonical_file S H destination raw sha)"
  unfolding create_canonical_file_def write_and_link_def Let_def file_programs
  by (intro structural)

lemma verifying: "leads R (verify_canonical_message S H m)"
  unfolding verify_canonical_message_def file_programs by (intro structural)

lemma initializing: "leads R (initialize H a r)"
  by (auto simp: leads_def initialize_def Let_def same_bindings_def account_keys_reconciled
      intro!: local_step)

lemma registering: "leads R (register_canonical_message H m aid event details)"
  by (auto simp: leads_def register_canonical_message_def Let_def same_bindings_def
      intro!: local_step split: option.split)

lemma ingesting: "leads R (ingest_bytes S H M cfg raw name kind)"
  unfolding ingest_bytes_def admit_message_def reuse_message_def Let_def
  by (intro structural creating verifying initializing registering)

lemma recording: "leads R (record_transition H m result manual destination st now)"
  by (auto simp: leads_def record_transition_def Let_def same_bindings_def classification_audits_def
      transition_tables_def intro!: local_step split: option.split)

lemma applying: "leads R (apply_classification S H cfg m result manual)"
  unfolding apply_classification_def Let_def by (intro structural moving recording)

lemma classifying: "leads R (classify_pending S H K cfg m)"
proof -
  have "leads R (classify K raw)" for raw
    by (auto simp: leads_def classify_def same_bindings_def bump_def intro!: local_step)
  then show ?thesis
    unfolding classify_pending_def file_programs by (intro structural applying)
qed

lemma auditing: "leads R (acquisition_audit H actor name event res details)"
  unfolding acquisition_audit_def
  by (rule transaction) (auto simp: leads_def same_bindings_def intro!: local_step)

lemma reconciling: "leads R (reconcile_pending S H K cfg name limit)"
proof -
  have "leads R (pending_integrity H m)" for m
    unfolding pending_integrity_def
    by (rule transaction) (auto simp: leads_def same_bindings_def intro!: local_step)
  then have "leads R (reconcile_one S H K cfg ident)" for ident
    unfolding reconcile_one_def by (intro structural classifying)
  then show ?thesis unfolding reconcile_pending_def by (intro structural)
qed

lemmas local_parts = ingesting classifying reconciling auditing initializing

end

text \<open>What was sent to the provider, and what is bound, as relations between two states.\<close>

definition sends_only :: "(command \<Rightarrow> bool) \<Rightarrow> 's net station \<Rightarrow> 's net station \<Rightarrow> bool" where
  "sends_only C w v \<longleftrightarrow> extends C (dk_rest (w_net w)) (dk_rest (w_net v))"

definition keeps_bindings :: "'s net station \<Rightarrow> 's net station \<Rightarrow> bool" where
  "keeps_bindings w v \<longleftrightarrow> bindings_grow (w_db w) (w_db v)"

interpretation sending: acquisition_frame "sends_only C"
  by unfold_locales (auto simp: sends_only_def same_bindings_def intro: extends_trans)

interpretation binding: acquisition_frame keeps_bindings
  by unfold_locales (auto simp: keeps_bindings_def same_bindings_def bindings_grow_def)

lemma sends_on_net: "adds C (\<lambda>e. True) m \<Longrightarrow> leads (sends_only C) (on_net m)"
  by (auto simp: leads_def sends_only_def on_net_def adds_def wp_always split: prod.split)
    (metis snd_conv)

lemma binding_on_net: "leads keeps_bindings (on_net m)"
  by (auto simp: leads_def keeps_bindings_def on_net_def split: prod.split)

lemma sends_locked:
  "leads (sends_only C) body \<Longrightarrow> C (TryLock p) \<Longrightarrow> C (Unlock p) \<Longrightarrow> leads (sends_only C) (locked P p busy body)"
  unfolding locked_def by (intro sending.structural sends_on_net adds_intros) auto

lemma binding_locked: "leads keeps_bindings body \<Longrightarrow> leads keeps_bindings (locked P p busy body)"
  unfolding locked_def by (intro binding.structural binding_on_net)

section \<open>Postconditions about bindings\<close>

lemma wp_on_net:
  assumes "\<And>s. wp m (\<lambda>x t. Q x) (\<lambda>e t. True) s"
  shows "wp (on_net m) (\<lambda>x v. Q x \<and> w_db v = w_db w) (\<lambda>e v. w_db v = w_db w) w"
  using assms [of "dk_rest (w_net w)"]
  by (auto simp: wp_def on_net_def split: prod.splits sum.splits)

text \<open>What holds of the bindings stays true while a part runs that keeps them.\<close>

lemma wp_keeping:
  assumes "leads keeps_bindings m" and "Q w" and "\<And>v. keeps_bindings w v \<Longrightarrow> Q w \<Longrightarrow> Q v"
  shows "wp m (\<lambda>x. Q) (\<lambda>e v. True) w"
  by (rule wp_mono [OF leads_wp [OF assms(1)]]) (use assms(2,3) in auto)

lemma keeps_account_linked:
  "keeps_bindings w v \<Longrightarrow> (\<And>i. identifying (same i)) \<Longrightarrow> account_linked name same (w_db w) \<Longrightarrow>
     account_linked name same (w_db v)"
  unfolding keeps_bindings_def by (rule account_linked_grows)

text \<open>A \<open>finally\<close> clause and a handler that raises again do not disturb a postcondition of the return.\<close>

lemma wp_finalize_return:
  assumes "wp m Q (\<lambda>e v. True) w" and "\<And>x v. Q x v \<Longrightarrow> wp c (\<lambda>u. Q x) (\<lambda>e v. True) v"
  shows "wp (finalize m c) Q (\<lambda>e v. True) w"
  unfolding wp_finalize
  by (rule wp_mono [OF assms(1)]) (use assms(2) in \<open>auto simp: wp_always\<close>)

lemma wp_reraise:
  assumes "wp m Q (\<lambda>e v. True) w"
  shows "wp (attempt m C (\<lambda>e. seq (c e) (\<lambda>u. fail (f e)))) Q (\<lambda>e v. True) w"
  unfolding wp_attempt
proof (rule wp_mono [OF assms])
  fix e v
  show "(if C e then wp (seq (c e) (\<lambda>u. fail (f e))) Q (\<lambda>e v. True) else (\<lambda>v. True)) v"
    by (simp add: wp_seq_any)
qed

lemma wp_locked:
  assumes "\<And>v. wp body Q (\<lambda>e v. True) v" and "\<And>x u v. keeps_bindings u v \<Longrightarrow> Q x u \<Longrightarrow> Q x v"
  shows "wp (locked P p busy body) Q (\<lambda>e v. True) w"
proof -
  have "wp (if r = Busy then fail busy else finalize body (on_net (command_done P (Unlock p)))) Q (\<lambda>e v. True) v"
    for r v
    by (cases "r = Busy") (auto intro!: wp_finalize_return [OF assms(1)] wp_keeping [OF binding_on_net]
        intro: assms(2))
  then show ?thesis unfolding locked_def by (rule wp_seq_any)
qed

text \<open>A loop whose rounds establish a lasting fact each establishes all of them.\<close>

lemma wp_for_each_lasting:
  assumes round: "\<And>x v. x \<in> set xs \<Longrightarrow> K v \<Longrightarrow> wp (f x) (\<lambda>y. Q x) (\<lambda>e v. True) v"
    and keeps: "\<And>x. leads keeps_bindings (f x)"
    and K: "\<And>u v. keeps_bindings u v \<Longrightarrow> K u \<Longrightarrow> K v"
    and Q: "\<And>x u v. keeps_bindings u v \<Longrightarrow> Q x u \<Longrightarrow> Q x v"
    and start: "K w"
  shows "wp (for_each f xs) (\<lambda>ys v. \<forall>x \<in> set xs. Q x v) (\<lambda>e v. True) w"
  using round start
proof (induction xs arbitrary: w)
  case Nil
  then show ?case by (simp add: wp_rules)
next
  case (Cons x xs)
  have "wp (f x) (\<lambda>y v. Q x v \<and> K v) (\<lambda>e v. True) w"
    by (rule wp_mono [OF wp_both [OF Cons.prems(1) leads_wp [OF keeps]]]) (use Cons.prems(2) K in auto)
  then show ?case
    unfolding for_each.simps wp_seq wp_ret
  proof (rule wp_mono)
    fix y v assume v: "Q x v \<and> K v"
    have "wp (for_each f xs) (\<lambda>ys u. \<forall>z \<in> set xs. Q z u) (\<lambda>e u. True) v"
      using Cons.IH Cons.prems(1) v by simp
    from wp_both [OF this leads_wp [OF binding.loop [OF keeps]]]
    show "wp (for_each f xs) (\<lambda>ys u. \<forall>z \<in> set (x # xs). Q z u) (\<lambda>e u. True) v"
      by (rule wp_mono) (use v Q in auto)
  qed simp
qed

end
