(* ===== verification/GmailClient.thy ===== *)
theory GmailClient
  imports GmailProtocol Acquire
begin

text \<open>
  The read-only Gmail client of \<open>gmail.py\<close>: the scope check of a credential, the managed session that
  refreshes and stores it, and the GET requests with their retries.  The credentials object (the OAuth
  library), the token file and the HTTP server answer as the peer.  The pauses between two attempts
  change no state and are left out.
\<close>

section \<open>Credentials\<close>

definition GMAIL_READONLY_SCOPE :: string where
  "GMAIL_READONLY_SCOPE = ''https://www.googleapis.com/auth/gmail.readonly''"

definition token_path :: "account_config \<Rightarrow> path result" where
  "token_path a =
     (if starts_with ''file:'' (ac_config_ref a) then Inr (path_of (drop 5 (ac_config_ref a)))
      else Inl (GmailAuthError ''Gmail token must use file: config_ref''))"

definition gmail_scope :: "string \<Rightarrow> bool" where
  "gmail_scope s \<longleftrightarrow> starts_with ''https://www.googleapis.com/auth/gmail'' s \<or> s = ''https://mail.google.com/''"

definition validate_readonly_scopes :: "pyval option \<Rightarrow> unit result" where
  "validate_readonly_scopes v =
     (case v of
        Some (VList l) \<Rightarrow>
          if list_all (\<lambda>x. scope_text x \<noteq> None) l
          then (if set (filter gmail_scope (map (\<lambda>x. the (scope_text x)) l)) = {GMAIL_READONLY_SCOPE}
                then Inr ()
                else Inl (GmailAuthError ''Gmail credential scope is not readonly''))
          else Inl (GmailAuthError ''Gmail credential scopes cannot be proven readonly'')
      | _ \<Rightarrow> Inl (GmailAuthError ''Gmail credential scopes cannot be proven readonly''))"

definition load_credentials :: "(path \<Rightarrow> token_file) \<Rightarrow> account_config \<Rightarrow> path result" where
  "load_credentials T a =
     rbind (token_path a) (\<lambda>p.
     case T p of
       NoToken \<Rightarrow> Inl (GmailAuthError ''Gmail authorized-user token file is absent'')
     | UnsafeToken \<Rightarrow> Inl (GmailAuthError ''Gmail token file must be a regular 0600 file'')
     | UnreadableToken \<Rightarrow> Inl (GmailAuthError ''Gmail authorized-user token file is invalid'')
     | Token v loads \<Rightarrow>
         (case v of
            VDict kvs \<Rightarrow> rbind (validate_readonly_scopes (dict_get kvs ''scopes'')) (\<lambda>u.
              if loads then Inr p else Inl (ValueError ''authorized user info''))
          | _ \<Rightarrow> Inl (GmailAuthError ''Gmail authorized-user token file is invalid'')))"

lemma load_credentials_path:
  assumes "load_credentials T a = Inr p"
  shows "token_path a = Inr p"
proof (cases "token_path a")
  case (Inr q)
  show ?thesis
  proof (cases "T q")
    case (Token v loads)
    with Inr assms show ?thesis
      by (cases v) (simp_all add: load_credentials_def rbind_Inr split: if_splits)
  qed (use Inr assms in \<open>simp_all add: load_credentials_def\<close>)
qed (use assms in \<open>simp add: load_credentials_def\<close>)

text \<open>\<open>to_json\<close> and its check; what is written is the document the payload is the parse of.\<close>

definition serialized_readonly_credentials :: "'s peer \<Rightarrow> ('s net, pyval) prog" where
  "serialized_readonly_credentials P =
     seq (issue P CredJson) (\<lambda>r. case r of
       Parsed (Some (VDict kvs)) \<Rightarrow>
         seq (lift_result (validate_readonly_scopes (dict_get kvs ''scopes''))) (\<lambda>u. ret (VDict kvs))
     | Parsed x \<Rightarrow> fail (GmailAuthError ''Gmail credentials cannot be safely persisted'')
     | _ \<Rightarrow> fail TypeError)"

section \<open>The managed session\<close>

text \<open>What the session keeps: where the token is stored, and whether a refreshed one is.\<close>

record gmail_session =
  gl_token_path :: path
  gl_persist :: bool

definition session_refresh :: "'s peer \<Rightarrow> gmail_session \<Rightarrow> ('s net, unit) prog" where
  "session_refresh P G =
     seq (attempt (command_done P CredRefresh) (\<lambda>e. e = RefreshError)
            (\<lambda>e. fail (GmailAuthError ''Gmail OAuth refresh failed''))) (\<lambda>u.
     seq (serialized_readonly_credentials P) (\<lambda>v.
     if gl_persist G
     then attempt (command_done P (InstallToken (gl_token_path G) v)) os_error
            (\<lambda>e. fail (GmailAuthError ''Gmail refreshed credential cannot be safely persisted''))
     else ret ()))"

definition access_token :: "'s peer \<Rightarrow> ('s net, string) prog" where
  "access_token P =
     seq (issue P CredToken) (\<lambda>r. case r of
       Text (Some t) \<Rightarrow> if t = [] then fail (GmailAuthError ''Gmail OAuth access token is unavailable'')
                      else ret t
     | _ \<Rightarrow> fail (GmailAuthError ''Gmail OAuth access token is unavailable''))"

definition http_request ::
  "'s peer \<Rightarrow> string \<Rightarrow> (string \<times> string) list \<Rightarrow> string \<Rightarrow> ('s net, int \<times> pyval option) prog" where
  "http_request P url params token =
     seq (issue P (HttpGet url params token)) (\<lambda>r. case r of
       Http status body \<Rightarrow> ret (status, body)
     | _ \<Rightarrow> fail TypeError)"

definition session_get ::
  "'s peer \<Rightarrow> gmail_session \<Rightarrow> string \<Rightarrow> (string \<times> string) list \<Rightarrow> ('s net, int \<times> pyval option) prog" where
  "session_get P G url params =
     seq (issue P CredValid) (\<lambda>valid.
     seq (if valid = Flag True then ret () else session_refresh P G) (\<lambda>u.
     seq (access_token P) (\<lambda>token.
     seq (http_request P url params token) (\<lambda>r.
     if fst r = 401 \<or> fst r = 403
     then seq (session_refresh P G) (\<lambda>u. seq (access_token P) (http_request P url params))
     else ret r))))"

section \<open>Requests\<close>

definition transient :: "int \<Rightarrow> bool" where
  "transient status \<longleftrightarrow> status \<in> {429, 500, 502, 503, 504}"

text \<open>The loop over the attempts, \<open>n\<close> of which are left after this one.\<close>

fun get_attempts :: "('s net, int \<times> pyval option) prog \<Rightarrow> string \<Rightarrow> nat \<Rightarrow> ('s net, int \<times> pyval option) prog" where
  "get_attempts get op 0 =
     attempt get (\<lambda>e. e = RequestException) (\<lambda>e. fail (GmailTransientError op))"
| "get_attempts get op (Suc n) =
     seq (attempt (seq get (\<lambda>r. ret (Some r))) (\<lambda>e. e = RequestException) (\<lambda>e. ret None)) (\<lambda>response.
     case response of
       None \<Rightarrow> get_attempts get op n
     | Some r \<Rightarrow> if transient (fst r) then get_attempts get op n else ret r)"

definition get_result :: "string \<Rightarrow> int \<times> pyval option \<Rightarrow> (pyval \<times> pyval) list result" where
  "get_result op r =
     (case r of (status, body) \<Rightarrow>
      if status = 404 \<and> op = ''history.list'' then Inl GmailHistoryExpired
      else if transient status then Inl (GmailTransientError op)
      else if status = 401 \<or> status = 403 then Inl (GmailAuthError op)
      else if status \<noteq> 200 then Inl (GmailResponseError op)
      else (case body of
          Some (VDict kvs) \<Rightarrow> Inr kvs
        | None \<Rightarrow> Inl (GmailResponseError op)
        | Some v \<Rightarrow> Inl (GmailResponseError op)))"

definition gmail_get ::
  "'s peer \<Rightarrow> gmail_session \<Rightarrow> string \<Rightarrow> string \<Rightarrow> (string \<times> string) list \<Rightarrow> ('s net, (pyval \<times> pyval) list) prog" where
  "gmail_get P G op url params =
     seq (get_attempts (session_get P G url params) op 2) (\<lambda>r. lift_result (get_result op r))"

definition get_profile :: "'s peer \<Rightarrow> gmail_session \<Rightarrow> ('s net, (pyval \<times> pyval) list) prog" where
  "get_profile P G = gmail_get P G ''profile'' ''profile'' []"

definition get_labels :: "'s peer \<Rightarrow> gmail_session \<Rightarrow> ('s net, (pyval \<times> pyval) list) prog" where
  "get_labels P G = gmail_get P G ''labels.list'' ''labels'' []"

text \<open>A page token is sent when it is given and not empty.\<close>

definition page_params :: "string option \<Rightarrow> (string \<times> string) list" where
  "page_params token = (case token of None \<Rightarrow> [] | Some t \<Rightarrow> if t = [] then [] else [(''pageToken'', t)])"

definition get_messages :: "'s peer \<Rightarrow> gmail_session \<Rightarrow> string option \<Rightarrow> nat \<Rightarrow> ('s net, (pyval \<times> pyval) list) prog" where
  "get_messages P G token max_results =
     gmail_get P G ''messages.list'' ''messages''
       ([(''maxResults'', int_text (int max_results)), (''includeSpamTrash'', ''true'')] @ page_params token)"

definition get_message :: "'s peer \<Rightarrow> gmail_session \<Rightarrow> string \<Rightarrow> string \<Rightarrow> ('s net, (pyval \<times> pyval) list) prog" where
  "get_message P G mid format =
     seq (require (format \<in> {''raw'', ''minimal''}) (GmailResponseError ''unsupported Gmail message format'')) (\<lambda>u.
     seq (lift_result (valid_id (VStr mid) ''message id'')) (\<lambda>x.
     gmail_get P G ''messages.get'' (message_path x) [(''format'', format)]))"

definition get_history :: "'s peer \<Rightarrow> gmail_session \<Rightarrow> string \<Rightarrow> string option \<Rightarrow> ('s net, (pyval \<times> pyval) list) prog" where
  "get_history P G start token =
     seq (lift_result (history_id (VStr start))) (\<lambda>h.
     gmail_get P G ''history.list'' ''history''
       ([(''startHistoryId'', h), (''maxResults'', ''500'')] @ page_params token))"

text \<open>\<open>_verify\<close>\<close>

definition verify_profile :: "'s peer \<Rightarrow> gmail_session \<Rightarrow> gmail_config \<Rightarrow> ('s net, string) prog" where
  "verify_profile P G g =
     seq (get_profile P G) (\<lambda>profile.
     seq (lift_result (valid_id (dict_get_or profile ''emailAddress'' VNull) ''profile email'')) (\<lambda>actual.
     seq (require (casefold actual = casefold (gc_account_email g))
       (GmailAuthError ''authenticated Gmail profile does not match configured account'')) (\<lambda>u.
     ret actual)))"

section \<open>What a client sends\<close>

text \<open>A stored credential has the read-only scope and no other mailbox scope.\<close>

definition readonly_payload :: "pyval \<Rightarrow> bool" where
  "readonly_payload v \<longleftrightarrow>
     (case v of VDict kvs \<Rightarrow> validate_readonly_scopes (dict_get kvs ''scopes'') = Inr () | _ \<Rightarrow> False)"

fun reads_gmail :: "(path \<Rightarrow> bool) \<Rightarrow> command \<Rightarrow> bool" where
  "reads_gmail ok (HttpGet url params token) = True"
| "reads_gmail ok (InstallToken p v) = (ok p \<and> readonly_payload v)"
| "reads_gmail ok CredValid = True"
| "reads_gmail ok CredToken = True"
| "reads_gmail ok CredRefresh = True"
| "reads_gmail ok CredJson = True"
| "reads_gmail ok (TryLock p) = True"
| "reads_gmail ok (Unlock p) = True"
| "reads_gmail ok _ = False"

abbreviation reads :: "(path \<Rightarrow> bool) \<Rightarrow> ('s net, 'a) prog \<Rightarrow> bool" where
  "reads ok \<equiv> adds (reads_gmail ok) (\<lambda>e. True)"

lemma reads_lift: "reads ok (lift_result r)"
  by (rule adds_lift) simp

lemma reads_attempt: "reads ok m \<Longrightarrow> (\<And>e. reads ok (h e)) \<Longrightarrow> reads ok (attempt m C h)"
  by (rule adds_attempt) auto

lemma adds_seq_after:
  assumes "adds R E m" and "\<And>s. wp m (\<lambda>x t. A x) (\<lambda>e t. True) s" and "\<And>x. A x \<Longrightarrow> adds R E (f x)"
  shows "adds R E (seq m f)"
  unfolding adds_def wp_seq
proof
  fix s
  show "wp m (\<lambda>x. wp (f x) (\<lambda>x. extends R s) (\<lambda>e t. extends R s t \<and> E e)) (\<lambda>e t. extends R s t \<and> E e) s"
    by (rule wp_mono [OF wp_both [OF addsD [OF assms(1)] assms(2)]])
      (auto intro!: adds_wp [OF assms(3)] intro: extends_trans)
qed

lemma serialized_document:
  fixes P :: "'s peer"
  shows "reads ok (serialized_readonly_credentials P)"
    and "wp (serialized_readonly_credentials P) (\<lambda>v t. readonly_payload v) (\<lambda>e t. True) s"
proof -
  have parts: "reads ok (case x of Some (VDict kvs) \<Rightarrow>
        seq (lift_result (validate_readonly_scopes (dict_get kvs ''scopes''))) (\<lambda>u. ret (VDict kvs))
      | y \<Rightarrow> fail (GmailAuthError ''Gmail credentials cannot be safely persisted''))" for x :: "pyval option"
    by (cases x; cases "the x") (simp_all add: adds_intros reads_lift)
  then show "reads ok (serialized_readonly_credentials P)"
    unfolding serialized_readonly_credentials_def by (intro adds_intros) (auto split: reply.split intro: adds_intros)
  have "wp (case x of Some (VDict kvs) \<Rightarrow>
        seq (lift_result (validate_readonly_scopes (dict_get kvs ''scopes''))) (\<lambda>u. ret (VDict kvs))
      | y \<Rightarrow> fail (GmailAuthError ''Gmail credentials cannot be safely persisted''))
      (\<lambda>v t. readonly_payload v) (\<lambda>e t. True) t" for x :: "pyval option" and t :: "'s net"
    by (cases x; cases "the x") (auto simp: wp_rules readonly_payload_def split: sum.split)
  then show "wp (serialized_readonly_credentials P) (\<lambda>v t. readonly_payload v) (\<lambda>e t. True) s"
    unfolding serialized_readonly_credentials_def
    by (intro wp_seq_any) (auto split: reply.split)
qed

lemma reads_refresh: "ok (gl_token_path G) \<Longrightarrow> reads ok (session_refresh P G)"
  unfolding session_refresh_def
  by (rule adds_seq, intro adds_intros reads_attempt, simp_all,
      rule adds_seq_after [OF serialized_document], intro adds_intros reads_attempt) auto

lemma reads_token: "reads ok (access_token P)"
  unfolding access_token_def by (intro adds_intros) (auto split: reply.split option.split intro: adds_intros)

lemma reads_http: "reads ok (http_request P url params token)"
  unfolding http_request_def by (intro adds_intros) (auto split: reply.split intro: adds_intros)

lemma reads_session: "ok (gl_token_path G) \<Longrightarrow> reads ok (session_get P G url params)"
  unfolding session_get_def by (intro adds_intros reads_refresh reads_token reads_http) auto

lemma reads_attempts: "reads ok get \<Longrightarrow> reads ok (get_attempts get op n)"
  by (induction n) (auto intro!: adds_intros reads_attempt split: option.split)

lemma reads_get: "ok (gl_token_path G) \<Longrightarrow> reads ok (gmail_get P G op url params)"
  unfolding gmail_get_def by (intro adds_intros reads_attempts reads_session reads_lift)

lemma reads_resources:
  assumes "ok (gl_token_path G)"
  shows "reads ok (get_profile P G)" "reads ok (verify_profile P G g)" "reads ok (get_labels P G)" "reads ok (get_messages P G token n)"
    "reads ok (get_message P G mid format)" "reads ok (get_history P G start token)"
  using assms unfolding verify_profile_def get_profile_def get_labels_def get_messages_def get_message_def get_history_def
  by (intro adds_intros reads_get reads_lift; simp)+

section \<open>How often a request is sent\<close>

fun is_request :: "event \<Rightarrow> bool" where
  "is_request (HttpGet url params token, r) = True"
| "is_request _ = False"

definition requests :: "'s net \<Rightarrow> event list" where
  "requests s = filter is_request (nt_trace s)"

text \<open>
  \<open>costs k P Q m\<close>: started where \<open>P\<close> holds, the program sends at most \<open>k\<close> requests, and where it returns
  \<open>Q\<close> holds of the value and the state.
\<close>

definition costs :: "nat \<Rightarrow> ('s net \<Rightarrow> bool) \<Rightarrow> ('a \<Rightarrow> 's net \<Rightarrow> bool) \<Rightarrow> ('s net, 'a) prog \<Rightarrow> bool" where
  "costs k P Q m \<longleftrightarrow> (\<forall>s. P s \<longrightarrow> wp m
     (\<lambda>x t. length (requests t) \<le> length (requests s) + k \<and> Q x t)
     (\<lambda>e t. length (requests t) \<le> length (requests s) + k) s)"

lemma costsD:
  "costs k P Q m \<Longrightarrow> P s \<Longrightarrow> wp m
     (\<lambda>x t. length (requests t) \<le> length (requests s) + k \<and> Q x t)
     (\<lambda>e t. length (requests t) \<le> length (requests s) + k) s"
  by (simp add: costs_def)

lemma costs_seq:
  assumes "costs j P A m" and "\<And>x. costs k (A x) Q (f x)"
  shows "costs (j + k) P Q (seq m f)"
  unfolding costs_def wp_seq
proof (intro allI impI)
  fix s assume "P s"
  show "wp m (\<lambda>x. wp (f x) (\<lambda>x t. length (requests t) \<le> length (requests s) + (j + k) \<and> Q x t)
      (\<lambda>e t. length (requests t) \<le> length (requests s) + (j + k)))
      (\<lambda>e t. length (requests t) \<le> length (requests s) + (j + k)) s"
    by (rule wp_mono [OF costsD [OF assms(1) \<open>P s\<close>]])
      (auto intro!: wp_mono [OF costsD [OF assms(2)]])
qed

lemma costs_attempt:
  assumes "costs j P Q m" and "\<And>e. costs k (\<lambda>s. True) Q (h e)"
  shows "costs (j + k) P Q (attempt m C h)"
  unfolding costs_def wp_attempt
proof (intro allI impI)
  fix s assume "P s"
  show "wp m (\<lambda>x t. length (requests t) \<le> length (requests s) + (j + k) \<and> Q x t)
      (\<lambda>e. if C e then wp (h e) (\<lambda>x t. length (requests t) \<le> length (requests s) + (j + k) \<and> Q x t)
           (\<lambda>e t. length (requests t) \<le> length (requests s) + (j + k))
         else (\<lambda>t. length (requests t) \<le> length (requests s) + (j + k))) s"
    by (rule wp_mono [OF costsD [OF assms(1) \<open>P s\<close>]])
      (auto intro!: wp_mono [OF costsD [OF assms(2)]])
qed

lemma costs_ret: "(\<And>s. P s \<Longrightarrow> Q x s) \<Longrightarrow> costs 0 P Q (ret x)"
  by (simp add: costs_def)

lemma costs_fail: "costs 0 P Q (fail e)"
  by (simp add: costs_def)

lemma costs_lift: "(\<And>x s. r = Inr x \<Longrightarrow> P s \<Longrightarrow> Q x s) \<Longrightarrow> costs 0 P Q (lift_result r)"
  by (simp add: costs_def wp_rules split: sum.split)

lemma costs_if: "(b \<Longrightarrow> costs k P Q m) \<Longrightarrow> (\<not> b \<Longrightarrow> costs k P Q n) \<Longrightarrow> costs k P Q (if b then m else n)"
  by simp

lemma requests_logged: "requests (logged c r p s) = requests s @ (if is_request (c, r) then [(c, r)] else [])"
  by (simp add: requests_def)

text \<open>A program that sends no request.\<close>

abbreviation quiet :: "('s net, 'a) prog \<Rightarrow> bool" where
  "quiet \<equiv> costs 0 (\<lambda>s. True) (\<lambda>x t. True)"

lemma quiet_issue: "(\<And>r. \<not> is_request (c, r)) \<Longrightarrow> quiet (issue P c)"
  by (auto simp: costs_def requests_logged intro!: wp_issue)

lemma quiet_seq: "quiet m \<Longrightarrow> (\<And>x. quiet (f x)) \<Longrightarrow> quiet (seq m f)"
  using costs_seq [of 0 _ _ m 0 _ f] by simp

lemma quiet_attempt: "quiet m \<Longrightarrow> (\<And>e. quiet (h e)) \<Longrightarrow> quiet (attempt m C h)"
  using costs_attempt [of 0 _ _ m 0 h] by simp

lemma quiet_done: "(\<And>r. \<not> is_request (c, r)) \<Longrightarrow> quiet (command_done P c)"
  unfolding command_done_def by (intro quiet_seq quiet_issue costs_ret) auto

lemma quiet_serialized: "quiet (serialized_readonly_credentials P)"
proof -
  have "quiet (case x of Some (VDict kvs) \<Rightarrow>
        seq (lift_result (validate_readonly_scopes (dict_get kvs ''scopes''))) (\<lambda>u. ret (VDict kvs))
      | y \<Rightarrow> fail (GmailAuthError ''Gmail credentials cannot be safely persisted''))" for x :: "pyval option"
    by (cases x; cases "the x") (simp_all add: quiet_seq costs_ret costs_fail costs_lift)
  then show ?thesis
    unfolding serialized_readonly_credentials_def
    by (intro quiet_seq quiet_issue) (auto split: reply.split intro: costs_fail)
qed

lemma quiet_refresh: "quiet (session_refresh P G)"
  unfolding session_refresh_def
  by (intro quiet_seq quiet_attempt quiet_done quiet_serialized costs_if costs_ret costs_fail) auto

lemma quiet_token: "quiet (access_token P)"
  unfolding access_token_def
  by (intro quiet_seq quiet_issue)
    (auto split: reply.split option.split intro: costs_fail costs_ret)

text \<open>The last request, and the answer to it.\<close>

definition answered :: "string \<Rightarrow> (string \<times> string) list \<Rightarrow> int \<times> pyval option \<Rightarrow> 's net \<Rightarrow> bool" where
  "answered url params r s \<longleftrightarrow> (\<exists>past token.
     requests s = past @ [(HttpGet url params token, Inr (Http (fst r) (snd r)))])"

lemma costs_http: "costs 1 (\<lambda>s. True) (answered url params) (http_request P url params token)"
  by (auto simp: costs_def http_request_def wp_rules requests_logged answered_def split: reply.split
      intro!: wp_issue)

lemma costs_session: "costs 2 (\<lambda>s. True) (answered url params) (session_get P G url params)"
proof -
  have "costs (0 + (0 + 1)) (\<lambda>s. True) (answered url params)
      (seq (session_refresh P G) (\<lambda>u. seq (access_token P) (http_request P url params)))"
    by (intro costs_seq [OF quiet_refresh] costs_seq [OF quiet_token] costs_http)
  then have again: "costs 1 (answered url params r) (answered url params)
      (if fst r = 401 \<or> fst r = 403
       then seq (session_refresh P G) (\<lambda>u. seq (access_token P) (http_request P url params)) else ret r)" for r
    by (auto simp: costs_def)
  have once: "costs (0 + (1 + 1)) (\<lambda>s. True) (answered url params)
      (seq (access_token P) (\<lambda>token. seq (http_request P url params token) (\<lambda>r.
       if fst r = 401 \<or> fst r = 403
       then seq (session_refresh P G) (\<lambda>u. seq (access_token P) (http_request P url params)) else ret r)))"
    by (intro costs_seq [OF quiet_token] costs_seq [OF costs_http] again)
  have valid: "quiet (if v = Flag True then ret () else session_refresh P G)" for v
    by (simp add: quiet_refresh costs_ret)
  have "costs (0 + (0 + (0 + (1 + 1)))) (\<lambda>s. True) (answered url params) (session_get P G url params)"
    unfolding session_get_def
    by (rule costs_seq [OF quiet_issue], simp, rule costs_seq [OF valid once])
  then show ?thesis by (simp add: numeral_2_eq_2)
qed

lemma costs_attempts:
  assumes get: "costs k (\<lambda>s. True) Q get"
  shows "costs (k * Suc n) (\<lambda>s. True) Q (get_attempts get op n)"
proof (induction n)
  case 0
  show ?case using costs_attempt [OF get costs_fail] by simp
next
  case (Suc n)
  let ?Q = "\<lambda>v s. case v of None \<Rightarrow> True | Some r \<Rightarrow> Q r s"
  have first: "costs (k + 0 + 0) (\<lambda>s. True) ?Q
      (attempt (seq get (\<lambda>r. ret (Some r))) (\<lambda>e. e = RequestException) (\<lambda>e. ret None))"
    by (intro costs_attempt costs_seq [OF get] costs_ret) simp_all
  have "costs (k * Suc n) (?Q v) Q (case v of None \<Rightarrow> get_attempts get op n
      | Some r \<Rightarrow> if transient (fst r) then get_attempts get op n else ret r)" for v
    using Suc.IH by (auto simp: costs_def split: option.split)
  from costs_seq [OF first this] show ?case by simp
qed

lemma get_result_Inr: "get_result op r = Inr kvs \<longleftrightarrow> r = (200, Some (VDict kvs))"
  by (cases r; cases "snd r"; cases "the (snd r)") (auto simp: get_result_def transient_def)

lemma costs_get: "costs 6 (\<lambda>s. True) (\<lambda>kvs. answered url params (200, Some (VDict kvs))) (gmail_get P G op url params)"
proof -
  have "costs (2 * Suc 2 + 0) (\<lambda>s. True) (\<lambda>kvs. answered url params (200, Some (VDict kvs))) (gmail_get P G op url params)"
    unfolding gmail_get_def
    by (intro costs_seq [OF costs_attempts [OF costs_session]] costs_lift) (auto simp: get_result_Inr)
  then show ?thesis by simp
qed

text \<open>
  C3.  Whatever the server answers, one call of the Gmail client sends at most six requests (three
  attempts, each repeated once after a refresh of the credential), and what it returns is the object
  in the body of an answer with status 200 to the last of them, which was the requested resource.
\<close>

theorem gmail_get_is_bounded:
  assumes "gmail_get P G op url params s = (r, t)"
  shows "length (requests t) \<le> length (requests s) + 6 \<and>
    (case r of Inl e \<Rightarrow> True | Inr kvs \<Rightarrow> answered url params (200, Some (VDict kvs)) t)"
  using costsD [OF costs_get [of url params P G op] TrueI, of s] assms by (auto simp: wp_def split: sum.splits)

end
