(* ===== verification/GmailStore.thy ===== *)
theory GmailStore
  imports GmailClient
begin

text \<open>
  What Gmail acquisition stores (\<open>gmail.py\<close>): the label catalogue, a message with its labels and its
  link to a canonical message, and the synchronization state with the history checkpoint.  Each
  operation is one transaction: it commits, or raises and leaves the tables as they were.
\<close>

text \<open>
  The outside of a Gmail synchronization: also the local token files and OAuth client secrets, and the
  number of pages a listing may have.
\<close>

record 's gmail_outside = "'s outside" +
  go_token :: "path \<Rightarrow> token_file"
  go_pages :: nat

abbreviation gmail_actor :: string where
  "gmail_actor \<equiv> ''mailarchive.gmail''"

definition gmail_identity :: "string \<Rightarrow> int \<Rightarrow> remote_row \<Rightarrow> bool" where
  "gmail_identity mid aid r \<longleftrightarrow>
     rm_account_id r = aid \<and> rm_provider_kind r = Gmail \<and> rm_provider_message_id r = Some mid"

section \<open>The label catalogue\<close>

definition checked_label :: "pyval \<Rightarrow> (string \<times> string \<times> string) result" where
  "checked_label v =
     (case v of
        VDict kvs \<Rightarrow>
          rbind (valid_id (dict_get_or kvs ''id'' VNull) ''label id'') (\<lambda>lid.
          rbind (label_name (dict_get_or kvs ''name'' VNull)) (\<lambda>name.
          let typ = dict_get_or kvs ''type'' VNull in
          rbind (ensure (hashable typ) TypeError) (\<lambda>u.
          case typ of
            VStr t \<Rightarrow> rbind (ensure (t \<in> {''system'', ''user''}) (GmailResponseError ''Gmail label type is invalid''))
                        (\<lambda>u. Inr (lid, name, t))
          | _ \<Rightarrow> Inl (GmailResponseError ''Gmail label type is invalid''))))
      | _ \<Rightarrow> Inl (GmailResponseError ''Gmail label is malformed''))"

definition upsert_label :: "int \<Rightarrow> string \<Rightarrow> string \<times> string \<times> string \<Rightarrow> label_row list \<Rightarrow> label_row list" where
  "upsert_label aid now label rows =
     (case label of (lid, name, typ) \<Rightarrow>
      let same = (\<lambda>r. lb_account_id r = aid \<and> lb_label_id r = lid) in
      if list_ex same rows
      then update_where same (\<lambda>r. r\<lparr>lb_name := name, lb_label_type := typ, lb_remote_present := True,
             lb_last_seen_at := now\<rparr>) rows
      else rows @ [\<lparr>lb_account_id = aid, lb_label_id = lid, lb_name = name, lb_label_type = typ,
             lb_remote_present = True, lb_first_seen_at = now, lb_last_seen_at = now\<rparr>])"

text \<open>The loop over the labels: each is checked, then stored; the set of their identifiers is returned.\<close>

fun store_labels :: "int \<Rightarrow> string \<Rightarrow> pyval list \<Rightarrow> label_row list \<Rightarrow> (string list \<times> label_row list) result" where
  "store_labels aid now [] rows = Inr ([], rows)"
| "store_labels aid now (v # vs) rows =
     rbind (checked_label v) (\<lambda>label.
     rbind (store_labels aid now vs (upsert_label aid now label rows)) (\<lambda>stored.
     Inr (fst label # fst stored, snd stored)))"

definition mark_absent_labels :: "int \<Rightarrow> string list \<Rightarrow> label_row list \<Rightarrow> label_row list" where
  "mark_absent_labels aid observed =
     update_where (\<lambda>r. lb_account_id r = aid \<and> lb_label_id r \<notin> set observed) (\<lambda>r. r\<lparr>lb_remote_present := False\<rparr>)"

text \<open>\<open>_labels\<close>\<close>

definition refresh_labels :: "'s outside \<Rightarrow> gmail_session \<Rightarrow> int \<Rightarrow> ('s net station, string list) prog" where
  "refresh_labels X G aid =
     seq (on_net (get_labels (ou_peer X) G)) (\<lambda>payload.
     case dict_get_or payload ''labels'' VNull of
       VList labels \<Rightarrow>
         seq (clock (ou_host X)) (\<lambda>now.
         transaction (\<lambda>w.
           case store_labels aid now labels (gmail_labels (w_db w)) of
             Inl e \<Rightarrow> (Inl e, w)
           | Inr (observed, rows) \<Rightarrow>
               (Inr observed, commit ((w_db w)\<lparr>gmail_labels := mark_absent_labels aid observed rows\<rparr>) 0 w)))
     | _ \<Rightarrow> fail (GmailResponseError ''Gmail labels response lacks labels''))"

section \<open>Messages\<close>

definition gmail_row :: "int \<Rightarrow> string \<Rightarrow> string option \<Rightarrow> string option \<Rightarrow> string \<Rightarrow> remote_row" where
  "gmail_row aid mid thread header now =
     \<lparr>rm_id = ''gmail:'' @ int_text aid @ '':'' @ mid, rm_account_id = aid, rm_provider_kind = Gmail,
      rm_remote_folder = None, rm_uidvalidity = None, rm_remote_uid = None, rm_provider_message_id = Some mid,
      rm_provider_thread_id = thread, rm_message_id_header = header, rm_first_seen_at = now,
      rm_last_seen_at = now, rm_remote_present = True, rm_identity_confidence = ''proven''\<rparr>"

text \<open>The upsert also renews the thread; a new row has it already.\<close>

definition upsert_gmail :: "int \<Rightarrow> string \<Rightarrow> string option \<Rightarrow> string option \<Rightarrow> string \<Rightarrow> remote_row list \<Rightarrow>
    remote_row list result" where
  "upsert_gmail aid mid thread header now rows =
     rbind (upsert_remote (gmail_identity mid aid) (gmail_row aid mid thread header now) rows) (\<lambda>rows.
     Inr (update_where (gmail_identity mid aid) (\<lambda>r. r\<lparr>rm_provider_thread_id := thread\<rparr>) rows))"

definition linked_elsewhere :: "string \<Rightarrow> int \<Rightarrow> string \<Rightarrow> db \<Rightarrow> bool" where
  "linked_elsewhere mid aid cid d =
     (case find (gmail_identity mid aid) (remote_messages d) of
        None \<Rightarrow> False
      | Some r \<Rightarrow>
          (case find (\<lambda>l. lk_remote_message_id l = rm_id r) (remote_canonical_links d) of
             None \<Rightarrow> False
           | Some l \<Rightarrow> lk_canonical_message_id l \<noteq> cid))"

text \<open>The labels of a message are replaced; a label twice, or one outside the catalogue, violates a key.\<close>

definition store_message_labels :: "string \<Rightarrow> int \<Rightarrow> string list \<Rightarrow> db \<Rightarrow> db result" where
  "store_message_labels rid aid ids d =
     (if distinct ids \<and> list_all (\<lambda>x. list_ex (\<lambda>l. lb_account_id l = aid \<and> lb_label_id l = x) (gmail_labels d)) ids
      then Inr (d\<lparr>gmail_message_labels := filter (\<lambda>r. ml_remote_message_id r \<noteq> rid) (gmail_message_labels d) @
             map (\<lambda>x. \<lparr>ml_remote_message_id = rid, ml_account_id = aid, ml_label_id = x\<rparr>) ids\<rparr>)
      else Inl IntegrityError)"

text \<open>The transaction of \<open>_register\<close>.\<close>

definition bind_gmail :: "int \<Rightarrow> string \<Rightarrow> string option \<Rightarrow> canonical_message option \<Rightarrow> string list \<Rightarrow> string \<Rightarrow>
    db \<Rightarrow> (bool \<times> db) result" where
  "bind_gmail aid mid thread stored ids now d =
     rbind (ensure (case stored of None \<Rightarrow> True | Some c \<Rightarrow> \<not> linked_elsewhere mid aid (cm_id c) d)
       GmailIdentityConflict) (\<lambda>u.
     rbind (upsert_gmail aid mid thread (case stored of None \<Rightarrow> None | Some c \<Rightarrow> cm_message_id_header c) now
       (remote_messages d)) (\<lambda>rows.
     case find (gmail_identity mid aid) rows of
       None \<Rightarrow> Inl AssertionError
     | Some r \<Rightarrow>
         rbind (case stored of
             None \<Rightarrow> Inr (d\<lparr>remote_messages := rows\<rparr>)
           | Some c \<Rightarrow> rbind (link_remote (rm_id r) (cm_id c) ''gmail-api-raw'' now (d\<lparr>remote_messages := rows\<rparr>))
               (\<lambda>bound. Inr (snd bound))) (\<lambda>e.
         rbind (store_message_labels (rm_id r) aid ids e) (\<lambda>f.
         Inr (\<not> list_ex (gmail_identity mid aid) (remote_messages d), f)))))"

definition message_labels :: "(pyval \<times> pyval) list \<Rightarrow> string list result" where
  "message_labels message =
     (case dict_get_or message ''labelIds'' (VList []) of
        VList l \<Rightarrow> if list_all (\<lambda>x. scope_text x \<noteq> None) l then Inr (map (\<lambda>x. the (scope_text x)) l)
                  else Inl (GmailResponseError ''Gmail message labels are malformed'')
      | _ \<Rightarrow> Inl (GmailResponseError ''Gmail message labels are malformed''))"

definition thread_of :: "(pyval \<times> pyval) list \<Rightarrow> string option result" where
  "thread_of message =
     (let v = dict_get_or message ''threadId'' VNull in
      if v = VNull then Inr None else rbind (valid_id v ''thread id'') (\<lambda>t. Inr (Some t)))"

definition gmail_register :: "'s outside \<Rightarrow> int \<Rightarrow> (pyval \<times> pyval) list \<Rightarrow> canonical_message option \<Rightarrow>
    ('s net station, bool \<times> nat) prog" where
  "gmail_register X aid message stored =
     seq (lift_result (valid_id (dict_get_or message ''id'' VNull) ''message id'')) (\<lambda>mid.
     seq (lift_result (thread_of message)) (\<lambda>thread.
     seq (lift_result (message_labels message)) (\<lambda>ids.
     seq (on_net (read_state nt_labels)) (\<lambda>labels.
     seq (require (set ids \<subseteq> set labels) GmailUnknownLabelError) (\<lambda>u.
     seq (clock (ou_host X)) (\<lambda>now.
     transaction (\<lambda>w.
       case bind_gmail aid mid thread stored ids now (w_db w) of
         Inl e \<Rightarrow> (Inl e, w)
       | Inr (new, d) \<Rightarrow> (Inr (new, length ids), commit d 0 w))))))))"

text \<open>\<open>_known\<close>\<close>

definition gmail_known :: "int \<Rightarrow> string \<Rightarrow> db \<Rightarrow> bool" where
  "gmail_known aid mid d = linked (gmail_identity mid aid) d"

section \<open>The synchronization state\<close>

definition state_of :: "int \<Rightarrow> db \<Rightarrow> sync_state_row option" where
  "state_of aid d = find (\<lambda>s. ss_account_id s = aid) (gmail_sync_state d)"

definition update_state :: "int \<Rightarrow> (sync_state_row \<Rightarrow> sync_state_row) \<Rightarrow> db \<Rightarrow> db" where
  "update_state aid f d = d\<lparr>gmail_sync_state := update_where (\<lambda>s. ss_account_id s = aid) f (gmail_sync_state d)\<rparr>"

definition insert_state :: "int \<Rightarrow> string \<Rightarrow> db \<Rightarrow> db" where
  "insert_state aid now d =
     (if state_of aid d \<noteq> None then d
      else d\<lparr>gmail_sync_state := gmail_sync_state d @
        [\<lparr>ss_account_id = aid, ss_history_id = None, ss_full_sync_required = True, ss_last_sync_started_at = None,
          ss_last_sync_succeeded_at = None, ss_last_full_sync_succeeded_at = None,
          ss_last_partial_sync_succeeded_at = None, ss_last_error_at = None, ss_last_error_kind = None,
          ss_updated_at = now\<rparr>]\<rparr>)"

text \<open>The state before the synchronization is returned with the account's id.\<close>

definition begin_sync :: "host \<Rightarrow> string \<Rightarrow> ('p station, int \<times> sync_state_row option) prog" where
  "begin_sync H name = transaction (\<lambda>w.
     case account_id (w_db w) name of
       None \<Rightarrow> (Inl AssertionError, w)
     | Some aid \<Rightarrow>
         (Inr (aid, state_of aid (w_db w)),
          commit (update_state aid (\<lambda>s. s\<lparr>ss_last_sync_started_at := Some (reading H w 1), ss_updated_at := reading H w 2\<rparr>)
            (insert_state aid (reading H w 0) (w_db w))) 3 w))"

text \<open>\<open>_record_failure\<close>\<close>

fun gmail_auth_error :: "error \<Rightarrow> bool" where
  "gmail_auth_error (GmailAuthError m) = True"
| "gmail_auth_error MutationAuthorizationError = True"
| "gmail_auth_error _ = False"

definition record_failure :: "host \<Rightarrow> int \<Rightarrow> error \<Rightarrow> string \<Rightarrow> ('p station, unit) prog" where
  "record_failure H aid e operation = transaction (\<lambda>w. (Inr (),
     commit (update_state aid (\<lambda>s. s\<lparr>ss_full_sync_required := operation \<in> {''full'', ''expired''} \<or> ss_full_sync_required s,
         ss_last_error_at := Some (reading H w 0),
         ss_last_error_kind := Some (if gmail_auth_error e then ''authentication'' else ''provider''),
         ss_updated_at := reading H w 1\<rparr>) (w_db w)) 2 w))"

definition require_full_sync :: "host \<Rightarrow> int \<Rightarrow> ('p station, unit) prog" where
  "require_full_sync H aid = transaction (\<lambda>w. (Inr (),
     commit (update_state aid (\<lambda>s. s\<lparr>ss_full_sync_required := True, ss_updated_at := reading H w 0\<rparr>) (w_db w)) 1 w))"

text \<open>An empty mailbox leaves no checkpoint.\<close>

definition empty_checkpoint :: "host \<Rightarrow> int \<Rightarrow> ('p station, unit) prog" where
  "empty_checkpoint H aid = transaction (\<lambda>w. (Inr (),
     commit (update_state aid (\<lambda>s. s\<lparr>ss_history_id := None, ss_full_sync_required := True,
       ss_last_sync_succeeded_at := Some (reading H w 0), ss_updated_at := reading H w 1\<rparr>) (w_db w)) 2 w))"

definition partial_checkpoint :: "host \<Rightarrow> int \<Rightarrow> string \<Rightarrow> ('p station, unit) prog" where
  "partial_checkpoint H aid end' = transaction (\<lambda>w. (Inr (),
     commit (update_state aid (\<lambda>s. s\<lparr>ss_history_id := Some end', ss_full_sync_required := False,
       ss_last_sync_succeeded_at := Some (reading H w 0), ss_last_partial_sync_succeeded_at := Some (reading H w 1),
       ss_updated_at := reading H w 2\<rparr>) (w_db w)) 3 w))"

text \<open>The rows of the account that are marked as present and satisfy \<open>P\<close>.\<close>

definition present_gmail :: "int \<Rightarrow> (string option \<Rightarrow> bool) \<Rightarrow> remote_row \<Rightarrow> bool" where
  "present_gmail aid P r \<longleftrightarrow> rm_account_id r = aid \<and> rm_provider_kind r = Gmail \<and> rm_remote_present r \<and>
     P (rm_provider_message_id r)"

definition mark_absent :: "int \<Rightarrow> (string option \<Rightarrow> bool) \<Rightarrow> db \<Rightarrow> nat \<times> db" where
  "mark_absent aid P d = (length (filter (present_gmail aid P) (remote_messages d)),
     d\<lparr>remote_messages := update_where (present_gmail aid P) (\<lambda>r. r\<lparr>rm_remote_present := False\<rparr>) (remote_messages d)\<rparr>)"

text \<open>One deletion of a history, and the final commit of a full synchronization.\<close>

definition mark_deleted :: "int \<Rightarrow> string \<Rightarrow> ('p station, nat) prog" where
  "mark_deleted aid mid = transaction (\<lambda>w.
     case mark_absent aid (\<lambda>m. m = Some mid) (w_db w) of (n, d) \<Rightarrow> (Inr n, commit d 0 w))"

definition full_checkpoint :: "host \<Rightarrow> int \<Rightarrow> string list \<Rightarrow> string \<Rightarrow> ('p station, nat) prog" where
  "full_checkpoint H aid present end' = transaction (\<lambda>w.
     case mark_absent aid (\<lambda>m. m \<notin> Some ` set present) (w_db w) of (n, d) \<Rightarrow>
       (Inr n, commit (update_state aid (\<lambda>s. s\<lparr>ss_history_id := Some end', ss_full_sync_required := False,
          ss_last_sync_succeeded_at := Some (reading H w 0), ss_last_full_sync_succeeded_at := Some (reading H w 1),
          ss_updated_at := reading H w 2\<rparr>) d) 3 w))"

end
