(* ===== verification/Paging.thy ===== *)
theory Paging
  imports Effects
begin

text \<open>
  A listing in pages, the loop of \<open>_full\<close> and \<open>_partial\<close> in \<open>gmail.py\<close>: a visit fetches and treats the
  page of a token and returns the next token, which must be new.  The loop ends with the first page
  that names no next one.  A server that always names a fresh token keeps it running, so the model
  bounds the number of pages: \<^term>\<open>None\<close> says that the bound was reached.  The lemmas show that a
  bound above the number of different tokens is never reached, and that a larger bound changes
  nothing once the loop ends.
\<close>

fun paged :: "nat \<Rightarrow> error \<Rightarrow> (string option \<Rightarrow> 'a \<Rightarrow> ('s, 'a \<times> string option) prog) \<Rightarrow>
    string list \<Rightarrow> string option \<Rightarrow> 'a \<Rightarrow> ('s, 'a option) prog" where
  "paged 0 repeated visit seen token a = ret None"
| "paged (Suc n) repeated visit seen token a =
     seq (visit token a) (\<lambda>page.
     case snd page of
       None \<Rightarrow> ret (Some (fst page))
     | Some t \<Rightarrow> if t \<in> set seen then fail repeated
                else paged n repeated visit (t # seen) (Some t) (fst page))"

definition listing :: "nat \<Rightarrow> error \<Rightarrow> (string option \<Rightarrow> 'a \<Rightarrow> ('s, 'a \<times> string option) prog) \<Rightarrow> 'a \<Rightarrow> ('s, 'a) prog" where
  "listing n repeated visit a =
     seq (paged n repeated visit [] None a) (\<lambda>result.
     case result of None \<Rightarrow> fail Unfinished | Some b \<Rightarrow> ret b)"

section \<open>Termination\<close>

text \<open>Every visit names a next token in \<open>T\<close>, or none.\<close>

definition tokens_in :: "string set \<Rightarrow> (string option \<Rightarrow> 'a \<Rightarrow> ('s, 'a \<times> string option) prog) \<Rightarrow> bool" where
  "tokens_in T visit \<longleftrightarrow>
     (\<forall>token a s. wp (visit token a) (\<lambda>page t. case snd page of None \<Rightarrow> True | Some x \<Rightarrow> x \<in> T) (\<lambda>e t. True) s)"

lemma paged_ends:
  assumes "tokens_in T visit" "finite T"
  shows "set seen \<subseteq> T \<Longrightarrow> distinct seen \<Longrightarrow> card T < n + length seen \<Longrightarrow>
    wp (paged n repeated visit seen token a) (\<lambda>r t. r \<noteq> None) (\<lambda>e t. True) s"
proof (induction n arbitrary: seen token a s)
  case 0
  then have "length seen \<le> card T" using assms(2) by (metis card_mono distinct_card)
  with 0 show ?case by simp
next
  case (Suc n)
  show ?case
    unfolding paged.simps wp_seq
    by (rule wp_mono [OF assms(1) [unfolded tokens_in_def, rule_format]])
      (use Suc.prems in \<open>auto split: option.splits intro!: Suc.IH simp del: not_None_eq\<close>)
qed

text \<open>A larger bound changes nothing.\<close>

lemma paged_more:
  "paged n repeated visit seen token a s = (r, t) \<Longrightarrow> r \<noteq> Inr None \<Longrightarrow> n \<le> m \<Longrightarrow>
     paged m repeated visit seen token a s = (r, t)"
proof (induction n arbitrary: m seen token a s)
  case (Suc n)
  then obtain k where "m = Suc k" "n \<le> k" by (cases m) auto
  with Suc show ?case
    by (auto simp: run_simps split: prod.splits sum.splits option.splits if_splits)
qed (simp add: ret_def)

section \<open>What holds of the pages\<close>

text \<open>An invariant \<open>I\<close> of the accumulator and the state, and what the last page gives.\<close>

lemma wp_paged:
  assumes visit: "\<And>token a s. I a s \<Longrightarrow> wp (visit token a)
      (\<lambda>page t. I (fst page) t \<and> (snd page = None \<longrightarrow> F (fst page))) (\<lambda>e t. True) s"
  shows "I a s \<Longrightarrow> wp (paged n repeated visit seen token a)
      (\<lambda>r t. case r of None \<Rightarrow> True | Some b \<Rightarrow> I b t \<and> F b) (\<lambda>e t. True) s"
proof (induction n arbitrary: seen token a s)
  case (Suc n)
  show ?case
    unfolding paged.simps wp_seq
    by (rule wp_mono [OF visit [OF Suc.prems]]) (use Suc.IH in \<open>auto split: option.splits\<close>)
qed simp

lemma wp_listing:
  assumes "\<And>token a s. I a s \<Longrightarrow> wp (visit token a)
      (\<lambda>page t. I (fst page) t \<and> (snd page = None \<longrightarrow> F (fst page))) (\<lambda>e t. True) s" and "I a s"
  shows "wp (listing n repeated visit a) (\<lambda>b t. I b t \<and> F b) (\<lambda>e t. True) s"
  unfolding listing_def wp_seq
  by (rule wp_mono [OF wp_paged [OF assms]]) (auto split: option.splits)

end
