(* ===== verification/GmailSync.thy ===== *)
theory GmailSync
  imports GmailStore Paging
begin

text \<open>
  Gmail acquisition, \<open>GmailAdapter.sync\<close> of \<open>gmail.py\<close>: under the account lock, either the whole
  mailbox is listed or the history since the last checkpoint; each message concerned is retrieved,
  admitted, linked and classified, and only then the checkpoint moves.
\<close>

section \<open>One message\<close>

definition classify_new :: "'s outside \<Rightarrow> app_config \<Rightarrow> (canonical_message \<times> bool) option \<Rightarrow> ('s net station, unit) prog" where
  "classify_new X cfg stored =
     (case stored of
        None \<Rightarrow> ret ()
      | Some (c, created) \<Rightarrow>
          if created
          then seq (classify_pending (ou_system X) (ou_host X) (ou_classifier X) cfg c) (\<lambda>m. ret ())
          else ret ())"

text \<open>\<open>labels.clear(); labels.update(self._labels(...))\<close>\<close>

definition reload_labels :: "'s outside \<Rightarrow> gmail_session \<Rightarrow> int \<Rightarrow> ('s net station, unit) prog" where
  "reload_labels X G aid =
     seq (on_net (write_state (\<lambda>s. s\<lparr>nt_labels := []\<rparr>))) (\<lambda>u.
     seq (refresh_labels X G aid) (\<lambda>ids.
     on_net (write_state (\<lambda>s. s\<lparr>nt_labels := ids\<rparr>))))"

definition register_or_reload :: "'s outside \<Rightarrow> gmail_session \<Rightarrow> int \<Rightarrow> (pyval \<times> pyval) list \<Rightarrow>
    canonical_message option \<Rightarrow> ('s net station, bool \<times> nat) prog" where
  "register_or_reload X G aid message stored =
     attempt (gmail_register X aid message stored) (\<lambda>e. e = GmailUnknownLabelError)
       (\<lambda>e. seq (reload_labels X G aid) (\<lambda>u. gmail_register X aid message stored))"

text \<open>\<open>_reconcile\<close>: whether the message was fetched, whether a canonical one was created, its labels.\<close>

definition gmail_reconcile :: "'s outside \<Rightarrow> gmail_session \<Rightarrow> app_config \<Rightarrow> account_config \<Rightarrow> int \<Rightarrow> string \<Rightarrow>
    ('s net station, nat \<times> nat \<times> nat) prog" where
  "gmail_reconcile X G cfg a aid mid =
     seq (read_state (\<lambda>w. gmail_known aid mid (w_db w))) (\<lambda>known.
     seq (on_net (get_message (ou_peer X) G mid (if known then ''minimal'' else ''raw''))) (\<lambda>response.
     seq (lift_result (valid_id (dict_get_or response ''id'' VNull) ''message id'')) (\<lambda>x.
     seq (require (x = mid) (GmailResponseError ''Gmail returned mismatching message id'')) (\<lambda>u.
     seq (if known then ret None
          else
            seq (lift_result (decode_raw (dict_get_or response ''raw'' VNull))) (\<lambda>raw.
            seq (ingest_bytes (ou_system X) (ou_host X) (ou_parser X) cfg raw (ac_name a) ''gmail-api-raw'') (\<lambda>s.
            ret (Some s)))) (\<lambda>stored.
     seq (register_or_reload X G aid response (map_option fst stored)) (\<lambda>registered.
     seq (classify_new X cfg stored) (\<lambda>u.
     ret (if known then 0 else 1, case stored of None \<Rightarrow> 0 | Some s \<Rightarrow> if snd s then 1 else 0, snd registered))))))))"

section \<open>The history\<close>

definition HISTORY_KEYS :: "string list" where
  "HISTORY_KEYS = [''messagesAdded'', ''labelsAdded'', ''labelsRemoved'', ''messagesDeleted'']"

definition change_id :: "pyval \<Rightarrow> string result" where
  "change_id v =
     (case v of
        VDict kvs \<Rightarrow>
          (case dict_get_or kvs ''message'' VNull of
             VDict m \<Rightarrow> valid_id (dict_get_or m ''id'' VNull) ''message id''
           | _ \<Rightarrow> Inl (GmailResponseError ''Gmail history change malformed''))
      | _ \<Rightarrow> Inl (GmailResponseError ''Gmail history change malformed''))"

definition changed_ids :: "(pyval \<times> pyval) list \<Rightarrow> string \<Rightarrow> string list result" where
  "changed_ids kvs key =
     (case dict_get_or kvs key (VList []) of
        VList changes \<Rightarrow> each change_id changes
      | _ \<Rightarrow> Inl (GmailResponseError ''Gmail history collection is malformed''))"

text \<open>The identifiers a record concerns, and those it deletes.\<close>

definition history_record :: "pyval \<Rightarrow> (string list \<times> string list) result" where
  "history_record v =
     (case v of
        VDict kvs \<Rightarrow>
          rbind (each (changed_ids kvs) HISTORY_KEYS) (\<lambda>ids.
          Inr (concat ids, concat (map snd (filter (\<lambda>x. fst x = ''messagesDeleted'') (zip HISTORY_KEYS ids)))))
      | _ \<Rightarrow> Inl (GmailResponseError ''Gmail history item malformed''))"

text \<open>\<open>page.get("nextPageToken")\<close>: none, or a valid token.\<close>

definition next_token :: "(pyval \<times> pyval) list \<Rightarrow> string option result" where
  "next_token page =
     (let v = dict_get_or page ''nextPageToken'' VNull in
      if v = VNull then Inr None else rbind (valid_id v ''page token'') (\<lambda>t. Inr (Some t)))"

record changes =
  ch_affected :: "string list"
  ch_deleted :: "string list"
  ch_end :: pyval

definition history_page :: "(pyval \<times> pyval) list \<Rightarrow> changes \<Rightarrow> (changes \<times> string option) result" where
  "history_page page c =
     (let page_history = dict_get_or page ''historyId'' VNull in
      case dict_get_or page ''history'' (VList []) of
        VList histories \<Rightarrow>
          rbind (each history_record histories) (\<lambda>records.
          let c = c\<lparr>ch_affected := ch_affected c @ concat (map fst records),
                ch_deleted := ch_deleted c @ concat (map snd records)\<rparr> in
          if dict_get_or page ''nextPageToken'' VNull = VNull
          then rbind (ensure (page_history \<noteq> VNull) (GmailResponseError ''Gmail terminal history response lacks historyId''))
            (\<lambda>u. Inr (c\<lparr>ch_end := page_history\<rparr>, None))
          else rbind (if page_history = VNull then Inr [] else history_id page_history) (\<lambda>h.
            rbind (next_token page) (\<lambda>t. Inr (c, t))))
      | _ \<Rightarrow> Inl (GmailResponseError ''Gmail history malformed''))"

definition history_round :: "'s peer \<Rightarrow> gmail_session \<Rightarrow> string \<Rightarrow> string option \<Rightarrow> changes \<Rightarrow>
    ('s net, changes \<times> string option) prog" where
  "history_round P G start token c =
     seq (get_history P G start token) (\<lambda>page. lift_result (history_page page c))"

definition no_changes :: changes where
  "no_changes = \<lparr>ch_affected = [], ch_deleted = [], ch_end = VNull\<rparr>"

definition read_history :: "nat \<Rightarrow> 's peer \<Rightarrow> gmail_session \<Rightarrow> string \<Rightarrow> ('s net, changes) prog" where
  "read_history n P G start =
     listing n (GmailResponseError ''Gmail history pagination token repeated'') (history_round P G start) no_changes"

section \<open>A partial synchronization\<close>

record gmail_sync_result =
  gr_mode :: string
  gr_remote_seen :: nat
  gr_fetched_raw :: nat
  gr_metadata_refreshed :: nat
  gr_imported :: nat
  gr_canonical_reused :: int
  gr_labels_updated :: nat
  gr_remote_marked_absent :: nat
  gr_history_from :: "string option"
  gr_history_to :: "string option"

definition result_details :: "gmail_sync_result \<Rightarrow> (string \<times> json) list" where
  "result_details r =
     [(''mode'', JStr (gr_mode r)), (''remote_seen'', JInt (int (gr_remote_seen r))),
      (''fetched_raw'', JInt (int (gr_fetched_raw r))), (''metadata_refreshed'', JInt (int (gr_metadata_refreshed r))),
      (''imported'', JInt (int (gr_imported r))), (''canonical_reused'', JInt (gr_canonical_reused r)),
      (''labels_updated'', JInt (int (gr_labels_updated r))),
      (''remote_marked_absent'', JInt (int (gr_remote_marked_absent r))),
      (''history_from'', json_opt (gr_history_from r)), (''history_to'', json_opt (gr_history_to r))]"

record history_outcome =
  ho_result :: gmail_sync_result
  ho_present :: "string list"
  ho_deleted :: "string list"

text \<open>One affected message: marked absent, or reconciled.\<close>

definition apply_change :: "'s outside \<Rightarrow> gmail_session \<Rightarrow> app_config \<Rightarrow> account_config \<Rightarrow> int \<Rightarrow> string list \<Rightarrow> string \<Rightarrow>
    ('s net station, (nat \<times> nat \<times> nat) \<times> nat) prog" where
  "apply_change X G cfg a aid deleted mid =
     (if mid \<in> set deleted then seq (mark_deleted aid mid) (\<lambda>n. ret ((0, 0, 0), n))
      else seq (gmail_reconcile X G cfg a aid mid) (\<lambda>r. ret (r, 0)))"

definition gmail_audit :: "'s outside \<Rightarrow> account_config \<Rightarrow> string \<Rightarrow> string \<Rightarrow> (string \<times> json) list \<Rightarrow>
    ('s net station, unit) prog" where
  "gmail_audit X a event res details = acquisition_audit (ou_host X) gmail_actor (ac_name a) event res details"

definition partial_result :: "string \<Rightarrow> string \<Rightarrow> string list \<Rightarrow> ((nat \<times> nat \<times> nat) \<times> nat) list \<Rightarrow> gmail_sync_result" where
  "partial_result start end' affected results =
     (let fetched = sum_list (map (fst \<circ> fst) results);
          created = sum_list (map (fst \<circ> snd \<circ> fst) results) in
      \<lparr>gr_mode = ''partial'', gr_remote_seen = length affected, gr_fetched_raw = fetched,
       gr_metadata_refreshed = 0, gr_imported = created, gr_canonical_reused = int fetched - int created,
       gr_labels_updated = sum_list (map (snd \<circ> snd \<circ> fst) results),
       gr_remote_marked_absent = sum_list (map snd results),
       gr_history_from = Some start, gr_history_to = Some end'\<rparr>)"

text \<open>The commit and the audit event, both only for a synchronization of its own.\<close>

definition finish_partial :: "'s outside \<Rightarrow> account_config \<Rightarrow> int \<Rightarrow> bool \<Rightarrow> string \<Rightarrow> gmail_sync_result \<Rightarrow>
    ('s net station, unit) prog" where
  "finish_partial X a aid committing end' result =
     (if committing
      then seq (partial_checkpoint (ou_host X) aid end') (\<lambda>u.
        gmail_audit X a ''gmail.sync.partial.succeeded'' ''success'' (result_details result))
      else ret ())"

definition gmail_partial :: "'s gmail_outside \<Rightarrow> gmail_session \<Rightarrow> app_config \<Rightarrow> account_config \<Rightarrow> int \<Rightarrow> string \<Rightarrow> bool \<Rightarrow>
    ('s net station, history_outcome) prog" where
  "gmail_partial X G cfg a aid start committing =
     (let Y = outside.truncate X in
      seq (if committing then gmail_audit Y a ''gmail.sync.partial.started'' ''started'' [] else ret ()) (\<lambda>u.
      seq (on_net (read_history (go_pages X) (ou_peer X) G start)) (\<lambda>c.
      seq (lift_result (history_id (ch_end c))) (\<lambda>end'.
      let affected = sort (remdups (ch_affected c)); deleted = remdups (ch_deleted c) in
      seq (for_each (apply_change Y G cfg a aid deleted) affected) (\<lambda>results.
      let result = partial_result start end' affected results in
      seq (finish_partial Y a aid committing end' result) (\<lambda>u.
      ret \<lparr>ho_result = result, ho_present = filter (\<lambda>m. m \<notin> set deleted) affected, ho_deleted = deleted\<rparr>))))))"

section \<open>A full synchronization\<close>

definition item_id :: "pyval \<Rightarrow> string \<Rightarrow> string result" where
  "item_id v malformed =
     (case v of
        VDict kvs \<Rightarrow> valid_id (dict_get_or kvs ''id'' VNull) ''message id''
      | _ \<Rightarrow> Inl (GmailResponseError malformed))"

text \<open>\<open>_pre_scan_anchor\<close>\<close>

definition pre_scan_anchor :: "'s peer \<Rightarrow> gmail_session \<Rightarrow> ('s net, string option) prog" where
  "pre_scan_anchor P G =
     seq (get_messages P G None 1) (\<lambda>page.
     case dict_get_or page ''messages'' (VList []) of
       VList [] \<Rightarrow> ret None
     | VList (first # rest) \<Rightarrow>
         seq (lift_result (item_id first ''Gmail message list item malformed'')) (\<lambda>mid.
         seq (get_message P G mid ''minimal'') (\<lambda>message.
         seq (lift_result (history_id (dict_get_or message ''historyId'' VNull))) (\<lambda>h. ret (Some h))))
     | _ \<Rightarrow> fail (GmailResponseError ''Gmail messages list malformed''))"

text \<open>What the listing has collected: the identifiers, and the sums of the rounds.\<close>

record scan =
  sc_seen :: "string list"
  sc_fetched :: nat
  sc_created :: nat
  sc_updated :: nat

definition scan_item :: "'s outside \<Rightarrow> gmail_session \<Rightarrow> app_config \<Rightarrow> account_config \<Rightarrow> int \<Rightarrow> pyval \<Rightarrow>
    ('s net station, string \<times> nat \<times> nat \<times> nat) prog" where
  "scan_item X G cfg a aid item =
     seq (lift_result (item_id item ''Gmail message list item malformed'')) (\<lambda>mid.
     seq (gmail_reconcile X G cfg a aid mid) (\<lambda>r. ret (mid, r)))"

definition scan_round :: "'s outside \<Rightarrow> gmail_session \<Rightarrow> app_config \<Rightarrow> account_config \<Rightarrow> int \<Rightarrow> string option \<Rightarrow> scan \<Rightarrow>
    ('s net station, scan \<times> string option) prog" where
  "scan_round X G cfg a aid token s =
     seq (on_net (get_messages (ou_peer X) G token 500)) (\<lambda>page.
     case dict_get_or page ''messages'' (VList []) of
       VList entries \<Rightarrow>
         seq (for_each (scan_item X G cfg a aid) entries) (\<lambda>results.
         seq (lift_result (next_token page)) (\<lambda>t.
         ret (\<lparr>sc_seen = sc_seen s @ map fst results,
               sc_fetched = sc_fetched s + sum_list (map (fst \<circ> snd) results),
               sc_created = sc_created s + sum_list (map (fst \<circ> snd \<circ> snd) results),
               sc_updated = sc_updated s + sum_list (map (snd \<circ> snd \<circ> snd) results)\<rparr>, t)))
     | _ \<Rightarrow> fail (GmailResponseError ''Gmail messages list malformed''))"

definition empty_scan :: scan where
  "empty_scan = \<lparr>sc_seen = [], sc_fetched = 0, sc_created = 0, sc_updated = 0\<rparr>"

definition scan_mailbox :: "nat \<Rightarrow> 's outside \<Rightarrow> gmail_session \<Rightarrow> app_config \<Rightarrow> account_config \<Rightarrow> int \<Rightarrow>
    ('s net station, scan) prog" where
  "scan_mailbox n X G cfg a aid =
     listing n (GmailResponseError ''Gmail messages pagination token repeated'') (scan_round X G cfg a aid) empty_scan"

definition empty_result :: gmail_sync_result where
  "empty_result = \<lparr>gr_mode = ''full'', gr_remote_seen = 0, gr_fetched_raw = 0, gr_metadata_refreshed = 0,
     gr_imported = 0, gr_canonical_reused = 0, gr_labels_updated = 0, gr_remote_marked_absent = 0,
     gr_history_from = None, gr_history_to = None\<rparr>"

definition final_present :: "scan \<Rightarrow> history_outcome \<Rightarrow> string list" where
  "final_present s h = filter (\<lambda>m. m \<notin> set (ho_deleted h)) (remdups (sc_seen s @ ho_present h))"

definition full_result :: "string \<Rightarrow> scan \<Rightarrow> history_outcome \<Rightarrow> nat \<Rightarrow> gmail_sync_result" where
  "full_result anchor s h absent =
     \<lparr>gr_mode = ''full'', gr_remote_seen = length (final_present s h),
      gr_fetched_raw = sc_fetched s + gr_fetched_raw (ho_result h), gr_metadata_refreshed = 0,
      gr_imported = sc_created s + gr_imported (ho_result h),
      gr_canonical_reused = int (sc_fetched s) - int (sc_created s) + gr_canonical_reused (ho_result h),
      gr_labels_updated = sc_updated s + gr_labels_updated (ho_result h),
      gr_remote_marked_absent = absent + gr_remote_marked_absent (ho_result h),
      gr_history_from = Some anchor, gr_history_to = gr_history_to (ho_result h)\<rparr>"

definition gmail_full :: "'s gmail_outside \<Rightarrow> gmail_session \<Rightarrow> app_config \<Rightarrow> account_config \<Rightarrow> int \<Rightarrow>
    ('s net station, gmail_sync_result) prog" where
  "gmail_full X G cfg a aid =
     (let Y = outside.truncate X in
      seq (gmail_audit Y a ''gmail.sync.full.started'' ''started'' []) (\<lambda>u.
      seq (on_net (pre_scan_anchor (ou_peer X) G)) (\<lambda>found.
      case found of
        None \<Rightarrow> seq (empty_checkpoint (ou_host X) aid) (\<lambda>u. ret empty_result)
      | Some anchor \<Rightarrow>
          seq (scan_mailbox (go_pages X) Y G cfg a aid) (\<lambda>s.
          seq (gmail_partial X G cfg a aid anchor False) (\<lambda>h.
          seq (full_checkpoint (ou_host X) aid (final_present s h) (the (gr_history_to (ho_result h)))) (\<lambda>absent.
          let result = full_result anchor s h absent in
          seq (gmail_audit Y a ''gmail.sync.full.succeeded'' ''success'' (result_details result)) (\<lambda>u.
          ret result)))))))"

section \<open>A synchronization\<close>

fun gmail_error :: "error \<Rightarrow> bool" where
  "gmail_error (GmailError m) = True"
| "gmail_error GmailHistoryExpired = True"
| "gmail_error (GmailTransientError m) = True"
| "gmail_error GmailIdentityConflict = True"
| "gmail_error GmailSyncBusyError = True"
| "gmail_error (GmailResponseError m) = True"
| "gmail_error GmailUnknownLabelError = True"
| "gmail_error e = gmail_auth_error e"

definition sync_failed :: "'s outside \<Rightarrow> account_config \<Rightarrow> int \<Rightarrow> string \<Rightarrow> error \<Rightarrow> ('s net station, 'a) prog" where
  "sync_failed X a aid operation e =
     seq (record_failure (ou_host X) aid e operation) (\<lambda>u.
     seq (gmail_audit X a ''gmail.sync.failed'' ''failed'' [(''error_kind'', JStr (ou_class_name X e))]) (\<lambda>u.
     fail e))"

text \<open>\<open>except GmailHistoryExpired\<close>\<close>

definition resync :: "'s gmail_outside \<Rightarrow> gmail_session \<Rightarrow> app_config \<Rightarrow> account_config \<Rightarrow> int \<Rightarrow>
    ('s net station, gmail_sync_result) prog" where
  "resync X G cfg a aid =
     (let Y = outside.truncate X in
      seq (gmail_audit Y a ''gmail.history.expired'' ''safe-resync'' []) (\<lambda>u.
      seq (require_full_sync (ou_host X) aid) (\<lambda>u.
      attempt (gmail_full X G cfg a aid) gmail_error (sync_failed Y a aid ''expired''))))"

text \<open>Whether the whole mailbox must be listed, and otherwise the checkpoint.\<close>

definition checkpoint :: "sync_state_row option \<Rightarrow> string option" where
  "checkpoint state =
     (case state of None \<Rightarrow> None | Some s \<Rightarrow> if ss_full_sync_required s then None else ss_history_id s)"

definition sync_mailbox :: "'s gmail_outside \<Rightarrow> gmail_session \<Rightarrow> app_config \<Rightarrow> account_config \<Rightarrow> gmail_config \<Rightarrow> int \<Rightarrow>
    string option \<Rightarrow> ('s net station, gmail_sync_result) prog" where
  "sync_mailbox X G cfg a g aid since =
     seq (on_net (verify_profile (ou_peer X) G g)) (\<lambda>email.
     seq (refresh_labels (outside.truncate X) G aid) (\<lambda>ids.
     seq (on_net (write_state (\<lambda>s. s\<lparr>nt_labels := ids\<rparr>))) (\<lambda>u.
     case since of
       None \<Rightarrow> gmail_full X G cfg a aid
     | Some start \<Rightarrow> seq (gmail_partial X G cfg a aid start True) (\<lambda>h. ret (ho_result h)))))"

text \<open>The outer \<open>try\<close>\<close>

definition guarded_sync :: "'s gmail_outside \<Rightarrow> gmail_session \<Rightarrow> app_config \<Rightarrow> account_config \<Rightarrow> gmail_config \<Rightarrow> int \<Rightarrow>
    string option \<Rightarrow> ('s net station, gmail_sync_result) prog" where
  "guarded_sync X G cfg a g aid since =
     attempt (sync_mailbox X G cfg a g aid since) gmail_error
       (\<lambda>e. if e = GmailHistoryExpired then resync X G cfg a aid
             else sync_failed (outside.truncate X) a aid (if since = None then ''full'' else ''partial'') e)"

definition gmail_sync_locked :: "'s gmail_outside \<Rightarrow> app_config \<Rightarrow> account_config \<Rightarrow> gmail_config \<Rightarrow>
    ('s net station, gmail_sync_result) prog" where
  "gmail_sync_locked X cfg a g =
     seq (lift_result (load_credentials (go_token X) a)) (\<lambda>p.
     seq (on_net (write_state (\<lambda>s. s\<lparr>nt_labels := []\<rparr>))) (\<lambda>u.
     seq (begin_sync (ou_host X) (ac_name a)) (\<lambda>begun.
     guarded_sync X \<lparr>gl_token_path = p, gl_persist = True\<rparr> cfg a g (fst begun) (checkpoint (snd begun)))))"

definition gmail_sync :: "'s gmail_outside \<Rightarrow> app_config \<Rightarrow> string \<Rightarrow> ('s net station, gmail_sync_result) prog" where
  "gmail_sync X cfg name =
     (case config_account cfg name of
        None \<Rightarrow> fail (GmailError ''unknown or disabled Gmail account'')
      | Some a \<Rightarrow>
          seq (require (ac_enabled a) (GmailError ''unknown or disabled Gmail account'')) (\<lambda>u.
          seq (require (ac_kind a = Gmail) (GmailError ''account is not configured for Gmail synchronization'')) (\<lambda>u.
          case ac_gmail a of
            None \<Rightarrow> fail (GmailError ''account is not configured for Gmail synchronization'')
          | Some g \<Rightarrow>
              seq (transaction (initialize (ou_host X) (cf_accounts cfg) [])) (\<lambda>u.
              seq (reconcile_pending (ou_system X) (ou_host X) (ou_classifier X) cfg (Some name) None) (\<lambda>ids.
              locked (ou_peer X) (gmail_lock_path (ou_host X) cfg a ''sync'') GmailSyncBusyError
                (gmail_sync_locked X cfg a g))))))"

end
