(* ===== verification/GmailFrame.thy ===== *)
theory GmailFrame
  imports GmailSync
begin

text \<open>
  Relations between the states before and after that every part of a Gmail synchronization keeps,
  collected in locales and used for four of them: what is sent, the bindings, the checkpoints, and the
  absence of a message that is not touched.
\<close>

section \<open>Parts of a synchronization\<close>

text \<open>
  \<open>gmail_frame\<close> covers everything up to the commit of a checkpoint; \<open>touch\<close> tells which messages may
  be registered or marked as deleted.
\<close>

locale gmail_frame = acquisition_frame R for R :: "'s net station \<Rightarrow> 's net station \<Rightarrow> bool" +
  fixes ok :: "path \<Rightarrow> bool" and aid :: int and touch :: "string \<Rightarrow> bool"
  assumes net: "extends (reads_gmail ok) (dk_rest (w_net w)) (dk_rest (w_net v)) \<Longrightarrow> w_db v = w_db w \<Longrightarrow> R w v"
    and labelled: "store_labels aid now labels (gmail_labels (w_db w)) = Inr (ids, rows) \<Longrightarrow>
      R w (commit ((w_db w)\<lparr>gmail_labels := mark_absent_labels aid ids rows\<rparr>) 0 w)"
    and registered: "touch mid \<Longrightarrow> bind_gmail aid mid thread stored ids now (w_db w) = Inr (new, d) \<Longrightarrow>
      R w (commit d 0 w)"
    and deleted: "touch mid \<Longrightarrow> R w (commit (snd (mark_absent aid (\<lambda>m. m = Some mid) (w_db w))) 0 w)"
begin

lemma on_network: "reads ok m \<Longrightarrow> leads R (on_net m)"
  using addsD [of "reads_gmail ok" "\<lambda>e. True" m]
  by (auto simp: leads_def on_net_def wp_always split: prod.split intro!: net) (metis snd_conv)

lemma storing:
  "leads R (\<lambda>w. case store_labels aid now labels (gmail_labels (w_db w)) of
     Inl e \<Rightarrow> (Inl e, w)
   | Inr (ids, rows) \<Rightarrow> (Inr ids, commit ((w_db w)\<lparr>gmail_labels := mark_absent_labels aid ids rows\<rparr>) 0 w))"
  "touch mid \<Longrightarrow> leads R (\<lambda>w. case bind_gmail aid mid thread stored ids now (w_db w) of
     Inl e \<Rightarrow> (Inl e, w) | Inr (new, d) \<Rightarrow> (Inr (new, length ids), commit d 0 w))"
  "touch mid \<Longrightarrow> leads R (mark_deleted aid mid)"
proof -
  show "leads R (\<lambda>w. case store_labels aid now labels (gmail_labels (w_db w)) of
     Inl e \<Rightarrow> (Inl e, w)
   | Inr (ids, rows) \<Rightarrow> (Inr ids, commit ((w_db w)\<lparr>gmail_labels := mark_absent_labels aid ids rows\<rparr>) 0 w))"
    by (auto simp: leads_def split: sum.split intro: labelled)
  show "touch mid \<Longrightarrow> leads R (\<lambda>w. case bind_gmail aid mid thread stored ids now (w_db w) of
     Inl e \<Rightarrow> (Inl e, w) | Inr (new, d) \<Rightarrow> (Inr (new, length ids), commit d 0 w))"
    by (auto simp: leads_def split: sum.split intro: registered)
  show "touch mid \<Longrightarrow> leads R (mark_deleted aid mid)"
    unfolding mark_deleted_def by (rule transaction) (use deleted in \<open>auto simp: leads_def mark_absent_def\<close>)
qed

lemma lifted: "(\<And>x. r = Inr x \<Longrightarrow> leads R (f x)) \<Longrightarrow> leads R (Effects.seq (lift_result r) f)"
  by (cases r) (auto simp: leads_def run_simps)

lemma required: "(b \<Longrightarrow> leads R (f ())) \<Longrightarrow> leads R (Effects.seq (require b e) f)"
  by (auto simp: leads_def run_simps)

lemma set_labels: "leads R (on_net (write_state (\<lambda>s. s\<lparr>nt_labels := l\<rparr>)))"
  by (intro on_network adds_write) (simp add: extends_def)

lemma labelling:
  assumes "ok (gl_token_path G)"
  shows "leads R (refresh_labels X G aid)" "leads R (reload_labels X G aid)"
proof -
  show "leads R (refresh_labels X G aid)"
    unfolding refresh_labels_def
    by (intro seq on_network reads_resources assms)
      (auto split: pyval.split intro!: structural storing)
  then show "leads R (reload_labels X G aid)"
    unfolding reload_labels_def by (intro structural set_labels)
qed

lemma registering_gmail:
  assumes "\<And>mid. valid_id (dict_get_or message ''id'' VNull) ''message id'' = Inr mid \<Longrightarrow> touch mid"
  shows "leads R (gmail_register X aid message stored)"
  unfolding gmail_register_def
  by (rule lifted) (intro structural on_network adds_read storing assms)

lemma reconciling_gmail:
  assumes G: "ok (gl_token_path G)" and "touch mid"
  shows "leads R (gmail_reconcile X G cfg a aid mid)"
proof -
  have "leads R (register_or_reload X G aid response stored)"
    if "valid_id (dict_get_or response ''id'' VNull) ''message id'' = Inr mid" for response stored
    unfolding register_or_reload_def
    by (intro structural registering_gmail labelling G) (use that assms(2) in auto)
  moreover have "leads R (classify_new X cfg stored)" for stored
    unfolding classify_new_def by (auto split: option.split intro!: structural local_parts)
  ultimately show ?thesis
    unfolding gmail_reconcile_def
    by (intro seq on_network reads_resources G basic lifted required)
      (auto intro!: structural local_parts)
qed

lemma changing:
  "ok (gl_token_path G) \<Longrightarrow> touch mid \<Longrightarrow> leads R (apply_change X G cfg a aid gone mid)"
  unfolding apply_change_def by (intro structural reconciling_gmail storing)

end

lemma reads_history:
  assumes "ok (gl_token_path G)"
  shows "reads ok (read_history n P G start)"
proof -
  have "reads ok (history_round P G start token c)" for token c
    unfolding history_round_def by (intro adds_intros reads_resources reads_lift assms)
  then have "reads ok (paged n e (history_round P G start) seen token c)" for e seen token c
    by (induction n arbitrary: seen token c) (auto intro!: adds_intros split: option.split)
  then show ?thesis
    unfolding read_history_def listing_def by (intro adds_seq) (auto split: option.split intro: adds_intros)
qed

lemma reads_anchor:
  assumes "ok (gl_token_path G)"
  shows "reads ok (pre_scan_anchor P G)"
  unfolding pre_scan_anchor_def
  by (intro adds_seq reads_resources assms)
    (auto split: pyval.split list.split intro!: adds_intros reads_resources reads_lift assms)

text \<open>The listings of a relation that allows every message to be touched.\<close>

locale gmail_scan = gmail_frame R ok aid "\<lambda>mid. True" for R :: "'s net station \<Rightarrow> 's net station \<Rightarrow> bool"
    and ok :: "path \<Rightarrow> bool" and aid :: int
begin

lemma auditing_gmail: "leads R (gmail_audit X a event res details)"
  unfolding gmail_audit_def by (rule auditing)

lemma scanning:
  assumes G: "ok (gl_token_path G)"
  shows "leads R (scan_mailbox n X G cfg a aid)"
proof -
  have "leads R (scan_round X G cfg a aid token s)" for token s
    unfolding scan_round_def scan_item_def
    by (intro seq on_network reads_resources G)
      (auto split: pyval.split intro!: structural reconciling_gmail G)
  then have "leads R (paged n e (scan_round X G cfg a aid) seen token s)" for e seen token s
    by (induction n arbitrary: seen token s) (auto intro!: structural split: option.split)
  then show ?thesis
    unfolding scan_mailbox_def listing_def by (intro structural)
qed

lemma applying_history:
  assumes G: "ok (gl_token_path G)"
  shows "leads R (gmail_partial X G cfg a aid start False)"
  unfolding gmail_partial_def finish_partial_def Let_def if_False
  by (intro structural on_network reads_history G changing) simp_all

end

section \<open>A whole synchronization\<close>

text \<open>Relations that also the commits of the synchronization state keep.\<close>

locale gmail_run = acquisition_frame R for R :: "'s net station \<Rightarrow> 's net station \<Rightarrow> bool" +
  fixes ok :: "path \<Rightarrow> bool"
  assumes scans: "gmail_scan R ok aid"
    and states: "R w (commit ((w_db w)\<lparr>gmail_sync_state := S\<rparr>) n w)"
    and absences: "R w (commit (snd (mark_absent aid P (w_db w))) n w)"
begin

lemma commits:
  "leads R (begin_sync H name)" "leads R (record_failure H i e operation)" "leads R (require_full_sync H i)"
  "leads R (empty_checkpoint H i)" "leads R (partial_checkpoint H i end')"
proof -
  have update: "R w (commit (update_state i f (w_db w)) n w)" for w i f n
    unfolding update_state_def by (rule states)
  have insert: "R w (commit (update_state i f (insert_state i now (w_db w))) n w)" for w i f now n
  proof (cases "state_of i (w_db w) = None")
    case True
    have "R w (commit (update_state i f (insert_state i now (w_db w))) n w) =
        R w (commit ((w_db w)\<lparr>gmail_sync_state := gmail_sync_state (update_state i f (insert_state i now (w_db w)))\<rparr>) n w)"
      using True by (simp add: update_state_def insert_state_def)
    then show ?thesis by (simp add: states)
  qed (use update in \<open>simp add: insert_state_def\<close>)
  show "leads R (begin_sync H name)"
    unfolding begin_sync_def
    by (rule transaction) (auto simp: leads_def insert split: option.split)
  show "leads R (record_failure H i e operation)" "leads R (require_full_sync H i)"
    "leads R (empty_checkpoint H i)" "leads R (partial_checkpoint H i end')"
    unfolding record_failure_def require_full_sync_def empty_checkpoint_def partial_checkpoint_def
    by (rule transaction, simp add: leads_def update)+
qed

lemma completing: "leads R (full_checkpoint H i present end')"
proof -
  have "R w (commit (update_state i f (snd (mark_absent i P (w_db w)))) n w)" for w i f P n
  proof (rule steps [OF absences [of w i P 0]])
    let ?v = "commit (snd (mark_absent i P (w_db w))) 0 w"
    have "R ?v (commit ((w_db ?v)\<lparr>gmail_sync_state := gmail_sync_state (update_state i f (w_db ?v))\<rparr>) n ?v)"
      by (rule states)
    then show "R ?v (commit (update_state i f (snd (mark_absent i P (w_db w)))) n w)"
      by (simp add: commit_def update_state_def)
  qed
  then show ?thesis
    unfolding full_checkpoint_def
    by (intro transaction) (auto simp: leads_def mark_absent_def)
qed

lemma auditing_run: "leads R (gmail_audit X a event res details)"
  unfolding gmail_audit_def by (rule auditing)

lemma running_partial: "ok (gl_token_path G) \<Longrightarrow> leads R (gmail_partial X G cfg a i start committing)"
  unfolding gmail_partial_def finish_partial_def Let_def
  by (intro structural gmail_frame.on_network [OF gmail_scan.axioms [OF scans]]
      gmail_frame.changing [OF gmail_scan.axioms [OF scans]] reads_history commits auditing_run) simp_all

lemma running_full: "ok (gl_token_path G) \<Longrightarrow> leads R (gmail_full X G cfg a i)"
  unfolding gmail_full_def Let_def
  by (intro structural gmail_frame.on_network [OF gmail_scan.axioms [OF scans]]
      gmail_scan.scanning [OF scans] reads_anchor commits completing auditing_run running_partial) simp_all

lemma failing: "leads R (sync_failed X a i operation e)"
  unfolding sync_failed_def by (intro structural commits auditing_run)

lemma guarding: "ok (gl_token_path G) \<Longrightarrow> leads R (guarded_sync X G cfg a g i since)"
  unfolding guarded_sync_def sync_mailbox_def resync_def Let_def
  by (intro structural gmail_frame.set_labels [OF gmail_scan.axioms [OF scans]]
      gmail_frame.on_network [OF gmail_scan.axioms [OF scans]] reads_resources
      gmail_frame.labelling [OF gmail_scan.axioms [OF scans]] commits failing auditing_run
      running_full running_partial)

lemma running:
  assumes "\<And>a p. config_account cfg name = Some a \<Longrightarrow> token_path a = Inr p \<Longrightarrow> ok p"
  shows "leads R (gmail_sync X cfg name)"
proof -
  have locked: "leads R (gmail_sync_locked X cfg a g)" if "config_account cfg name = Some a" for a g
    unfolding gmail_sync_locked_def
    by (rule gmail_frame.lifted [OF gmail_scan.axioms [OF scans]])
      (intro structural gmail_frame.set_labels [OF gmail_scan.axioms [OF scans]] commits guarding,
        simp, rule assms [OF that], rule load_credentials_path)
  have lock: "leads R (on_net (issue P (TryLock p)))" "leads R (on_net (command_done P (Unlock p)))" for P p
    by (intro gmail_frame.on_network [OF gmail_scan.axioms [OF scans]] adds_intros; simp)+
  show ?thesis
    unfolding gmail_sync_def locked_def
    by (auto split: option.split intro!: structural local_parts lock locked)
qed

end

section \<open>What is sent, and the bindings\<close>

lemma upsert_gmail_identities:
  assumes "upsert_gmail i mid thread header now rows = Inr rows'"
  shows "\<exists>rs. map identity_of rows' = map identity_of rows @ rs"
proof -
  have "identity_of (r\<lparr>rm_provider_thread_id := thread\<rparr>) = identity_of r" for r
    by (simp add: identity_of_def)
  with assms show ?thesis
    by (auto simp: upsert_gmail_def rbind_Inr identity_update dest: upsert_remote_identities)
qed

lemma bind_gmail_parts:
  assumes "bind_gmail i mid thread stored ids now d = Inr (new, d')"
  obtains rows r e where "upsert_gmail i mid thread (case stored of None \<Rightarrow> None | Some c \<Rightarrow> cm_message_id_header c) now
      (remote_messages d) = Inr rows" "find (gmail_identity mid i) rows = Some r"
    "case stored of None \<Rightarrow> e = d\<lparr>remote_messages := rows\<rparr>
     | Some c \<Rightarrow> \<exists>b. link_remote (rm_id r) (cm_id c) ''gmail-api-raw'' now (d\<lparr>remote_messages := rows\<rparr>) = Inr (b, e)"
    "store_message_labels (rm_id r) i ids e = Inr d'"
proof (cases stored)
  case None
  from assms obtain rows and r :: remote_row
    where "upsert_gmail i mid thread None now (remote_messages d) = Inr rows"
      "find (gmail_identity mid i) rows = Some r"
      "store_message_labels (rm_id r) i ids (d\<lparr>remote_messages := rows\<rparr>) = Inr d'"
    unfolding bind_gmail_def None by (clarsimp simp: rbind_Inr split: option.split_asm)
  then show ?thesis using that [of rows r "d\<lparr>remote_messages := rows\<rparr>"] None by simp
next
  case (Some c)
  from assms obtain rows and r :: remote_row and b e
    where "upsert_gmail i mid thread (cm_message_id_header c) now (remote_messages d) = Inr rows"
      "find (gmail_identity mid i) rows = Some r"
      "link_remote (rm_id r) (cm_id c) ''gmail-api-raw'' now (d\<lparr>remote_messages := rows\<rparr>) = Inr (b, e)"
      "store_message_labels (rm_id r) i ids e = Inr d'"
    unfolding bind_gmail_def Some by (clarsimp simp: rbind_Inr split: option.split_asm)
  then show ?thesis using that [of rows r e] Some by auto
qed

lemma store_message_labels_frame:
  "store_message_labels rid i ids e = Inr d \<Longrightarrow> remote_messages d = remote_messages e \<and>
     remote_canonical_links d = remote_canonical_links e \<and> accounts d = accounts e \<and>
     gmail_sync_state d = gmail_sync_state e"
  by (auto simp: store_message_labels_def split: if_splits)

lemma link_remote_frame: "link_remote rid cid reason now d = Inr (b, e) \<Longrightarrow>
    remote_messages e = remote_messages d \<and> accounts e = accounts d \<and> gmail_sync_state e = gmail_sync_state d"
  by (auto simp: link_remote_def split: option.splits if_splits)

lemma bind_gmail_grows:
  assumes "bind_gmail i mid thread stored ids now d = Inr (new, d')"
  shows "bindings_grow d d'"
proof -
  from assms obtain rows and r :: remote_row and e where p:
    "upsert_gmail i mid thread (case stored of None \<Rightarrow> None | Some c \<Rightarrow> cm_message_id_header c) now
      (remote_messages d) = Inr rows"
    "case stored of None \<Rightarrow> e = d\<lparr>remote_messages := rows\<rparr>
     | Some c \<Rightarrow> \<exists>b. link_remote (rm_id r) (cm_id c) ''gmail-api-raw'' now (d\<lparr>remote_messages := rows\<rparr>) = Inr (b, e)"
    "store_message_labels (rm_id r) i ids e = Inr d'"
    by (rule bind_gmail_parts) blast
  have "bindings_grow d (d\<lparr>remote_messages := rows\<rparr>)"
    using upsert_gmail_identities [OF p(1)] by (simp add: bindings_grow_def)
  moreover have "bindings_grow (d\<lparr>remote_messages := rows\<rparr>) e"
    using p(2) link_remote_grows by (auto split: option.split_asm)
  moreover have "bindings_grow e d'"
    using store_message_labels_frame [OF p(3)] by (simp add: bindings_grow_def)
  ultimately show ?thesis by (blast intro: bindings_trans)
qed

lemma mark_absent_grows: "bindings_grow d (snd (mark_absent i P d))"
  by (simp add: mark_absent_def bindings_grow_def identity_update identity_of_def)

lemma gmail_tables_grow:
  "bindings_grow d (d\<lparr>gmail_labels := L\<rparr>)" "bindings_grow d (d\<lparr>gmail_sync_state := S\<rparr>)"
  by (simp_all add: bindings_grow_def)

interpretation reading: gmail_run "sends_only (reads_gmail ok)" ok
proof unfold_locales
qed (auto simp: sends_only_def)

interpretation linking: gmail_run keeps_bindings "\<lambda>p. True"
proof unfold_locales
qed (auto simp: keeps_bindings_def intro: mark_absent_grows bind_gmail_grows gmail_tables_grow)

end
