(* ===== verification/GmailSafety.thy ===== *)
theory GmailSafety
  imports GmailFrame
begin

text \<open>
  What a Gmail synchronization guarantees: it only reads from the server, its listings end, the
  checkpoint moves only behind stored messages, and the local inventory agrees with what the server
  reported.
\<close>

section \<open>Only reading\<close>

definition gmail_reading :: "app_config \<Rightarrow> string \<Rightarrow> command \<Rightarrow> bool" where
  "gmail_reading cfg name = reads_gmail (\<lambda>p. \<exists>a. config_account cfg name = Some a \<and> token_path a = Inr p)"

text \<open>
  C33.  Acquisition from Gmail is read-only.  Whatever the server answers and however the
  synchronization ends, it sends nothing but GET requests, and the only file it writes through the
  OAuth library is the configured token file, with a credential whose only mailbox scope is
  \<^verbatim>\<open>gmail.readonly\<close>.
\<close>

theorem gmail_sync_is_read_only:
  assumes "gmail_sync X cfg name w = (r, u)"
  shows "extends (gmail_reading cfg name) (dk_rest (w_net w)) (dk_rest (w_net u))"
proof -
  have "leads (sends_only (gmail_reading cfg name)) (gmail_sync X cfg name)"
    unfolding gmail_reading_def by (rule reading.running) blast
  with assms show ?thesis by (auto simp: leads_def sends_only_def dest: spec [of _ w])
qed

section \<open>Listings end\<close>

text \<open>The server names page tokens of \<open>T\<close> only.\<close>

definition tokens_from :: "string set \<Rightarrow> 's peer \<Rightarrow> bool" where
  "tokens_from T P \<longleftrightarrow> (\<forall>c s status kvs t. fst (P c s) = Inr (Http status (Some (VDict kvs))) \<longrightarrow>
     dict_get kvs ''nextPageToken'' = Some (VStr t) \<longrightarrow> t \<in> T)"

lemma wp_true [simp]: "wp m (\<lambda>x t. True) (\<lambda>e t. True) s"
  by (simp add: wp_always)

lemma wp_get_reply:
  assumes "\<And>c s status kvs. fst (P c s) = Inr (Http status (Some (VDict kvs))) \<Longrightarrow> A kvs"
  shows "wp (gmail_get P G op url params) (\<lambda>kvs t. A kvs) (\<lambda>e t. True) s"
proof -
  let ?Q = "\<lambda>r t. \<forall>kvs. snd r = Some (VDict kvs) \<longrightarrow> A kvs"
  have http: "wp (http_request P url params token) ?Q (\<lambda>e t. True) s" for token s
    unfolding http_request_def wp_seq
    by (rule wp_issue) (use assms [of "HttpGet url params token" "nt_peer s"] in \<open>auto split: reply.split\<close>)
  have "wp (session_get P G url params) ?Q (\<lambda>e t. True) s" for s
    unfolding session_get_def
    by (rule wp_seq_any, rule wp_seq_any, rule wp_seq_any, subst wp_seq, rule wp_mono [OF http])
      (auto intro!: wp_seq_any http)
  note session = this
  have "wp (get_attempts (session_get P G url params) op n) ?Q (\<lambda>e t. True) s" for n s
  proof (induction n arbitrary: s)
    case 0
    show ?case unfolding get_attempts.simps wp_attempt by (rule wp_mono [OF session]) simp_all
  next
    case (Suc n)
    show ?case
      unfolding get_attempts.simps wp_seq wp_attempt
      by (rule wp_mono [OF session]) (auto simp: wp_rules Suc.IH)
  qed
  from this [of 2] show ?thesis
    unfolding gmail_get_def wp_seq
    by (rule wp_mono) (auto simp: wp_rules get_result_Inr split: sum.split)
qed

lemma valid_id_Inr: "valid_id v field = Inr t \<Longrightarrow> v = VStr t"
  by (cases v) (simp_all add: valid_id_def split: if_splits)

lemma next_token_Some:
  assumes "next_token kvs = Inr (Some t)"
  shows "dict_get kvs ''nextPageToken'' = Some (VStr t)"
proof -
  from assms have "valid_id (dict_get_or kvs ''nextPageToken'' VNull) ''page token'' = Inr t"
    by (simp add: next_token_def Let_def rbind_Inr split: if_splits)
  then have "dict_get_or kvs ''nextPageToken'' VNull = VStr t" by (rule valid_id_Inr)
  then show ?thesis by (simp add: dict_get_or_def split: option.splits)
qed

lemma wp_get_next:
  assumes "tokens_from T P"
  shows "wp (gmail_get P G op url params) (\<lambda>kvs t. \<forall>x. next_token kvs = Inr (Some x) \<longrightarrow> x \<in> T) (\<lambda>e t. True) s"
proof (rule wp_get_reply, intro allI impI)
  fix c s status kvs x
  assume "fst (P c s) = Inr (Http status (Some (VDict kvs)))" "next_token kvs = Inr (Some x)"
  then show "x \<in> T" using assms next_token_Some unfolding tokens_from_def by blast
qed

lemma history_page_token:
  assumes "history_page page c = Inr (c', t)"
  shows "t = None \<or> next_token page = Inr t"
proof (cases "dict_get_or page ''history'' (VList [])")
  case (VList histories)
  show ?thesis
  proof (cases "dict_get_or page ''nextPageToken'' VNull = VNull")
    case True
    show ?thesis using assms unfolding history_page_def Let_def VList True pyval.case by (auto simp: rbind_Inr)
  next
    case False
    then show ?thesis using assms unfolding history_page_def Let_def VList pyval.case if_not_P [OF False] by (auto simp: rbind_Inr)
  qed
qed (use assms in \<open>simp_all add: history_page_def\<close>)

lemma history_tokens:
  assumes "tokens_from T P"
  shows "tokens_in T (history_round P G start)"
  unfolding tokens_in_def
proof (intro allI)
  fix token c s
  have "wp (get_history P G start token) (\<lambda>kvs t. \<forall>x. next_token kvs = Inr (Some x) \<longrightarrow> x \<in> T) (\<lambda>e t. True) s"
    unfolding get_history_def
    by (intro wp_seq_any wp_get_next assms)
  then show "wp (history_round P G start token c)
      (\<lambda>page t. case snd page of None \<Rightarrow> True | Some x \<Rightarrow> x \<in> T) (\<lambda>e t. True) s"
    unfolding history_round_def wp_seq
    by (rule wp_mono) (auto simp: wp_rules split: sum.split option.split dest!: history_page_token)
qed

lemma scan_tokens:
  assumes "tokens_from T (ou_peer X)"
  shows "tokens_in T (scan_round X G cfg a aid)"
  unfolding tokens_in_def
proof (intro allI)
  fix token and s :: scan and w :: "'a net station"
  have "wp (get_messages (ou_peer X) G token 500) (\<lambda>kvs t. \<forall>x. next_token kvs = Inr (Some x) \<longrightarrow> x \<in> T) (\<lambda>e t. True) n" for n
    unfolding get_messages_def
    by (rule wp_get_next [OF assms])
  from wp_on_net [OF this]
  show "wp (scan_round X G cfg a aid token s)
      (\<lambda>page t. case snd page of None \<Rightarrow> True | Some x \<Rightarrow> x \<in> T) (\<lambda>e t. True) w"
    unfolding scan_round_def wp_seq
    by (rule wp_mono)
      (auto split: pyval.split sum.split option.split intro!: wp_seq_any simp: wp_rules)
qed

text \<open>
  C19.  The listings of a synchronization end.  If the server names page tokens from a finite set only,
  the history and the mailbox are listed completely, or the listing raises, after at most one page more
  than there are tokens; and allowing still more pages changes neither the outcome nor the final state.
\<close>

theorem gmail_listings_end:
  assumes "tokens_from T P" "ou_peer X = P" "finite T" "card T < n" "n \<le> m"
  shows "fst (paged n e (history_round P G start) [] None no_changes s) \<noteq> Inr None \<and>
    paged m e (history_round P G start) [] None no_changes s = paged n e (history_round P G start) [] None no_changes s \<and>
    fst (paged n e (scan_round X G cfg a aid) [] None empty_scan w) \<noteq> Inr None \<and>
    paged m e (scan_round X G cfg a aid) [] None empty_scan w = paged n e (scan_round X G cfg a aid) [] None empty_scan w"
proof -
  have ends: "fst (paged n e visit [] None b t) \<noteq> Inr None \<and> paged m e visit [] None b t = paged n e visit [] None b t"
    if "tokens_in T visit" for visit :: "string option \<Rightarrow> 'c \<Rightarrow> ('d, 'c \<times> string option) prog" and b t
  proof -
    have "wp (paged n e visit [] None b) (\<lambda>r t. r \<noteq> None) (\<lambda>e t. True) t"
      by (rule paged_ends [OF that assms(3)]) (use assms(4) in simp_all)
    then have "fst (paged n e visit [] None b t) \<noteq> Inr None" by (auto simp: wp_def split: prod.splits)
    moreover from this paged_more [OF prod.collapse [symmetric] _ assms(5)]
    have "paged m e visit [] None b t = paged n e visit [] None b t" by simp
    ultimately show ?thesis by blast
  qed
  from ends [OF history_tokens [OF assms(1)]] ends [OF scan_tokens] assms(1,2)
  show ?thesis by blast
qed

end
