(* ===== verification/GmailInventory.thy ===== *)
theory GmailInventory
  imports GmailSafety
begin

text \<open>
  The checkpoint of a Gmail synchronization and the local inventory: a synchronization that fails
  never moves a checkpoint forward, and one that returns leaves an inventory that agrees with what
  the server reported up to the new checkpoint.
\<close>

section \<open>Checkpoints and absence as relations\<close>

text \<open>The checkpoint from which the next synchronization would start is kept, or dropped.\<close>

definition keeps_checkpoints :: "'s net station \<Rightarrow> 's net station \<Rightarrow> bool" where
  "keeps_checkpoints w v \<longleftrightarrow> (\<forall>i.
     (state_of i (w_db w) \<noteq> None \<longrightarrow> state_of i (w_db v) \<noteq> None) \<and>
     checkpoint (state_of i (w_db v)) \<in> {None, checkpoint (state_of i (w_db w))})"

text \<open>Whether a message of an account is marked as present.\<close>

definition marked :: "int \<Rightarrow> string \<Rightarrow> db \<Rightarrow> bool" where
  "marked i m d \<longleftrightarrow> list_ex (present_gmail i (\<lambda>x. x = Some m)) (remote_messages d)"

definition stays_absent :: "int \<Rightarrow> string \<Rightarrow> 's net station \<Rightarrow> 's net station \<Rightarrow> bool" where
  "stays_absent i m w v \<longleftrightarrow> (marked i m (w_db v) \<longrightarrow> marked i m (w_db w))"

lemma keeps_checkpoints_same: "gmail_sync_state (w_db v) = gmail_sync_state (w_db w) \<Longrightarrow> keeps_checkpoints w v"
  by (simp add: keeps_checkpoints_def state_of_def)

lemma bind_gmail_states:
  assumes "bind_gmail i mid thread stored ids now d = Inr (new, d')"
  shows "gmail_sync_state d' = gmail_sync_state d"
proof -
  from assms obtain rows and r :: remote_row and e where p:
    "case stored of None \<Rightarrow> e = d\<lparr>remote_messages := rows\<rparr>
     | Some c \<Rightarrow> \<exists>b. link_remote (rm_id r) (cm_id c) ''gmail-api-raw'' now (d\<lparr>remote_messages := rows\<rparr>) = Inr (b, e)"
    "store_message_labels (rm_id r) i ids e = Inr d'"
    by (rule bind_gmail_parts) blast
  then show ?thesis using store_message_labels_frame link_remote_frame
    by (fastforce split: option.split_asm)
qed

lemma upsert_gmail_marks:
  assumes "upsert_gmail i mid thread header now rows = Inr rows'" "mid \<noteq> m"
    "list_ex (present_gmail i (\<lambda>x. x = Some m)) rows'"
  shows "list_ex (present_gmail i (\<lambda>x. x = Some m)) rows"
proof -
  have other: "present_gmail i (\<lambda>x. x = Some m) (if gmail_identity mid i r then f r else r) =
      (present_gmail i (\<lambda>x. x = Some m) r)" if "\<And>r. identity_of (f r) = identity_of r" for f and r :: remote_row
    using that [of r] assms(2) by (auto simp: present_gmail_def gmail_identity_def identity_of_def)
  have renewed: "list_ex (present_gmail i (\<lambda>x. x = Some m)) (update_where (gmail_identity mid i) f rows) =
      list_ex (present_gmail i (\<lambda>x. x = Some m)) rows" if "\<And>r. identity_of (f r) = identity_of r" for f rows
    using other [of f, OF that] by (induction rows) (simp_all add: update_where_def)
  have new: "\<not> present_gmail i (\<lambda>x. x = Some m) (gmail_row i mid thread header now)"
    using assms(2) by (simp add: present_gmail_def gmail_row_def)
  have "gmail_row i mid thread header now\<lparr>rm_provider_thread_id := thread\<rparr> = gmail_row i mid thread header now"
    by (simp add: gmail_row_def)
  with assms(1,3) new show ?thesis
    by (auto simp: upsert_gmail_def rbind_Inr upsert_remote_def renewed identity_of_def split: if_split_asm)
qed

lemma bind_gmail_marks:
  assumes "bind_gmail i mid thread stored ids now d = Inr (new, d')" "mid \<noteq> m" "marked i m d'"
  shows "marked i m d"
proof -
  from assms(1) obtain rows and r :: remote_row and e where p:
    "upsert_gmail i mid thread (case stored of None \<Rightarrow> None | Some c \<Rightarrow> cm_message_id_header c) now
      (remote_messages d) = Inr rows"
    "case stored of None \<Rightarrow> e = d\<lparr>remote_messages := rows\<rparr>
     | Some c \<Rightarrow> \<exists>b. link_remote (rm_id r) (cm_id c) ''gmail-api-raw'' now (d\<lparr>remote_messages := rows\<rparr>) = Inr (b, e)"
    "store_message_labels (rm_id r) i ids e = Inr d'"
    by (rule bind_gmail_parts) blast
  have "remote_messages d' = rows"
    using p(2) store_message_labels_frame [OF p(3)] link_remote_frame by (fastforce split: option.split_asm)
  then show ?thesis using upsert_gmail_marks [OF p(1) assms(2)] assms(3) by (simp add: marked_def)
qed

lemma mark_absent_state: "gmail_sync_state (snd (mark_absent i P d)) = gmail_sync_state d"
  by (simp add: mark_absent_def)

lemma mark_absent_present:
  "list_ex (present_gmail i Q) (remote_messages (snd (mark_absent j P d))) \<Longrightarrow>
     \<exists>r \<in> set (remote_messages d). present_gmail i Q r \<and> \<not> present_gmail j P r"
  by (auto simp: mark_absent_def list_ex_iff update_where_def present_gmail_def split: if_split_asm)

lemma mark_absent_marked: "marked i m (snd (mark_absent j P d)) \<Longrightarrow> marked i m d"
  unfolding marked_def by (drule mark_absent_present) (auto simp: list_ex_iff)

lemma keeps_checkpoints_trans: "keeps_checkpoints u v \<Longrightarrow> keeps_checkpoints v w \<Longrightarrow> keeps_checkpoints u w"
  unfolding keeps_checkpoints_def by (metis insertE insertI1 singletonD insert_commute)

interpretation checkpointing: gmail_scan keeps_checkpoints "\<lambda>p. True" i
proof unfold_locales
  show "keeps_checkpoints u v \<Longrightarrow> keeps_checkpoints v w \<Longrightarrow> keeps_checkpoints u w" for u v w :: "'a net station"
    by (rule keeps_checkpoints_trans)
qed (simp_all add: keeps_checkpoints_same same_bindings_def mark_absent_state bind_gmail_states)

lemma marked_same: "remote_messages d = remote_messages e \<Longrightarrow> marked i m d = marked i m e"
  by (simp add: marked_def)

lemma marked_labels [simp]: "marked i m (d\<lparr>gmail_labels := L\<rparr>) = marked i m d"
  by (simp add: marked_def)

interpretation absence: gmail_frame "stays_absent i m" "\<lambda>p. True" i "\<lambda>x. x \<noteq> m"
proof unfold_locales
qed (auto simp: stays_absent_def same_bindings_def dest: bind_gmail_marks mark_absent_marked marked_same)

section \<open>The commits of the state\<close>

lemma state_of_update:
  assumes "\<And>s. ss_account_id (f s) = ss_account_id s"
  shows "state_of j (update_state i f d) = (if i = j then map_option f (state_of j d) else state_of j d)"
proof -
  have "find (\<lambda>s. ss_account_id s = j) (update_where (\<lambda>s. ss_account_id s = i) f l) =
      (if i = j then map_option f (find (\<lambda>s. ss_account_id s = j) l) else find (\<lambda>s. ss_account_id s = j) l)" for l
    by (cases "i = j") (induction l; simp add: update_where_def assms)+
  then show ?thesis by (simp add: state_of_def update_state_def)
qed

lemma state_of_insert:
  "state_of j (insert_state i now d) =
     (if i = j \<and> state_of i d = None then Some \<lparr>ss_account_id = i, ss_history_id = None, ss_full_sync_required = True,
        ss_last_sync_started_at = None, ss_last_sync_succeeded_at = None, ss_last_full_sync_succeeded_at = None,
        ss_last_partial_sync_succeeded_at = None, ss_last_error_at = None, ss_last_error_kind = None,
        ss_updated_at = now\<rparr> else state_of j d)"
proof -
  have "find P (l @ [x]) = (case find P l of None \<Rightarrow> if P x then Some x else None | Some y \<Rightarrow> Some y)"
    for P and l :: "sync_state_row list" and x
    by (induction l) simp_all
  then show ?thesis by (auto simp: insert_state_def state_of_def split: option.split)
qed

lemma checkpoint_cases:
  "checkpoint (Some s) = (if ss_full_sync_required s then None else ss_history_id s)" "checkpoint None = None"
  by (simp_all add: checkpoint_def)

lemma keeping_commits:
  fixes H :: host
  defines "K \<equiv> keeps_checkpoints :: 's net station \<Rightarrow> 's net station \<Rightarrow> bool"
  shows "leads K (record_failure H i e operation)" "leads K (require_full_sync H i)" "leads K (begin_sync H name)"
  unfolding K_def
proof -
  have update: "keeps_checkpoints w (commit (update_state i f (w_db w)) n w)"
    if "\<And>s. ss_account_id (f s) = ss_account_id s" "\<And>s. checkpoint (Some (f s)) \<in> {None, checkpoint (Some s)}"
    for f n and w :: "'s net station" and i
    unfolding keeps_checkpoints_def
  proof
    fix j
    show "(state_of j (w_db w) \<noteq> None \<longrightarrow> state_of j (w_db (commit (update_state i f (w_db w)) n w)) \<noteq> None) \<and>
        checkpoint (state_of j (w_db (commit (update_state i f (w_db w)) n w))) \<in> {None, checkpoint (state_of j (w_db w))}"
      using that(2) by (cases "state_of j (w_db w)") (auto simp: state_of_update [OF that(1)] checkpoint_cases(2))
  qed
  show "leads (keeps_checkpoints :: 's net station \<Rightarrow> 's net station \<Rightarrow> bool) (record_failure H i e operation)"
    "leads (keeps_checkpoints :: 's net station \<Rightarrow> 's net station \<Rightarrow> bool) (require_full_sync H i)"
    unfolding record_failure_def require_full_sync_def
    by (rule checkpointing.transaction, simp only: leads_def snd_conv, rule allI, rule update,
        simp, simp add: checkpoint_cases)+
  show "leads (keeps_checkpoints :: 's net station \<Rightarrow> 's net station \<Rightarrow> bool) (begin_sync H name)"
    unfolding begin_sync_def
    by (rule checkpointing.transaction)
      (auto simp: leads_def keeps_checkpoints_def state_of_update state_of_insert checkpoint_cases split: option.split)
qed

section \<open>One message is linked\<close>

lemma link_remote_present:
  "link_remote rid cid reason now d = Inr (b, e) \<Longrightarrow> \<exists>l \<in> set (remote_canonical_links e). lk_remote_message_id l = rid"
  by (auto simp: link_remote_def find_Some_iff split: option.splits if_splits)

lemma bind_gmail_linked:
  assumes "bind_gmail i mid thread (Some c) ids now d = Inr (new, d')"
  shows "linked (gmail_identity mid i) d'"
proof -
  from assms obtain rows and r :: remote_row and b e where p: "find (gmail_identity mid i) rows = Some r"
    "link_remote (rm_id r) (cm_id c) ''gmail-api-raw'' now (d\<lparr>remote_messages := rows\<rparr>) = Inr (b, e)"
    "store_message_labels (rm_id r) i ids e = Inr d'"
    by (rule bind_gmail_parts) auto
  from p(1) have "r \<in> set rows" "gmail_identity mid i r" by (auto simp: find_Some_iff)
  with link_remote_present [OF p(2)] link_remote_frame [OF p(2)] store_message_labels_frame [OF p(3)]
  show ?thesis by (auto simp: linked_def list_ex_iff)
qed

abbreviation gmail_linked :: "int \<Rightarrow> string \<Rightarrow> 's net station \<Rightarrow> bool" where
  "gmail_linked i mid w \<equiv> linked (gmail_identity mid i) (w_db w)"

lemma identifying_gmail [simp]: "identifying (gmail_identity mid i)"
  by (auto simp: identifying_def gmail_identity_def identity_of_def)

lemma gmail_linked_lasts: "keeps_bindings w v \<Longrightarrow> gmail_linked i mid w \<Longrightarrow> gmail_linked i mid v"
  unfolding keeps_bindings_def by (rule linked_grows) simp_all

lemma wp_register_gmail:
  assumes "valid_id (dict_get_or message ''id'' VNull) ''message id'' = Inr mid"
  shows "wp (gmail_register X i message (Some c)) (\<lambda>x v. gmail_linked i mid v) (\<lambda>e v. True) w"
proof -
  have "wp (\<lambda>w. case bind_gmail i mid thread (Some c) ids now (w_db w) of
      Inl e \<Rightarrow> (Inl e, w) | Inr (new, d) \<Rightarrow> (Inr (new, length ids), commit d 0 w))
      (\<lambda>x v. gmail_linked i mid v) (\<lambda>e v. True) v" for thread ids now and v :: "'a net station"
    by (auto simp: wp_def split: sum.split dest: bind_gmail_linked)
  then have "wp (transaction (\<lambda>w. case bind_gmail i mid thread (Some c) ids now (w_db w) of
      Inl e \<Rightarrow> (Inl e, w) | Inr (new, d) \<Rightarrow> (Inr (new, length ids), commit d 0 w)))
      (\<lambda>x v. gmail_linked i mid v) (\<lambda>e v. True) v" for thread ids now and v :: "'a net station"
    unfolding wp_transaction by (rule wp_mono) (simp_all add: remember_def)
  then show ?thesis
    unfolding gmail_register_def assms
    by (subst wp_seq, subst wp_lift, simp) (intro wp_seq_any)
qed

lemma wp_reconcile_gmail: "wp (gmail_reconcile X G cfg a i mid) (\<lambda>r. gmail_linked i mid) (\<lambda>e v. True) w"
proof (cases "gmail_known i mid (w_db w)")
  case True
  then have "gmail_linked i mid w" by (simp add: gmail_known_def)
  with linking.scans [THEN gmail_scan.axioms, THEN gmail_frame.reconciling_gmail]
  show ?thesis by (intro wp_keeping) (auto intro: gmail_linked_lasts)
next
  case False
  have registers: "wp (register_or_reload X G i response (Some c)) (\<lambda>x. gmail_linked i mid) (\<lambda>e v. True) v"
    if "valid_id (dict_get_or response ''id'' VNull) ''message id'' = Inr mid" for response c v
    unfolding register_or_reload_def wp_attempt
    by (rule wp_mono [OF wp_register_gmail [OF that]]) (auto intro!: wp_seq_any wp_register_gmail [OF that])
  have "leads keeps_bindings (classify_new X cfg stored)" for stored
    unfolding classify_new_def by (auto split: option.split intro!: binding.structural binding.local_parts)
  then have classifies: "wp (classify_new X cfg stored) (\<lambda>x. gmail_linked i mid) (\<lambda>e v. True) v"
    if "gmail_linked i mid v" for stored v
    using that gmail_linked_lasts by (rule wp_keeping)
  have tail: "wp (seq (register_or_reload X G i response (map_option fst (Some s))) (\<lambda>registered.
      seq (classify_new X cfg (Some s)) (\<lambda>u. ret (f registered)))) (\<lambda>x. gmail_linked i mid) (\<lambda>e v. True) v"
    if "valid_id (dict_get_or response ''id'' VNull) ''message id'' = Inr mid"
    for response s v and f :: "bool \<times> nat \<Rightarrow> nat \<times> nat \<times> nat"
    unfolding wp_seq option.map
    by (rule wp_mono [OF registers [OF that]]) (auto simp: wp_rules intro: wp_mono [OF classifies])
  have fresh: "wp (seq (lift_result raw) (\<lambda>raw. seq (ingest_bytes S H M cfg raw name kind) (\<lambda>s. ret (Some s))))
      (\<lambda>stored v. \<exists>s. stored = Some s) (\<lambda>e v. True) v" for raw S H M name kind and v :: "'a net station"
    by (intro wp_seq_any) simp
  show ?thesis
    unfolding gmail_reconcile_def wp_seq [of "read_state _"] wp_read False if_False
    by (rule wp_seq_any, subst wp_seq, subst wp_lift)
      (auto split: sum.split simp: False wp_seq [of "require _ _"] wp_require intro!: tail
        simp: wp_seq [of "seq _ _"] intro!: wp_mono [OF fresh])
qed

section \<open>The history is applied\<close>

text \<open>A loop over different items, each of which establishes a fact that the others do not disturb.\<close>

lemma wp_for_each_distinct:
  assumes each: "\<And>x v. wp (f x) (\<lambda>y. Q x) (\<lambda>e v. True) v"
    and others: "\<And>x z v. x \<noteq> z \<Longrightarrow> Q x v \<Longrightarrow> wp (f z) (\<lambda>y. Q x) (\<lambda>e v. True) v"
  shows "distinct xs \<Longrightarrow> A \<inter> set xs = {} \<Longrightarrow> \<forall>x \<in> A. Q x w \<Longrightarrow>
    wp (for_each f xs) (\<lambda>ys v. \<forall>x \<in> A \<union> set xs. Q x v) (\<lambda>e v. True) w"
proof (induction xs arbitrary: A w)
  case (Cons x xs)
  have "wp (f x) (\<lambda>y v. \<forall>z \<in> A. Q z v) (\<lambda>e v. True) w"
    using others [of _ x] Cons.prems by (fastforce simp: wp_def split: prod.split sum.split)
  then have "wp (f x) (\<lambda>y v. \<forall>z \<in> insert x A. Q z v) (\<lambda>e v. True) w"
    using each [of x w] by (auto simp: wp_def split: prod.split sum.split)
  moreover have "wp (for_each f xs) (\<lambda>ys v. \<forall>z \<in> A \<union> set (x # xs). Q z v) (\<lambda>e v. True) v"
    if "\<forall>z \<in> insert x A. Q z v" for v
    using Cons.IH [of "insert x A" v] Cons.prems that by (auto intro: wp_mono)
  ultimately show ?case
    unfolding for_each.simps wp_seq wp_ret by (auto intro: wp_mono)
qed (simp add: wp_rules)

definition change_applied :: "int \<Rightarrow> string list \<Rightarrow> string \<Rightarrow> 's net station \<Rightarrow> bool" where
  "change_applied i gone m v \<longleftrightarrow> (if m \<in> set gone then \<not> marked i m (w_db v) else gmail_linked i m v)"

lemma mark_absent_gone: "\<not> marked i m (snd (mark_absent i (\<lambda>x. x = Some m) d))"
  unfolding marked_def by (auto simp: present_gmail_def dest: mark_absent_present)

lemma wp_mark_deleted: "wp (mark_deleted i m) (\<lambda>n v. \<not> marked i m (w_db v)) (\<lambda>e v. True) w"
  using mark_absent_gone [of i m "w_db w"]
  unfolding mark_deleted_def wp_transaction by (simp add: wp_def remember_def split_beta)

lemma wp_apply_change:
  "wp (apply_change X G cfg a i gone m) (\<lambda>y. change_applied i gone m) (\<lambda>e v. True) w"
  unfolding apply_change_def change_applied_def wp_if
  by (auto simp: wp_seq wp_rules intro: wp_mark_deleted wp_reconcile_gmail)

lemma wp_apply_other:
  assumes "m \<noteq> z" "change_applied i gone m w"
  shows "wp (apply_change X G cfg a i gone z) (\<lambda>y. change_applied i gone m) (\<lambda>e v. True) w"
proof -
  have "leads (stays_absent i m) (apply_change X G cfg a i gone z)"
    using assms(1) by (intro absence.changing) auto
  moreover have "leads keeps_bindings (apply_change X G cfg a i gone z)"
    using linking.scans [THEN gmail_scan.axioms, THEN gmail_frame.changing] by auto
  ultimately have "stays_absent i m w (snd (apply_change X G cfg a i gone z w))"
      "keeps_bindings w (snd (apply_change X G cfg a i gone z w))"
    by (simp_all add: leads_def)
  with assms(2) have "change_applied i gone m (snd (apply_change X G cfg a i gone z w))"
    by (auto simp: change_applied_def stays_absent_def gmail_linked_lasts)
  then show ?thesis by (auto simp: wp_def split: prod.splits sum.splits)
qed

definition deletes_affected :: "changes \<Rightarrow> bool" where
  "deletes_affected c \<longleftrightarrow> set (ch_deleted c) \<subseteq> set (ch_affected c)"

lemma history_record_affected:
  assumes "history_record v = Inr x"
  shows "set (snd x) \<subseteq> set (fst x)"
proof (cases v)
  case (VDict kvs)
  with assms obtain ids where "x = (concat ids,
      concat (map snd (filter (\<lambda>x. fst x = ''messagesDeleted'') (zip HISTORY_KEYS ids))))"
    by (auto simp: history_record_def rbind_Inr)
  then show ?thesis by (fastforce dest: set_zip_rightD)
qed (use assms in \<open>simp_all add: history_record_def\<close>)

lemma history_records_affected:
  assumes "each history_record vs = Inr xs"
  shows "set (concat (map snd xs)) \<subseteq> set (concat (map fst xs))"
proof -
  have "set (snd x) \<subseteq> set (fst x)" if "x \<in> set xs" for x
    using each_mem [OF assms that] history_record_affected by blast
  then show ?thesis by simp blast
qed

lemma history_page_parts:
  assumes "history_page page c = Inr (c', t)"
  obtains vs xs where "each history_record vs = Inr xs" "ch_affected c' = ch_affected c @ concat (map fst xs)"
    "ch_deleted c' = ch_deleted c @ concat (map snd xs)"
proof (cases "dict_get_or page ''history'' (VList [])")
  case (VList vs)
  then show ?thesis
    using assms that [of vs] unfolding history_page_def Let_def VList pyval.case
    by (cases "dict_get_or page ''nextPageToken'' VNull = VNull") (auto simp: rbind_Inr)
qed (use assms in \<open>simp_all add: history_page_def\<close>)

lemma history_page_affected:
  assumes "history_page page c = Inr (c', t)" "deletes_affected c"
  shows "deletes_affected c'"
proof -
  from assms(1) obtain vs xs where p: "each history_record vs = Inr xs"
    "ch_affected c' = ch_affected c @ concat (map fst xs)" "ch_deleted c' = ch_deleted c @ concat (map snd xs)"
    by (rule history_page_parts)
  show ?thesis
    unfolding deletes_affected_def p(2,3) set_append
    by (intro Un_mono history_records_affected [OF p(1)] assms(2) [unfolded deletes_affected_def])
qed

lemma wp_read_history: "wp (read_history n P G start) (\<lambda>c t. deletes_affected c) (\<lambda>e t. True) s"
proof -
  have "wp (read_history n P G start) (\<lambda>c t. deletes_affected c \<and> True) (\<lambda>e t. True) s"
    unfolding read_history_def
  proof (rule wp_listing)
    fix token c s
    assume "deletes_affected c"
    then show "wp (history_round P G start token c)
        (\<lambda>page t. deletes_affected (fst page) \<and> (snd page = None \<longrightarrow> True)) (\<lambda>e t. True) s"
      unfolding history_round_def
      by (intro wp_seq_any) (auto simp: wp_rules split: sum.split dest: history_page_affected)
  qed (simp add: deletes_affected_def no_changes_def)
  then show ?thesis by simp
qed

end
