(* ===== verification/GmailOutcome.thy ===== *)
theory GmailOutcome
  imports GmailInventory
begin

text \<open>
  The outcome of a Gmail synchronization as a whole: where the checkpoint stands, which messages are
  linked and which are marked as present, on every way it can end.
\<close>

section \<open>The last steps\<close>

text \<open>What the audit event at the end leaves as it was.\<close>

definition same_mail :: "'s net station \<Rightarrow> 's net station \<Rightarrow> bool" where
  "same_mail w v \<longleftrightarrow> remote_messages (w_db v) = remote_messages (w_db w) \<and>
     remote_canonical_links (w_db v) = remote_canonical_links (w_db w) \<and>
     gmail_sync_state (w_db v) = gmail_sync_state (w_db w)"

lemma wp_audited: "wp (gmail_audit X a event res details) (\<lambda>u. same_mail w) (\<lambda>e v. False) w"
  unfolding gmail_audit_def acquisition_audit_def wp_transaction
  by (simp add: wp_def same_mail_def remember_def)

lemma same_mail_facts:
  assumes "same_mail w v"
  shows "marked i m (w_db v) = marked i m (w_db w)" "gmail_linked i m v = gmail_linked i m w"
    "state_of i (w_db v) = state_of i (w_db w)"
  using assms by (simp_all add: same_mail_def marked_def linked_def state_of_def)

lemma wp_partial_checkpoint:
  "wp (partial_checkpoint H i end') (\<lambda>u v. (state_of i (w_db w) \<noteq> None \<longrightarrow> checkpoint (state_of i (w_db v)) = Some end') \<and>
     (\<forall>m. marked i m (w_db v) = marked i m (w_db w)) \<and> (\<forall>m. gmail_linked i m v = gmail_linked i m w))
     (\<lambda>e v. False) w"
  unfolding partial_checkpoint_def wp_transaction
  by (auto simp: wp_def remember_def state_of_update checkpoint_cases)
    (simp_all add: marked_def update_state_def linked_def)

lemma wp_empty_checkpoint:
  "wp (empty_checkpoint H i) (\<lambda>u v. checkpoint (state_of i (w_db v)) = None) (\<lambda>e v. False) w"
  unfolding empty_checkpoint_def wp_transaction
  by (cases "state_of i (w_db w)") (simp_all add: wp_def remember_def state_of_update checkpoint_cases)

lemma wp_full_checkpoint:
  "wp (full_checkpoint H i present end') (\<lambda>n v. (state_of i (w_db w) \<noteq> None \<longrightarrow> checkpoint (state_of i (w_db v)) = Some end') \<and>
     (\<forall>m. marked i m (w_db v) \<longrightarrow> m \<in> set present) \<and> (\<forall>m. gmail_linked i m w \<longrightarrow> gmail_linked i m v))
     (\<lambda>e v. False) w"
proof -
  let ?d = "snd (mark_absent i (\<lambda>m. m \<notin> Some ` set present) (w_db w))"
  have "m \<in> set present" if "marked i m ?d" for m
    using that unfolding marked_def by (auto simp: present_gmail_def dest!: mark_absent_present)
  moreover have "linked (gmail_identity m i) (w_db w) \<Longrightarrow> linked (gmail_identity m i) ?d" for m
    using linked_grows [OF _ mark_absent_grows identifying_gmail] .
  moreover have "state_of i ?d = state_of i (w_db w)" by (simp add: state_of_def mark_absent_state)
  ultimately show ?thesis
    unfolding full_checkpoint_def wp_transaction
    by (auto simp: wp_def remember_def split_beta state_of_update checkpoint_cases)
      (simp_all add: marked_def update_state_def linked_def)
qed

lemma wp_then:
  assumes "wp m A (\<lambda>e v. False) w" and "\<And>x v. A x v \<Longrightarrow> wp (f x) Q E v"
  shows "wp (seq m f) Q E w"
  unfolding wp_seq by (rule wp_mono [OF assms(1)]) (use assms(2) in auto)

lemma wp_keeps_seq:
  assumes "leads keeps_checkpoints m" "keeps_checkpoints w u"
    and "\<And>x v. keeps_checkpoints w v \<Longrightarrow> wp (f x) Q (\<lambda>e. keeps_checkpoints w) v"
  shows "wp (seq m f) Q (\<lambda>e. keeps_checkpoints w) u"
  unfolding wp_seq
  by (rule wp_mono [OF leads_wp [OF assms(1)]]) (use assms(2,3) keeps_checkpoints_trans in blast)+

section \<open>A partial synchronization\<close>

definition well_counted :: "history_outcome \<Rightarrow> bool" where
  "well_counted h \<longleftrightarrow> distinct (ho_present h @ ho_deleted h) \<and> gr_mode (ho_result h) = ''partial'' \<and>
     gr_remote_seen (ho_result h) = length (ho_present h) + length (ho_deleted h) \<and>
     gr_history_to (ho_result h) \<noteq> None"

definition history_applied :: "int \<Rightarrow> history_outcome \<Rightarrow> 's net station \<Rightarrow> bool" where
  "history_applied i h v \<longleftrightarrow> (\<forall>m \<in> set (ho_present h). gmail_linked i m v) \<and>
     (\<forall>m \<in> set (ho_deleted h). \<not> marked i m (w_db v))"

lemma partition_length:
  assumes "set D \<subseteq> set A"
  shows "length (sort (remdups A)) = length (filter (\<lambda>m. m \<notin> set (remdups D)) (sort (remdups A))) + length (remdups D)"
proof -
  have "length (filter (\<lambda>m. m \<in> set D) (sort (remdups A))) = card (set D)"
    using assms distinct_card [of "filter (\<lambda>m. m \<in> set D) (sort (remdups A))"]
    by (simp add: Int_absorb1 Int_commute Collect_conj_eq Int_def [symmetric])
  then show ?thesis
    using sum_length_filter_compl [of "\<lambda>m. m \<in> set D" "sort (remdups A)"] by (simp add: length_remdups_card_conv)
qed

lemma wp_finish_partial:
  "wp (finish_partial X a i committing end' result)
     (\<lambda>u v. (committing \<longrightarrow> state_of i (w_db w) \<noteq> None \<longrightarrow> checkpoint (state_of i (w_db v)) = Some end') \<and>
       (\<forall>m. marked i m (w_db v) = marked i m (w_db w)) \<and> (\<forall>m. gmail_linked i m v = gmail_linked i m w))
     (\<lambda>e v. False) w"
proof (cases committing)
  case True
  show ?thesis
    unfolding finish_partial_def if_P [OF True]
    by (rule wp_then [OF wp_partial_checkpoint], rule wp_mono [OF wp_audited])
      (auto simp: same_mail_facts)
qed (simp add: finish_partial_def)

text \<open>What the loop over the affected messages leaves.\<close>

definition changes_applied :: "int \<Rightarrow> string list \<Rightarrow> string list \<Rightarrow> 's net station \<Rightarrow> bool" where
  "changes_applied i gone affected v \<longleftrightarrow> (\<forall>m \<in> set affected. change_applied i gone m v)"

lemma wp_changes: "distinct affected \<Longrightarrow>
    wp (for_each (apply_change X G cfg a i gone) affected) (\<lambda>ys. changes_applied i gone affected) (\<lambda>e v. True) w"
  unfolding changes_applied_def
  using wp_for_each_distinct [of "apply_change X G cfg a i gone" "change_applied i gone" affected "{}" w]
    wp_apply_change wp_apply_other by fastforce

lemma applied_history:
  fixes results start end'
  assumes "deletes_affected c" "changes_applied i (remdups (ch_deleted c)) (sort (remdups (ch_affected c))) v"
  defines "h \<equiv> \<lparr>ho_result = partial_result start end' (sort (remdups (ch_affected c))) results,
      ho_present = filter (\<lambda>m. m \<notin> set (remdups (ch_deleted c))) (sort (remdups (ch_affected c))),
      ho_deleted = remdups (ch_deleted c)\<rparr>"
  shows "history_applied i h v" "well_counted h"
  using assms(1,2) partition_length [OF assms(1) [unfolded deletes_affected_def]]
  by (auto simp: h_def history_applied_def changes_applied_def change_applied_def deletes_affected_def
      well_counted_def partial_result_def Let_def)

lemma wp_history_applied:
  "wp (gmail_partial X G cfg a i start committing) (\<lambda>h v. well_counted h \<and> history_applied i h v) (\<lambda>e v. True) w"
proof -
  have step: "wp (seq (finish_partial Y a i committing end' result) (\<lambda>u. ret h))
      (\<lambda>h v. well_counted h \<and> history_applied i h v) (\<lambda>e v. True) v"
    if "well_counted h" "history_applied i h v" for Y end' result h v
    by (rule wp_then [OF wp_finish_partial]) (use that in \<open>auto simp: wp_rules history_applied_def\<close>)
  show ?thesis
    unfolding gmail_partial_def Let_def
    by (rule wp_seq_any, subst wp_seq, rule wp_mono [OF wp_on_net [OF wp_read_history]], rule wp_seq_any,
        subst wp_seq, rule wp_mono [OF wp_changes])
      (auto intro!: step applied_history simp del: set_remdups)
qed

text \<open>The checkpoint: it moves with the commit, after which nothing fails.\<close>

lemma wp_partial_moves:
  assumes "state_of i (w_db w) \<noteq> None"
  shows "wp (gmail_partial X G cfg a i start True)
     (\<lambda>h v. checkpoint (state_of i (w_db v)) = gr_history_to (ho_result h)) (\<lambda>e. keeps_checkpoints w) w"
proof -
  have finish: "wp (seq (finish_partial Y a i True end' (partial_result start end' affected results)) (\<lambda>u.
      ret \<lparr>ho_result = partial_result start end' affected results, ho_present = p, ho_deleted = d\<rparr>))
      (\<lambda>h v. checkpoint (state_of i (w_db v)) = gr_history_to (ho_result h)) (\<lambda>e. keeps_checkpoints w) v"
    if "keeps_checkpoints w v" for Y end' affected results p d v
    by (rule wp_then [OF wp_finish_partial])
      (use that assms in \<open>auto simp: wp_rules partial_result_def Let_def keeps_checkpoints_def\<close>)
  show ?thesis
    unfolding gmail_partial_def Let_def if_True
    by (intro wp_keeps_seq finish checkpointing.auditing_gmail checkpointing.on_network reads_history
        checkpointing.structural checkpointing.changing) (simp_all add: checkpointing.refl)
qed

section \<open>A full synchronization\<close>

lemma wp_scan: "wp (scan_mailbox n X G cfg a i) (\<lambda>s v. \<forall>m \<in> set (sc_seen s). gmail_linked i m v) (\<lambda>e v. True) w"
proof -
  let ?I = "\<lambda>(s :: scan) v. \<forall>m \<in> set (sc_seen s). gmail_linked i m v"
  have item: "wp (scan_item X G cfg a i x) (\<lambda>y v. gmail_linked i (fst y) v) (\<lambda>e v. True) v" for x v
    unfolding scan_item_def
    by (rule wp_seq_any) (auto simp: wp_seq wp_rules intro: wp_mono [OF wp_reconcile_gmail])
  have items: "wp (for_each (scan_item X G cfg a i) xs) (\<lambda>ys v. \<forall>y \<in> set ys. gmail_linked i (fst y) v) (\<lambda>e v. True) v" for xs v
  proof (induction xs arbitrary: v)
    case (Cons x xs)
    have keeps: "leads keeps_bindings (for_each (scan_item X G cfg a i) xs)"
      unfolding scan_item_def
      by (intro binding.structural gmail_frame.reconciling_gmail [OF gmail_scan.axioms [OF linking.scans]]) simp_all
    show ?case
      unfolding for_each.simps wp_seq
    proof (rule wp_mono [OF item], goal_cases)
      case (1 y u)
      have "wp (for_each (scan_item X G cfg a i) xs) (\<lambda>ys. gmail_linked i (fst y)) (\<lambda>e v. True) u"
        using keeps 1 gmail_linked_lasts by (rule wp_keeping)
      from wp_both [OF Cons.IH [of u] this]
      show ?case by (rule wp_mono) (auto simp: wp_rules)
    qed simp
  qed (simp add: wp_rules)
  have "wp (scan_mailbox n X G cfg a i) (\<lambda>s v. ?I s v \<and> True) (\<lambda>e v. True) w"
    unfolding scan_mailbox_def
  proof (rule wp_listing)
    fix token and s :: scan and v :: "'a net station"
    assume seen: "?I s v"
    have "leads keeps_bindings (scan_round X G cfg a i token s)"
      unfolding scan_round_def scan_item_def
      by (intro binding.seq binding_on_net) (auto split: pyval.split intro!: binding.structural
          gmail_frame.reconciling_gmail [OF gmail_scan.axioms [OF linking.scans]])
    from this seen have "wp (scan_round X G cfg a i token s) (\<lambda>page. ?I s) (\<lambda>e v. True) v"
      by (rule wp_keeping) (use gmail_linked_lasts in blast)
    moreover have "wp (scan_round X G cfg a i token s)
        (\<lambda>page v. \<forall>m \<in> set (sc_seen (fst page)) - set (sc_seen s). gmail_linked i m v) (\<lambda>e v. True) v"
      unfolding scan_round_def
      by (rule wp_seq_any) (auto split: pyval.split sum.split simp: wp_seq wp_rules intro!: wp_mono [OF items])
    ultimately show "wp (scan_round X G cfg a i token s)
        (\<lambda>page v. ?I (fst page) v \<and> (snd page = None \<longrightarrow> True)) (\<lambda>e v. True) v"
      by (auto dest: wp_both intro: wp_mono)
  qed (simp add: empty_scan_def)
  then show ?thesis by simp
qed

text \<open>
  \<open>settled i res v\<close>: \<open>ids\<close> and \<open>gone\<close> are the messages the result counts; each of \<open>ids\<close> is linked and
  none of \<open>gone\<close> is marked as present; after a listing that found a message, what is marked as present is
  among \<open>ids\<close>; and the next synchronization starts at the checkpoint of the result.
\<close>

definition settled :: "int \<Rightarrow> gmail_sync_result \<Rightarrow> db \<Rightarrow> bool" where
  "settled i res d \<longleftrightarrow> (\<exists>ids gone. distinct (ids @ gone) \<and> gr_remote_seen res = length ids + length gone \<and>
     (\<forall>m \<in> set ids. linked (gmail_identity m i) d) \<and> (\<forall>m \<in> set gone. \<not> marked i m d) \<and>
     (gr_mode res = ''full'' \<and> gr_history_to res \<noteq> None \<longrightarrow> (\<forall>m. marked i m d \<longrightarrow> m \<in> set ids)) \<and>
     checkpoint (state_of i d) = gr_history_to res)"

lemma settled_partial:
  assumes "well_counted h" "history_applied i h v" "checkpoint (state_of i (w_db v)) = gr_history_to (ho_result h)"
  shows "settled i (ho_result h) (w_db v)"
  unfolding settled_def
  by (rule exI [of _ "ho_present h"], rule exI [of _ "ho_deleted h"])
    (use assms in \<open>auto simp: well_counted_def history_applied_def\<close>)

lemma wp_partial_settles:
  assumes "state_of i (w_db w) \<noteq> None"
  shows "wp (gmail_partial X G cfg a i start True) (\<lambda>h v. settled i (ho_result h) (w_db v)) (\<lambda>e. keeps_checkpoints w) w"
  by (rule wp_mono [OF wp_both [OF wp_history_applied wp_partial_moves [OF assms]]]) (auto intro: settled_partial)

text \<open>A full synchronization.\<close>

lemma wp_full_settles:
  assumes "state_of i (w_db w) \<noteq> None"
  shows "wp (gmail_full X G cfg a i) (\<lambda>res v. settled i res (w_db v)) (\<lambda>e. keeps_checkpoints w) w"
proof -
  let ?X = "outside.truncate X"
  let ?Q = "\<lambda>res v. settled i res (w_db v)"
  have none: "wp (seq (empty_checkpoint (ou_host X) i) (\<lambda>u. ret empty_result)) ?Q (\<lambda>e. keeps_checkpoints w) v" for v
    by (rule wp_then [OF wp_empty_checkpoint])
      (auto simp: wp_rules settled_def empty_result_def intro!: exI [of _ "[]"])
  have finish: "wp (seq (full_checkpoint (ou_host X) i (final_present s h) (the (gr_history_to (ho_result h)))) (\<lambda>absent.
      seq (gmail_audit ?X a ''gmail.sync.full.succeeded'' ''success'' (result_details (full_result anchor s h absent))) (\<lambda>u.
      ret (full_result anchor s h absent)))) ?Q (\<lambda>e. keeps_checkpoints w) v"
    if K: "keeps_checkpoints w v" and seen: "\<forall>m \<in> set (sc_seen s). gmail_linked i m v"
      and h: "well_counted h" "history_applied i h v" for anchor s h and v :: "'a net station"
  proof (rule wp_then [OF wp_full_checkpoint], rule wp_then [OF wp_audited])
    fix absent and t u :: "'a net station"
    assume t: "(state_of i (w_db v) \<noteq> None \<longrightarrow> checkpoint (state_of i (w_db t)) = Some (the (gr_history_to (ho_result h)))) \<and>
        (\<forall>m. marked i m (w_db t) \<longrightarrow> m \<in> set (final_present s h)) \<and> (\<forall>m. gmail_linked i m v \<longrightarrow> gmail_linked i m t)"
      and u: "same_mail t u"
    have exists: "state_of i (w_db v) \<noteq> None" using K assms by (auto simp: keeps_checkpoints_def)
    have linked: "m \<in> set (final_present s h) \<Longrightarrow> gmail_linked i m v" for m
      using seen h(2) by (auto simp: final_present_def history_applied_def)
    have different: "distinct (final_present s h)" by (simp add: final_present_def)
    have "settled i (full_result anchor s h absent) (w_db u)"
      unfolding settled_def
      by (rule exI [of _ "final_present s h"], rule exI [of _ "[]"])
        (use t h(1) same_mail_facts [OF u] exists linked different in \<open>auto simp: full_result_def well_counted_def\<close>)
    then show "wp (ret (full_result anchor s h absent)) ?Q (\<lambda>e. keeps_checkpoints w) u" by simp
  qed
  have catch_up: "wp (seq (gmail_partial X G cfg a i anchor False) (\<lambda>h.
      seq (full_checkpoint (ou_host X) i (final_present s h) (the (gr_history_to (ho_result h)))) (\<lambda>absent.
      seq (gmail_audit ?X a ''gmail.sync.full.succeeded'' ''success'' (result_details (full_result anchor s h absent))) (\<lambda>u.
      ret (full_result anchor s h absent))))) ?Q (\<lambda>e. keeps_checkpoints w) v"
    if K: "keeps_checkpoints w v" and seen: "\<forall>m \<in> set (sc_seen s). gmail_linked i m v"
      for anchor s and v :: "'a net station"
  proof -
    have keeps: "leads keeps_checkpoints (gmail_partial X G cfg a i anchor False)"
        "leads keeps_bindings (gmail_partial X G cfg a i anchor False)"
      by (rule checkpointing.applying_history, simp, rule linking.running_partial) simp
    show ?thesis
      unfolding wp_seq [of "gmail_partial X G cfg a i anchor False"]
    proof (rule wp_mono [OF wp_both [OF wp_history_applied wp_both [OF leads_wp [OF keeps(1)] leads_wp [OF keeps(2)]]]], goal_cases)
      case (1 h u)
      then show ?case using K seen gmail_linked_lasts by (intro finish) (blast intro: keeps_checkpoints_trans)+
    qed (use K keeps_checkpoints_trans in blast)
  qed
  have scan: "wp (seq (scan_mailbox (go_pages X) ?X G cfg a i) f) ?Q (\<lambda>e. keeps_checkpoints w) v"
    if K: "keeps_checkpoints w v"
      and "\<And>s u. keeps_checkpoints w u \<Longrightarrow> \<forall>m \<in> set (sc_seen s). gmail_linked i m u \<Longrightarrow> wp (f s) ?Q (\<lambda>e. keeps_checkpoints w) u"
    for f and v :: "'a net station"
    unfolding wp_seq
    by (rule wp_mono [OF wp_both [OF wp_scan leads_wp [OF checkpointing.scanning]]])
      (use that keeps_checkpoints_trans in blast)+
  show ?thesis
    unfolding gmail_full_def Let_def
    by (intro wp_keeps_seq checkpointing.auditing_gmail checkpointing.on_network reads_anchor)
      (auto split: option.split intro: none scan catch_up checkpointing.refl)
qed

section \<open>A synchronization\<close>

lemma keeping_failure: "leads keeps_checkpoints (sync_failed X a i operation e)"
  unfolding sync_failed_def
  by (intro checkpointing.structural keeping_commits checkpointing.auditing_gmail)

text \<open>An error handler whose parts keep the checkpoints.\<close>

lemma wp_handled:
  assumes "wp m Q (\<lambda>e. keeps_checkpoints w) w"
    and "\<And>e v. C e \<Longrightarrow> keeps_checkpoints w v \<Longrightarrow> wp (h e) Q (\<lambda>e. keeps_checkpoints w) v"
  shows "wp (attempt m C h) Q (\<lambda>e. keeps_checkpoints w) w"
  unfolding wp_attempt by (rule wp_mono [OF assms(1)]) (use assms(2) in auto)

lemma wp_fails:
  assumes "keeps_checkpoints w v"
  shows "wp (sync_failed X a i operation e) Q (\<lambda>e. keeps_checkpoints w) v"
proof -
  have "wp (sync_failed X a i operation e) Q (\<lambda>e u. True) v"
    unfolding sync_failed_def by (intro wp_seq_any) simp
  from wp_both [OF this leads_wp [OF keeping_failure]] show ?thesis
    by (rule wp_mono) (use assms keeps_checkpoints_trans in auto)
qed

lemma wp_weaken_start:
  assumes "wp m Q (\<lambda>e. keeps_checkpoints v) v" "keeps_checkpoints w v"
  shows "wp m Q (\<lambda>e. keeps_checkpoints w) v"
  by (rule wp_mono [OF assms(1)]) (use assms(2) keeps_checkpoints_trans in blast)+

lemma state_kept: "keeps_checkpoints w v \<Longrightarrow> state_of i (w_db w) \<noteq> None \<Longrightarrow> state_of i (w_db v) \<noteq> None"
  by (simp add: keeps_checkpoints_def)

lemma wp_resync:
  assumes "state_of i (w_db w) \<noteq> None" "keeps_checkpoints w v"
  shows "wp (resync X G cfg a i) (\<lambda>res v. settled i res (w_db v)) (\<lambda>e. keeps_checkpoints w) v"
proof -
  have full: "wp (attempt (gmail_full X G cfg a i) gmail_error (sync_failed Y a i op)) (\<lambda>res v. settled i res (w_db v))
      (\<lambda>e. keeps_checkpoints w) u" if "keeps_checkpoints w u" for Y op and u :: "'a net station"
    using that
    by (intro wp_weaken_start [OF wp_handled [OF wp_full_settles wp_fails]] state_kept [OF _ assms(1)])
  show ?thesis
    unfolding resync_def Let_def
    by (intro wp_keeps_seq checkpointing.auditing_gmail keeping_commits full) (use assms(2) in simp_all)
qed

lemma wp_mailbox:
  assumes "state_of i (w_db w) \<noteq> None"
  shows "wp (sync_mailbox X G cfg a g i since) (\<lambda>res v. settled i res (w_db v)) (\<lambda>e. keeps_checkpoints w) w"
proof -
  have partial: "wp (seq (gmail_partial X G cfg a i start True) (\<lambda>h. ret (ho_result h)))
      (\<lambda>res v. settled i res (w_db v)) (\<lambda>e. keeps_checkpoints w) v"
    if "keeps_checkpoints w v" for start and v :: "'a net station"
    unfolding wp_seq wp_ret
    by (rule wp_weaken_start [OF wp_partial_settles that]) (rule state_kept [OF that assms])
  have full: "wp (gmail_full X G cfg a i) (\<lambda>res v. settled i res (w_db v)) (\<lambda>e. keeps_checkpoints w) v"
    if "keeps_checkpoints w v" for v :: "'a net station"
    by (rule wp_weaken_start [OF wp_full_settles that]) (rule state_kept [OF that assms])
  show ?thesis
    unfolding sync_mailbox_def
    by (intro wp_keeps_seq checkpointing.on_network reads_resources checkpointing.labelling checkpointing.set_labels)
      (auto split: option.split intro: partial full checkpointing.refl)
qed

text \<open>Where a synchronization can start: the account's row of state exists.\<close>

lemma state_accounts [simp]:
  "accounts (update_state i f d) = accounts d" "accounts (insert_state i now d) = accounts d"
  by (simp_all add: update_state_def insert_state_def)

definition started :: "string \<Rightarrow> int \<Rightarrow> db \<Rightarrow> bool" where
  "started name i d \<longleftrightarrow> (i, name) \<in> set (map account_key (accounts d)) \<and> state_of i d \<noteq> None"

lemma wp_begin: "wp (begin_sync H name) (\<lambda>b v. started name (fst b) (w_db v)) (\<lambda>e v. True) w"
proof (cases "account_id (w_db w) name")
  case (Some i)
  then have "(i, name) \<in> set (map account_key (accounts (w_db w)))"
    by (auto simp: account_id_def account_key_def dest!: find_mem)
  moreover have "state_of i (update_state i (\<lambda>s. s\<lparr>ss_last_sync_started_at := t, ss_updated_at := t'\<rparr>) (insert_state i now d)) \<noteq> None"
    for t t' now d
    by (simp add: state_of_update state_of_insert)
  ultimately show ?thesis
    unfolding begin_sync_def wp_transaction using Some
    by (simp add: wp_def remember_def started_def del: set_map)
qed (simp add: begin_sync_def wp_transaction wp_def)

lemma wp_guarded:
  assumes "state_of i (w_db w) \<noteq> None"
  shows "wp (guarded_sync X G cfg a g i since) (\<lambda>res v. settled i res (w_db v)) (\<lambda>e. keeps_checkpoints w) w"
  unfolding guarded_sync_def
  by (rule wp_handled [OF wp_mailbox [OF assms]]) (auto intro: wp_resync [OF assms] wp_fails)

text \<open>The inventory of the account of a name is settled.\<close>

definition account_settled :: "string \<Rightarrow> gmail_sync_result \<Rightarrow> db \<Rightarrow> bool" where
  "account_settled name res d \<longleftrightarrow> (\<exists>i. (i, name) \<in> set (map account_key (accounts d)) \<and> settled i res d)"

lemma wp_session:
  "wp (gmail_sync_locked X cfg a g) (\<lambda>res v. account_settled (ac_name a) res (w_db v)) (\<lambda>e. keeps_checkpoints w) w"
proof -
  let ?Q = "\<lambda>res v. account_settled (ac_name a) res (w_db v)"
  have guarded: "wp (guarded_sync X G cfg a g i since) ?Q (\<lambda>e. keeps_checkpoints v) v"
    if "started (ac_name a) i (w_db v)" for G i since and v :: "'a net station"
  proof -
    have start: "(i, ac_name a) \<in> set (map account_key (accounts (w_db v)))" "state_of i (w_db v) \<noteq> None"
      using that by (simp_all add: started_def del: set_map)
    have "leads keeps_bindings (guarded_sync X G cfg a g i since)" by (rule linking.guarding) simp
    from wp_both [OF wp_guarded [OF start(2)] leads_wp [OF this]] show ?thesis
    proof (rule wp_mono)
      fix res u
      assume u: "settled i res (w_db u) \<and> keeps_bindings v u"
      then obtain as where "map account_key (accounts (w_db u)) = map account_key (accounts (w_db v)) @ as"
        by (auto simp: keeps_bindings_def bindings_grow_def)
      with start(1) u show "?Q res u" by (auto simp: account_settled_def simp del: set_map)
    qed simp
  qed
  have begins: "wp (seq (begin_sync H (ac_name a)) (\<lambda>b. guarded_sync X G cfg a g (fst b) (checkpoint (snd b)))) ?Q
      (\<lambda>e. keeps_checkpoints w) v" if "keeps_checkpoints w v" for H G and v :: "'a net station"
    unfolding wp_seq
  proof (rule wp_mono [OF wp_both [OF wp_begin leads_wp [OF keeping_commits(3)]]])
    fix b :: "int \<times> sync_state_row option" and u :: "'a net station"
    assume "started (ac_name a) (fst b) (w_db u) \<and> keeps_checkpoints v u"
    then show "wp (guarded_sync X G cfg a g (fst b) (checkpoint (snd b))) ?Q (\<lambda>e. keeps_checkpoints w) u"
      using that keeps_checkpoints_trans by (intro wp_weaken_start [OF guarded]) blast+
  qed (use that keeps_checkpoints_trans in blast)
  show ?thesis
    unfolding gmail_sync_locked_def
    by (intro wp_keeps_seq checkpointing.basic checkpointing.set_labels begins) (simp_all add: checkpointing.refl)
qed

text \<open>Releasing a lock that is held does not fail.\<close>

definition releases :: "'s peer \<Rightarrow> bool" where
  "releases P \<longleftrightarrow> (\<forall>p s. \<exists>r. fst (P (Unlock p) s) = Inr r)"

lemma wp_release:
  assumes "releases P"
  shows "wp (on_net (command_done P (Unlock p))) (\<lambda>x u. w_db u = w_db v) (\<lambda>e u. False) v"
proof -
  obtain r where "fst (P (Unlock p) (nt_peer (dk_rest (w_net v)))) = Inr r"
    using assms unfolding releases_def by blast
  then show ?thesis
    by (cases "P (Unlock p) (nt_peer (dk_rest (w_net v)))")
      (simp add: wp_def on_net_def command_done_def issue_def seq_def ret_def)
qed

lemma wp_locked_sync:
  assumes "releases P" "keeps_checkpoints w v"
  shows "wp (locked P p busy (gmail_sync_locked X cfg a g)) (\<lambda>res v. account_settled (ac_name a) res (w_db v))
    (\<lambda>e. keeps_checkpoints w) v"
proof -
  have body: "wp (finalize (gmail_sync_locked X cfg a g) (on_net (command_done P (Unlock p))))
      (\<lambda>res v. account_settled (ac_name a) res (w_db v)) (\<lambda>e. keeps_checkpoints w) u"
    if "keeps_checkpoints w u" for u
    unfolding wp_finalize
    by (rule wp_mono [OF wp_weaken_start [OF wp_session that]]; rule wp_mono [OF wp_release [OF assms(1)]])
      (auto simp: keeps_checkpoints_def)
  show ?thesis
    unfolding locked_def
    by (rule wp_keeps_seq [OF checkpointing.on_network assms(2)])
      (auto intro: body adds_intros)
qed


end
