(* ===== verification/Pop3Sync.thy ===== *)
theory Pop3Sync
  imports Acquire Pop3Wire ImapProtocol
begin

text \<open>
  POP3 acquisition, \<open>Pop3Adapter.sync\<close> of \<open>pop3.py\<close>: under the account lock, every listed UIDL that
  is not linked yet is retrieved, admitted, linked and classified.  The lemmas show that nothing but
  the six read-only commands is ever sent, that no binding is ever lost or redirected, and that on
  return every listed UIDL is linked.
\<close>

section \<open>Links\<close>

definition pop3_identity :: "string \<Rightarrow> int \<Rightarrow> remote_row \<Rightarrow> bool" where
  "pop3_identity uidl aid r \<longleftrightarrow>
     rm_account_id r = aid \<and> rm_provider_kind r = Pop3 \<and> rm_provider_message_id r = Some uidl"

text \<open>\<open>_linked_uidls\<close>\<close>

definition linked_uidls :: "db \<Rightarrow> int \<Rightarrow> string list" where
  "linked_uidls d aid = List.map_filter rm_provider_message_id
     (filter (\<lambda>r. rm_account_id r = aid \<and> rm_provider_kind r = Pop3 \<and> rm_identity_confidence r = ''proven'' \<and>
        list_ex (\<lambda>l. lk_remote_message_id l = rm_id r) (remote_canonical_links d)) (remote_messages d))"

definition pop3_row :: "host \<Rightarrow> int \<Rightarrow> string \<Rightarrow> string option \<Rightarrow> string \<Rightarrow> remote_row" where
  "pop3_row H aid uidl mid now =
     \<lparr>rm_id = int_text aid @ '':'' @ h_sha256 H (utf8 (''pop3'' @ [CHR 0x5C, CHR ''0''] @ uidl)),
      rm_account_id = aid, rm_provider_kind = Pop3, rm_remote_folder = None, rm_uidvalidity = None,
      rm_remote_uid = None, rm_provider_message_id = Some uidl, rm_provider_thread_id = None,
      rm_message_id_header = mid, rm_first_seen_at = now, rm_last_seen_at = now,
      rm_remote_present = True, rm_identity_confidence = ''proven''\<rparr>"

abbreviation pop3_actor :: string where
  "pop3_actor \<equiv> ''mailarchive.pop3''"

text \<open>The transaction of \<open>register_pop3_link\<close>: whether the UIDL belongs to another message.\<close>

definition bind_uidl :: "host \<Rightarrow> string \<Rightarrow> string \<Rightarrow> canonical_message \<Rightarrow> 'p world \<Rightarrow> bool result \<times> 'p world" where
  "bind_uidl H name uidl c w =
     (case account_id (w_db w) name of
        None \<Rightarrow> (Inl (Pop3Error ''canonical account is not active for POP3 linking''), w)
      | Some aid \<Rightarrow>
          if aid \<noteq> cm_account_id c then (Inl (Pop3Error ''canonical account is not active for POP3 linking''), w)
          else (case bind_remote (pop3_identity uidl aid)
                  (pop3_row H aid uidl (cm_message_id_header c) (reading H w 0)) (cm_id c) ''pop3-uidl-retr'' (w_db w) of
                Inl e \<Rightarrow> (Inl e, tick 1 w)
              | Inr (conflict, d) \<Rightarrow> (Inr conflict, commit d 1 w)))"

definition register_pop3_link :: "host \<Rightarrow> string \<Rightarrow> string \<Rightarrow> canonical_message \<Rightarrow> ('p station, unit) prog" where
  "register_pop3_link H name uidl c =
     seq (transaction (bind_uidl H name uidl c)) (\<lambda>conflict.
     if conflict then
       seq (acquisition_audit H pop3_actor name ''pop3.remote_link.failed'' ''conflict'' [(''uidl'', JStr uidl)]) (\<lambda>u.
       fail (Pop3Error ''POP3 UIDL conflicts with a different canonical message''))
     else ret ())"

section \<open>One synchronization\<close>

record pop3_sync_result =
  ps_seen :: nat
  ps_imported :: nat
  ps_reused :: nat
  ps_provider_identities :: nat

text \<open>The UIDLs that are linked already are marked as seen; they are returned.\<close>

definition refresh_uidls :: "host \<Rightarrow> string \<Rightarrow> string list \<Rightarrow> ('p station, string list) prog" where
  "refresh_uidls H name uidls =
     seq (read_state (\<lambda>w. account_id (w_db w) name)) (\<lambda>found.
     case found of
       None \<Rightarrow> fail (Pop3Error ''account is not active in local state'')
     | Some aid \<Rightarrow> transaction (\<lambda>w.
         let known = linked_uidls (w_db w) aid in
         (Inr known, commit ((w_db w)\<lparr>remote_messages := update_where
            (\<lambda>r. \<exists>uidl \<in> set uidls. uidl \<in> set known \<and> pop3_identity uidl aid r)
            (\<lambda>r. r\<lparr>rm_last_seen_at := reading H w 0, rm_remote_present := True\<rparr>) (remote_messages (w_db w))\<rparr>) 1 w)))"

definition classify_created :: "'s outside \<Rightarrow> app_config \<Rightarrow> canonical_message \<times> bool \<Rightarrow>
    ('s net station, bool option) prog" where
  "classify_created X cfg stored =
     (if snd stored
      then seq (classify_pending (ou_system X) (ou_host X) (ou_classifier X) cfg (fst stored)) (\<lambda>m. ret (Some True))
      else ret (Some False))"

text \<open>One round of the loop; the value tells whether a message was created, reused or skipped.\<close>

definition import_uidl :: "'s outside \<Rightarrow> app_config \<Rightarrow> string \<Rightarrow> string list \<Rightarrow> int \<times> string \<Rightarrow>
    ('s net station, bool option) prog" where
  "import_uidl X cfg name known item =
     (if snd item \<in> set known then ret None
      else
        seq (on_net (acq_retr (ou_peer X) (fst item))) (\<lambda>raw.
        seq (ingest_bytes (ou_system X) (ou_host X) (ou_parser X) cfg raw name ''pop3-retr'') (\<lambda>stored.
        seq (register_pop3_link (ou_host X) name (snd item) (fst stored)) (\<lambda>u.
        classify_created X cfg stored))))"

definition report_sync :: "'s outside \<Rightarrow> string \<Rightarrow> nat \<Rightarrow> bool option list \<Rightarrow> ('s net station, pop3_sync_result) prog" where
  "report_sync X name seen results =
     seq (on_net (read_state nt_commands)) (\<lambda>commands.
     seq (require (''DELE'' \<notin> set commands) AssertionError) (\<lambda>u.
     let imported = length (filter (\<lambda>r. r = Some True) results);
         reused = length (filter (\<lambda>r. r = Some False) results)
     in seq (acquisition_audit (ou_host X) pop3_actor name ''pop3.sync.succeeded'' ''success''
          [(''seen'', JInt (int seen)), (''imported'', JInt (int imported)), (''reused'', JInt (int reused))]) (\<lambda>u.
        ret \<lparr>ps_seen = seen, ps_imported = imported, ps_reused = reused, ps_provider_identities = seen\<rparr>)))"

definition import_all :: "'s outside \<Rightarrow> app_config \<Rightarrow> string \<Rightarrow> (int \<times> string) list \<Rightarrow>
    ('s net station, pop3_sync_result) prog" where
  "import_all X cfg name listing =
     seq (require (length (remdups (map snd listing)) = length listing)
       (Pop3Error ''POP3 UIDL response is ambiguous'')) (\<lambda>u.
     seq (refresh_uidls (ou_host X) name (map snd listing)) (\<lambda>known.
     seq (for_each (import_uidl X cfg name known) (sort_key fst listing)) (\<lambda>results.
     report_sync X name (length listing) results)))"

definition pop3_sync_locked :: "'s outside \<Rightarrow> app_config \<Rightarrow> account_config \<Rightarrow> pop3_config \<Rightarrow> string \<Rightarrow>
    ('s net station, pop3_sync_result) prog" where
  "pop3_sync_locked X cfg a c name =
     seq (lift_result (credential_variable (ac_config_ref a))) (\<lambda>v.
     case h_environ (ou_host X) v of
       None \<Rightarrow> fail (Pop3Error ''missing POP3 credential environment variable'')
     | Some password \<Rightarrow>
         if password = [] then fail (Pop3Error ''missing POP3 credential environment variable'')
         else
           seq (on_net new_wire) (\<lambda>u.
           finalize
             (seq (on_net (acq_open (ou_peer X) c)) (\<lambda>u.
              seq (on_net (acq_command (ou_peer X) (''USER '' @ pc_username c))) (\<lambda>l.
              seq (on_net (acq_command (ou_peer X) (''PASS '' @ password))) (\<lambda>l.
              seq (on_net (acq_uidls (ou_peer X))) (\<lambda>listing.
              import_all X cfg name listing)))))
             (on_net (acq_close (ou_peer X)))))"

definition pop3_sync :: "'s outside \<Rightarrow> app_config \<Rightarrow> string \<Rightarrow> ('s net station, pop3_sync_result) prog" where
  "pop3_sync X cfg name =
     (case config_account cfg name of
        None \<Rightarrow> fail (Pop3Error ''account is not configured for POP3 synchronization'')
      | Some a \<Rightarrow>
          (case ac_pop3 a of
             None \<Rightarrow> fail (Pop3Error ''account is not configured for POP3 synchronization'')
           | Some c \<Rightarrow>
               seq (require (ac_kind a = Pop3) (Pop3Error ''account is not configured for POP3 synchronization'')) (\<lambda>u.
               seq (require (ac_enabled a) (Pop3Error ''account is disabled'')) (\<lambda>u.
               seq (transaction (initialize (ou_host X) (cf_accounts cfg) [])) (\<lambda>u.
               seq (reconcile_pending (ou_system X) (ou_host X) (ou_classifier X) cfg (Some name) None) (\<lambda>ids.
               attempt
                 (seq (lift_result (pop3_lock_path (ou_host X) cfg a)) (\<lambda>p.
                  locked (ou_peer X) p Pop3SyncBusyError (pop3_sync_locked X cfg a c name)))
                 (\<lambda>e. True)
                 (\<lambda>e. seq (acquisition_audit (ou_host X) pop3_actor name ''pop3.sync.failed'' ''failed''
                        [(''reason'', JStr (ou_class_name X e))]) (\<lambda>u. fail e))))))))"

section \<open>Nothing but read-only commands\<close>

definition read_only_words :: "string list" where
  "read_only_words = [''STLS'', ''USER'', ''PASS'', ''UIDL'', ''RETR'', ''QUIT'']"

text \<open>A transmission is one line, with one of these commands.\<close>

fun read_only_pop3 :: "command \<Rightarrow> bool" where
  "read_only_pop3 (SockSend b) =
     (let c = take (length b - 2) b in
      b = c @ CRLF \<and> CHR 0x0D \<notin> set c \<and> CHR 0x0A \<notin> set c \<and> command_word c \<in> set read_only_words)"
| "read_only_pop3 (SockConnect h p t) = True"
| "read_only_pop3 (SockTls h) = True"
| "read_only_pop3 SockClose = True"
| "read_only_pop3 (TryLock p) = True"
| "read_only_pop3 (Unlock p) = True"
| "read_only_pop3 _ = False"

lemma read_only_send: "CHR 0x0D \<notin> set c \<Longrightarrow> CHR 0x0A \<notin> set c \<Longrightarrow> command_word c \<in> set read_only_words \<Longrightarrow>
    read_only_pop3 (SockSend (c @ CRLF))"
  by (simp add: Let_def)

lemma words: "command_word ''STLS'' \<in> set read_only_words" "command_word ''UIDL'' \<in> set read_only_words"
  "command_word ''QUIT'' \<in> set read_only_words" "command_word (''USER '' @ x) \<in> set read_only_words"
  "command_word (''PASS '' @ x) \<in> set read_only_words" "command_word (''RETR '' @ x) \<in> set read_only_words"
  by (simp_all add: command_word_def read_only_words_def upper_char_def)

lemma adds_consume [adds_intros]: "adds C (\<lambda>e. True) (consume f)"
  by (auto simp: adds_def wp_consume extends_def split: prod.split sum.split)

lemma adds_quietly: "(\<And>s. nt_trace (f s) = nt_trace s) \<Longrightarrow> adds C (\<lambda>e. True) (write_state f)"
  by (rule adds_write) (simp add: extends_def)

lemmas reading_parts = acq_positive_line_def acq_read_line_def assert_sock_def

lemma adds_positive: "adds C (\<lambda>e. True) acq_positive_line"
  unfolding reading_parts by (intro adds_intros adds_lift) auto

lemma adds_read_only_command:
  assumes "command_word c \<in> set read_only_words"
  shows "adds read_only_pop3 (\<lambda>e. True) (acq_command P c)"
proof (cases "CHR 0x0D \<notin> set c \<and> CHR 0x0A \<notin> set c")
  case True
  then have "read_only_pop3 (SockSend (c @ CRLF))" using assms by (intro read_only_send) auto
  then show ?thesis
    unfolding acq_command_def send_command_def transmit_def assert_sock_def
    by (intro adds_intros adds_positive adds_quietly) auto
next
  case False
  then have "acq_command P c = seq (require (command_word c \<noteq> ''DELE'') AssertionError)
      (\<lambda>u. fail (Pop3Error ''invalid POP3 command''))"
    by (auto simp: acq_command_def require_def seq_def fail_def ret_def fun_eq_iff)
  then show ?thesis by (simp add: adds_intros)
qed

lemma adds_tls: "adds read_only_pop3 (\<lambda>e. True) (tls_start P h)"
  unfolding tls_start_def by (intro adds_intros adds_quietly) auto

lemma adds_acq_open: "adds read_only_pop3 (\<lambda>e. True) (acq_open P c)"
  unfolding acq_open_def
  by (intro adds_intros adds_positive adds_quietly adds_tls adds_read_only_command words) auto

lemma adds_attempt_any:
  "adds C (\<lambda>e. True) m \<Longrightarrow> (\<And>e. adds C (\<lambda>e. True) (h e)) \<Longrightarrow> adds C (\<lambda>e. True) (attempt m D h)"
  by (rule adds_attempt) auto

lemma adds_acq_close: "adds read_only_pop3 (\<lambda>e. True) (acq_close P)"
  unfolding acq_close_def sock_close_def
  by (intro adds_intros adds_attempt_any adds_quietly adds_read_only_command words) auto

lemma adds_multiline: "command_word c \<in> set read_only_words \<Longrightarrow> adds read_only_pop3 (\<lambda>e. True) (acq_multiline P c)"
  unfolding acq_multiline_def assert_sock_def by (intro adds_intros adds_read_only_command) auto

lemma adds_acq_uidls: "adds read_only_pop3 (\<lambda>e. True) (acq_uidls P)"
  unfolding acq_uidls_def by (intro adds_intros adds_multiline words adds_lift) auto

lemma adds_acq_retr: "adds read_only_pop3 (\<lambda>e. True) (acq_retr P n)"
  unfolding acq_retr_def by (intro adds_intros adds_multiline words) auto

lemma adds_new_wire: "adds C (\<lambda>e. True) new_wire"
  unfolding new_wire_def by (rule adds_quietly) simp

lemmas read_only_parts = adds_acq_open adds_acq_close adds_acq_uidls adds_acq_retr adds_new_wire
  adds_read_only_command words

section \<open>A synchronization\<close>

lemma binding_register: "leads keeps_bindings (register_pop3_link H name uidl c)"
proof -
  have "leads keeps_bindings (bind_uidl H name uidl c)"
    by (auto simp: leads_def bind_uidl_def keeps_bindings_def dest: bind_remote_grows
        split: option.split sum.split)
  then show ?thesis
    unfolding register_pop3_link_def by (intro binding.structural binding.auditing)
qed

lemma sends_register: "leads (sends_only C) (register_pop3_link H name uidl c)"
proof -
  have "leads (sends_only C) (bind_uidl H name uidl c)"
    by (auto simp: leads_def bind_uidl_def sends_only_def split: option.split sum.split)
  then show ?thesis
    unfolding register_pop3_link_def by (intro sending.structural sending.auditing)
qed

lemma binding_refresh: "leads keeps_bindings (refresh_uidls H name uidls)"
  unfolding refresh_uidls_def
  by (intro binding.structural)
    (auto simp: leads_def keeps_bindings_def bindings_grow_def identity_update Let_def)

lemma sends_refresh: "leads (sends_only C) (refresh_uidls H name uidls)"
  unfolding refresh_uidls_def
  by (intro sending.structural) (auto simp: leads_def sends_only_def Let_def)

lemma sends_import_all: "leads (sends_only read_only_pop3) (import_all X cfg name listing)"
  unfolding import_all_def import_uidl_def classify_created_def report_sync_def Let_def
  by (intro sending.structural sending.local_parts sends_register sends_refresh sends_on_net
      read_only_parts adds_read)

lemma binding_import: "leads keeps_bindings (import_uidl X cfg name known item)"
  unfolding import_uidl_def classify_created_def
  by (intro binding.structural binding.local_parts binding_register binding_on_net)

lemma binding_import_all: "leads keeps_bindings (import_all X cfg name listing)"
  unfolding import_all_def report_sync_def Let_def
  by (intro binding.structural binding.local_parts binding_import binding_refresh binding_on_net)

lemma sends_pop3_sync: "leads (sends_only read_only_pop3) (pop3_sync X cfg name)"
  unfolding pop3_sync_def pop3_sync_locked_def
  by (intro sending.structural sending.local_parts sends_locked sends_on_net read_only_parts
      sends_import_all) simp_all

lemma binding_pop3_sync: "leads keeps_bindings (pop3_sync X cfg name)"
  unfolding pop3_sync_def pop3_sync_locked_def
  by (intro binding.structural binding.local_parts binding_locked binding_on_net binding_import_all)

text \<open>
  Acquisition over POP3 is read-only.  Whatever the server answers and however the
  synchronization ends, all it ever does on the network is connect, start TLS, close, and send single
  lines with one of the commands STLS, USER, PASS, UIDL, RETR and QUIT; in particular never DELE.
\<close>

theorem pop3_sync_is_read_only:
  assumes "pop3_sync X cfg name w = (r, u)"
  shows "extends read_only_pop3 (dk_rest (w_net w)) (dk_rest (w_net u))"
  using sends_pop3_sync [of X cfg name] assms by (auto simp: leads_def sends_only_def dest: spec [of _ w])

section \<open>Every listed UIDL is linked\<close>

lemma identifying_pop3 [simp]: "identifying (pop3_identity uidl aid)"
  by (auto simp: identifying_def pop3_identity_def identity_of_def)

abbreviation pop3_linked :: "string \<Rightarrow> string \<Rightarrow> 's net station \<Rightarrow> bool" where
  "pop3_linked name uidl w \<equiv> account_linked name (pop3_identity uidl) (w_db w)"

lemma pop3_linked_lasts: "keeps_bindings w v \<Longrightarrow> pop3_linked name uidl w \<Longrightarrow> pop3_linked name uidl v"
  by (rule keeps_account_linked) simp_all

lemma linked_uidls_linked: "uidl \<in> set (linked_uidls d aid) \<Longrightarrow> linked (pop3_identity uidl aid) d"
  by (auto simp: linked_uidls_def linked_def list_ex_iff pop3_identity_def map_filter_def)

lemma wp_register_links:
  "wp (register_pop3_link H name uidl c) (\<lambda>u. pop3_linked name uidl) (\<lambda>e v. True) w"
proof -
  have "wp (bind_uidl H name uidl c) (\<lambda>conflict v. \<not> conflict \<longrightarrow> pop3_linked name uidl v) (\<lambda>e v. True) w"
    by (auto simp: wp_def bind_uidl_def split: option.split sum.split
        intro!: account_linkedI dest: bind_remote_linked simp: bind_remote_account_id)
  then show ?thesis
    unfolding register_pop3_link_def wp_seq wp_transaction
    by (rule wp_mono) (auto simp: wp_rules intro: wp_mono [OF wp_always [THEN iffD2]])
qed

lemma wp_any: "(\<And>r v. Q r v) \<Longrightarrow> wp m Q (\<lambda>e v. True) w"
  by (auto simp: wp_def split: prod.split sum.split)

lemma wp_import:
  assumes "snd item \<in> set known \<Longrightarrow> pop3_linked name (snd item) w"
  shows "wp (import_uidl X cfg name known item) (\<lambda>x. pop3_linked name (snd item)) (\<lambda>e v. True) w"
proof (cases "snd item \<in> set known")
  case False
  have "leads keeps_bindings (classify_created X cfg stored)" for stored
    unfolding classify_created_def by (intro binding.structural binding.local_parts)
  then have rest: "wp (classify_created X cfg stored) (\<lambda>x. pop3_linked name (snd item)) (\<lambda>e v. True) v"
    if "pop3_linked name (snd item) v" for stored v
    using that pop3_linked_lasts by (rule wp_keeping)
  show ?thesis
    unfolding import_uidl_def if_not_P [OF False]
    by (rule wp_seq_any, rule wp_seq_any, subst wp_seq, rule wp_mono [OF wp_register_links])
      (auto intro: rest)
qed (use assms in \<open>simp add: import_uidl_def\<close>)

lemma wp_refresh:
  "wp (refresh_uidls H name uidls)
     (\<lambda>known v. \<forall>uidl \<in> set known. pop3_linked name uidl v) (\<lambda>e v. True) w"
proof (cases "account_id (w_db w) name")
  case (Some aid)
  let ?d = "(w_db w)\<lparr>remote_messages := update_where
      (\<lambda>r. \<exists>uidl \<in> set uidls. uidl \<in> set (linked_uidls (w_db w) aid) \<and> pop3_identity uidl aid r)
      (\<lambda>r. r\<lparr>rm_last_seen_at := reading H w 0, rm_remote_present := True\<rparr>) (remote_messages (w_db w))\<rparr>"
  have "bindings_grow (w_db w) ?d" by (simp add: bindings_grow_def identity_update)
  then have "linked (pop3_identity uidl aid) ?d" if "uidl \<in> set (linked_uidls (w_db w) aid)" for uidl
    using linked_grows [OF linked_uidls_linked [OF that]] by simp
  moreover have "account_id ?d name = Some aid" using Some by (simp add: account_id_def)
  ultimately have "\<forall>uidl \<in> set (linked_uidls (w_db w) aid). account_linked name (pop3_identity uidl) ?d"
    by (blast intro: account_linkedI)
  with Some show ?thesis
    by (simp add: refresh_uidls_def wp_seq wp_read wp_transaction) (simp add: wp_def Let_def)
qed (simp add: refresh_uidls_def wp_seq wp_read)

text \<open>The outcome of a synchronization: so many UIDLs, each linked in the account.\<close>

definition all_linked :: "string \<Rightarrow> nat \<Rightarrow> 's net station \<Rightarrow> bool" where
  "all_linked name n v \<longleftrightarrow> (\<exists>listing. sound_listing listing \<and> length listing = n \<and>
     (\<forall>x \<in> set listing. pop3_linked name (snd x) v))"

lemma all_linked_lasts: "keeps_bindings w v \<Longrightarrow> all_linked name n w \<Longrightarrow> all_linked name n v"
  unfolding all_linked_def using pop3_linked_lasts by blast

lemma wp_import_all:
  fixes X :: "'s outside"
  assumes "sound_listing listing"
  shows "wp (import_all X cfg name listing) (\<lambda>r. all_linked name (ps_seen r)) (\<lambda>e v. True) w"
proof -
  let ?K = "\<lambda>known v. \<forall>uidl \<in> set known. pop3_linked name uidl v"
  let ?Q = "\<lambda>x. pop3_linked name (snd x)"
  let ?rest = "report_sync X name (length listing)"
  have loop: "wp (for_each (import_uidl X cfg name known) (sort_key fst listing))
      (\<lambda>ys v. \<forall>x \<in> set listing. ?Q x v) (\<lambda>e v. True) v" if "?K known v" for known v
  proof -
    have "wp (for_each (import_uidl X cfg name known) (sort_key fst listing))
        (\<lambda>ys v. \<forall>x \<in> set (sort_key fst listing). ?Q x v) (\<lambda>e v. True) v"
      by (rule wp_for_each_lasting [where K = "?K known"])
        (use that in \<open>auto intro: wp_import binding_import pop3_linked_lasts\<close>)
    then show ?thesis by simp
  qed
  have rest: "wp (?rest results) (\<lambda>r. all_linked name (ps_seen r)) (\<lambda>e v. True) v"
    if "\<forall>x \<in> set listing. ?Q x v" for results v
  proof -
    have "all_linked name (length listing) v" using that assms unfolding all_linked_def by blast
    moreover have "leads keeps_bindings (?rest results)"
      unfolding report_sync_def Let_def by (intro binding.structural binding.local_parts binding_on_net)
    ultimately have "wp (?rest results) (\<lambda>r. all_linked name (length listing)) (\<lambda>e v. True) v"
      using all_linked_lasts by (intro wp_keeping)
    moreover have "wp (?rest results) (\<lambda>r u. ps_seen r = length listing) (\<lambda>e v. True) v"
      unfolding report_sync_def Let_def by (intro wp_seq_any) simp
    ultimately have "wp (?rest results) (\<lambda>r u. all_linked name (length listing) u \<and> ps_seen r = length listing)
        (\<lambda>e v. True \<and> True) v" by (rule wp_both)
    then show ?thesis by (rule wp_mono) auto
  qed
  show ?thesis
    unfolding import_all_def
    by (rule wp_seq_any, subst wp_seq, rule wp_mono [OF wp_refresh], subst wp_seq, rule wp_mono [OF loop])
      (auto intro: rest)
qed

lemma wp_acq_uidls: "wp (acq_uidls P) (\<lambda>l t. sound_listing l) (\<lambda>e t. True) s"
  unfolding acq_uidls_def
  by (rule wp_seq_any) (auto simp: wp_lift dest: parse_uidls_sound split: sum.split)

lemma wp_sync_locked:
  "wp (pop3_sync_locked X cfg a c name) (\<lambda>r. all_linked name (ps_seen r)) (\<lambda>e v. True) w"
proof -
  let ?Q = "\<lambda>r. all_linked name (ps_seen r)"
  have "wp (seq (on_net (acq_uidls (ou_peer X))) (import_all X cfg name)) ?Q (\<lambda>e v. True) v" for v
    unfolding wp_seq
    by (rule wp_mono [OF wp_on_net [where Q = sound_listing]]) (auto intro: wp_acq_uidls wp_import_all)
  then have session: "wp (seq (on_net greet) (\<lambda>u. seq (on_net user) (\<lambda>l. seq (on_net pass) (\<lambda>l.
      seq (on_net (acq_uidls (ou_peer X))) (import_all X cfg name))))) ?Q (\<lambda>e v. True) v"
    for greet :: "('a net, unit) prog" and user pass :: "('a net, bytes) prog" and v
    by (intro wp_seq_any [where m = "on_net greet"] wp_seq_any [where m = "on_net user"]
        wp_seq_any [where m = "on_net pass"])
  have close: "wp (on_net (acq_close (ou_peer X))) (\<lambda>u. ?Q r) (\<lambda>e v. True) v" if "?Q r v" for r v
    using binding_on_net that all_linked_lasts by (rule wp_keeping)
  show ?thesis
    unfolding pop3_sync_locked_def
    by (rule wp_seq_any) (auto split: option.split intro!: wp_seq_any [where m = "on_net new_wire"]
      wp_finalize_return session close)
qed

text \<open>
  C5.  A synchronization, however it ends, keeps every account, every remote identity and every link as
  it was and in place: no UIDL is ever bound to another message.  When it returns, there are as many
  distinct UIDLs as it reports seen, every one of them linked within the account.
\<close>

theorem pop3_sync_binds_every_uidl:
  assumes "pop3_sync X cfg name w = (r, u)"
  shows "bindings_grow (w_db w) (w_db u) \<and>
    (case r of Inl e \<Rightarrow> True | Inr res \<Rightarrow> all_linked name (ps_seen res) u)"
proof
  show "bindings_grow (w_db w) (w_db u)"
    using binding_pop3_sync [of X cfg name] assms by (auto simp: leads_def keeps_bindings_def dest: spec [of _ w])
  have locked: "wp (seq (lift_result p) (\<lambda>p. locked (ou_peer X) p Pop3SyncBusyError (pop3_sync_locked X cfg a c name)))
      (\<lambda>r. all_linked name (ps_seen r)) (\<lambda>e v. True) v" for p a c v
    by (rule wp_seq_any) (rule wp_locked [OF wp_sync_locked all_linked_lasts])
  have "wp (pop3_sync X cfg name) (\<lambda>r. all_linked name (ps_seen r)) (\<lambda>e v. True) w"
    unfolding pop3_sync_def
    by (auto split: option.split intro!: wp_seq_any wp_reraise locked)
  then show "case r of Inl e \<Rightarrow> True | Inr res \<Rightarrow> all_linked name (ps_seen res) u"
    using assms by (cases r) (auto dest: wp_run)
qed

end
