(* ===== verification/ImapSync.thy ===== *)
theory ImapSync
  imports Acquire ImapProtocol
begin

text \<open>
  IMAP acquisition, \<open>ImapAdapter.sync\<close> of \<open>imap.py\<close>: under the folder lock, in a mailbox selected
  read-only, every UID that is not linked yet is fetched with \<open>BODY.PEEK[]\<close>, admitted, linked and
  classified.  The lemmas show that no mutating command is ever sent, that no binding is ever lost
  or redirected, and that on return every UID of the mailbox is linked.
\<close>

section \<open>Links\<close>

definition imap_identity :: "string \<Rightarrow> int \<Rightarrow> int \<Rightarrow> int \<Rightarrow> remote_row \<Rightarrow> bool" where
  "imap_identity folder v uid aid r \<longleftrightarrow> rm_account_id r = aid \<and> rm_provider_kind r = Imap \<and>
     rm_remote_folder r = Some folder \<and> rm_uidvalidity r = Some v \<and> rm_remote_uid r = Some uid"

text \<open>An integer that SQLite can store.\<close>

definition storable :: "int \<Rightarrow> bool" where
  "storable i \<longleftrightarrow> - (2 ^ 63) \<le> i \<and> i < 2 ^ 63"

text \<open>\<open>_linked_uids\<close>\<close>

definition linked_uids :: "db \<Rightarrow> int \<Rightarrow> string \<Rightarrow> int \<Rightarrow> int list" where
  "linked_uids d aid folder v = List.map_filter rm_remote_uid
     (filter (\<lambda>r. rm_account_id r = aid \<and> rm_provider_kind r = Imap \<and> rm_remote_folder r = Some folder \<and>
        rm_uidvalidity r = Some v \<and> rm_identity_confidence r = ''proven'' \<and>
        list_ex (\<lambda>l. lk_remote_message_id l = rm_id r) (remote_canonical_links d)) (remote_messages d))"

text \<open>\<open>_refresh_last_seen\<close>, in statements of 500 UIDs.\<close>

function chunks :: "nat \<Rightarrow> 'a list \<Rightarrow> 'a list list" where
  "chunks n xs = (if xs = [] then [] else take (Suc n) xs # chunks n (drop (Suc n) xs))"
  by pat_completeness auto
termination
  by (relation "measure (\<lambda>(n, xs). length xs)") auto

declare chunks.simps [simp del]

definition refresh_chunk :: "int \<Rightarrow> string \<Rightarrow> int \<Rightarrow> string \<Rightarrow> int list \<Rightarrow> remote_row list \<Rightarrow> remote_row list" where
  "refresh_chunk aid folder v now uids =
     update_where (\<lambda>r. rm_account_id r = aid \<and> rm_provider_kind r = Imap \<and> rm_remote_folder r = Some folder \<and>
        rm_uidvalidity r = Some v \<and> rm_identity_confidence r = ''proven'' \<and> rm_remote_uid r \<in> Some ` set uids)
       (\<lambda>r. r\<lparr>rm_last_seen_at := now\<rparr>)"

definition refresh_last_seen :: "int \<Rightarrow> string \<Rightarrow> int \<Rightarrow> string \<Rightarrow> int list \<Rightarrow> remote_row list \<Rightarrow> remote_row list" where
  "refresh_last_seen aid folder v now uids = fold (refresh_chunk aid folder v now) (chunks 499 (sort uids))"

definition imap_row :: "host \<Rightarrow> int \<Rightarrow> string \<Rightarrow> int \<Rightarrow> int \<Rightarrow> string option \<Rightarrow> string \<Rightarrow> remote_row" where
  "imap_row H aid folder v uid mid now =
     \<lparr>rm_id = int_text aid @ '':'' @
        h_sha256 H (utf8 (folder @ [CHR 0x00] @ int_text v @ [CHR 0x00] @ int_text uid)),
      rm_account_id = aid, rm_provider_kind = Imap, rm_remote_folder = Some folder, rm_uidvalidity = Some v,
      rm_remote_uid = Some uid, rm_provider_message_id = None, rm_provider_thread_id = None,
      rm_message_id_header = mid, rm_first_seen_at = now, rm_last_seen_at = now,
      rm_remote_present = True, rm_identity_confidence = ''proven''\<rparr>"

abbreviation imap_actor :: string where
  "imap_actor \<equiv> ''mailarchive.imap''"

text \<open>
  The transaction of \<open>register_remote_link\<close>.  \<open>observed_at or utc_now()\<close> reads the clock when no time
  is given; the audit event reads it once more.
\<close>

definition bind_uid :: "host \<Rightarrow> string \<Rightarrow> string \<Rightarrow> int \<Rightarrow> int \<Rightarrow> canonical_message \<Rightarrow> string option \<Rightarrow>
    'p world \<Rightarrow> bool result \<times> 'p world" where
  "bind_uid H name folder v uid c observed w =
     (case account_id (w_db w) name of
        None \<Rightarrow> (Inl (ImapError ''canonical account is not active for remote linking''), w)
      | Some aid \<Rightarrow>
          if aid \<noteq> cm_account_id c then (Inl (ImapError ''canonical account is not active for remote linking''), w)
          else
            let given = observed \<noteq> None \<and> observed \<noteq> Some [];
                now = (case observed of Some t \<Rightarrow> if t = [] then reading H w 0 else t | None \<Rightarrow> reading H w 0);
                k = (if given then 0 else 1)
            in if \<not> storable v \<or> \<not> storable uid then (Inl OverflowError, tick k w)
               else (case bind_remote (imap_identity folder v uid aid)
                  (imap_row H aid folder v uid (cm_message_id_header c) now) (cm_id c) ''imap-uid-body-peek'' (w_db w) of
                Inl e \<Rightarrow> (Inl e, tick k w)
              | Inr (conflict, d) \<Rightarrow>
                  if conflict then (Inr True, commit d k w)
                  else (Inr False, commit (insert_audit_event (reading H w k) imap_actor ''imap.remote_link.created''
                    ''success'' (Some aid) (Some (cm_id c))
                    (json_text [(''folder'', JStr folder), (''uid'', JInt uid), (''uidvalidity'', JInt v)]) d) (k + 1) w)))"

definition register_remote_link :: "host \<Rightarrow> string \<Rightarrow> string \<Rightarrow> int \<Rightarrow> int \<Rightarrow> canonical_message \<Rightarrow> string option \<Rightarrow>
    ('p station, unit) prog" where
  "register_remote_link H name folder v uid c observed =
     seq (transaction (bind_uid H name folder v uid c observed)) (\<lambda>conflict.
     if conflict then
       seq (acquisition_audit H imap_actor name ''imap.remote_link.failed'' ''conflict''
         [(''folder'', JStr folder), (''uid'', JInt uid), (''uidvalidity'', JInt v)]) (\<lambda>u.
       fail (ImapError ''remote identity conflicts with a different canonical message''))
     else ret ())"

section \<open>One synchronization\<close>

text \<open>\<open>_open\<close>\<close>

definition imap_connect :: "'s peer \<Rightarrow> imap_config \<Rightarrow> ('s net, unit) prog" where
  "imap_connect P c =
     (let connect = (\<lambda>tls. command_done P (ImapConnect tls (ic_host c) (ic_port c) (ic_connection_timeout_seconds c)))
      in if ic_tls_mode c = IMAPS then connect True
         else if ic_tls_mode c = STARTTLS then seq (connect False) (\<lambda>u. command_done P ImapStarttls)
         else connect False)"

text \<open>The UIDs of the reply to \<open>UID SEARCH ALL\<close>, sorted and without repetition.\<close>

definition uid_token :: "string \<Rightarrow> int result" where
  "uid_token t =
     (if \<not> all_digits t then Inl (ImapError ''IMAP UID discovery returned an invalid UID'')
      else rbind (py_int t) (\<lambda>u. if u \<le> 0 then Inl (ImapError ''IMAP UID discovery returned an invalid UID'') else Inr u))"

definition discovered :: "string \<times> imap_item list \<Rightarrow> int list result" where
  "discovered r =
     (case r of (status, [IBytes b]) \<Rightarrow>
        if status \<noteq> ''OK'' then Inl (ImapError ''IMAP UID discovery failed'')
        else rbind (map_result uid_token (split_ws byte_space [] b)) (\<lambda>uids. Inr (sort (remdups uids)))
      | _ \<Rightarrow> Inl (ImapError ''IMAP UID discovery failed''))"

text \<open>The linked UIDs are marked as seen; all linked UIDs are returned.\<close>

definition refresh_uids :: "string \<Rightarrow> string \<Rightarrow> int \<Rightarrow> int list \<Rightarrow> string \<Rightarrow> ('p station, int list) prog" where
  "refresh_uids name folder v uids now =
     seq (read_state (\<lambda>w. account_id (w_db w) name)) (\<lambda>found.
     case found of
       None \<Rightarrow> fail (ImapError ''account is not active in local state'')
     | Some aid \<Rightarrow> transaction (\<lambda>w.
         if \<not> storable v \<or> \<not> list_all storable uids then (Inl OverflowError, w)
         else (Inr (linked_uids (w_db w) aid folder v),
           commit ((w_db w)\<lparr>remote_messages := refresh_last_seen aid folder v now uids (remote_messages (w_db w))\<rparr>) 0 w)))"

definition settle_import :: "'s outside \<Rightarrow> app_config \<Rightarrow> string \<Rightarrow> string \<Rightarrow> canonical_message \<times> bool \<Rightarrow>
    ('s net station, canonical_message \<times> bool) prog" where
  "settle_import X cfg name folder stored =
     (if snd stored then
        seq (classify_pending (ou_system X) (ou_host X) (ou_classifier X) cfg (fst stored)) (\<lambda>m.
        seq (acquisition_audit (ou_host X) imap_actor name ''imap.message.imported'' ''success''
          [(''folder'', JStr folder), (''sha256'', JStr (cm_sha256 m))]) (\<lambda>u.
        ret (m, True)))
      else ret stored)"

definition import_uid :: "'s outside \<Rightarrow> app_config \<Rightarrow> string \<Rightarrow> string \<Rightarrow> int \<Rightarrow> string \<Rightarrow> int \<Rightarrow>
    ('s net station, canonical_message \<times> bool) prog" where
  "import_uid X cfg name folder v observed uid =
     seq (on_net (imap_call (ou_peer X) (ImapUid ''fetch'' [int_text uid, ''(UID BODY.PEEK[])'']))) (\<lambda>r.
     seq (require (fst r = ''OK'') (ImapError ''IMAP BODY.PEEK[] fetch failed'')) (\<lambda>u.
     seq (lift_result (parse_fetch_response uid (snd r))) (\<lambda>raw.
     seq (ingest_bytes (ou_system X) (ou_host X) (ou_parser X) cfg raw name ''imap-body-peek'') (\<lambda>stored.
     seq (register_remote_link (ou_host X) name folder v uid (fst stored) (Some observed)) (\<lambda>u.
     settle_import X cfg name folder stored)))))"

definition import_mailbox :: "'s outside \<Rightarrow> app_config \<Rightarrow> string \<Rightarrow> string \<Rightarrow> int \<Rightarrow> int list \<Rightarrow>
    ('s net station, nat \<times> (canonical_message \<times> bool) list) prog" where
  "import_mailbox X cfg name folder v uids =
     seq (clock (ou_host X)) (\<lambda>observed.
     seq (refresh_uids name folder v uids observed) (\<lambda>known.
     seq (for_each (import_uid X cfg name folder v observed) (filter (\<lambda>uid. uid \<notin> set known) uids)) (\<lambda>results.
     ret (length uids, results))))"

text \<open>The session, up to the discovery of the UIDs.\<close>

definition open_mailbox :: "'s peer \<Rightarrow> imap_config \<Rightarrow> string \<Rightarrow> string \<Rightarrow> ('s net, int \<times> int list) prog" where
  "open_mailbox P c password folder =
     seq (imap_connect P c) (\<lambda>u.
     seq (bind_client True) (\<lambda>u.
     seq (imap_call P (ImapLogin (ic_username c) password)) (\<lambda>r.
     seq (require (fst r = ''OK'') (ImapError ''IMAP authentication failed'')) (\<lambda>u.
     seq (lift_result (encode_mailbox_name folder)) (\<lambda>mailbox.
     seq (imap_call P (ImapSelect mailbox True)) (\<lambda>r.
     seq (require (fst r = ''OK'') (ImapError ''IMAP mailbox cannot be selected read-only'')) (\<lambda>u.
     seq (selected_uidvalidity P) (\<lambda>v.
     seq (imap_call P (ImapUid ''search'' [''ALL''])) (\<lambda>r.
     seq (lift_result (discovered r)) (\<lambda>uids.
     ret (v, uids)))))))))))"

definition imap_logout :: "'s peer \<Rightarrow> ('s net, unit) prog" where
  "imap_logout P =
     seq (read_state nt_client) (\<lambda>b.
     if b then attempt (command_done P ImapLogout) transport_error (\<lambda>e. ret ()) else ret ())"

definition imap_sync_locked :: "'s outside \<Rightarrow> app_config \<Rightarrow> imap_config \<Rightarrow> string \<Rightarrow> string \<Rightarrow> string \<Rightarrow>
    ('s net station, nat \<times> (canonical_message \<times> bool) list) prog" where
  "imap_sync_locked X cfg c password name folder =
     seq (acquisition_audit (ou_host X) imap_actor name ''imap.sync.started'' ''started'' [(''folder'', JStr folder)]) (\<lambda>u.
     seq (on_net (bind_client False)) (\<lambda>u.
     seq (finalize
       (attempt
         (seq (on_net (open_mailbox (ou_peer X) c password folder)) (\<lambda>box.
          import_mailbox X cfg name folder (fst box) (snd box)))
         (\<lambda>e. True)
         (\<lambda>e. seq (acquisition_audit (ou_host X) imap_actor name ''imap.sync.failed'' ''failed''
                [(''folder'', JStr folder), (''reason'', JStr (ou_class_name X e))]) (\<lambda>u. fail e)))
       (on_net (imap_logout (ou_peer X)))) (\<lambda>done'.
     seq (acquisition_audit (ou_host X) imap_actor name ''imap.sync.succeeded'' ''success''
       [(''folder'', JStr folder), (''remote_seen'', JInt (int (fst done'))),
        (''fetched'', JInt (int (length (snd done')))),
        (''imported'', JInt (int (length (filter snd (snd done')))))]) (\<lambda>u.
     ret done'))))"

text \<open>Python returns the list; the number of UIDs seen is in the audit event and kept here beside it.\<close>

definition imap_sync :: "'s outside \<Rightarrow> app_config \<Rightarrow> string \<Rightarrow> string \<Rightarrow>
    ('s net station, nat \<times> (canonical_message \<times> bool) list) prog" where
  "imap_sync X cfg name folder =
     (case config_account cfg name of
        None \<Rightarrow> fail (ImapError (''unknown account: '' @ name))
      | Some a \<Rightarrow>
          seq (require (ac_enabled a) (ImapError (''account is disabled: '' @ name))) (\<lambda>u.
          case ac_imap a of
            None \<Rightarrow> fail (ImapError ''account is not configured for IMAP synchronization'')
          | Some c \<Rightarrow>
              seq (require (ac_kind a = Imap) (ImapError ''account is not configured for IMAP synchronization'')) (\<lambda>u.
              seq (require (folder \<in> set (ic_folders c))
                (ImapError (''folder is not configured for account: '' @ folder))) (\<lambda>u.
              seq (lift_result (credential_variable (ac_config_ref a))) (\<lambda>v.
              case h_environ (ou_host X) v of
                None \<Rightarrow> fail (ImapError (''missing credential environment variable: '' @ v))
              | Some password \<Rightarrow>
                  seq (require (password \<noteq> []) (ImapError (''missing credential environment variable: '' @ v))) (\<lambda>u.
                  seq (transaction (initialize (ou_host X) (cf_accounts cfg) [])) (\<lambda>u.
                  seq (reconcile_pending (ou_system X) (ou_host X) (ou_classifier X) cfg (Some name) None) (\<lambda>ids.
                  seq (lift_result (folder_lock_path (ou_host X) cfg a folder)) (\<lambda>p.
                  locked (ou_peer X) p ImapSyncBusyError
                    (imap_sync_locked X cfg c password name folder))))))))))"

section \<open>Nothing but reading commands\<close>

fun read_only_imap :: "command \<Rightarrow> bool" where
  "read_only_imap (ImapSelect m readonly) = readonly"
| "read_only_imap (ImapUid verb args) =
     (verb = ''search'' \<and> args = [''ALL''] \<or> verb = ''fetch'' \<and> tl args = [''(UID BODY.PEEK[])''])"
| "read_only_imap (ImapConnect t h p s) = True"
| "read_only_imap ImapStarttls = True"
| "read_only_imap (ImapLogin u p) = True"
| "read_only_imap (ImapResponse c) = True"
| "read_only_imap ImapLogout = True"
| "read_only_imap (TryLock p) = True"
| "read_only_imap (Unlock p) = True"
| "read_only_imap _ = False"

lemma adds_call: "read_only_imap c \<Longrightarrow> adds read_only_imap (\<lambda>e. True) (imap_call P c)"
  unfolding imap_call_def by (intro adds_intros) (auto split: reply.split intro: adds_intros)

lemma adds_connect: "adds read_only_imap (\<lambda>e. True) (imap_connect P c)"
  unfolding imap_connect_def Let_def by (intro adds_intros) auto

lemma adds_open_mailbox: "adds read_only_imap (\<lambda>e. True) (open_mailbox P c password folder)"
  unfolding open_mailbox_def selected_uidvalidity_def
  by (intro adds_intros adds_connect adds_call adds_lift) auto

lemma adds_logout: "adds read_only_imap (\<lambda>e. True) (imap_logout P)"
  unfolding imap_logout_def
  by (intro adds_intros adds_attempt [where E0 = "\<lambda>e. True"]) auto

lemma sends_register_imap: "leads (sends_only C) (register_remote_link H name folder v uid c observed)"
proof -
  have "leads (sends_only C) (bind_uid H name folder v uid c observed)"
    by (auto simp: leads_def bind_uid_def sends_only_def Let_def split: option.split sum.split)
  then show ?thesis
    unfolding register_remote_link_def by (intro sending.structural sending.auditing)
qed

lemma sends_import_uid: "leads (sends_only read_only_imap) (import_uid X cfg name folder v observed uid)"
  unfolding import_uid_def settle_import_def
  by (intro sending.structural sending.local_parts sends_register_imap sends_on_net adds_call) simp

lemma sends_import_mailbox: "leads (sends_only read_only_imap) (import_mailbox X cfg name folder v uids)"
proof -
  have "leads (sends_only read_only_imap) (refresh_uids name folder v uids now)" for now
    unfolding refresh_uids_def
    by (intro sending.structural) (auto simp: leads_def sends_only_def)
  then show ?thesis
    unfolding import_mailbox_def by (intro sending.structural sends_import_uid)
qed

lemma sends_imap_sync: "leads (sends_only read_only_imap) (imap_sync X cfg name folder)"
  unfolding imap_sync_def imap_sync_locked_def
  by (intro sending.structural sending.local_parts sends_locked sends_on_net sends_import_mailbox
      adds_open_mailbox adds_logout adds_bind_client) simp_all

section \<open>Every UID is linked\<close>

text \<open>Cutting the update into statements of 500 UIDs makes no difference.\<close>

lemma concat_chunks: "concat (chunks n xs) = xs"
  by (induction n xs rule: chunks.induct) (subst chunks.simps, simp)

lemma update_where_twice:
  "(\<And>r. f (f r) = f r) \<Longrightarrow> (\<And>r. P (f r) = P r) \<Longrightarrow>
     update_where P f (update_where Q f rows) = update_where (\<lambda>r. Q r \<or> P r) f rows"
  by (induction rows) simp_all

lemma refresh_chunk_twice:
  "refresh_chunk aid folder v now us (refresh_chunk aid folder v now vs rows) = refresh_chunk aid folder v now (vs @ us) rows"
  unfolding refresh_chunk_def
  by (subst update_where_twice) (simp_all add: image_Un conj_disj_distribL flip: conj_assoc)

lemma refresh_in_one_statement:
  "refresh_last_seen aid folder v now uids rows = refresh_chunk aid folder v now uids rows"
proof -
  have "fold (refresh_chunk aid folder v now) cs rows = refresh_chunk aid folder v now (concat cs) rows" for cs
  proof (induction cs arbitrary: rows)
    case Nil
    show ?case by (induction rows) (simp_all add: refresh_chunk_def)
  qed (simp add: refresh_chunk_twice)
  then have "refresh_last_seen aid folder v now uids rows = refresh_chunk aid folder v now (sort uids) rows"
    by (simp add: refresh_last_seen_def concat_chunks)
  then show ?thesis by (simp add: refresh_chunk_def)
qed

lemma refresh_identities: "map identity_of (refresh_last_seen aid folder v now uids rows) = map identity_of rows"
  by (simp add: refresh_in_one_statement refresh_chunk_def identity_update)

lemma binding_register_imap: "leads keeps_bindings (register_remote_link H name folder v uid c observed)"
proof -
  have "bindings_grow d (insert_audit_event n a e r i cid j d') = bindings_grow d d'" for d d' n a e r i cid j
    by (simp add: bindings_grow_def)
  then have "leads keeps_bindings (bind_uid H name folder v uid c observed)"
    by (auto simp: leads_def bind_uid_def keeps_bindings_def Let_def dest: bind_remote_grows
        split: option.split sum.split)
  then show ?thesis
    unfolding register_remote_link_def by (intro binding.structural binding.auditing)
qed

lemma binding_refresh_uids: "leads keeps_bindings (refresh_uids name folder v uids now)"
  unfolding refresh_uids_def
  by (intro binding.structural)
    (auto simp: leads_def keeps_bindings_def bindings_grow_def refresh_identities)

lemma binding_import_uid: "leads keeps_bindings (import_uid X cfg name folder v observed uid)"
  unfolding import_uid_def settle_import_def
  by (intro binding.structural binding.local_parts binding_register_imap binding_on_net)

lemma binding_import_mailbox: "leads keeps_bindings (import_mailbox X cfg name folder v uids)"
  unfolding import_mailbox_def
  by (intro binding.structural binding_import_uid binding_refresh_uids)

lemma binding_imap_sync: "leads keeps_bindings (imap_sync X cfg name folder)"
  unfolding imap_sync_def imap_sync_locked_def
  by (intro binding.structural binding.local_parts binding_locked binding_on_net binding_import_mailbox)

lemma identifying_imap [simp]: "identifying (imap_identity folder v uid aid)"
  by (auto simp: identifying_def imap_identity_def identity_of_def)

abbreviation imap_linked :: "string \<Rightarrow> string \<Rightarrow> int \<Rightarrow> int \<Rightarrow> 's net station \<Rightarrow> bool" where
  "imap_linked name folder v uid w \<equiv> account_linked name (imap_identity folder v uid) (w_db w)"

lemma imap_linked_lasts: "keeps_bindings w u \<Longrightarrow> imap_linked name folder v uid w \<Longrightarrow> imap_linked name folder v uid u"
  by (rule keeps_account_linked) simp_all

lemma linked_uids_linked: "uid \<in> set (linked_uids d aid folder v) \<Longrightarrow> linked (imap_identity folder v uid aid) d"
  by (auto simp: linked_uids_def linked_def list_ex_iff imap_identity_def map_filter_def)

lemma account_linked_audit [simp]:
  "account_linked name same (insert_audit_event n a e r i c j d) = account_linked name same d"
  by (simp add: account_linked_def linked_def)

lemma wp_register_imap:
  "wp (register_remote_link H name folder v uid c observed) (\<lambda>u. imap_linked name folder v uid) (\<lambda>e v. True) w"
proof -
  have "wp (bind_uid H name folder v uid c observed)
      (\<lambda>conflict u. \<not> conflict \<longrightarrow> imap_linked name folder v uid u) (\<lambda>e v. True) w"
    by (auto simp: wp_def bind_uid_def Let_def split: option.split sum.split
        intro!: account_linkedI dest: bind_remote_linked simp: bind_remote_account_id)
  then show ?thesis
    unfolding register_remote_link_def wp_seq wp_transaction
    by (rule wp_mono) (auto simp: wp_rules intro: wp_mono [OF wp_always [THEN iffD2]])
qed

lemma wp_import_uid:
  "wp (import_uid X cfg name folder v observed uid) (\<lambda>x. imap_linked name folder v uid) (\<lambda>e v. True) w"
proof -
  have "leads keeps_bindings (settle_import X cfg name folder stored)" for stored
    unfolding settle_import_def by (intro binding.structural binding.local_parts)
  then have rest: "wp (settle_import X cfg name folder stored) (\<lambda>x. imap_linked name folder v uid) (\<lambda>e v. True) u"
    if "imap_linked name folder v uid u" for stored u
    using that imap_linked_lasts by (rule wp_keeping)
  show ?thesis
    unfolding import_uid_def
    by (rule wp_seq_any, rule wp_seq_any, rule wp_seq_any, rule wp_seq_any, subst wp_seq,
        rule wp_mono [OF wp_register_imap]) (auto intro: rest)
qed

lemma wp_refresh_uids:
  "wp (refresh_uids name folder v uids now)
     (\<lambda>known u. \<forall>uid \<in> set known. imap_linked name folder v uid u) (\<lambda>e v. True) w"
proof (cases "account_id (w_db w) name")
  case (Some aid)
  let ?d = "(w_db w)\<lparr>remote_messages := refresh_last_seen aid folder v now uids (remote_messages (w_db w))\<rparr>"
  have "bindings_grow (w_db w) ?d" by (simp add: bindings_grow_def refresh_identities)
  then have "linked (imap_identity folder v uid aid) ?d" if "uid \<in> set (linked_uids (w_db w) aid folder v)" for uid
    using linked_grows [OF linked_uids_linked [OF that]] by simp
  moreover have "account_id ?d name = Some aid" using Some by (simp add: account_id_def)
  ultimately have "\<forall>uid \<in> set (linked_uids (w_db w) aid folder v). account_linked name (imap_identity folder v uid) ?d"
    by (blast intro: account_linkedI)
  with Some show ?thesis
    by (simp add: refresh_uids_def wp_seq wp_read wp_transaction) (simp add: wp_def)
qed (simp add: refresh_uids_def wp_seq wp_read)

text \<open>So many UIDs of one UIDVALIDITY, each linked in the account.\<close>

definition mailbox_linked :: "string \<Rightarrow> string \<Rightarrow> nat \<Rightarrow> 's net station \<Rightarrow> bool" where
  "mailbox_linked name folder n u \<longleftrightarrow> (\<exists>v uids. distinct uids \<and> length uids = n \<and>
     (\<forall>uid \<in> set uids. imap_linked name folder v uid u))"

lemma mailbox_linked_lasts: "keeps_bindings w u \<Longrightarrow> mailbox_linked name folder n w \<Longrightarrow> mailbox_linked name folder n u"
  unfolding mailbox_linked_def using imap_linked_lasts by blast

lemma wp_import_mailbox:
  fixes X :: "'s outside"
  assumes "distinct uids"
  shows "wp (import_mailbox X cfg name folder v uids) (\<lambda>r. mailbox_linked name folder (fst r)) (\<lambda>e v. True) w"
proof -
  let ?K = "\<lambda>known u. \<forall>uid \<in> set known. imap_linked name folder v uid u"
  have loop: "wp (seq (for_each (import_uid X cfg name folder v observed) (filter (\<lambda>uid. uid \<notin> set known) uids))
      (\<lambda>results. ret (length uids, results))) (\<lambda>r. mailbox_linked name folder (fst r)) (\<lambda>e v. True) u"
    if "?K known u" for observed known u
  proof -
    let ?loop = "for_each (import_uid X cfg name folder v observed) (filter (\<lambda>uid. uid \<notin> set known) uids)"
    have "wp ?loop (\<lambda>ys z. \<forall>uid \<in> set (filter (\<lambda>uid. uid \<notin> set known) uids). imap_linked name folder v uid z)
        (\<lambda>e v. True) u"
      by (rule wp_for_each_lasting [where K = "\<lambda>z. True"])
        (auto intro: wp_import_uid binding_import_uid imap_linked_lasts)
    moreover have "wp ?loop (\<lambda>ys. ?K known) (\<lambda>e v. True) u"
      by (rule wp_keeping [OF binding.loop [OF binding_import_uid]]) (use that imap_linked_lasts in blast)+
    ultimately have "wp ?loop (\<lambda>ys z. (\<forall>uid \<in> set (filter (\<lambda>uid. uid \<notin> set known) uids). imap_linked name folder v uid z)
        \<and> ?K known z) (\<lambda>e v. True \<and> True) u" by (rule wp_both)
    then show ?thesis
      unfolding wp_seq wp_ret
      by (rule wp_mono) (use assms in \<open>auto simp: mailbox_linked_def\<close>)
  qed
  show ?thesis
    unfolding import_mailbox_def
    by (rule wp_seq_any, subst wp_seq, rule wp_mono [OF wp_refresh_uids]) (auto intro: loop)
qed

lemma discovered_distinct: "discovered r = Inr uids \<Longrightarrow> distinct uids"
  by (auto simp: discovered_def rbind_Inr split: prod.split_asm list.split_asm imap_item.split_asm if_splits)

lemma wp_open_mailbox: "wp (open_mailbox P c password folder) (\<lambda>box t. distinct (snd box)) (\<lambda>e t. True) s"
proof -
  have part: "wp (seq (lift_result (discovered r)) (\<lambda>uids. ret (v, uids))) (\<lambda>box t. distinct (snd box)) (\<lambda>e t. True) t"
    for r :: "string \<times> imap_item list" and v :: int and t :: "'a net"
    by (auto simp: wp_rules dest: discovered_distinct split: sum.split)
  show ?thesis unfolding open_mailbox_def by (rule part | rule wp_seq_any)+
qed

lemma wp_imap_locked:
  "wp (imap_sync_locked X cfg c password name folder) (\<lambda>r. mailbox_linked name folder (fst r)) (\<lambda>e v. True) w"
proof -
  let ?Q = "\<lambda>r :: nat \<times> (canonical_message \<times> bool) list. mailbox_linked name folder (fst r)"
  have "wp (seq (on_net (open_mailbox (ou_peer X) c password folder)) (\<lambda>box.
      import_mailbox X cfg name folder (fst box) (snd box))) ?Q (\<lambda>e v. True) v" for v
    unfolding wp_seq
    by (rule wp_mono [OF wp_on_net [where Q = "\<lambda>box. distinct (snd box)"]])
      (auto intro: wp_open_mailbox wp_import_mailbox)
  note opened = this
  have "wp (on_net (imap_logout (ou_peer X))) (\<lambda>u. ?Q r) (\<lambda>e v. True) v" if "?Q r v" for r v
    using binding_on_net that mailbox_linked_lasts by (rule wp_keeping)
  then have session: "wp (finalize (attempt (seq (on_net (open_mailbox (ou_peer X) c password folder)) (\<lambda>box.
      import_mailbox X cfg name folder (fst box) (snd box))) (\<lambda>e. True) (\<lambda>e. seq (audit e) (\<lambda>u. fail e)))
      (on_net (imap_logout (ou_peer X)))) ?Q (\<lambda>e v. True) v" for audit v
    by (rule wp_finalize_return [OF wp_reraise [OF opened]])
  show ?thesis
    unfolding imap_sync_locked_def
  proof (rule wp_seq_any, rule wp_seq_any, subst wp_seq, rule wp_mono [OF session])
    fix r and v assume v: "?Q r v"
    have "leads keeps_bindings (acquisition_audit (ou_host X) imap_actor name ''imap.sync.succeeded'' ''success'' d)" for d
      by (rule binding.auditing)
    then show "wp (seq (acquisition_audit (ou_host X) imap_actor name ''imap.sync.succeeded'' ''success''
       [(''folder'', JStr folder), (''remote_seen'', JInt (int (fst r))),
        (''fetched'', JInt (int (length (snd r)))),
        (''imported'', JInt (int (length (filter snd (snd r)))))]) (\<lambda>u. ret r)) ?Q (\<lambda>e v. True) v"
      unfolding wp_seq wp_ret using v mailbox_linked_lasts by (rule wp_keeping)
  qed simp
qed


end
