(* ===== verification/ArchiveWitness.thy ===== *)
theory ArchiveWitness
  imports Classification Samples
begin

text \<open>Concrete stations on which the hypotheses of the archive's properties hold.\<close>

definition calm_system :: system where
  "calm_system = \<lparr>sy_event = (\<lambda>k. Normal), sy_name = (\<lambda>k. ''x'')\<rparr>"

definition plain_parser :: mail_parser where
  "plain_parser = \<lparr>mp_headers = (\<lambda>b. Inr (NoHeader, HeaderText ''D'')),
     mp_date = (\<lambda>s. Inr (Zoned datetime_max (- 3600000000)))\<rparr>"

definition dateless_parser :: mail_parser where
  "dateless_parser = \<lparr>mp_headers = (\<lambda>b. Inr (HeaderText ''i'', NoHeader)), mp_date = (\<lambda>s. Inr Unzoned)\<rparr>"

definition station_of :: "db \<Rightarrow> fs \<Rightarrow> unit station" where
  "station_of d F = \<lparr>w_db = d, w_fs = F, w_tick = 0,
     w_net = \<lparr>dk_calls = 0, dk_past = [], dk_rest = ()\<rparr>\<rparr>"

definition empty_station :: "unit station" where
  "empty_station = station_of empty_db (\<lambda>p. None)"

theorem unrepresentable_date_refuses_message_witness:
  "ingest_bytes calm_system sample_host plain_parser sample_config ''x'' ''a'' ''file'' empty_station =
     (Inl OverflowError, empty_station)"
  by (rule unrepresentable_date_refuses_message [where a = sample_account_config and s = "''D''"
        and t = datetime_max and offset = "- 3600000000" and mid = NoHeader])
    (simp_all add: plain_parser_def config_account_def sample_config_def sample_account_config_def)

definition staging_path :: path where
  "staging_path = [''r'', ''staging'', ''a'', ''cur'', ''m.eml'']"

definition pending_message :: canonical_message where
  "pending_message = sample_canonical\<lparr>cm_local_path := staging_path, cm_storage_state := Pending,
     cm_archived_at := None, cm_integrity_verified_at := Some ''1''\<rparr>"

definition pending_db :: db where
  "pending_db = sample_db\<lparr>canonical_messages := [pending_message], classifications := []\<rparr>"

definition pending_fs :: fs where
  "pending_fs = Map.empty(staging_path \<mapsto> RegFile ''x'', parent staging_path \<mapsto> Directory)"

definition pending_station :: "unit station" where
  "pending_station = station_of pending_db pending_fs"

definition sample_admission :: "(canonical_message \<times> bool) result \<times> unit station" where
  "sample_admission = ingest_bytes calm_system sample_host dateless_parser sample_config ''y'' ''a'' ''file'' pending_station"

theorem ingest_keeps_files_and_stores_exact_bytes_witness:
  "w_fs (snd sample_admission) staging_path = Some (RegFile ''x'')"
proof -
  obtain r u where run: "sample_admission = (r, u)" by fastforce
  then have "ingest_bytes calm_system sample_host dateless_parser sample_config ''y'' ''a'' ''file'' pending_station = (r, u)"
    by (simp add: sample_admission_def)
  from ingest_keeps_files_and_stores_exact_bytes [OF this]
  have "keeps_files (w_fs pending_station) {} (w_fs u)"
    by (simp add: pending_station_def station_of_def)
  moreover have "w_fs pending_station staging_path = Some (RegFile ''x'')"
    by (simp add: pending_station_def station_of_def pending_fs_def parent_def staging_path_def)
  ultimately show ?thesis by (simp add: run keeps_files_def)
qed

definition timed_out :: classifier where
  "timed_out k raw = HttpTimeout"

definition quarantine_path :: path where
  "quarantine_path = state_path sample_config ''a'' sample_sha Quarantined"

theorem classify_pending_completes_witness:
  "\<exists>m' u. classify_pending calm_system sample_host timed_out sample_config pending_message pending_station = (Inr m', u) \<and>
     w_fs u quarantine_path = Some (RegFile ''x'')"
proof -
  let ?r = "rspamd_verdict Suspect None ''classifier-timeout''"
  have "\<exists>m' u. classify_pending calm_system sample_host timed_out sample_config pending_message pending_station = (Inr m', u) \<and>
      cm_storage_state m' = Quarantined \<and> cm_local_path m' = quarantine_path \<and> w_fs u quarantine_path = Some (RegFile ''x'') \<and>
      w_fs u (cm_local_path pending_message) = None \<and>
      settled_row pending_message quarantine_path Quarantined (w_db pending_station) (w_db u)"
  proof (rule classify_pending_completes [where result = ?r and a = "hd (accounts sample_db)"])
    show "ready sample_host pending_message quarantine_path ''x'' (w_fs pending_station)" by code_simp
    show "filter (\<lambda>c. cm_id c = cm_id pending_message) (canonical_messages (w_db pending_station)) = [pending_message]"
      by (simp add: pending_station_def station_of_def pending_db_def)
    show "\<forall>c\<in>set (canonical_messages (w_db pending_station)).
       cm_id c \<noteq> cm_id pending_message \<longrightarrow> cm_local_path c \<noteq> quarantine_path"
      by (simp add: pending_station_def station_of_def pending_db_def)
    show "\<forall>k. rspamd_classify (timed_out k ''x'') = Inr ?r"
      by (simp add: timed_out_def rspamd_classify_def)
    show "find (\<lambda>a. ar_id a = cm_account_id pending_message) (accounts (w_db pending_station)) = Some (hd (accounts sample_db))"
      by code_simp
    show "quarantine_path = state_path sample_config (ar_name (hd (accounts sample_db))) (cm_sha256 pending_message) Quarantined"
      by code_simp
    show "canonical_check pending_message" by code_simp
    show "cm_storage_state pending_message = Pending" by (simp add: pending_message_def)
    show "calm calm_system" by (simp add: calm_def calm_system_def)
    show "Quarantined = (if effective_auto_result (w_db pending_station) pending_message ?r = Ham then Archived else Quarantined)"
      by code_simp
  qed
  then show ?thesis by blast
qed

definition sample_transition :: "canonical_message result \<times> unit station" where
  "sample_transition = apply_classification calm_system sample_host sample_config pending_message
     (rspamd_verdict Suspect None ''classifier-timeout'') False pending_station"

theorem transition_never_loses_bytes_witness:
  "held_somewhere sample_host sample_sha staging_path quarantine_path (w_fs (snd sample_transition))"
proof -
  obtain r u where run: "sample_transition = (r, u)" by fastforce
  have "apply_classification calm_system sample_host sample_config pending_message
     (rspamd_verdict Suspect None ''classifier-timeout'') False pending_station = (r, u)"
    using run by (simp add: sample_transition_def)
  then have "(\<forall>F \<in> insert (w_fs u) (fst ` set (dk_past (w_net u))).
      held_somewhere sample_host (cm_sha256 pending_message) (cm_local_path pending_message) quarantine_path F \<and>
      keeps_files (w_fs pending_station) {cm_local_path pending_message} F) \<and>
    (case r of
       Inr m' \<Rightarrow> cm_local_path m' = quarantine_path \<and> cm_storage_state m' = Quarantined \<and>
         intact sample_host (cm_sha256 pending_message) quarantine_path (w_fs u) \<and>
         settled_row pending_message quarantine_path Quarantined (w_db pending_station) (w_db u)
     | Inl e \<Rightarrow> w_db u = w_db pending_station)"
  proof (rule transition_never_loses_bytes [where a = "hd (accounts sample_db)"])
    show "dk_past (w_net pending_station) = []" by (simp add: pending_station_def station_of_def)
    show "intact sample_host (cm_sha256 pending_message) (cm_local_path pending_message) (w_fs pending_station)" by code_simp
    show "find (\<lambda>a. ar_id a = cm_account_id pending_message) (accounts (w_db pending_station)) = Some (hd (accounts sample_db))"
      by code_simp
    show "Quarantined = (if (if False then cr_classification (rspamd_verdict Suspect None ''classifier-timeout'')
        else effective_auto_result (w_db pending_station) pending_message (rspamd_verdict Suspect None ''classifier-timeout'')) = Ham
        then Archived else Quarantined)" by code_simp
    show "quarantine_path = state_path sample_config (ar_name (hd (accounts sample_db))) (cm_sha256 pending_message) Quarantined"
      by code_simp
  qed
  then show ?thesis
    by (simp add: run pending_message_def sample_canonical_def)
qed

lemma sample_classification_returns:
  "\<not> isl (fst (classify_pending calm_system sample_host timed_out sample_config pending_message pending_station))"
  by code_simp

theorem crash_strands_pending_message_witness:
  "\<exists>F v. reconcile_one calm_system sample_host timed_out sample_config (cm_id pending_message) (station_of pending_db F) = (Inr [], v) \<and>
     canonical_messages (w_db v) = [pending_message] \<and>
     (F, pending_db) \<in> set (dk_past (w_net (snd
       (classify_pending calm_system sample_host timed_out sample_config pending_message pending_station))))"
proof -
  obtain m' u where run: "classify_pending calm_system sample_host timed_out sample_config pending_message pending_station = (Inr m', u)"
    using sample_classification_returns
    by (cases "classify_pending calm_system sample_host timed_out sample_config pending_message pending_station";
        cases "fst (classify_pending calm_system sample_host timed_out sample_config pending_message pending_station)") auto
  have calm: "calm calm_system" by (simp add: calm_def calm_system_def)
  have db: "w_db pending_station = pending_db" by (simp add: pending_station_def station_of_def)
  have "\<exists>F. (F, w_db pending_station) \<in> set (dk_past (w_net u)) \<and>
    (\<forall>S' K' w'. calm S' \<and> w_fs w' = F \<and> w_db w' = w_db pending_station \<longrightarrow>
       (\<exists>v. reconcile_one S' sample_host K' sample_config (cm_id pending_message) (w' :: unit station) = (Inr [], v) \<and>
         canonical_messages (w_db v) = canonical_messages (w_db pending_station) \<and> w_fs v = F))"
  proof (rule crash_strands_pending_message [OF run calm])
    show "cm_storage_state pending_message = Pending" by (simp add: pending_message_def)
    show "canonical_message_by_id (w_db pending_station) (cm_id pending_message) = Some pending_message"
      by (simp add: db pending_db_def canonical_message_by_id_def)
    show "\<forall>name. cm_local_path pending_message \<noteq> state_path sample_config name (cm_sha256 pending_message) Archived \<and>
        cm_local_path pending_message \<noteq> state_path sample_config name (cm_sha256 pending_message) Quarantined"
      by (simp add: pending_message_def staging_path_def state_path_def sample_config_def)
  qed
  then obtain F where F: "(F, pending_db) \<in> set (dk_past (w_net u))"
    and stuck: "\<And>w'. w_fs w' = F \<Longrightarrow> w_db w' = pending_db \<Longrightarrow>
      \<exists>v. reconcile_one calm_system sample_host timed_out sample_config (cm_id pending_message) (w' :: unit station) = (Inr [], v) \<and>
         canonical_messages (w_db v) = canonical_messages pending_db \<and> w_fs v = F"
    using calm unfolding db by blast
  from stuck [of "station_of pending_db F"] F run show ?thesis
    by (auto simp: station_of_def pending_db_def)
qed

end
