(* ===== verification/AcquireWitness.thy ===== *)
theory AcquireWitness
  imports Pop3Sync ImapSync ArchiveWitness
begin

text \<open>A POP3 server with one message and an archive that has linked it, for the acquisition's properties.\<close>

definition said :: "string \<Rightarrow> reply result \<times> unit" where
  "said s = (Inr (Chunks [take 3 s, drop 3 s]), ())"

definition pop3_server :: "unit peer" where
  "pop3_server c s = (case c of
     SockConnect h p t \<Rightarrow> said (''+OK ready'' @ CRLF)
   | SockSend b \<Rightarrow>
       if starts_with ''UIDL'' b then said (''+OK'' @ CRLF @ ''1 abc'' @ CRLF @ ''.'' @ CRLF)
       else if starts_with ''RETR'' b then said (''+OK'' @ CRLF @ ''..x'' @ CRLF @ ''.'' @ CRLF)
       else said (''+OK'' @ CRLF)
   | _ \<Rightarrow> (Inr Done, ()))"

definition idle_net :: "unit net" where
  "idle_net = \<lparr>nt_trace = [], nt_client = False, nt_sock = True, nt_queue = [], nt_buffer = [],
     nt_commands = [], nt_labels = [], nt_peer = ()\<rparr>"

text \<open>The message is one line, a dot and a letter; the server doubles the dot.\<close>

theorem retr_returns_exact_octets_witness:
  "\<exists>t. acq_retr pop3_server 1 idle_net = (Inr (''.x'' @ CRLF), t) \<and> awaiting [] t"
proof -
  have "accepted_by pop3_server (''RETR '' @ int_text 1) idle_net (stuffed (''.x'' @ CRLF) @ [])"
    unfolding accepted_by_def
  proof (intro exI conjI)
    show "pop3_server (SockSend ((''RETR '' @ int_text 1) @ CRLF)) (nt_peer idle_net) =
        (Inr (Chunks [''+OK'', CRLF @ ''..x'' @ CRLF @ ''.'' @ CRLF]), ())"
      by code_simp
    show "[] \<notin> set [''+OK'', CRLF @ ''..x'' @ CRLF @ ''.'' @ CRLF]" by simp
    show "crlf_free (''+OK'' @ [])" by code_simp
    show "concat [''+OK'', CRLF @ ''..x'' @ CRLF @ ''.'' @ CRLF] = ''+OK'' @ [] @ CRLF @ stuffed (''.x'' @ CRLF) @ []"
      by code_simp
  qed
  moreover have "quiet idle_net" "whole_lines (''.x'' @ CRLF)" by code_simp+
  ultimately show ?thesis using retr_returns_exact_octets [of idle_net 1 "''.x'' @ CRLF" pop3_server "[]"]
    by simp
qed

definition pop_account :: account_config where
  "pop_account = sample_account_config\<lparr>ac_kind := Pop3, ac_config_ref := ''env:P'', ac_imap := None,
     ac_pop3 := Some \<lparr>pc_host = ''h'', pc_port = 110, pc_username = ''u'', pc_tls_mode = INSECURE_LOOPBACK,
       pc_connection_timeout_seconds = 30\<rparr>\<rparr>"

definition pop_config :: app_config where
  "pop_config = sample_config\<lparr>cf_accounts := [pop_account]\<rparr>"

definition pop_db :: db where
  "pop_db = sample_db\<lparr>remote_messages := [pop3_row sample_host 1 ''abc'' None ''1''],
     remote_canonical_links := [\<lparr>lk_remote_message_id = rm_id (pop3_row sample_host 1 ''abc'' None ''1''),
       lk_canonical_message_id = ''c'', lk_link_reason = ''x'', lk_created_at = ''1''\<rparr>]\<rparr>"

definition pop_station :: "unit net station" where
  "pop_station = \<lparr>w_db = pop_db, w_fs = sample_fs, w_tick = 0,
     w_net = \<lparr>dk_calls = 0, dk_past = [], dk_rest = idle_net\<rparr>\<rparr>"

definition pop_outside :: "unit outside" where
  "pop_outside = \<lparr>ou_system = calm_system, ou_host = sample_host\<lparr>h_environ := (\<lambda>v. Some ''s'')\<rparr>,
     ou_parser = dateless_parser, ou_classifier = timed_out, ou_peer = pop3_server,
     ou_class_name = (\<lambda>e. ''E'')\<rparr>"

lemma pop_run: "fst (pop3_sync pop_outside pop_config ''a'' pop_station) =
    Inr \<lparr>ps_seen = 1, ps_imported = 0, ps_reused = 0, ps_provider_identities = 1\<rparr>"
  by code_simp

theorem pop3_sync_binds_every_uidl_witness:
  "\<exists>res u. pop3_sync pop_outside pop_config ''a'' pop_station = (Inr res, u) \<and> ps_seen res = 1 \<and> all_linked ''a'' 1 u"
proof -
  obtain r u where run: "pop3_sync pop_outside pop_config ''a'' pop_station = (r, u)" by fastforce
  with pop_run have "r = Inr \<lparr>ps_seen = 1, ps_imported = 0, ps_reused = 0, ps_provider_identities = 1\<rparr>" by simp
  with pop3_sync_binds_every_uidl [OF run] run show ?thesis by auto
qed

theorem pop3_sync_is_read_only_witness:
  "list_all (\<lambda>x. read_only_pop3 (fst x))
     (nt_trace (dk_rest (w_net (snd (pop3_sync pop_outside pop_config ''a'' pop_station)))))"
proof -
  obtain r u where run: "pop3_sync pop_outside pop_config ''a'' pop_station = (r, u)" by fastforce
  from pop3_sync_is_read_only [OF run] run show ?thesis
    by (auto simp: extends_def pop_station_def idle_net_def)
qed

text \<open>A mailbox whose one message is linked.\<close>

definition imap_server :: "unit peer" where
  "imap_server c s = (case c of
     ImapResponse k \<Rightarrow> (Inr (Status ''OK'' [IBytes ''7'']), ())
   | ImapUid verb args \<Rightarrow> (Inr (Status ''OK'' [IBytes ''8'']), ())
   | ImapLogin u p \<Rightarrow> (Inr (Status ''OK'' []), ())
   | ImapSelect m ro \<Rightarrow> (Inr (Status ''OK'' []), ())
   | _ \<Rightarrow> (Inr Done, ()))"

definition mailbox_config :: app_config where
  "mailbox_config = sample_config\<lparr>cf_accounts := [sample_account_config\<lparr>ac_config_ref := ''env:P''\<rparr>]\<rparr>"

definition mailbox_station :: "unit net station" where
  "mailbox_station = pop_station\<lparr>w_db := sample_db\<rparr>"

definition mailbox_outside :: "unit outside" where
  "mailbox_outside = pop_outside\<lparr>ou_peer := imap_server\<rparr>"

text \<open>The run of the mailbox's synchronization, step by step.\<close>

abbreviation mailbox_settings :: imap_config where
  "mailbox_settings \<equiv> the (ac_imap sample_account_config)"

abbreviation mailbox_host :: host where
  "mailbox_host \<equiv> ou_host mailbox_outside"

definition mailbox_lock :: path where
  "mailbox_lock = [''r'', ''state'', ''locks'', ''imap-'' @ replicate 16 CHR ''a'' @ ''.lock'']"

definition station1 :: "unit net station" where
  "station1 = snd (transaction (initialize mailbox_host (cf_accounts mailbox_config) []) mailbox_station)"

definition station2 :: "unit net station" where
  "station2 = snd (on_net (issue imap_server (TryLock mailbox_lock)) station1)"

definition station3 :: "unit net station" where
  "station3 = snd (acquisition_audit mailbox_host imap_actor ''a'' ''imap.sync.started'' ''started'' [(''folder'', JStr ''F'')] station2)"

definition station4 :: "unit net station" where
  "station4 = snd (on_net (bind_client False) station3)"

definition station5 :: "unit net station" where
  "station5 = snd (on_net (open_mailbox imap_server mailbox_settings ''s'' ''F'') station4)"

definition station6 :: "unit net station" where
  "station6 = snd (import_mailbox mailbox_outside mailbox_config ''a'' ''F'' 7 [8] station5)"

lemma mailbox_steps:
  "transaction (initialize mailbox_host (cf_accounts mailbox_config) []) mailbox_station = (Inr (), station1)"
  "reconcile_pending calm_system mailbox_host timed_out mailbox_config (Some ''a'') None station1 = (Inr [], station1)"
  "folder_lock_path mailbox_host mailbox_config (hd (cf_accounts mailbox_config)) ''F'' = Inr mailbox_lock"
  "on_net (issue imap_server (TryLock mailbox_lock)) station1 = (Inr Done, station2)"
  "acquisition_audit mailbox_host imap_actor ''a'' ''imap.sync.started'' ''started'' [(''folder'', JStr ''F'')] station2 = (Inr (), station3)"
  "on_net (bind_client False) station3 = (Inr (), station4)"
  "on_net (open_mailbox imap_server mailbox_settings ''s'' ''F'') station4 = (Inr (7, [8]), station5)"
  "import_mailbox mailbox_outside mailbox_config ''a'' ''F'' 7 [8] station5 = (Inr (1, []), station6)"
proof -
  have "fst (transaction (initialize mailbox_host (cf_accounts mailbox_config) []) mailbox_station) = Inr ()" by code_simp
  then show "transaction (initialize mailbox_host (cf_accounts mailbox_config) []) mailbox_station = (Inr (), station1)"
    by (simp add: station1_def prod_eq_iff)
  have "pending_ids (w_db station1) (Some ''a'') None = []" by code_simp
  then show "reconcile_pending calm_system mailbox_host timed_out mailbox_config (Some ''a'') None station1 = (Inr [], station1)"
    by (simp add: reconcile_pending_def run_simps)
  show "folder_lock_path mailbox_host mailbox_config (hd (cf_accounts mailbox_config)) ''F'' = Inr mailbox_lock"
    by code_simp
  have "fst (on_net (issue imap_server (TryLock mailbox_lock)) station1) = Inr Done" by code_simp
  then show "on_net (issue imap_server (TryLock mailbox_lock)) station1 = (Inr Done, station2)"
    by (simp add: station2_def prod_eq_iff)
  show "acquisition_audit mailbox_host imap_actor ''a'' ''imap.sync.started'' ''started'' [(''folder'', JStr ''F'')] station2 = (Inr (), station3)"
    by (simp add: station3_def acquisition_audit_def transaction_def run_simps)
  show "on_net (bind_client False) station3 = (Inr (), station4)"
    by (simp add: station4_def on_net_def bind_client_def run_simps)
  have "fst (on_net (open_mailbox imap_server mailbox_settings ''s'' ''F'') station4) = Inr (7, [8])" by code_simp
  then show "on_net (open_mailbox imap_server mailbox_settings ''s'' ''F'') station4 = (Inr (7, [8]), station5)"
    by (simp add: station5_def prod_eq_iff)
  have "fst (import_mailbox mailbox_outside mailbox_config ''a'' ''F'' 7 [8] station5) = Inr (1, [])" by code_simp
  then show "import_mailbox mailbox_outside mailbox_config ''a'' ''F'' 7 [8] station5 = (Inr (1, []), station6)"
    by (simp add: station6_def prod_eq_iff)
qed

lemma audit_returns: "\<exists>v. acquisition_audit H actor name e r d w = (Inr (), v)"
  by (simp add: acquisition_audit_def transaction_def run_simps)

lemma logout_returns: "\<exists>v. on_net (imap_logout imap_server) w = (Inr (), v)"
  by (auto simp: on_net_def imap_logout_def command_done_def issue_def imap_server_def run_simps
      split: prod.split)

lemma unlock_returns: "\<exists>v. on_net (command_done imap_server (Unlock p)) w = (Inr (), v)"
  by (auto simp: on_net_def command_done_def issue_def imap_server_def run_simps split: prod.split)

lemma mailbox_run: "\<exists>u. imap_sync mailbox_outside mailbox_config ''a'' ''F'' mailbox_station = (Inr (1, []), u)"
proof -
  let ?a = "hd (cf_accounts mailbox_config)"
  obtain u1 where logout: "on_net (imap_logout imap_server) station6 = (Inr (), u1)"
    using logout_returns by blast
  obtain u2 where audit: "acquisition_audit mailbox_host imap_actor ''a'' ''imap.sync.succeeded'' ''success''
      [(''folder'', JStr ''F''), (''remote_seen'', JInt 1), (''fetched'', JInt 0), (''imported'', JInt 0)] u1 = (Inr (), u2)"
    using audit_returns by blast
  obtain u3 where unlock: "on_net (command_done imap_server (Unlock mailbox_lock)) u2 = (Inr (), u3)"
    using unlock_returns by blast
  have session: "imap_sync_locked mailbox_outside mailbox_config mailbox_settings ''s'' ''a'' ''F'' station2 = (Inr (1, []), u2)"
    using logout audit
    by (simp add: imap_sync_locked_def seq_def finalize_def attempt_def ret_def mailbox_steps
        mailbox_outside_def [THEN arg_cong [where f = ou_peer], simplified])
  have "locked imap_server mailbox_lock ImapSyncBusyError
      (imap_sync_locked mailbox_outside mailbox_config mailbox_settings ''s'' ''a'' ''F'') station1 = (Inr (1, []), u3)"
    using session unlock by (simp add: locked_def seq_def finalize_def mailbox_steps)
  moreover have "config_account mailbox_config ''a'' = Some ?a" "ac_enabled ?a" "ac_kind ?a = Imap"
    "ac_imap ?a = Some mailbox_settings" "''F'' \<in> set (ic_folders mailbox_settings)"
    "credential_variable (ac_config_ref ?a) = Inr ''P''" "h_environ mailbox_host ''P'' = Some ''s''"
    by code_simp+
  moreover have "ou_peer mailbox_outside = imap_server" "ou_system mailbox_outside = calm_system"
    "ou_classifier mailbox_outside = timed_out"
    by (simp_all add: mailbox_outside_def pop_outside_def)
  ultimately show ?thesis
    by (simp add: imap_sync_def seq_def require_def ret_def lift_result_def mailbox_steps)
qed


end
