(* ===== verification/GmailWitness.thy ===== *)
theory GmailWitness
  imports GmailOutcome AcquireWitness
begin

text \<open>
  A Gmail mailbox whose one message, linked in the archive, was deleted since the last checkpoint, and
  the run that learns of it.
\<close>

definition gmail_body :: "string \<Rightarrow> (string \<times> pyval) list" where
  "gmail_body url =
     (if url = ''profile'' then [(''emailAddress'', VStr ''a@b'')]
      else if url = ''labels'' then [(''labels'', VList [])]
      else [(''historyId'', VStr ''9''), (''history'', VList [VDict [(VStr ''messagesDeleted'',
        VList [VDict [(VStr ''message'', VDict [(VStr ''id'', VStr ''m'')])]])]])])"

definition gmail_object :: "string \<Rightarrow> (pyval \<times> pyval) list" where
  "gmail_object url = map (\<lambda>(k, v). (VStr k, v)) (gmail_body url)"

definition gmail_server :: "unit peer" where
  "gmail_server c s = (case c of
     CredValid \<Rightarrow> (Inr (Flag True), ())
   | CredToken \<Rightarrow> (Inr (Text (Some ''t'')), ())
   | HttpGet url params token \<Rightarrow> (Inr (Http 200 (Some (VDict (gmail_object url)))), ())
   | _ \<Rightarrow> (Inr Done, ()))"

definition gmail_settings :: gmail_config where
  "gmail_settings = \<lparr>gc_account_email = ''a@b'', gc_oauth_client_secret_file = [''s''],
     gc_poll_interval_seconds = 90, gc_remote_delete_token_file = None\<rparr>"

definition gmail_account :: account_config where
  "gmail_account = sample_account_config\<lparr>ac_kind := Gmail, ac_config_ref := ''file:/t'', ac_imap := None,
     ac_gmail := Some gmail_settings\<rparr>"

definition gmail_mail_config :: app_config where
  "gmail_mail_config = sample_config\<lparr>cf_accounts := [gmail_account]\<rparr>"

definition gmail_state_row :: sync_state_row where
  "gmail_state_row = \<lparr>ss_account_id = 1, ss_history_id = Some ''5'', ss_full_sync_required = False,
     ss_last_sync_started_at = None, ss_last_sync_succeeded_at = None, ss_last_full_sync_succeeded_at = None,
     ss_last_partial_sync_succeeded_at = None, ss_last_error_at = None, ss_last_error_kind = None,
     ss_updated_at = ''1''\<rparr>"

definition gmail_db :: db where
  "gmail_db = sample_db\<lparr>remote_messages := [gmail_row 1 ''m'' None None ''1''],
     remote_canonical_links := [\<lparr>lk_remote_message_id = rm_id (gmail_row 1 ''m'' None None ''1''),
       lk_canonical_message_id = ''c'', lk_link_reason = ''x'', lk_created_at = ''1''\<rparr>],
     gmail_sync_state := [gmail_state_row]\<rparr>"

definition gmail_station :: "unit net station" where
  "gmail_station = pop_station\<lparr>w_db := gmail_db\<rparr>"

definition gmail_out :: "unit gmail_outside" where
  "gmail_out = \<lparr>ou_system = calm_system, ou_host = sample_host, ou_parser = dateless_parser,
     ou_classifier = timed_out, ou_peer = gmail_server, ou_class_name = (\<lambda>e. ''E''),
     go_token = (\<lambda>p. Token (VDict [(VStr ''scopes'', VList [VStr GMAIL_READONLY_SCOPE])]) True),
     go_pages = 3\<rparr>"

section \<open>The run, step by step\<close>

text \<open>\<open>yields m x w\<close>: from \<open>w\<close> the program returns \<open>x\<close>, with the database as it was.\<close>

definition yields :: "(unit net station, 'a) prog \<Rightarrow> 'a \<Rightarrow> unit net station \<Rightarrow> bool" where
  "yields m x w \<longleftrightarrow> wp m (\<lambda>y v. y = x \<and> w_db v = w_db w) (\<lambda>e v. False) w"

lemma server_get: "wp (gmail_get gmail_server G op url params) (\<lambda>kvs t. kvs = gmail_object url) (\<lambda>e t. False) s"
proof -
  have "wp (session_get gmail_server G url params) (\<lambda>r t. r = (200, Some (VDict (gmail_object url)))) (\<lambda>e t. False) s" for s
    by (simp add: session_get_def access_token_def http_request_def wp_rules wp_def issue_def gmail_server_def run_simps)
  then have "wp (get_attempts (session_get gmail_server G url params) op 2)
      (\<lambda>r t. r = (200, Some (VDict (gmail_object url)))) (\<lambda>e t. False) s" for s
    unfolding numeral_2_eq_2 get_attempts.simps wp_seq wp_attempt
    by (rule wp_mono) (auto simp: wp_rules transient_def)
  then show ?thesis
    unfolding gmail_get_def wp_seq by (rule wp_mono) (auto simp: wp_rules get_result_def transient_def)
qed

lemma server_answers:
  assumes "\<And>s. wp m (\<lambda>x t. x = y) (\<lambda>e t. False) s"
  shows "yields (on_net m) y w"
  using assms [of "dk_rest (w_net w)"]
  by (auto simp: yields_def wp_def on_net_def split: prod.splits sum.splits)

lemma yields_seq: "yields m x w \<Longrightarrow> (\<And>v. w_db v = w_db w \<Longrightarrow> wp (f x) Q E v) \<Longrightarrow> wp (seq m f) Q E w"
  unfolding yields_def wp_seq by (erule wp_mono) auto

lemma server_steps:
  "yields (on_net (verify_profile gmail_server G gmail_settings)) ''a@b'' w"
  "yields (on_net (read_history 3 gmail_server G ''5''))
     \<lparr>ch_affected = [''m''], ch_deleted = [''m''], ch_end = VStr ''9''\<rparr> w"
  "yields (on_net (get_labels gmail_server G)) (gmail_object ''labels'') w"
  "yields (on_net (write_state (\<lambda>s. s\<lparr>nt_labels := l\<rparr>))) () w"
  "yields (on_net (issue gmail_server (TryLock p))) Done w"
proof -
  show "yields (on_net (get_labels gmail_server G)) (gmail_object ''labels'') w"
    unfolding get_labels_def by (rule server_answers [OF server_get])
  have email: "valid_id (dict_get_or (gmail_object ''profile'') ''emailAddress'' VNull) ''profile email'' = Inr ''a@b''"
    "casefold ''a@b'' = casefold (gc_account_email gmail_settings)"
    by code_simp+
  show "yields (on_net (verify_profile gmail_server G gmail_settings)) ''a@b'' w"
    unfolding verify_profile_def get_profile_def wp_seq
    by (rule server_answers, unfold wp_seq, rule wp_mono [OF server_get]) (auto simp: wp_rules email)
  have page: "history_id (VStr ''5'') = Inr ''5''" "history_page (gmail_object ''history'') no_changes =
      Inr (\<lparr>ch_affected = [''m''], ch_deleted = [''m''], ch_end = VStr ''9''\<rparr>, None)"
    by code_simp+
  have "wp (history_round gmail_server G ''5'' None no_changes)
      (\<lambda>r t. r = (\<lparr>ch_affected = [''m''], ch_deleted = [''m''], ch_end = VStr ''9''\<rparr>, None)) (\<lambda>e t. False) s" for s
    unfolding history_round_def get_history_def wp_seq wp_lift page(1) sum.case
    by (rule wp_mono [OF server_get]) (auto simp: wp_rules page(2))
  then show "yields (on_net (read_history 3 gmail_server G ''5''))
     \<lparr>ch_affected = [''m''], ch_deleted = [''m''], ch_end = VStr ''9''\<rparr> w"
    unfolding read_history_def listing_def numeral_3_eq_3 paged.simps
    by (intro server_answers) (unfold wp_seq, rule wp_mono, assumption, auto simp: wp_rules)
  show "yields (on_net (write_state (\<lambda>s. s\<lparr>nt_labels := l\<rparr>))) () w"
    by (rule server_answers) (simp add: wp_rules)
  show "yields (on_net (issue gmail_server (TryLock p))) Done w"
    by (rule server_answers) (simp add: wp_def issue_def gmail_server_def)
qed

definition gmail_station1 :: "unit net station" where
  "gmail_station1 = snd (transaction (initialize sample_host (cf_accounts gmail_mail_config) []) gmail_station)"

lemma gmail_station1:
  "transaction (initialize sample_host (cf_accounts gmail_mail_config) []) gmail_station = (Inr (), gmail_station1)"
  "reconcile_pending calm_system sample_host timed_out gmail_mail_config (Some ''a'') None gmail_station1 = (Inr [], gmail_station1)"
  "account_id (w_db gmail_station1) ''a'' = Some 1" "state_of 1 (w_db gmail_station1) = Some gmail_state_row"
proof -
  have "fst (transaction (initialize sample_host (cf_accounts gmail_mail_config) []) gmail_station) = Inr ()" by code_simp
  then show "transaction (initialize sample_host (cf_accounts gmail_mail_config) []) gmail_station = (Inr (), gmail_station1)"
    by (simp add: gmail_station1_def prod_eq_iff)
  have "pending_ids (w_db gmail_station1) (Some ''a'') None = []" by code_simp
  then show "reconcile_pending calm_system sample_host timed_out gmail_mail_config (Some ''a'') None gmail_station1 = (Inr [], gmail_station1)"
    by (simp add: reconcile_pending_def run_simps)
  show "account_id (w_db gmail_station1) ''a'' = Some 1" "state_of 1 (w_db gmail_station1) = Some gmail_state_row"
    by code_simp+
qed

lemma wp_deleted: "wp (mark_deleted i m) (\<lambda>n v. True) (\<lambda>e v. False) w"
  unfolding mark_deleted_def wp_transaction by (simp add: wp_def split: prod.split)

lemma gmail_partial_run:
  "wp (gmail_partial gmail_out G cfg a i ''5'' True)
     (\<lambda>h v. gr_remote_seen (ho_result h) = 1 \<and> gr_history_to (ho_result h) = Some ''9'') (\<lambda>e v. False) w"
proof -
  have ending: "history_id (VStr ''9'') = Inr ''9''" by code_simp
  have finish: "wp (seq (finish_partial X a i c e r) (\<lambda>u. ret h)) Q (\<lambda>e v. False) v"
    if "\<And>v. Q h v" for X c e r h Q and v :: "unit net station"
    by (rule wp_then [OF wp_finish_partial]) (simp add: that)
  have loop: "wp (seq (apply_change X G cfg a i [''m''] ''m'') f) Q (\<lambda>e v. False) v"
    if "\<And>x v. wp (f x) Q (\<lambda>e v. False) v" for X f Q and v :: "unit net station"
    unfolding apply_change_def
    by (simp add: wp_seq, rule wp_mono [OF wp_deleted]) (simp_all add: wp_rules that)
  have parts: "ou_peer gmail_out = gmail_server" "go_pages gmail_out = 3" by (simp_all add: gmail_out_def)
  show ?thesis
    unfolding gmail_partial_def Let_def if_True parts
    by (rule wp_then [OF wp_audited], rule yields_seq [OF server_steps(2)], simp add: wp_seq [of "lift_result _"] wp_lift ending)
      (simp add: wp_seq [of "seq _ _"] wp_seq [of "for_each _ _"] wp_seq [of "ret _"] wp_ret loop finish partial_result_def)
qed

lemma gmail_run:
  "wp (gmail_sync gmail_out gmail_mail_config ''a'')
     (\<lambda>res v. gr_remote_seen res = 1 \<and> gr_history_to res = Some ''9'') (\<lambda>e v. False) gmail_station"
proof -
  let ?Q = "\<lambda>res v. gr_remote_seen res = 1 \<and> gr_history_to res = Some ''9''"
  let ?a = "hd (cf_accounts gmail_mail_config)"
  have parts: "ou_peer gmail_out = gmail_server" "ou_host gmail_out = sample_host" "ou_system gmail_out = calm_system"
    "ou_classifier gmail_out = timed_out"
    by (simp_all add: gmail_out_def)
  have account: "config_account gmail_mail_config ''a'' = Some ?a" "ac_enabled ?a" "ac_kind ?a = Gmail"
    "ac_gmail ?a = Some gmail_settings" "ac_name ?a = ''a''"
    by code_simp+
  have token: "load_credentials (go_token gmail_out) ?a = Inr [''/'', ''t'']"
    by code_simp
  have labels: "wp (refresh_labels X G 1) (\<lambda>ids v. True) (\<lambda>e v. False) v" if "ou_peer X = gmail_server" for X G v
    unfolding refresh_labels_def that
    by (rule yields_seq [OF server_steps(3)])
      (simp add: gmail_object_def gmail_body_def dict_get_or_def dict_get_def wp_seq clock_def wp_transaction wp_def)
  have mailbox: "wp (sync_mailbox gmail_out G cfg ?a gmail_settings 1 (Some ''5'')) ?Q (\<lambda>e v. False) v" for G cfg v
    unfolding sync_mailbox_def parts option.case
    by (rule yields_seq [OF server_steps(1)], unfold wp_seq [of "refresh_labels _ _ _"],
        rule wp_mono [OF labels], simp add: outside.defs parts, rule yields_seq [OF server_steps(4)],
        unfold wp_seq wp_ret, rule gmail_partial_run) simp
  have since: "checkpoint (Some gmail_state_row) = Some ''5''" by code_simp
  have begun: "wp (begin_sync sample_host ''a'') (\<lambda>b v. b = (1, Some gmail_state_row)) (\<lambda>e v. False) v"
    if "w_db v = w_db gmail_station1" for v
    unfolding begin_sync_def wp_transaction by (simp add: wp_def that gmail_station1)
  have session: "wp (gmail_sync_locked gmail_out gmail_mail_config ?a gmail_settings) ?Q (\<lambda>e v. False) v"
    if "w_db v = w_db gmail_station1" for v
    unfolding gmail_sync_locked_def token parts account
    by (simp add: wp_seq [of "lift_result _"] wp_lift, rule yields_seq [OF server_steps(4)],
        unfold wp_seq [of "begin_sync _ _"], rule wp_mono [OF begun])
      (auto simp: that since guarded_sync_def wp_attempt intro: wp_mono [OF mailbox])
  have lock: "wp (locked gmail_server p GmailSyncBusyError (gmail_sync_locked gmail_out gmail_mail_config ?a gmail_settings))
      ?Q (\<lambda>e v. False) gmail_station1" for p
    unfolding locked_def
    by (rule yields_seq [OF server_steps(5)], simp add: wp_finalize, rule wp_mono [OF session])
      (auto simp: wp_def on_net_def command_done_def issue_def gmail_server_def run_simps split: prod.split)
  show ?thesis
    unfolding gmail_sync_def account option.case parts
    by (simp add: account wp_seq wp_rules del: One_nat_def)
      (simp add: wp_def [of "transaction _"] wp_def [of "reconcile_pending _ _ _ _ _ _"] gmail_station1 lock del: One_nat_def)
qed

lemma gmail_returns:
  "\<exists>res u. gmail_sync gmail_out gmail_mail_config ''a'' gmail_station = (Inr res, u) \<and> gr_remote_seen res = 1 \<and>
     gr_history_to res = Some ''9''"
  using gmail_run by (auto simp: wp_def split: prod.splits sum.splits)

section \<open>Instances of the properties\<close>


theorem gmail_sync_is_read_only_witness:
  "\<exists>res u. gmail_sync gmail_out gmail_mail_config ''a'' gmail_station = (Inr res, u) \<and>
     list_all (\<lambda>x. gmail_reading gmail_mail_config ''a'' (fst x)) (nt_trace (dk_rest (w_net u)))"
proof -
  obtain res u where run: "gmail_sync gmail_out gmail_mail_config ''a'' gmail_station = (Inr res, u)"
    using gmail_returns by blast
  from gmail_sync_is_read_only [OF run] run show ?thesis
    by (auto simp: extends_def gmail_station_def pop_station_def idle_net_def)
qed

definition gmail_session_sample :: gmail_session where
  "gmail_session_sample = \<lparr>gl_token_path = [''t''], gl_persist = True\<rparr>"

theorem gmail_listings_end_witness:
  "fst (paged 1 KeyError (history_round gmail_server gmail_session_sample ''5'') [] None no_changes idle_net) \<noteq> Inr None"
proof -
  have "tokens_from {} gmail_server"
    by (auto simp: tokens_from_def gmail_server_def gmail_object_def gmail_body_def dict_get_def
        split: command.split_asm if_split_asm)
  moreover have "ou_peer (outside.truncate gmail_out) = gmail_server" by (simp add: outside.defs gmail_out_def)
  ultimately show ?thesis
    using gmail_listings_end [of "{}" gmail_server "outside.truncate gmail_out" 1 1] by simp
qed

theorem gmail_get_is_bounded_witness:
  "\<exists>t. gmail_get gmail_server gmail_session_sample ''profile'' ''profile'' [] idle_net = (Inr (gmail_object ''profile''), t) \<and>
     length (requests t) \<le> 6"
proof -
  obtain t where "gmail_get gmail_server gmail_session_sample ''profile'' ''profile'' [] idle_net = (Inr (gmail_object ''profile''), t)"
    using server_get [of gmail_session_sample "''profile''" "''profile''" "[]" idle_net]
    by (auto simp: wp_def split: prod.splits sum.splits)
  from gmail_get_is_bounded [OF this] this show ?thesis by (simp add: requests_def idle_net_def)
qed

end
