(* ===== verification/Json.thy ===== *)
theory Json
  imports Wire
begin

text \<open>
  \<open>json.loads\<close>, which reads back what \<open>json.dumps\<close> wrote and what other programs answer.  The parser
  follows the scanner of the standard library: white space, escapes, refused control characters,
  numbers, a repeated key keeps its first place and its last value.  A floating point number is only
  told apart (\<^term>\<open>VOther True\<close>); an escape of a code point above 255 is refused, since a text here
  is a list of octets.  The recursion of the scanner is bounded by the length of the text, which is
  always enough.  The lemmas end in the round trip with \<open>dumps\<close>.
\<close>

definition bad_json :: error where
  "bad_json = ValueError ''json''"

definition json_space :: "char \<Rightarrow> bool" where
  "json_space c \<longleftrightarrow> of_char c \<in> {9, 10, 13, 32 :: nat}"

definition skip_space :: "string \<Rightarrow> string" where
  "skip_space = dropWhile json_space"

section \<open>Strings\<close>

definition hex_nibble :: "char \<Rightarrow> nat option" where
  "hex_nibble c =
     (let n = of_char c :: nat in
      if 48 \<le> n \<and> n \<le> 57 then Some (n - 48)
      else if 97 \<le> n \<and> n \<le> 102 then Some (n - 87)
      else if 65 \<le> n \<and> n \<le> 70 then Some (n - 55) else None)"

definition hex4 :: "char \<Rightarrow> char \<Rightarrow> char \<Rightarrow> char \<Rightarrow> nat option" where
  "hex4 a b c d =
     (case (hex_nibble a, hex_nibble b, hex_nibble c, hex_nibble d) of
        (Some w, Some x, Some y, Some z) \<Rightarrow> Some (4096 * w + 256 * x + 16 * y + z)
      | _ \<Rightarrow> None)"

definition simple_escape :: "char \<Rightarrow> char option" where
  "simple_escape c =
     (if c = CHR 0x22 \<or> c = CHR 0x5C \<or> c = CHR ''/'' then Some c
      else if c = CHR ''b'' then Some (CHR 0x08)
      else if c = CHR ''f'' then Some (CHR 0x0C)
      else if c = CHR ''n'' then Some (CHR 0x0A)
      else if c = CHR ''r'' then Some (CHR 0x0D)
      else if c = CHR ''t'' then Some (CHR 0x09) else None)"

definition push :: "char \<Rightarrow> (string \<times> string) option \<Rightarrow> (string \<times> string) option" where
  "push c r = map_option (\<lambda>(x, s). (c # x, s)) r"

text \<open>From behind the opening quote: the text, and what follows the closing quote.\<close>

fun scan_string :: "string \<Rightarrow> (string \<times> string) option" where
  "scan_string [] = None"
| "scan_string (c # cs) =
     (if c = CHR 0x22 then Some ([], cs)
      else if c = CHR 0x5C then
        (case cs of [] \<Rightarrow> None
         | e # r \<Rightarrow>
             if e = CHR ''u'' then
               (case r of w # x # y # z # t \<Rightarrow>
                    (case hex4 w x y z of None \<Rightarrow> None
                     | Some n \<Rightarrow> if n < 256 then push (char_of n) (scan_string t) else None)
                | _ \<Rightarrow> None)
             else (case simple_escape e of None \<Rightarrow> None | Some d \<Rightarrow> push d (scan_string r)))
      else if of_char c < (32 :: nat) then None
      else push c (scan_string cs))"

declare scan_string.simps [simp del]

section \<open>Numbers\<close>

definition digits_of :: "string \<Rightarrow> string" where
  "digits_of = takeWhile is_digit"

text \<open>The length of a fraction or an exponent at the beginning of a text, or nothing.\<close>

definition fraction :: "string \<Rightarrow> nat" where
  "fraction s =
     (case s of c # r \<Rightarrow> if c = CHR ''.'' \<and> digits_of r \<noteq> [] then Suc (length (digits_of r)) else 0 | [] \<Rightarrow> 0)"

definition exponent :: "string \<Rightarrow> nat" where
  "exponent s =
     (case s of
        c # r \<Rightarrow>
          if c = CHR ''e'' \<or> c = CHR ''E'' then
            (let sign = (if r \<noteq> [] \<and> (hd r = CHR ''+'' \<or> hd r = CHR ''-'') then 1 else 0);
                 ds = digits_of (drop sign r) in
             if ds = [] then 0 else Suc (sign + length ds))
          else 0
      | [] \<Rightarrow> 0)"

definition integer_part :: "string \<Rightarrow> string" where
  "integer_part s = (if s \<noteq> [] \<and> hd s = CHR ''0'' then ''0'' else digits_of s)"

definition scan_number :: "string \<Rightarrow> (pyval \<times> string) result" where
  "scan_number s =
     (let neg = (s \<noteq> [] \<and> hd s = CHR ''-''); body = (if neg then tl s else s); ds = integer_part body;
          rest = drop (length ds) body; more = fraction rest; more = more + exponent (drop more rest) in
      if ds = [] then Inl bad_json
      else if more > 0 then Inr (VOther True, drop more rest)
      else rbind (py_int ds) (\<lambda>i. Inr (VInt (if neg then - i else i), rest)))"

section \<open>Values\<close>

definition literals :: "(string \<times> pyval) list" where
  "literals = [(''null'', VNull), (''true'', VBool True), (''false'', VBool False), (''NaN'', VOther True),
     (''Infinity'', VOther True), (''-Infinity'', VOther True)]"

definition literal :: "string \<Rightarrow> (pyval \<times> string) option" where
  "literal s = map_option (\<lambda>(t, v). (v, drop (length t) s)) (find (\<lambda>(t, v). starts_with t s) literals)"

definition put_key :: "(pyval \<times> pyval) list \<Rightarrow> string \<times> pyval \<Rightarrow> (pyval \<times> pyval) list" where
  "put_key d m =
     (case m of (k, v) \<Rightarrow>
      if list_ex (\<lambda>x. fst x = VStr k) d then map (\<lambda>x. if fst x = VStr k then (fst x, v) else x) d
      else d @ [(VStr k, v)])"

definition dict_of :: "(string \<times> pyval) list \<Rightarrow> (pyval \<times> pyval) list" where
  "dict_of ms = foldl put_key [] ms"

text \<open>The pieces between the values: an expected character, a text, the end of a collection.\<close>

definition expect :: "char \<Rightarrow> string \<Rightarrow> string result" where
  "expect c s = (case s of [] \<Rightarrow> Inl bad_json | d # r \<Rightarrow> if d = c then Inr r else Inl bad_json)"

definition string_from :: "string \<Rightarrow> (string \<times> string) result" where
  "string_from s = (case scan_string s of None \<Rightarrow> Inl bad_json | Some x \<Rightarrow> Inr x)"

definition opened :: "char \<Rightarrow> string \<Rightarrow> (bool \<times> string) result" where
  "opened close s =
     (case skip_space s of [] \<Rightarrow> Inl bad_json
      | d # r \<Rightarrow> if d = close then Inr (False, r) else Inr (True, d # r))"

definition continued :: "char \<Rightarrow> string \<Rightarrow> (bool \<times> string) result" where
  "continued close s =
     (case skip_space s of [] \<Rightarrow> Inl bad_json
      | d # r \<Rightarrow> if d = close then Inr (False, r)
                 else if d = CHR '','' then Inr (True, skip_space r) else Inl bad_json)"

fun parse_value :: "nat \<Rightarrow> string \<Rightarrow> (pyval \<times> string) result"
  and parse_members :: "nat \<Rightarrow> string \<Rightarrow> ((string \<times> pyval) list \<times> string) result"
  and parse_elements :: "nat \<Rightarrow> string \<Rightarrow> (pyval list \<times> string) result" where
  "parse_value 0 s = Inl bad_json"
| "parse_value (Suc n) s =
     (if s = [] then Inl bad_json
      else if hd s = CHR 0x22 then rbind (string_from (tl s)) (\<lambda>(x, r). Inr (VStr x, r))
      else if hd s = CHR ''{'' then
        rbind (opened CHR ''}'' (tl s)) (\<lambda>(more, r).
        if more then rbind (parse_members n r) (\<lambda>(ms, r). Inr (VDict (dict_of ms), r)) else Inr (VDict [], r))
      else if hd s = CHR ''['' then
        rbind (opened CHR '']'' (tl s)) (\<lambda>(more, r).
        if more then rbind (parse_elements n r) (\<lambda>(vs, r). Inr (VList vs, r)) else Inr (VList [], r))
      else (case literal s of Some x \<Rightarrow> Inr x | None \<Rightarrow> scan_number s))"
| "parse_members 0 s = Inl bad_json"
| "parse_members (Suc n) s =
     rbind (expect CHR 0x22 s) (\<lambda>r.
     rbind (string_from r) (\<lambda>(k, r).
     rbind (expect CHR '':'' (skip_space r)) (\<lambda>r.
     rbind (parse_value n (skip_space r)) (\<lambda>(v, r).
     rbind (continued CHR ''}'' r) (\<lambda>(more, r).
     if more then rbind (parse_members n r) (\<lambda>(ms, r). Inr ((k, v) # ms, r)) else Inr ([(k, v)], r))))))"
| "parse_elements 0 s = Inl bad_json"
| "parse_elements (Suc n) s =
     rbind (parse_value n s) (\<lambda>(v, r).
     rbind (continued CHR '']'' r) (\<lambda>(more, r).
     if more then rbind (parse_elements n r) (\<lambda>(vs, r). Inr (v # vs, r)) else Inr ([v], r)))"

declare parse_value.simps [simp del] parse_members.simps [simp del] parse_elements.simps [simp del]

definition json_loads :: "string \<Rightarrow> pyval result" where
  "json_loads s =
     rbind (parse_value (2 * length s + 2) (skip_space s)) (\<lambda>(v, r).
       if skip_space r = [] then Inr v else Inl bad_json)"

text \<open>\<open>bytes.decode()\<close>: UTF-8 of the code points below 256, and \<open>json.loads\<close> of bytes in UTF-8.\<close>

fun utf8_decode :: "bytes \<Rightarrow> string option" where
  "utf8_decode [] = Some []"
| "utf8_decode (c # cs) =
     (if is_ascii c then map_option (Cons c) (utf8_decode cs)
      else (case cs of [] \<Rightarrow> None
        | d # ds \<Rightarrow>
            let hi = of_char c :: nat; lo = of_char d :: nat in
            if 194 \<le> hi \<and> hi \<le> 195 \<and> 128 \<le> lo \<and> lo \<le> 191
            then map_option (Cons (char_of ((hi - 192) * 64 + (lo - 128)))) (utf8_decode ds) else None))"

definition json_loads_bytes :: "bytes \<Rightarrow> pyval result" where
  "json_loads_bytes b = (case utf8_decode b of None \<Rightarrow> Inl UnicodeError | Some s \<Rightarrow> json_loads s)"


section \<open>The bound on the recursion\<close>

lemma skip_space_length: "length (skip_space s) \<le> length s"
  by (simp add: skip_space_def length_dropWhile_le)

lemma push_Some: "push c p = Some (x, r) \<longleftrightarrow> (\<exists>y. p = Some (y, r) \<and> x = c # y)"
  by (cases p) (auto simp: push_def)

lemma scan_string_length: "scan_string s = Some (x, r) \<Longrightarrow> length r < length s"
proof (induction "length s" arbitrary: s x r rule: less_induct)
  case less
  obtain c cs where s: "s = c # cs" using less.prems by (cases s) (auto simp: scan_string.simps)
  from less.prems show ?case
    unfolding s scan_string.simps(2)
    by (auto simp: push_Some split: if_splits list.splits option.splits)
      (drule less.hyps [rotated]; simp add: s)+
qed

lemma literal_length: "literal s = Some (v, r) \<Longrightarrow> s \<noteq> [] \<Longrightarrow> length r < length s"
  by (auto simp: literal_def literals_def split: if_splits)

lemma scan_number_length:
  assumes "scan_number s = Inr (v, r)"
  shows "length r < length s"
proof -
  define body where "body = (if s \<noteq> [] \<and> hd s = CHR ''-'' then tl s else s)"
  have "integer_part body \<noteq> []" and "\<exists>k. r = drop k (drop (length (integer_part body)) body)"
    using assms by (auto simp: scan_number_def body_def Let_def rbind_Inr split: if_splits intro: exI [of _ 0])
  moreover from this(1) have "body \<noteq> []" by (auto simp: integer_part_def digits_of_def)
  ultimately have "length r < length body" by auto
  also have "length body \<le> length s" by (simp add: body_def)
  finally show ?thesis .
qed

lemma piece_lengths:
  "expect c s = Inr r \<Longrightarrow> length r < length s"
  "string_from s = Inr (x, r) \<Longrightarrow> length r < length s"
  "opened c s = Inr (b, r) \<Longrightarrow> length r \<le> length s"
  "continued c s = Inr (b, r) \<Longrightarrow> length r < length s"
  using skip_space_length [of s] skip_space_length [of "tl (skip_space s)"]
  by (auto simp: expect_def string_from_def opened_def continued_def scan_string_length
      split: list.splits option.splits if_splits) (simp add: skip_space_length)

lemma parse_lengths:
  "parse_value n s = Inr (v, r) \<Longrightarrow> length r < length s"
  "parse_members n s = Inr (ms, r) \<Longrightarrow> length r < length s"
  "parse_elements n s = Inr (vs, r) \<Longrightarrow> length r < length s"
proof (induction n arbitrary: s v ms vs r)
  case (Suc n)
  note shorter = Suc.IH piece_lengths
  {
    case 1
    then show ?case
      unfolding parse_value.simps
      by (cases s) (auto simp: rbind_Inr split: option.splits if_splits dest!: shorter scan_number_length dest: literal_length)
  next
    case 2
    then obtain a k b c v d more e where steps: "expect CHR 0x22 s = Inr a" "string_from a = Inr (k, b)"
      "expect CHR '':'' (skip_space b) = Inr c" "parse_value n (skip_space c) = Inr (v, d)"
      "continued CHR ''}'' d = Inr (more, e)" "if more then \<exists>ms. parse_members n e = Inr (ms, r) else r = e"
      unfolding parse_members.simps by (auto simp: rbind_Inr split: if_splits)
    from shorter(4) [OF steps(1)] shorter(5) [OF steps(2)] shorter(4) [OF steps(3)] shorter(1) [OF steps(4)]
      shorter(7) [OF steps(5)] skip_space_length [of b] skip_space_length [of c] steps(6)
    show ?case by (auto split: if_splits dest!: shorter(2))
  next
    case 3
    then obtain v d more e where steps: "parse_value n s = Inr (v, d)"
      "continued CHR '']'' d = Inr (more, e)" "if more then \<exists>vs. parse_elements n e = Inr (vs, r) else r = e"
      unfolding parse_elements.simps by (auto simp: rbind_Inr split: if_splits)
    from shorter(1) [OF steps(1)] shorter(7) [OF steps(2)] steps(3)
    show ?case by (auto split: if_splits dest!: shorter(3))
  }
qed (simp_all add: parse_value.simps parse_members.simps parse_elements.simps)

lemma rbind_cong: "(\<And>x. m = Inr x \<Longrightarrow> f x = g x) \<Longrightarrow> rbind m f = rbind m g"
  by (cases m) auto

lemma parse_bound:
  "2 * length s < n \<Longrightarrow> 2 * length s < m \<Longrightarrow> parse_value n s = parse_value m s"
  "2 * length s < n \<Longrightarrow> 2 * length s < m \<Longrightarrow> parse_members n s = parse_members m s"
  "2 * length s + 1 < n \<Longrightarrow> 2 * length s + 1 < m \<Longrightarrow> parse_elements n s = parse_elements m s"
proof (induction n arbitrary: s m)
  case (Suc n)
  note shorter = piece_lengths parse_lengths
  note spaces = skip_space_length
  {
    case 1
    then obtain k where m: "m = Suc k" by (cases m) auto
    have rec: "length r \<le> length (tl s) \<Longrightarrow> s \<noteq> [] \<Longrightarrow>
        parse_members n r = parse_members k r \<and> parse_elements n r = parse_elements k r" for r
      using 1 m by (cases s) (auto intro!: Suc.IH)
    show ?case
      unfolding m parse_value.simps
      by (auto intro!: rbind_cong simp: rec dest: piece_lengths)
  next
    case 2
    then obtain k where m: "m = Suc k" by (cases m) auto
    have rec: "length r < length s \<Longrightarrow> parse_members n r = parse_members k r \<and> parse_value n r = parse_value k r" for r
      using 2 m by (auto intro!: Suc.IH)
    show ?case
      unfolding m parse_members.simps
    proof (intro rbind_cong, clarsimp intro!: rbind_cong)
      fix a x b c
      assume a: "expect CHR 0x22 s = Inr a" and x: "string_from a = Inr (x, b)"
        and c: "expect CHR '':'' (skip_space b) = Inr c"
      have c_less: "length (skip_space c) < length s"
        using piece_lengths(1) [OF a] piece_lengths(2) [OF x] piece_lengths(1) [OF c] spaces [of b] spaces [of c] by simp
      have "length e < length s" if "parse_value k (skip_space c) = Inr (v, d)" "continued CHR ''}'' d = Inr (more, e)" for v d more e
        using parse_lengths(1) [OF that(1)] piece_lengths(4) [OF that(2)] c_less by simp
      then show "rbind (parse_value n (skip_space c)) (\<lambda>(v, r). rbind (continued CHR ''}'' r) (\<lambda>(more, r).
            if more then rbind (parse_members n r) (\<lambda>(ms, r). Inr ((x, v) # ms, r)) else Inr ([(x, v)], r))) =
          rbind (parse_value k (skip_space c)) (\<lambda>(v, r). rbind (continued CHR ''}'' r) (\<lambda>(more, r).
            if more then rbind (parse_members k r) (\<lambda>(ms, r). Inr ((x, v) # ms, r)) else Inr ([(x, v)], r)))"
        using rec [OF c_less] by (auto intro!: rbind_cong simp: rec)
    qed
  next
    case 3
    then obtain k where m: "m = Suc k" by (cases m) auto
    have rec: "length r < length s \<Longrightarrow> parse_elements n r = parse_elements k r" for r
      using 3 m by (auto intro!: Suc.IH)
    have "parse_value n s = parse_value k s" using 3 m by (auto intro!: Suc.IH)
    moreover have "length e < length s" if "parse_value k s = Inr (v, d)" "continued CHR '']'' d = Inr (more, e)" for v d more e
      using parse_lengths(1) [OF that(1)] piece_lengths(4) [OF that(2)] by simp
    ultimately show ?case
      unfolding m parse_elements.simps by (auto intro!: rbind_cong simp: rec)
  }
qed simp_all

section \<open>The round trip\<close>

fun pyval_of :: "json \<Rightarrow> pyval"
  and pyval_member :: "string \<times> json \<Rightarrow> string \<times> pyval" where
  "pyval_of JNull = VNull"
| "pyval_of (JBool b) = VBool b"
| "pyval_of (JInt i) = VInt i"
| "pyval_of (JStr s) = VStr s"
| "pyval_of (JArr xs) = VList (map pyval_of xs)"
| "pyval_of (JObj kvs) = VDict (dict_of (map pyval_member kvs))"
| "pyval_member (k, v) = (k, pyval_of v)"

text \<open>Numbers over 4300 digits are written but not read.\<close>

fun small :: "json \<Rightarrow> bool"
  and small_member :: "string \<times> json \<Rightarrow> bool" where
  "small (JInt i) = (length (nat_text (nat \<bar>i\<bar>)) \<le> 4300)"
| "small (JArr xs) = list_all small xs"
| "small (JObj kvs) = list_all small_member kvs"
| "small _ = True"
| "small_member (k, v) = small v"

definition too_long :: error where
  "too_long = ValueError ''int''"

lemma hex_nibble_digit: "d < 16 \<Longrightarrow> hex_nibble (hex_digit d) = Some d"
  by (simp add: hex_nibble_def hex_digit_def Let_def)

lemma scan_json_char: "scan_string (json_char c @ x) = push c (scan_string x)"
proof -
  have bound: "of_char c < (256 :: nat)" by simp
  then have "of_char c < (4096 :: nat)" by linarith
  then have "of_char c div 4096 = (0 :: nat)" by (rule div_less)
  moreover have "of_char c div 256 = (0 :: nat)"
    "16 * (of_char c div 16 mod 16) + of_char c mod 16 = (of_char c :: nat)"
    using bound mult_div_mod_eq [of 16 "of_char c :: nat"] by (simp_all add: less_mult_imp_div_less)
  ultimately have code: "of_char c div 4096 = (0 :: nat)" "of_char c div 256 = (0 :: nat)"
    "16 * (of_char c div 16 mod 16) + of_char c mod 16 = (of_char c :: nat)" .
  have "scan_string (hex_escape (of_char c) @ x) = push c (scan_string x)"
    using code by (simp add: hex_escape_def scan_string.simps hex4_def hex_nibble_digit)
  then show ?thesis
    by (auto simp: json_char_def scan_string.simps simple_escape_def)
qed

lemma scan_json_string: "scan_string (concat (map json_char s) @ CHR 0x22 # r) = Some (s, r)"
  by (induction s) (simp_all add: scan_json_char push_def scan_string.simps)

text \<open>Numbers.\<close>

definition stops :: "string \<Rightarrow> bool" where
  "stops r \<longleftrightarrow> (case r of [] \<Rightarrow> True | c # s \<Rightarrow> \<not> is_digit c \<and> c \<notin> set ''.eE'')"

lemma digits_append: "list_all is_digit ds \<Longrightarrow> stops r \<Longrightarrow> digits_of (ds @ r) = ds"
  by (cases r) (auto simp: digits_of_def stops_def takeWhile_append2 list_all_iff)

lemma nat_text_zero: "hd (nat_text n) = CHR ''0'' \<Longrightarrow> n = 0"
proof (induction n rule: nat_text.induct)
  case (1 n)
  show ?case
  proof (cases "n < 10")
    case True
    with 1(2) have "of_char (digit_char n) = (48 :: nat)" by (subst (asm) nat_text.simps) simp
    with True show ?thesis by (simp add: of_char_digit)
  next
    case False
    with 1(2) have "hd (nat_text (n div 10)) = CHR ''0''" by (subst (asm) nat_text.simps) simp
    with False 1(1) show ?thesis by simp
  qed
qed

lemma integer_part_nat: "stops r \<Longrightarrow> integer_part (nat_text n @ r) = nat_text n"
proof (cases "hd (nat_text n) = CHR ''0''")
  case True
  then have "n = 0" by (rule nat_text_zero)
  moreover have "nat_text 0 = ''0''" by code_simp
  ultimately show ?thesis by (simp add: integer_part_def)
next
  case False
  assume "stops r"
  with False nat_text_digits [of n] show ?thesis
    by (simp add: integer_part_def hd_append digits_append list_all_iff)
qed

lemma stops_number: "stops r \<Longrightarrow> fraction r = 0 \<and> exponent r = 0"
  by (auto simp: stops_def fraction_def exponent_def split: list.splits)

lemma scan_int_text:
  assumes "stops r"
  shows "scan_number (int_text i @ r) = (if small (JInt i) then Inr (VInt i, r) else Inl too_long)"
proof -
  have no_minus: "hd (nat_text n) \<noteq> CHR ''-''" for n
    using nat_text_digits [of n] minus_not_digit hd_in_set [of "nat_text n"] by fastforce
  show ?thesis
    using assms stops_number [OF assms(1)] integer_part_nat [OF assms(1)]
    by (cases "i < 0") (simp_all add: too_long_def int_text_def scan_number_def Let_def no_minus hd_append py_int_def digits_value_nat_text)
qed

lemma int_text_start: "int_text i \<noteq> [] \<and> (is_digit (hd (int_text i)) \<or> hd (int_text i) = CHR ''-'' \<and>
    tl (int_text i) \<noteq> [] \<and> is_digit (hd (tl (int_text i))))"
proof -
  have "is_digit (hd (nat_text n))" for n
    using nat_text_digits [of n] hd_in_set [OF nat_text_nonempty] by blast
  then show ?thesis by (simp add: int_text_def)
qed

lemma starts_with_Cons: "starts_with (a # p) (c # s) \<longleftrightarrow> a = c \<and> starts_with p s" "\<not> starts_with (a # p) []"
  by (auto simp: starts_with_def)

lemma literal_int: "literal (int_text i @ r) = None"
proof -
  obtain c s where *: "int_text i = c # s" and "is_digit c \<or> c = CHR ''-'' \<and> s \<noteq> [] \<and> is_digit (hd s)"
    using int_text_start [of i] by (cases "int_text i") auto
  then have "\<not> starts_with (a # p) (int_text i @ r)" if "a \<in> set ''ntfNI'' \<or> a = CHR ''-'' \<and> starts_with ''I'' p" for a p
    using that * by (cases s; cases p) (auto simp: starts_with_Cons is_digit_def)
  then show ?thesis by (simp add: literal_def literals_def starts_with_Cons starts_with_def [of "[]"])
qed

text \<open>Separators as \<open>dumps\<close> writes them: a comma and a colon, with white space behind them.\<close>

definition separators :: "string \<Rightarrow> string \<Rightarrow> bool" where
  "separators isep ksep \<longleftrightarrow> isep \<noteq> [] \<and> hd isep = CHR '','' \<and> list_all json_space (tl isep) \<and>
     ksep \<noteq> [] \<and> hd ksep = CHR '':'' \<and> list_all json_space (tl ksep)"

lemma separatorsE:
  assumes "separators isep ksep"
  obtains v w where "isep = CHR '','' # v" "list_all json_space v" "ksep = CHR '':'' # w" "list_all json_space w"
  using assms by (cases isep; cases ksep) (auto simp: separators_def)

lemma skip_space_over: "list_all json_space w \<Longrightarrow> skip_space (w @ x) = skip_space x"
  by (simp add: skip_space_def dropWhile_append1 dropWhile_append2 list_all_iff)

lemma dumps_start: "\<exists>c s. dumps isep ksep j = c # s \<and> \<not> json_space c \<and> c \<noteq> CHR '']''"
proof (cases j)
  case (JInt i)
  with int_text_start [of i] show ?thesis
    by (cases "int_text i") (auto simp: json_space_def is_digit_def)
qed (auto simp: json_space_def json_string_def)

lemma join_start:
  assumes "xs \<noteq> []" "\<And>x. x \<in> set xs \<Longrightarrow> \<exists>c s. f x = c # s \<and> P c"
  shows "\<exists>c s. join sep (map f xs) = c # s \<and> P c"
  using assms by (cases xs; cases "tl xs") fastforce+

lemma skip_dumps: "skip_space (dumps isep ksep j @ x) = dumps isep ksep j @ x"
  using dumps_start [of isep ksep j] by (auto simp: skip_space_def)

lemma continued_simps:
  "continued c (c # r) = (if json_space c then continued c r else Inr (False, r))"
  "c \<noteq> CHR '','' \<Longrightarrow> continued c (CHR '','' # r) = Inr (True, skip_space r)"
  by (simp_all add: continued_def skip_space_def json_space_def)

definition parsed :: "string \<Rightarrow> string \<Rightarrow> json \<Rightarrow> bool" where
  "parsed isep ksep j \<longleftrightarrow> (\<forall>n r. stops r \<longrightarrow> 2 * length (dumps isep ksep j) < n \<longrightarrow>
     parse_value n (dumps isep ksep j @ r) = (if small j then Inr (pyval_of j, r) else Inl too_long))"

lemma join_Cons: "zs \<noteq> [] \<Longrightarrow> join sep (x # zs) = x @ sep @ join sep zs"
  by (cases zs) simp_all

lemma parse_joined:
  assumes "separators isep ksep" "list_all (parsed isep ksep) xs" "xs \<noteq> []"
  shows "2 * length (join isep (map (dumps isep ksep) xs)) + 1 < n \<Longrightarrow>
    parse_elements n (join isep (map (dumps isep ksep) xs) @ CHR '']'' # r) =
      (if list_all small xs then Inr (map pyval_of xs, r) else Inl too_long)"
  using assms(3,2)
proof (induction xs arbitrary: n rule: list_nonempty_induct)
  case (single x)
  then obtain k where "n = Suc k" by (cases n) auto
  with single show ?case
    by (simp add: parse_elements.simps parsed_def stops_def is_digit_def continued_simps json_space_def)
next
  case (cons x xs)
  then obtain k where n: "n = Suc k" by (cases n) auto
  from assms(1) obtain v w where sep: "isep = CHR '','' # v" "list_all json_space v" by (rule separatorsE)
  have "\<exists>c s. join isep (map (dumps isep ksep) xs) = c # s \<and> \<not> json_space c"
    by (rule join_start [OF cons.hyps(1)]) (use dumps_start in blast)
  then have skip: "skip_space (v @ join isep (map (dumps isep ksep) xs) @ s) = join isep (map (dumps isep ksep) xs) @ s" for s
    by (auto simp: skip_space_over [OF sep(2)]) (auto simp: skip_space_def)
  show ?case
    using cons n skip
    by (simp add: parse_elements.simps parsed_def stops_def is_digit_def continued_simps json_space_def join_Cons sep(1))
qed

lemma member_pieces:
  assumes "separators isep ksep"
  shows "expect CHR 0x22 (json_string k @ ksep @ s) = Inr (concat (map json_char k) @ CHR 0x22 # ksep @ s)"
    "string_from (concat (map json_char k) @ CHR 0x22 # ksep @ s) = Inr (k, ksep @ s)"
    "expect CHR '':'' (skip_space (ksep @ s)) = Inr (tl ksep @ s)"
  using assms
  by (auto elim!: separatorsE simp: expect_def json_string_def string_from_def scan_json_string)
    (simp add: skip_space_def json_space_def)

lemma parse_member_value:
  assumes "separators isep ksep" "parsed isep ksep v" "stops r" "2 * length (dumps isep ksep v) < n"
  shows "parse_value n (skip_space (tl ksep @ dumps isep ksep v @ r)) =
    (if small v then Inr (pyval_of v, r) else Inl too_long)"
  using assms by (auto elim!: separatorsE simp: skip_space_over skip_dumps parsed_def)

lemma parse_joined_members:
  assumes "separators isep ksep" "list_all (\<lambda>kv. parsed isep ksep (snd kv)) kvs" "kvs \<noteq> []"
  shows "2 * length (join isep (map (dumps_member isep ksep) kvs)) < n \<Longrightarrow>
    parse_members n (join isep (map (dumps_member isep ksep) kvs) @ CHR ''}'' # r) =
      (if list_all small_member kvs then Inr (map pyval_member kvs, r) else Inl too_long)"
  using assms(3,2)
proof (induction kvs arbitrary: n rule: list_nonempty_induct)
  case (single kv)
  obtain j v where kv: "kv = (j, v)" by (cases kv)
  from single obtain k where "n = Suc k" by (cases n) auto
  moreover have "2 \<le> length (json_string j)" by (simp add: json_string_def)
  ultimately show ?case
    using single by (simp add: kv parse_members.simps member_pieces [OF assms(1)] parse_member_value [OF assms(1)] stops_def is_digit_def continued_simps json_space_def)
next
  case (cons kv kvs)
  obtain j v where kv: "kv = (j, v)" by (cases kv)
  from cons obtain k where n: "n = Suc k" by (cases n) auto
  have two: "2 \<le> length (json_string j)" by (simp add: json_string_def)
  from assms(1) obtain u w where sep: "isep = CHR '','' # u" "list_all json_space u" by (rule separatorsE)
  have "\<exists>c s. join isep (map (dumps_member isep ksep) kvs) = c # s \<and> c = CHR 0x22"
    by (rule join_start [OF cons.hyps(1)]) (auto simp: json_string_def)
  then have skip: "skip_space (u @ join isep (map (dumps_member isep ksep) kvs) @ s) = join isep (map (dumps_member isep ksep) kvs) @ s" for s
    by (auto simp: skip_space_over [OF sep(2)]) (auto simp: skip_space_def json_space_def)
  have "parsed isep ksep v" "2 * length (dumps isep ksep v) < k"
    using cons.prems n two by (auto simp: kv join_Cons cons.hyps(1))
  then have "parse_value k (skip_space (tl ksep @ dumps isep ksep v @ isep @ s)) =
      (if small v then Inr (pyval_of v, isep @ s) else Inl too_long)" for s
    by (intro parse_member_value [OF assms(1)]) (simp_all add: sep(1) stops_def is_digit_def)
  moreover have "continued CHR ''}'' (isep @ join isep (map (dumps_member isep ksep) kvs) @ s) =
      Inr (True, join isep (map (dumps_member isep ksep) kvs) @ s)" for s
    using skip by (simp add: sep(1) continued_simps)
  ultimately show ?case
    using cons n two
    by (simp add: kv parse_members.simps member_pieces [OF assms(1)] join_Cons)
qed

lemma parse_other:
  "0 < n \<Longrightarrow> s = c # t \<Longrightarrow> c \<noteq> CHR 0x22 \<Longrightarrow> c \<noteq> CHR ''{'' \<Longrightarrow> c \<noteq> CHR ''['' \<Longrightarrow>
     parse_value n s = (case literal s of Some x \<Rightarrow> Inr x | None \<Rightarrow> scan_number s)"
  by (cases n) (auto simp: parse_value.simps)

lemma parse_dumps: "separators isep ksep \<Longrightarrow> parsed isep ksep j"
proof (induction j)
  case (JArr xs)
  then have all: "list_all (parsed isep ksep) xs" by (auto simp: list_all_iff)
  show ?case
    unfolding parsed_def
  proof (intro allI impI)
    fix n r assume "2 * length (dumps isep ksep (JArr xs)) < n"
    then obtain k where n: "n = Suc k" "2 * length (join isep (map (dumps isep ksep) xs)) + 1 < k" by (cases n) auto
    show "parse_value n (dumps isep ksep (JArr xs) @ r) =
        (if small (JArr xs) then Inr (pyval_of (JArr xs), r) else Inl too_long)"
    proof (cases "xs = []")
      case False
      have "\<exists>c s. join isep (map (dumps isep ksep) xs) = c # s \<and> \<not> json_space c \<and> c \<noteq> CHR '']''"
        by (rule join_start [OF False]) (use dumps_start in blast)
      then have "opened CHR '']'' (join isep (map (dumps isep ksep) xs) @ CHR '']'' # r) =
          Inr (True, join isep (map (dumps isep ksep) xs) @ CHR '']'' # r)"
        by (auto simp: opened_def skip_space_def)
      with parse_joined [OF JArr.prems all False n(2), of r] show ?thesis
        by (simp add: n(1) parse_value.simps)
    qed (simp add: n parse_value.simps opened_def skip_space_def json_space_def)
  qed
next
  case (JObj kvs)
  have all: "list_all (\<lambda>kv. parsed isep ksep (snd kv)) kvs"
    using JObj.prems by (auto simp: list_all_iff intro!: JObj.IH)
  show ?case
    unfolding parsed_def
  proof (intro allI impI)
    fix n r assume "2 * length (dumps isep ksep (JObj kvs)) < n"
    then obtain k where n: "n = Suc k" "2 * length (join isep (map (dumps_member isep ksep) kvs)) < k" by (cases n) auto
    show "parse_value n (dumps isep ksep (JObj kvs) @ r) =
        (if small (JObj kvs) then Inr (pyval_of (JObj kvs), r) else Inl too_long)"
    proof (cases "kvs = []")
      case False
      have "\<exists>c s. join isep (map (dumps_member isep ksep) kvs) = c # s \<and> c = CHR 0x22"
        by (rule join_start [OF False]) (auto simp: json_string_def)
      then have "opened CHR ''}'' (join isep (map (dumps_member isep ksep) kvs) @ CHR ''}'' # r) =
          Inr (True, join isep (map (dumps_member isep ksep) kvs) @ CHR ''}'' # r)"
        by (auto simp: opened_def skip_space_def json_space_def)
      with parse_joined_members [OF JObj.prems all False n(2), of r] show ?thesis
        by (simp add: n(1) parse_value.simps)
    qed (simp add: n parse_value.simps opened_def skip_space_def json_space_def dict_of_def)
  qed
next
  case (JStr s)
  have "parse_value n (json_string s @ r) = Inr (VStr s, r)" if "0 < n" for n r
    using that by (cases n) (simp_all add: parse_value.simps json_string_def string_from_def scan_json_string)
  then show ?case by (simp add: parsed_def)
next
  case (JInt i)
  obtain c s where i: "int_text i = c # s" "is_digit c \<or> c = CHR ''-''"
    using int_text_start [of i] by (cases "int_text i") auto
  then have "c \<noteq> CHR 0x22 \<and> c \<noteq> CHR ''{'' \<and> c \<noteq> CHR ''[''" by (auto simp: is_digit_def)
  then have "parse_value n (int_text i @ r) = (if small (JInt i) then Inr (VInt i, r) else Inl too_long)" if "0 < n" "stops r" for n r
    using scan_int_text [OF that(2), of i] literal_int [of i r]
    by (subst parse_other [OF that(1)]) (auto simp: i(1))
  then show ?case by (simp add: parsed_def)
next
  case (JBool b)
  show ?case
    by (cases b) (auto simp: parsed_def parse_other literal_def literals_def starts_with_Cons starts_with_def [of "[]"])
qed (auto simp: parsed_def parse_other literal_def literals_def starts_with_Cons starts_with_def [of "[]"])

text \<open>What was written is read back, members in the same order; a number too long is an error.\<close>

lemma json_roundtrip:
  assumes "separators isep ksep"
  shows "json_loads (dumps isep ksep j) = (if small j then Inr (pyval_of j) else Inl too_long)"
proof -
  let ?s = "dumps isep ksep j"
  have "parse_value (2 * length ?s + 2) (?s @ []) = (if small j then Inr (pyval_of j, []) else Inl too_long)"
    by (rule parse_dumps [OF assms, unfolded parsed_def, rule_format]) (simp_all add: stops_def)
  moreover have "skip_space [] = []" by (simp add: skip_space_def)
  ultimately show ?thesis
    using skip_dumps [of isep ksep j "[]"] by (simp add: json_loads_def)
qed

text \<open>\<open>dumps\<close> writes ASCII only, which decodes to itself.\<close>

lemma utf8_decode_ascii: "list_all is_ascii s \<Longrightarrow> utf8_decode s = Some s"
  by (induction s) simp_all

end
