(* ===== verification/BorgAdapter.thy ===== *)
theory BorgAdapter
  imports Json Acquire "HOL-Library.AList"
begin

text \<open>
  \<open>BorgAdapter\<close> of \<open>borg.py\<close>: the environment of a Borg process, the commands the program runs and how
  it reads their answers.  The process is the peer: its exit status and its decoded standard output
  may be anything, and starting it may raise.  The files it reads and writes outside the archive are
  not modelled, except what \<open>extract\<close> puts below its destination (a parameter).
\<close>

text \<open>
  What the code uses of SQLite's library: the bytes of a database copied with \<open>backup()\<close>, and the two
  checks of a database file.  The drawn run id, \<open>strftime\<close> and \<open>str()\<close> of a container are parameters too.
\<close>

record sqlite =
  sq_image :: "db \<Rightarrow> bytes"
  sq_intact :: "bytes \<Rightarrow> bool"
  sq_foreign_keys :: "bytes \<Rightarrow> bool"

record 's borg_outside =
  bo_system :: system
  bo_host :: host
  bo_peer :: "'s peer"
  bo_sqlite :: sqlite
  bo_run_id :: string
  bo_strftime :: "int \<Rightarrow> string"
  bo_repr :: "pyval \<Rightarrow> string"
  bo_extracted :: "nat \<Rightarrow> path \<Rightarrow> node option"

section \<open>The process\<close>

text \<open>
  The variables that control Borg: none is inherited.  A command carries the ones the program sets; every
  other variable is passed on as it is.
\<close>

definition CONTROL_ENV :: "string list" where
  "CONTROL_ENV = [''BORG_REPO'', ''BORG_PASSPHRASE'', ''BORG_PASSCOMMAND'', ''BORG_RSH'', ''BORG_REMOTE_PATH'',
     ''BORG_CACHE_DIR'', ''BORG_SECURITY_DIR'', ''BORG_CONFIG_DIR'']"

record borg_adapter =
  ba_repository :: backup_repository_config
  ba_root :: path
  ba_state :: path

definition borg_adapter_for :: "host \<Rightarrow> app_config \<Rightarrow> backup_repository_config \<Rightarrow> borg_adapter result" where
  "borg_adapter_for H cfg repository =
     rbind (resolved H (cf_archive_root cfg)) (\<lambda>root_path.
     Inr \<lparr>ba_repository = repository, ba_root = cf_archive_root cfg,
          ba_state = root_path @ [''state'', ''borg'', br_name repository]\<rparr>)"

definition passphrase :: "host \<Rightarrow> backup_repository_config \<Rightarrow> (string \<times> string) list result" where
  "passphrase H repository =
     (case br_passphrase_env repository of
        None \<Rightarrow> Inr []
      | Some variable \<Rightarrow>
          if variable = [] then Inr []
          else (case h_environ H variable of
              None \<Rightarrow> Inl (BorgError ''passphrase-missing'')
            | Some p \<Rightarrow> if p = [] then Inl (BorgError ''passphrase-missing'') else Inr [(''BORG_PASSPHRASE'', p)]))"

definition borg_environment :: "'s borg_outside \<Rightarrow> borg_adapter \<Rightarrow> ('s net station, (string \<times> string) list) prog" where
  "borg_environment X A =
     (let cache = ba_state A @ [''cache'']; security = ba_state A @ [''security''] in
      seq (mkdirs (bo_system X) cache) (\<lambda>u.
      seq (mkdirs (bo_system X) security) (\<lambda>u.
      seq (lift_result (passphrase (bo_host X) (ba_repository A))) (\<lambda>secret.
      ret ([(''BORG_CACHE_DIR'', path_str cache), (''BORG_SECURITY_DIR'', path_str security)] @ secret)))))"

text \<open>\<open>command\<close>: the standard output of a run that ends with status 0.\<close>

definition run_borg :: "'s borg_outside \<Rightarrow> borg_adapter \<Rightarrow> string list \<Rightarrow> path \<Rightarrow> ('s net station, string) prog" where
  "run_borg X A args cwd =
     seq (attempt
       (seq (borg_environment X A) (\<lambda>env. on_net (issue (bo_peer X) (RunBorg args cwd env))))
       (\<lambda>e. e = FileNotFoundError \<or> e = TimeoutExpired)
       (\<lambda>e. fail (BorgError (if e = FileNotFoundError then ''borg-unavailable'' else ''timeout'')))) (\<lambda>r.
     case r of
       Ran status out \<Rightarrow> if status = 0 then ret out else fail (BorgError ''borg-nonzero'')
     | _ \<Rightarrow> fail TypeError)"

definition borg_command :: "'s borg_outside \<Rightarrow> borg_adapter \<Rightarrow> string list \<Rightarrow> ('s net station, string) prog" where
  "borg_command X A args = run_borg X A args (ba_root A)"

section \<open>Version\<close>

text \<open>The match of \<open>borg (\d+)\.(\d+)\.(\d+)(?:[+.-][A-Za-z0-9.]+)?\<close> with the whole text.\<close>

definition dotted :: "string \<Rightarrow> (string \<times> string) option" where
  "dotted s =
     (case dropWhile is_digit s of
        c # r \<Rightarrow> if takeWhile is_digit s \<noteq> [] \<and> c = CHR ''.'' then Some (takeWhile is_digit s, r) else None
      | [] \<Rightarrow> None)"

definition suffix_char :: "char \<Rightarrow> bool" where
  "suffix_char c \<longleftrightarrow> is_digit c \<or> c = CHR ''.'' \<or> (65 :: nat) \<le> of_char c \<and> of_char c \<le> (90 :: nat) \<or>
     (97 :: nat) \<le> of_char c \<and> of_char c \<le> (122 :: nat)"

definition version_suffix :: "string \<Rightarrow> bool" where
  "version_suffix s \<longleftrightarrow> s = [] \<or> (hd s \<in> set ''+.-'' \<and> tl s \<noteq> [] \<and> list_all suffix_char (tl s))"

definition version_numbers :: "string \<Rightarrow> (string \<times> string \<times> string) option" where
  "version_numbers v =
     (case strip_prefix ''borg '' v of None \<Rightarrow> None
      | Some s \<Rightarrow> (case dotted s of None \<Rightarrow> None
        | Some (a, s) \<Rightarrow> (case dotted s of None \<Rightarrow> None
          | Some (b, s) \<Rightarrow>
              let c = takeWhile is_digit s in
              if c \<noteq> [] \<and> version_suffix (drop (length c) s) then Some (a, b, c) else None)))"

definition supported_version :: "int \<times> int \<times> int \<Rightarrow> bool" where
  "supported_version v \<longleftrightarrow> v \<ge> (1, 2, 8) \<and> v < (2, 0, 0)"

definition borg_version :: "'s borg_outside \<Rightarrow> borg_adapter \<Rightarrow> ('s net station, string) prog" where
  "borg_version X A =
     seq (borg_command X A [''--version'']) (\<lambda>out.
     let version = strip_by str_space out in
     case version_numbers version of
       None \<Rightarrow> fail (BorgError ''unsupported-version'')
     | Some (a, b, c) \<Rightarrow>
         seq (lift_result (rbind (py_int a) (\<lambda>x. rbind (py_int b) (\<lambda>y. rbind (py_int c) (\<lambda>z. Inr (x, y, z)))))) (\<lambda>v.
         seq (require (supported_version v) (BorgError ''unsupported-version'')) (\<lambda>u. ret version)))"

section \<open>The repository\<close>

definition str_of_value :: "(pyval \<Rightarrow> string) \<Rightarrow> pyval \<Rightarrow> string" where
  "str_of_value other v =
     (case v of VStr s \<Rightarrow> s | VInt i \<Rightarrow> int_text i | VNull \<Rightarrow> ''None''
      | VBool b \<Rightarrow> if b then ''True'' else ''False'' | _ \<Rightarrow> other v)"

text \<open>\<open>v[key]\<close> with a text as the key.\<close>

definition subscript :: "pyval \<Rightarrow> string \<Rightarrow> pyval result" where
  "subscript v key =
     (case v of
        VDict kvs \<Rightarrow> (case dict_get kvs key of None \<Rightarrow> Inl KeyError | Some x \<Rightarrow> Inr x)
      | _ \<Rightarrow> Inl TypeError)"

definition info_error :: "error \<Rightarrow> bool" where
  "info_error e \<longleftrightarrow> e = KeyError \<or> e = TypeError \<or> e = bad_json"

definition identity_of_info :: "(pyval \<Rightarrow> string) \<Rightarrow> string \<Rightarrow> string result" where
  "identity_of_info other out =
     (case rbind (json_loads out) (\<lambda>v. rbind (subscript v ''repository'') (\<lambda>r. subscript r ''id'')) of
        Inl e \<Rightarrow> Inl (if info_error e then BorgError ''info-parse'' else e)
      | Inr v \<Rightarrow> if length (str_of_value other v) = 64 then Inr (str_of_value other v) else Inl (BorgError ''info-parse''))"

definition borg_identity :: "'s borg_outside \<Rightarrow> borg_adapter \<Rightarrow> ('s net station, string) prog" where
  "borg_identity X A =
     seq (borg_command X A [''info'', ''--json'', br_repository_ref (ba_repository A)]) (\<lambda>out.
     lift_result (identity_of_info (bo_repr X) out))"

definition borg_init :: "'s borg_outside \<Rightarrow> borg_adapter \<Rightarrow> ('s net station, string) prog" where
  "borg_init X A =
     seq (borg_version X A) (\<lambda>v.
     attempt (borg_identity X A) (\<lambda>e. e = BorgError ''borg-nonzero'' \<or> e = BorgError ''info-parse'')
       (\<lambda>e. seq (borg_command X A [''init'', ''--encryption='' @ encryption_text (br_encryption_mode (ba_repository A)),
           br_repository_ref (ba_repository A)]) (\<lambda>out.
         borg_identity X A)))"

section \<open>Archives\<close>

definition archive_ref :: "borg_adapter \<Rightarrow> string \<Rightarrow> string" where
  "archive_ref A name = br_repository_ref (ba_repository A) @ ''::'' @ name"

definition borg_create :: "'s borg_outside \<Rightarrow> borg_adapter \<Rightarrow> string \<Rightarrow> path \<Rightarrow> ('s net station, unit) prog" where
  "borg_create X A name snapshot =
     seq (run_borg X A [''create'', ''--json'', archive_ref A name, ''.''] snapshot) (\<lambda>out. ret ())"

definition MANIFEST_PATH :: string where
  "MANIFEST_PATH = ''metadata/backup-manifest.jsonl''"

definition manifest_bytes :: "'s borg_outside \<Rightarrow> borg_adapter \<Rightarrow> string \<Rightarrow> ('s net station, bytes) prog" where
  "manifest_bytes X A name =
     seq (borg_command X A [''extract'', ''--stdout'', archive_ref A name, MANIFEST_PATH]) (\<lambda>out. ret (utf8 out))"

text \<open>\<open>splitlines()\<close>: \<open>brk\<close> are the characters that end a line; CR LF is one end.\<close>

fun lines_by :: "(char \<Rightarrow> bool) \<Rightarrow> string \<Rightarrow> string \<Rightarrow> string list" where
  "lines_by brk cur [] = (if cur = [] then [] else [cur])"
| "lines_by brk cur [c] = (if brk c then [cur] else [cur @ [c]])"
| "lines_by brk cur (c # d # cs) =
     (if c = CHR 0x0D \<and> d = CHR 0x0A then cur # lines_by brk [] cs
      else if brk c then cur # lines_by brk [] (d # cs) else lines_by brk (cur @ [c]) (d # cs))"

definition byte_break :: "char \<Rightarrow> bool" where
  "byte_break c \<longleftrightarrow> of_char c \<in> {10, 13 :: nat}"

definition str_break :: "char \<Rightarrow> bool" where
  "str_break c \<longleftrightarrow> of_char c \<in> {10, 11, 12, 13, 28, 29, 30, 133 :: nat}"

text \<open>\<open>int(text)\<close>: surrounding white space, a sign, single underscores between digits.\<close>

definition int_of_text :: "string \<Rightarrow> int result" where
  "int_of_text s =
     (let t = strip_by str_space s; neg = (t \<noteq> [] \<and> hd t = CHR ''-'');
          body = (if t \<noteq> [] \<and> (hd t = CHR ''-'' \<or> hd t = CHR ''+'') then tl t else t);
          groups = split_on CHR ''_'' [] body in
      if list_all all_digits groups
      then rbind (py_int (concat groups)) (\<lambda>i. Inr (if neg then - i else i))
      else Inl (ValueError ''int''))"

type_synonym inventory_rows = "(string \<times> int \<times> string) list"

text \<open>A dictionary from path to size and digest, read from the lines of \<open>borg list\<close>.\<close>

fun inventory_of :: "string list \<Rightarrow> inventory_rows \<Rightarrow> inventory_rows result" where
  "inventory_of [] output = Inr output"
| "inventory_of (line # lines) output =
     (case split_on CHR 0x1F [] line of
        [path, len, digest] \<Rightarrow>
          if digest = [] then inventory_of lines output
          else (case int_of_text len of
              Inl e \<Rightarrow> Inl (BorgError ''inventory-parse'')
            | Inr n \<Rightarrow> inventory_of lines (AList.update path (n, digest) output))
      | _ \<Rightarrow> Inl (BorgError ''inventory-parse''))"

definition LIST_FORMAT :: string where
  "LIST_FORMAT = ''{path}'' @ [CHR 0x1F] @ ''{size}'' @ [CHR 0x1F] @ ''{sha256}{NL}''"

definition borg_inventory :: "'s borg_outside \<Rightarrow> borg_adapter \<Rightarrow> string \<Rightarrow> ('s net station, inventory_rows) prog" where
  "borg_inventory X A name =
     seq (borg_command X A [''list'', ''--format'', LIST_FORMAT, archive_ref A name]) (\<lambda>out.
     lift_result (inventory_of (lines_by str_break [] out) []))"

definition verify_data :: "'s borg_outside \<Rightarrow> borg_adapter \<Rightarrow> string \<Rightarrow> ('s net station, unit) prog" where
  "verify_data X A name =
     seq (borg_command X A [''check'', ''--archives-only'', ''--verify-data'', archive_ref A name]) (\<lambda>out. ret ())"

text \<open>\<open>extract\<close>: a successful run has put files below the destination.\<close>

definition unpack :: "'s borg_outside \<Rightarrow> path \<Rightarrow> ('s net station, unit) prog" where
  "unpack X destination w =
     (let tree = bo_extracted X (dk_calls (w_net w)) in
      (Inr (), put_fs (\<lambda>q. if is_prefix_of destination q
         then (case tree (drop (length destination) q) of None \<Rightarrow> w_fs w q | Some n \<Rightarrow> Some n)
         else w_fs w q) w))"

definition borg_extract :: "'s borg_outside \<Rightarrow> borg_adapter \<Rightarrow> string \<Rightarrow> path \<Rightarrow> ('s net station, unit) prog" where
  "borg_extract X A name destination =
     seq (run_borg X A [''extract'', archive_ref A name] destination) (\<lambda>out. unpack X destination)"

end
