(* ===== verification/BorgSnapshot.thy ===== *)
theory BorgSnapshot
  imports BorgAdapter
begin

text \<open>
  The snapshot a backup archives (\<open>_build_snapshot\<close> of \<open>borg.py\<close>): a copy of the database, a verified
  copy of every finalized message and of the attachments these refer to, and a manifest of all of it;
  and how \<open>verify_run\<close> reads a manifest.
\<close>

section \<open>More system calls\<close>

text \<open>\<open>except BorgError\<close> and \<open>except (OSError, sqlite3.Error)\<close>\<close>

fun borg_error :: "error \<Rightarrow> bool" where
  "borg_error (BorgError kind) = True"
| "borg_error e = False"

definition local_error :: "error \<Rightarrow> bool" where
  "local_error e \<longleftrightarrow> os_error e \<or> e = IntegrityError"

text \<open>\<open>mkdir(parents=True, exist_ok=False)\<close>\<close>

definition mkdir_new :: "system \<Rightarrow> path \<Rightarrow> ('p station, unit) prog" where
  "mkdir_new S p = syscall S (\<lambda>n. fold make_dir (take n (ancestors p)))
     (\<lambda>F. if F p = None \<and> list_all (\<lambda>q. F q = None \<or> F q = Some Directory) (ancestors p)
           then Inr (fold make_dir (ancestors p) F, ()) else Inl FileExistsError)"

text \<open>\<open>shutil.rmtree(ignore_errors=True)\<close> never raises; what fails leaves the files near the top.\<close>

definition rmtree :: "system \<Rightarrow> path \<Rightarrow> ('p station, unit) prog" where
  "rmtree S p w =
     (let ev = sy_event S (dk_calls (w_net w)); F = interfere ev (w_fs w); v = bump (put_fs F w);
          kept = (case ev of Fault n \<Rightarrow> length p + n | _ \<Rightarrow> 0) in
      (Inr (), put_fs (\<lambda>q. if is_prefix_of p q \<and> kept \<le> length q then None else F q) v))"

text \<open>\<open>path.relative_to(parent).as_posix()\<close>\<close>

definition relative_to :: "path \<Rightarrow> path \<Rightarrow> path result" where
  "relative_to p root_path =
     (if is_prefix_of root_path p then Inr (drop (length root_path) p) else Inl (ValueError ''not in the subpath''))"

section \<open>Copies\<close>

text \<open>\<open>sqlite3\<close>'s online backup: the copy holds the database of that moment.\<close>

definition snapshot_database :: "'s borg_outside \<Rightarrow> path \<Rightarrow> ('s net station, db) prog" where
  "snapshot_database X destination =
     (let S = bo_system X; remove = (\<lambda>suffix.
          let sidecar = butlast destination @ [last destination @ suffix] in
          seq (exists_at S sidecar) (\<lambda>e. if e then unlink S sidecar False else ret ())) in
      seq (mkdirs S (parent destination)) (\<lambda>u.
      seq (read_state w_db) (\<lambda>d.
      seq (write_file S destination (sq_image (bo_sqlite X) d)) (\<lambda>u.
      seq (read_at S destination) (\<lambda>b.
      seq (require (sq_intact (bo_sqlite X) b) (BorgError ''sqlite-snapshot'')) (\<lambda>u.
      seq (remove ''-wal'') (\<lambda>u.
      seq (remove ''-shm'') (\<lambda>u.
      ret d))))))))"

definition copy_verified :: "'s borg_outside \<Rightarrow> path \<Rightarrow> path \<Rightarrow> string \<Rightarrow> ('s net station, unit) prog" where
  "copy_verified X source destination digest =
     (let S = bo_system X in
      seq (mkdirs S (parent destination)) (\<lambda>u.
      seq (attempt (link S source destination) os_error (\<lambda>e. copy_file S source destination)) (\<lambda>u.
      seq (sha_at S (bo_host X) destination) (\<lambda>d. require (d = digest) (BorgError ''snapshot-sha-mismatch'')))))"

section \<open>The manifest\<close>

type_synonym entry = "(string \<times> json) list"

definition entry_text :: "entry \<Rightarrow> string \<Rightarrow> string" where
  "entry_text e key = (case map_of e key of Some (JStr s) \<Rightarrow> s | _ \<Rightarrow> [])"

definition canonical_entry :: "canonical_message \<Rightarrow> string \<Rightarrow> entry" where
  "canonical_entry c relative =
     [(''kind'', JStr ''canonical''), (''canonical_id'', JStr (cm_id c)), (''sha256'', JStr (cm_sha256 c)),
      (''size_bytes'', JInt (cm_size_bytes c)),
      (''storage_state'', JStr (if cm_storage_state c = Archived then ''archived'' else ''quarantined'')),
      (''path'', JStr relative)]"

definition attachment_entry :: "attachment_row \<Rightarrow> string \<Rightarrow> entry" where
  "attachment_entry a relative =
     [(''kind'', JStr ''attachment''), (''attachment_id'', JStr (at_id a)), (''sha256'', JStr (at_sha256 a)),
      (''size_bytes'', JInt (at_size_bytes a)), (''path'', JStr relative)]"

definition sqlite_entry :: "string \<Rightarrow> nat \<Rightarrow> entry" where
  "sqlite_entry digest len =
     [(''kind'', JStr ''sqlite''), (''path'', JStr ''state/mailarchive.sqlite3''), (''sha256'', JStr digest),
      (''size_bytes'', JInt (int len))]"

text \<open>\<open>json.dumps(item, sort_keys=True, separators=(",", ":"))\<close> and a line feed.\<close>

definition manifest_line :: "entry \<Rightarrow> bytes" where
  "manifest_line e = dumps '','' '':'' (JObj (sort_key fst e)) @ [CHR 0x0A]"

definition manifest_of :: "entry list \<Rightarrow> bytes" where
  "manifest_of es = concat (map manifest_line (sort_key (\<lambda>e. (entry_text e ''kind'', entry_text e ''path'')) es))"

section \<open>Materialization\<close>

text \<open>What the two checks of an object have in common: an intact regular file at an expected place.\<close>

definition expect_object :: "'s borg_outside \<Rightarrow> bool \<Rightarrow> path \<Rightarrow> string \<Rightarrow> string \<Rightarrow> ('s net station, unit) prog" where
  "expect_object X fits path digest kind =
     (if \<not> fits then fail (BorgError kind)
      else seq (is_file_at (bo_system X) path) (\<lambda>b.
        if b then seq (sha_at (bo_system X) (bo_host X) path) (\<lambda>d. require (d = digest) (BorgError kind))
        else fail (BorgError kind)))"

definition add_canonical :: "'s borg_outside \<Rightarrow> path \<Rightarrow> path \<Rightarrow> canonical_message \<Rightarrow> ('s net station, entry) prog" where
  "add_canonical X root_path snapshot c =
     (let H = bo_host X;
          allowed = root_path @ [if cm_storage_state c = Archived then ''mail'' else ''quarantine''] in
      seq (lift_result (resolved H (cm_local_path c))) (\<lambda>path.
      seq (lift_result (inside H (resolved H path) allowed)) (\<lambda>fits.
      seq (expect_object X fits path (cm_sha256 c) ''canonical-invalid'') (\<lambda>u.
      seq (lift_result (relative_to path root_path)) (\<lambda>relative.
      seq (copy_verified X path (snapshot @ relative) (cm_sha256 c)) (\<lambda>u.
      ret (canonical_entry c (path_str relative))))))))"

definition add_attachment :: "'s borg_outside \<Rightarrow> path \<Rightarrow> path \<Rightarrow> attachment_row \<Rightarrow> ('s net station, entry) prog" where
  "add_attachment X root_path snapshot a =
     (let H = bo_host X; digest = at_sha256 a in
      seq (lift_result (resolved H (at_content_path a))) (\<lambda>path.
      seq (lift_result (resolved H (root_path @ [''attachments'', ''sha256'', take 2 digest, digest]))) (\<lambda>expected.
      seq (expect_object X (path = expected) path digest ''attachment-invalid'') (\<lambda>u.
      seq (lift_result (relative_to path root_path)) (\<lambda>relative.
      seq (copy_verified X path (snapshot @ relative) digest) (\<lambda>u.
      ret (attachment_entry a (path_str relative))))))))"

definition finalized :: "db \<Rightarrow> canonical_message list" where
  "finalized d = sort_key cm_id (filter (\<lambda>c. cm_storage_state c \<noteq> Pending) (canonical_messages d))"

definition referenced_attachments :: "db \<Rightarrow> attachment_row list" where
  "referenced_attachments d =
     sort_key at_id (filter (\<lambda>a. list_ex (\<lambda>m. ma_attachment_id m = at_id a \<and>
       list_ex (\<lambda>c. cm_id c = ma_canonical_message_id m) (finalized d)) (message_attachments d)) (attachments d))"

definition materialize_snapshot :: "'s borg_outside \<Rightarrow> path \<Rightarrow> path \<Rightarrow> path \<Rightarrow> db \<Rightarrow>
    ('s net station, string list \<times> string) prog" where
  "materialize_snapshot X root_path snapshot sqlite_path d =
     (let S = bo_system X; manifest_path = snapshot @ [''metadata'', ''backup-manifest.jsonl''] in
      seq (for_each (add_canonical X root_path snapshot) (finalized d)) (\<lambda>canonical.
      seq (for_each (add_attachment X root_path snapshot) (referenced_attachments d)) (\<lambda>attached.
      seq (sha_at S (bo_host X) sqlite_path) (\<lambda>digest.
      seq (read_at S sqlite_path) (\<lambda>b.
      let manifest = manifest_of (canonical @ attached @ [sqlite_entry digest (length b)]) in
      seq (mkdirs S (parent manifest_path)) (\<lambda>u.
      seq (write_file S manifest_path manifest) (\<lambda>u.
      ret (map cm_id (finalized d), h_sha256 (bo_host X) manifest))))))))"

definition snapshot_path :: "path \<Rightarrow> string \<Rightarrow> path" where
  "snapshot_path root_path run_id = root_path @ [''state'', ''backup-snapshots'', run_id]"

definition build_snapshot :: "'s borg_outside \<Rightarrow> app_config \<Rightarrow> string \<Rightarrow> ('s net station, string list \<times> string) prog" where
  "build_snapshot X cfg run_id =
     seq (lift_result (resolved (bo_host X) (cf_archive_root cfg))) (\<lambda>root_path.
     let S = bo_system X; snapshot = snapshot_path root_path run_id;
         sqlite_path = snapshot @ [''state'', ''mailarchive.sqlite3''] in
     attempt
       (seq (mkdir_new S snapshot) (\<lambda>u.
        seq (snapshot_database X sqlite_path) (\<lambda>d.
        materialize_snapshot X root_path snapshot sqlite_path d)))
       (\<lambda>e. borg_error e \<or> local_error e)
       (\<lambda>e. seq (rmtree S snapshot) (\<lambda>u. fail (if local_error e then BorgError ''snapshot-materialization'' else e))))"

section \<open>Reading a manifest\<close>

definition lower_hex :: "string \<Rightarrow> bool" where
  "lower_hex s \<longleftrightarrow> length s = 64 \<and>
     list_all (\<lambda>c. is_digit c \<or> (97 :: nat) \<le> of_char c \<and> of_char c \<le> (102 :: nat)) s"

text \<open>A record of the manifest, as far as it is read: path, size and digest.\<close>

definition manifest_record :: "pyval \<Rightarrow> (string \<times> int \<times> string) option" where
  "manifest_record v =
     (case v of
        VDict kvs \<Rightarrow>
          (case (dict_get_or kvs ''kind'' VNull, dict_get_or kvs ''path'' VNull, dict_get_or kvs ''sha256'' VNull,
              dict_get_or kvs ''size_bytes'' VNull) of
             (VStr kind, VStr path, VStr digest, VInt n) \<Rightarrow>
               if kind \<in> {''canonical'', ''attachment'', ''sqlite''} \<and> path \<noteq> [] \<and> lower_hex digest \<and> 0 \<le> n
               then Some (path, n, digest) else None
           | _ \<Rightarrow> None)
      | _ \<Rightarrow> None)"

text \<open>Every exception of the parser and of the checks becomes one error.\<close>

definition read_record :: "bytes \<Rightarrow> (string \<times> int \<times> string) result" where
  "read_record line =
     (case json_loads_bytes line of
        Inl e \<Rightarrow> Inl (BorgError ''manifest-parse'')
      | Inr v \<Rightarrow> (case manifest_record v of None \<Rightarrow> Inl (BorgError ''manifest-parse'') | Some r \<Rightarrow> Inr r))"

definition parse_manifest :: "bytes \<Rightarrow> inventory_rows result" where
  "parse_manifest manifest =
     rbind (each read_record (lines_by byte_break [] manifest)) (\<lambda>entries.
     rbind (ensure (entries \<noteq> []) (BorgError ''manifest-parse'')) (\<lambda>u. Inr entries))"

definition expected_inventory :: "inventory_rows \<Rightarrow> inventory_rows result" where
  "expected_inventory entries =
     (let expected = fold (\<lambda>(path, x). AList.update path x) entries [] in
      rbind (ensure (length expected = length entries) (BorgError ''manifest-parse'')) (\<lambda>u. Inr expected))"

text \<open>Equality of two dictionaries.\<close>

definition same_dict :: "inventory_rows \<Rightarrow> inventory_rows \<Rightarrow> bool" where
  "same_dict xs ys \<longleftrightarrow>
     list_all (\<lambda>(k, v). map_of ys k = Some v) xs \<and> list_all (\<lambda>(k, v). map_of xs k = Some v) ys"

end
