(* ===== verification/BorgRuns.thy ===== *)
theory BorgRuns
  imports BorgSnapshot
begin

text \<open>
  The operations of \<open>borg.py\<close>: binding a repository, making a backup, verifying it, testing a restore, and
  the status.  Each writes the tables of backups in transactions of its own, around the commands that
  Borg runs.
\<close>

definition repository_config :: "app_config \<Rightarrow> string \<Rightarrow> backup_repository_config result" where
  "repository_config cfg name =
     (case find (\<lambda>b. br_name b = name) (cf_backup_repositories cfg) of
        None \<Rightarrow> Inl (BorgError ''repository-unknown'') | Some b \<Rightarrow> Inr b)"

definition borg_locked :: "'s borg_outside \<Rightarrow> app_config \<Rightarrow> string \<Rightarrow> ('s net station, 'a) prog \<Rightarrow> ('s net station, 'a) prog" where
  "borg_locked X cfg name =
     locked (bo_peer X) (cf_archive_root cfg @ [''state'', ''locks'', ''borg-'' @ name @ ''.lock'']) (BorgError ''concurrent-run'')"

definition repository_of_name :: "string \<Rightarrow> db \<Rightarrow> repository_row option" where
  "repository_of_name name d = find (\<lambda>r. rp_name r = name) (backup_repositories d)"

definition reconciled :: "'s borg_outside \<Rightarrow> app_config \<Rightarrow> ('s net station, unit) prog" where
  "reconciled X cfg = transaction (initialize (bo_host X) (cf_accounts cfg) (cf_backup_repositories cfg))"

definition update_run :: "string \<Rightarrow> (backup_run_row \<Rightarrow> backup_run_row) \<Rightarrow> db \<Rightarrow> db" where
  "update_run rid f d = d\<lparr>backup_runs := update_where (\<lambda>r. bk_id r = rid) f (backup_runs d)\<rparr>"

section \<open>Binding a repository\<close>

text \<open>The identity a name is bound to; the unbound name is initialized, a bound one only probed.\<close>

definition bind_repository :: "'s borg_outside \<Rightarrow> borg_adapter \<Rightarrow> string \<Rightarrow> ('s net station, string) prog" where
  "bind_repository X A name =
     seq (read_state (\<lambda>w. repository_of_name name (w_db w))) (\<lambda>row.
     let known = (case row of None \<Rightarrow> None | Some r \<Rightarrow> rp_repository_identity r) in
     seq (if known \<noteq> None then borg_identity X A else borg_init X A) (\<lambda>ident.
     seq (require (known = None \<or> known = Some ident) (BorgError ''repository-identity-mismatch'')) (\<lambda>u.
     seq (transaction (\<lambda>w. (Inr (), commit ((w_db w)\<lparr>backup_repositories :=
         update_where (\<lambda>r. rp_name r = name)
           (\<lambda>r. r\<lparr>rp_repository_identity := Some ident, rp_updated_at := reading (bo_host X) w 0\<rparr>)
           (backup_repositories (w_db w))\<rparr>) 1 w))) (\<lambda>u.
     ret ident))))"

definition repo_init :: "'s borg_outside \<Rightarrow> app_config \<Rightarrow> string \<Rightarrow> ('s net station, string) prog" where
  "repo_init X cfg name =
     seq (reconciled X cfg) (\<lambda>u.
     seq (lift_result (repository_config cfg name)) (\<lambda>repository.
     seq (lift_result (borg_adapter_for (bo_host X) cfg repository)) (\<lambda>A.
     borg_locked X cfg name (bind_repository X A name))))"

section \<open>A backup\<close>

definition archive_name :: "'s borg_outside \<Rightarrow> ('s net station, string) prog" where
  "archive_name X w =
     (Inr (''mailarchive-'' @ bo_strftime X (h_clock (bo_host X) (w_tick w)) @ ''-'' @ bo_run_id X), tick 1 w)"

definition new_run :: "'s borg_outside \<Rightarrow> string \<Rightarrow> repository_row \<Rightarrow> string \<Rightarrow> backup_run_row" where
  "new_run X archive row now =
     \<lparr>bk_id = bo_run_id X, bk_repository_id = rp_id row, bk_started_at = now, bk_completed_at = None,
      bk_status = BackupRunning, bk_archive_name = archive, bk_command_exit_code = None,
      bk_manifest_sha256 = None, bk_verification_status = Unverified, bk_verified_at = None,
      bk_last_error_kind = None, bk_details_json = ''{}''\<rparr>"

text \<open>Runs a crash left behind are closed, and the new one is recorded before anything is archived.\<close>

definition start_run :: "'s borg_outside \<Rightarrow> string \<Rightarrow> repository_row \<Rightarrow> ('s net station, unit) prog" where
  "start_run X archive row = transaction (\<lambda>w.
     let d = w_db w; H = bo_host X;
         runs = update_where (\<lambda>r. bk_repository_id r = rp_id row \<and> bk_status r = BackupRunning)
           (\<lambda>r. r\<lparr>bk_status := BackupFailed, bk_completed_at := Some (reading H w 0),
              bk_verification_status := VerificationFailed, bk_last_error_kind := Some ''interrupted''\<rparr>) (backup_runs d) in
     if list_ex (\<lambda>r. bk_id r = bo_run_id X \<or> bk_repository_id r = rp_id row \<and> bk_archive_name r = archive) runs
     then (Inl IntegrityError, w)
     else (Inr (), commit (d\<lparr>backup_runs := runs @ [new_run X archive row (reading H w 1)]\<rparr>) 2 w))"

fun evidence_of :: "'s borg_outside \<Rightarrow> nat \<Rightarrow> string list \<Rightarrow> 'p world \<Rightarrow> evidence_row list" where
  "evidence_of X k [] w = []"
| "evidence_of X k (c # cs) w =
     \<lparr>be_canonical_message_id = c, be_backup_run_id = bo_run_id X, be_covered = True, be_verified = False,
      be_recorded_at = reading (bo_host X) w k\<rparr> # evidence_of X (Suc k) cs w"

definition record_backup :: "'s borg_outside \<Rightarrow> string list \<Rightarrow> string \<Rightarrow> ('s net station, unit) prog" where
  "record_backup X ids manifest = transaction (\<lambda>w.
     let d = w_db w; rid = bo_run_id X in
     if distinct ids \<and> list_all (\<lambda>c. list_ex (\<lambda>m. cm_id m = c) (canonical_messages d)) ids \<and>
        \<not> list_ex (\<lambda>e. be_backup_run_id e = rid \<and> be_canonical_message_id e \<in> set ids) (message_backup_evidence d)
     then (Inr (), commit (update_run rid
         (\<lambda>r. r\<lparr>bk_status := BackupSucceeded, bk_completed_at := Some (reading (bo_host X) w 0),
            bk_command_exit_code := Some 0, bk_manifest_sha256 := Some manifest\<rparr>)
         (d\<lparr>message_backup_evidence := message_backup_evidence d @ evidence_of X 1 ids w\<rparr>)) (1 + length ids) w)
     else (Inl IntegrityError, w))"

definition run_failed :: "'s borg_outside \<Rightarrow> string \<Rightarrow> ('s net station, unit) prog" where
  "run_failed X kind = transaction (\<lambda>w. (Inr (), commit (update_run (bo_run_id X)
     (\<lambda>r. r\<lparr>bk_status := BackupFailed, bk_completed_at := Some (reading (bo_host X) w 0),
        bk_verification_status := VerificationFailed, bk_last_error_kind := Some kind\<rparr>) (w_db w)) 1 w))"

fun error_kind :: "error \<Rightarrow> string" where
  "error_kind (BorgError kind) = kind"
| "error_kind e = []"

definition archived_run :: "'s borg_outside \<Rightarrow> app_config \<Rightarrow> borg_adapter \<Rightarrow> string \<Rightarrow> path \<Rightarrow> ('s net station, unit) prog" where
  "archived_run X cfg A archive snapshot =
     (let bounded = (\<lambda>e. if local_error e then BorgError ''local-operation'' else e) in
      finalize
        (attempt
          (seq (build_snapshot X cfg (bo_run_id X)) (\<lambda>s.
           seq (borg_create X A archive snapshot) (\<lambda>u.
           record_backup X (fst s) (snd s))))
          (\<lambda>e. borg_error e \<or> local_error e)
          (\<lambda>e. seq (run_failed X (error_kind (bounded e))) (\<lambda>u. fail (bounded e))))
        (rmtree (bo_system X) snapshot))"

definition backup_locked :: "'s borg_outside \<Rightarrow> app_config \<Rightarrow> borg_adapter \<Rightarrow> string \<Rightarrow> string \<Rightarrow> ('s net station, unit) prog" where
  "backup_locked X cfg A name archive =
     seq (read_state (\<lambda>w. repository_of_name name (w_db w))) (\<lambda>found.
     case found of
       None \<Rightarrow> fail (BorgError ''repository-unknown'')
     | Some row \<Rightarrow>
         seq (borg_version X A) (\<lambda>v.
         seq (case rp_repository_identity row of
             None \<Rightarrow> fail (BorgError ''repository-identity-mismatch'')
           | Some known \<Rightarrow> seq (borg_identity X A) (\<lambda>ident.
               require (ident = known) (BorgError ''repository-identity-mismatch''))) (\<lambda>u.
         seq (start_run X archive row) (\<lambda>u.
         seq (lift_result (resolved (bo_host X) (cf_archive_root cfg))) (\<lambda>root_path.
         archived_run X cfg A archive (snapshot_path root_path (bo_run_id X)))))))"

definition backup_run :: "'s borg_outside \<Rightarrow> app_config \<Rightarrow> string \<Rightarrow> ('s net station, string) prog" where
  "backup_run X cfg name =
     seq (reconciled X cfg) (\<lambda>u.
     seq (lift_result (repository_config cfg name)) (\<lambda>repository.
     seq (require (br_enabled repository) (BorgError ''repository-disabled'')) (\<lambda>u.
     seq (lift_result (borg_adapter_for (bo_host X) cfg repository)) (\<lambda>A.
     seq (archive_name X) (\<lambda>archive.
     seq (borg_locked X cfg name (backup_locked X cfg A name archive)) (\<lambda>u.
     ret (bo_run_id X)))))))"

section \<open>Verification\<close>

text \<open>A run with the name and the identity of its repository.\<close>

definition run_of :: "string \<Rightarrow> db \<Rightarrow> (backup_run_row \<times> repository_row) option" where
  "run_of rid d =
     (case find (\<lambda>r. bk_id r = rid) (backup_runs d) of
        None \<Rightarrow> None
      | Some r \<Rightarrow> map_option (Pair r) (find (\<lambda>b. rp_id b = bk_repository_id r) (backup_repositories d)))"

definition fail_verification :: "string \<Rightarrow> string \<Rightarrow> ('p station, unit) prog" where
  "fail_verification rid kind = transaction (\<lambda>w. (Inr (),
     commit (let d = update_run rid (\<lambda>r. r\<lparr>bk_verification_status := VerificationFailed, bk_verified_at := None,
               bk_last_error_kind := Some kind\<rparr>) (w_db w) in
       d\<lparr>message_backup_evidence := update_where (\<lambda>e. be_backup_run_id e = rid) (\<lambda>e. e\<lparr>be_verified := False\<rparr>)
           (message_backup_evidence d)\<rparr>) 0 w))"

definition confirm_verification :: "host \<Rightarrow> string \<Rightarrow> ('p station, unit) prog" where
  "confirm_verification H rid = transaction (\<lambda>w. (Inr (),
     commit (let d = update_run rid (\<lambda>r. r\<lparr>bk_verification_status := Verified, bk_verified_at := Some (reading H w 0),
               bk_last_error_kind := None\<rparr>) (w_db w) in
       d\<lparr>message_backup_evidence := update_where (\<lambda>e. be_backup_run_id e = rid \<and> be_covered e)
           (\<lambda>e. e\<lparr>be_verified := True\<rparr>) (message_backup_evidence d)\<rparr>) 1 w))"

text \<open>The archive holds exactly the objects of the manifest the run recorded, and its data are sound.\<close>

definition verify_archive :: "'s borg_outside \<Rightarrow> borg_adapter \<Rightarrow> backup_run_row \<Rightarrow> repository_row \<Rightarrow> ('s net station, unit) prog" where
  "verify_archive X A run row =
     (let H = bo_host X; archive = bk_archive_name run in
      seq (borg_identity X A) (\<lambda>ident.
      seq (require (rp_repository_identity row = Some ident) (BorgError ''repository-identity-mismatch'')) (\<lambda>u.
      seq (manifest_bytes X A archive) (\<lambda>manifest.
      seq (require (Some (h_sha256 H manifest) = bk_manifest_sha256 run) (BorgError ''manifest-mismatch'')) (\<lambda>u.
      seq (lift_result (parse_manifest manifest)) (\<lambda>entries.
      seq (lift_result (expected_inventory entries)) (\<lambda>objects.
      let expected = AList.update MANIFEST_PATH (int (length manifest), h_sha256 H manifest) objects in
      seq (borg_inventory X A archive) (\<lambda>inventory.
      seq (require (same_dict inventory expected) (BorgError ''inventory-mismatch'')) (\<lambda>u.
      verify_data X A archive)))))))))"

definition verify_found :: "'s borg_outside \<Rightarrow> app_config \<Rightarrow> string \<Rightarrow> backup_run_row \<Rightarrow> repository_row \<Rightarrow>
    ('s net station, unit) prog" where
  "verify_found X cfg rid run row =
     (let bounded = (\<lambda>e. if local_error e then BorgError ''verification-local-error'' else e) in
      seq (require (bk_status run = BackupSucceeded \<and> bk_manifest_sha256 run \<noteq> None \<and>
        bk_manifest_sha256 run \<noteq> Some []) (BorgError ''run-invalid'')) (\<lambda>u.
      seq (lift_result (repository_config cfg (rp_name row))) (\<lambda>repository.
      seq (lift_result (borg_adapter_for (bo_host X) cfg repository)) (\<lambda>A.
      seq (attempt (borg_locked X cfg (br_name repository) (verify_archive X A run row))
        (\<lambda>e. borg_error e \<or> local_error e)
        (\<lambda>e. seq (fail_verification rid (error_kind (bounded e))) (\<lambda>u. fail (bounded e)))) (\<lambda>u.
      confirm_verification (bo_host X) rid)))))"

definition verify_run :: "'s borg_outside \<Rightarrow> app_config \<Rightarrow> string \<Rightarrow> ('s net station, unit) prog" where
  "verify_run X cfg rid =
     seq (reconciled X cfg) (\<lambda>u.
     seq (read_state (\<lambda>w. run_of rid (w_db w))) (\<lambda>found.
     case found of None \<Rightarrow> fail (BorgError ''run-invalid'') | Some (run, row) \<Rightarrow> verify_found X cfg rid run row))"

section \<open>Testing a restore\<close>

text \<open>\<open>any(destination.iterdir() if destination.exists() else ())\<close>\<close>

definition occupied :: "system \<Rightarrow> path \<Rightarrow> ('p station, bool) prog" where
  "occupied S p =
     seq (exists_at S p) (\<lambda>e.
     if e then syscall S (\<lambda>n F. F) (\<lambda>F. if F p = Some Directory then Inr (F, \<exists>n. F (p @ [n]) \<noteq> None) else Inl OSError)
     else ret False)"

definition start_test :: "host \<Rightarrow> string \<Rightarrow> ('p station, (backup_run_row \<times> repository_row) \<times> int) prog" where
  "start_test H rid = transaction (\<lambda>w.
     case run_of rid (w_db w) of
       None \<Rightarrow> (Inl (BorgError ''run-invalid''), w)
     | Some found \<Rightarrow>
         let tests = backup_restore_tests (w_db w); i = next_rowid (map bt_id tests) in
         (Inr (found, i), commit ((w_db w)\<lparr>backup_restore_tests := tests @
           [\<lparr>bt_id = i, bt_backup_run_id = rid, bt_started_at = reading H w 0, bt_completed_at = None,
             bt_status = BackupRunning, bt_error_kind = None\<rparr>]\<rparr>) 1 w))"

definition finish_test :: "host \<Rightarrow> int \<Rightarrow> string option \<Rightarrow> ('p station, unit) prog" where
  "finish_test H i kind = transaction (\<lambda>w. (Inr (), commit ((w_db w)\<lparr>backup_restore_tests :=
     update_where (\<lambda>t. bt_id t = i) (\<lambda>t. t\<lparr>bt_completed_at := Some (reading H w 0),
       bt_status := (if kind = None then BackupSucceeded else BackupFailed),
       bt_error_kind := (if kind = None then bt_error_kind t else kind)\<rparr>) (backup_restore_tests (w_db w))\<rparr>) 1 w))"

text \<open>Opening the restored database: a missing file becomes an empty one, which passes both checks.\<close>

definition check_restored_database :: "'s borg_outside \<Rightarrow> path \<Rightarrow> ('s net station, unit) prog" where
  "check_restored_database X p =
     syscall (bo_system X) (\<lambda>n F. F)
       (\<lambda>F. case F p of
          None \<Rightarrow> if F (parent p) = Some Directory then Inr (F(p \<mapsto> RegFile []), ()) else Inl IntegrityError
        | Some (RegFile b) \<Rightarrow>
            if sq_intact (bo_sqlite X) b \<and> sq_foreign_keys (bo_sqlite X) b then Inr (F, ())
            else Inl (BorgError ''sqlite-restore-invalid'')
        | Some _ \<Rightarrow> Inl IntegrityError)"

text \<open>\<open>int(value)\<close>; a floating point size, which no manifest written here has, is refused.\<close>

definition int_of_value :: "pyval \<Rightarrow> int result" where
  "int_of_value v =
     (case v of VInt i \<Rightarrow> Inr i | VBool b \<Rightarrow> Inr (if b then 1 else 0) | VStr s \<Rightarrow> int_of_text s | _ \<Rightarrow> Inl TypeError)"

definition under :: "path \<Rightarrow> string \<Rightarrow> path" where
  "under destination s = (if is_absolute (path_of s) then path_of s else destination @ path_of s)"

text \<open>One line of the manifest against the restored files.\<close>

definition check_restored :: "'s borg_outside \<Rightarrow> path \<Rightarrow> bytes \<Rightarrow> ('s net station, unit) prog" where
  "check_restored X destination line =
     (let S = bo_system X; wrong = BorgError ''restore-object-mismatch'' in
      seq (lift_result (json_loads_bytes line)) (\<lambda>item.
      seq (lift_result (subscript item ''path'')) (\<lambda>name.
      let path = under destination (str_of_value (bo_repr X) name) in
      seq (is_file_at S path) (\<lambda>b.
      seq (require b wrong) (\<lambda>u.
      seq (read_at S path) (\<lambda>content.
      seq (lift_result (rbind (subscript item ''size_bytes'') int_of_value)) (\<lambda>n.
      seq (require (int (length content) = n) wrong) (\<lambda>u.
      seq (sha_at S (bo_host X) path) (\<lambda>d.
      seq (lift_result (subscript item ''sha256'')) (\<lambda>digest.
      require (VStr d = digest) wrong))))))))))"

definition restore_archive :: "'s borg_outside \<Rightarrow> app_config \<Rightarrow> backup_run_row \<Rightarrow> repository_row \<Rightarrow> path \<Rightarrow>
    ('s net station, unit) prog" where
  "restore_archive X cfg run row destination =
     (let S = bo_system X; H = bo_host X in
      seq (mkdirs S destination) (\<lambda>u.
      seq (lift_result (repository_config cfg (rp_name row))) (\<lambda>repository.
      seq (lift_result (borg_adapter_for H cfg repository)) (\<lambda>A.
      seq (borg_identity X A) (\<lambda>ident.
      seq (require (rp_repository_identity row = Some ident) (BorgError ''repository-identity-mismatch'')) (\<lambda>u.
      seq (borg_extract X A (bk_archive_name run) destination) (\<lambda>u.
      seq (read_at S (destination @ [''metadata'', ''backup-manifest.jsonl''])) (\<lambda>manifest.
      seq (require (Some (h_sha256 H manifest) = bk_manifest_sha256 run) (BorgError ''manifest-mismatch'')) (\<lambda>u.
      seq (check_restored_database X (destination @ [''state'', ''mailarchive.sqlite3''])) (\<lambda>u.
      seq (for_each (check_restored X destination) (lines_by byte_break [] manifest)) (\<lambda>us.
      ret ())))))))))))"

definition restore_error :: "error \<Rightarrow> bool" where
  "restore_error e \<longleftrightarrow> local_error e \<or> e = KeyError \<or> e = TypeError \<or> e = UnicodeError \<or>
     (case e of ValueError m \<Rightarrow> True | _ \<Rightarrow> False)"

definition restore_test :: "'s borg_outside \<Rightarrow> app_config \<Rightarrow> string \<Rightarrow> path \<Rightarrow> ('s net station, unit) prog" where
  "restore_test X cfg rid target =
     (let H = bo_host X; bounded = (\<lambda>e. if borg_error e then e else BorgError ''restore-parse'') in
      seq (reconciled X cfg) (\<lambda>u.
      seq (lift_result (resolved H target)) (\<lambda>destination.
      seq (lift_result (inside H (resolved H destination) (cf_archive_root cfg))) (\<lambda>b.
      seq (require (\<not> b) (BorgError ''restore-destination-invalid'')) (\<lambda>u.
      seq (occupied (bo_system X) destination) (\<lambda>used.
      seq (require (\<not> used) (BorgError ''restore-destination-invalid'')) (\<lambda>u.
      seq (start_test H rid) (\<lambda>found.
      seq (attempt (restore_archive X cfg (fst (fst found)) (snd (fst found)) destination)
        (\<lambda>e. borg_error e \<or> restore_error e)
        (\<lambda>e. seq (finish_test H (snd found) (Some (error_kind (bounded e)))) (\<lambda>u. fail (bounded e)))) (\<lambda>u.
      finish_test H (snd found) None)))))))))"

section \<open>Status\<close>

record backup_report =
  bs_name :: string
  bs_enabled :: bool
  bs_repository_identity :: "string option"
  bs_last_backup_run :: "backup_status option"
  bs_last_successful_backup_run :: "backup_status option"
  bs_last_verification_status :: "verification_status option"
  bs_last_verified_at :: "string option"
  bs_verified_message_evidence_count :: nat
  bs_repository_identity_known :: bool

text \<open>\<open>ORDER BY started_at DESC LIMIT 1\<close>; among runs with one time, the first in the table.\<close>

fun latest :: "backup_run_row list \<Rightarrow> backup_run_row option" where
  "latest [] = None"
| "latest (r # rs) =
     (case latest rs of None \<Rightarrow> Some r | Some s \<Rightarrow> if bk_started_at s > bk_started_at r then Some s else Some r)"

definition repository_report :: "db \<Rightarrow> repository_row \<Rightarrow> backup_report" where
  "repository_report d b =
     (let runs = filter (\<lambda>r. bk_repository_id r = rp_id b) (backup_runs d) in
      \<lparr>bs_name = rp_name b, bs_enabled = rp_enabled b, bs_repository_identity = rp_repository_identity b,
       bs_last_backup_run = map_option bk_status (latest runs),
       bs_last_successful_backup_run = map_option bk_status (latest (filter (\<lambda>r. bk_status r = BackupSucceeded) runs)),
       bs_last_verification_status = map_option bk_verification_status (latest runs),
       bs_last_verified_at = (case latest runs of None \<Rightarrow> None | Some r \<Rightarrow> bk_verified_at r),
       bs_verified_message_evidence_count = length (filter (\<lambda>e. be_verified e \<and>
          list_ex (\<lambda>r. bk_id r = be_backup_run_id e) runs) (message_backup_evidence d)),
       bs_repository_identity_known = (rp_repository_identity b \<noteq> None)\<rparr>)"

definition backup_status_report :: "db \<Rightarrow> backup_report list" where
  "backup_status_report d = map (repository_report d) (sort_key rp_name (backup_repositories d))"

end
