(* ===== verification/BorgEvidence.thy ===== *)
theory BorgEvidence
  imports BorgRuns
begin

text \<open>
  What stands behind the evidence of a backup.  The Borg commands that succeeded are read off the trace;
  a verification that returns has seen the right repository, the recorded manifest, an inventory that is
  the manifest's and a check of the data, in this order, and only then are the rows of its run verified.
\<close>

section \<open>Answers\<close>

text \<open>The Borg commands that ended with status 0, with their output, in the order of the trace.\<close>

fun borg_answer :: "event \<Rightarrow> (string list \<times> string) list" where
  "borg_answer (RunBorg args cwd env, Inr (Ran status out)) = (if status = 0 then [(args, out)] else [])"
| "borg_answer e = []"

definition borg_answers :: "'s net station \<Rightarrow> (string list \<times> string) list" where
  "borg_answers w = concat (map borg_answer (nt_trace (dk_rest (w_net w))))"

text \<open>The database is as it was, and Borg has given the answers \<open>xs\<close>.\<close>

definition told :: "'s net station \<Rightarrow> (string list \<times> string) list \<Rightarrow> 's net station \<Rightarrow> bool" where
  "told w xs v \<longleftrightarrow> w_db v = w_db w \<and> borg_answers v = borg_answers w @ xs"

definition keeps_db :: "'s net station \<Rightarrow> 's net station \<Rightarrow> bool" where
  "keeps_db w v \<longleftrightarrow> w_db v = w_db w"

interpretation telling: step_frame "\<lambda>w. told w []"
  by unfold_locales (auto simp: told_def borg_answers_def)

interpretation unwritten: step_frame keeps_db
  by unfold_locales (auto simp: keeps_db_def)

lemma unwritten_on_net: "leads keeps_db (on_net m)"
  by (auto simp: leads_def keeps_db_def on_net_def split: prod.split)

lemma told_trans: "told w xs u \<Longrightarrow> told u ys v \<Longrightarrow> told w (xs @ ys) v"
  by (simp add: told_def)

lemma told_keeps: "told w xs u \<Longrightarrow> keeps_db u v \<Longrightarrow> keeps_db w v"
  by (simp add: told_def keeps_db_def)

lemma told_refl [simp]: "told w [] w"
  by (simp add: told_def)

text \<open>
  \<open>says m P w\<close>: what Borg has answered when \<open>m\<close> returns, together with the result, satisfies \<open>P\<close>;
  nothing is written to the database, whatever happens.
\<close>

definition says :: "('s net station, 'a) prog \<Rightarrow> ('a \<Rightarrow> (string list \<times> string) list \<Rightarrow> bool) \<Rightarrow> bool" where
  "says m P \<longleftrightarrow> (\<forall>w. wp m (\<lambda>x v. \<exists>xs. told w xs v \<and> P x xs) (\<lambda>e v. keeps_db w v) w)"

lemma saysD: "says m P \<Longrightarrow> wp m (\<lambda>x v. \<exists>xs. told w xs v \<and> P x xs) (\<lambda>e v. keeps_db w v) w"
  by (simp add: says_def)

lemma says_mono:
  assumes "says m P" and "\<And>x xs. P x xs \<Longrightarrow> Q x xs"
  shows "says m Q"
  unfolding says_def
proof
  fix w show "wp m (\<lambda>x v. \<exists>xs. told w xs v \<and> Q x xs) (\<lambda>e v. keeps_db w v) w"
    by (rule wp_mono [OF saysD [OF assms(1)]]) (use assms(2) in auto)
qed

lemma says_seq:
  assumes "says m P" and "\<And>x. says (f x) (\<lambda>y ys. \<forall>xs. P x xs \<longrightarrow> Q y (xs @ ys))"
  shows "says (seq m f) Q"
  unfolding says_def
proof
  fix w
  show "wp (seq m f) (\<lambda>y v. \<exists>ys. told w ys v \<and> Q y ys) (\<lambda>e v. keeps_db w v) w"
    unfolding wp_seq
  proof (rule wp_mono [OF saysD [OF assms(1)]])
    fix x u assume "\<exists>xs. told w xs u \<and> P x xs"
    then obtain xs where "told w xs u" "P x xs" by blast
    then show "wp (f x) (\<lambda>y v. \<exists>ys. told w ys v \<and> Q y ys) (\<lambda>e v. keeps_db w v) u"
      by (intro wp_mono [OF saysD [OF assms(2)]]) (auto intro: told_trans told_keeps)
  qed simp
qed

lemma says_raise: "says m P \<Longrightarrow> says (attempt m C (\<lambda>e. fail (f e))) P"
  unfolding says_def wp_attempt by (auto elim!: wp_mono [rotated] intro: wp_mono)

lemma says_silent: "leads (\<lambda>w. told w []) m \<Longrightarrow> says m (\<lambda>x xs. xs = [])"
  unfolding says_def by (auto intro!: wp_mono [OF leads_wp] simp: keeps_db_def told_def)

lemma says_pure: "says (ret x) (\<lambda>y xs. y = x \<and> xs = [])"
  "says (fail e) Q"
  "says (require b e) (\<lambda>u xs. b \<and> xs = [])"
  "says (lift_result r) (\<lambda>x xs. r = Inr x \<and> xs = [])"
  by (auto simp: says_def wp_rules keeps_db_def split: sum.split)

lemma says_command: "says (run_borg X A args cwd) (\<lambda>out xs. xs = [(args, out)])"
proof -
  have env: "leads (\<lambda>w. told w []) (borg_environment X A)"
    unfolding borg_environment_def Let_def file_programs by (intro telling.structural)
  have run: "says (on_net (issue (bo_peer X) (RunBorg args cwd e)))
      (\<lambda>r xs. xs = borg_answer (RunBorg args cwd e, Inr r))" for e
    by (auto simp: says_def wp_def on_net_def issue_def told_def keeps_db_def borg_answers_def split: prod.splits sum.splits)
  have "says (seq (borg_environment X A) (\<lambda>e. on_net (issue (bo_peer X) (RunBorg args cwd e))))
      (\<lambda>r xs. \<exists>e. xs = borg_answer (RunBorg args cwd e, Inr r))"
    by (rule says_seq [OF says_silent [OF env]]) (auto intro: says_mono [OF run])
  from says_seq [OF says_raise [OF this]] show ?thesis
    unfolding run_borg_def
    by (rule meta_mp) (auto split: reply.split simp: says_pure intro!: says_mono [OF says_pure(1)])
qed

section \<open>A verification\<close>

definition info_of :: "borg_adapter \<Rightarrow> string list" where
  "info_of A = [''info'', ''--json'', br_repository_ref (ba_repository A)]"

text \<open>The answers that prove a run, and nothing besides: identity, manifest, inventory, data.\<close>

definition proves :: "'s borg_outside \<Rightarrow> borg_adapter \<Rightarrow> backup_run_row \<Rightarrow> repository_row \<Rightarrow>
    (string list \<times> string) list \<Rightarrow> bool" where
  "proves X A run row answers \<longleftrightarrow> (\<exists>info stored listed checked ident entries objects inventory.
     let H = bo_host X; archive = archive_ref A (bk_archive_name run); manifest = utf8 stored in
     answers =
       [(info_of A, info), ([''extract'', ''--stdout'', archive, MANIFEST_PATH], stored),
        ([''list'', ''--format'', LIST_FORMAT, archive], listed),
        ([''check'', ''--archives-only'', ''--verify-data'', archive], checked)] \<and>
     identity_of_info (bo_repr X) info = Inr ident \<and> rp_repository_identity row = Some ident \<and>
     bk_manifest_sha256 run = Some (h_sha256 H manifest) \<and>
     parse_manifest manifest = Inr entries \<and> expected_inventory entries = Inr objects \<and>
     inventory_of (lines_by str_break [] listed) [] = Inr inventory \<and>
     same_dict inventory (AList.update MANIFEST_PATH (int (length manifest), h_sha256 H manifest) objects))"

lemma says_operations:
  "says (borg_identity X A) (\<lambda>ident xs. \<exists>out. xs = [(info_of A, out)] \<and> identity_of_info (bo_repr X) out = Inr ident)"
  "says (manifest_bytes X A name) (\<lambda>b xs. \<exists>out.
     xs = [([''extract'', ''--stdout'', archive_ref A name, MANIFEST_PATH], out)] \<and> b = utf8 out)"
  "says (borg_inventory X A name) (\<lambda>inv xs. \<exists>out.
     xs = [([''list'', ''--format'', LIST_FORMAT, archive_ref A name], out)] \<and>
     inventory_of (lines_by str_break [] out) [] = Inr inv)"
  "says (verify_data X A name) (\<lambda>u xs. \<exists>out.
     xs = [([''check'', ''--archives-only'', ''--verify-data'', archive_ref A name], out)])"
  unfolding borg_identity_def manifest_bytes_def borg_inventory_def verify_data_def borg_command_def info_of_def
  by (rule says_seq [OF says_command], rule says_mono [OF says_pure(1)] says_mono [OF says_pure(4)], simp)+

lemma says_archive: "says (verify_archive X A run row) (\<lambda>u. proves X A run row)"
  unfolding verify_archive_def Let_def
  by (rule says_seq [OF says_operations(1)], rule says_seq [OF says_pure(3)],
      rule says_seq [OF says_operations(2)], rule says_seq [OF says_pure(3)],
      rule says_seq [OF says_pure(4)], rule says_seq [OF says_pure(4)],
      rule says_seq [OF says_operations(3)], rule says_seq [OF says_pure(3)],
      rule says_mono [OF says_operations(4)])
    (auto simp: proves_def Let_def)

lemma says_other: "(\<And>r. borg_answer (c, r) = []) \<Longrightarrow> says (on_net (issue P c)) (\<lambda>r xs. xs = [])"
  by (auto simp: says_def wp_def on_net_def issue_def told_def keeps_db_def borg_answers_def split: prod.splits sum.splits)

lemma says_done: "(\<And>r. borg_answer (c, r) = []) \<Longrightarrow> says (on_net (command_done P c)) (\<lambda>r xs. xs = [])"
  by (auto simp: says_def wp_def on_net_def command_done_def run_simps issue_def told_def keeps_db_def borg_answers_def
      split: prod.splits sum.splits)

lemma says_finalize:
  assumes "says m P" and "says c (\<lambda>u xs. xs = [])"
  shows "says (finalize m c) P"
  unfolding says_def wp_finalize
proof
  fix w
  show "wp m (\<lambda>x. wp c (\<lambda>u v. \<exists>xs. told w xs v \<and> P x xs) (\<lambda>e v. keeps_db w v))
      (\<lambda>e. wp c (\<lambda>u v. keeps_db w v) (\<lambda>e v. keeps_db w v)) w"
  proof (rule wp_mono [OF saysD [OF assms(1)]])
    fix x u assume "\<exists>xs. told w xs u \<and> P x xs"
    then show "wp c (\<lambda>u v. \<exists>xs. told w xs v \<and> P x xs) (\<lambda>e v. keeps_db w v) u"
      by (auto intro!: wp_mono [OF saysD [OF assms(2)]] dest: told_trans intro: told_keeps)
  next
    fix e u assume "keeps_db w u"
    then show "wp c (\<lambda>u v. keeps_db w v) (\<lambda>e v. keeps_db w v) u"
      by (auto intro!: wp_mono [OF saysD [OF assms(2)]] simp: keeps_db_def told_def)
  qed
qed

lemma says_locked: "says body P \<Longrightarrow> says (locked Q p busy body) P"
  unfolding locked_def
  by (rule says_seq [OF says_other]) (auto intro!: says_finalize says_done intro: says_pure(2))

section \<open>The rows\<close>

definition revoked :: "string \<Rightarrow> evidence_row list \<Rightarrow> evidence_row list" where
  "revoked rid = update_where (\<lambda>e. be_backup_run_id e = rid) (\<lambda>e. e\<lparr>be_verified := False\<rparr>)"

definition verified_rows :: "string \<Rightarrow> evidence_row list \<Rightarrow> evidence_row list" where
  "verified_rows rid = update_where (\<lambda>e. be_backup_run_id e = rid \<and> be_covered e) (\<lambda>e. e\<lparr>be_verified := True\<rparr>)"

text \<open>What reconciling the configuration leaves alone.\<close>

definition same_backups :: "db \<Rightarrow> db \<Rightarrow> bool" where
  "same_backups d d' \<longleftrightarrow> backup_runs d' = backup_runs d \<and> message_backup_evidence d' = message_backup_evidence d \<and>
     canonical_messages d' = canonical_messages d \<and> attachments d' = attachments d \<and>
     message_attachments d' = message_attachments d"

lemma wp_reconciled:
  "wp (reconciled X cfg) (\<lambda>u v. same_backups (w_db w) (w_db v) \<and> borg_answers v = borg_answers w)
     (\<lambda>e v. v = w \<and> e = IntegrityError) w"
  by (auto simp: reconciled_def wp_transaction wp_def initialize_def Let_def same_backups_def borg_answers_def
      remember_def)

lemma run_of_parts: "run_of rid d = Some (run, row) \<Longrightarrow>
    find (\<lambda>r. bk_id r = rid) (backup_runs d) = Some run \<and> row \<in> set (backup_repositories d) \<and>
    rp_id row = bk_repository_id run"
  by (auto simp: run_of_def find_Some_iff split: option.splits)

lemma wp_fail_verification:
  "wp (fail_verification rid kind) (\<lambda>u v. message_backup_evidence (w_db v) = revoked rid (message_backup_evidence (w_db w)))
     (\<lambda>e v. False) w"
  by (auto simp: fail_verification_def wp_transaction wp_def Let_def update_run_def revoked_def remember_def)

lemma wp_confirm_verification:
  "wp (confirm_verification H rid) (\<lambda>u v. message_backup_evidence (w_db v) = verified_rows rid (message_backup_evidence (w_db w)) \<and>
       backup_repositories (w_db v) = backup_repositories (w_db w) \<and> borg_answers v = borg_answers w)
     (\<lambda>e v. False) w"
  by (auto simp: confirm_verification_def wp_transaction wp_def Let_def update_run_def verified_rows_def borg_answers_def remember_def)

text \<open>
  What \<open>verify_run\<close> has done, by its result: the run is proved by what Borg answered and its covered rows are
  verified, or no row was verified; the failures of the checks revoke what the run had proved before.
\<close>

definition early_failure :: "error \<Rightarrow> bool" where
  "early_failure e \<longleftrightarrow> e = BorgError ''run-invalid'' \<or> e = BorgError ''repository-unknown''"

definition verified_by_borg :: "'s borg_outside \<Rightarrow> app_config \<Rightarrow> string \<Rightarrow> 's net station \<Rightarrow> 's net station \<Rightarrow> bool" where
  "verified_by_borg X cfg rid w v \<longleftrightarrow>
     (\<exists>run row repository A answers. find (\<lambda>r. bk_id r = rid) (backup_runs (w_db w)) = Some run \<and>
        bk_status run = BackupSucceeded \<and>
        row \<in> set (backup_repositories (w_db v)) \<and> rp_id row = bk_repository_id run \<and>
        repository_config cfg (rp_name row) = Inr repository \<and> borg_adapter_for (bo_host X) cfg repository = Inr A \<and>
        borg_answers v = borg_answers w @ answers \<and> proves X A run row answers)"

lemma wp_verify_run:
  "wp (verify_run X cfg rid)
     (\<lambda>u v. verified_by_borg X cfg rid w v \<and>
        message_backup_evidence (w_db v) = verified_rows rid (message_backup_evidence (w_db w)))
     (\<lambda>e v. message_backup_evidence (w_db v) = revoked rid (message_backup_evidence (w_db w)) \<or>
        (\<not> borg_error e \<or> early_failure e) \<and> message_backup_evidence (w_db v) = message_backup_evidence (w_db w)) w"
  (is "wp _ ?Q ?E w")
proof -
  have checked: "wp (seq (attempt (borg_locked X cfg name (verify_archive X A run row))
        (\<lambda>e. borg_error e \<or> local_error e) (\<lambda>e. seq (fail_verification rid (error_kind (f e))) (\<lambda>u. fail (f e))))
      (\<lambda>u. confirm_verification (bo_host X) rid)) ?Q ?E u"
    if run: "run_of rid (w_db u) = Some (run, row)" "bk_status run = BackupSucceeded"
      and cfg: "repository_config cfg (rp_name row) = Inr repository" "borg_adapter_for (bo_host X) cfg repository = Inr A"
      and u: "same_backups (w_db w) (w_db u)" "borg_answers u = borg_answers w" for u run row repository A name f
  proof -
    have rows: "find (\<lambda>r. bk_id r = rid) (backup_runs (w_db w)) = Some run"
        "row \<in> set (backup_repositories (w_db u))" "rp_id row = bk_repository_id run"
      using run_of_parts [OF run(1)] u(1) by (auto simp: same_backups_def)
    have ok: "wp (confirm_verification (bo_host X) rid) ?Q ?E v"
      if "told u xs v" "proves X A run row xs" for xs v
      by (rule wp_mono [OF wp_confirm_verification])
        (use that rows run(2) cfg u in \<open>auto simp: verified_by_borg_def told_def same_backups_def\<close>)
    have bad: "wp (seq (fail_verification rid k) (\<lambda>u. fail e)) Q ?E v" if "keeps_db u v" for k e v Q
      unfolding wp_seq
      by (rule wp_mono [OF wp_fail_verification]) (use that u in \<open>auto simp: keeps_db_def same_backups_def\<close>)
    have "says (borg_locked X cfg name (verify_archive X A run row)) (\<lambda>u. proves X A run row)"
      unfolding borg_locked_def by (rule says_locked [OF says_archive])
    from saysD [OF this, of u] show ?thesis
      unfolding wp_seq wp_attempt
      by (rule wp_mono) (use ok bad u in \<open>auto simp: keeps_db_def same_backups_def wp_seq\<close>)
  qed
  have quiet: "?E e u" if "same_backups (w_db w) (w_db u)" "\<not> borg_error e \<or> early_failure e" for e u
    using that by (simp add: same_backups_def)
  have adapter: "\<not> borg_error e" if "borg_adapter_for H cfg r = Inl e" for H r e
    using that by (auto simp: borg_adapter_for_def resolved_def split: if_splits option.splits)
  have config: "early_failure e" if "repository_config cfg n = Inl e" for n e
    using that by (auto simp: repository_config_def early_failure_def split: option.splits)
  have found: "wp (verify_found X cfg rid run row) ?Q ?E u"
    if "run_of rid (w_db u) = Some (run, row)" "same_backups (w_db w) (w_db u)" "borg_answers u = borg_answers w"
    for u run row
  proof -
    have same: "message_backup_evidence (w_db u) = message_backup_evidence (w_db w)"
      using that(2) by (simp add: same_backups_def)
    have early: "early_failure (BorgError ''run-invalid'')" by (simp add: early_failure_def)
    show ?thesis
      unfolding verify_found_def Let_def wp_seq [of "require _ _"] wp_seq [of "lift_result _"] wp_require wp_lift
      using checked [OF that(1) _ _ _ that(2,3)] by (simp add: same early config adapter split: sum.split)
  qed
  have early: "early_failure (BorgError ''run-invalid'')" by (simp add: early_failure_def)
  have "wp (case found of None \<Rightarrow> fail (BorgError ''run-invalid'') | Some (run, row) \<Rightarrow> verify_found X cfg rid run row) ?Q ?E u"
    if "found = run_of rid (w_db u)" "same_backups (w_db w) (w_db u)" "borg_answers u = borg_answers w" for u found
    using found [OF _ that(2,3)] quiet [OF that(2) disjI2 [OF early]]
    by (simp add: that(1) early split: option.split prod.split)
  then show ?thesis
    unfolding verify_run_def wp_seq wp_read
    by (intro wp_mono [OF wp_reconciled]) simp_all
qed


end
