(* ===== verification/BorgBackup.thy ===== *)
theory BorgBackup
  imports BorgEvidence
begin

text \<open>
  From the database to the archive: the manifest a backup records names every finalized message with its
  size and digest, \<open>verify_run\<close> reads it back, and so a verified run has the messages in what Borg lists.
\<close>

section \<open>A manifest is read back\<close>

definition plain :: "char \<Rightarrow> bool" where
  "plain c \<longleftrightarrow> (32 :: nat) \<le> of_char c \<and> of_char c < (128 :: nat)"

lemma plain_ascii: "list_all plain s \<Longrightarrow> list_all is_ascii s"
  by (auto simp: list_all_iff plain_def is_ascii_def)

lemma plain_unbroken: "plain c \<Longrightarrow> \<not> byte_break c"
  by (auto simp: plain_def byte_break_def)

lemma plain_marks [simp]: "c \<in> set (CHR 0x22 # CHR 0x5C # ''nrtfbu-{}[]nulltruefalse'') \<Longrightarrow> plain c"
  by (auto simp: plain_def)

lemma plain_json_char: "list_all plain (json_char c)"
proof -
  have "plain (hex_digit d)" if "d < 16" for d
    using that by (auto simp: plain_def hex_digit_def Let_def)
  then have "list_all plain (hex_escape (of_char c))" by (simp add: hex_escape_def)
  then show ?thesis by (auto simp: json_char_def) (simp add: plain_def)
qed

lemma plain_concat: "(\<And>x. x \<in> set xs \<Longrightarrow> list_all plain (f x)) \<Longrightarrow> list_all plain (concat (map f xs))"
  by (auto simp: list_all_iff)

lemma plain_json_string: "list_all plain (json_string s)"
  using plain_concat [of s json_char] plain_json_char by (simp add: json_string_def)

lemma plain_join: "list_all plain sep \<Longrightarrow> (\<And>x. x \<in> set xs \<Longrightarrow> list_all plain x) \<Longrightarrow> list_all plain (join sep xs)"
  by (induction sep xs rule: join.induct) auto

lemma plain_int: "list_all plain (int_text i)"
proof -
  have "is_digit c \<Longrightarrow> plain c" for c by (auto simp: is_digit_def plain_def)
  then have "list_all plain (nat_text n)" for n using nat_text_digits [of n] by (auto simp: list_all_iff)
  then show ?thesis by (simp add: int_text_def)
qed

lemma plain_dumps:
  "list_all plain isep \<Longrightarrow> list_all plain ksep \<Longrightarrow> list_all plain (dumps isep ksep j)"
  "list_all plain isep \<Longrightarrow> list_all plain ksep \<Longrightarrow> list_all plain (dumps_member isep ksep kv)"
  by (induction isep ksep j and isep ksep kv rule: dumps_dumps_member.induct)
    (auto simp: plain_json_string plain_int intro!: plain_join)

text \<open>Lines without a break come back from their concatenation.\<close>

lemma lines_by_line:
  "brk CHR 0x0A \<Longrightarrow> (\<And>c. c \<in> set l \<Longrightarrow> \<not> brk c) \<Longrightarrow> brk CHR 0x0D \<Longrightarrow>
     lines_by brk cur (l @ CHR 0x0A # r) = (cur @ l) # lines_by brk [] r"
proof (induction l arbitrary: cur)
  case Nil
  then show ?case by (cases r) auto
next
  case (Cons c l)
  obtain d s where ds: "l @ CHR 0x0A # r = d # s" by (cases l) auto
  from Cons.prems(2) [of c] Cons.prems(3) have "c \<noteq> CHR 0x0D" by auto
  with Cons show ?case by (simp add: ds)
qed

lemma lines_by_concat:
  assumes "brk CHR 0x0A" "brk CHR 0x0D" and "\<And>l c. l \<in> set ls \<Longrightarrow> c \<in> set l \<Longrightarrow> \<not> brk c"
  shows "lines_by brk [] (concat (map (\<lambda>l. l @ [CHR 0x0A]) ls)) = ls"
  using assms(3)
proof (induction ls)
  case (Cons l ls)
  have "lines_by brk cur (l @ CHR 0x0A # r) = (cur @ l) # lines_by brk [] r" for cur r
    by (rule lines_by_line) (use assms(1,2) Cons.prems in auto)
  moreover have "lines_by brk [] (concat (map (\<lambda>l. l @ [CHR 0x0A]) ls)) = ls"
    by (rule Cons.IH) (use Cons.prems in auto)
  ultimately show ?case by simp
qed simp

text \<open>The records a manifest holds.\<close>

definition entry_size :: "entry \<Rightarrow> int" where
  "entry_size e = (case map_of e ''size_bytes'' of Some (JInt i) \<Rightarrow> i | _ \<Rightarrow> 0)"

definition entry_record :: "entry \<Rightarrow> string \<times> int \<times> string" where
  "entry_record e = (entry_text e ''path'', entry_size e, entry_text e ''sha256'')"

text \<open>An entry whose four members that are read have the types the snapshot writes, each key once.\<close>

definition entry_form :: "entry \<Rightarrow> bool" where
  "entry_form e \<longleftrightarrow> distinct (map fst e) \<and>
     (\<exists>k p d i. map_of e ''kind'' = Some (JStr k) \<and> map_of e ''path'' = Some (JStr p) \<and>
       map_of e ''sha256'' = Some (JStr d) \<and> map_of e ''size_bytes'' = Some (JInt i))"

lemma entry_forms: "entry_form (canonical_entry c p)" "entry_form (attachment_entry a p)" "entry_form (sqlite_entry d n)"
  by (simp_all add: entry_form_def canonical_entry_def attachment_entry_def sqlite_entry_def)

lemma dict_of_distinct: "distinct (map fst ms) \<Longrightarrow> (\<And>k. k \<in> set (map fst ms) \<Longrightarrow> VStr k \<notin> fst ` set d) \<Longrightarrow>
    foldl put_key d ms = d @ map (\<lambda>(k, v). (VStr k, v)) ms"
proof (induction ms arbitrary: d)
  case (Cons m ms)
  obtain k v where m: "m = (k, v)" by (cases m)
  from Cons.prems(2) [of k] have "put_key d m = d @ [(VStr k, v)]"
    by (force simp: put_key_def m list_ex_iff)
  moreover have "foldl put_key (d @ [(VStr k, v)]) ms = (d @ [(VStr k, v)]) @ map (\<lambda>(k, v). (VStr k, v)) ms"
    by (rule Cons.IH) (use Cons.prems in \<open>auto simp: m\<close>)
  ultimately show ?case by (simp add: m)
qed simp

lemma dict_get_text: "dict_get (map (\<lambda>(k, v). (VStr k, v)) ms) key = map_of ms key"
  by (induction ms) (auto simp: dict_get_def)

lemma map_of_pyval: "map_of (map pyval_member kvs) key = map_option pyval_of (map_of kvs key)"
  by (induction kvs) auto

lemma fst_pyval_member: "map fst (map pyval_member kvs) = map fst kvs"
  by (induction kvs) auto

lemma map_of_sorted: "distinct (map fst e) \<Longrightarrow> map_of (sort_key fst e) = map_of e"
  by (rule map_of_inject_set [THEN iffD2]) (simp_all add: distinct_map)

lemma line_json:
  "json_loads_bytes (butlast (manifest_line e)) =
     (if small (JObj (sort_key fst e)) then Inr (pyval_of (JObj (sort_key fst e))) else Inl too_long)"
proof -
  let ?j = "JObj (sort_key fst e)"
  have line: "butlast (manifest_line e) = dumps '','' '':'' ?j"
    by (simp add: manifest_line_def butlast_append)
  have "list_all plain (dumps '','' '':'' ?j)"
    by (rule plain_dumps) (simp_all add: plain_def)
  from utf8_decode_ascii [OF plain_ascii [OF this]] show ?thesis
    using json_roundtrip [of "'',''" "'':''" ?j] unfolding line by (simp add: json_loads_bytes_def separators_def)
qed

lemma manifest_line_read:
  assumes e: "entry_form e" and r: "read_record (butlast (manifest_line e)) = Inr r"
  shows "r = entry_record e"
proof -
  let ?j = "JObj (sort_key fst e)" and ?ms = "map pyval_member (sort_key fst e)"
  from r have r: "manifest_record (pyval_of ?j) = Some r"
    by (auto simp: read_record_def line_json split: if_splits option.splits)
  have "distinct (map fst ?ms)"
    using e by (simp only: fst_pyval_member) (simp add: entry_form_def distinct_map)
  then have "pyval_of ?j = VDict (map (\<lambda>(k, v). (VStr k, v)) ?ms)"
    using dict_of_distinct [of ?ms "[]"] by (simp add: dict_of_def)
  moreover from e obtain k p d i where "map_of e ''kind'' = Some (JStr k)" "map_of e ''path'' = Some (JStr p)"
    "map_of e ''sha256'' = Some (JStr d)" "map_of e ''size_bytes'' = Some (JInt i)" "distinct (map fst e)"
    by (auto simp: entry_form_def)
  ultimately show ?thesis
    using r by (auto simp: manifest_record_def dict_get_or_def dict_get_text map_of_pyval map_of_sorted entry_record_def
        entry_text_def entry_size_def simp del: map_map list.map_comp split: if_splits)
qed

lemma manifest_line_parts: "manifest_line e = butlast (manifest_line e) @ [CHR 0x0A]"
  unfolding manifest_line_def butlast_snoc ..

lemma manifest_lines:
  "lines_by byte_break [] (manifest_of es) =
     map (\<lambda>e. butlast (manifest_line e)) (sort_key (\<lambda>e. (entry_text e ''kind'', entry_text e ''path'')) es)"
  (is "_ = map ?line ?es")
proof -
  have "manifest_of es = concat (map (\<lambda>l. l @ [CHR 0x0A]) (map ?line ?es))"
    unfolding manifest_of_def map_map comp_def manifest_line_parts [symmetric] ..
  moreover have "\<not> byte_break c" if "c \<in> set (?line e)" for c e
  proof -
    have "list_all plain (?line e)"
      unfolding manifest_line_def butlast_snoc by (rule plain_dumps) (simp_all add: plain_def)
    then show ?thesis using that plain_unbroken by (auto simp: list_all_iff)
  qed
  ultimately show ?thesis
    using lines_by_concat [of byte_break "map ?line ?es"] by (auto simp: byte_break_def)
qed

lemma parse_written:
  assumes "parse_manifest (manifest_of es) = Inr entries" and "list_all entry_form es"
  shows "set entries = entry_record ` set es"
proof -
  let ?es = "sort_key (\<lambda>e. (entry_text e ''kind'', entry_text e ''path'')) es"
  from assms(1) have "list_all2 (\<lambda>e r. read_record (butlast (manifest_line e)) = Inr r) ?es entries"
    by (auto simp: parse_manifest_def rbind_Inr each_Inr manifest_lines list_all2_map1)
  moreover have "list_all entry_form ?es" using assms(2) by (simp add: list_all_iff)
  ultimately have "entries = map entry_record ?es"
    by (induction rule: list_all2_induct) (auto dest: manifest_line_read)
  then show ?thesis by simp
qed

text \<open>The expected inventory has every record, since no path is named twice.\<close>

lemma inventory_keys: "distinct (map fst d) \<Longrightarrow> distinct (map fst (fold (\<lambda>(p, x). AList.update p x) rs d))"
  by (induction rs arbitrary: d) (auto simp: distinct_update)

lemma inventory_map: "map_of (fold (\<lambda>(p, x). AList.update p x) rs d) = map_of d ++ map_of (rev rs)"
  by (induction rs arbitrary: d) (auto simp: update_conv' fun_eq_iff map_add_def split: option.split)

lemma expected_holds:
  assumes "expected_inventory entries = Inr objects" and "(p, x) \<in> set entries"
  shows "map_of objects p = Some x"
proof -
  from assms(1) have objects: "objects = fold (\<lambda>(p, x). AList.update p x) entries []" "length objects = length entries"
    by (auto simp: expected_inventory_def Let_def rbind_Inr split: if_splits)
  have "set (map fst objects) = set (map fst entries)"
    using arg_cong [OF inventory_map [of entries "[]"], of dom] by (simp add: objects(1) dom_map_of_conv_image_fst)
  with inventory_keys [of "[]" entries, folded objects(1)]
  have "card (set (map fst entries)) = length (map fst entries)"
    using distinct_card [of "map fst objects"] objects(2) by simp
  then have "distinct (map fst (rev entries))" by (simp add: card_distinct rev_map [symmetric])
  with assms(2) show ?thesis by (simp add: objects(1) inventory_map)
qed

lemma same_dict_holds: "same_dict xs ys \<Longrightarrow> map_of ys k = Some v \<Longrightarrow> map_of xs k = Some v"
  by (auto simp: same_dict_def list_all_iff dest: map_of_SomeD)

section \<open>The snapshot\<close>

text \<open>Where an object lies below the archive root.\<close>

definition stored_below :: "host \<Rightarrow> path \<Rightarrow> canonical_message \<Rightarrow> path \<Rightarrow> bool" where
  "stored_below H root_path c relative \<longleftrightarrow> resolved H (cm_local_path c) = Inr (root_path @ relative) \<and>
     inside H (resolved H (root_path @ relative))
       (root_path @ [if cm_storage_state c = Archived then ''mail'' else ''quarantine'']) = Inr True"

text \<open>The entries of a snapshot of the database \<open>d\<close>.\<close>

definition snapshot_of :: "host \<Rightarrow> path \<Rightarrow> db \<Rightarrow> entry list \<Rightarrow> bool" where
  "snapshot_of H root_path d es \<longleftrightarrow> list_all entry_form es \<and>
     (\<forall>c \<in> set (finalized d). \<exists>relative. canonical_entry c (path_str relative) \<in> set es \<and>
        stored_below H root_path c relative)"

lemma says_files: "leads (\<lambda>w. told w []) m \<Longrightarrow> (\<And>x. says (f x) Q) \<Longrightarrow> says (seq m f) Q"
  by (erule says_seq [OF says_silent]) simp

lemma says_lift: "(\<And>x. r = Inr x \<Longrightarrow> says (f x) Q) \<Longrightarrow> says (seq (lift_result r) f) Q"
  by (auto simp: says_def wp_rules keeps_db_def split: sum.split)

lemma says_require: "(b \<Longrightarrow> says (f ()) Q) \<Longrightarrow> says (seq (require b e) f) Q"
  by (auto simp: says_def wp_rules keeps_db_def)

lemma copying: "leads (\<lambda>w. told w []) (copy_verified X source destination digest)"
  unfolding copy_verified_def Let_def copy_file_def file_programs by (intro telling.structural)

lemma expecting: "leads (\<lambda>w. told w []) (expect_object X fits path digest kind)"
  unfolding expect_object_def file_programs by (intro telling.structural)

lemma says_object: "(fits \<Longrightarrow> says (f ()) Q) \<Longrightarrow> says (seq (expect_object X fits p d k) f) Q"
proof (cases fits)
  case True
  assume "fits \<Longrightarrow> says (f ()) Q"
  with True show ?thesis by (intro says_files [OF expecting]) simp
next
  case False
  then show ?thesis by (simp add: expect_object_def says_def wp_seq keeps_db_def)
qed

lemma says_copy: "says (seq (copy_verified X p s d) (\<lambda>u. ret e)) (\<lambda>x xs. x = e \<and> xs = [])"
  by (rule says_files [OF copying says_pure(1)])

lemma says_canonical:
  "says (add_canonical X root_path snapshot c) (\<lambda>e xs. xs = [] \<and>
     (\<exists>relative. e = canonical_entry c (path_str relative) \<and> stored_below (bo_host X) root_path c relative))"
  unfolding add_canonical_def Let_def
proof (rule says_lift, rule says_lift, rule says_object, rule says_lift, rule says_mono [OF says_copy])
  fix p fits relative e xs
  assume "resolved (bo_host X) (cm_local_path c) = Inr p"
    "inside (bo_host X) (resolved (bo_host X) p)
       (root_path @ [if cm_storage_state c = Archived then ''mail'' else ''quarantine'']) = Inr fits"
    "fits" "relative_to p root_path = Inr relative" "e = canonical_entry c (path_str relative) \<and> xs = []"
  then show "xs = [] \<and> (\<exists>relative. e = canonical_entry c (path_str relative) \<and>
      stored_below (bo_host X) root_path c relative)"
    by (auto simp: stored_below_def relative_to_def is_prefix_of_iff split: if_splits)
qed

lemma says_attachment: "says (add_attachment X root_path snapshot a) (\<lambda>e xs. xs = [] \<and> entry_form e)"
  unfolding add_attachment_def Let_def
  by (rule says_lift, rule says_lift, rule says_object, rule says_lift, rule says_mono [OF says_copy])
    (auto simp: entry_forms)

lemma says_each:
  assumes "\<And>x. says (f x) (\<lambda>y xs. xs = [] \<and> P x y)"
  shows "says (for_each f xs) (\<lambda>ys zs. zs = [] \<and> list_all2 P xs ys)"
proof (induction xs)
  case Nil
  show ?case unfolding for_each.simps by (rule says_mono [OF says_pure(1)]) auto
next
  case (Cons x xs)
  show ?case
    unfolding for_each.simps
    by (rule says_seq [OF assms], rule says_seq [OF Cons.IH], rule says_mono [OF says_pure(1)]) auto
qed

text \<open>The parts of a backup that only use files.\<close>

lemma file_steps: "leads (\<lambda>w. told w []) (sha_at S H p)" "leads (\<lambda>w. told w []) (read_at S p)"
  "leads (\<lambda>w. told w []) (mkdirs S p)" "leads (\<lambda>w. told w []) (write_file S p b)" "leads (\<lambda>w. told w []) (mkdir_new S p)"
  "leads (\<lambda>w. told w []) (rmtree S p)"
  unfolding file_programs mkdir_new_def
  by (intro telling.structural)+
    (auto simp: leads_def rmtree_def Let_def told_def put_fs_def bump_def remember_def borg_answers_def)

lemma snapshot_entries:
  assumes "list_all2 (\<lambda>c e. \<exists>relative. e = canonical_entry c (path_str relative) \<and> stored_below H root_path c relative)
      (finalized d) canonical"
    and "list_all2 (\<lambda>a. entry_form) as attached" and "entry_form database"
  shows "snapshot_of H root_path d (canonical @ attached @ [database])"
proof -
  from assms(1) have "list_all entry_form canonical"
    "\<forall>c \<in> set (finalized d). \<exists>relative. canonical_entry c (path_str relative) \<in> set canonical \<and>
      stored_below H root_path c relative"
    by (induction rule: list_all2_induct) (auto simp: entry_forms)
  moreover from assms(2) have "list_all entry_form attached"
    by (induction rule: list_all2_induct) auto
  ultimately show ?thesis using assms(3) unfolding snapshot_of_def by auto
qed

lemma materializing:
  "says (materialize_snapshot X root_path snapshot sqlite_path d) (\<lambda>r xs. xs = [] \<and> fst r = map cm_id (finalized d) \<and>
     (\<exists>es. snapshot_of (bo_host X) root_path d es \<and> snd r = h_sha256 (bo_host X) (manifest_of es)))"
  unfolding materialize_snapshot_def Let_def
  by (rule says_seq [OF says_each [OF says_canonical]], rule says_seq [OF says_each [OF says_attachment]],
      (rule says_files, rule file_steps)+, rule says_mono [OF says_pure(1)])
    (auto intro!: exI snapshot_entries entry_forms)

text \<open>Sequencing, and a handler that cleans up and raises.\<close>

lemma wp_bind:
  assumes "wp m P E w" and "\<And>x v. P x v \<Longrightarrow> wp (f x) Q E v"
  shows "wp (seq m f) Q E w"
  unfolding wp_seq by (rule wp_mono [OF assms(1)]) (use assms(2) in auto)

lemma wp_cleanup:
  assumes "wp m Q (\<lambda>e v. keeps_db w v) w" and "leads (\<lambda>w. told w []) c"
  shows "wp (attempt m C (\<lambda>e. seq c (\<lambda>u. fail (f e)))) Q (\<lambda>e v. keeps_db w v) w"
  unfolding wp_attempt wp_seq
proof (rule wp_mono [OF assms(1)])
  fix e v assume v: "keeps_db w v"
  have "wp c (\<lambda>u. wp (fail (f e)) Q (\<lambda>e v. keeps_db w v)) (\<lambda>e v. keeps_db w v) v"
    by (rule wp_mono [OF leads_wp [OF assms(2)]]) (use v in \<open>auto simp: told_def keeps_db_def\<close>)
  with v show "(if C e then wp c (\<lambda>u. wp (fail (f e)) Q (\<lambda>e v. keeps_db w v)) (\<lambda>e v. keeps_db w v)
      else (\<lambda>v. keeps_db w v)) v" by simp
qed

text \<open>The same calculus from a state whose database and answers are those of \<open>w\<close>.\<close>

lemma says_from:
  assumes "says m P" and "told w [] u"
  shows "wp m (\<lambda>x v. \<exists>xs. told w xs v \<and> P x xs) (\<lambda>e v. keeps_db w v) u"
  by (rule wp_mono [OF saysD [OF assms(1)]]) (use assms(2) in \<open>auto simp: told_def keeps_db_def\<close>)

lemma says_from_silent:
  assumes "leads (\<lambda>w. told w []) m" and "told w [] u"
  shows "wp m (\<lambda>x v. told w [] v) (\<lambda>e v. keeps_db w v) u"
  by (rule wp_mono [OF says_from [OF says_silent [OF assms(1)] assms(2)]]) auto

lemma wp_snapshot_database:
  assumes "told w [] u"
  shows "wp (snapshot_database X p) (\<lambda>d v. d = w_db w \<and> told w [] v) (\<lambda>e v. keeps_db w v) u"
proof -
  have rest: "says (seq (write_file S p b) (\<lambda>u. seq (read_at S p) (\<lambda>b.
      seq (require (good b) e) (\<lambda>u. seq (if_there ''-wal'') (\<lambda>u. seq (if_there ''-shm'') (\<lambda>u. ret d))))))
      (\<lambda>x xs. x = d \<and> xs = [])"
    if "\<And>s. leads (\<lambda>w. told w []) (if_there s)" for S b good if_there d e
    by (rule says_files [OF file_steps(4)], rule says_files [OF file_steps(2)], rule says_require,
        rule says_files [OF that], rule says_files [OF that], rule says_pure(1))
  have sidecar: "leads (\<lambda>w. told w []) (seq (exists_at S q) (\<lambda>e. if e then unlink S q b else ret ()))" for S q b
    unfolding file_programs by (intro telling.structural)
  show ?thesis
    unfolding snapshot_database_def Let_def
  proof (rule wp_bind [OF says_from_silent [OF file_steps(3) assms]], unfold wp_seq [of "read_state _"] wp_read,
      rule wp_mono [OF says_from [OF rest [OF sidecar]]])
  qed (auto simp: told_def)
qed

lemma wp_build_snapshot:
  "wp (build_snapshot X cfg rid) (\<lambda>r v. told w [] v \<and> (\<exists>root_path es. resolved (bo_host X) (cf_archive_root cfg) = Inr root_path \<and>
       fst r = map cm_id (finalized (w_db w)) \<and> snapshot_of (bo_host X) root_path (w_db w) es \<and>
       snd r = h_sha256 (bo_host X) (manifest_of es))) (\<lambda>e v. keeps_db w v) w"
  (is "wp _ ?Q ?E w")
proof -
  have "wp (seq (mkdir_new (bo_system X) s) (\<lambda>u. seq (snapshot_database X p) (materialize_snapshot X root_path s p))) ?Q ?E w"
    if r: "resolved (bo_host X) (cf_archive_root cfg) = Inr root_path" for root_path s p
  proof (rule wp_bind [OF says_from_silent [OF file_steps(5) told_refl]],
      rule wp_bind [OF wp_snapshot_database], assumption, elim conjE,
      rule wp_mono [OF says_from [OF materializing]])
  qed (use r in auto)
  then show ?thesis
    unfolding build_snapshot_def Let_def wp_seq [of "lift_result _"] wp_lift
    by (auto simp: keeps_db_def [of w w] split: sum.split intro!: wp_cleanup file_steps)
qed

section \<open>The recorded run\<close>

text \<open>
  What a backup leaves in the database \<open>d'\<close> for the database \<open>d\<close> it was asked to save: a run that succeeded
  with the digest of a manifest of all finalized messages, and a covered row for each of them.
\<close>

definition backup_recorded :: "'s borg_outside \<Rightarrow> app_config \<Rightarrow> db \<Rightarrow> db \<Rightarrow> bool" where
  "backup_recorded X cfg d d' \<longleftrightarrow> (\<exists>root_path es run. resolved (bo_host X) (cf_archive_root cfg) = Inr root_path \<and>
     snapshot_of (bo_host X) root_path d es \<and> find (\<lambda>r. bk_id r = bo_run_id X) (backup_runs d') = Some run \<and>
     bk_status run = BackupSucceeded \<and> bk_manifest_sha256 run = Some (h_sha256 (bo_host X) (manifest_of es))) \<and>
   (\<forall>c \<in> set (finalized d). \<exists>e \<in> set (message_backup_evidence d').
     be_canonical_message_id e = cm_id c \<and> be_backup_run_id e = bo_run_id X \<and> be_covered e)"

interpretation run_recorded: keyed_update bk_id
  "\<lambda>r. r\<lparr>bk_status := st, bk_completed_at := t, bk_command_exit_code := x, bk_manifest_sha256 := m\<rparr>"
  for st t x m by unfold_locales simp

lemma evidence_covers: "c \<in> set ids \<Longrightarrow> \<exists>e \<in> set (evidence_of X k ids w).
    be_canonical_message_id e = c \<and> be_backup_run_id e = bo_run_id X \<and> be_covered e"
  by (induction X k ids w rule: evidence_of.induct) auto

lemma wp_record_backup:
  assumes "find (\<lambda>r. bk_id r = bo_run_id X) (backup_runs (w_db w)) = Some run"
    and "resolved (bo_host X) (cf_archive_root cfg) = Inr root_path" and "snapshot_of (bo_host X) root_path d es"
    and "ids = map cm_id (finalized d)"
  shows "wp (record_backup X ids (h_sha256 (bo_host X) (manifest_of es))) (\<lambda>u v. backup_recorded X cfg d (w_db v)) (\<lambda>e v. True) w"
proof -
  have "backup_recorded X cfg d (update_run (bo_run_id X)
      (\<lambda>r. r\<lparr>bk_status := BackupSucceeded, bk_completed_at := t, bk_command_exit_code := Some 0,
         bk_manifest_sha256 := Some (h_sha256 (bo_host X) (manifest_of es))\<rparr>)
      ((w_db w)\<lparr>message_backup_evidence := message_backup_evidence (w_db w) @ evidence_of X 1 ids w\<rparr>))" for t
    using assms find_mem [OF assms(1)] evidence_covers [of _ ids X 1 w]
    by (auto simp: backup_recorded_def update_run_def run_recorded.find_update simp del: One_nat_def)
  then show ?thesis
    by (simp add: record_backup_def wp_transaction wp_def Let_def remember_def)
qed

lemma wp_start_run:
  "wp (start_run X archive row) (\<lambda>u v. canonical_messages (w_db v) = canonical_messages (w_db w) \<and>
      find (\<lambda>r. bk_id r = bo_run_id X) (backup_runs (w_db v)) \<noteq> None) (\<lambda>e v. True) w"
proof -
  have "P r \<Longrightarrow> find P (rs @ [r]) \<noteq> None" for P and r :: backup_run_row and rs
    by (induction rs) auto
  then have "find (\<lambda>r. bk_id r = bo_run_id X) (rs @ [new_run X archive row t]) \<noteq> None" for rs t
    by (simp add: new_run_def)
  then show ?thesis
    by (simp add: start_run_def wp_transaction wp_def Let_def remember_def del: not_None_eq)
qed

lemma finalized_same: "canonical_messages d = canonical_messages d' \<Longrightarrow> finalized d = finalized d'"
  by (simp add: finalized_def)

lemma recorded_same: "canonical_messages d = canonical_messages e \<Longrightarrow> backup_recorded X cfg d d' = backup_recorded X cfg e d'"
  unfolding backup_recorded_def snapshot_of_def by (simp add: finalized_same [of d e])

lemma wp_weak: "wp m Q E w \<Longrightarrow> wp m Q (\<lambda>e v. True) w"
  by (erule wp_mono) auto

lemma wp_archived_run:
  assumes "find (\<lambda>r. bk_id r = bo_run_id X) (backup_runs (w_db w)) \<noteq> None"
  shows "wp (archived_run X cfg A archive s) (\<lambda>u v. backup_recorded X cfg (w_db w) (w_db v)) (\<lambda>e v. True) w"
proof -
  have "wp (seq (build_snapshot X cfg (bo_run_id X)) (\<lambda>r. seq (borg_create X A archive s) (\<lambda>u. record_backup X (fst r) (snd r))))
      (\<lambda>u v. backup_recorded X cfg (w_db w) (w_db v)) (\<lambda>e v. True) w"
  proof (rule wp_bind [OF wp_weak [OF wp_build_snapshot]])
    fix r v
    assume "told w [] v \<and> (\<exists>root_path es. resolved (bo_host X) (cf_archive_root cfg) = Inr root_path \<and>
       fst r = map cm_id (finalized (w_db w)) \<and> snapshot_of (bo_host X) root_path (w_db w) es \<and>
       snd r = h_sha256 (bo_host X) (manifest_of es))"
    then obtain root_path es where v: "told w [] v" "resolved (bo_host X) (cf_archive_root cfg) = Inr root_path"
      "fst r = map cm_id (finalized (w_db w))" "snapshot_of (bo_host X) root_path (w_db w) es"
      "snd r = h_sha256 (bo_host X) (manifest_of es)" by blast
    have "says (borg_create X A archive s) (\<lambda>u xs. True)"
      unfolding borg_create_def by (rule says_seq [OF says_command], rule says_mono [OF says_pure(1)]) simp
    then show "wp (seq (borg_create X A archive s) (\<lambda>u. record_backup X (fst r) (snd r)))
        (\<lambda>u v. backup_recorded X cfg (w_db w) (w_db v)) (\<lambda>e v. True) v"
    proof (rule wp_bind [OF wp_weak [OF saysD]])
      fix x u assume "\<exists>xs. told v xs u \<and> True"
      with v(1) assms obtain run where "find (\<lambda>r. bk_id r = bo_run_id X) (backup_runs (w_db u)) = Some run"
        by (auto simp: told_def)
      from wp_record_backup [OF this v(2,4) v(3)] v(5)
      show "wp (record_backup X (fst r) (snd r)) (\<lambda>u v. backup_recorded X cfg (w_db w) (w_db v)) (\<lambda>e v. True) u" by simp
    qed
  qed
  then show ?thesis
    unfolding archived_run_def Let_def
    by (intro wp_finalize_return wp_reraise, assumption)
      (auto intro!: wp_mono [OF leads_wp [OF file_steps(6)]] simp: told_def)
qed

lemma wp_locked_db:
  assumes "\<And>v. w_db v = w_db w \<Longrightarrow> wp body (\<lambda>x v. Q x (w_db v)) (\<lambda>e v. True) v"
  shows "wp (locked P p busy body) (\<lambda>x v. Q x (w_db v)) (\<lambda>e v. True) w"
  unfolding locked_def
proof (rule wp_bind [OF wp_weak [OF leads_wp [OF unwritten_on_net]]])
  fix r v assume "keeps_db w v"
  with assms have "wp body (\<lambda>x v. Q x (w_db v)) (\<lambda>e v. True) v" by (simp add: keeps_db_def)
  then have "wp (finalize body (on_net (command_done P (Unlock p)))) (\<lambda>x v. Q x (w_db v)) (\<lambda>e v. True) v"
    by (rule wp_finalize_return) (auto intro!: wp_mono [OF leads_wp [OF unwritten_on_net]] simp: keeps_db_def)
  then show "wp (if r = Busy then fail busy else finalize body (on_net (command_done P (Unlock p))))
      (\<lambda>x v. Q x (w_db v)) (\<lambda>e v. True) v" by simp
qed

lemma wp_says: "says m P \<Longrightarrow> (\<And>x v. w_db v = w_db w \<Longrightarrow> wp (f x) Q (\<lambda>e v. True) v) \<Longrightarrow> wp (seq m f) Q (\<lambda>e v. True) w"
  by (rule wp_bind [OF wp_weak [OF saysD]]) (auto simp: told_def)

lemma wp_lift_step: "(\<And>x. r = Inr x \<Longrightarrow> wp (f x) Q (\<lambda>e v. True) w) \<Longrightarrow> wp (seq (lift_result r) f) Q (\<lambda>e v. True) w"
  unfolding wp_seq wp_lift by (simp split: sum.split)

lemma says_any: "says m P \<Longrightarrow> says m (\<lambda>x xs. True)"
  by (erule says_mono) simp

lemma says_loose: "says m (\<lambda>x xs. True) \<Longrightarrow> (\<And>x. says (f x) (\<lambda>x xs. True)) \<Longrightarrow> says (seq m f) (\<lambda>x xs. True)"
  by (rule says_seq) auto

lemma wp_backup_locked:
  fixes w :: "'s net station"
  shows "wp (backup_locked X cfg A name archive) (\<lambda>u v. backup_recorded X cfg (w_db w) (w_db v)) (\<lambda>e v. True) w"
proof -
  let ?Q = "\<lambda>u v. backup_recorded X cfg (w_db w) (w_db v)"
  have started: "wp (seq (start_run X archive row) (\<lambda>u. seq (lift_result (resolved (bo_host X) (cf_archive_root cfg)))
      (\<lambda>root_path. archived_run X cfg A archive (s root_path)))) ?Q (\<lambda>e v. True) v" if "w_db v = w_db w" for v row s
  proof (rule wp_bind [OF wp_start_run])
    fix x and u :: "'s net station"
    assume u: "canonical_messages (w_db u) = canonical_messages (w_db v) \<and>
      find (\<lambda>r. bk_id r = bo_run_id X) (backup_runs (w_db u)) \<noteq> None"
    with that have "backup_recorded X cfg (w_db w) d = backup_recorded X cfg (w_db u) d" for d
      by (intro recorded_same) simp
    with wp_archived_run [OF u [THEN conjunct2], of cfg A archive]
    show "wp (seq (lift_result (resolved (bo_host X) (cf_archive_root cfg))) (\<lambda>root_path. archived_run X cfg A archive (s root_path)))
        ?Q (\<lambda>e v. True) u"
      by (intro wp_lift_step) simp
  qed
  have version: "says (borg_version X A) (\<lambda>x xs. True)"
    unfolding borg_version_def Let_def borg_command_def
    by (intro says_loose says_any [OF says_command])
      (auto split: option.split intro!: says_loose says_any [OF says_pure(4)] says_any [OF says_pure(3)]
        says_any [OF says_pure(1)] says_pure(2))
  have identity: "says (case known of None \<Rightarrow> fail e | Some i \<Rightarrow> seq (borg_identity X A) (\<lambda>ident. require (ident = i) e))
      (\<lambda>x xs. True)" for known e
    by (auto split: option.split intro!: says_loose says_any [OF says_operations(1)] says_any [OF says_pure(3)] says_pure(2))
  have row: "wp (case found of None \<Rightarrow> fail e | Some row \<Rightarrow>
      seq (borg_version X A) (\<lambda>v. seq (case rp_repository_identity row of None \<Rightarrow> fail e'
        | Some i \<Rightarrow> seq (borg_identity X A) (\<lambda>ident. require (ident = i) e')) (\<lambda>u.
      seq (start_run X archive row) (\<lambda>u. seq (lift_result (resolved (bo_host X) (cf_archive_root cfg)))
        (\<lambda>root_path. archived_run X cfg A archive (s root_path)))))) ?Q (\<lambda>e v. True) w" for found e e' s
  proof (cases found)
    case (Some row)
    show ?thesis
      unfolding Some option.case
      by (rule wp_says [OF version], rule wp_says [OF identity], rule started) simp
  qed simp
  show ?thesis
    unfolding backup_locked_def wp_seq [of "read_state _"] wp_read by (rule row)
qed

lemma wp_backup_run:
  fixes w :: "'s net station"
  shows "wp (backup_run X cfg name) (\<lambda>rid v. rid = bo_run_id X \<and> backup_recorded X cfg (w_db w) (w_db v)) (\<lambda>e v. True) w"
    (is "wp _ ?Q _ _")
proof -
  have locked: "wp (seq (archive_name X) (\<lambda>archive. seq (borg_locked X cfg name (backup_locked X cfg A name archive))
      (\<lambda>u. ret (bo_run_id X)))) ?Q (\<lambda>e v. True) u" if "canonical_messages (w_db u) = canonical_messages (w_db w)" for A u
  proof -
    have "wp (borg_locked X cfg name (backup_locked X cfg A name archive)) (\<lambda>x v. backup_recorded X cfg (w_db w) (w_db v))
        (\<lambda>e v. True) v" if "w_db v = w_db u" for archive v
      unfolding borg_locked_def
    proof (rule wp_locked_db)
      fix t :: "'s net station" assume "w_db t = w_db v"
      with \<open>w_db v = w_db u\<close> \<open>canonical_messages (w_db u) = canonical_messages (w_db w)\<close>
      have "backup_recorded X cfg (w_db w) d = backup_recorded X cfg (w_db t) d" for d by (intro recorded_same) simp
      with wp_backup_locked [of X cfg A name archive t]
      show "wp (backup_locked X cfg A name archive) (\<lambda>x v. backup_recorded X cfg (w_db w) (w_db v)) (\<lambda>e v. True) t" by simp
    qed
    then show ?thesis
      unfolding wp_seq [of "archive_name X"] by (auto simp: wp_seq archive_name_def wp_def [of "archive_name X"])
  qed
  show ?thesis
    unfolding backup_run_def
  proof (rule wp_bind [OF wp_weak [OF wp_reconciled]], rule wp_lift_step, rule wp_says [OF says_pure(3)], rule wp_lift_step)
    fix u v :: "'s net station" and A
    assume "same_backups (w_db w) (w_db u) \<and> borg_answers u = borg_answers w" "w_db v = w_db u"
    then show "wp (seq (archive_name X) (\<lambda>archive. seq (borg_locked X cfg name (backup_locked X cfg A name archive))
        (\<lambda>u. ret (bo_run_id X)))) ?Q (\<lambda>e v. True) v"
      by (intro locked) (simp add: same_backups_def)
  qed
qed

section \<open>From a backup to its verification\<close>

text \<open>
  The resolution of paths as the system promises it: resolving twice changes nothing, and the two directories
  of messages are not symbolic links.
\<close>

definition plain_archive :: "host \<Rightarrow> app_config \<Rightarrow> bool" where
  "plain_archive H cfg \<longleftrightarrow> (\<forall>p q. resolved H p = Inr q \<longrightarrow> resolved H q = Inr q) \<and>
     (\<forall>r. resolved H (cf_archive_root cfg) = Inr r \<longrightarrow> resolved H (r @ [''mail'']) = Inr (r @ [''mail'']) \<and>
        resolved H (r @ [''quarantine'']) = Inr (r @ [''quarantine'']))"

lemma stored_elsewhere:
  assumes "plain_archive H cfg" and "resolved H (cf_archive_root cfg) = Inr r" and "stored_below H r c relative"
  shows "path_str relative \<noteq> MANIFEST_PATH"
proof -
  let ?d = "if cm_storage_state c = Archived then ''mail'' else ''quarantine''"
  from assms have "resolved H (r @ relative) = Inr (r @ relative)" "resolved H (r @ [?d]) = Inr (r @ [?d])"
    by (auto simp: plain_archive_def stored_below_def)
  with assms(3) have "is_prefix_of (r @ [?d]) (r @ relative)" by (simp add: stored_below_def inside_def)
  then obtain rest where "relative = ?d # rest" by (auto simp: is_prefix_of_iff)
  then show ?thesis
    by (cases rest) (auto simp: path_str_def is_absolute_def MANIFEST_PATH_def)
qed

text \<open>What a manifest of the snapshot says, the inventory that \<open>verify_run\<close> accepts says too.\<close>

lemma proved_inventory:
  assumes "proves X A run row answers" and "bk_manifest_sha256 run = Some (h_sha256 (bo_host X) (manifest_of es))"
    and "list_all entry_form es"
    and unique: "\<And>m. bk_manifest_sha256 run = Some (h_sha256 (bo_host X) m) \<Longrightarrow> m = manifest_of es"
  obtains listed inventory where
    "([''list'', ''--format'', LIST_FORMAT, archive_ref A (bk_archive_name run)], listed) \<in> set answers"
    "inventory_of (lines_by str_break [] listed) [] = Inr inventory"
    "\<And>e. e \<in> set es \<Longrightarrow> entry_text e ''path'' \<noteq> MANIFEST_PATH \<Longrightarrow>
       map_of inventory (entry_text e ''path'') = Some (entry_size e, entry_text e ''sha256'')"
proof -
  obtain stored listed entries objects inventory where
    sha: "bk_manifest_sha256 run = Some (h_sha256 (bo_host X) (utf8 stored))"
    and parsed: "parse_manifest (utf8 stored) = Inr entries" "expected_inventory entries = Inr objects"
    and inventory: "inventory_of (lines_by str_break [] listed) [] = Inr inventory"
    and same: "same_dict inventory (AList.update MANIFEST_PATH (int (length (utf8 stored)), h_sha256 (bo_host X) (utf8 stored)) objects)"
    and answers: "([''list'', ''--format'', LIST_FORMAT, archive_ref A (bk_archive_name run)], listed) \<in> set answers"
    using assms(1) unfolding proves_def Let_def
    by (elim exE conjE, intro that) (assumption | simp)+
  from unique [OF sha] have manifest: "utf8 stored = manifest_of es" .
  have "map_of inventory (entry_text e ''path'') = Some (entry_size e, entry_text e ''sha256'')"
    if "e \<in> set es" "entry_text e ''path'' \<noteq> MANIFEST_PATH" for e
  proof -
    from parse_written [OF parsed(1) [unfolded manifest] assms(3)] that(1)
    have "(entry_text e ''path'', entry_size e, entry_text e ''sha256'') \<in> set entries"
      by (auto simp: entry_record_def)
    from expected_holds [OF parsed(2) this] that(2) show ?thesis
      by (intro same_dict_holds [OF same]) (simp add: update_conv')
  qed
  then show ?thesis by (rule that [OF answers inventory])
qed

lemma canonical_entry_texts:
  "entry_text (canonical_entry c p) ''path'' = p" "entry_text (canonical_entry c p) ''sha256'' = cm_sha256 c"
  "entry_size (canonical_entry c p) = cm_size_bytes c"
  by (simp_all add: canonical_entry_def entry_text_def entry_size_def)

text \<open>
  C27.  A verified backup holds every message: when \<open>backup_run\<close> has returned and \<open>verify_run\<close> of its run returns
  (its row and its evidence rows being kept), what Borg has just listed for the archive has, for every
  finalized message of the database that was saved, a file of its size and its digest, and the evidence row of
  the message is verified.  Relied on: paths resolve as the system promises, and no second octet string has the
  recorded SHA-256.
\<close>

theorem verified_backup_holds_every_message:
  assumes backed: "backup_run X cfg name w = (Inr rid, v)"
    and verified: "verify_run X cfg rid v' = (Inr (), u)"
    and run_kept: "find (\<lambda>r. bk_id r = rid) (backup_runs (w_db v')) = find (\<lambda>r. bk_id r = rid) (backup_runs (w_db v))"
    and rows_kept: "set (message_backup_evidence (w_db v)) \<subseteq> set (message_backup_evidence (w_db v'))"
    and place: "plain_archive (bo_host X) cfg"
    and unique: "\<And>run m m'. find (\<lambda>r. bk_id r = rid) (backup_runs (w_db v)) = Some run \<Longrightarrow>
      bk_manifest_sha256 run = Some (h_sha256 (bo_host X) m) \<Longrightarrow>
      bk_manifest_sha256 run = Some (h_sha256 (bo_host X) m') \<Longrightarrow> m = m'"
  shows "\<exists>answers archive listed inventory. borg_answers u = borg_answers v' @ answers \<and>
     ([''list'', ''--format'', LIST_FORMAT, archive], listed) \<in> set answers \<and>
     inventory_of (lines_by str_break [] listed) [] = Inr inventory \<and>
     list_all (\<lambda>c. list_ex (\<lambda>x. snd x = (cm_size_bytes c, cm_sha256 c)) inventory \<and>
       list_ex (\<lambda>e. be_canonical_message_id e = cm_id c \<and> be_backup_run_id e = rid \<and> be_verified e)
         (message_backup_evidence (w_db u))) (finalized (w_db w))"
proof -
  from wp_run [OF backed wp_backup_run] have rid: "rid = bo_run_id X" and rec: "backup_recorded X cfg (w_db w) (w_db v)" by auto
  from rec obtain r es run where r: "resolved (bo_host X) (cf_archive_root cfg) = Inr r"
    and snapshot: "snapshot_of (bo_host X) r (w_db w) es"
    and run: "find (\<lambda>r. bk_id r = rid) (backup_runs (w_db v)) = Some run"
      "bk_manifest_sha256 run = Some (h_sha256 (bo_host X) (manifest_of es))"
    by (auto simp: backup_recorded_def rid)
  from wp_run [OF verified wp_verify_run] obtain row A answers where
    answers: "borg_answers u = borg_answers v' @ answers" "proves X A run row answers"
    and rows: "message_backup_evidence (w_db u) = verified_rows rid (message_backup_evidence (w_db v'))"
    using run_kept run(1) by (auto simp: verified_by_borg_def)
  from snapshot have forms: "list_all entry_form es" by (simp add: snapshot_of_def)
  from proved_inventory [OF answers(2) run(2) forms unique [OF run(1) _ run(2)]] obtain listed inventory where
    listed: "([''list'', ''--format'', LIST_FORMAT, archive_ref A (bk_archive_name run)], listed) \<in> set answers"
      "inventory_of (lines_by str_break [] listed) [] = Inr inventory"
    and holds: "\<And>e. e \<in> set es \<Longrightarrow> entry_text e ''path'' \<noteq> MANIFEST_PATH \<Longrightarrow>
       map_of inventory (entry_text e ''path'') = Some (entry_size e, entry_text e ''sha256'')" by blast
  have "list_ex (\<lambda>x. snd x = (cm_size_bytes c, cm_sha256 c)) inventory" if "c \<in> set (finalized (w_db w))" for c
  proof -
    from snapshot that obtain relative where e: "canonical_entry c (path_str relative) \<in> set es"
      "stored_below (bo_host X) r c relative" by (auto simp: snapshot_of_def)
    from holds [OF e(1)] stored_elsewhere [OF place r e(2)] show ?thesis
      by (auto simp: canonical_entry_texts list_ex_iff dest: map_of_SomeD intro!: bexI)
  qed
  moreover have "list_ex (\<lambda>e. be_canonical_message_id e = cm_id c \<and> be_backup_run_id e = rid \<and> be_verified e)
      (message_backup_evidence (w_db u))" if c: "c \<in> set (finalized (w_db w))" for c
  proof -
    from rec c rows_kept obtain e where "e \<in> set (message_backup_evidence (w_db v'))"
      "be_canonical_message_id e = cm_id c" "be_backup_run_id e = rid" "be_covered e"
      unfolding backup_recorded_def rid by blast
    then have "e\<lparr>be_verified := True\<rparr> \<in> set (message_backup_evidence (w_db u))"
      "be_canonical_message_id e = cm_id c" "be_backup_run_id e = rid"
      by (auto simp: rows verified_rows_def set_update_where)
    then show ?thesis unfolding list_ex_iff by (intro bexI [of _ "e\<lparr>be_verified := True\<rparr>"]) simp_all
  qed
  ultimately show ?thesis
    using answers(1) listed unfolding list_all_iff by blast
qed

end
