(* ===== verification/BorgSafety.thy ===== *)
theory BorgSafety
  imports BorgBackup
begin

text \<open>
  What the Borg operations never do: no command they send removes or rewrites an archive or a repository,
  and a name that is bound to a repository is never bound to another one.
\<close>

section \<open>The commands\<close>

text \<open>
  The argument lists that leave every archive in place (\<open>check\<close> without repair), with no variable in the
  environment but the ones the program sets.
\<close>

definition keeps_archives :: "string list \<Rightarrow> bool" where
  "keeps_archives args \<longleftrightarrow> args = [''--version''] \<or> (\<exists>a. args \<in> {[''info'', ''--json'', a], [''create'', ''--json'', a, ''.''],
     [''extract'', a], [''extract'', ''--stdout'', a, MANIFEST_PATH], [''list'', ''--format'', LIST_FORMAT, a],
     [''check'', ''--archives-only'', ''--verify-data'', a]})"

definition own_environment :: "(string \<times> string) list \<Rightarrow> bool" where
  "own_environment env \<longleftrightarrow> set (map fst env) \<subseteq> {''BORG_CACHE_DIR'', ''BORG_SECURITY_DIR'', ''BORG_PASSPHRASE''}"

fun borg_sends :: "(string list \<Rightarrow> bool) \<Rightarrow> command \<Rightarrow> bool" where
  "borg_sends ok (RunBorg args cwd env) = (ok args \<and> own_environment env)"
| "borg_sends ok (TryLock p) = True"
| "borg_sends ok (Unlock p) = True"
| "borg_sends ok c = False"

abbreviation sending_borg :: "(string list \<Rightarrow> bool) \<Rightarrow> ('s net station, 'a) prog \<Rightarrow> bool" where
  "sending_borg ok \<equiv> leads (sends_only (borg_sends ok))"

lemma leads_result:
  assumes "leads (sends_only C) m" and "says m P" and "\<And>x xs. P x xs \<Longrightarrow> leads (sends_only C) (f x)"
  shows "leads (sends_only C) (seq m f)"
  unfolding leads_def wp_always [symmetric]
proof
  fix w
  from leads_wp [OF assms(1)] saysD [OF assms(2)]
  have "wp m (\<lambda>x v. sends_only C w v \<and> (\<exists>xs. told w xs v \<and> P x xs)) (\<lambda>e v. sends_only C w v \<and> keeps_db w v) w"
    by (rule wp_both)
  then show "wp (seq m f) (\<lambda>x. sends_only C w) (\<lambda>e. sends_only C w) w"
    unfolding wp_seq
  proof (rule wp_mono)
    fix x v assume "sends_only C w v \<and> (\<exists>xs. told w xs v \<and> P x xs)"
    then have v: "sends_only C w v" "leads (sends_only C) (f x)" using assms(3) by auto
    show "wp (f x) (\<lambda>x. sends_only C w) (\<lambda>e. sends_only C w) v"
      by (rule wp_mono [OF leads_wp [OF v(2)]]) (use v(1) in \<open>auto intro: sending.steps\<close>)
  qed simp
qed

lemma sending_environment:
  "leads (sends_only C) (borg_environment X A)"
  "says (borg_environment X A) (\<lambda>env xs. own_environment env)"
proof -
  show "leads (sends_only C) (borg_environment X A)"
    unfolding borg_environment_def Let_def file_programs by (intro sending.structural)
  have own: "own_environment (b # c # secret)" if "passphrase H r = Inr secret" "fst b = ''BORG_CACHE_DIR''"
      "fst c = ''BORG_SECURITY_DIR''" for b c secret H r
    using that by (auto simp: passphrase_def own_environment_def split: option.splits if_splits)
  show "says (borg_environment X A) (\<lambda>env xs. own_environment env)"
    unfolding borg_environment_def Let_def
    by (rule says_files [OF file_steps(3)], rule says_files [OF file_steps(3)], rule says_lift,
        rule says_mono [OF says_pure(1)]) (simp add: own)
qed

lemma sending_run: "ok args \<Longrightarrow> sending_borg ok (run_borg X A args cwd)"
  unfolding run_borg_def
  by (intro sending.seq sending.attempt leads_result [OF sending_environment] sends_on_net adds_intros sending.basic)
    (auto split: reply.split intro: sending.basic sending.conditional)

lemma sending_command: "ok args \<Longrightarrow> sending_borg ok (borg_command X A args)"
  unfolding borg_command_def by (rule sending_run)

lemma keeps_shapes:
  "keeps_archives [''--version'']" "keeps_archives [''info'', ''--json'', a]" "keeps_archives [''create'', ''--json'', a, ''.'']"
  "keeps_archives [''extract'', a]" "keeps_archives [''extract'', ''--stdout'', a, MANIFEST_PATH]"
  "keeps_archives [''list'', ''--format'', LIST_FORMAT, a]" "keeps_archives [''check'', ''--archives-only'', ''--verify-data'', a]"
  by (auto simp: keeps_archives_def)

lemma sending_operations:
  assumes "\<And>args. keeps_archives args \<Longrightarrow> ok args"
  shows "sending_borg ok (borg_version X A)" "sending_borg ok (borg_identity X A)"
    "sending_borg ok (borg_create X A name s)" "sending_borg ok (manifest_bytes X A name)"
    "sending_borg ok (borg_inventory X A name)" "sending_borg ok (verify_data X A name)"
    "sending_borg ok (borg_extract X A name p)"
proof -
  have unpack: "sending_borg ok (unpack X p)"
    by (auto simp: leads_def unpack_def Let_def put_fs_def remember_def intro!: sending.quiet_step)
  note parts = sending.seq sending.basic sending_command sending_run assms keeps_shapes unpack
  show "sending_borg ok (borg_version X A)" unfolding borg_version_def Let_def
    by (intro parts) (auto split: option.split intro!: parts)
  show "sending_borg ok (borg_identity X A)" "sending_borg ok (borg_create X A name s)"
    "sending_borg ok (manifest_bytes X A name)" "sending_borg ok (borg_inventory X A name)"
    "sending_borg ok (verify_data X A name)" "sending_borg ok (borg_extract X A name p)"
    unfolding borg_identity_def borg_create_def manifest_bytes_def borg_inventory_def verify_data_def borg_extract_def
    by (intro parts)+
qed

section \<open>The operations\<close>

lemma sending_unchanged: "(\<And>w. w_net (snd (m w)) = w_net w) \<Longrightarrow> leads (sends_only C) m"
  by (simp add: leads_def sends_only_def)

lemma sending_tables:
  "leads (sends_only C) (reconciled X cfg)" "leads (sends_only C) (start_run X archive row)"
  "leads (sends_only C) (record_backup X ids manifest)" "leads (sends_only C) (run_failed X kind)"
  "leads (sends_only C) (fail_verification rid kind)" "leads (sends_only C) (confirm_verification H rid)"
  "leads (sends_only C) (start_test H rid)" "leads (sends_only C) (finish_test H i k)"
  "leads (sends_only C) (archive_name X)"
proof -
  note quiet = sending.transaction [OF sending_unchanged]
  show "leads (sends_only C) (reconciled X cfg)"
    unfolding reconciled_def by (intro sending.transaction sending.initializing)
  show "leads (sends_only C) (start_run X archive row)" "leads (sends_only C) (record_backup X ids manifest)"
    "leads (sends_only C) (run_failed X kind)" "leads (sends_only C) (fail_verification rid kind)"
    "leads (sends_only C) (confirm_verification H rid)" "leads (sends_only C) (start_test H rid)"
    "leads (sends_only C) (finish_test H i k)"
    unfolding start_run_def record_backup_def run_failed_def fail_verification_def confirm_verification_def
      start_test_def finish_test_def
    by (rule quiet, simp add: Let_def split: option.split)+
  show "leads (sends_only C) (archive_name X)" by (rule sending_unchanged) (simp add: archive_name_def)
qed

lemma sending_files:
  "leads (sends_only C) (build_snapshot X cfg rid)" "leads (sends_only C) (rmtree S p)"
  "leads (sends_only C) (occupied S p)" "leads (sends_only C) (check_restored X d l)"
  "leads (sends_only C) (check_restored_database X p)"
proof -
  show rm: "leads (sends_only C) (rmtree S p)" for S p
    by (auto simp: leads_def rmtree_def Let_def put_fs_def bump_def remember_def intro!: sending.quiet_step)
  show "leads (sends_only C) (build_snapshot X cfg rid)"
    unfolding build_snapshot_def snapshot_database_def materialize_snapshot_def add_canonical_def add_attachment_def
      expect_object_def copy_verified_def copy_file_def mkdir_new_def Let_def file_programs
    by (intro sending.structural rm)
  show "leads (sends_only C) (occupied S p)" "leads (sends_only C) (check_restored X d l)"
    "leads (sends_only C) (check_restored_database X p)"
    unfolding occupied_def check_restored_def check_restored_database_def Let_def file_programs
    by (intro sending.structural)+
qed

lemma sending_borg_locked: "sending_borg ok body \<Longrightarrow> sending_borg ok (borg_locked X cfg name body)"
  unfolding borg_locked_def by (rule sends_locked) simp_all

lemmas sending_parts = sending.seq sending.attempt sending.finalize sending.basic sending.conditional sending.loop
  sending_tables sending_files sending_borg_locked

lemma sending_verify: "sending_borg keeps_archives (verify_run X cfg rid)"
proof -
  note operations = sending_operations [of keeps_archives]
  have "sending_borg keeps_archives (verify_found X cfg rid run row)" for run row
    unfolding verify_found_def verify_archive_def Let_def by (intro sending_parts operations)
  then show ?thesis
    unfolding verify_run_def by (intro sending_parts) (auto split: option.split intro: sending.basic)
qed

lemma sending_backup: "sending_borg keeps_archives (backup_run X cfg name)"
proof -
  note operations = sending_operations [of keeps_archives]
  have "sending_borg keeps_archives (archived_run X cfg A archive s)" for A archive s
    unfolding archived_run_def Let_def by (intro sending_parts operations)
  then have "sending_borg keeps_archives (backup_locked X cfg A name archive)" for A archive
    unfolding backup_locked_def
    by (intro sending_parts) (auto split: option.split intro!: sending_parts operations)
  then show ?thesis unfolding backup_run_def by (intro sending_parts)
qed

lemma sending_restore: "sending_borg keeps_archives (restore_test X cfg rid target)"
proof -
  note operations = sending_operations [of keeps_archives]
  have "leads (sends_only C) (mkdirs S p)" "leads (sends_only C) (read_at S p)" for C S p
    unfolding file_programs by (intro sending.structural)+
  then show ?thesis
    unfolding restore_test_def restore_archive_def Let_def by (intro sending_parts operations)
qed

lemma sending_binding:
  "sending_borg (\<lambda>args. keeps_archives args \<or> hd args = ''init'') (repo_init X cfg name)"
proof -
  note operations = sending_operations [of "\<lambda>args. keeps_archives args \<or> hd args = ''init''"]
  have "sending_borg (\<lambda>args. keeps_archives args \<or> hd args = ''init'') (borg_init X A)" for A
    unfolding borg_init_def by (intro sending_parts operations sending_command) simp_all
  moreover have "leads (sends_only C) (transaction (\<lambda>w. (Inr (), commit (f w) n w)))" for C f n
    by (rule sending.transaction [OF sending_unchanged]) simp
  ultimately show ?thesis
    unfolding repo_init_def bind_repository_def Let_def
    by (intro sending_parts operations) auto
qed

section \<open>Bound names\<close>

definition bound_to :: "string \<Rightarrow> db \<Rightarrow> string option" where
  "bound_to name d = Option.bind (repository_of_name name d) rp_repository_identity"

interpretation repository_upsert: keyed_update rp_name
  "\<lambda>r. r\<lparr>rp_repository_ref := ref, rp_enabled := e, rp_encryption_mode := m, rp_verification_policy := p, rp_updated_at := now\<rparr>"
  for ref e m p now by unfold_locales simp

interpretation repository_binding: keyed_update rp_name "\<lambda>r. r\<lparr>rp_repository_identity := i, rp_updated_at := now\<rparr>"
  for i now by unfold_locales simp

text \<open>Reconciling the configuration keeps what a name is bound to.\<close>

lemma bound_upsert: "bound_to name (d\<lparr>backup_repositories := upsert_repository now b t\<rparr>) =
    bound_to name (d\<lparr>backup_repositories := t\<rparr>)"
proof (cases "\<exists>r \<in> set t. rp_name r = br_name b")
  case True
  then show ?thesis
    by (simp add: upsert_repository_def bound_to_def repository_of_name_def repository_upsert.find_update)
      (cases "find (\<lambda>r. rp_name r = name) t"; simp)
next
  case False
  then show ?thesis
    by (simp add: upsert_repository_def bound_to_def repository_of_name_def find_append split: option.split)
qed

lemma bound_upserts: "bound_to name (d\<lparr>backup_repositories := upsert_repositories H k bs t\<rparr>) =
    bound_to name (d\<lparr>backup_repositories := t\<rparr>)"
  by (induction bs arbitrary: k t) (simp_all add: bound_upsert)

lemma wp_reconciled_bound:
  "wp (reconciled X cfg) (\<lambda>u v. bound_to name (w_db v) = bound_to name (w_db w)) (\<lambda>e v. v = w) w"
proof -
  have "bound_to name ((w_db w)\<lparr>accounts := a, backup_repositories := upsert_repositories H k bs (backup_repositories (w_db w))\<rparr>) =
      bound_to name (w_db w)" for a H k bs
    using bound_upserts [where d = "(w_db w)\<lparr>accounts := a\<rparr>" and t = "backup_repositories (w_db w)"]
    by (simp add: bound_to_def repository_of_name_def)
  then show ?thesis
    by (simp add: reconciled_def wp_transaction wp_def initialize_def Let_def remember_def)
qed

lemma wp_bind_repository:
  fixes w :: "'s net station"
  assumes "bound_to name (w_db w) = Some i"
  shows "wp (bind_repository X A name) (\<lambda>j v. j = i \<and> bound_to name (w_db v) = Some i)
     (\<lambda>e v. bound_to name (w_db v) = Some i) w"
proof -
  from assms obtain row where row: "repository_of_name name (w_db w) = Some row" "rp_repository_identity row = Some i"
    by (auto simp: bound_to_def bind_eq_Some_conv)
  have bind: "wp (transaction (\<lambda>w. (Inr (), commit ((w_db w)\<lparr>backup_repositories :=
         update_where (\<lambda>r. rp_name r = name) (\<lambda>r. r\<lparr>rp_repository_identity := Some i, rp_updated_at := reading H w 0\<rparr>)
           (backup_repositories (w_db w))\<rparr>) 1 w))) (\<lambda>u v. bound_to name (w_db v) = Some i) (\<lambda>e v. False) v"
    if "w_db v = w_db w" for v H
    using that row
    by (auto simp: wp_transaction wp_def remember_def bound_to_def repository_of_name_def repository_binding.find_update)
  show ?thesis
    unfolding bind_repository_def Let_def wp_seq [of "read_state _"] wp_read
  proof (simp add: row, rule wp_bind)
    show "wp (borg_identity X A) (\<lambda>ident v. w_db v = w_db w) (\<lambda>e v. bound_to name (w_db v) = Some i) w"
      by (rule wp_mono [OF saysD [OF says_operations(1)]]) (use assms in \<open>auto simp: told_def keeps_db_def\<close>)
    fix ident and v :: "'s net station" assume v: "w_db v = w_db w"
    show "wp (seq (require (i = ident) (BorgError ''repository-identity-mismatch'')) (\<lambda>u.
        seq (transaction (\<lambda>w. (Inr (), commit ((w_db w)\<lparr>backup_repositories :=
          update_where (\<lambda>r. rp_name r = name) (\<lambda>r. r\<lparr>rp_repository_identity := Some ident,
            rp_updated_at := reading (bo_host X) w 0\<rparr>) (backup_repositories (w_db w))\<rparr>) (Suc 0) w))) (\<lambda>u. ret ident)))
        (\<lambda>j v. j = i \<and> bound_to name (w_db v) = Some i) (\<lambda>e v. bound_to name (w_db v) = Some i) v"
      using v assms wp_mono [OF bind [OF v, of "bo_host X"]]
      by (auto simp: wp_seq wp_require)
  qed
qed

text \<open>The name is bound to \<open>i\<close>, and nothing but commands that keep archives was sent.\<close>

definition still_bound :: "string \<Rightarrow> string \<Rightarrow> 's net station \<Rightarrow> 's net station \<Rightarrow> bool" where
  "still_bound name i w v \<longleftrightarrow> bound_to name (w_db v) = Some i \<and> sends_only (borg_sends keeps_archives) w v"

lemma wp_bind_bound:
  fixes w :: "'s net station"
  assumes "bound_to name (w_db w) = Some i"
  shows "wp (bind_repository X A name) (\<lambda>j v. j = i \<and> still_bound name i w v) (\<lambda>e. still_bound name i w) w"
proof -
  from assms obtain row where row: "repository_of_name name (w_db w) = Some row" "rp_repository_identity row = Some i"
    by (auto simp: bound_to_def bind_eq_Some_conv)
  have tables: "leads (sends_only C) (transaction (\<lambda>w. (Inr (), commit (f w) n w)))" for C f n
    by (rule sending.transaction [OF sending_unchanged]) simp
  have "wp (bind_repository X A name) (\<lambda>j. sends_only (borg_sends keeps_archives) w)
      (\<lambda>e. sends_only (borg_sends keeps_archives) w) w"
    unfolding bind_repository_def Let_def wp_seq [of "read_state _"] wp_read
    by (simp add: row) (intro leads_wp sending_parts sending_operations tables)
  from wp_both [OF wp_bind_repository [OF assms] this] show ?thesis
    by (rule wp_mono) (auto simp: still_bound_def)
qed

lemma still_bound_quiet: "bound_to name (w_db v) = Some i \<Longrightarrow> sends_only (borg_sends keeps_archives) v u \<Longrightarrow> w_db u = w_db v \<Longrightarrow>
    still_bound name i v u"
  by (simp add: still_bound_def)

lemma still_bound_trans: "still_bound name i w v \<Longrightarrow> still_bound name i v u \<Longrightarrow> still_bound name i w u"
  unfolding still_bound_def by (blast intro: sending.steps)

lemma wp_lock_bound:
  fixes w :: "'s net station"
  assumes "bound_to name (w_db w) = Some i"
  shows "wp (borg_locked X cfg name (bind_repository X A name)) (\<lambda>j v. j = i \<and> still_bound name i w v)
     (\<lambda>e. still_bound name i w) w"
proof -
  have net: "wp (on_net m) (\<lambda>x v. still_bound name i u v) (\<lambda>e v. still_bound name i u v) u"
    if "bound_to name (w_db u) = Some i" "adds (borg_sends keeps_archives) (\<lambda>e. True) m"
    for u :: "'s net station" and m :: "('s net, 'x) prog"
    using wp_both [OF leads_wp [OF sends_on_net [OF that(2)]] leads_wp [OF unwritten_on_net [of m]], of u]
    by (rule wp_mono) (use that(1) in \<open>auto simp: still_bound_def keeps_db_def\<close>)
  show ?thesis
    unfolding borg_locked_def locked_def
  proof (rule wp_bind [OF net [OF assms]])
    show "adds (borg_sends keeps_archives) (\<lambda>e. True) (issue (bo_peer X)
        (TryLock (cf_archive_root cfg @ [''state'', ''locks'', ''borg-'' @ name @ ''.lock''])))"
      by (intro adds_intros) simp_all
    fix r and v :: "'s net station" assume v: "still_bound name i w v"
    then have bound: "bound_to name (w_db v) = Some i" by (simp add: still_bound_def)
    have unlock: "wp (on_net (command_done P (Unlock p))) (\<lambda>x u. still_bound name i w u) (\<lambda>e u. still_bound name i w u) t"
      if "still_bound name i w t" for t :: "'s net station" and P p
      by (rule wp_mono [OF net]) (use that in \<open>auto simp: still_bound_def intro!: adds_intros intro: sending.steps\<close>)
    have "wp (finalize (bind_repository X A name) (on_net (command_done P (Unlock p))))
        (\<lambda>j v. j = i \<and> still_bound name i w v) (\<lambda>e. still_bound name i w) v" for P p
      unfolding wp_finalize
      by (rule wp_mono [OF wp_bind_bound [OF bound]])
        (auto intro!: wp_mono [OF unlock [OF still_bound_trans [OF v]]])
    then show "wp (if r = Busy then fail (BorgError ''concurrent-run'') else finalize (bind_repository X A name)
        (on_net (command_done (bo_peer X) (Unlock (cf_archive_root cfg @ [''state'', ''locks'', ''borg-'' @ name @ ''.lock''])))))
        (\<lambda>j v. j = i \<and> still_bound name i w v) (\<lambda>e. still_bound name i w) v"
      using v by simp
  qed
qed

text \<open>
  C40.  A repository name that is bound stays bound to the same identity: another repository at its place is an
  error, it is never initialized again, and what \<open>repo_init\<close> returns is the stored identity.
\<close>

theorem bound_repository_stays_bound:
  assumes "repo_init X cfg name w = (r, v)" and "bound_to name (w_db w) = Some i"
  shows "bound_to name (w_db v) = Some i \<and> sends_only (borg_sends keeps_archives) w v \<and>
     (case r of Inr j \<Rightarrow> j = i | Inl e \<Rightarrow> True)"
proof -
  have start: "wp (reconciled X cfg) (\<lambda>u. still_bound name i w) (\<lambda>e. still_bound name i w) w"
    by (rule wp_mono [OF wp_both [OF wp_reconciled_bound [of X cfg name w] leads_wp [OF sending_tables(1)]]])
      (use assms(2) in \<open>auto simp: still_bound_def\<close>)
  have "wp (repo_init X cfg name) (\<lambda>j v. j = i \<and> still_bound name i w v) (\<lambda>e. still_bound name i w) w"
    unfolding repo_init_def
  proof (rule wp_bind [OF start])
    fix x u assume u: "still_bound name i w u"
    then have bound: "bound_to name (w_db u) = Some i" by (simp add: still_bound_def)
    have "wp (borg_locked X cfg name (bind_repository X A name)) (\<lambda>j v. j = i \<and> still_bound name i w v)
        (\<lambda>e. still_bound name i w) u" for A
      by (rule wp_mono [OF wp_lock_bound [OF bound]]) (auto intro: still_bound_trans [OF u])
    with u show "wp (seq (lift_result (repository_config cfg name)) (\<lambda>repository.
        seq (lift_result (borg_adapter_for (bo_host X) cfg repository)) (\<lambda>A.
        borg_locked X cfg name (bind_repository X A name))))
        (\<lambda>j v. j = i \<and> still_bound name i w v) (\<lambda>e. still_bound name i w) u"
      by (simp add: wp_seq wp_lift split: sum.split)
  qed
  with assms(1) show ?thesis
    by (auto simp: wp_def still_bound_def split: sum.splits)
qed


end
