(* ===== verification/BorgSample.thy ===== *)
theory BorgSample
  imports BorgSafety ArchiveWitness
begin

text \<open>An archive with one message, and a Borg that keeps what it is given.\<close>

definition borg_id :: string where
  "borg_id = replicate 64 (CHR ''i'')"

definition borg_repository :: backup_repository_config where
  "borg_repository = \<lparr>br_name = ''b'', br_enabled = True, br_repository_ref = ''x'', br_encryption_mode = NoEncryption,
     br_passphrase_env = None, br_verification_policy = ''borg-archive-data-v1'',
     br_command_timeout_seconds = 60\<rparr>"

definition borg_config :: app_config where
  "borg_config = sample_config\<lparr>cf_backup_repositories := [borg_repository]\<rparr>"

definition borg_db :: db where
  "borg_db = sample_db\<lparr>backup_runs := [], message_backup_evidence := [],
     backup_repositories := [(hd (backup_repositories sample_db))\<lparr>rp_repository_identity := Some borg_id\<rparr>]\<rparr>"

definition borg_manifest :: bytes where
  "borg_manifest = manifest_of [canonical_entry sample_canonical ''mail/m'', sqlite_entry sample_sha 0]"

definition manifest_sha :: string where
  "manifest_sha = replicate 64 (CHR ''b'')"

definition borg_host :: host where
  "borg_host = sample_host\<lparr>h_sha256 := (\<lambda>b. if b = borg_manifest then manifest_sha else sample_sha)\<rparr>"

definition listing_line :: "string \<Rightarrow> string \<Rightarrow> string \<Rightarrow> string" where
  "listing_line p n d = p @ [CHR 0x1F] @ n @ [CHR 0x1F] @ d @ [CHR 0x0A]"

definition borg_output :: "string list \<Rightarrow> string" where
  "borg_output args =
     (if hd args = ''--version'' then ''borg 1.4.0''
      else if hd args = ''info'' then dumps '','' '':'' (JObj [(''repository'', JObj [(''id'', JStr borg_id)])])
      else if hd args = ''list'' then listing_line ''mail/m'' ''1'' sample_sha @
        listing_line ''state/mailarchive.sqlite3'' ''0'' sample_sha @
        listing_line MANIFEST_PATH (int_text (int (length borg_manifest))) manifest_sha
      else if hd args = ''extract'' then borg_manifest else [])"

definition borg_reply :: "command \<Rightarrow> reply" where
  "borg_reply c = (case c of RunBorg args cwd env \<Rightarrow> Ran 0 (borg_output args) | _ \<Rightarrow> Done)"

definition borg_server :: "unit peer" where
  "borg_server c s = (Inr (borg_reply c), ())"

definition borg_out :: "unit borg_outside" where
  "borg_out = \<lparr>bo_system = calm_system, bo_host = borg_host, bo_peer = borg_server,
     bo_sqlite = \<lparr>sq_image = (\<lambda>d. []), sq_intact = (\<lambda>b. True), sq_foreign_keys = (\<lambda>b. True)\<rparr>,
     bo_run_id = ''k'', bo_strftime = (\<lambda>t. ''t''), bo_repr = (\<lambda>v. ''''), bo_extracted = (\<lambda>k p. None)\<rparr>"

definition borg_fs :: fs where
  "borg_fs p = (if p = sample_path then Some (RegFile ''x'')
     else if p \<in> set (ancestors [''r'', ''state'', ''borg'', ''b'', ''cache'']) \<union> set (ancestors [''r'', ''state'', ''borg'', ''b'', ''security''])
     then Some Directory else None)"

definition borg_station :: "unit net station" where
  "borg_station = \<lparr>w_db = borg_db, w_fs = borg_fs, w_tick = 0,
     w_net = \<lparr>dk_calls = 0, dk_past = [], dk_rest = \<lparr>nt_trace = [], nt_client = False, nt_sock = False, nt_queue = [],
       nt_buffer = [], nt_commands = [], nt_labels = [], nt_peer = ()\<rparr>\<rparr>\<rparr>"

section \<open>Runs without a fault\<close>

text \<open>\<open>runs d F m x G\<close>: with the database \<open>d\<close> and the files \<open>F\<close>, \<open>m\<close> returns \<open>x\<close> and leaves the files \<open>G\<close>.\<close>

definition runs :: "db \<Rightarrow> fs \<Rightarrow> (unit net station, 'a) prog \<Rightarrow> 'a \<Rightarrow> fs \<Rightarrow> bool" where
  "runs d F m x G \<longleftrightarrow> (\<forall>w. w_db w = d \<and> w_fs w = F \<longrightarrow> wp m (\<lambda>y v. y = x \<and> w_db v = d \<and> w_fs v = G) (\<lambda>e v. False) w)"

lemma runs_control:
  "runs d F (ret x) x F" "b \<Longrightarrow> runs d F (require b e) () F" "r = Inr x \<Longrightarrow> runs d F (lift_result r) x F"
  "runs d F (read_state w_db) d F"
  by (auto simp: runs_def wp_rules)

lemma runs_seq: "runs d F m y G \<Longrightarrow> runs d G (f y) x I \<Longrightarrow> runs d F (seq m f) x I"
  unfolding runs_def wp_seq by (blast intro: wp_mono)

lemma runs_attempt: "runs d F m x G \<Longrightarrow> runs d F (attempt m C h) x G"
  unfolding runs_def wp_attempt by (blast intro: wp_mono)

lemma runs_finalize: "runs d F m x G \<Longrightarrow> runs d G c () I \<Longrightarrow> runs d F (finalize m c) x I"
  unfolding runs_def wp_finalize by (blast intro: wp_mono)

lemma runs_syscall: "f F = Inr (G, x) \<Longrightarrow> runs d F (syscall calm_system t f) x G"
  by (simp add: runs_def wp_def syscall_def calm_system_def Let_def put_fs_def bump_def remember_def)

lemma runs_query: "runs d F (query calm_system f) (f F) F"
  by (simp add: runs_def wp_def query_def calm_system_def Let_def put_fs_def bump_def remember_def)

lemma runs_net: "runs d F (on_net (issue borg_server c)) (borg_reply c) F"
  "runs d F (on_net (command_done borg_server c)) () F"
  by (simp_all add: runs_def wp_def on_net_def issue_def command_done_def run_simps borg_server_def)

lemma runs_files:
  "list_all (\<lambda>q. F q = None \<or> F q = Some Directory) (ancestors p) \<Longrightarrow>
     runs d F (mkdirs calm_system p) () (fold make_dir (ancestors p) F)"
  "F p = None \<Longrightarrow> list_all (\<lambda>q. F q = None \<or> F q = Some Directory) (ancestors p) \<Longrightarrow>
     runs d F (mkdir_new calm_system p) () (fold make_dir (ancestors p) F)"
  "runs d F (write_file calm_system p b) () (F(p \<mapsto> RegFile b))"
  "read_bytes F p = Some b \<Longrightarrow> runs d F (read_at calm_system p) b F"
  "read_bytes F p = Some b \<Longrightarrow> runs d F (sha_at calm_system H p) (h_sha256 H b) F"
  "runs d F (exists_at calm_system p) (file_exists F p) F"
  "runs d F (is_file_at calm_system p) (is_file F p) F"
  "is_file F p \<Longrightarrow> F q = None \<Longrightarrow> F (parent q) = Some Directory \<Longrightarrow> runs d F (link calm_system p q) () (F(q := F p))"
  unfolding file_programs mkdir_new_def sha_at_def
  by (auto intro!: runs_syscall runs_query runs_seq runs_control)

lemma dirs_there: "list_all (\<lambda>q. F q = Some Directory) ps \<Longrightarrow> fold make_dir ps F = F"
  by (induction ps) (auto simp: make_dir_def)

definition borg_box :: borg_adapter where
  "borg_box = \<lparr>ba_repository = borg_repository, ba_root = [''r''], ba_state = [''r'', ''state'', ''borg'', ''b'']\<rparr>"

definition borg_dirs :: "fs \<Rightarrow> bool" where
  "borg_dirs F \<longleftrightarrow> list_all (\<lambda>q. F q = Some Directory)
     (ancestors [''r'', ''state'', ''borg'', ''b'', ''cache''] @ ancestors [''r'', ''state'', ''borg'', ''b'', ''security''])"

lemma borg_parts: "bo_system borg_out = calm_system" "bo_host borg_out = borg_host" "bo_peer borg_out = borg_server"
  by (simp_all add: borg_out_def)

lemma runs_command: "borg_dirs F \<Longrightarrow> runs d F (run_borg borg_out borg_box args cwd) (borg_output args) F"
proof -
  assume F: "borg_dirs F"
  have dirs: "runs d F (mkdirs calm_system p) () F" if "list_all (\<lambda>q. F q = Some Directory) (ancestors p)" for p
    using runs_files(1) [of F p d] dirs_there [OF that] that by (simp add: list_all_iff)
  have "passphrase H borg_repository = Inr []" for H by (simp add: passphrase_def borg_repository_def)
  then have "runs d F (borg_environment borg_out borg_box) ([(''BORG_CACHE_DIR'', path_str (ba_state borg_box @ [''cache''])),
      (''BORG_SECURITY_DIR'', path_str (ba_state borg_box @ [''security'']))] @ []) F"
    unfolding borg_environment_def Let_def borg_parts
    by (intro runs_seq [OF dirs] runs_seq [OF runs_control(3)] runs_control(1))
      (use F in \<open>auto simp: borg_box_def borg_dirs_def runs_control(1)\<close>)
  note env = runs_seq [OF this]
  show ?thesis
    unfolding run_borg_def borg_parts
    by (rule runs_seq [OF runs_attempt [OF env [OF runs_net(1)]]]) (simp add: borg_reply_def runs_control)
qed

section \<open>The snapshot\<close>

definition snap :: path where
  "snap = snapshot_path [''r''] ''k''"

definition with_dirs :: "path \<Rightarrow> fs \<Rightarrow> fs" where
  "with_dirs p F = fold make_dir (ancestors p) F"

definition copied_fs :: fs where
  "copied_fs = (with_dirs (snap @ [''state'']) (with_dirs snap borg_fs))(snap @ [''state'', ''mailarchive.sqlite3''] \<mapsto> RegFile [])"

definition linked_fs :: fs where
  "linked_fs = (with_dirs (snap @ [''mail'']) copied_fs)(snap @ [''mail'', ''m''] \<mapsto> RegFile ''x'')"

definition snapped_fs :: fs where
  "snapped_fs = (with_dirs (snap @ [''metadata'']) linked_fs)(snap @ [''metadata'', ''backup-manifest.jsonl''] \<mapsto> RegFile borg_manifest)"

definition free_for :: "path \<Rightarrow> fs \<Rightarrow> bool" where
  "free_for p F \<longleftrightarrow> list_all (\<lambda>q. F q = None \<or> F q = Some Directory) (ancestors p)"

lemma free_paths:
  "borg_fs snap = None \<and> free_for snap borg_fs" "free_for (snap @ [''state'']) (with_dirs snap borg_fs)"
  "free_for (snap @ [''mail'']) copied_fs" "free_for (snap @ [''metadata'']) linked_fs"
  by code_simp+

lemma file_facts:
  "read_bytes copied_fs (snap @ [''state'', ''mailarchive.sqlite3'']) = Some []"
  "file_exists copied_fs (snap @ [''state'', ''mailarchive.sqlite3-wal'']) = False"
  "file_exists copied_fs (snap @ [''state'', ''mailarchive.sqlite3-shm'']) = False"
  "is_file copied_fs sample_path" "read_bytes copied_fs sample_path = Some ''x''"
  "is_file (with_dirs (snap @ [''mail'']) copied_fs) sample_path"
  "with_dirs (snap @ [''mail'']) copied_fs (snap @ [''mail'', ''m'']) = None"
  "with_dirs (snap @ [''mail'']) copied_fs (snap @ [''mail'']) = Some Directory"
  "with_dirs (snap @ [''mail'']) copied_fs sample_path = Some (RegFile ''x'')"
  "read_bytes linked_fs (snap @ [''mail'', ''m'']) = Some ''x''"
  "read_bytes linked_fs (snap @ [''state'', ''mailarchive.sqlite3'']) = Some []"
  by code_simp+

lemma digests: "h_sha256 borg_host ''x'' = sample_sha" "h_sha256 borg_host [] = sample_sha"
  "h_sha256 borg_host borg_manifest = manifest_sha"
  by code_simp+

lemma runs_dirs: "free_for p F \<Longrightarrow> runs d F (mkdirs calm_system p) () (with_dirs p F)"
  "F p = None \<Longrightarrow> free_for p F \<Longrightarrow> runs d F (mkdir_new calm_system p) () (with_dirs p F)"
  unfolding free_for_def with_dirs_def by (rule runs_files; assumption)+

lemma snap_paths:
  "snapshot_path [''r''] ''k'' = snap" "parent (snap @ [''state'', ''mailarchive.sqlite3'']) = snap @ [''state'']"
  "parent (snap @ [''mail'', ''m'']) = snap @ [''mail'']" "parent (snap @ [''metadata'', ''backup-manifest.jsonl'']) = snap @ [''metadata'']"
  "butlast (snap @ [''state'', ''mailarchive.sqlite3'']) @ [last (snap @ [''state'', ''mailarchive.sqlite3'']) @ s] =
     snap @ [''state'', ''mailarchive.sqlite3'' @ s]"
  by (simp_all add: snap_def parent_def butlast_append)

lemma runs_database: "runs d (with_dirs snap borg_fs) (snapshot_database borg_out (snap @ [''state'', ''mailarchive.sqlite3''])) d copied_fs"
proof -
  have image: "sq_image (bo_sqlite borg_out) e = []" "sq_intact (bo_sqlite borg_out) b" for e b
    by (simp_all add: borg_out_def)
  have written: "runs d (with_dirs (snap @ [''state'']) (with_dirs snap borg_fs))
      (write_file calm_system (snap @ [''state'', ''mailarchive.sqlite3'']) []) () copied_fs"
    unfolding copied_fs_def by (rule runs_files(3))
  have sidecar: "runs d F (seq (exists_at calm_system q) (\<lambda>e. if e then m else ret ())) () F" if "\<not> file_exists F q" for F q m
    by (rule runs_seq [OF runs_files(6)]) (simp add: that runs_control)
  show ?thesis
    unfolding snapshot_database_def Let_def borg_parts snap_paths image
    by (rule runs_seq [OF runs_dirs(1) [OF free_paths(2)]], rule runs_seq [OF runs_control(4)],
        rule runs_seq [OF written], rule runs_seq [OF runs_files(4) [OF file_facts(1)]],
        rule runs_seq [OF runs_control(2)], simp add: image, rule runs_seq [OF sidecar], simp add: file_facts,
        rule runs_seq [OF sidecar], simp add: file_facts, rule runs_control)
qed

definition saved :: entry where
  "saved = canonical_entry sample_canonical ''mail/m''"

lemma sample_paths:
  "resolved borg_host (cm_local_path sample_canonical) = Inr sample_path"
  "resolved borg_host [''r''] = Inr [''r'']"
  "inside borg_host (resolved borg_host sample_path) ([''r''] @ [if cm_storage_state sample_canonical = Archived then ''mail'' else ''quarantine'']) =
     Inr True"
  "relative_to sample_path [''r''] = Inr [''mail'', ''m'']" "path_str [''mail'', ''m''] = ''mail/m''"
  "cm_sha256 sample_canonical = sample_sha"
  by code_simp+

lemma runs_canonical: "runs d copied_fs (add_canonical borg_out [''r''] snap sample_canonical) saved linked_fs"
proof -
  have object: "runs d copied_fs (expect_object borg_out True sample_path sample_sha k) () copied_fs" for k
    unfolding expect_object_def borg_parts
    by (simp, rule runs_seq [OF runs_files(7)], simp add: file_facts,
        rule runs_seq [OF runs_files(5) [OF file_facts(5)]], rule runs_control) (simp add: digests)
  have linked: "runs d (with_dirs (snap @ [''mail'']) copied_fs) (link calm_system sample_path (snap @ [''mail'', ''m''])) () linked_fs"
    using runs_files(8) [of "with_dirs (snap @ [''mail'']) copied_fs" sample_path "snap @ [''mail'', ''m'']" d] file_facts
    by (simp add: linked_fs_def snap_paths)
  have copy: "runs d copied_fs (copy_verified borg_out sample_path (snap @ [''mail'', ''m'']) sample_sha) () linked_fs"
    unfolding copy_verified_def Let_def borg_parts snap_paths
    by (rule runs_seq [OF runs_dirs(1) [OF free_paths(3)]], rule runs_seq [OF runs_attempt [OF linked]],
        rule runs_seq [OF runs_files(5) [OF file_facts(10)]], rule runs_control) (simp add: digests)
  show ?thesis
    unfolding add_canonical_def Let_def borg_parts sample_paths(6) saved_def
    by (rule runs_seq [OF runs_control(3) [OF sample_paths(1)]], rule runs_seq [OF runs_control(3) [OF sample_paths(3)]],
        rule runs_seq [OF object], rule runs_seq [OF runs_control(3) [OF sample_paths(4)]], rule runs_seq [OF copy])
      (simp add: sample_paths runs_control)
qed

definition saved_entries :: "entry list" where
  "saved_entries = [saved, sqlite_entry sample_sha 0]"

lemma runs_materialize:
  assumes "finalized d = [sample_canonical]" "referenced_attachments d = []"
  shows "runs d copied_fs (materialize_snapshot borg_out [''r''] snap (snap @ [''state'', ''mailarchive.sqlite3'']) d)
     ([''c''], manifest_sha) snapped_fs"
proof -
  have "runs d copied_fs (for_each (add_canonical borg_out [''r''] snap) [sample_canonical]) [saved] linked_fs"
    unfolding for_each.simps
    by (rule runs_seq [OF runs_canonical], rule runs_seq [OF runs_control(1)], rule runs_control)
  note entries = runs_seq [OF this]
  have manifest: "manifest_of saved_entries = borg_manifest"
    unfolding saved_entries_def borg_manifest_def saved_def ..
  have written: "runs d (with_dirs (snap @ [''metadata'']) linked_fs)
      (write_file calm_system (snap @ [''metadata'', ''backup-manifest.jsonl'']) borg_manifest) () snapped_fs"
    unfolding snapped_fs_def by (rule runs_files(3))
  have id: "cm_id sample_canonical = ''c''" by code_simp
  show ?thesis
    unfolding materialize_snapshot_def Let_def borg_parts snap_paths assms for_each.simps(1)
    by (rule entries, rule runs_seq [OF runs_control(1)], rule runs_seq [OF runs_files(5) [OF file_facts(11)]],
        rule runs_seq [OF runs_files(4) [OF file_facts(11)]], rule runs_seq [OF runs_dirs(1) [OF free_paths(4)]])
      (simp add: digests manifest [unfolded saved_entries_def] id, rule runs_seq [OF written], rule runs_control)
qed

section \<open>The backup and its verification\<close>

text \<open>The same with a database that changes.\<close>

definition goes :: "db \<Rightarrow> fs \<Rightarrow> (unit net station, 'a) prog \<Rightarrow> 'a \<Rightarrow> db \<Rightarrow> fs \<Rightarrow> bool" where
  "goes d F m x e G \<longleftrightarrow> (\<forall>w. w_db w = d \<and> w_fs w = F \<longrightarrow> wp m (\<lambda>y v. y = x \<and> w_db v = e \<and> w_fs v = G) (\<lambda>e v. False) w)"

lemma goes_runs: "runs d F m x G \<Longrightarrow> goes d F m x d G"
  by (simp add: runs_def goes_def)

lemma goes_seq: "goes d F m y e G \<Longrightarrow> goes e G (f y) x e' I \<Longrightarrow> goes d F (seq m f) x e' I"
  unfolding goes_def wp_seq by (blast intro: wp_mono)

lemma goes_attempt: "goes d F m x e G \<Longrightarrow> goes d F (attempt m C h) x e G"
  unfolding goes_def wp_attempt by (blast intro: wp_mono)

lemma goes_finalize: "goes d F m x e G \<Longrightarrow> goes e G c () e I \<Longrightarrow> goes d F (finalize m c) x e I"
  unfolding goes_def wp_finalize by (blast intro: wp_mono)

lemma goes_transaction:
  "(\<And>w. w_db w = d \<Longrightarrow> fst (m w) = Inr x \<and> w_db (snd (m w)) = e \<and> w_fs (snd (m w)) = w_fs w) \<Longrightarrow>
     goes d F (transaction m) x e F"
  by (auto simp: goes_def wp_transaction wp_def remember_def split: prod.split sum.split) force+

lemma goes_locked: "goes d F body x e G \<Longrightarrow> goes d F (locked borg_server p busy body) x e G"
  unfolding locked_def
  by (rule goes_seq [OF goes_runs [OF runs_net(1)]]) (simp add: borg_reply_def goes_finalize goes_runs runs_net)

lemma now: "stamp borg_host k = ''now''" "reading borg_host w k = ''now''"
  by (simp_all add: reading_def stamp_def borg_host_def sample_host_def)

definition reconciled_db :: "db \<Rightarrow> db" where
  "reconciled_db d = d\<lparr>accounts := upsert_account ''now'' sample_account_config (disable_unconfigured ''now'' [''a''] (accounts d)),
     backup_repositories := upsert_repository ''now'' borg_repository (backup_repositories d)\<rparr>"

lemma goes_reconciled: "goes d F (reconciled borg_out borg_config) () (reconciled_db d) F"
proof -
  have "account_check sample_account_config" "repository_check borg_repository" "ac_name sample_account_config = ''a''"
    by code_simp+
  then show ?thesis
    unfolding reconciled_def borg_parts
    by (intro goes_transaction)
      (simp add: initialize_def Let_def now reconciled_db_def borg_config_def sample_config_def)
qed

definition backup_row :: backup_run_row where
  "backup_row = new_run borg_out ''mailarchive-t-k'' (hd (backup_repositories (reconciled_db borg_db))) ''now''"

definition started_db :: db where
  "started_db = (reconciled_db borg_db)\<lparr>backup_runs := [backup_row]\<rparr>"

definition saved_db :: db where
  "saved_db = started_db\<lparr>backup_runs := [backup_row\<lparr>bk_status := BackupSucceeded, bk_completed_at := Some ''now'',
       bk_command_exit_code := Some 0, bk_manifest_sha256 := Some manifest_sha\<rparr>],
     message_backup_evidence := [\<lparr>be_canonical_message_id = ''c'', be_backup_run_id = ''k'', be_covered = True,
       be_verified = False, be_recorded_at = ''now''\<rparr>]\<rparr>"

lemma db_facts:
  "finalized started_db = [sample_canonical]" "referenced_attachments started_db = []"
  "backup_runs (reconciled_db borg_db) = []" "message_backup_evidence started_db = []"
  "canonical_messages started_db = [sample_canonical]" "cm_id sample_canonical = ''c''"
  "rp_id (hd (backup_repositories (reconciled_db borg_db))) = 1"
  "repository_of_name ''b'' (reconciled_db borg_db) = Some (hd (backup_repositories (reconciled_db borg_db)))"
  "rp_repository_identity (hd (backup_repositories (reconciled_db borg_db))) = Some borg_id"
  "bk_id backup_row = ''k''" "bo_run_id borg_out = ''k''"
  by code_simp+

lemma goes_start: "goes (reconciled_db borg_db) F
    (start_run borg_out ''mailarchive-t-k'' (hd (backup_repositories (reconciled_db borg_db)))) () started_db F"
  unfolding start_run_def
  by (rule goes_transaction) (simp add: Let_def db_facts borg_parts now started_db_def backup_row_def)

lemma goes_record: "goes started_db F (record_backup borg_out [''c''] manifest_sha) () saved_db F"
  unfolding record_backup_def
  by (rule goes_transaction)
    (simp add: Let_def db_facts borg_parts now saved_db_def update_run_def, simp add: started_db_def db_facts)

end
