(* ===== verification/BorgWitness.thy ===== *)
theory BorgWitness
  imports BorgSample
begin

text \<open>
  The backup of the sample archive and its verification, step by step, and the instances of the
  properties of backups on them.
\<close>

definition backed_fs :: fs where
  "backed_fs q = (if is_prefix_of snap q \<and> 0 \<le> length q then None else snapped_fs q)"

lemma directory_stays: "F q = Some Directory \<Longrightarrow> fold make_dir ps F q = Some Directory"
  by (induction ps arbitrary: F) (auto simp: make_dir_def)

lemma borg_dirs_with: "borg_dirs F \<Longrightarrow> borg_dirs (with_dirs p F)"
  by (auto simp: borg_dirs_def with_dirs_def list_all_iff intro: directory_stays)

definition borg_paths :: "path list" where
  "borg_paths = ancestors [''r'', ''state'', ''borg'', ''b'', ''cache''] @ ancestors [''r'', ''state'', ''borg'', ''b'', ''security'']"

lemma borg_dirs_update: "borg_dirs F \<Longrightarrow> q \<notin> set borg_paths \<Longrightarrow> borg_dirs (F(q := x))"
  unfolding borg_dirs_def borg_paths_def list_all_iff by auto

lemma outside_paths:
  "snap @ [''state'', ''mailarchive.sqlite3''] \<notin> set borg_paths" "snap @ [''mail'', ''m''] \<notin> set borg_paths"
  "snap @ [''metadata'', ''backup-manifest.jsonl''] \<notin> set borg_paths" "list_all (\<lambda>q. \<not> is_prefix_of snap q) borg_paths"
  by code_simp+

lemma dirs_stay: "borg_dirs borg_fs" "borg_dirs snapped_fs" "borg_dirs backed_fs"
proof -
  show borg: "borg_dirs borg_fs" by code_simp
  then show snapped: "borg_dirs snapped_fs"
    unfolding snapped_fs_def linked_fs_def copied_fs_def
    by (intro borg_dirs_update borg_dirs_with outside_paths)
  with outside_paths(4) show "borg_dirs backed_fs"
    unfolding borg_dirs_def borg_paths_def list_all_iff backed_fs_def by auto
qed

lemma version_answer:
  "version_numbers (strip_by str_space (borg_output [''--version''])) = Some (''1'', ''4'', ''0'')"
  "rbind (py_int ''1'') (\<lambda>x. rbind (py_int ''4'') (\<lambda>y. rbind (py_int ''0'') (\<lambda>z. Inr (x, y, z)))) = Inr (1, 4, 0)"
  "supported_version (1, 4, 0)"
  by code_simp+

lemma info_answer: "identity_of_info other (borg_output [''info'', ''--json'', r]) = Inr borg_id"
proof -
  have "borg_output [''info'', ''--json'', r] = dumps '','' '':'' (JObj [(''repository'', JObj [(''id'', JStr borg_id)])])"
    by (simp add: borg_output_def)
  moreover have "length borg_id = 64" by (simp add: borg_id_def)
  ultimately show ?thesis
    using json_roundtrip [of "'',''" "'':''" "JObj [(''repository'', JObj [(''id'', JStr borg_id)])]"]
    by (simp add: identity_of_info_def separators_def dict_of_def put_key_def subscript_def dict_get_def str_of_value_def)
qed

lemma borg_operations:
  "borg_dirs F \<Longrightarrow> runs d F (borg_version borg_out borg_box) (strip_by str_space (borg_output [''--version''])) F"
  "borg_dirs F \<Longrightarrow> runs d F (borg_identity borg_out borg_box) borg_id F"
  "borg_dirs F \<Longrightarrow> runs d F (borg_create borg_out borg_box archive p) () F"
  unfolding borg_version_def borg_identity_def borg_create_def borg_command_def Let_def
proof -
  assume F: "borg_dirs F"
  show "runs d F (seq (run_borg borg_out borg_box [''info'', ''--json'', br_repository_ref (ba_repository borg_box)] (ba_root borg_box))
      (\<lambda>out. lift_result (identity_of_info (bo_repr borg_out) out))) borg_id F"
    by (rule runs_seq [OF runs_command [OF F]], rule runs_control(3), rule info_answer)
  show "runs d F (seq (run_borg borg_out borg_box [''create'', ''--json'', archive_ref borg_box archive, ''.''] p) (\<lambda>out. ret ())) () F"
    by (rule runs_seq [OF runs_command [OF F] runs_control(1)])
  show "runs d F (seq (run_borg borg_out borg_box [''--version''] (ba_root borg_box)) (\<lambda>out.
      case version_numbers (strip_by str_space out) of None \<Rightarrow> fail (BorgError ''unsupported-version'')
      | Some (a, b, c) \<Rightarrow> seq (lift_result (rbind (py_int a) (\<lambda>x. rbind (py_int b) (\<lambda>y. rbind (py_int c) (\<lambda>z. Inr (x, y, z)))))) (\<lambda>v.
         seq (require (supported_version v) (BorgError ''unsupported-version'')) (\<lambda>u. ret (strip_by str_space out)))))
      (strip_by str_space (borg_output [''--version''])) F"
    by (rule runs_seq [OF runs_command [OF F]], unfold version_answer(1) option.case prod.case,
        rule runs_seq [OF runs_control(3) [OF version_answer(2)]], rule runs_seq [OF runs_control(2) [OF version_answer(3)]],
        rule runs_control)
qed

lemma runs_read: "runs d F (read_state (\<lambda>w. f (w_db w))) (f d) F"
  by (simp add: runs_def wp_rules)

lemma runs_rmtree: "runs d snapped_fs (rmtree calm_system snap) () backed_fs"
  by (simp add: runs_def wp_def rmtree_def calm_system_def Let_def put_fs_def bump_def remember_def backed_fs_def fun_eq_iff)

lemma config_facts:
  "repository_config borg_config ''b'' = Inr borg_repository" "br_enabled borg_repository" "br_name borg_repository = ''b''"
  "borg_adapter_for borg_host borg_config borg_repository = Inr borg_box" "cf_archive_root borg_config = [''r'']"
  by code_simp+

lemma goes_build: "goes started_db borg_fs (build_snapshot borg_out borg_config ''k'') ([''c''], manifest_sha) started_db snapped_fs"
  unfolding build_snapshot_def Let_def borg_parts config_facts snap_paths
  by (rule goes_runs, rule runs_seq [OF runs_control(3) [OF sample_paths(2)]], unfold snap_paths, rule runs_attempt,
      rule runs_seq [OF runs_dirs(2)], (use free_paths(1) in blast), (use free_paths(1) in blast),
      rule runs_seq [OF runs_database], rule runs_materialize [OF db_facts(1,2)])

lemma goes_archived: "goes started_db borg_fs (archived_run borg_out borg_config borg_box archive snap) () saved_db backed_fs"
  unfolding archived_run_def Let_def borg_parts db_facts
  by (rule goes_finalize [OF goes_attempt], rule goes_seq [OF goes_build],
      rule goes_seq [OF goes_runs [OF borg_operations(3) [OF dirs_stay(2)]]], unfold fst_conv snd_conv, rule goes_record,
      rule goes_runs [OF runs_rmtree])

lemma goes_backup: "goes borg_db borg_fs (backup_run borg_out borg_config ''b'') ''k'' saved_db backed_fs"
proof -
  let ?row = "hd (backup_repositories (reconciled_db borg_db))"
  have identity: "goes (reconciled_db borg_db) borg_fs (case rp_repository_identity ?row of None \<Rightarrow> fail e
      | Some i \<Rightarrow> seq (borg_identity borg_out borg_box) (\<lambda>ident. require (ident = i) e)) () (reconciled_db borg_db) borg_fs" for e
    unfolding db_facts option.case
    by (rule goes_runs, rule runs_seq [OF borg_operations(2) [OF dirs_stay(1)]], rule runs_control) simp
  have locked: "goes (reconciled_db borg_db) borg_fs (backup_locked borg_out borg_config borg_box ''b'' ''mailarchive-t-k'') () saved_db backed_fs"
    unfolding backup_locked_def borg_parts config_facts db_facts snap_paths
    by (rule goes_seq [OF goes_runs [OF runs_read]], unfold db_facts option.case,
        rule goes_seq [OF goes_runs [OF borg_operations(1) [OF dirs_stay(1)]]], rule goes_seq [OF identity [unfolded db_facts option.case]],
        rule goes_seq [OF goes_start], rule goes_seq [OF goes_runs [OF runs_control(3) [OF sample_paths(2)]]],
        unfold snap_paths, rule goes_archived)
  have under_lock: "goes (reconciled_db borg_db) borg_fs (borg_locked borg_out borg_config ''b''
      (backup_locked borg_out borg_config borg_box ''b'' ''mailarchive-t-k'')) () saved_db backed_fs"
    unfolding borg_locked_def borg_parts by (rule goes_locked [OF locked])
  have name: "runs d F (archive_name borg_out) ''mailarchive-t-k'' F" for d F
    by (simp add: runs_def wp_def archive_name_def borg_out_def)
  show ?thesis
    unfolding backup_run_def borg_parts config_facts
    by (rule goes_seq [OF goes_reconciled], rule goes_seq [OF goes_runs [OF runs_control(3) [OF refl]]],
        unfold config_facts, rule goes_seq [OF goes_runs [OF runs_control(2) [OF config_facts(2)]]],
        rule goes_seq [OF goes_runs [OF runs_control(3) [OF refl]]], rule goes_seq [OF goes_runs [OF name]],
        rule goes_seq [OF under_lock])
      (simp add: db_facts goes_runs runs_control)
qed

section \<open>Verification\<close>

definition found_run :: backup_run_row where
  "found_run = hd (backup_runs saved_db)"

definition found_repository :: repository_row where
  "found_repository = hd (upsert_repository ''now'' borg_repository (backup_repositories (reconciled_db borg_db)))"

definition verified_db :: db where
  "verified_db = (reconciled_db saved_db)\<lparr>backup_runs := [found_run\<lparr>bk_verification_status := Verified,
       bk_verified_at := Some ''now'', bk_last_error_kind := None\<rparr>],
     message_backup_evidence := [\<lparr>be_canonical_message_id = ''c'', be_backup_run_id = ''k'', be_covered = True,
       be_verified = True, be_recorded_at = ''now''\<rparr>]\<rparr>"

lemma saved_rows:
  "backup_repositories (reconciled_db saved_db) = upsert_repository ''now'' borg_repository (backup_repositories (reconciled_db borg_db))"
  "backup_runs (reconciled_db saved_db) = [found_run]" "message_backup_evidence (reconciled_db saved_db) = message_backup_evidence saved_db"
  by (simp_all add: reconciled_db_def saved_db_def started_db_def found_run_def)

lemma repository_facts:
  "upsert_repository ''now'' borg_repository (backup_repositories (reconciled_db borg_db)) = [found_repository]"
  "rp_name found_repository = ''b''" "rp_repository_identity found_repository = Some borg_id" "rp_id found_repository = 1"
  by code_simp+

lemma run_facts:
  "bk_status found_run = BackupSucceeded" "bk_manifest_sha256 found_run = Some manifest_sha" "bk_id found_run = ''k''"
  "bk_repository_id found_run = 1" "manifest_sha \<noteq> []"
  by (simp_all add: found_run_def saved_db_def db_facts manifest_sha_def)
    (simp add: backup_row_def new_run_def db_facts)

lemma found: "run_of ''k'' (reconciled_db saved_db) = Some (found_run, found_repository)"
  by (simp add: run_of_def saved_rows repository_facts run_facts)

lemma saved_lines: "small (JObj (sort_key fst saved))" "small (JObj (sort_key fst (sqlite_entry sample_sha 0)))"
  "manifest_record (pyval_of (JObj (sort_key fst saved))) = Some (''mail/m'', 1, sample_sha)"
  "manifest_record (pyval_of (JObj (sort_key fst (sqlite_entry sample_sha 0)))) = Some (''state/mailarchive.sqlite3'', 0, sample_sha)"
  by code_simp+

lemma sorted_entries: "sort_key (\<lambda>e. (entry_text e ''kind'', entry_text e ''path'')) [saved, sqlite_entry sample_sha 0] =
    [saved, sqlite_entry sample_sha 0]"
  by code_simp

definition saved_objects :: inventory_rows where
  "saved_objects = [(''mail/m'', 1, sample_sha), (''state/mailarchive.sqlite3'', 0, sample_sha)]"

lemma parsed_manifest: "parse_manifest borg_manifest = Inr saved_objects" "expected_inventory saved_objects = Inr saved_objects"
proof -
  have manifest: "borg_manifest = manifest_of [saved, sqlite_entry sample_sha 0]" by (simp add: borg_manifest_def saved_def)
  have "lines_by byte_break [] borg_manifest = [butlast (manifest_line saved), butlast (manifest_line (sqlite_entry sample_sha 0))]"
    by (simp only: manifest manifest_lines sorted_entries list.map)
  moreover have "read_record (butlast (manifest_line saved)) = Inr (''mail/m'', 1, sample_sha)"
    "read_record (butlast (manifest_line (sqlite_entry sample_sha 0))) = Inr (''state/mailarchive.sqlite3'', 0, sample_sha)"
    by (simp_all only: read_record_def line_json saved_lines if_True sum.case option.case)
  ultimately show "parse_manifest borg_manifest = Inr saved_objects"
    by (simp add: parse_manifest_def saved_objects_def ensure_def)
  show "expected_inventory saved_objects = Inr saved_objects"
    by (simp add: expected_inventory_def saved_objects_def ensure_def)
qed

lemma utf8_ascii: "list_all is_ascii s \<Longrightarrow> utf8 s = s"
  by (induction s) (simp_all add: utf8_def utf8_char_def)

lemma manifest_plain: "utf8 borg_manifest = borg_manifest"
proof -
  have "list_all is_ascii (dumps '','' '':'' j)" for j
    by (rule plain_ascii, rule plain_dumps) (simp_all add: plain_def)
  then have "list_all is_ascii (manifest_line e)" for e
    unfolding manifest_line_def list_all_append by (simp add: is_ascii_def del: dumps.simps)
  then have "list_all is_ascii borg_manifest" by (auto simp: borg_manifest_def manifest_of_def list_all_iff)
  then show ?thesis by (rule utf8_ascii)
qed

lemma manifest_length: "int_text (int (length borg_manifest)) = ''318''"
  by code_simp

definition listed :: inventory_rows where
  "listed = saved_objects @ [(MANIFEST_PATH, 318, manifest_sha)]"

lemma listed: "inventory_of (lines_by str_break [] (borg_output [''list'', ''--format'', LIST_FORMAT, a])) [] = Inr listed"
proof -
  have "borg_output [''list'', ''--format'', LIST_FORMAT, a] = listing_line ''mail/m'' ''1'' sample_sha @
      listing_line ''state/mailarchive.sqlite3'' ''0'' sample_sha @ listing_line MANIFEST_PATH ''318'' manifest_sha"
    by (simp add: borg_output_def manifest_length)
  moreover have "inventory_of (lines_by str_break [] (listing_line ''mail/m'' ''1'' sample_sha @
      listing_line ''state/mailarchive.sqlite3'' ''0'' sample_sha @ listing_line MANIFEST_PATH ''318'' manifest_sha)) [] = Inr listed"
    by code_simp
  ultimately show ?thesis by simp
qed

lemma length_manifest: "int (length borg_manifest) = 318"
  by code_simp

lemma inventories_agree:
  "same_dict listed (AList.update MANIFEST_PATH (int (length borg_manifest), h_sha256 borg_host borg_manifest) saved_objects)"
  unfolding length_manifest digests(3) by code_simp

lemma runs_verify_archive:
  assumes F: "borg_dirs F"
  shows "runs d F (verify_archive borg_out borg_box found_run found_repository) () F"
proof -
  note command = runs_seq [OF runs_command [OF F]]
  have manifest: "runs d F (manifest_bytes borg_out borg_box a) borg_manifest F" for a
    unfolding manifest_bytes_def borg_command_def
    by (rule command) (simp add: borg_output_def manifest_plain runs_control)
  have inventory: "runs d F (borg_inventory borg_out borg_box a) listed F" for a
    unfolding borg_inventory_def borg_command_def by (rule command, rule runs_control(3), rule listed)
  have data: "runs d F (verify_data borg_out borg_box a) () F" for a
    unfolding verify_data_def borg_command_def by (rule command, rule runs_control)
  show ?thesis
    unfolding verify_archive_def Let_def borg_parts
    by (rule runs_seq [OF borg_operations(2) [OF F]], rule runs_seq [OF runs_control(2)], simp add: repository_facts,
        rule runs_seq [OF manifest], rule runs_seq [OF runs_control(2)], simp add: run_facts digests,
        rule runs_seq [OF runs_control(3) [OF parsed_manifest(1)]], rule runs_seq [OF runs_control(3) [OF parsed_manifest(2)]],
        rule runs_seq [OF inventory], rule runs_seq [OF runs_control(2) [OF inventories_agree]], rule data)
qed

lemma goes_confirm: "goes (reconciled_db saved_db) F (confirm_verification borg_host ''k'') () verified_db F"
  unfolding confirm_verification_def
  by (rule goes_transaction)
    (simp add: Let_def update_run_def saved_rows run_facts now verified_db_def, simp add: saved_db_def)

lemma goes_verify: "goes saved_db backed_fs (verify_run borg_out borg_config ''k'') () verified_db backed_fs"
proof -
  have locked: "goes d backed_fs (borg_locked borg_out borg_config ''b'' (verify_archive borg_out borg_box found_run found_repository)) ()
      d backed_fs" for d
    unfolding borg_locked_def borg_parts by (rule goes_locked [OF goes_runs [OF runs_verify_archive [OF dirs_stay(3)]]])
  have "goes (reconciled_db saved_db) backed_fs (verify_found borg_out borg_config ''k'' found_run found_repository) () verified_db backed_fs"
    unfolding verify_found_def Let_def borg_parts repository_facts
    by (rule goes_seq [OF goes_runs [OF runs_control(2)]], simp add: run_facts,
        rule goes_seq [OF goes_runs [OF runs_control(3) [OF config_facts(1)]]],
        rule goes_seq [OF goes_runs [OF runs_control(3) [OF config_facts(4)]]], unfold config_facts(3),
        rule goes_seq [OF goes_attempt [OF locked]], rule goes_confirm)
  then show ?thesis
    unfolding verify_run_def
    by (intro goes_seq [OF goes_reconciled] goes_seq [OF goes_runs [OF runs_read]]) (simp add: found)
qed

section \<open>Instances\<close>

lemma goesE:
  assumes "goes d F m x e G" "w_db w = d" "w_fs w = F"
  obtains v where "m w = (Inr x, v)" "w_db v = e" "w_fs v = G"
proof -
  from assms have "wp m (\<lambda>y v. y = x \<and> w_db v = e \<and> w_fs v = G) (\<lambda>e v. False) w"
    unfolding goes_def by blast
  then show ?thesis using that by (cases "m w"; cases "fst (m w)") (auto simp: wp_def)
qed

definition saved_station :: "unit net station" where
  "saved_station = borg_station\<lparr>w_db := saved_db, w_fs := backed_fs\<rparr>"


lemma saved_digest: "find (\<lambda>r. bk_id r = ''k'') (backup_runs saved_db) = Some found_run"
  by (simp add: saved_db_def found_run_def db_facts)

lemma one_manifest:
  assumes "h_sha256 borg_host m = manifest_sha"
  shows "m = borg_manifest"
proof (rule ccontr)
  assume "m \<noteq> borg_manifest"
  then have "h_sha256 borg_host m = sample_sha" by (simp add: borg_host_def)
  moreover have "sample_sha \<noteq> manifest_sha" by code_simp
  ultimately show False using assms by simp
qed

theorem verified_backup_holds_every_message_witness:
  "\<exists>v u answers archive listed inventory. backup_run borg_out borg_config ''b'' borg_station = (Inr ''k'', v) \<and>
     verify_run borg_out borg_config ''k'' v = (Inr (), u) \<and> borg_answers u = borg_answers v @ answers \<and>
     ([''list'', ''--format'', LIST_FORMAT, archive], listed) \<in> set answers \<and>
     inventory_of (lines_by str_break [] listed) [] = Inr inventory \<and>
     list_ex (\<lambda>x. snd x = (1, sample_sha)) inventory"
proof -
  obtain v where backup: "backup_run borg_out borg_config ''b'' borg_station = (Inr ''k'', v)"
    and v: "w_db v = saved_db" "w_fs v = backed_fs"
    by (rule goesE [OF goes_backup, of borg_station]) (simp_all add: borg_station_def)
  obtain u where verify: "verify_run borg_out borg_config ''k'' v = (Inr (), u)"
    by (rule goesE [OF goes_verify v])
  have place: "plain_archive (bo_host borg_out) borg_config"
    by (auto simp: plain_archive_def borg_parts resolved_def borg_host_def sample_host_def split: if_splits)
  have unique: "m = m'" if "find (\<lambda>r. bk_id r = ''k'') (backup_runs (w_db v)) = Some run"
    "bk_manifest_sha256 run = Some (h_sha256 (bo_host borg_out) m)"
    "bk_manifest_sha256 run = Some (h_sha256 (bo_host borg_out) m')" for run m m'
  proof -
    from that(1) have "run = found_run" by (simp add: v saved_digest)
    with that(2,3) have "h_sha256 borg_host m = manifest_sha" "h_sha256 borg_host m' = manifest_sha"
      by (simp_all add: run_facts borg_parts)
    then show ?thesis by (metis one_manifest)
  qed
  have "\<exists>answers archive listed inventory. borg_answers u = borg_answers v @ answers \<and>
     ([''list'', ''--format'', LIST_FORMAT, archive], listed) \<in> set answers \<and>
     inventory_of (lines_by str_break [] listed) [] = Inr inventory \<and>
     list_all (\<lambda>c. list_ex (\<lambda>x. snd x = (cm_size_bytes c, cm_sha256 c)) inventory \<and>
       list_ex (\<lambda>e. be_canonical_message_id e = cm_id c \<and> be_backup_run_id e = ''k'' \<and> be_verified e)
         (message_backup_evidence (w_db u))) (finalized (w_db borg_station))"
    by (rule verified_backup_holds_every_message [OF backup verify refl subset_refl place]) (rule unique)
  moreover have "finalized (w_db borg_station) = [sample_canonical]"
    using db_facts(1) by (simp add: finalized_def borg_station_def started_db_def reconciled_db_def)
  moreover have "cm_size_bytes sample_canonical = 1" "cm_sha256 sample_canonical = sample_sha"
    by (simp_all add: sample_canonical_def)
  ultimately show ?thesis using backup verify by auto
qed

theorem bound_repository_stays_bound_witness:
  "bound_to ''b'' (w_db (snd (repo_init borg_out borg_config ''b'' borg_station))) = Some borg_id"
proof -
  obtain r v where run: "repo_init borg_out borg_config ''b'' borg_station = (r, v)" by fastforce
  have "bound_to ''b'' (w_db borg_station) = Some borg_id"
    by (simp add: bound_to_def repository_of_name_def borg_station_def borg_db_def sample_db_def)
  from bound_repository_stays_bound [OF run this] run show ?thesis by simp
qed

end
