(* ===== verification/Spec2Isabelle.thy ===== *)
theory Spec2Isabelle
  imports WiredWitness ConfigWitness GmailWitness BorgWitness
begin

text \<open>
  Verification development of MailArchive (\<open>src/src/mailarchive\<close>), a local archive of mail fetched
  from IMAP, Gmail and POP3 accounts that can, under explicit control, delete the remote copy of a
  message once the local one is proved safe.

  \<^bold>\<open>How the program works.\<close>  A YAML file becomes a typed configuration (\<open>config.py\<close>, \<open>models.py\<close>).
  An acquisition adapter (\<open>imap.py\<close>, \<open>pop3.py\<close>, \<open>gmail.py\<close>) lists a mailbox and hands the exact octets
  of every unknown message to \<open>ingest.py\<close>, which stores them once under their SHA-256 in a staging
  Maildir and registers them in the SQLite inventory (\<open>db.py\<close>); the adapter links the provider's
  identity to the canonical message; \<open>classification.py\<close> asks a local spam filter and moves the file
  to the archive or to quarantine.  \<open>retention.py\<close> decides which remote copies may be deleted.
  \<open>remote_mutation.py\<close> plans deletions (dry run), executes a plan serially through one of three
  destructive adapters (\<open>imap_mutation.py\<close>, \<open>pop3_mutation.py\<close>, \<open>gmail_mutation.py\<close>), and reconciles
  what an interrupted execution left open.  \<open>borg.py\<close> archives a snapshot of all finalized messages
  with Borg and verifies the archive; the verified rows it leaves are the backup evidence that
  \<open>retention.py\<close> counts before a remote copy may go.

  \<^bold>\<open>Vocabulary.\<close>
  \<^item> \<open>Prelude\<close>: results (an exception is the left value of a sum, one constructor per exception class the
    code tells apart), tables as row lists, the locale \<open>keyed_update\<close> for an UPDATE that keeps a key.
  \<^item> \<open>PyText\<close>, \<open>Url\<close>: the parts of Python's text, JSON, URL and path libraries the program uses, with
    the injectivity facts of the serialised forms.  \<open>Json\<close>: \<open>json.loads\<close>, which reads back what
    \<open>json.dumps\<close> wrote, except integers too long for \<open>int()\<close>.
  \<^item> \<open>Models\<close>, \<open>Database\<close>, \<open>Inventory\<close>: the dataclasses, the tables at schema version 13 with their
    CHECK constraints and keys, and the operations of \<open>db.py\<close>.  The world of an operation is the
    database, the files, a count of clock readings and the provider's side.
  \<^item> \<open>Effects\<close>: programs as functions of the state that return or raise and leave a state either way,
    with weakest preconditions for return and exception.  \<open>Wire\<close>: provider commands with replies from
    an arbitrary peer, and their trace; \<open>adds\<close> says what a program can add to it.
  \<^item> \<open>Disk\<close>: system calls that may fail, tear a write, or meet files of other processes, with the
    history of every moment's files and database, so that a crash at any moment is a recorded state.

  \<^bold>\<open>Components.\<close>
  \<^item> \<open>Config\<close>: \<open>load_config\<close> from a parsed document and \<open>display_config\<close> (C30 to C32, C34).
  \<^item> \<open>Retention\<close>: \<open>evaluate\<close>, \<open>evaluate_all\<close>, \<open>set_control\<close> (C2, C4); \<open>Inventory\<close>: C1.
  \<^item> \<open>MutationCore\<close> (targets, fingerprints, result matrix; C7, C8), \<open>MutationPlan\<close> (\<open>plan_dry_run\<close>; C9),
    \<open>MutationExec\<close> (\<open>_execute_serial\<close>, \<open>execute_fake\<close>; C10, C11), \<open>MutationProduction\<close>
    (\<open>execute_production_plan\<close>; C12 to C14), \<open>MutationReconcile\<close> (\<open>reconcile_production_run\<close>,
    \<open>remote_mutation_status\<close>; C15 to C17).
  \<^item> \<open>ImapProtocol\<close> (the FETCH parser; C18), \<open>ImapMutation\<close> (C20, C21), \<open>Pop3Mutation\<close> (C22),
    \<open>GmailProtocol\<close> (\<open>decode_raw\<close>; C24), \<open>GmailMutation\<close> (C26): the destructive adapters, over
    arbitrary servers.  \<open>AdapterContract\<close> states as locales what each of them promises, an outcome
    settled by evidence in its own trace; \<open>ProviderAdapters\<close> interprets the contract on the three
    adapters and composes them with the execution (C29): a row recorded as succeeded belongs to a
    message whose absence the provider showed after the execution began.
  \<^item> \<open>Ingest\<close> (C35), \<open>Classification\<close> (C37 to C39): admission and transitions over \<open>Disk\<close>; the locale
    \<open>transition\<close> holds the invariant of a move, interpreted on the paths the code computes.
  \<^item> \<open>PopStream\<close>, \<open>Pop3Wire\<close>: the octet stream of a POP3 connection and the two clients of \<open>pop3.py\<close>
    and \<open>pop3_mutation.py\<close> (C25); \<open>mutation_wire\<close> is the second as a wire for the deletion adapter.
  \<^item> \<open>Acquire\<close>, \<open>Pop3Sync\<close>, \<open>ImapSync\<close>: link registration and the synchronizations (C5, C36).  The
    locale \<open>step_frame\<close> carries a relation between states through files and control flow, and
    \<open>acquisition_frame\<close>, which extends it, through every local part of an acquisition; they are
    interpreted on what was sent, on the bindings kept and, for backups, on what Borg answered.
  \<^item> \<open>Paging\<close>, \<open>GmailClient\<close>, \<open>GmailStore\<close>, \<open>GmailSync\<close>: Gmail acquisition.  A client request with
    its retries and the refresh of the credential (C3); the label catalogue, the registration of a
    message and the row with the history checkpoint; listing the mailbox or its history, reconciling
    each message, moving the checkpoint last.  \<open>GmailFrame\<close> carries a relation between states through
    all of it (the locales \<open>gmail_frame\<close>, \<open>gmail_scan\<close> and \<open>gmail_run\<close>, each extending the one before);
    it is interpreted on what was sent (C33) and on the bindings kept in \<open>GmailSafety\<close>, and on the
    checkpoints and the marks of presence in \<open>GmailInventory\<close>.  \<open>GmailOutcome\<close>: how a run ends (C6).
  \<^item> \<open>BorgAdapter\<close> (the process and its commands), \<open>BorgSnapshot\<close> (\<open>_build_snapshot\<close>, the manifest and
    how it is read), \<open>BorgRuns\<close> (\<open>repo_init\<close>, \<open>backup_run\<close>, \<open>verify_run\<close>, \<open>restore_test\<close>, \<open>status\<close>).
    \<open>BorgEvidence\<close>: the answers behind a verification, and what it does to the evidence rows (C23);
    \<open>BorgBackup\<close>: from the saved database over the manifest to the inventory of a verified run (C27);
    \<open>BorgSafety\<close>: the commands that are never sent (C28) and the binding of a name (C40).
  \<^item> \<open>Witnesses\<close>, \<open>ProviderWitnesses\<close>, \<open>WiredWitness\<close>, \<open>ConfigWitness\<close>, \<open>ArchiveWitness\<close>,
    \<open>AcquireWitness\<close>, \<open>GmailWitness\<close>, \<open>BorgWitness\<close> (with \<open>BorgSample\<close>): concrete worlds, built on \<open>Samples\<close>,
    in which the hypotheses hold.

  \<^bold>\<open>Parameters.\<close>  What is not under \<open>src\<close> is an argument: SHA-256, the clock, \<open>isoformat\<close> and
  \<open>fromisoformat\<close>, path resolution and the environment (record \<open>host\<close>); the YAML and time zone
  libraries; the email parser (\<open>mail_parser\<close>); the spam filter's HTTP answer; servers, sockets, TLS,
  imaplib, the OAuth library, the Borg process and advisory locks (the \<open>peer\<close> of a trace); SQLite's online
  backup and its checks of a file, \<open>strftime\<close>, the drawn run id, \<open>str()\<close> of a container and the files an
  extraction leaves (\<open>borg_outside\<close>).  No claim assumes a server
  to be honest; the claims that need it name the library behaviour they use, for instance that
  imaplib returns the untagged replies of the command it sent, or that unlocking a file does not
  fail (\<open>releases\<close>).

  \<^bold>\<open>Bounds and termination.\<close>  Loops recurse on lists, on the octets still to come (\<open>read_lines\<close>,
  \<open>message_lines\<close>) or on the bounded number of attempts.  Only a listing in pages has a bound of the
  model, \<open>go_pages\<close>: a server may name fresh page tokens for ever, and a listing that reaches the
  bound raises \<open>Unfinished\<close>, which no part of the program handles.  With finitely many tokens, any
  bound above their number is never reached and gives the same run (C19).  The JSON parser recurses on
  fuel, twice the length of the text and two, and any larger amount gives the same result (\<open>parse_bound\<close>).  The pauses between two
  attempts of a request change no state and are left out.  Characters are octets, so
  a text is restricted to code points below 256.  Integers are unbounded as in Python; where SQLite
  or \<open>int()\<close> refuses a large one, the refusal is a branch.

  \<^bold>\<open>Not modelled.\<close>  Schema migrations and connection settings of \<open>db.py\<close> (the database is at version
  13); the loss of unflushed data in a crash; the Gmail watcher and the interactive OAuth
  authorization (\<open>gmail.py\<close>), the IMAP fast path (\<open>fastpath.py\<close>); the index, search
  and attachment tools (\<open>notmuch.py\<close>, \<open>recoll.py\<close>, \<open>attachments.py\<close>), which run external programs on
  derived state; the command line (\<open>cli.py\<close>) and \<open>logging.py\<close>, which only dispatch and print.  The
  refresh of the search indexes after a transition touches derived files only and is left out.
\<close>

end
